(* ===== verification/Prelude.thy ===== *)
theory Prelude
  imports Complex_Main "HOL-Library.Word" "HOL-Library.List_Lexorder" "HOL-Library.Char_ord"
begin

text \<open>
  What every other theory of this development shares: Go's strings and byte slices (both are
  \<open>string\<close>, a list of 8-bit characters), the operations of package \<open>strings\<close> the issuer uses,
  \<open>time.Time\<close> and \<open>time.Duration\<close>, 64-bit wrap-around, HTTP answers, and the generic
  lemmas on lists and maps.
\<close>

named_theorems go_string "evaluation of the string operations"
named_theorems go_time "unfolding of the time arithmetic"

section \<open>Strings and bytes\<close>

text \<open>A Go string or byte slice. A character is one byte, so \<open>length\<close> is Go's \<open>len\<close>.\<close>

type_synonym bytes = string

abbreviation byte_of :: "char \<Rightarrow> nat" where
  "byte_of c \<equiv> (of_char c :: nat)"

abbreviation byte :: "nat \<Rightarrow> char" where
  "byte n \<equiv> (char_of n :: char)"

definition has_prefix :: "string \<Rightarrow> string \<Rightarrow> bool" where
  "has_prefix s p \<longleftrightarrow> take (length p) s = p"

definition has_suffix :: "string \<Rightarrow> string \<Rightarrow> bool" where
  "has_suffix s p \<longleftrightarrow> has_prefix (rev s) (rev p)"

definition trim_prefix :: "string \<Rightarrow> string \<Rightarrow> string" where
  "trim_prefix s p = (if has_prefix s p then drop (length p) s else s)"

definition trim_suffix :: "string \<Rightarrow> string \<Rightarrow> string" where
  "trim_suffix s p = (if has_suffix s p then take (length s - length p) s else s)"

text \<open>
  \<open>strings.TrimSpace\<close> drops the code points of \<open>unicode.IsSpace\<close>: six ASCII bytes, and the
  UTF-8 encodings of the others.
\<close>

definition go_spaces :: "string list" where
  "go_spaces = map (\<lambda>n. [byte n]) [9, 10, 11, 12, 13, 32]
     @ [[byte 0xC2, byte 0x85], [byte 0xC2, byte 0xA0], [byte 0xE1, byte 0x9A, byte 0x80]]
     @ map (\<lambda>n. [byte 0xE2, byte 0x80, byte n])
         [0x80, 0x81, 0x82, 0x83, 0x84, 0x85, 0x86, 0x87, 0x88, 0x89, 0x8A, 0xA8, 0xA9, 0xAF]
     @ [[byte 0xE2, byte 0x81, byte 0x9F], [byte 0xE3, byte 0x80, byte 0x80]]"

text \<open>
  \<open>trim_left sps s\<close> drops, as long as there is one, a leading member of \<open>sps\<close>. Every
  round shortens the string, so \<open>length s\<close> rounds are enough.
\<close>

fun trim_rounds :: "nat \<Rightarrow> string list \<Rightarrow> string \<Rightarrow> string" where
  "trim_rounds 0 sps s = s"
| "trim_rounds (Suc n) sps s =
     (case find (has_prefix s) sps of
        None \<Rightarrow> s
      | Some p \<Rightarrow> trim_rounds n sps (drop (length p) s))"

definition trim_left :: "string list \<Rightarrow> string \<Rightarrow> string" where
  "trim_left sps s = trim_rounds (length s) sps s"

definition trim_space :: "string \<Rightarrow> string" where
  "trim_space s = rev (trim_left (map rev go_spaces) (rev (trim_left go_spaces s)))"

text \<open>
  \<open>strings.ToLower\<close> on ASCII text. Go also folds the other Unicode letters; the bytes above
  127 are left alone here, and the properties that use it say so in their hypotheses.
\<close>

definition lower_char :: "char \<Rightarrow> char" where
  "lower_char c = (if 65 \<le> byte_of c \<and> byte_of c \<le> 90 then byte (byte_of c + 32) else c)"

definition to_lower :: "string \<Rightarrow> string" where
  "to_lower = map lower_char"

definition upper_char :: "char \<Rightarrow> char" where
  "upper_char c = (if 97 \<le> byte_of c \<and> byte_of c \<le> 122 then byte (byte_of c - 32) else c)"

definition to_upper :: "string \<Rightarrow> string" where
  "to_upper = map upper_char"

definition ascii :: "string \<Rightarrow> bool" where
  "ascii s \<longleftrightarrow> list_all (\<lambda>c. byte_of c < 128) s"

text \<open>\<open>strings.IndexByte\<close> and \<open>strings.LastIndex\<close> of one byte; \<open>None\<close> is Go's -1.\<close>

fun index_byte :: "string \<Rightarrow> char \<Rightarrow> nat option" where
  "index_byte [] c = None"
| "index_byte (x # xs) c = (if x = c then Some 0 else map_option Suc (index_byte xs c))"

definition last_index :: "string \<Rightarrow> char \<Rightarrow> nat option" where
  "last_index s c = map_option (\<lambda>i. length s - 1 - i) (index_byte (rev s) c)"

definition contains_any :: "string \<Rightarrow> string \<Rightarrow> bool" where
  "contains_any s cs \<longleftrightarrow> list_ex (\<lambda>x. x \<in> set cs) s"

definition remove_byte :: "string \<Rightarrow> char \<Rightarrow> string" where
  "remove_byte s c = filter (\<lambda>x. x \<noteq> c) s"

definition join :: "string \<Rightarrow> string list \<Rightarrow> string" where
  "join sep xs = (case xs of [] \<Rightarrow> [] | y # ys \<Rightarrow> y @ concat (map (\<lambda>z. sep @ z) ys))"

text \<open>\<open>hex.EncodeToString\<close> and \<open>hex.DecodeString\<close> (either case, an odd length fails).\<close>

definition hex_digit :: "nat \<Rightarrow> char" where
  "hex_digit n = ''0123456789abcdef'' ! n"

definition hex_encode :: "bytes \<Rightarrow> string" where
  "hex_encode b = concat (map (\<lambda>c. [hex_digit (byte_of c div 16), hex_digit (byte_of c mod 16)]) b)"

definition hex_value :: "char \<Rightarrow> nat option" where
  "hex_value c = (let n = byte_of c in
     if 48 \<le> n \<and> n \<le> 57 then Some (n - 48)
     else if 97 \<le> n \<and> n \<le> 102 then Some (n - 87)
     else if 65 \<le> n \<and> n \<le> 70 then Some (n - 55)
     else None)"

fun hex_decode :: "string \<Rightarrow> bytes option" where
  "hex_decode [] = Some []"
| "hex_decode [_] = None"
| "hex_decode (a # b # s) =
     (case (hex_value a, hex_value b, hex_decode s) of
        (Some x, Some y, Some r) \<Rightarrow> Some (byte (16 * x + y) # r)
      | _ \<Rightarrow> None)"

section \<open>Machine integers and time\<close>

text \<open>
  Go's \<open>int\<close> and \<open>int64\<close> on the server's 64-bit platform: the result of an operation is brought
  back to the signed range by \<open>wrap64\<close>.
\<close>

definition max_int64 :: int where
  "max_int64 = 9223372036854775807"

definition min_int64 :: int where
  "min_int64 = - 9223372036854775808"

definition wrap64 :: "int \<Rightarrow> int" where
  "wrap64 n = (n + 9223372036854775808) mod 18446744073709551616 - 9223372036854775808"

text \<open>
  \<open>time.Time\<close> is the number of nanoseconds since Go's zero time (so \<open>IsZero\<close> is \<open>t = 0\<close>) and
  \<open>time.Duration\<close> a number of nanoseconds. \<open>Time.Sub\<close> saturates at the limits of \<open>int64\<close>;
  \<open>time.Duration(n) * time.Second\<close> is an \<open>int64\<close> product and wraps.
\<close>

type_synonym time = int
type_synonym duration = int

definition sub_time :: "time \<Rightarrow> time \<Rightarrow> duration" where
  "sub_time t u = (let d = t - u in
     if d > max_int64 then max_int64 else if d < min_int64 then min_int64 else d)"

definition seconds :: "int \<Rightarrow> duration" where
  "seconds n = wrap64 (n * 1000000000)"

definition ns_second :: duration where
  "ns_second = 1000000000"

definition ns_minute :: duration where
  "ns_minute = 60000000000"

definition ns_hour :: duration where
  "ns_hour = 3600000000000"

definition ns_day :: duration where
  "ns_day = 86400000000000"

lemmas time_units = ns_second_def ns_minute_def ns_hour_def ns_day_def

lemma wrap64_id [simp]: "min_int64 \<le> n \<Longrightarrow> n \<le> max_int64 \<Longrightarrow> wrap64 n = n"
  by (simp add: wrap64_def min_int64_def max_int64_def)

lemma wrap64_range: "min_int64 \<le> wrap64 n" "wrap64 n \<le> max_int64"
proof -
  have "0 \<le> (n + 9223372036854775808) mod 18446744073709551616"
    "(n + 9223372036854775808) mod 18446744073709551616 < (18446744073709551616::int)"
    by simp_all
  then show "min_int64 \<le> wrap64 n" "wrap64 n \<le> max_int64"
    unfolding wrap64_def min_int64_def max_int64_def by linarith+
qed

lemma seconds_exact:
  "0 \<le> n \<Longrightarrow> n \<le> 9223372036 \<Longrightarrow> seconds n = n * 1000000000"
  by (simp add: seconds_def min_int64_def max_int64_def)

lemma sub_time_gt:
  "w < max_int64 \<Longrightarrow> min_int64 \<le> w \<Longrightarrow> sub_time t u > w \<longleftrightarrow> t - u > w"
  by (auto simp: sub_time_def Let_def)

text \<open>\<open>Unix\<close> and \<open>UnixNano\<close>: counted from 1970, the latter in an \<open>int64\<close>.\<close>

definition unix_epoch :: time where
  "unix_epoch = 62135596800000000000"

definition unix_nano :: "time \<Rightarrow> int" where
  "unix_nano t = wrap64 (t - unix_epoch)"

definition unix_seconds :: "time \<Rightarrow> int" where
  "unix_seconds t = (t - unix_epoch) div 1000000000"

text \<open>\<open>%d\<close>.\<close>

fun nat_string :: "nat \<Rightarrow> string" where
  "nat_string n = (if n < 10 then [byte (48 + n)] else nat_string (n div 10) @ [byte (48 + n mod 10)])"

declare nat_string.simps [simp del]

definition int_string :: "int \<Rightarrow> string" where
  "int_string i = (if i < 0 then ''-'' @ nat_string (nat (- i)) else nat_string (nat i))"

section \<open>Maps, lists and options\<close>

text \<open>
  The facts the stores share. A Go map that is only looked up is a map \<open>'k \<rightharpoonup> 'v\<close>; one the code
  ranges over is an association list with distinct keys, read through \<open>map_of\<close>.
\<close>

definition alist_put :: "'k \<Rightarrow> 'v \<Rightarrow> ('k \<times> 'v) list \<Rightarrow> ('k \<times> 'v) list" where
  "alist_put k v xs =
     (if k \<in> fst ` set xs then map (\<lambda>(k', v'). (k', if k' = k then v else v')) xs
      else xs @ [(k, v)])"

definition alist_del :: "'k \<Rightarrow> ('k \<times> 'v) list \<Rightarrow> ('k \<times> 'v) list" where
  "alist_del k xs = filter (\<lambda>(k', v'). k' \<noteq> k) xs"

lemma map_of_map_update:
  "map_of (map (\<lambda>(k', v'). (k', if k' = k then v else v')) xs) j =
     (if j = k then (if k \<in> fst ` set xs then Some v else None) else map_of xs j)"
proof (induction xs)
  case (Cons x xs)
  then show ?case by (cases x; cases "j = k"; cases "fst x = k") auto
qed simp

lemma map_of_append_single:
  "k \<notin> fst ` set xs \<Longrightarrow> map_of (xs @ [(k, v)]) = (map_of xs)(k \<mapsto> v)"
  using map_add_comm [of "[k \<mapsto> v]" "map_of xs"] by (simp add: dom_map_of_conv_image_fst)

lemma map_of_alist_put [simp]: "map_of (alist_put k v xs) = (map_of xs)(k \<mapsto> v)"
  by (cases "k \<in> fst ` set xs")
    (auto simp add: alist_put_def map_of_map_update map_of_append_single fun_eq_iff
      simp del: map_of_append)

lemma keys_alist_put [simp]: "fst ` set (alist_put k v xs) = insert k (fst ` set xs)"
  by (force simp: alist_put_def)

lemma distinct_alist_put [simp]:
  "distinct (map fst xs) \<Longrightarrow> distinct (map fst (alist_put k v xs))"
  by (auto simp: alist_put_def comp_def case_prod_beta)

lemma map_of_alist_del [simp]: "map_of (alist_del k xs) = (map_of xs)(k := None)"
  by (induction xs) (auto simp: alist_del_def fun_eq_iff)

lemma distinct_alist_del [simp]:
  "distinct (map fst xs) \<Longrightarrow> distinct (map fst (alist_del k xs))"
  by (induction xs) (auto simp: alist_del_def)

lemma find_Some_mem: "find P xs = Some x \<Longrightarrow> x \<in> set xs \<and> P x"
  by (induction xs) (auto split: if_splits)

lemma find_is_None: "find P xs = None \<longleftrightarrow> (\<forall>x \<in> set xs. \<not> P x)"
  by (induction xs) auto

section \<open>Hexadecimal text\<close>

lemma nibble_cases: "(n::nat) < 16 \<Longrightarrow>
    n \<in> {0, 1, 2, 3, 4, 5, 6, 7, 8, 9, 10, 11, 12, 13, 14, 15}"
  by simp presburger

lemma hex_value_digit [simp]: "n < 16 \<Longrightarrow> hex_value (hex_digit n) = Some n"
  by (drule nibble_cases) (auto simp: hex_value_def hex_digit_def)

lemma byte_of_less [simp]: "byte_of c < 256"
  using of_char_mod_256 [of c, where ?'a = nat] by (metis mod_less_divisor zero_less_numeral)

lemma hex_decode_encode [simp]: "hex_decode (hex_encode b) = Some b"
proof (induction b)
  case (Cons c b)
  have "byte_of c div 16 < 16" using byte_of_less [of c] by linarith
  then show ?case
    using Cons by (simp add: hex_encode_def)
qed (simp add: hex_encode_def)

lemma hex_encode_inj [simp]: "hex_encode a = hex_encode b \<longleftrightarrow> a = b"
  by (metis hex_decode_encode option.inject)

lemma length_hex_encode [simp]: "length (hex_encode b) = 2 * length b"
  by (induction b) (auto simp: hex_encode_def)

lemma hex_encode_eq_Nil [simp]: "hex_encode b = [] \<longleftrightarrow> b = []"
  by (cases b) (auto simp: hex_encode_def)

definition hex_text :: "string \<Rightarrow> bool" where
  "hex_text s \<longleftrightarrow> set s \<subseteq> set ''0123456789abcdef''"

lemma hex_text_encode [simp]: "hex_text (hex_encode b)"
proof -
  have d: "hex_digit n \<in> set ''0123456789abcdef''" if "n < 16" for n
    unfolding hex_digit_def using that by (intro nth_mem) simp
  have h: "byte_of c div 16 < 16" for c
    using byte_of_less [of c] by linarith
  show ?thesis
  proof (induction b)
    case (Cons c b)
    then show ?case
      using d [OF h [of c]] d [of "byte_of c mod 16"] by (simp only: hex_text_def hex_encode_def) simp
  qed (simp add: hex_text_def hex_encode_def)
qed

text \<open>A text up to its first separator: what the hash preimages of the code are split by.\<close>

lemma separator_inj:
  assumes "x \<notin> set a" "x \<notin> set a'"
  shows "a @ x # b = a' @ x # b' \<longleftrightarrow> a = a' \<and> b = b'"
  using assms by (auto simp: append_eq_append_conv2 append_eq_Cons_conv Cons_eq_append_conv)

section \<open>Decimal text\<close>

definition digits_text :: "string \<Rightarrow> bool" where
  "digits_text s \<longleftrightarrow> list_all (\<lambda>c. 48 \<le> byte_of c \<and> byte_of c \<le> 57) s"

fun text_nat :: "nat \<Rightarrow> string \<Rightarrow> nat" where
  "text_nat acc [] = acc"
| "text_nat acc (c # s) = text_nat (acc * 10 + (byte_of c - 48)) s"

lemma text_nat_append: "text_nat acc (s @ t) = text_nat (text_nat acc s) t"
  by (induction s arbitrary: acc) auto

lemma nat_string_digits [simp]: "digits_text (nat_string n)"
proof (induction n rule: nat_string.induct)
  case (1 n)
  then show ?case by (subst nat_string.simps) (auto simp: digits_text_def)
qed

lemma text_nat_string [simp]: "text_nat 0 (nat_string n) = n"
proof (induction n rule: nat_string.induct)
  case (1 n)
  then show ?case by (subst nat_string.simps) (auto simp: text_nat_append)
qed

lemma nat_string_inj [simp]: "nat_string a = nat_string b \<longleftrightarrow> a = b"
  by (metis text_nat_string)

lemma nat_string_not_Nil [simp]: "nat_string n \<noteq> []"
  by (subst nat_string.simps) simp

lemma int_string_inj [simp]: "int_string a = int_string b \<longleftrightarrow> a = b"
proof -
  have "nat_string m \<noteq> CHR ''-'' # s" for m s
    using nat_string_digits [of m] by (auto simp: digits_text_def)
  then show ?thesis by (auto simp: int_string_def dest: sym)
qed

section \<open>Trimming text without spaces\<close>

definition printable :: "string \<Rightarrow> bool" where
  "printable s \<longleftrightarrow> list_all (\<lambda>c. 33 \<le> byte_of c \<and> byte_of c < 127) s"

lemma printable_append [simp]: "printable (a @ b) \<longleftrightarrow> printable a \<and> printable b"
  by (simp add: printable_def)

lemma trim_rounds_id:
  assumes "\<forall>p \<in> set sps. \<not> has_prefix s p"
  shows "trim_rounds n sps s = s"
proof (cases n)
  case (Suc m)
  have "find (has_prefix s) sps = None" using assms by (simp add: find_is_None)
  then show ?thesis using Suc by simp
qed simp

lemma has_prefix_hd: "has_prefix s p \<Longrightarrow> p \<noteq> [] \<Longrightarrow> s \<noteq> [] \<and> hd s = hd p"
  by (cases s; cases p) (auto simp: has_prefix_def)

lemma go_spaces_ends:
  "p \<in> set go_spaces \<Longrightarrow> p \<noteq> [] \<and> (byte_of (hd p) < 33 \<or> 127 < byte_of (hd p)) \<and>
     (byte_of (last p) < 33 \<or> 127 < byte_of (last p))"
  unfolding go_spaces_def by auto

lemma printable_mem: "printable s \<Longrightarrow> c \<in> set s \<Longrightarrow> 33 \<le> byte_of c \<and> byte_of c < 127"
  by (auto simp: printable_def list_all_iff)

lemma printable_no_prefix: "printable s \<Longrightarrow> p \<in> set go_spaces \<Longrightarrow> \<not> has_prefix s p"
  using has_prefix_hd [of s p] go_spaces_ends [of p] printable_mem [of s "hd s"]
  by (auto dest!: hd_in_set)

lemma printable_no_suffix:
  assumes "printable s" "p \<in> set go_spaces"
  shows "\<not> has_prefix (rev s) (rev p)"
proof
  assume "has_prefix (rev s) (rev p)"
  then have "s \<noteq> []" "last s = last p"
    using has_prefix_hd [of "rev s" "rev p"] go_spaces_ends [OF assms(2)] by (auto simp: hd_rev)
  then have "last p \<in> set s" by (metis last_in_set)
  then show False using printable_mem [OF assms(1)] go_spaces_ends [OF assms(2)] by fastforce
qed

lemma trim_space_printable [simp]: "printable s \<Longrightarrow> trim_space s = s"
  using printable_no_prefix printable_no_suffix
  by (simp add: trim_space_def trim_left_def trim_rounds_id)

lemma eq_byte [go_string]: "c = byte n \<longleftrightarrow> byte_of c = n mod 256" "byte n = c \<longleftrightarrow> byte_of c = n mod 256"
proof -
  have "byte_of (byte n) = n mod 256" by simp
  then show "c = byte n \<longleftrightarrow> byte_of c = n mod 256" by (metis of_char_eq_iff)
  then show "byte n = c \<longleftrightarrow> byte_of c = n mod 256" by metis
qed

lemma trim_space_leading [simp]: "printable s \<Longrightarrow> trim_space (CHR '' '' # s) = s"
proof -
  assume p: "printable s"
  have "find (has_prefix (CHR '' '' # s)) go_spaces = Some '' ''"
    by (simp add: go_spaces_def has_prefix_def go_string)
  then have "trim_left go_spaces (CHR '' '' # s) = s"
    using printable_no_prefix [OF p] by (simp add: trim_left_def trim_rounds_id)
  then show ?thesis
    using printable_no_suffix [OF p] by (simp add: trim_space_def trim_left_def trim_rounds_id)
qed

lemma hex_text_printable: "hex_text s \<Longrightarrow> printable s"
  by (auto simp: hex_text_def printable_def list_all_iff)

lemma trim_rounds_fixed: "find (has_prefix s) sps = None \<Longrightarrow> trim_rounds n sps s = s"
  by (cases n) simp_all

lemma trim_rounds_done:
  "length s \<le> n \<Longrightarrow> [] \<notin> set sps \<Longrightarrow> find (has_prefix (trim_rounds n sps s)) sps = None"
proof (induction n arbitrary: s)
  case 0
  then show ?case by (auto simp: find_None_iff has_prefix_def)
next
  case (Suc n)
  show ?case
  proof (cases "find (has_prefix s) sps")
    case (Some p)
    then have "p \<in> set sps" "has_prefix s p" by (auto simp: find_Some_iff)
    then have "p \<noteq> []" "length p \<le> length s" using Suc.prems(2) by (auto simp: has_prefix_def) (metis length_take min.cobounded1)
    then have "length (drop (length p) s) \<le> n" using Suc.prems(1) by (cases p) auto
    then show ?thesis using Suc.IH Suc.prems(2) Some by simp
  qed simp
qed

lemma trim_rounds_drop: "\<exists>k. trim_rounds n sps s = drop k s"
proof (induction n arbitrary: s)
  case (Suc n)
  show ?case
  proof (cases "find (has_prefix s) sps")
    case None
    then show ?thesis by (auto intro: exI [of _ 0])
  next
    case (Some p)
    obtain k where "trim_rounds n sps (drop (length p) s) = drop k (drop (length p) s)" using Suc by blast
    then show ?thesis using Some by auto
  qed
qed (auto intro: exI [of _ 0])

lemma has_prefix_take: "has_prefix (take j t) p \<Longrightarrow> has_prefix t p"
  unfolding has_prefix_def by (metis length_take min.absorb1 min.cobounded1 min.cobounded2 min.commute take_take min_def)

text \<open>Trimming twice is trimming once.\<close>

lemma trim_space_idem [simp]: "trim_space (trim_space s) = trim_space s"
proof -
  let ?t = "trim_left go_spaces s"
  have ne: "[] \<notin> set go_spaces" "[] \<notin> set (map rev go_spaces)"
    unfolding set_map image_iff using go_spaces_ends [of "[]"] go_spaces_ends by (blast, metis rev.simps(1) rev_rev_ident)
  obtain k where k: "trim_left (map rev go_spaces) (rev ?t) = drop k (rev ?t)"
    using trim_rounds_drop unfolding trim_left_def by blast
  have t: "trim_space s = take (length ?t - k) ?t" unfolding trim_space_def k by (simp add: rev_drop)
  have "find (has_prefix ?t) go_spaces = None" unfolding trim_left_def by (rule trim_rounds_done [OF order.refl ne(1)])
  then have "find (has_prefix (trim_space s)) go_spaces = None"
    unfolding t find_None_iff using has_prefix_take by blast
  then have a: "trim_left go_spaces (trim_space s) = trim_space s" unfolding trim_left_def by (rule trim_rounds_fixed)
  have "find (has_prefix (rev (trim_space s))) (map rev go_spaces) = None"
    unfolding trim_space_def rev_rev_ident trim_left_def by (rule trim_rounds_done [OF order.refl ne(2)])
  then have "trim_left (map rev go_spaces) (rev (trim_space s)) = rev (trim_space s)"
    unfolding trim_left_def by (rule trim_rounds_fixed)
  then show ?thesis by (subst trim_space_def) (simp add: a)
qed

section \<open>Splitting text and reading numbers\<close>

text \<open>\<open>strings.Split\<close> and \<open>strings.Cut\<close> at one byte.\<close>

fun split_at :: "char \<Rightarrow> string \<Rightarrow> string list" where
  "split_at c [] = [[]]"
| "split_at c (x # xs) =
     (if x = c then [] # split_at c xs
      else case split_at c xs of [] \<Rightarrow> [[x]] | y # ys \<Rightarrow> (x # y) # ys)"

definition cut_at :: "char \<Rightarrow> string \<Rightarrow> (string \<times> string) option" where
  "cut_at c s = map_option (\<lambda>i. (take i s, drop (Suc i) s)) (index_byte s c)"

text \<open>\<open>strconv.ParseInt(s, 10, 64)\<close>: an optional sign, digits, and a value within \<open>int64\<close>.\<close>

definition ParseInt :: "string \<Rightarrow> int option" where
  "ParseInt s =
     (let neg = has_prefix s ''-''; ds = (if neg \<or> has_prefix s ''+'' then tl s else s) in
      if ds = [] \<or> \<not> digits_text ds then None
      else let n = (if neg then - int (text_nat 0 ds) else int (text_nat 0 ds)) in
        if min_int64 \<le> n \<and> n \<le> max_int64 then Some n else None)"

lemma split_at_none: "c \<notin> set s \<Longrightarrow> split_at c s = [s]"
  by (induction s) auto

lemma split_at_first: "c \<notin> set s \<Longrightarrow> split_at c (s @ c # t) = s # split_at c t"
  by (induction s) auto

lemma index_byte_first: "c \<notin> set s \<Longrightarrow> index_byte (s @ c # t) c = Some (length s)"
  by (induction s) auto

lemma cut_at_first: "c \<notin> set s \<Longrightarrow> cut_at c (s @ c # t) = Some (s, t)"
  by (simp add: cut_at_def index_byte_first)

lemma digits_mem: "digits_text s \<Longrightarrow> x \<in> set s \<Longrightarrow> 48 \<le> byte_of x \<and> byte_of x \<le> 57"
  by (auto simp: digits_text_def list_all_iff)

lemma digits_no_prefix: "digits_text s \<Longrightarrow> byte_of c < 48 \<Longrightarrow> \<not> has_prefix s [c]"
  by (cases s) (auto simp: has_prefix_def digits_text_def)

lemma ParseInt_int_string: "min_int64 \<le> i \<Longrightarrow> i \<le> max_int64 \<Longrightarrow> ParseInt (int_string i) = Some i"
  using digits_no_prefix [OF nat_string_digits [of "nat i"], of "CHR ''-''"] digits_no_prefix [OF nat_string_digits [of "nat i"], of "CHR ''+''"]
  by (auto simp: ParseInt_def int_string_def Let_def has_prefix_def)

lemma int_string_chars: "x \<in> set (int_string i) \<Longrightarrow> x = CHR ''-'' \<or> (48 \<le> byte_of x \<and> byte_of x \<le> 57)"
  using digits_mem [OF nat_string_digits] by (auto simp: int_string_def split: if_splits)

lemma int_string_printable: "printable (int_string i)"
proof -
  have "33 \<le> byte_of x \<and> byte_of x < 127" if "x \<in> set (int_string i)" for x
    using int_string_chars [OF that] by auto
  then show ?thesis by (simp add: printable_def list_all_iff)
qed

end
