(* ===== verification/Types_Model.thy ===== *)
theory Types_Model
  imports Prelude
begin

text \<open>
  The shared data of the framework, \<open>pkg/types/types.go\<close>, one record per struct and field for
  field, and the structural checks of \<open>pkg/types/validation.go\<close>. A pointer field that may be nil
  is an \<open>option\<close>; an error value is a constructor of the error datatype, without its text.
\<close>

section \<open>Method metadata\<close>

type_synonym did = string
type_synonym method_type = string

definition MethodTypeAnchor :: method_type where
  "MethodTypeAnchor = ''anchor''"

definition MethodTypeSupplementary :: method_type where
  "MethodTypeSupplementary = ''supplementary''"

record method_metadata =
  md_ID :: string
  md_Type :: method_type
  md_Strength :: int
  md_CostUSD :: real
  md_UXFriction :: string
  md_PlatformRequirements :: "string list"
  md_FreshnessLifetime :: duration
  md_Version :: string

datatype metadata_error =
    MdIDRequired | MdVersionRequired | MdStrengthRange | MdAnchorTooWeak
  | MdSupplementaryTooStrong | MdUnknownType

definition md_Validate :: "method_metadata \<Rightarrow> metadata_error option" where
  "md_Validate m =
     (if md_ID m = '''' then Some MdIDRequired
      else if md_Version m = '''' then Some MdVersionRequired
      else if md_Strength m < 0 \<or> md_Strength m > 100 then Some MdStrengthRange
      else if md_Type m = MethodTypeAnchor then
        (if md_Strength m < 50 then Some MdAnchorTooWeak else None)
      else if md_Type m = MethodTypeSupplementary then
        (if md_Strength m \<ge> 50 then Some MdSupplementaryTooStrong else None)
      else Some MdUnknownType)"

section \<open>Credential\<close>

record verified_method =
  vm_MethodID :: string
  vm_Strength :: int
  vm_VerifiedAt :: time
  vm_FreshnessLifetime :: duration
  vm_AttestationDigest :: string

record nullifier_binding =
  nb_Commitment :: string
  nb_Curve :: string
  nb_Scheme :: string

record credential_subject =
  cs_ID :: did
  cs_VerifiedMethods :: "verified_method list"
  cs_AnchorMethodID :: "string option"
  cs_NullifierBinding :: "nullifier_binding option"

record credential_status =
  st_ID :: string
  st_Type :: string
  st_StatusPurpose :: string
  st_StatusListIndex :: int
  st_StatusListCredential :: string

record proof_block =
  pf_Type :: string
  pf_Created :: time
  pf_ProofPurpose :: string
  pf_VerificationMethod :: string
  pf_ProofValue :: string

record credential =
  vc_Context :: "string list"
  vc_ID :: string
  vc_Type :: "string list"
  vc_Issuer :: did
  vc_IssuanceDate :: time
  vc_ExpirationDate :: time
  vc_CredentialSubject :: credential_subject
  vc_CredentialStatus :: "credential_status option"
  vc_Proof :: "proof_block option"

definition W3CVCContext :: string where
  "W3CVCContext = ''https://www.w3.org/2018/credentials/v1''"

definition PersonhoodVCContext :: string where
  "PersonhoodVCContext = ''https://personhood.protocol/credentials/v1''"

fun containsString :: "string list \<Rightarrow> string \<Rightarrow> bool" where
  "containsString [] needle = False"
| "containsString (s # haystack) needle = (if s = needle then True else containsString haystack needle)"

lemma containsString_set [simp]: "containsString xs x \<longleftrightarrow> x \<in> set xs"
  by (induction xs) auto

datatype credential_error =
    VcContextMissing string | VcContextFirst | VcIssuerRequired | VcIssuanceRequired
  | VcExpirationRequired | VcDatesOrder | VcMethodsEmpty | VcAnchorUnknown string

definition vc_Validate :: "credential \<Rightarrow> credential_error option" where
  "vc_Validate vc =
     (let subj = vc_CredentialSubject vc in
      if \<not> containsString (vc_Context vc) W3CVCContext then Some (VcContextMissing W3CVCContext)
      else if \<not> containsString (vc_Context vc) PersonhoodVCContext
      then Some (VcContextMissing PersonhoodVCContext)
      else if length (vc_Context vc) < 2 \<or> vc_Context vc ! 0 \<noteq> W3CVCContext
      then Some VcContextFirst
      else if vc_Issuer vc = '''' then Some VcIssuerRequired
      else if vc_IssuanceDate vc = 0 then Some VcIssuanceRequired
      else if vc_ExpirationDate vc = 0 then Some VcExpirationRequired
      else if \<not> vc_IssuanceDate vc < vc_ExpirationDate vc then Some VcDatesOrder
      else if length (cs_VerifiedMethods subj) = 0 then Some VcMethodsEmpty
      else (case cs_AnchorMethodID subj of
          None \<Rightarrow> None
        | Some anchor \<Rightarrow>
            if list_ex (\<lambda>vm. vm_MethodID vm = anchor) (cs_VerifiedMethods subj) then None
            else Some (VcAnchorUnknown anchor)))"

section \<open>Policy\<close>

record policy =
  p_Version :: string
  p_PolicyID :: string
  p_Action :: string
  p_AnchorRequired :: bool
  p_MinSupplementaryPoints :: int
  p_AllowedMethods :: "string list"
  p_BlockedMethods :: "string list"
  p_MinStrengthPerMethod :: "string \<rightharpoonup> int"
  p_MaxCredentialAgeSeconds :: int
  p_MaxAnchorMethodAgeSeconds :: int
  p_RequireFreshAnchorProof :: bool
  p_NullifierRequired :: bool
  p_NullifierContextTag :: string

definition PolicyDSLVersion :: string where
  "PolicyDSLVersion = ''1.0''"

datatype policy_error =
    PolVersion | PolIDRequired | PolActionRequired | PolPointsNegative | PolAgeNegative
  | PolAnchorAgeNegative | PolContextTagRequired

definition policy_Validate :: "policy \<Rightarrow> policy_error option" where
  "policy_Validate p =
     (if p_Version p \<noteq> PolicyDSLVersion then Some PolVersion
      else if p_PolicyID p = '''' then Some PolIDRequired
      else if p_Action p = '''' then Some PolActionRequired
      else if p_MinSupplementaryPoints p < 0 then Some PolPointsNegative
      else if p_MaxCredentialAgeSeconds p < 0 then Some PolAgeNegative
      else if p_MaxAnchorMethodAgeSeconds p < 0 then Some PolAnchorAgeNegative
      else if p_NullifierRequired p \<and> p_NullifierContextTag p = '''' then Some PolContextTagRequired
      else None)"

definition RequiresNullifier :: "policy \<Rightarrow> bool" where
  "RequiresNullifier p = p_NullifierRequired p"

section \<open>Evaluation\<close>

datatype evaluation_code =
    EvalOK | EvalAnchorMissing | EvalInsufficientSupplementary | EvalVCExpired
  | EvalAnchorMethodExpired | EvalMethodBlocked | EvalMethodNotAllowed
  | EvalMethodStrengthInsufficient | EvalFreshAnchorRequired | EvalNullifierMissing
  | EvalSignatureInvalid | EvalRevoked | EvalUnknownIssuer

fun code_string :: "evaluation_code \<Rightarrow> string" where
  "code_string EvalOK = ''ok''"
| "code_string EvalAnchorMissing = ''anchor_missing''"
| "code_string EvalInsufficientSupplementary = ''insufficient_supplementary''"
| "code_string EvalVCExpired = ''vc_expired''"
| "code_string EvalAnchorMethodExpired = ''anchor_method_expired''"
| "code_string EvalMethodBlocked = ''method_blocked''"
| "code_string EvalMethodNotAllowed = ''method_not_allowed''"
| "code_string EvalMethodStrengthInsufficient = ''method_strength_insufficient''"
| "code_string EvalFreshAnchorRequired = ''fresh_anchor_required''"
| "code_string EvalNullifierMissing = ''nullifier_missing''"
| "code_string EvalSignatureInvalid = ''signature_invalid''"
| "code_string EvalRevoked = ''revoked''"
| "code_string EvalUnknownIssuer = ''unknown_issuer''"

section \<open>Ceremonies\<close>

record ceremony_context =
  cc_SessionID :: string
  cc_HolderDID :: did
  cc_UserID :: string
  cc_MethodID :: string
  cc_IssuerDID :: did
  cc_StartedAt :: time

text \<open>
  A payload is a JSON object: the values in it are strings, numbers (\<open>int\<close> or \<open>float64\<close>), booleans, times,
  lists and nested objects.
\<close>

datatype json_value =
    JString string | JNum int | JReal real | JBool bool | JTime time | JNull | JList "json_value list"
  | JObject "(string \<times> json_value) list"

type_synonym json_object = "(string \<times> json_value) list"

record challenge_data =
  ch_Type :: string
  ch_Payload :: json_object

record response_data =
  rd_Type :: string
  rd_Payload :: json_object

record method_result =
  mr_Success :: bool
  mr_MethodID :: string
  mr_VerifiedAt :: time
  mr_AttestationDigest :: string
  mr_ErrorReason :: string
  mr_VerifiedIdentifier :: string

section \<open>What the checks establish\<close>

lemma md_Validate_None:
  "md_Validate m = None \<longleftrightarrow>
     md_ID m \<noteq> '''' \<and> md_Version m \<noteq> '''' \<and> md_Strength m \<le> 100 \<and>
     (md_Type m = MethodTypeAnchor \<and> 50 \<le> md_Strength m \<or>
      md_Type m = MethodTypeSupplementary \<and> 0 \<le> md_Strength m \<and> md_Strength m < 50)"
  by (auto simp: md_Validate_def MethodTypeAnchor_def MethodTypeSupplementary_def)

lemma vc_Validate_None:
  "vc_Validate vc = None \<longleftrightarrow>
     (\<exists>rest. vc_Context vc = W3CVCContext # rest \<and> PersonhoodVCContext \<in> set rest) \<and>
     vc_Issuer vc \<noteq> '''' \<and> vc_IssuanceDate vc \<noteq> 0 \<and> vc_ExpirationDate vc \<noteq> 0 \<and>
     vc_IssuanceDate vc < vc_ExpirationDate vc \<and>
     cs_VerifiedMethods (vc_CredentialSubject vc) \<noteq> [] \<and>
     (\<forall>a. cs_AnchorMethodID (vc_CredentialSubject vc) = Some a \<longrightarrow>
        a \<in> vm_MethodID ` set (cs_VerifiedMethods (vc_CredentialSubject vc)))"
proof -
  have ne: "PersonhoodVCContext \<noteq> W3CVCContext"
    by (simp add: PersonhoodVCContext_def W3CVCContext_def)
  have ctx: "(W3CVCContext \<in> set xs \<and> PersonhoodVCContext \<in> set xs \<and>
        \<not> (length xs < 2 \<or> xs ! 0 \<noteq> W3CVCContext))
      \<longleftrightarrow> (\<exists>rest. xs = W3CVCContext # rest \<and> PersonhoodVCContext \<in> set rest)" for xs
    using ne by (cases xs; cases "tl xs") auto
  have "vc_Validate vc = None \<longleftrightarrow>
     (W3CVCContext \<in> set (vc_Context vc) \<and> PersonhoodVCContext \<in> set (vc_Context vc) \<and>
        \<not> (length (vc_Context vc) < 2 \<or> vc_Context vc ! 0 \<noteq> W3CVCContext)) \<and>
     vc_Issuer vc \<noteq> '''' \<and> vc_IssuanceDate vc \<noteq> 0 \<and> vc_ExpirationDate vc \<noteq> 0 \<and>
     vc_IssuanceDate vc < vc_ExpirationDate vc \<and>
     cs_VerifiedMethods (vc_CredentialSubject vc) \<noteq> [] \<and>
     (\<forall>a. cs_AnchorMethodID (vc_CredentialSubject vc) = Some a \<longrightarrow>
        a \<in> vm_MethodID ` set (cs_VerifiedMethods (vc_CredentialSubject vc)))"
    unfolding vc_Validate_def Let_def
    by (auto simp: list_ex_iff image_iff split: option.splits)
  then show ?thesis unfolding ctx .
qed

lemma policy_Validate_None:
  "policy_Validate p = None \<longleftrightarrow>
     p_Version p = PolicyDSLVersion \<and> p_PolicyID p \<noteq> '''' \<and> p_Action p \<noteq> '''' \<and>
     0 \<le> p_MinSupplementaryPoints p \<and> 0 \<le> p_MaxCredentialAgeSeconds p \<and>
     0 \<le> p_MaxAnchorMethodAgeSeconds p \<and>
     (RequiresNullifier p \<longrightarrow> p_NullifierContextTag p \<noteq> '''')"
  by (auto simp: policy_Validate_def RequiresNullifier_def)

end
