(* ===== verification/Policy_Model.thy ===== *)
theory Policy_Model
  imports Types_Model
begin

text \<open>
  The policy evaluator of \<open>src/policy\<close>: \<open>DeriveNullifier\<close>, \<open>Evaluate\<close> with its checks in the order of
  the code, and the validating parser. SHA-256 and the YAML/JSON decoders are arguments.
  \<open>policy_satisfied\<close> is the specification: what a policy asks of a credential, over unbounded
  numbers and without an order of checks, as the comments of \<open>pkg/types\<close>, \<open>policy.schema.json\<close> and the tests have it.
  \<open>policy_documented\<close> is what \<open>docs/04-policy-dsl.md\<close> asks, which differs.
\<close>

section \<open>The derived nullifier\<close>

datatype nullifier_error = NulCommitmentEmpty | NulSchemeEmpty | NulCurveEmpty | NulContextEmpty

definition DeriveNullifier ::
  "(bytes \<Rightarrow> bytes) \<Rightarrow> nullifier_binding \<Rightarrow> string \<Rightarrow> nullifier_error + string" where
  "DeriveNullifier sha binding contextTag =
     (if nb_Commitment binding = '''' then Inl NulCommitmentEmpty
      else if nb_Scheme binding = '''' then Inl NulSchemeEmpty
      else if nb_Curve binding = '''' then Inl NulCurveEmpty
      else if contextTag = '''' then Inl NulContextEmpty
      else Inr (hex_encode (sha (nb_Commitment binding @ '':'' @ contextTag))))"

section \<open>Evaluate\<close>

text \<open>
  The \<open>Details\<close> map, one constructor per set of keys the code writes. Times and durations are kept
  before they are rendered as text or as a number of seconds.
\<close>

datatype eval_reason = ReasonCredential credential_error | ReasonNullifier nullifier_error

datatype eval_details =
    NoDetails
  | DReason eval_reason
  | DCredentialAge duration int
  | DExpirationDate time
  | DAnchorAbsent string
  | DAnchorAge string time duration
  | DMethod string
  | DStrength string int int
  | DPoints int int
  | DVerified int bool bool

record evaluation_result =
  er_OK :: bool
  er_Code :: evaluation_code
  er_Human :: string
  er_Details :: eval_details
  er_DerivedNullifier :: "string option"

definition result ::
  "bool \<Rightarrow> evaluation_code \<Rightarrow> string \<Rightarrow> eval_details \<Rightarrow> string option \<Rightarrow> evaluation_result" where
  "result ok code human details derived =
     (if ok \<and> code \<noteq> EvalOK then
        \<lparr>er_OK = False, er_Code = EvalSignatureInvalid,
         er_Human = ''internal: inconsistent evaluation (ok=true, code='' @ code_string code @ '')'',
         er_Details = NoDetails, er_DerivedNullifier = None\<rparr>
      else \<lparr>er_OK = ok, er_Code = code, er_Human = human, er_Details = details,
            er_DerivedNullifier = derived\<rparr>)"

definition supplementaryStrengthCeiling :: int where
  "supplementaryStrengthCeiling = 50"

text \<open>The loop of step 5 that finds the anchor's entry.\<close>

fun find_anchor :: "string \<Rightarrow> verified_method list \<Rightarrow> verified_method option" where
  "find_anchor anchorID [] = None"
| "find_anchor anchorID (vm # vms) =
     (if vm_MethodID vm = anchorID then Some vm else find_anchor anchorID vms)"

definition freshness_window :: "policy \<Rightarrow> verified_method \<Rightarrow> duration" where
  "freshness_window p am =
     (if p_MaxAnchorMethodAgeSeconds p > 0 then seconds (p_MaxAnchorMethodAgeSeconds p)
      else vm_FreshnessLifetime am)"

text \<open>The loop of step 6: the first method that is blocked, not allowed or too weak.\<close>

fun check_methods :: "policy \<Rightarrow> verified_method list \<Rightarrow> evaluation_result option" where
  "check_methods p [] = None"
| "check_methods p (vm # vms) =
     (if vm_MethodID vm \<in> set (p_BlockedMethods p) then
        Some (result False EvalMethodBlocked
          ''Your credential relies on a verification method that is not accepted for this action.''
          (DMethod (vm_MethodID vm)) None)
      else if p_AllowedMethods p \<noteq> [] \<and> vm_MethodID vm \<notin> set (p_AllowedMethods p) then
        Some (result False EvalMethodNotAllowed
          ''Your credential includes a verification method that is not accepted for this action.''
          (DMethod (vm_MethodID vm)) None)
      else (case p_MinStrengthPerMethod p (vm_MethodID vm) of
          None \<Rightarrow> check_methods p vms
        | Some minStrength \<Rightarrow>
            if vm_Strength vm < minStrength then
              Some (result False EvalMethodStrengthInsufficient
                ''One of your verification methods is below the required strength for this action.''
                (DStrength (vm_MethodID vm) (vm_Strength vm) minStrength) None)
            else check_methods p vms))"

text \<open>The loop of step 7, with its 64-bit accumulator.\<close>

fun supp_points :: "time \<Rightarrow> int \<Rightarrow> verified_method list \<Rightarrow> int" where
  "supp_points now suppPoints [] = suppPoints"
| "supp_points now suppPoints (vm # vms) =
     (if vm_Strength vm \<ge> supplementaryStrengthCeiling then supp_points now suppPoints vms
      else if vm_FreshnessLifetime vm > 0
        \<and> sub_time now (vm_VerifiedAt vm) > vm_FreshnessLifetime vm
      then supp_points now suppPoints vms
      else supp_points now (wrap64 (suppPoints + vm_Strength vm)) vms)"

text \<open>Step 5, when the credential has an anchor.\<close>

definition check_anchor :: "policy \<Rightarrow> time \<Rightarrow> credential_subject \<Rightarrow> evaluation_result option" where
  "check_anchor p now subj =
     (case cs_AnchorMethodID subj of
        None \<Rightarrow> None
      | Some anchorID \<Rightarrow>
          (case find_anchor anchorID (cs_VerifiedMethods subj) of
             None \<Rightarrow> Some (result False EvalAnchorMissing
               ''The credential's anchor method is not present in verifiedMethods.''
               (DAnchorAbsent anchorID) None)
           | Some am \<Rightarrow>
               (let window = freshness_window p am in
                if window > 0 \<and> sub_time now (vm_VerifiedAt am) > window then
                  Some (result False EvalAnchorMethodExpired
                    ''Your anchor verification is too old. Please re-verify the anchor method.''
                    (DAnchorAge anchorID (vm_VerifiedAt am) window) None)
                else None)))"

definition em_dash :: string where
  "em_dash = [byte 0xE2, byte 0x80, byte 0x94]"

definition Evaluate :: "(bytes \<Rightarrow> bytes) \<Rightarrow> credential \<Rightarrow> policy \<Rightarrow> time \<Rightarrow> evaluation_result" where
  "Evaluate sha cred p now =
     (let subj = vc_CredentialSubject cred; age = sub_time now (vc_IssuanceDate cred) in
      case vc_Validate cred of
        Some err \<Rightarrow> result False EvalSignatureInvalid
          ''This credential is not a valid Personhood credential.''
          (DReason (ReasonCredential err)) None
      | None \<Rightarrow>
          if p_MaxCredentialAgeSeconds p > 0 \<and> age > seconds (p_MaxCredentialAgeSeconds p) then
            result False EvalVCExpired
              ''Your verification is too old for this action. Please re-verify.''
              (DCredentialAge age (p_MaxCredentialAgeSeconds p)) None
          else if now > vc_ExpirationDate cred then
            result False EvalVCExpired ''Your verification has expired. Please re-verify.''
              (DExpirationDate (vc_ExpirationDate cred)) None
          else if p_AnchorRequired p \<and> cs_AnchorMethodID subj = None then
            result False EvalAnchorMissing
              ''This action requires a stronger verification method (an anchor). Please add one.''
              NoDetails None
          else (case check_anchor p now subj of
            Some r \<Rightarrow> r
          | None \<Rightarrow>
          (case check_methods p (cs_VerifiedMethods subj) of
            Some r \<Rightarrow> r
          | None \<Rightarrow>
          (let suppPoints = supp_points now 0 (cs_VerifiedMethods subj) in
          if suppPoints < p_MinSupplementaryPoints p then
            result False EvalInsufficientSupplementary
              ''Please complete additional verification methods before continuing.''
              (DPoints suppPoints (p_MinSupplementaryPoints p)) None
          else if p_NullifierRequired p \<and> cs_NullifierBinding subj = None then
            result False EvalNullifierMissing
              ''Your credential is missing the privacy binding needed for this action.''
              NoDetails None
          else
          (let human = (if p_RequireFreshAnchorProof p
              then ''Verified '' @ em_dash
                @ '' a fresh anchor proof is still required at presentation time.''
              else ''Verified.'') in
          if p_NullifierRequired p then
            (case DeriveNullifier sha (the (cs_NullifierBinding subj)) (p_NullifierContextTag p) of
              Inl err \<Rightarrow> result False EvalNullifierMissing
                ''Your credential's privacy binding is malformed.''
                (DReason (ReasonNullifier err)) None
            | Inr derived \<Rightarrow> result True EvalOK human
                (DVerified suppPoints (p_RequireFreshAnchorProof p) True) (Some derived))
          else result True EvalOK human
            (DVerified suppPoints (p_RequireFreshAnchorProof p) False) None)))))"

section \<open>Parsing a policy document\<close>

text \<open>
  \<open>unmarshal\<close> is \<open>yaml.Unmarshal\<close> or \<open>json.Unmarshal\<close> into a zero \<open>Policy\<close>; the two parsers differ in
  nothing else.
\<close>

datatype parse_error = EmptyDocument | UnmarshalFailed | InvalidPolicy policy_error

definition parse_policy :: "(bytes \<Rightarrow> policy option) \<Rightarrow> bytes \<Rightarrow> parse_error + policy" where
  "parse_policy unmarshal data =
     (if length data = 0 then Inl EmptyDocument
      else (case unmarshal data of
          None \<Rightarrow> Inl UnmarshalFailed
        | Some p \<Rightarrow> (case policy_Validate p of Some e \<Rightarrow> Inl (InvalidPolicy e) | None \<Rightarrow> Inr p)))"

definition ParseYAML :: "(bytes \<Rightarrow> policy option) \<Rightarrow> bytes \<Rightarrow> parse_error + policy" where
  "ParseYAML yaml_unmarshal data = parse_policy yaml_unmarshal data"

definition ParseJSON :: "(bytes \<Rightarrow> policy option) \<Rightarrow> bytes \<Rightarrow> parse_error + policy" where
  "ParseJSON json_unmarshal data = parse_policy json_unmarshal data"

section \<open>Specification\<close>

definition fresh_supplementary :: "time \<Rightarrow> verified_method \<Rightarrow> bool" where
  "fresh_supplementary now vm \<longleftrightarrow> vm_Strength vm < 50 \<and>
     (vm_FreshnessLifetime vm > 0 \<longrightarrow> now - vm_VerifiedAt vm \<le> vm_FreshnessLifetime vm)"

definition method_accepted :: "policy \<Rightarrow> verified_method \<Rightarrow> bool" where
  "method_accepted p vm \<longleftrightarrow> vm_MethodID vm \<notin> set (p_BlockedMethods p) \<and>
     (p_AllowedMethods p \<noteq> [] \<longrightarrow> vm_MethodID vm \<in> set (p_AllowedMethods p)) \<and>
     (\<forall>m. p_MinStrengthPerMethod p (vm_MethodID vm) = Some m \<longrightarrow> m \<le> vm_Strength vm)"

definition anchor_window :: "policy \<Rightarrow> verified_method \<Rightarrow> int" where
  "anchor_window p am = (if p_MaxAnchorMethodAgeSeconds p > 0
     then p_MaxAnchorMethodAgeSeconds p * 1000000000 else vm_FreshnessLifetime am)"

definition anchor_satisfied :: "credential \<Rightarrow> policy \<Rightarrow> time \<Rightarrow> bool" where
  "anchor_satisfied cred p now \<longleftrightarrow>
     (case cs_AnchorMethodID (vc_CredentialSubject cred) of
        None \<Rightarrow> \<not> p_AnchorRequired p
      | Some a \<Rightarrow> \<exists>am. find (\<lambda>vm. vm_MethodID vm = a)
            (cs_VerifiedMethods (vc_CredentialSubject cred)) = Some am \<and>
          (anchor_window p am > 0 \<longrightarrow> now - vm_VerifiedAt am \<le> anchor_window p am))"

definition binding_usable :: "credential \<Rightarrow> policy \<Rightarrow> bool" where
  "binding_usable cred p \<longleftrightarrow>
     (\<exists>nb. cs_NullifierBinding (vc_CredentialSubject cred) = Some nb \<and> nb_Commitment nb \<noteq> '''' \<and>
        nb_Scheme nb \<noteq> '''' \<and> nb_Curve nb \<noteq> '''' \<and> p_NullifierContextTag p \<noteq> '''')"

definition policy_satisfied :: "credential \<Rightarrow> policy \<Rightarrow> time \<Rightarrow> bool" where
  "policy_satisfied cred p now \<longleftrightarrow>
     vc_Validate cred = None \<and> now \<le> vc_ExpirationDate cred \<and>
     (p_MaxCredentialAgeSeconds p > 0 \<longrightarrow>
        now - vc_IssuanceDate cred \<le> p_MaxCredentialAgeSeconds p * 1000000000) \<and>
     anchor_satisfied cred p now \<and>
     (\<forall>vm \<in> set (cs_VerifiedMethods (vc_CredentialSubject cred)). method_accepted p vm) \<and>
     p_MinSupplementaryPoints p \<le> (\<Sum>vm \<leftarrow> filter (fresh_supplementary now)
        (cs_VerifiedMethods (vc_CredentialSubject cred)). vm_Strength vm) \<and>
     (p_NullifierRequired p \<longrightarrow> binding_usable cred p)"

text \<open>
  The range in which the 64-bit arithmetic of \<open>Evaluate\<close> is exact: windows of at most 292 years,
  strengths as \<open>Validate\<close> admits them, fewer than \<open>2^40\<close> methods.
\<close>

definition in_range :: "credential \<Rightarrow> policy \<Rightarrow> bool" where
  "in_range cred p \<longleftrightarrow>
     p_MaxCredentialAgeSeconds p \<le> 9223372036 \<and> p_MaxAnchorMethodAgeSeconds p \<le> 9223372036 \<and>
     length (cs_VerifiedMethods (vc_CredentialSubject cred)) < 2 ^ 40 \<and>
     (\<forall>vm \<in> set (cs_VerifiedMethods (vc_CredentialSubject cred)).
        0 \<le> vm_Strength vm \<and> vm_Strength vm \<le> 100 \<and> vm_FreshnessLifetime vm < max_int64)"

text \<open>
  \<open>docs/04-policy-dsl.md\<close> filters instead of refusing: methods that a policy blocks, does not allow or finds too weak are
  ignored, \<open>allowed_methods\<close> wins over \<open>blocked_methods\<close>, only the policy's own window applies to an anchor, and a
  supplementary method counts at any age. (A credential of the code has no type of a method: its anchor is the
  one it names, and what is below the ceiling is supplementary. The demand of the pseudocode that every credential has an
  anchor contradicts the examples of the same document and is left out, and so is revocation, which is checked before.)
\<close>

definition documented_methods :: "policy \<Rightarrow> verified_method list \<Rightarrow> verified_method list" where
  "documented_methods p vms = filter (\<lambda>vm.
     (if p_AllowedMethods p \<noteq> [] then vm_MethodID vm \<in> set (p_AllowedMethods p) else vm_MethodID vm \<notin> set (p_BlockedMethods p)) \<and>
     (case p_MinStrengthPerMethod p (vm_MethodID vm) of None \<Rightarrow> True | Some m \<Rightarrow> m \<le> vm_Strength vm)) vms"

definition policy_documented :: "credential \<Rightarrow> policy \<Rightarrow> time \<Rightarrow> bool" where
  "policy_documented cred p now \<longleftrightarrow>
     (let ms = documented_methods p (cs_VerifiedMethods (vc_CredentialSubject cred)) in
      now \<le> vc_ExpirationDate cred \<and>
      (p_MaxCredentialAgeSeconds p > 0 \<longrightarrow> now - vc_IssuanceDate cred \<le> p_MaxCredentialAgeSeconds p * 1000000000) \<and>
      (p_AnchorRequired p \<longrightarrow> (\<exists>am \<in> set ms. cs_AnchorMethodID (vc_CredentialSubject cred) = Some (vm_MethodID am) \<and>
         (p_MaxAnchorMethodAgeSeconds p > 0 \<longrightarrow> now - vm_VerifiedAt am \<le> p_MaxAnchorMethodAgeSeconds p * 1000000000))) \<and>
      p_MinSupplementaryPoints p \<le> (\<Sum>vm \<leftarrow> filter (\<lambda>vm. vm_Strength vm < 50) ms. vm_Strength vm) \<and>
      (p_NullifierRequired p \<longrightarrow> cs_NullifierBinding (vc_CredentialSubject cred) \<noteq> None \<and> p_NullifierContextTag p \<noteq> ''''))"

section \<open>Evaluate implements the specification\<close>

lemma result_simps [simp]:
  "result False code human d n =
     \<lparr>er_OK = False, er_Code = code, er_Human = human, er_Details = d, er_DerivedNullifier = n\<rparr>"
  "result True EvalOK human d n =
     \<lparr>er_OK = True, er_Code = EvalOK, er_Human = human, er_Details = d, er_DerivedNullifier = n\<rparr>"
  by (simp_all add: result_def)

lemma find_anchor_find [simp]: "find_anchor a vms = find (\<lambda>vm. vm_MethodID vm = a) vms"
  by (induction vms) auto

lemma check_methods_None: "check_methods p vms = None \<longleftrightarrow> (\<forall>vm \<in> set vms. method_accepted p vm)"
  by (induction vms) (auto simp: method_accepted_def split: option.splits)

lemma check_methods_Some:
  "check_methods p vms = Some r \<Longrightarrow> \<not> er_OK r \<and> er_DerivedNullifier r = None \<and>
     er_Code r \<in> {EvalMethodBlocked, EvalMethodNotAllowed, EvalMethodStrengthInsufficient}"
  by (induction vms) (auto split: if_splits option.splits)

lemma check_anchor_Some:
  "check_anchor p now s = Some r \<Longrightarrow> \<not> er_OK r \<and> er_DerivedNullifier r = None \<and>
     er_Code r \<in> {EvalAnchorMissing, EvalAnchorMethodExpired}"
  by (auto simp: check_anchor_def Let_def split: if_splits option.splits)

lemma DeriveNullifier_Inr:
  "DeriveNullifier sha nb tag = Inr d \<longleftrightarrow>
     nb_Commitment nb \<noteq> '''' \<and> nb_Scheme nb \<noteq> '''' \<and> nb_Curve nb \<noteq> '''' \<and> tag \<noteq> '''' \<and>
     d = hex_encode (sha (nb_Commitment nb @ '':'' @ tag))"
  by (auto simp: DeriveNullifier_def)

lemma check_anchor_None:
  assumes "p_MaxAnchorMethodAgeSeconds p \<le> 9223372036"
    and "\<forall>vm \<in> set (cs_VerifiedMethods (vc_CredentialSubject cred)). vm_FreshnessLifetime vm < max_int64"
  shows "anchor_satisfied cred p now \<longleftrightarrow>
    (p_AnchorRequired p \<longrightarrow> cs_AnchorMethodID (vc_CredentialSubject cred) \<noteq> None) \<and>
    check_anchor p now (vc_CredentialSubject cred) = None"
proof (cases "cs_AnchorMethodID (vc_CredentialSubject cred)")
  case (Some a)
  show ?thesis
  proof (cases "find (\<lambda>vm. vm_MethodID vm = a) (cs_VerifiedMethods (vc_CredentialSubject cred))")
    case (Some am)
    with assms(2) have "vm_FreshnessLifetime am < max_int64" by (auto dest: find_Some_mem)
    then have "freshness_window p am = anchor_window p am" "anchor_window p am < max_int64"
      using assms(1) by (auto simp: freshness_window_def anchor_window_def seconds_exact max_int64_def)
    then show ?thesis
      using Some \<open>cs_AnchorMethodID _ = _\<close> sub_time_gt [of "anchor_window p am" now "vm_VerifiedAt am"]
      by (auto simp: anchor_satisfied_def check_anchor_def Let_def min_int64_def)
  qed (use Some in \<open>auto simp: anchor_satisfied_def check_anchor_def\<close>)
qed (auto simp: anchor_satisfied_def check_anchor_def)

lemma supp_points_sum:
  assumes "\<forall>vm \<in> set vms. 0 \<le> vm_Strength vm \<and> vm_Strength vm \<le> 100 \<and> vm_FreshnessLifetime vm < max_int64"
    and "0 \<le> acc" "acc + 100 * int (length vms) \<le> max_int64"
  shows "supp_points now acc vms = acc + (\<Sum>vm \<leftarrow> filter (fresh_supplementary now) vms. vm_Strength vm)"
  using assms
proof (induction vms arbitrary: acc)
  case (Cons vm vms)
  have w: "wrap64 (acc + vm_Strength vm) = acc + vm_Strength vm"
    using Cons.prems by (intro wrap64_id) (auto simp: min_int64_def)
  have f: "0 < vm_FreshnessLifetime vm \<Longrightarrow>
      vm_FreshnessLifetime vm < sub_time now (vm_VerifiedAt vm) \<longleftrightarrow>
      vm_FreshnessLifetime vm < now - vm_VerifiedAt vm"
    using Cons.prems sub_time_gt [of "vm_FreshnessLifetime vm" now "vm_VerifiedAt vm"]
    by (auto simp: min_int64_def)
  show ?case
    using Cons.prems w f Cons.IH [of acc] Cons.IH [of "acc + vm_Strength vm"]
    by (auto simp: fresh_supplementary_def supplementaryStrengthCeiling_def)
qed simp

lemma in_range_points:
  assumes "in_range cred p"
  shows "supp_points now 0 (cs_VerifiedMethods (vc_CredentialSubject cred)) =
    (\<Sum>vm \<leftarrow> filter (fresh_supplementary now) (cs_VerifiedMethods (vc_CredentialSubject cred)). vm_Strength vm)"
  using assms supp_points_sum [of "cs_VerifiedMethods (vc_CredentialSubject cred)" 0 now]
  by (auto simp: in_range_def max_int64_def)

lemma age_exact:
  assumes "p_MaxCredentialAgeSeconds p \<le> 9223372036"
  shows "(p_MaxCredentialAgeSeconds p > 0 \<and> sub_time now t > seconds (p_MaxCredentialAgeSeconds p)) \<longleftrightarrow>
    (p_MaxCredentialAgeSeconds p > 0 \<and> now - t > p_MaxCredentialAgeSeconds p * 1000000000)"
  using assms sub_time_gt [of "p_MaxCredentialAgeSeconds p * 1000000000" now t]
  by (auto simp: seconds_exact max_int64_def min_int64_def)

text \<open>When the result is OK, whatever the numbers; its code and its nullifier.\<close>

lemma DeriveNullifier_usable:
  "(\<exists>d. DeriveNullifier sha nb tag = Inr d) \<longleftrightarrow>
     nb_Commitment nb \<noteq> '''' \<and> nb_Scheme nb \<noteq> '''' \<and> nb_Curve nb \<noteq> '''' \<and> tag \<noteq> ''''"
  by (simp add: DeriveNullifier_Inr)

lemma Evaluate_ok_iff:
  "er_OK (Evaluate sha cred p now) \<longleftrightarrow>
     vc_Validate cred = None \<and>
     \<not> (p_MaxCredentialAgeSeconds p > 0 \<and>
        sub_time now (vc_IssuanceDate cred) > seconds (p_MaxCredentialAgeSeconds p)) \<and>
     now \<le> vc_ExpirationDate cred \<and>
     \<not> (p_AnchorRequired p \<and> cs_AnchorMethodID (vc_CredentialSubject cred) = None) \<and>
     check_anchor p now (vc_CredentialSubject cred) = None \<and>
     check_methods p (cs_VerifiedMethods (vc_CredentialSubject cred)) = None \<and>
     p_MinSupplementaryPoints p \<le> supp_points now 0 (cs_VerifiedMethods (vc_CredentialSubject cred)) \<and>
     (p_NullifierRequired p \<longrightarrow> binding_usable cred p)"
proof -
  let ?s = "vc_CredentialSubject cred"
  have a: "(case check_anchor p now ?s of None \<Rightarrow> X | Some r \<Rightarrow> er_OK r) \<longleftrightarrow> check_anchor p now ?s = None \<and> X"
    and m: "(case check_methods p vms of None \<Rightarrow> X | Some r \<Rightarrow> er_OK r) \<longleftrightarrow> check_methods p vms = None \<and> X"
    for X vms
    by (auto dest: check_anchor_Some check_methods_Some split: option.split)
  have d: "(case DeriveNullifier sha nb tag of Inl err \<Rightarrow> False | Inr derived \<Rightarrow> True) \<longleftrightarrow>
      nb_Commitment nb \<noteq> '''' \<and> nb_Scheme nb \<noteq> '''' \<and> nb_Curve nb \<noteq> '''' \<and> tag \<noteq> ''''" for nb tag
    by (simp add: DeriveNullifier_def)
  have b: "binding_usable cred p \<longleftrightarrow> cs_NullifierBinding ?s \<noteq> None \<and>
      (case DeriveNullifier sha (the (cs_NullifierBinding ?s)) (p_NullifierContextTag p)
       of Inl err \<Rightarrow> False | Inr derived \<Rightarrow> True)"
    unfolding d binding_usable_def by auto
  show ?thesis
    unfolding Evaluate_def Let_def b
    by (cases "vc_Validate cred")
      (simp_all add: if_distrib [of er_OK] option.case_distrib [of er_OK] sum.case_distrib [of er_OK]
        a m not_less cong: option.case_cong sum.case_cong)
qed


lemma Evaluate_nullifier:
  "er_DerivedNullifier (Evaluate sha cred p now) =
     (if er_OK (Evaluate sha cred p now) \<and> p_NullifierRequired p
      then Some (hex_encode (sha (nb_Commitment (the (cs_NullifierBinding (vc_CredentialSubject cred)))
        @ '':'' @ p_NullifierContextTag p))) else None)"
proof -
  let ?n = "Some (hex_encode (sha (nb_Commitment (the (cs_NullifierBinding (vc_CredentialSubject cred)))
        @ '':'' @ p_NullifierContextTag p)))"
  let ?c = "\<lambda>r. er_DerivedNullifier r = (if er_OK r \<and> p_NullifierRequired p then ?n else None)"
  have a: "?c (case check_anchor p now s of None \<Rightarrow> x | Some r \<Rightarrow> r)" if "?c x" for s x
    using that by (auto dest: check_anchor_Some split: option.split)
  have m: "?c (case check_methods p vms of None \<Rightarrow> x | Some r \<Rightarrow> r)" if "?c x" for vms x
    using that by (auto dest: check_methods_Some split: option.split)
  have i: "?c (if b then x else y)" if "b \<Longrightarrow> ?c x" "\<not> b \<Longrightarrow> ?c y" for b x y using that by simp
  have v: "?c (case vc_Validate cred of None \<Rightarrow> x | Some e \<Rightarrow> y e)" if "?c x" "\<And>e. ?c (y e)" for x y
    using that by (auto split: option.split)
  show ?thesis
    unfolding Evaluate_def Let_def
    by (intro v i a m; simp add: DeriveNullifier_def)
qed

lemma Evaluate_ok_satisfied:
  assumes "in_range cred p"
  shows "er_OK (Evaluate sha cred p now) \<longleftrightarrow> policy_satisfied cred p now"
proof -
  have r: "p_MaxCredentialAgeSeconds p \<le> 9223372036" "p_MaxAnchorMethodAgeSeconds p \<le> 9223372036"
    "\<forall>vm \<in> set (cs_VerifiedMethods (vc_CredentialSubject cred)). vm_FreshnessLifetime vm < max_int64"
    using assms by (auto simp: in_range_def)
  note facts = check_anchor_None [OF r(2,3), of now] age_exact [OF r(1), of now "vc_IssuanceDate cred"]
    in_range_points [OF assms, of now] check_methods_None
  show ?thesis
    unfolding Evaluate_ok_iff policy_satisfied_def using facts by auto
qed

section \<open>Properties\<close>

lemma sum_list_filter_mono:
  fixes f :: "'a \<Rightarrow> int"
  assumes "\<And>x. x \<in> set xs \<Longrightarrow> P x \<Longrightarrow> Q x" "\<And>x. x \<in> set xs \<Longrightarrow> 0 \<le> f x"
  shows "(\<Sum>x \<leftarrow> filter P xs. f x) \<le> (\<Sum>x \<leftarrow> filter Q xs. f x)"
  using assms by (induction xs) fastforce+

lemma policy_satisfied_antimono:
  assumes "policy_satisfied cred p later" "now \<le> later"
    "\<And>vm. vm \<in> set (cs_VerifiedMethods (vc_CredentialSubject cred)) \<Longrightarrow> 0 \<le> vm_Strength vm"
  shows "policy_satisfied cred p now"
proof -
  have "anchor_satisfied cred p now" if "anchor_satisfied cred p later"
    using that assms(2) by (fastforce simp: anchor_satisfied_def split: option.splits)
  moreover have "(\<Sum>vm \<leftarrow> filter (fresh_supplementary later)
      (cs_VerifiedMethods (vc_CredentialSubject cred)). vm_Strength vm)
    \<le> (\<Sum>vm \<leftarrow> filter (fresh_supplementary now)
      (cs_VerifiedMethods (vc_CredentialSubject cred)). vm_Strength vm)"
    by (rule sum_list_filter_mono) (use assms in \<open>auto simp: fresh_supplementary_def\<close>)
  ultimately show ?thesis
    using assms unfolding policy_satisfied_def by fastforce
qed



lemma seconds_overflow:
  assumes "9223372037 \<le> n" "n \<le> 18446744073"
  shows "seconds n < 0"
proof -
  let ?m = "n * 1000000000 + 9223372036854775808"
  have "?m mod 18446744073709551616 = ?m - 18446744073709551616"
    using assms by (subst mod_pos_geq) auto
  then show ?thesis using assms by (simp add: seconds_def wrap64_def)
qed

lemma binding_hash_inj:
  assumes "hex_text a" "hex_text a'"
  shows "a @ '':'' @ t = a' @ '':'' @ t' \<longleftrightarrow> a = a' \<and> t = t'"
proof -
  have "CHR '':'' \<notin> set a" "CHR '':'' \<notin> set a'"
    using assms by (auto simp: hex_text_def)
  then show ?thesis using separator_inj [of "CHR '':''" a a' t t'] by simp
qed

text \<open>Concrete values for the witnesses: a liveness anchor and an e-mail method.\<close>

definition sample_methods :: "verified_method list" where
  "sample_methods =
     [\<lparr>vm_MethodID = ''phone-liveness'', vm_Strength = 80, vm_VerifiedAt = 1000,
       vm_FreshnessLifetime = 0, vm_AttestationDigest = ''ab''\<rparr>,
      \<lparr>vm_MethodID = ''email'', vm_Strength = 10, vm_VerifiedAt = 1000,
       vm_FreshnessLifetime = 500, vm_AttestationDigest = ''cd''\<rparr>]"

definition sample_credential :: credential where
  "sample_credential =
     \<lparr>vc_Context = [W3CVCContext, PersonhoodVCContext], vc_ID = ''urn:personhood:credential:1'',
      vc_Type = [''VerifiableCredential'', ''PersonhoodCredential''], vc_Issuer = ''did:web:issuer'',
      vc_IssuanceDate = 1000, vc_ExpirationDate = 9000,
      vc_CredentialSubject = \<lparr>cs_ID = ''did:key:z6Mk'', cs_VerifiedMethods = sample_methods,
        cs_AnchorMethodID = Some ''phone-liveness'',
        cs_NullifierBinding = Some \<lparr>nb_Commitment = ''0a'', nb_Curve = ''bn254'',
          nb_Scheme = ''pedersen-v1''\<rparr>\<rparr>,
      vc_CredentialStatus = None, vc_Proof = None\<rparr>"

definition sample_policy :: policy where
  "sample_policy =
     \<lparr>p_Version = ''1.0'', p_PolicyID = ''ubi.claim.daily'', p_Action = ''ubi.claim'',
      p_AnchorRequired = True, p_MinSupplementaryPoints = 10, p_AllowedMethods = [],
      p_BlockedMethods = [''captcha''], p_MinStrengthPerMethod = [''email'' \<mapsto> 5],
      p_MaxCredentialAgeSeconds = 1, p_MaxAnchorMethodAgeSeconds = 1,
      p_RequireFreshAnchorProof = False, p_NullifierRequired = True,
      p_NullifierContextTag = ''day:1''\<rparr>"

lemmas sample_defs = sample_methods_def sample_credential_def sample_policy_def

lemma sample_in_range: "in_range sample_credential sample_policy"
  by (simp add: in_range_def sample_defs max_int64_def)

lemma sample_Validate: "vc_Validate sample_credential = None"
  by (auto simp: vc_Validate_None sample_defs PersonhoodVCContext_def W3CVCContext_def)

lemma sample_satisfied: "policy_satisfied sample_credential sample_policy 1400"
  unfolding policy_satisfied_def sample_Validate anchor_satisfied_def binding_usable_def
  by (simp add: sample_defs method_accepted_def fresh_supplementary_def anchor_window_def)

text \<open>On a credential that holds a blocked method next to what the policy asks for, the two part: the document ignores the
  method, \<open>Evaluate\<close> refuses the credential, also when \<open>allowed_methods\<close> lists it.\<close>

lemma documented_but_refused:
  "let p = sample_policy\<lparr>p_MinSupplementaryPoints := 0, p_BlockedMethods := [''email'']\<rparr>;
       q = p\<lparr>p_AllowedMethods := [''email'', ''phone-liveness'']\<rparr>
   in policy_documented sample_credential p 1400 \<and> \<not> policy_satisfied sample_credential p 1400 \<and>
      policy_documented sample_credential q 1400 \<and> \<not> policy_satisfied sample_credential q 1400"
  by (simp add: policy_documented_def policy_satisfied_def documented_methods_def method_accepted_def sample_defs Let_def)



text \<open>Time only ever takes permission away: a credential accepted at some instant was acceptable
  to the same policy at every earlier instant.\<close>

theorem evaluate_antimono_in_time:
  assumes "in_range cred p" "now \<le> later" "er_OK (Evaluate sha cred p later)"
  shows "er_OK (Evaluate sha cred p now)"
  using assms policy_satisfied_antimono [of cred p later now]
  by (auto simp: Evaluate_ok_satisfied in_range_def)

theorem evaluate_antimono_in_time_witness:
  "er_OK (Evaluate (\<lambda>b. b) sample_credential sample_policy 1200)"
  by (rule evaluate_antimono_in_time [OF sample_in_range, of 1200 1400])
    (simp_all add: Evaluate_ok_satisfied [OF sample_in_range] sample_satisfied)

text \<open>The int64 product of \<open>time.Duration(n) * time.Second\<close> overflows for anchor ages of 292
  years and more: the window is negative, and \<open>Evaluate\<close> never calls the anchor too old.\<close>

theorem huge_anchor_age_disables_freshness:
  assumes "9223372037 \<le> p_MaxAnchorMethodAgeSeconds p" "p_MaxAnchorMethodAgeSeconds p \<le> 18446744073"
  shows "er_Code (Evaluate sha cred p now) \<noteq> EvalAnchorMethodExpired"
proof -
  have w: "freshness_window p am < 0" for am
    using seconds_overflow [OF assms] assms by (simp add: freshness_window_def)
  have a: "er_Code r \<noteq> EvalAnchorMethodExpired" if "check_anchor p now s = Some r" for r s
    using that w by (auto simp: check_anchor_def Let_def split: option.splits if_splits)
       (meson less_asym)
  show ?thesis
    unfolding Evaluate_def Let_def
    by (auto split: option.split sum.split dest: a check_methods_Some)
qed

theorem huge_anchor_age_disables_freshness_witness:
  "er_Code (Evaluate (\<lambda>b. b) sample_credential
     (sample_policy\<lparr>p_MaxAnchorMethodAgeSeconds := 9223372037\<rparr>) 5000) \<noteq> EvalAnchorMethodExpired"
  by (rule huge_anchor_age_disables_freshness) simp_all

text \<open>One nullifier per person and context: two accepted presentations have the same derived
  nullifier exactly when they have the same binding commitment and the same context tag. The hash
  is asked for no more than to tell the two messages at hand apart.\<close>

theorem derived_nullifier_per_context:
  assumes "er_DerivedNullifier (Evaluate sha cred p now) = Some n"
    and "er_DerivedNullifier (Evaluate sha cred' p' now') = Some n'"
    and "cs_NullifierBinding (vc_CredentialSubject cred) = Some nb" "hex_text (nb_Commitment nb)"
    and "cs_NullifierBinding (vc_CredentialSubject cred') = Some nb'" "hex_text (nb_Commitment nb')"
    and "sha (nb_Commitment nb @ '':'' @ p_NullifierContextTag p)
        = sha (nb_Commitment nb' @ '':'' @ p_NullifierContextTag p') \<Longrightarrow>
      nb_Commitment nb @ '':'' @ p_NullifierContextTag p
        = nb_Commitment nb' @ '':'' @ p_NullifierContextTag p'"
  shows "n = n' \<longleftrightarrow> nb_Commitment nb = nb_Commitment nb'
    \<and> p_NullifierContextTag p = p_NullifierContextTag p'"
  using assms binding_hash_inj [of "nb_Commitment nb" "nb_Commitment nb'"]
  by (auto simp: Evaluate_nullifier split: if_splits)

theorem derived_nullifier_per_context_witness:
  "let p2 = sample_policy\<lparr>p_NullifierContextTag := ''day:2''\<rparr>;
       e = Evaluate (\<lambda>b. b) sample_credential sample_policy 1400;
       e2 = Evaluate (\<lambda>b. b) sample_credential p2 1400 in
   er_DerivedNullifier e = Some (hex_encode ''0a:day:1'') \<and>
   er_DerivedNullifier e2 = Some (hex_encode ''0a:day:2'') \<and>
   \<not> (hex_encode ''0a:day:1'' = hex_encode ''0a:day:2'')"
proof -
  let ?p2 = "sample_policy\<lparr>p_NullifierContextTag := ''day:2''\<rparr>"
  have r: "in_range sample_credential ?p2" using sample_in_range by (simp add: in_range_def)
  have s: "policy_satisfied sample_credential ?p2 1400"
    unfolding policy_satisfied_def sample_Validate anchor_satisfied_def binding_usable_def
    by (simp add: sample_defs method_accepted_def fresh_supplementary_def anchor_window_def)
  have nb: "cs_NullifierBinding (vc_CredentialSubject sample_credential)
      = Some \<lparr>nb_Commitment = ''0a'', nb_Curve = ''bn254'', nb_Scheme = ''pedersen-v1''\<rparr>"
    by (simp add: sample_credential_def)
  have e: "er_DerivedNullifier (Evaluate (\<lambda>b. b) sample_credential sample_policy 1400)
      = Some (hex_encode ''0a:day:1'')"
    "er_DerivedNullifier (Evaluate (\<lambda>b. b) sample_credential ?p2 1400)
      = Some (hex_encode ''0a:day:2'')"
    by (simp_all add: Evaluate_nullifier Evaluate_ok_satisfied [OF sample_in_range]
        Evaluate_ok_satisfied [OF r] sample_satisfied s nb) (simp_all add: sample_policy_def)
  then show ?thesis
    using derived_nullifier_per_context [OF e nb _ nb]
    by (simp add: hex_text_def sample_policy_def)
qed

end
