(* ===== verification/Registry_Model.thy ===== *)
theory Registry_Model
  imports Types_Model
begin

text \<open>
  The catalogue of method plugins, \<open>src/registry/registry.go\<close>. A method is its metadata and a plugin
  value of a type of its own; \<open>None\<close> is a nil \<open>Method\<close>. The Go map is an association list, because
  \<open>List\<close> ranges over it.
\<close>

section \<open>Operations\<close>

datatype 'p method_entry = Method_Entry (me_Metadata: method_metadata) (me_Plugin: 'p)

record 'p registry =
  reg_methods :: "(string \<times> 'p method_entry) list"

datatype registry_error = ErrNilMethod | RegInvalidMetadata metadata_error | ErrDuplicateMethodID string

definition registry_New :: "'p registry" where
  "registry_New = \<lparr>reg_methods = []\<rparr>"

definition registry_Register ::
  "'p registry \<Rightarrow> 'p method_entry option \<Rightarrow> registry_error option \<times> 'p registry" where
  "registry_Register r mo =
     (case mo of
        None \<Rightarrow> (Some ErrNilMethod, r)
      | Some m \<Rightarrow>
          (let md = me_Metadata m in
           case md_Validate md of
             Some err \<Rightarrow> (Some (RegInvalidMetadata err), r)
           | None \<Rightarrow>
               if map_of (reg_methods r) (md_ID md) \<noteq> None
               then (Some (ErrDuplicateMethodID (md_ID md)), r)
               else (None, r\<lparr>reg_methods := alist_put (md_ID md) m (reg_methods r)\<rparr>)))"

definition registry_Get :: "'p registry \<Rightarrow> string \<Rightarrow> 'p method_entry option" where
  "registry_Get r mid = map_of (reg_methods r) mid"

definition registry_List :: "'p registry \<Rightarrow> 'p method_entry list" where
  "registry_List r = sort_key (\<lambda>m. md_ID (me_Metadata m)) (map snd (reg_methods r))"

definition registry_ListByType :: "'p registry \<Rightarrow> method_type \<Rightarrow> 'p method_entry list" where
  "registry_ListByType r t =
     sort_key (\<lambda>m. md_ID (me_Metadata m))
       (filter (\<lambda>m. md_Type (me_Metadata m) = t) (map snd (reg_methods r)))"

section \<open>Invariant\<close>

definition registry_wf :: "'p registry \<Rightarrow> bool" where
  "registry_wf r \<longleftrightarrow> distinct (map fst (reg_methods r)) \<and>
     (\<forall>(k, m) \<in> set (reg_methods r). md_ID (me_Metadata m) = k \<and> md_Validate (me_Metadata m) = None)"

lemma registry_New_wf [simp]: "registry_wf registry_New"
  by (simp add: registry_New_def registry_wf_def)

lemma registry_Register_error: "registry_Register r mo = (Some e, r') \<Longrightarrow> r' = r"
  by (auto simp: registry_Register_def Let_def split: option.splits if_splits)

lemma registry_Register_ok:
  "registry_Register r (Some m) = (None, r') \<longleftrightarrow>
     md_Validate (me_Metadata m) = None \<and> registry_Get r (md_ID (me_Metadata m)) = None \<and>
     r' = r\<lparr>reg_methods := reg_methods r @ [(md_ID (me_Metadata m), m)]\<rparr>"
  by (auto simp: registry_Register_def registry_Get_def Let_def alist_put_def map_of_eq_None_iff
      split: option.splits if_splits)

lemma registry_Register_wf:
  assumes "registry_wf r" "registry_Register r mo = (e, r')"
  shows "registry_wf r'"
proof (cases e)
  case None
  then obtain m where m: "mo = Some m"
    using assms by (cases mo) (auto simp: registry_Register_def)
  have "md_ID (me_Metadata m) \<notin> fst ` set (reg_methods r)"
    using assms None m by (auto simp: registry_Register_ok registry_Get_def map_of_eq_None_iff)
  then show ?thesis
    using assms None m by (auto simp: registry_Register_ok registry_wf_def)
qed (use assms registry_Register_error in blast)

lemma registry_Get_wf:
  "registry_wf r \<Longrightarrow> registry_Get r mid = Some m \<Longrightarrow>
     md_ID (me_Metadata m) = mid \<and> md_Validate (me_Metadata m) = None"
  by (auto simp: registry_Get_def registry_wf_def dest!: map_of_SomeD)

lemma registry_List_set:
  "registry_wf r \<Longrightarrow> m \<in> set (registry_List r) \<longleftrightarrow> registry_Get r (md_ID (me_Metadata m)) = Some m"
  by (force simp: registry_List_def registry_Get_def registry_wf_def map_of_eq_Some_iff)

lemma registry_List_sorted: "sorted (map (\<lambda>m. md_ID (me_Metadata m)) (registry_List r))"
  by (simp add: registry_List_def)

lemma registry_ids:
  "registry_wf r \<Longrightarrow> map (\<lambda>m. md_ID (me_Metadata m)) (map snd (reg_methods r)) = map fst (reg_methods r)"
  by (auto simp: registry_wf_def)

lemma registry_List_distinct:
  assumes "registry_wf r"
  shows "distinct (map (\<lambda>m. md_ID (me_Metadata m)) (registry_List r))"
proof -
  let ?f = "\<lambda>m. md_ID (me_Metadata m)" and ?ms = "map snd (reg_methods r)"
  have "distinct (map ?f ?ms)"
    unfolding registry_ids [OF assms] using assms by (simp add: registry_wf_def)
  then have "distinct ?ms \<and> inj_on ?f (set ?ms)"
    using distinct_map [of ?f ?ms] by blast
  then show ?thesis
    unfolding registry_List_def distinct_map [of ?f "sort_key ?f ?ms"] by (simp only: distinct_sort set_sort)
qed

lemma registry_ListByType_filter:
  "registry_ListByType r t = filter (\<lambda>m. md_Type (me_Metadata m) = t) (registry_List r)"
  by (simp add: registry_ListByType_def registry_List_def filter_sort)

text \<open>Every registry the server can have built.\<close>

inductive registry_reachable :: "'p registry \<Rightarrow> bool" where
  reg_new: "registry_reachable registry_New"
| reg_register: "registry_reachable r \<Longrightarrow> registry_Register r mo = (e, r') \<Longrightarrow> registry_reachable r'"

lemma registry_reachable_wf: "registry_reachable r \<Longrightarrow> registry_wf r"
  by (induction rule: registry_reachable.induct) (auto intro: registry_Register_wf)

section \<open>Properties\<close>

text \<open>In every registry built by \<open>New\<close> and \<open>Register\<close>, \<open>List\<close> is the strictly sorted list of the
  methods \<open>Get\<close> finds, each of them with valid metadata, and \<open>ListByType\<close> is its sublist of that
  type.\<close>

theorem registry_list_exact:
  assumes "registry_reachable r"
  shows "sorted (map (\<lambda>m. md_ID (me_Metadata m)) (registry_List r))
    \<and> distinct (map (\<lambda>m. md_ID (me_Metadata m)) (registry_List r))
    \<and> (\<forall>m. m \<in> set (registry_List r) \<longleftrightarrow> registry_Get r (md_ID (me_Metadata m)) = Some m)
    \<and> (\<forall>mid m. registry_Get r mid = Some m \<longrightarrow> md_ID (me_Metadata m) = mid \<and> md_Validate (me_Metadata m) = None)
    \<and> (\<forall>t. registry_ListByType r t = filter (\<lambda>m. md_Type (me_Metadata m) = t) (registry_List r))"
  using registry_reachable_wf [OF assms] registry_List_sorted registry_List_distinct
    registry_List_set registry_Get_wf registry_ListByType_filter
  by blast

definition sample_metadata :: method_metadata where
  "sample_metadata =
     \<lparr>md_ID = ''phone-liveness'', md_Type = ''anchor'', md_Strength = 80, md_CostUSD = 0,
      md_UXFriction = ''high'', md_PlatformRequirements = [], md_FreshnessLifetime = 0,
      md_Version = ''1''\<rparr>"

theorem registry_list_exact_witness:
  "let r = snd (registry_Register registry_New (Some (Method_Entry sample_metadata ()))) in
   registry_Get r ''phone-liveness'' = Some (Method_Entry sample_metadata ()) \<and>
   Method_Entry sample_metadata () \<in> set (registry_List r)"
proof -
  let ?r = "snd (registry_Register registry_New (Some (Method_Entry sample_metadata ())))"
  have reach: "registry_reachable ?r"
    by (metis prod.collapse registry_reachable.intros)
  have get: "registry_Get ?r ''phone-liveness'' = Some (Method_Entry sample_metadata ())"
    by (simp add: registry_Register_def registry_New_def registry_Get_def sample_metadata_def
        md_Validate_def MethodTypeAnchor_def)
  show ?thesis
    using registry_list_exact [OF reach] get by (auto simp: Let_def sample_metadata_def)
qed

end
