(* ===== verification/Codec.thy ===== *)
theory Codec
  imports Prelude
begin

text \<open>
  What the issuer takes from Go's standard library on bytes: \<open>encoding/base64\<close> in its four
  alphabets, with the round trip, and the cryptographic functions as a record of arguments. A
  property that needs more of SHA-256, HMAC or Ed25519 than being a function says so in a
  hypothesis about the messages at hand.
\<close>

section \<open>Cryptographic functions\<close>

record crypto =
  c_sha256 :: "bytes \<Rightarrow> bytes"
  c_hmac :: "bytes \<Rightarrow> bytes \<Rightarrow> bytes"
  c_sign :: "bytes \<Rightarrow> bytes \<Rightarrow> bytes"
  c_verify :: "bytes \<Rightarrow> bytes \<Rightarrow> bytes \<Rightarrow> bool"

definition PublicKeySize :: nat where "PublicKeySize = 32"
definition PrivateKeySize :: nat where "PrivateKeySize = 64"
definition SignatureSize :: nat where "SignatureSize = 64"

lemmas key_sizes = PublicKeySize_def PrivateKeySize_def SignatureSize_def

text \<open>\<open>hex.EncodeToString(sha256.Sum256(b))\<close>, which the code writes in a dozen places.\<close>

definition sha256_hex :: "crypto \<Rightarrow> bytes \<Rightarrow> string" where
  "sha256_hex cr b = hex_encode (c_sha256 cr b)"

text \<open>
  The documented contract of Ed25519: a signature made with a private key verifies under the public
  half, which \<open>ed25519.PrivateKey\<close> carries in its last 32 bytes.
\<close>

definition public_of :: "bytes \<Rightarrow> bytes" where
  "public_of priv = drop 32 priv"

definition signs_for :: "crypto \<Rightarrow> bytes \<Rightarrow> bytes \<Rightarrow> bool" where
  "signs_for cr priv msg \<longleftrightarrow> length (c_sign cr priv msg) = SignatureSize \<and>
     c_verify cr (public_of priv) msg (c_sign cr priv msg)"

section \<open>Base64\<close>

definition b64_std :: string where
  "b64_std = ''ABCDEFGHIJKLMNOPQRSTUVWXYZabcdefghijklmnopqrstuvwxyz0123456789+/''"

definition b64_url :: string where
  "b64_url = ''ABCDEFGHIJKLMNOPQRSTUVWXYZabcdefghijklmnopqrstuvwxyz0123456789-_''"

fun b64_encode :: "string \<Rightarrow> bool \<Rightarrow> bytes \<Rightarrow> string" where
  "b64_encode alpha pad [] = []"
| "b64_encode alpha pad [a] =
     [alpha ! (byte_of a div 4), alpha ! (byte_of a mod 4 * 16)] @ (if pad then ''=='' else [])"
| "b64_encode alpha pad [a, b] =
     [alpha ! (byte_of a div 4), alpha ! (byte_of a mod 4 * 16 + byte_of b div 16),
      alpha ! (byte_of b mod 16 * 4)] @ (if pad then ''='' else [])"
| "b64_encode alpha pad (a # b # c # rest) =
     [alpha ! (byte_of a div 4), alpha ! (byte_of a mod 4 * 16 + byte_of b div 16),
      alpha ! (byte_of b mod 16 * 4 + byte_of c div 64), alpha ! (byte_of c mod 64)]
     @ b64_encode alpha pad rest"

text \<open>
  Go's decoder: line breaks are skipped anywhere, the text is read in groups of four, padding (when
  the encoding has it) must complete the last group and end the text, and the unused low bits of a
  short group are ignored.
\<close>

definition b64_value :: "string \<Rightarrow> char \<Rightarrow> nat option" where
  "b64_value alpha c = index_byte alpha c"

fun b64_tail2 :: "nat option \<Rightarrow> nat option \<Rightarrow> bytes option" where
  "b64_tail2 (Some p) (Some q) = Some [byte (p * 4 + q div 16)]"
| "b64_tail2 _ _ = None"

fun b64_tail3 :: "nat option \<Rightarrow> nat option \<Rightarrow> nat option \<Rightarrow> bytes option" where
  "b64_tail3 (Some p) (Some q) (Some r) =
     Some [byte (p * 4 + q div 16), byte (q mod 16 * 16 + r div 4)]"
| "b64_tail3 _ _ _ = None"

fun b64_quad :: "nat option \<Rightarrow> nat option \<Rightarrow> nat option \<Rightarrow> nat option \<Rightarrow> bytes option" where
  "b64_quad (Some p) (Some q) (Some r) (Some s) =
     Some [byte (p * 4 + q div 16), byte (q mod 16 * 16 + r div 4), byte (r mod 4 * 64 + s)]"
| "b64_quad _ _ _ _ = None"

fun b64_groups :: "string \<Rightarrow> bool \<Rightarrow> string \<Rightarrow> bytes option" where
  "b64_groups alpha pad [] = Some []"
| "b64_groups alpha pad [a] = None"
| "b64_groups alpha pad [a, b] =
     (if pad then None else b64_tail2 (b64_value alpha a) (b64_value alpha b))"
| "b64_groups alpha pad [a, b, c] =
     (if pad then None else b64_tail3 (b64_value alpha a) (b64_value alpha b) (b64_value alpha c))"
| "b64_groups alpha pad (a # b # c # d # rest) =
     (case b64_quad (b64_value alpha a) (b64_value alpha b) (b64_value alpha c) (b64_value alpha d) of
        Some xs \<Rightarrow> map_option ((@) xs) (b64_groups alpha pad rest)
      | None \<Rightarrow>
          if pad \<and> rest = [] \<and> d = CHR ''='' then
            (if c = CHR ''='' then b64_tail2 (b64_value alpha a) (b64_value alpha b)
             else b64_tail3 (b64_value alpha a) (b64_value alpha b) (b64_value alpha c))
          else None)"

definition b64_decode :: "string \<Rightarrow> bool \<Rightarrow> string \<Rightarrow> bytes option" where
  "b64_decode alpha pad s =
     b64_groups alpha pad (filter (\<lambda>c. c \<noteq> CHR 0x0A \<and> c \<noteq> CHR 0x0D) s)"

abbreviation "RawURL_encode \<equiv> b64_encode b64_url False"
abbreviation "RawURL_decode \<equiv> b64_decode b64_url False"
abbreviation "URL_decode \<equiv> b64_decode b64_url True"
abbreviation "Std_encode \<equiv> b64_encode b64_std True"
abbreviation "Std_decode \<equiv> b64_decode b64_std True"
abbreviation "RawStd_decode \<equiv> b64_decode b64_std False"

section \<open>Round trip\<close>

text \<open>What the decoder needs of an alphabet; both alphabets have it.\<close>

definition alphabet_ok :: "string \<Rightarrow> bool" where
  "alphabet_ok alpha \<longleftrightarrow> length alpha = 64 \<and> distinct alpha \<and>
     set alpha \<inter> {CHR ''='', CHR 0x0A, CHR 0x0D} = {}"

lemma index_byte_nth:
  "distinct s \<Longrightarrow> i < length s \<Longrightarrow> index_byte s (s ! i) = Some i"
proof (induction s arbitrary: i)
  case (Cons x s)
  then show ?case by (cases i) auto
qed simp

lemma index_byte_None: "index_byte s c = None \<longleftrightarrow> c \<notin> set s"
  by (induction s) auto

lemma alphabets [simp]: "alphabet_ok b64_std" "alphabet_ok b64_url"
  by (simp_all add: alphabet_ok_def b64_std_def b64_url_def)

lemma b64_value_nth [simp]:
  "alphabet_ok alpha \<Longrightarrow> n < 64 \<Longrightarrow> b64_value alpha (alpha ! n) = Some n"
  by (simp add: b64_value_def alphabet_ok_def index_byte_nth)

lemma b64_value_pad [simp]: "alphabet_ok alpha \<Longrightarrow> b64_value alpha (CHR ''='') = None"
  by (auto simp: b64_value_def alphabet_ok_def index_byte_None)

lemma sextets [simp]:
  "byte_of a div 4 < 64" "byte_of a mod 4 * 16 < 64" "byte_of a mod 64 < 64"
  "byte_of a mod 4 * 16 + byte_of b div 16 < 64" "byte_of b mod 16 * 4 < 64"
  "byte_of b mod 16 * 4 + byte_of c div 64 < 64"
  using byte_of_less [of a] byte_of_less [of b] byte_of_less [of c] by linarith+

lemma byte_byte_of: "n = byte_of c \<Longrightarrow> byte n = c"
  by simp

lemma octets [simp]:
  "byte (byte_of a + byte_of b div 16 div 16) = a"
  "byte (byte_of b div 16 mod 16 * 16 + byte_of b mod 16) = b"
  "byte (byte_of b div 16 mod 16 * 16 + (byte_of b mod 16 + byte_of c div 64 div 4)) = b"
  "byte (byte_of c div 64 mod 4 * 64 + byte_of c mod 64) = c"
proof -
  have lt: "byte_of b div 16 < 16" "byte_of c div 64 < 4"
    using byte_of_less [of b] byte_of_less [of c] by linarith+
  show "byte (byte_of a + byte_of b div 16 div 16) = a"
    by (rule byte_byte_of) (use lt in simp)
  have b: "byte_of b div 16 mod 16 * 16 + byte_of b mod 16 = byte_of b" using lt by simp
  show "byte (byte_of b div 16 mod 16 * 16 + byte_of b mod 16) = b"
    by (rule byte_byte_of) (rule b)
  show "byte (byte_of b div 16 mod 16 * 16 + (byte_of b mod 16 + byte_of c div 64 div 4)) = b"
    by (rule byte_byte_of) (use lt b in simp)
  show "byte (byte_of c div 64 mod 4 * 64 + byte_of c mod 64) = c"
    by (rule byte_byte_of) (use lt in simp)
qed

lemma alphabet_nth_mem: "alphabet_ok alpha \<Longrightarrow> n < 64 \<Longrightarrow> alpha ! n \<in> set alpha"
  by (simp add: alphabet_ok_def)

lemma nth_not_pad [simp]: "alphabet_ok alpha \<Longrightarrow> n < 64 \<Longrightarrow> alpha ! n \<noteq> CHR ''=''"
  by (metis alphabet_nth_mem alphabet_ok_def disjoint_iff insertI1)

lemma b64_groups_encode:
  "alphabet_ok alpha \<Longrightarrow> b64_groups alpha pad (b64_encode alpha pad b) = Some b"
  by (induction alpha pad b rule: b64_encode.induct) auto

lemma b64_encode_chars:
  "alphabet_ok alpha \<Longrightarrow> set (b64_encode alpha pad b) \<subseteq> insert (CHR ''='') (set alpha)"
  by (induction alpha pad b rule: b64_encode.induct) (auto simp: alphabet_nth_mem)

lemma b64_encode_no_breaks:
  assumes "alphabet_ok alpha"
  shows "filter (\<lambda>c. c \<noteq> CHR 0x0A \<and> c \<noteq> CHR 0x0D) (b64_encode alpha pad b) = b64_encode alpha pad b"
proof -
  have "\<forall>c \<in> insert (CHR ''='') (set alpha). c \<noteq> CHR 0x0A \<and> c \<noteq> CHR 0x0D"
    using assms by (auto simp: alphabet_ok_def)
  then show ?thesis
    using b64_encode_chars [OF assms, of pad b] unfolding filter_id_conv by blast
qed

lemma b64_roundtrip [simp]:
  "alphabet_ok alpha \<Longrightarrow> b64_decode alpha pad (b64_encode alpha pad b) = Some b"
  by (simp add: b64_decode_def b64_encode_no_breaks b64_groups_encode)

lemma b64_encode_Nil [simp]: "b64_encode alpha pad b = [] \<longleftrightarrow> b = []"
  by (induction alpha pad b rule: b64_encode.induct) auto

end
