(* ===== verification/Base58_Did.thy ===== *)
theory Base58_Did
  imports Codec Types_Model
begin

text \<open>
  Identifiers: the hand-written base58 codec of \<open>src/server/base58.go\<close>, array loop for array loop,
  and the DIDs, nullifier bindings and DID document of \<open>src/server/did.go\<close>. The main results are
  that decoding inverts encoding on every byte string, which is where the integer size estimates
  \<open>138/100\<close> and \<open>733/1000\<close> matter, and that a did:key determines its key and back.
\<close>

section \<open>The codec\<close>

definition base58Alphabet :: string where
  "base58Alphabet = ''123456789ABCDEFGHJKLMNPQRSTUVWXYZabcdefghijkmnopqrstuvwxyz''"

text \<open>
  The inner loop, the same in both directions: multiply the number in the array by \<open>m\<close> and add the
  carry, from the last cell down, until the carry is gone and \<open>len\<close> cells are done. The first
  argument is the index \<open>j + 1\<close>; the result is the array, the carry left and the count \<open>i\<close>.
\<close>

fun carry_loop ::
  "nat \<Rightarrow> nat \<Rightarrow> nat \<Rightarrow> nat \<Rightarrow> nat \<Rightarrow> nat \<Rightarrow> nat list \<Rightarrow> nat list \<times> nat \<times> nat" where
  "carry_loop m b 0 carry i len arr = (arr, carry, i)"
| "carry_loop m b (Suc j) carry i len arr =
     (if carry \<noteq> 0 \<or> i < len then
        (let c = carry + m * arr ! j in
         carry_loop m b j (c div b) (Suc i) len (arr[j := c mod b]))
      else (arr, carry, i))"

fun encode_loop :: "bytes \<Rightarrow> nat list \<times> nat \<Rightarrow> nat list \<times> nat" where
  "encode_loop [] (b58, len) = (b58, len)"
| "encode_loop (c # cs) (b58, len) =
     (let (b58', carry, i) = carry_loop 256 58 (length b58) (byte_of c) 0 len b58 in
      encode_loop cs (b58', i))"

definition base58Encode :: "bytes \<Rightarrow> string" where
  "base58Encode input =
     (if length input = 0 then ''''
      else
        (let zeros = length (takeWhile (\<lambda>c. byte_of c = 0) input);
             size = (length input - zeros) * 138 div 100 + 1;
             (b58, len) = encode_loop (drop zeros input) (replicate size 0, 0)
         in replicate zeros (CHR ''1'')
            @ map (\<lambda>d. base58Alphabet ! d) (dropWhile (\<lambda>d. d = 0) (drop (size - len) b58))))"

fun decode_loop :: "string \<Rightarrow> nat list \<times> nat \<Rightarrow> (nat list \<times> nat) option" where
  "decode_loop [] (b256, len) = Some (b256, len)"
| "decode_loop (c # cs) (b256, len) =
     (case index_byte base58Alphabet c of
        None \<Rightarrow> None
      | Some v \<Rightarrow>
          (let (b256', carry, j) = carry_loop 58 256 (length b256) v 0 len b256 in
           decode_loop cs (b256', j)))"

text \<open>\<open>None\<close> is the invalid-character error.\<close>

definition base58Decode :: "string \<Rightarrow> bytes option" where
  "base58Decode s =
     (if s = '''' then Some []
      else
        (let zeros = length (takeWhile (\<lambda>c. c = CHR ''1'') s);
             size = (length s - zeros) * 733 div 1000 + 1
         in (case decode_loop s (replicate size 0, 0) of
               None \<Rightarrow> None
             | Some (b256, len) \<Rightarrow>
                 Some (replicate zeros (byte 0)
                   @ map byte (dropWhile (\<lambda>d. d = 0) (drop (size - len) b256))))))"

section \<open>DIDs and bindings\<close>

text \<open>\<open>url_host\<close> is \<open>url.Parse\<close> followed by \<open>Host\<close>; \<open>None\<close> is a URL that does not parse.\<close>

definition IssuerDIDFromPublicURL :: "(string \<Rightarrow> string option) \<Rightarrow> string \<Rightarrow> did option" where
  "IssuerDIDFromPublicURL url_host publicURL =
     (case url_host publicURL of
        None \<Rightarrow> None
      | Some host \<Rightarrow>
          if host = '''' then None
          else Some (''did:web:'' @ concat (map (\<lambda>c. if c = CHR '':'' then ''%3A'' else [c]) host)))"

definition IssuerVerificationMethod :: "did \<Rightarrow> string \<Rightarrow> string" where
  "IssuerVerificationMethod issuerDID keyFragment =
     issuerDID @ ''#'' @ (if keyFragment = '''' then ''key-1'' else keyFragment)"

definition ed25519MulticodecPrefix :: bytes where
  "ed25519MulticodecPrefix = [byte 0xED, byte 0x01]"

definition DIDKeyFromEd25519 :: "bytes \<Rightarrow> did option" where
  "DIDKeyFromEd25519 pub =
     (if length pub \<noteq> PublicKeySize then None
      else Some (''did:key:z'' @ base58Encode (ed25519MulticodecPrefix @ pub)))"

definition Ed25519FromDIDKey :: "did \<Rightarrow> bytes option" where
  "Ed25519FromDIDKey d =
     (if \<not> has_prefix d ''did:key:z'' then None
      else (case base58Decode (trim_prefix d ''did:key:z'') of
          None \<Rightarrow> None
        | Some data \<Rightarrow>
            if length data \<noteq> length ed25519MulticodecPrefix + PublicKeySize then None
            else if data ! 0 \<noteq> ed25519MulticodecPrefix ! 0 \<or> data ! 1 \<noteq> ed25519MulticodecPrefix ! 1
            then None
            else Some (drop 2 data)))"

definition HolderDIDForSession :: "crypto \<Rightarrow> string \<Rightarrow> bytes \<Rightarrow> did" where
  "HolderDIDForSession cr sessionID holderPublicKey =
     (let fallback = ''did:personhood:holder:'' @ sha256_hex cr sessionID in
      if length holderPublicKey = PublicKeySize then
        (case DIDKeyFromEd25519 holderPublicKey of Some d \<Rightarrow> d | None \<Rightarrow> fallback)
      else fallback)"

definition NullifierBindingForHolder :: "crypto \<Rightarrow> bytes \<Rightarrow> nullifier_binding option" where
  "NullifierBindingForHolder cr holderPublicKey =
     (if length holderPublicKey \<noteq> PublicKeySize then None
      else Some \<lparr>nb_Commitment = sha256_hex cr (''personhood-nullifier-binding-v1'' @ holderPublicKey),
                 nb_Curve = ''bn254'', nb_Scheme = ''pedersen-v1''\<rparr>)"

definition NullifierBindingForBiometricCommitment :: "crypto \<Rightarrow> string \<Rightarrow> nullifier_binding option" where
  "NullifierBindingForBiometricCommitment cr commitmentHex =
     (if commitmentHex = '''' then None
      else Some \<lparr>nb_Commitment =
                   sha256_hex cr (''personhood-nullifier-binding-biometric-v1'' @ commitmentHex),
                 nb_Curve = ''bn254'', nb_Scheme = ''pedersen-v1''\<rparr>)"

fun biometricCommitmentFromVerifiedMethods :: "verified_method list \<Rightarrow> string \<Rightarrow> string" where
  "biometricCommitmentFromVerifiedMethods [] methodID = ''''"
| "biometricCommitmentFromVerifiedMethods (vm # vms) methodID =
     (if vm_MethodID vm = methodID \<and> vm_AttestationDigest vm \<noteq> '''' then vm_AttestationDigest vm
      else biometricCommitmentFromVerifiedMethods vms methodID)"

record did_verification_entry =
  ve_ID :: string
  ve_Type :: string
  ve_Controller :: did
  ve_PublicKeyJwk :: "(string \<times> string) list"

record issuer_did_document =
  dd_Context :: "string list"
  dd_ID :: did
  dd_VerificationMethod :: "did_verification_entry list"
  dd_AssertionMethod :: "string list"

definition BuildDIDDocument :: "did \<Rightarrow> string \<Rightarrow> bytes \<Rightarrow> issuer_did_document option" where
  "BuildDIDDocument issuerDID keyFragment pub =
     (if length pub \<noteq> PublicKeySize then None
      else
        (let vmID = IssuerVerificationMethod issuerDID keyFragment in
         Some \<lparr>dd_Context = [''https://www.w3.org/ns/did/v1'',
                 ''https://w3id.org/security/suites/jws-2020/v1''],
               dd_ID = issuerDID,
               dd_VerificationMethod = [\<lparr>ve_ID = vmID, ve_Type = ''JsonWebKey2020'',
                 ve_Controller = issuerDID,
                 ve_PublicKeyJwk = [(''kty'', ''OKP''), (''crv'', ''Ed25519''), (''x'', RawURL_encode pub)]\<rparr>],
               dd_AssertionMethod = [vmID]\<rparr>))"

section \<open>Numbers in a base\<close>

definition digits_val :: "nat \<Rightarrow> nat list \<Rightarrow> nat" where
  "digits_val b ds = foldl (\<lambda>a d. a * b + d) 0 ds"

lemma digits_val_Nil [simp]: "digits_val b [] = 0"
  by (simp add: digits_val_def)

lemma digits_val_snoc [simp]: "digits_val b (ds @ [d]) = digits_val b ds * b + d"
  by (simp add: digits_val_def)

lemma digits_val_append: "digits_val b (xs @ ys) = digits_val b xs * b ^ length ys + digits_val b ys"
  by (induction ys rule: rev_induct) (simp_all add: append_assoc [symmetric] algebra_simps del: append_assoc)

lemma digits_val_Cons: "digits_val b (d # ds) = d * b ^ length ds + digits_val b ds"
  using digits_val_append [of b "[d]" ds] digits_val_snoc [of b "[]" d] by simp

lemma digits_val_zeros [simp]: "digits_val b (replicate n 0) = 0"
  by (induction n) (simp_all add: digits_val_Cons)

lemma digits_val_all_zero: "\<forall>d \<in> set ds. d = 0 \<Longrightarrow> digits_val b ds = 0"
  by (induction ds) (auto simp: digits_val_Cons)

lemma digits_val_less: "\<forall>d \<in> set ds. d < b \<Longrightarrow> digits_val b ds < b ^ length ds"
proof (induction ds rule: rev_induct)
  case (snoc d ds)
  then have "digits_val b ds + 1 \<le> b ^ length ds" "d < b" by auto
  then have "(digits_val b ds + 1) * b \<le> b ^ length ds * b" by (simp only: mult_le_mono1)
  then show ?case using \<open>d < b\<close> by (simp add: algebra_simps)
qed simp

lemma digits_val_strip: "digits_val b (dropWhile (\<lambda>d. d = 0) ds) = digits_val b ds"
  by (induction ds) (auto simp: digits_val_Cons)

lemma digits_val_ge:
  "ds \<noteq> [] \<Longrightarrow> hd ds \<noteq> 0 \<Longrightarrow> b ^ (length ds - 1) \<le> digits_val b ds"
  by (cases ds) (auto simp: digits_val_Cons trans_le_add1)

lemma digits_unique:
  assumes "\<forall>d \<in> set xs. d < b" "\<forall>d \<in> set ys. d < b" "0 < b"
    and "xs \<noteq> [] \<longrightarrow> hd xs \<noteq> 0" "ys \<noteq> [] \<longrightarrow> hd ys \<noteq> 0"
    and "digits_val b xs = digits_val b ys"
  shows "xs = ys"
  using assms
proof (induction xs arbitrary: ys rule: rev_induct)
  case Nil
  then show ?case using digits_val_ge [of ys b] by (cases "ys = []") auto
next
  case (snoc x xs)
  show ?case
  proof (cases ys rule: rev_cases)
    case Nil
    then show ?thesis using snoc.prems digits_val_ge [of "xs @ [x]" b] by auto
  next
    case (snoc ys' y)
    note prems = snoc.prems [unfolded snoc]
    have e: "digits_val b xs * b + x = digits_val b ys' * b + y" "x < b" "y < b" using prems by auto
    then have "digits_val b xs = digits_val b ys'"
      by (metis add.right_neutral div_less div_mult_self3 prems(3) not_less0)
    moreover have "x = y" using e calculation by simp
    moreover have "xs \<noteq> [] \<longrightarrow> hd xs \<noteq> 0" "ys' \<noteq> [] \<longrightarrow> hd ys' \<noteq> 0"
      using prems by (auto simp: hd_append)
    ultimately show ?thesis
      using snoc.IH [of ys'] prems snoc by simp
  qed
qed

section \<open>The loops compute the change of base\<close>

lemma carry_loop_value:
  assumes "carry_loop m b k carry i len arr = (arr', carry', i')"
    and "0 < b" "k \<le> length arr" "i + k = length arr" "\<forall>d \<in> set arr. d < b"
    and "\<forall>x < k. x + len < length arr \<longrightarrow> arr ! x = 0"
  shows "length arr' = length arr \<and> drop k arr' = drop k arr \<and> (\<forall>d \<in> set arr'. d < b) \<and>
    digits_val b (take k arr') + carry' * b ^ k = digits_val b (take k arr) * m + carry \<and>
    i \<le> i' \<and> i' \<le> length arr \<and> (\<forall>x < k. x + i' < length arr \<longrightarrow> arr' ! x = 0) \<and>
    (carry' = 0 \<or> i' = length arr)"
  using assms
proof (induction m b k carry i len arr arbitrary: arr' carry' i' rule: carry_loop.induct)
  case (2 m b j carry i len arr)
  let ?c = "carry + m * arr ! j"
  have snoc: "take (Suc j) xs = take j xs @ [xs ! j]" if "j < length xs" for xs :: "nat list"
    using that by (simp add: take_Suc_conv_app_nth)
  show ?case
  proof (cases "carry \<noteq> 0 \<or> i < len")
    case True
    let ?arr = "arr[j := ?c mod b]"
    have pre: "j \<le> length ?arr" "Suc i + j = length ?arr" "\<forall>d \<in> set ?arr. d < b"
      "\<forall>x < j. x + len < length ?arr \<longrightarrow> ?arr ! x = 0"
      using "2.prems" set_update_subset_insert [of arr j "?c mod b"] by auto
    have rec: "carry_loop m b j (?c div b) (Suc i) len ?arr = (arr', carry', i')"
      using "2.prems" True by (simp add: Let_def)
    have IH: "length arr' = length arr" "drop j arr' = drop j ?arr" "\<forall>d \<in> set arr'. d < b"
      "digits_val b (take j arr') + carry' * b ^ j = digits_val b (take j arr) * m + ?c div b"
      "Suc i \<le> i'" "i' \<le> length arr" "\<forall>x < j. x + i' < length arr \<longrightarrow> arr' ! x = 0" "carry' = 0 \<or> i' = length arr"
      using "2.IH" [OF True refl rec "2.prems"(2) pre] by simp_all
    have j: "arr' ! j = ?c mod b" "drop (Suc j) arr' = drop (Suc j) arr"
      using IH(1,2) "2.prems"
      by (metis Suc_le_eq append_same_eq hd_drop_conv_nth length_list_update nth_list_update_eq,
          metis IH(2) drop_Suc drop_tl drop_update_cancel lessI tl_drop)
    have v: "digits_val b (take (Suc j) arr') + carry' * b ^ Suc j =
        (digits_val b (take j arr') + carry' * b ^ j) * b + ?c mod b"
      using snoc [of arr'] IH(1) j "2.prems" by (simp add: algebra_simps)
    also have "\<dots> = digits_val b (take j arr) * m * b + ?c"
      unfolding IH(4) by (simp add: algebra_simps)
    also have "\<dots> = digits_val b (take (Suc j) arr) * m + carry"
      using snoc [of arr] "2.prems" by (simp add: algebra_simps)
    finally have val: "digits_val b (take (Suc j) arr') + carry' * b ^ Suc j =
      digits_val b (take (Suc j) arr) * m + carry" .
    have "\<forall>x < Suc j. x + i' < length arr \<longrightarrow> arr' ! x = 0"
      using IH(5,7) "2.prems"(4) by (auto simp: less_Suc_eq)
    then show ?thesis using IH j val by simp
  next
    case False
    then have "carry = 0" "len \<le> i" by auto
    then have "\<forall>d \<in> set (take (Suc j) arr). d = 0"
      using "2.prems" by (fastforce simp: in_set_conv_nth)
    then have "digits_val b (take (Suc j) arr) = 0" by (rule digits_val_all_zero)
    then show ?thesis using False "2.prems" by auto
  qed
qed auto

definition array_ok :: "nat \<Rightarrow> nat list \<Rightarrow> nat \<Rightarrow> bool" where
  "array_ok b arr len \<longleftrightarrow> (\<forall>d \<in> set arr. d < b) \<and> len \<le> length arr \<and>
     (\<forall>x. x + len < length arr \<longrightarrow> arr ! x = 0)"

lemma carry_loop_step:
  assumes "carry_loop m b (length arr) c 0 len arr = (arr', carry, i)"
    and "0 < b" "array_ok b arr len" "digits_val b arr * m + c < b ^ length arr"
  shows "array_ok b arr' i \<and> length arr' = length arr \<and> digits_val b arr' = digits_val b arr * m + c"
proof -
  have "length arr' = length arr"
    using carry_loop_value [OF assms(1,2)] assms(3) by (simp add: array_ok_def)
  then have "take (length arr) arr' = arr'" by simp
  note v = carry_loop_value [OF assms(1,2), unfolded this]
  have *: "length arr' = length arr" "\<forall>d \<in> set arr'. d < b" "i \<le> length arr"
    "digits_val b arr' + carry * b ^ length arr = digits_val b arr * m + c"
    "\<forall>x < length arr. x + i < length arr \<longrightarrow> arr' ! x = 0"
    using v assms(3) by (auto simp: array_ok_def)
  have "carry = 0"
  proof (rule ccontr)
    assume "carry \<noteq> 0"
    then have "b ^ length arr \<le> carry * b ^ length arr" by simp
    then show False using *(4) assms(4) by linarith
  qed
  then show ?thesis using * by (auto simp: array_ok_def)
qed

lemma array_ok_init [simp]: "0 < b \<Longrightarrow> array_ok b (replicate n 0) 0"
  by (auto simp: array_ok_def)

lemma array_ok_strip:
  assumes "array_ok b arr len"
  shows "dropWhile (\<lambda>d. d = 0) (drop (length arr - len) arr) = dropWhile (\<lambda>d. d = 0) arr"
proof -
  have "\<forall>d \<in> set (take (length arr - len) arr). d = 0"
    using assms by (auto simp: array_ok_def in_set_conv_nth)
  then have "dropWhile (\<lambda>d. d = 0) (take (length arr - len) arr @ drop (length arr - len) arr)
      = dropWhile (\<lambda>d. d = 0) (drop (length arr - len) arr)"
    by (subst dropWhile_append2) auto
  then show ?thesis by simp
qed

abbreviation bytes_val :: "bytes \<Rightarrow> nat" where
  "bytes_val b \<equiv> digits_val 256 (map byte_of b)"

lemma bound_step: "(a::nat) * k * m + (c * m + d) < B \<Longrightarrow> 0 < m \<Longrightarrow> a * k + c < B"
proof -
  assume "a * k * m + (c * m + d) < B" "0 < m"
  moreover have "(a * k + c) * 1 \<le> (a * k + c) * m" using \<open>0 < m\<close> by (intro mult_le_mono) auto
  ultimately show ?thesis by (simp add: algebra_simps)
qed

lemma encode_loop_value:
  assumes "encode_loop cs (arr, len) = (arr', len')" "array_ok 58 arr len"
    and "digits_val 58 arr * 256 ^ length cs + bytes_val cs < 58 ^ length arr"
  shows "array_ok 58 arr' len' \<and> length arr' = length arr \<and>
    digits_val 58 arr' = digits_val 58 arr * 256 ^ length cs + bytes_val cs"
  using assms
proof (induction cs arbitrary: arr len)
  case (Cons c cs)
  obtain a1 carry i where s: "carry_loop 256 58 (length arr) (byte_of c) 0 len arr = (a1, carry, i)"
    by (metis prod_cases3)
  have e: "digits_val 58 arr * 256 ^ length (c # cs) + bytes_val (c # cs)
      = (digits_val 58 arr * 256 + byte_of c) * 256 ^ length cs + bytes_val cs"
    by (simp add: digits_val_Cons algebra_simps)
  then have "digits_val 58 arr * 256 + byte_of c < 58 ^ length arr"
    using Cons.prems(3) bound_step [of "digits_val 58 arr" 256 "256 ^ length cs" "byte_of c"]
    by (simp add: algebra_simps)
  then have st: "array_ok 58 a1 i" "length a1 = length arr"
      "digits_val 58 a1 = digits_val 58 arr * 256 + byte_of c"
    using carry_loop_step [OF s _ Cons.prems(2)] by simp_all
  then show ?case
    using Cons.IH [of a1 i] Cons.prems s e by simp
qed simp

fun decode_digits :: "string \<Rightarrow> nat list option" where
  "decode_digits [] = Some []"
| "decode_digits (c # cs) = (case (index_byte base58Alphabet c, decode_digits cs) of
      (Some v, Some vs) \<Rightarrow> Some (v # vs) | _ \<Rightarrow> None)"

lemma decode_loop_value:
  assumes "decode_digits cs = Some vs" "array_ok 256 arr len"
    and "digits_val 256 arr * 58 ^ length vs + digits_val 58 vs < 256 ^ length arr"
  shows "\<exists>arr' len'. decode_loop cs (arr, len) = Some (arr', len') \<and> array_ok 256 arr' len' \<and>
    length arr' = length arr \<and>
    digits_val 256 arr' = digits_val 256 arr * 58 ^ length vs + digits_val 58 vs"
  using assms
proof (induction cs arbitrary: arr len vs)
  case (Cons c cs)
  then obtain v ws where v: "index_byte base58Alphabet c = Some v" "decode_digits cs = Some ws"
    "vs = v # ws" by (auto split: option.splits)
  obtain a1 carry i where s: "carry_loop 58 256 (length arr) v 0 len arr = (a1, carry, i)"
    by (metis prod_cases3)
  have e: "digits_val 256 arr * 58 ^ length vs + digits_val 58 vs
      = (digits_val 256 arr * 58 + v) * 58 ^ length ws + digits_val 58 ws"
    by (simp add: v digits_val_Cons algebra_simps)
  then have "digits_val 256 arr * 58 + v < 256 ^ length arr"
    using Cons.prems(3) bound_step [of "digits_val 256 arr" 58 "58 ^ length ws" v]
    by (simp add: algebra_simps)
  then have st: "array_ok 256 a1 i" "length a1 = length arr"
      "digits_val 256 a1 = digits_val 256 arr * 58 + v"
    using carry_loop_step [OF s _ Cons.prems(2)] by simp_all
  then show ?case
    using Cons.IH [of ws a1 i] Cons.prems s e v by simp
qed simp

section \<open>The size estimates\<close>

text \<open>\<open>size\<close> cells hold the number: \<open>138/100\<close> and \<open>733/1000\<close> round up \<open>log 256 / log 58\<close> and its
  inverse.\<close>

lemma power_root_le: "(a::nat) ^ k \<le> b ^ k \<Longrightarrow> 0 < k \<Longrightarrow> a \<le> b"
  using power_less_imp_less_base [of b k a] by (metis linorder_not_le power_strict_mono zero_le)

lemma encode_size: "(256::nat) ^ n \<le> 58 ^ (n * 138 div 100 + 1)"
proof (rule power_root_le [of _ 8])
  have "(256::nat) ^ 8 \<le> 58 ^ 11" by simp
  then have "((256::nat) ^ 8) ^ n \<le> (58 ^ 11) ^ n" by (rule power_mono) simp
  also have "\<dots> = 58 ^ (11 * n)" by (simp only: power_mult)
  also have "\<dots> \<le> 58 ^ ((n * 138 div 100 + 1) * 8)"
  proof (rule power_increasing)
    define q where "q = n * 138 div 100"
    have "n * 138 < 100 * (q + 1)" unfolding q_def by (simp add: dividend_less_times_div)
    then show "11 * n \<le> (n * 138 div 100 + 1) * 8"
      unfolding q_def [symmetric] by linarith
  qed simp
  finally show "((256::nat) ^ n) ^ 8 \<le> (58 ^ (n * 138 div 100 + 1)) ^ 8"
    by (simp only: power_mult [symmetric] mult.commute)
qed simp

lemma decode_size: "(58::nat) ^ n \<le> 256 ^ (n * 733 div 1000 + 1)"
proof (rule power_root_le [of _ 71])
  have "(58::nat) ^ 71 \<le> 256 ^ 52" by simp
  then have "((58::nat) ^ 71) ^ n \<le> (256 ^ 52) ^ n" by (rule power_mono) simp
  also have "\<dots> = 256 ^ (52 * n)" by (simp only: power_mult)
  also have "\<dots> \<le> 256 ^ ((n * 733 div 1000 + 1) * 71)"
  proof (rule power_increasing)
    define q where "q = n * 733 div 1000"
    have "n * 733 < 1000 * (q + 1)" unfolding q_def by (simp add: dividend_less_times_div)
    then show "52 * n \<le> (n * 733 div 1000 + 1) * 71"
      unfolding q_def [symmetric] by linarith
  qed simp
  finally show "((58::nat) ^ n) ^ 71 \<le> (256 ^ (n * 733 div 1000 + 1)) ^ 71"
    by (simp only: power_mult [symmetric] mult.commute)
qed simp

section \<open>Decoding inverts encoding\<close>

lemma alphabet58 [simp]: "length base58Alphabet = 58" "distinct base58Alphabet"
  by (simp_all add: base58Alphabet_def)

lemma alphabet58_one [simp]: "d < 58 \<Longrightarrow> base58Alphabet ! d = CHR ''1'' \<longleftrightarrow> d = 0"
  using nth_eq_iff_index_eq [of base58Alphabet d 0] by (simp add: base58Alphabet_def)

lemma decode_digits_map:
  "\<forall>d \<in> set ds. d < 58 \<Longrightarrow> decode_digits (map (\<lambda>d. base58Alphabet ! d) ds) = Some ds"
  by (induction ds) (auto simp: index_byte_nth)

lemma strip_hd: "dropWhile (\<lambda>d. d = 0) ds \<noteq> [] \<longrightarrow> hd (dropWhile (\<lambda>d. d = (0::nat)) ds) \<noteq> 0"
  using hd_dropWhile [of "\<lambda>d. d = 0" ds] by blast

lemma strip_less: "\<forall>d \<in> set ds. d < b \<Longrightarrow> \<forall>d \<in> set (dropWhile (\<lambda>d. d = (0::nat)) ds). d < b"
  by (meson set_dropWhileD)

text \<open>The digits behind an encoding: canonical, and of the same value as the bytes.\<close>

lemma base58Encode_digits:
  obtains ds zeros rest where
    "input = replicate zeros (byte 0) @ rest" "rest \<noteq> [] \<longrightarrow> byte_of (hd rest) \<noteq> 0"
    "base58Encode input = map (\<lambda>d. base58Alphabet ! d) (replicate zeros 0 @ ds)"
    "\<forall>d \<in> set ds. d < 58" "ds \<noteq> [] \<longrightarrow> hd ds \<noteq> 0" "digits_val 58 ds = bytes_val rest"
proof -
  define zeros where "zeros = length (takeWhile (\<lambda>c. byte_of c = 0) input)"
  define rest where "rest = drop zeros input"
  define size where "size = (length input - zeros) * 138 div 100 + 1"
  have tw: "takeWhile (\<lambda>c. byte_of c = 0) input = replicate zeros (byte 0)"
    unfolding zeros_def by (rule replicate_eqI) (auto dest: set_takeWhileD simp: byte_byte_of)
  have dw: "rest = dropWhile (\<lambda>c. byte_of c = 0) input"
    unfolding rest_def zeros_def by (simp add: dropWhile_eq_drop)
  have split: "input = replicate zeros (byte 0) @ rest"
    using takeWhile_dropWhile_id [of "\<lambda>c. byte_of c = 0" input] tw dw by simp
  obtain arr len where l: "encode_loop rest (replicate size 0, 0) = (arr, len)" by force
  have "bytes_val rest < 256 ^ length rest"
    using digits_val_less [of "map byte_of rest" 256] by simp
  also have "\<dots> \<le> 58 ^ size"
    using encode_size [of "length rest"] by (simp add: size_def rest_def)
  finally have ok: "array_ok 58 arr len" "length arr = size" "digits_val 58 arr = bytes_val rest"
    using encode_loop_value [OF l] by simp_all
  define ds where "ds = dropWhile (\<lambda>d. d = 0) arr"
  have enc: "base58Encode input = map (\<lambda>d. base58Alphabet ! d) (replicate zeros 0 @ ds)"
  proof (cases "input = []")
    case True
    then have "zeros = 0" "rest = []" by (simp_all add: zeros_def rest_def)
    then have "ds = []" using l by (auto simp: ds_def)
    then show ?thesis using True \<open>zeros = 0\<close> by (simp add: base58Encode_def)
  next
    case False
    have one: "base58Alphabet ! 0 = CHR ''1''" by (simp add: base58Alphabet_def)
    show ?thesis
      using False array_ok_strip [OF ok(1)]
      unfolding base58Encode_def Let_def zeros_def [symmetric] rest_def [symmetric]
        size_def [symmetric] l ds_def
      by (simp add: ok(2) one)
  qed
  show thesis
  proof (rule that [OF split _ enc])
    show "rest \<noteq> [] \<longrightarrow> byte_of (hd rest) \<noteq> 0"
      using hd_dropWhile [of "\<lambda>c. byte_of c = 0" input] dw by blast
  qed (use ok strip_hd [of arr] strip_less [of arr 58] in
      \<open>auto simp: ds_def digits_val_strip array_ok_def\<close>)
qed

lemma base58_roundtrip: "base58Decode (base58Encode input) = Some input"
proof -
  obtain ds zeros rest where e:
    "input = replicate zeros (byte 0) @ rest" "rest \<noteq> [] \<longrightarrow> byte_of (hd rest) \<noteq> 0"
    "base58Encode input = map (\<lambda>d. base58Alphabet ! d) (replicate zeros 0 @ ds)"
    "\<forall>d \<in> set ds. d < 58" "ds \<noteq> [] \<longrightarrow> hd ds \<noteq> 0" "digits_val 58 ds = bytes_val rest"
    by (rule base58Encode_digits)
  let ?ds = "replicate zeros 0 @ ds" and ?s = "base58Encode input"
  have z: "length (takeWhile (\<lambda>c. c = CHR ''1'') ?s) = zeros"
  proof -
    have "takeWhile (\<lambda>c. c = CHR ''1'') (map (\<lambda>d. base58Alphabet ! d) ds) = []"
      using e(4,5) by (cases ds) auto
    then show ?thesis unfolding e(3) by (simp add: takeWhile_append base58Alphabet_def)
  qed
  have len: "length ?s = zeros + length ds" by (simp add: e(3))
  define size where "size = (length ?s - zeros) * 733 div 1000 + 1"
  have dd: "decode_digits ?s = Some ?ds"
    unfolding e(3) by (rule decode_digits_map) (use e(4) in auto)
  have "digits_val 58 ?ds = digits_val 58 ds" by (simp add: digits_val_append)
  also have "\<dots> < 58 ^ length ds" using e(4) by (rule digits_val_less)
  also have "\<dots> \<le> 256 ^ size" using decode_size [of "length ds"] by (simp add: size_def len)
  finally have lt: "digits_val 58 ?ds < 256 ^ size" .
  then obtain arr n where l: "decode_loop ?s (replicate size 0, 0) = Some (arr, n)"
    "array_ok 256 arr n" "length arr = size" "digits_val 256 arr = digits_val 58 ?ds"
    using decode_loop_value [OF dd, of "replicate size 0" 0] by auto
  have "dropWhile (\<lambda>d. d = 0) arr = map byte_of rest"
  proof (rule digits_unique [of _ 256])
    show "digits_val 256 (dropWhile (\<lambda>d. d = 0) arr) = bytes_val rest"
      using l e(6) by (simp add: digits_val_strip digits_val_append)
    show "map byte_of rest \<noteq> [] \<longrightarrow> hd (map byte_of rest) \<noteq> 0"
      using e(2) by (cases rest) auto
  qed (use l strip_hd [of arr] strip_less [of arr 256] in \<open>auto simp: array_ok_def\<close>)
  then have rest: "map byte (dropWhile (\<lambda>d. d = 0) (drop (size - n) arr)) = rest"
    using array_ok_strip [OF l(2)] l(3) by (simp add: comp_def)
  show ?thesis
  proof (cases "?s = []")
    case True
    then have z0: "zeros = 0" "bytes_val rest = 0" using e by auto
    moreover have "rest = []"
      using e(2) z0 digits_val_ge [of "map byte_of rest" 256] by (cases rest) auto
    ultimately show ?thesis using True e(1) by (simp add: base58Decode_def)
  next
    case False
    then have "base58Decode ?s = Some (replicate zeros (byte 0) @ rest)"
      unfolding base58Decode_def Let_def z size_def [symmetric] l(1) by (simp add: rest)
    then show ?thesis using e(1) by simp
  qed
qed

section \<open>did:key\<close>

lemma base58Encode_inj [simp]: "base58Encode a = base58Encode b \<longleftrightarrow> a = b"
  by (metis base58_roundtrip option.inject)

lemma DIDKey_roundtrip:
  "length pub = PublicKeySize \<Longrightarrow> DIDKeyFromEd25519 pub = Some d \<Longrightarrow> Ed25519FromDIDKey d = Some pub"
  by (auto simp: DIDKeyFromEd25519_def Ed25519FromDIDKey_def has_prefix_def trim_prefix_def
      base58_roundtrip ed25519MulticodecPrefix_def)

lemma HolderDID_key:
  "length pub = PublicKeySize \<Longrightarrow>
     HolderDIDForSession cr sid pub = ''did:key:z'' @ base58Encode (ed25519MulticodecPrefix @ pub)"
  by (simp add: HolderDIDForSession_def DIDKeyFromEd25519_def)

lemma HolderDID_nonempty [simp]: "HolderDIDForSession cr sid pub \<noteq> []"
  by (simp add: HolderDIDForSession_def Let_def split: option.split)
    (auto simp: DIDKeyFromEd25519_def)

lemma biometric_None:
  "biometricCommitmentFromVerifiedMethods vms m = '''' \<longleftrightarrow>
     (\<forall>vm \<in> set vms. vm_MethodID vm = m \<longrightarrow> vm_AttestationDigest vm = '''')"
  by (induction vms) auto

section \<open>Properties\<close>

text \<open>\<open>base58Decode\<close> inverts \<open>base58Encode\<close> on every byte string: the integer size estimates never
  truncate a number, and leading zero bytes survive.\<close>

theorem base58_decode_encode: "base58Decode (base58Encode input) = Some input"
  by (rule base58_roundtrip)

text \<open>A holder DID is as good as the key: two sessions with valid Ed25519 keys get the same DID
  exactly when the keys are equal, whatever the sessions, and the key is read back from the DID.\<close>

theorem holder_did_identifies_key:
  assumes "length pub = PublicKeySize" "length pub' = PublicKeySize"
  shows "(HolderDIDForSession cr sid pub = HolderDIDForSession cr sid' pub' \<longleftrightarrow> pub = pub')
    \<and> Ed25519FromDIDKey (HolderDIDForSession cr sid pub) = Some pub"
proof -
  have "DIDKeyFromEd25519 pub = Some (HolderDIDForSession cr sid pub)"
    using assms by (simp add: HolderDID_key DIDKeyFromEd25519_def)
  then show ?thesis
    using assms DIDKey_roundtrip by (auto simp: HolderDID_key)
qed

definition sample_key :: "nat \<Rightarrow> bytes" where
  "sample_key n = replicate 32 (byte n)"

lemma sample_key_length [simp]: "length (sample_key n) = PublicKeySize"
  by (simp add: sample_key_def PublicKeySize_def)

definition sample_crypto :: crypto where
  "sample_crypto =
     \<lparr>c_sha256 = (\<lambda>b. b), c_hmac = (\<lambda>k m. k @ m),
      c_sign = (\<lambda>priv msg. take 64 (drop 32 priv @ msg @ replicate 64 (byte 0))),
      c_verify = (\<lambda>pub msg sig. sig = take 64 (pub @ msg @ replicate 64 (byte 0)))\<rparr>"

theorem holder_did_identifies_key_witness:
  "HolderDIDForSession sample_crypto ''a'' (sample_key 1) \<noteq> HolderDIDForSession sample_crypto ''b'' (sample_key 2)"
proof -
  have "sample_key 1 \<noteq> sample_key 2" by (simp add: sample_key_def)
  then show ?thesis
    using holder_did_identifies_key [of "sample_key 1" "sample_key 2" sample_crypto "''a''" "''b''"]
    by simp
qed

end
