(* ===== verification/Credential_Model.thy ===== *)
theory Credential_Model
  imports Base58_Did
begin

text \<open>
  Issuing and verifying credentials, \<open>src/credential/issue.go\<close> and \<open>verify.go\<close>. JSON marshalling
  and the RFC 8785 canonical form are arguments: \<open>to_map\<close> is \<open>json.Marshal\<close> followed by
  \<open>json.Unmarshal\<close> into a map, \<open>canon\<close> is \<open>json.Marshal\<close> of that map followed by
  \<open>jcs.Transform\<close>; either may fail.
\<close>

section \<open>Constants\<close>

definition ProofTypeEd25519Signature2020 :: string where
  "ProofTypeEd25519Signature2020 = ''Ed25519Signature2020''"
definition ProofPurposeAssertionMethod :: string where
  "ProofPurposeAssertionMethod = ''assertionMethod''"
definition CredentialTypeVerifiable :: string where
  "CredentialTypeVerifiable = ''VerifiableCredential''"
definition CredentialTypePersonhood :: string where
  "CredentialTypePersonhood = ''PersonhoodCredential''"
definition StatusList2021EntryType :: string where
  "StatusList2021EntryType = ''StatusList2021Entry''"

lemmas credential_constants = ProofTypeEd25519Signature2020_def ProofPurposeAssertionMethod_def
  CredentialTypeVerifiable_def CredentialTypePersonhood_def StatusList2021EntryType_def

section \<open>Canonical form\<close>

record json_codec =
  j_to_map :: "credential \<Rightarrow> json_object option"
  j_canon :: "json_object \<Rightarrow> bytes option"

definition canonicalizeWithoutProof :: "json_codec \<Rightarrow> credential \<Rightarrow> bytes option" where
  "canonicalizeWithoutProof js cred =
     (case j_to_map js cred of
        None \<Rightarrow> None
      | Some asMap \<Rightarrow> j_canon js (alist_del ''proof'' asMap))"

section \<open>Issuing\<close>

record issuer =
  is_IssuerDID :: did
  is_VerificationMethod :: string
  is_PrivateKey :: bytes
  is_StatusListCredentialURL :: string

definition NewIssuer :: "did \<Rightarrow> string \<Rightarrow> bytes \<Rightarrow> string \<Rightarrow> issuer" where
  "NewIssuer d keyFragment priv statusListURL =
     \<lparr>is_IssuerDID = d,
      is_VerificationMethod = (if keyFragment \<noteq> '''' then d @ ''#'' @ keyFragment else d),
      is_PrivateKey = priv, is_StatusListCredentialURL = statusListURL\<rparr>"

definition credentialID :: "did \<Rightarrow> did \<Rightarrow> time \<Rightarrow> string" where
  "credentialID iss holder issuedAt =
     ''urn:personhood:credential:'' @ iss @ '':'' @ holder @ '':'' @ int_string (unix_nano issuedAt)"

datatype issue_error =
    IssNilReceiver | IssPrivateKeySize | IssDIDRequired | IssVerificationMethodRequired
  | IssHolderRequired | IssNoMethods | IssInvalid credential_error | IssCanonicalize

text \<open>The credential before signing, with its optional status entry.\<close>

definition unsigned_credential ::
  "issuer \<Rightarrow> did \<Rightarrow> verified_method list \<Rightarrow> string option \<Rightarrow> nullifier_binding option \<Rightarrow> time \<Rightarrow> time
    \<Rightarrow> int option \<Rightarrow> credential" where
  "unsigned_credential i holder methods anchorMethodID nullifierBinding issuedAt expiresAt statusListIndex =
     \<lparr>vc_Context = [W3CVCContext, PersonhoodVCContext],
      vc_ID = credentialID (is_IssuerDID i) holder issuedAt,
      vc_Type = [CredentialTypeVerifiable, CredentialTypePersonhood],
      vc_Issuer = is_IssuerDID i,
      vc_IssuanceDate = issuedAt,
      vc_ExpirationDate = expiresAt,
      vc_CredentialSubject = \<lparr>cs_ID = holder, cs_VerifiedMethods = methods,
        cs_AnchorMethodID = anchorMethodID, cs_NullifierBinding = nullifierBinding\<rparr>,
      vc_CredentialStatus =
        (case statusListIndex of
           None \<Rightarrow> None
         | Some idx \<Rightarrow>
             if is_StatusListCredentialURL i \<noteq> '''' then
               Some \<lparr>st_ID = is_StatusListCredentialURL i @ ''#'' @ int_string idx,
                     st_Type = StatusList2021EntryType, st_StatusPurpose = ''revocation'',
                     st_StatusListIndex = idx,
                     st_StatusListCredential = is_StatusListCredentialURL i\<rparr>
             else None),
      vc_Proof = None\<rparr>"

definition Issue ::
  "crypto \<Rightarrow> json_codec \<Rightarrow> issuer option \<Rightarrow> did \<Rightarrow> verified_method list \<Rightarrow> string option
    \<Rightarrow> nullifier_binding option \<Rightarrow> time \<Rightarrow> time \<Rightarrow> int option \<Rightarrow> issue_error + credential" where
  "Issue cr js io holder methods anchorMethodID nullifierBinding issuedAt expiresAt statusListIndex =
     (case io of
        None \<Rightarrow> Inl IssNilReceiver
      | Some i \<Rightarrow>
          if length (is_PrivateKey i) \<noteq> PrivateKeySize then Inl IssPrivateKeySize
          else if is_IssuerDID i = '''' then Inl IssDIDRequired
          else if is_VerificationMethod i = '''' then Inl IssVerificationMethodRequired
          else if holder = '''' then Inl IssHolderRequired
          else if length methods = 0 then Inl IssNoMethods
          else
            (let cred = unsigned_credential i holder methods anchorMethodID nullifierBinding
                          issuedAt expiresAt statusListIndex in
             case vc_Validate cred of
               Some err \<Rightarrow> Inl (IssInvalid err)
             | None \<Rightarrow>
                 (case canonicalizeWithoutProof js cred of
                    None \<Rightarrow> Inl IssCanonicalize
                  | Some signingInput \<Rightarrow>
                      Inr (cred\<lparr>vc_Proof := Some
                        \<lparr>pf_Type = ProofTypeEd25519Signature2020, pf_Created = issuedAt,
                         pf_ProofPurpose = ProofPurposeAssertionMethod,
                         pf_VerificationMethod = is_VerificationMethod i,
                         pf_ProofValue = RawURL_encode (c_sign cr (is_PrivateKey i) signingInput)\<rparr>\<rparr>))))"

section \<open>Verifying\<close>

datatype verify_error =
    ErrNoResolver | ErrStructuralInvalid credential_error | ErrProofMissing | ErrProofUnsupported
  | ErrIssuerUnknown | ErrVerifyCanonicalize | ErrProofMalformed | ErrSignatureInvalid

datatype proof_value_error = PvEmpty | PvMultibase | PvNotSignature

definition decodeProofValue :: "string \<Rightarrow> proof_value_error + bytes" where
  "decodeProofValue s =
     (let sized = (\<lambda>r. case r of Some b \<Rightarrow> if length b = SignatureSize then Some b else None | None \<Rightarrow> None) in
      if s = '''' then Inl PvEmpty
      else (case sized (RawURL_decode s) of
          Some b \<Rightarrow> Inr b
        | None \<Rightarrow> (case sized (URL_decode s) of
              Some b \<Rightarrow> Inr b
            | None \<Rightarrow> if has_prefix s ''z'' then Inl PvMultibase else Inl PvNotSignature)))"

definition Verify ::
  "crypto \<Rightarrow> json_codec \<Rightarrow> (did \<Rightarrow> bytes option) option \<Rightarrow> credential \<Rightarrow> verify_error option" where
  "Verify cr js resolver cred =
     (case resolver of
        None \<Rightarrow> Some ErrNoResolver
      | Some resolve \<Rightarrow>
      (case vc_Validate cred of
        Some err \<Rightarrow> Some (ErrStructuralInvalid err)
      | None \<Rightarrow>
      (case vc_Proof cred of
        None \<Rightarrow> Some ErrProofMissing
      | Some pf \<Rightarrow>
          if pf_Type pf \<noteq> ProofTypeEd25519Signature2020 then Some ErrProofUnsupported
          else if pf_ProofPurpose pf \<noteq> ProofPurposeAssertionMethod then Some ErrProofUnsupported
          else if pf_ProofValue pf = '''' then Some ErrProofMissing
          else
            (case resolve (vc_Issuer cred) of
               None \<Rightarrow> Some ErrIssuerUnknown
             | Some pub \<Rightarrow>
                 if length pub \<noteq> PublicKeySize then Some ErrIssuerUnknown
                 else
                   (case canonicalizeWithoutProof js cred of
                      None \<Rightarrow> Some ErrVerifyCanonicalize
                    | Some signingInput \<Rightarrow>
                        (case decodeProofValue (pf_ProofValue pf) of
                           Inl e \<Rightarrow> Some ErrProofMalformed
                         | Inr sig \<Rightarrow>
                             if \<not> c_verify cr pub signingInput sig then Some ErrSignatureInvalid
                             else None))))))"

section \<open>Resolvers\<close>

definition MapResolver_Resolve :: "(did \<rightharpoonup> bytes) option \<Rightarrow> did \<Rightarrow> bytes option" where
  "MapResolver_Resolve m d = (case m of None \<Rightarrow> None | Some keys \<Rightarrow> keys d)"

record did_verification_method =
  dv_ID :: string
  dv_Type :: string
  dv_Controller :: string
  dv_PublicKeyMultibase :: string

record did_document =
  dj_ID :: string
  dj_VerificationMethod :: "did_verification_method list"

datatype web_resolver_error =
    WrNotWebDID | WrPathForm | WrFetch | WrStatus nat | WrReadBody | WrParse
  | WrMultibaseUnsupported | WrNoKey string

text \<open>
  \<open>http_get\<close> is the client's answer for a URL: \<open>None\<close> when no response came, otherwise its status and
  body (\<open>None\<close> when reading it failed); \<open>parse\<close> is \<open>json.Unmarshal\<close>.
\<close>

fun first_2020_key :: "string \<Rightarrow> did_verification_method list \<Rightarrow> web_resolver_error + bytes" where
  "first_2020_key url [] = Inl (WrNoKey url)"
| "first_2020_key url (vm # vms) =
     (if dv_Type vm \<noteq> ''Ed25519VerificationKey2020'' then first_2020_key url vms
      else Inl WrMultibaseUnsupported)"

definition WebResolver_Resolve ::
  "(string \<Rightarrow> (nat \<times> bytes option) option) \<Rightarrow> (bytes \<Rightarrow> did_document option) \<Rightarrow> did
    \<Rightarrow> web_resolver_error + bytes" where
  "WebResolver_Resolve http_get parse d =
     (if \<not> has_prefix d ''did:web:'' then Inl WrNotWebDID
      else
        (let rest = trim_prefix d ''did:web:'';
             host = (case index_byte rest (CHR ''#'') of Some idx \<Rightarrow> take idx rest | None \<Rightarrow> rest);
             url = ''https://'' @ host @ ''/.well-known/did.json'' in
         if contains_any host '':'' then Inl WrPathForm
         else (case http_get url of
             None \<Rightarrow> Inl WrFetch
           | Some (status, body) \<Rightarrow>
               if status \<noteq> 200 then Inl (WrStatus status)
               else (case body of
                   None \<Rightarrow> Inl WrReadBody
                 | Some b \<Rightarrow> (case parse b of
                       None \<Rightarrow> Inl WrParse
                     | Some doc \<Rightarrow> first_2020_key url (dj_VerificationMethod doc))))))"

section \<open>What is accepted\<close>

lemma Verify_None:
  "Verify cr js resolver cred = None \<longleftrightarrow>
     (\<exists>resolve pf pub msg sig. resolver = Some resolve \<and> vc_Validate cred = None \<and> vc_Proof cred = Some pf \<and>
        pf_Type pf = ProofTypeEd25519Signature2020 \<and> pf_ProofPurpose pf = ProofPurposeAssertionMethod \<and>
        pf_ProofValue pf \<noteq> '''' \<and> resolve (vc_Issuer cred) = Some pub \<and> length pub = PublicKeySize \<and>
        canonicalizeWithoutProof js cred = Some msg \<and> decodeProofValue (pf_ProofValue pf) = Inr sig \<and>
        c_verify cr pub msg sig)"
  unfolding Verify_def by (simp split: option.split sum.split)

lemma decodeProofValue_encode [simp]:
  "length sig = SignatureSize \<Longrightarrow> decodeProofValue (RawURL_encode sig) = Inr sig"
  by (auto simp: decodeProofValue_def Let_def SignatureSize_def)

lemma decodeProofValue_size: "decodeProofValue s = Inr b \<Longrightarrow> length b = SignatureSize"
  by (auto simp: decodeProofValue_def Let_def split: option.splits if_splits)

text \<open>The documented behaviour of \<open>encoding/json\<close> the scheme relies on: \<open>proof\<close> is one key of the
  object, and it marshals when its time is the issuance date's.\<close>

definition proof_is_a_key :: "json_codec \<Rightarrow> bool" where
  "proof_is_a_key js \<longleftrightarrow> (\<forall>c p m. pf_Created p = vc_IssuanceDate c \<longrightarrow> j_to_map js c = Some m \<longrightarrow>
     (\<exists>m'. j_to_map js (c\<lparr>vc_Proof := Some p\<rparr>) = Some m' \<and> alist_del ''proof'' m' = alist_del ''proof'' m))"

lemma canonical_with_proof:
  assumes "proof_is_a_key js" "canonicalizeWithoutProof js c = Some b" "pf_Created p = vc_IssuanceDate c"
  shows "canonicalizeWithoutProof js (c\<lparr>vc_Proof := Some p\<rparr>) = Some b"
  using assms by (fastforce simp: canonicalizeWithoutProof_def proof_is_a_key_def split: option.splits)

lemma vc_Validate_proof [simp]: "vc_Validate (c\<lparr>vc_Proof := p\<rparr>) = vc_Validate c"
  by (simp add: vc_Validate_def Let_def)

lemma Issue_Inr:
  "Issue cr js io holder methods anchor nb issuedAt expiresAt idx = Inr cred \<longleftrightarrow>
     (\<exists>i msg. io = Some i \<and> length (is_PrivateKey i) = PrivateKeySize \<and> is_IssuerDID i \<noteq> '''' \<and>
        is_VerificationMethod i \<noteq> '''' \<and> holder \<noteq> '''' \<and> methods \<noteq> [] \<and>
        vc_Validate (unsigned_credential i holder methods anchor nb issuedAt expiresAt idx) = None \<and>
        canonicalizeWithoutProof js
          (unsigned_credential i holder methods anchor nb issuedAt expiresAt idx) = Some msg \<and>
        cred = (unsigned_credential i holder methods anchor nb issuedAt expiresAt idx)\<lparr>vc_Proof := Some
          \<lparr>pf_Type = ProofTypeEd25519Signature2020, pf_Created = issuedAt,
           pf_ProofPurpose = ProofPurposeAssertionMethod, pf_VerificationMethod = is_VerificationMethod i,
           pf_ProofValue = RawURL_encode (c_sign cr (is_PrivateKey i) msg)\<rparr>\<rparr>)"
  unfolding Issue_def Let_def by (auto split: option.split)

lemma unsigned_simps [simp]:
  "vc_Issuer (unsigned_credential i holder methods anchor nb t e idx) = is_IssuerDID i"
  "vc_IssuanceDate (unsigned_credential i holder methods anchor nb t e idx) = t"
  "vc_ExpirationDate (unsigned_credential i holder methods anchor nb t e idx) = e"
  "vc_CredentialSubject (unsigned_credential i holder methods anchor nb t e idx) =
     \<lparr>cs_ID = holder, cs_VerifiedMethods = methods, cs_AnchorMethodID = anchor, cs_NullifierBinding = nb\<rparr>"
  by (simp_all add: unsigned_credential_def)

lemma unsigned_Validate:
  "vc_Validate (unsigned_credential i holder methods anchor nb t e idx) = None \<longleftrightarrow>
     is_IssuerDID i \<noteq> '''' \<and> t \<noteq> 0 \<and> e \<noteq> 0 \<and> t < e \<and> methods \<noteq> [] \<and>
     (\<forall>a. anchor = Some a \<longrightarrow> a \<in> vm_MethodID ` set methods)"
  by (simp add: vc_Validate_None) (simp add: unsigned_credential_def)

lemma issue_then_verify:
  assumes "Issue cr js (Some i) holder methods anchor nb issuedAt expiresAt idx = Inr cred"
    and "resolve (is_IssuerDID i) = Some (public_of (is_PrivateKey i))"
    and "proof_is_a_key js" "\<forall>msg. signs_for cr (is_PrivateKey i) msg"
  shows "Verify cr js (Some resolve) cred = None"
proof -
  let ?u = "unsigned_credential i holder methods anchor nb issuedAt expiresAt idx"
  obtain msg where m: "canonicalizeWithoutProof js ?u = Some msg" "vc_Validate ?u = None"
    "length (is_PrivateKey i) = PrivateKeySize" and
    c: "cred = ?u\<lparr>vc_Proof := Some
          \<lparr>pf_Type = ProofTypeEd25519Signature2020, pf_Created = issuedAt,
           pf_ProofPurpose = ProofPurposeAssertionMethod, pf_VerificationMethod = is_VerificationMethod i,
           pf_ProofValue = RawURL_encode (c_sign cr (is_PrivateKey i) msg)\<rparr>\<rparr>"
    using assms(1) by (auto simp: Issue_Inr)
  have sig: "length (c_sign cr (is_PrivateKey i) msg) = SignatureSize"
    "c_verify cr (public_of (is_PrivateKey i)) msg (c_sign cr (is_PrivateKey i) msg)"
    using assms(4) by (auto simp: signs_for_def)
  have can: "canonicalizeWithoutProof js cred = Some msg"
    unfolding c by (rule canonical_with_proof [OF assms(3) m(1)]) simp
  have ne: "RawURL_encode (c_sign cr (is_PrivateKey i) msg) \<noteq> []"
    using sig(1) by (auto simp: SignatureSize_def)
  have "length (public_of (is_PrivateKey i)) = PublicKeySize"
    using m(3) by (simp add: public_of_def key_sizes)
  then show ?thesis
    unfolding Verify_None using m sig ne assms(2) can by (simp add: c)
qed

section \<open>Properties\<close>

text \<open>C12: Whatever \<open>Issue\<close> returns verifies: with a resolver that knows the issuer's public key,
  \<open>Verify\<close> accepts the credential, also when the base64 signature starts with the multibase \<open>z\<close>.\<close>

theorem issued_credential_verifies:
  assumes "Issue cr js (Some i) holder methods anchor nb issuedAt expiresAt idx = Inr cred"
    and "keys (is_IssuerDID i) = Some (public_of (is_PrivateKey i))"
    and "proof_is_a_key js" "\<forall>msg. signs_for cr (is_PrivateKey i) msg"
  shows "Verify cr js (Some (MapResolver_Resolve (Some keys))) cred = None
    \<and> vc_Issuer cred = is_IssuerDID i \<and> cs_ID (vc_CredentialSubject cred) = holder
    \<and> cs_VerifiedMethods (vc_CredentialSubject cred) = methods"
proof -
  have "MapResolver_Resolve (Some keys) (is_IssuerDID i) = Some (public_of (is_PrivateKey i))"
    using assms(2) by (simp add: MapResolver_Resolve_def)
  then show ?thesis
    using issue_then_verify [OF assms(1) _ assms(3,4)] assms(1) by (auto simp: Issue_Inr)
qed

text \<open>A toy JSON codec for the witnesses: the object of a credential is its identifier, its holder and,
  when there is one, its proof value.\<close>

definition sample_json :: json_codec where
  "sample_json =
     \<lparr>j_to_map = (\<lambda>c. Some ([(''id'', JString (vc_ID c)), (''holder'', JString (cs_ID (vc_CredentialSubject c)))]
        @ (case vc_Proof c of Some p \<Rightarrow> [(''proof'', JString (pf_ProofValue p))] | None \<Rightarrow> []))),
      j_canon = (\<lambda>m. case map_of m ''holder'' of Some (JString s) \<Rightarrow> Some s | _ \<Rightarrow> None)\<rparr>"

definition sample_issuer :: issuer where
  "sample_issuer = NewIssuer ''did:web:x'' ''key-1'' (sample_key 1 @ sample_key 2) ''https://x/status''"

definition sample_vm :: verified_method where
  "sample_vm = \<lparr>vm_MethodID = ''email'', vm_Strength = 10, vm_VerifiedAt = 5,
     vm_FreshnessLifetime = 0, vm_AttestationDigest = ''ab''\<rparr>"

lemma sample_signs [simp]: "signs_for sample_crypto priv msg"
  by (simp add: signs_for_def sample_crypto_def public_of_def SignatureSize_def)

lemma sample_json_key [simp]: "proof_is_a_key sample_json"
  by (simp add: proof_is_a_key_def sample_json_def alist_del_def split: option.split)

lemma sample_json_canon:
  "canonicalizeWithoutProof sample_json c = Some (cs_ID (vc_CredentialSubject c))"
  by (simp add: canonicalizeWithoutProof_def sample_json_def alist_del_def split: option.split)

lemma sample_Issue:
  "\<exists>cred. Issue sample_crypto sample_json (Some sample_issuer) ''did:key:z6'' [sample_vm] None None 10 20 (Some 7)
     = Inr cred"
  by (simp add: Issue_Inr unsigned_Validate sample_json_canon)
    (simp add: sample_issuer_def NewIssuer_def sample_key_def key_sizes)

theorem issued_credential_verifies_witness:
  "\<exists>cred. Issue sample_crypto sample_json (Some sample_issuer) ''did:key:z6'' [sample_vm] None None 10 20 (Some 7)
     = Inr cred \<and>
   Verify sample_crypto sample_json
     (Some (MapResolver_Resolve (Some [''did:web:x'' \<mapsto> sample_key 2]))) cred = None"
proof -
  obtain cred where c: "Issue sample_crypto sample_json (Some sample_issuer) ''did:key:z6'' [sample_vm]
      None None 10 20 (Some 7) = Inr cred"
    using sample_Issue by blast
  have "[''did:web:x'' \<mapsto> sample_key 2] (is_IssuerDID sample_issuer)
      = Some (public_of (is_PrivateKey sample_issuer))"
    by (simp add: sample_issuer_def NewIssuer_def public_of_def sample_key_def)
  from issued_credential_verifies [where keys = "[''did:web:x'' \<mapsto> sample_key 2]", OF c this] c show ?thesis by simp
qed

text \<open>C4: Tampering is caught: a credential that reuses the proof of an issued one under the same issuer
  but differs from it in its canonical form is refused. Ed25519 is asked only that the one signature
  at hand is not valid for that one other message.\<close>

theorem tampered_credential_rejected:
  assumes "Issue cr js (Some i) holder methods anchor nb issuedAt expiresAt idx = Inr cred"
    and "keys (is_IssuerDID i) = Some (public_of (is_PrivateKey i))"
    and "proof_is_a_key js" "length (c_sign cr (is_PrivateKey i) msg) = 64"
    and "canonicalizeWithoutProof js cred = Some msg"
    and "vc_Proof forged = vc_Proof cred" "vc_Issuer forged = vc_Issuer cred"
    and "canonicalizeWithoutProof js forged \<noteq> Some msg"
    and "\<And>msg'. canonicalizeWithoutProof js forged = Some msg' \<Longrightarrow>
      c_verify cr (public_of (is_PrivateKey i)) msg' (c_sign cr (is_PrivateKey i) msg) \<Longrightarrow> msg' = msg"
  shows "Verify cr js (Some (MapResolver_Resolve (Some keys))) forged \<noteq> None"
proof
  assume "Verify cr js (Some (MapResolver_Resolve (Some keys))) forged = None"
  then obtain pf pub msg' sig where v: "vc_Proof forged = Some pf" "keys (vc_Issuer forged) = Some pub"
      "canonicalizeWithoutProof js forged = Some msg'" "decodeProofValue (pf_ProofValue pf) = Inr sig"
      "c_verify cr pub msg' sig"
    unfolding Verify_None MapResolver_Resolve_def by auto
  let ?u = "unsigned_credential i holder methods anchor nb issuedAt expiresAt idx"
  obtain m0 where u: "canonicalizeWithoutProof js ?u = Some m0" and
    c: "cred = ?u\<lparr>vc_Proof := Some
          \<lparr>pf_Type = ProofTypeEd25519Signature2020, pf_Created = issuedAt,
           pf_ProofPurpose = ProofPurposeAssertionMethod, pf_VerificationMethod = is_VerificationMethod i,
           pf_ProofValue = RawURL_encode (c_sign cr (is_PrivateKey i) m0)\<rparr>\<rparr>"
    using assms(1) by (auto simp: Issue_Inr)
  have "canonicalizeWithoutProof js cred = Some m0"
    unfolding c by (rule canonical_with_proof [OF assms(3) u]) simp
  then have "m0 = msg" using assms(5) by simp
  then have "sig = c_sign cr (is_PrivateKey i) msg" "pub = public_of (is_PrivateKey i)"
    using v assms(2,4,6,7) c by (auto simp: SignatureSize_def)
  then have "msg' = msg" using assms(9) [OF v(3)] v(5) by simp
  then show False using assms(8) v(3) by simp
qed

theorem tampered_credential_rejected_witness:
  "\<exists>cred. Issue sample_crypto sample_json (Some sample_issuer) ''did:key:z6'' [sample_vm] None None 10 20 (Some 7)
     = Inr cred \<and>
   Verify sample_crypto sample_json (Some (MapResolver_Resolve (Some [''did:web:x'' \<mapsto> sample_key 2])))
     (cred\<lparr>vc_CredentialSubject := (vc_CredentialSubject cred)\<lparr>cs_ID := ''did:key:z7''\<rparr>\<rparr>) \<noteq> None"
proof -
  obtain cred where c: "Issue sample_crypto sample_json (Some sample_issuer) ''did:key:z6'' [sample_vm]
      None None 10 20 (Some 7) = Inr cred"
    using sample_Issue by blast
  then have h: "cs_ID (vc_CredentialSubject cred) = ''did:key:z6''" by (auto simp: Issue_Inr)
  have k: "[''did:web:x'' \<mapsto> sample_key 2] (is_IssuerDID sample_issuer)
      = Some (public_of (is_PrivateKey sample_issuer))"
    by (simp add: sample_issuer_def NewIssuer_def public_of_def sample_key_def)
  have l: "length (c_sign sample_crypto priv msg) = 64" for priv msg
    by (simp add: sample_crypto_def)
  have f: "c_verify sample_crypto (public_of (is_PrivateKey sample_issuer)) ''did:key:z7''
     (c_sign sample_crypto (is_PrivateKey sample_issuer) ''did:key:z6'') \<Longrightarrow> False"
    by (simp add: sample_crypto_def sample_issuer_def NewIssuer_def public_of_def sample_key_def)
  show ?thesis
    using tampered_credential_rejected [where keys = "[''did:web:x'' \<mapsto> sample_key 2]"
        and msg = "''did:key:z6''" and forged = "cred\<lparr>vc_CredentialSubject :=
          (vc_CredentialSubject cred)\<lparr>cs_ID := ''did:key:z7''\<rparr>\<rparr>", OF c k sample_json_key l] c h f
    by (auto simp: sample_json_canon)
qed

end
