(* ===== verification/Equivocation.thy ===== *)
theory Equivocation
  imports Credential_Model
begin

text \<open>
  Double-signing proofs, \<open>src/credential/equivocation.go\<close>: the text a holder signs for a slot, and the
  check that two such statements conflict.
\<close>

section \<open>Slot statements\<close>

definition SlotStatementScheme :: string where
  "SlotStatementScheme = ''personhood-slot/v1''"

definition maxSlotFieldBytes :: nat where
  "maxSlotFieldBytes = 256"

record slot_statement =
  ss_PayloadDigestHex :: string
  ss_SignatureB64 :: string

record equivocation_proof =
  eq_Scheme :: string
  eq_HolderPublicKeyB64 :: string
  eq_Context :: string
  eq_Slot :: string
  eq_Statements :: "slot_statement \<times> slot_statement"

datatype equivocation_error =
    EqFieldLength string | EqFieldNotPrintable string | EqDigestSize | EqScheme | EqHolderKey
  | EqDigestHex nat | EqSamePayload | EqSignatureEncoding nat | EqSignature nat

definition checkSlotField :: "string \<Rightarrow> string \<Rightarrow> equivocation_error option" where
  "checkSlotField name v =
     (if length v = 0 \<or> length v > maxSlotFieldBytes then Some (EqFieldLength name)
      else if list_ex (\<lambda>c. byte_of c < 0x20 \<or> byte_of c > 0x7E) v then Some (EqFieldNotPrintable name)
      else None)"

definition newline :: string where
  "newline = [byte 10]"

definition SlotStatementMessage :: "string \<Rightarrow> string \<Rightarrow> bytes \<Rightarrow> equivocation_error + string" where
  "SlotStatementMessage context slot payloadDigest =
     (case checkSlotField ''context'' context of
        Some e \<Rightarrow> Inl e
      | None \<Rightarrow> (case checkSlotField ''slot'' slot of
            Some e \<Rightarrow> Inl e
          | None \<Rightarrow>
              if length payloadDigest \<noteq> 32 then Inl EqDigestSize
              else Inr (SlotStatementScheme @ newline @ context @ newline @ slot @ newline
                @ hex_encode payloadDigest)))"

definition SignSlotStatement ::
  "crypto \<Rightarrow> bytes \<Rightarrow> string \<Rightarrow> string \<Rightarrow> bytes \<Rightarrow> equivocation_error + slot_statement" where
  "SignSlotStatement cr priv context slot payloadDigest =
     (case SlotStatementMessage context slot payloadDigest of
        Inl e \<Rightarrow> Inl e
      | Inr msg \<Rightarrow> Inr \<lparr>ss_PayloadDigestHex = hex_encode payloadDigest,
                        ss_SignatureB64 = Std_encode (c_sign cr priv msg)\<rparr>)"

text \<open>The first of the four encodings that decodes the trimmed text.\<close>

definition decodeB64 :: "string \<Rightarrow> bytes option" where
  "decodeB64 s0 =
     (let s = trim_space s0 in
      case Std_decode s of Some b \<Rightarrow> Some b
      | None \<Rightarrow> (case RawStd_decode s of Some b \<Rightarrow> Some b
        | None \<Rightarrow> (case URL_decode s of Some b \<Rightarrow> Some b
          | None \<Rightarrow> RawURL_decode s)))"

section \<open>Verify\<close>

text \<open>One round of the first loop, and one of the second.\<close>

definition statement_digest :: "nat \<Rightarrow> slot_statement \<Rightarrow> equivocation_error + bytes" where
  "statement_digest i st =
     (case hex_decode (ss_PayloadDigestHex st) of
        None \<Rightarrow> Inl (EqDigestHex i)
      | Some d \<Rightarrow>
          if length d \<noteq> 32 \<or> ss_PayloadDigestHex st \<noteq> to_lower (ss_PayloadDigestHex st)
          then Inl (EqDigestHex i) else Inr d)"

definition check_statement ::
  "crypto \<Rightarrow> bytes \<Rightarrow> string \<Rightarrow> string \<Rightarrow> nat \<Rightarrow> slot_statement \<Rightarrow> bytes \<Rightarrow> equivocation_error option" where
  "check_statement cr pub context slot i st digest =
     (case SlotStatementMessage context slot digest of
        Inl e \<Rightarrow> Some e
      | Inr msg \<Rightarrow> (case decodeB64 (ss_SignatureB64 st) of
            None \<Rightarrow> Some (EqSignatureEncoding i)
          | Some sig \<Rightarrow>
              if length sig \<noteq> SignatureSize then Some (EqSignatureEncoding i)
              else if \<not> c_verify cr pub msg sig then Some (EqSignature i)
              else None))"

definition equivocation_Verify :: "crypto \<Rightarrow> equivocation_proof \<Rightarrow> equivocation_error + bytes" where
  "equivocation_Verify cr p =
     (if eq_Scheme p \<noteq> SlotStatementScheme then Inl EqScheme
      else (case decodeB64 (eq_HolderPublicKeyB64 p) of
          None \<Rightarrow> Inl EqHolderKey
        | Some pub \<Rightarrow>
            if length pub \<noteq> PublicKeySize then Inl EqHolderKey
            else (case statement_digest 0 (fst (eq_Statements p)) of
                Inl e \<Rightarrow> Inl e
              | Inr d0 \<Rightarrow> (case statement_digest 1 (snd (eq_Statements p)) of
                    Inl e \<Rightarrow> Inl e
                  | Inr d1 \<Rightarrow>
                      if d0 = d1 then Inl EqSamePayload
                      else (case check_statement cr pub (eq_Context p) (eq_Slot p) 0 (fst (eq_Statements p)) d0 of
                          Some e \<Rightarrow> Inl e
                        | None \<Rightarrow>
                            (case check_statement cr pub (eq_Context p) (eq_Slot p) 1 (snd (eq_Statements p)) d1 of
                               Some e \<Rightarrow> Inl e
                             | None \<Rightarrow> Inr pub))))))"

section \<open>Encodings\<close>

lemma b64_std_printable: "printable (Std_encode b)"
proof -
  have "\<forall>c \<in> insert (CHR ''='') (set b64_std). 33 \<le> byte_of c \<and> byte_of c < 127"
    by (simp add: b64_std_def)
  then show ?thesis
    using b64_encode_chars [of b64_std True b] by (auto simp: printable_def list_all_iff)
qed

lemma decodeB64_encode [simp]: "decodeB64 (Std_encode b) = Some b"
  by (simp add: decodeB64_def b64_std_printable)

lemma hex_lower [simp]: "to_lower (hex_encode b) = hex_encode b"
proof -
  have "lower_char c = c" if "c \<in> set ''0123456789abcdef''" for c
    using that by (auto simp: lower_char_def)
  then have "hex_text s \<Longrightarrow> to_lower s = s" for s
    unfolding hex_text_def to_lower_def by (intro map_idI) blast
  then show ?thesis by simp
qed

lemma statement_digest_encode [simp]:
  "length d = 32 \<Longrightarrow> ss_PayloadDigestHex st = hex_encode d \<Longrightarrow> statement_digest i st = Inr d"
  by (simp add: statement_digest_def)

lemma checkSlotField_None:
  "checkSlotField n v = None \<Longrightarrow> v \<noteq> [] \<and> (\<forall>c \<in> set v. 0x20 \<le> byte_of c \<and> byte_of c \<le> 0x7E)"
  by (auto simp: checkSlotField_def list_ex_iff split: if_splits)

lemma no_newline: "checkSlotField n v = None \<Longrightarrow> byte 10 \<notin> set v"
  using checkSlotField_None [of n v] by fastforce

lemma SlotStatementMessage_Inr:
  "SlotStatementMessage c s d = Inr m \<longleftrightarrow> checkSlotField ''context'' c = None \<and> checkSlotField ''slot'' s = None \<and>
     length d = 32 \<and> m = SlotStatementScheme @ newline @ c @ newline @ s @ newline @ hex_encode d"
  by (auto simp: SlotStatementMessage_def split: option.splits)

lemma SlotStatementMessage_inj:
  assumes "SlotStatementMessage c s d = Inr m" "SlotStatementMessage c' s' d' = Inr m"
  shows "c = c' \<and> s = s' \<and> d = d'"
proof -
  have "c @ byte 10 # (s @ byte 10 # hex_encode d) = c' @ byte 10 # (s' @ byte 10 # hex_encode d')"
    using assms by (simp add: SlotStatementMessage_Inr newline_def)
  moreover have "byte 10 \<notin> set c" "byte 10 \<notin> set c'" "byte 10 \<notin> set s" "byte 10 \<notin> set s'"
    using assms by (auto simp: SlotStatementMessage_Inr no_newline)
  ultimately show ?thesis
    using separator_inj [of "byte 10" c c'] separator_inj [of "byte 10" s s'] by (metis hex_encode_inj)
qed

lemma check_statement_None:
  "check_statement cr pub c s i st d = None \<longleftrightarrow> (\<exists>msg sig. SlotStatementMessage c s d = Inr msg \<and>
     decodeB64 (ss_SignatureB64 st) = Some sig \<and> length sig = SignatureSize \<and> c_verify cr pub msg sig)"
  by (auto simp: check_statement_def split: sum.splits option.splits if_splits)

lemma equivocation_Verify_Inr:
  "equivocation_Verify cr p = Inr pub \<longleftrightarrow>
     eq_Scheme p = SlotStatementScheme \<and> decodeB64 (eq_HolderPublicKeyB64 p) = Some pub \<and>
     length pub = PublicKeySize \<and>
     (\<exists>d0 d1. statement_digest 0 (fst (eq_Statements p)) = Inr d0 \<and>
        statement_digest 1 (snd (eq_Statements p)) = Inr d1 \<and> d0 \<noteq> d1 \<and>
        check_statement cr pub (eq_Context p) (eq_Slot p) 0 (fst (eq_Statements p)) d0 = None \<and>
        check_statement cr pub (eq_Context p) (eq_Slot p) 1 (snd (eq_Statements p)) d1 = None)"
  by (auto simp: equivocation_Verify_def split: option.splits sum.splits if_splits)

lemma signed_conflict_verifies:
  assumes s: "SignSlotStatement cr priv c s d = Inr st" "SignSlotStatement cr priv c s d' = Inr st'" "d \<noteq> d'"
    and k: "length priv = PrivateKeySize" "\<forall>msg. signs_for cr priv msg"
  shows "equivocation_Verify cr \<lparr>eq_Scheme = SlotStatementScheme,
         eq_HolderPublicKeyB64 = Std_encode (public_of priv), eq_Context = c, eq_Slot = s,
         eq_Statements = (st, st')\<rparr> = Inr (public_of priv)"
proof -
  from s obtain m m' where m: "SlotStatementMessage c s d = Inr m" "SlotStatementMessage c s d' = Inr m'"
    "ss_PayloadDigestHex st = hex_encode d" "ss_PayloadDigestHex st' = hex_encode d'"
    "ss_SignatureB64 st = Std_encode (c_sign cr priv m)" "ss_SignatureB64 st' = Std_encode (c_sign cr priv m')"
    by (auto simp: SignSlotStatement_def split: sum.splits)
  then have "length d = 32" "length d' = 32" by (auto simp: SlotStatementMessage_Inr)
  then show ?thesis
    using m s(3) k by (auto simp: equivocation_Verify_Inr check_statement_None signs_for_def
        public_of_def key_sizes)
qed

section \<open>Properties\<close>

text \<open>C25: An equivocation proof convicts exactly who double-signs: an accepted one shows two valid
  signatures of the returned key over two different texts for the same slot, and signing two payloads
  for one slot always yields a proof that is accepted with the signer's key.\<close>

theorem equivocation_proof_convicts:
  shows "(equivocation_Verify cr p = Inr pub \<longrightarrow>
      (\<exists>d0 d1 m0 m1 s0 s1. d0 \<noteq> d1 \<and> m0 \<noteq> m1 \<and>
        SlotStatementMessage (eq_Context p) (eq_Slot p) d0 = Inr m0 \<and> c_verify cr pub m0 s0 \<and>
        SlotStatementMessage (eq_Context p) (eq_Slot p) d1 = Inr m1 \<and> c_verify cr pub m1 s1))
    \<and> (SignSlotStatement cr priv c s d = Inr st \<longrightarrow> SignSlotStatement cr priv c s d' = Inr st' \<longrightarrow> d \<noteq> d' \<longrightarrow>
       length priv = PrivateKeySize \<longrightarrow> (\<forall>msg. signs_for cr priv msg) \<longrightarrow>
       equivocation_Verify cr \<lparr>eq_Scheme = SlotStatementScheme,
         eq_HolderPublicKeyB64 = Std_encode (public_of priv), eq_Context = c, eq_Slot = s,
         eq_Statements = (st, st')\<rparr> = Inr (public_of priv))"
proof (intro conjI impI)
  assume "equivocation_Verify cr p = Inr pub"
  then obtain d0 d1 m0 m1 s0 s1 where "d0 \<noteq> d1"
    "SlotStatementMessage (eq_Context p) (eq_Slot p) d0 = Inr m0" "c_verify cr pub m0 s0"
    "SlotStatementMessage (eq_Context p) (eq_Slot p) d1 = Inr m1" "c_verify cr pub m1 s1"
    unfolding equivocation_Verify_Inr check_statement_None by blast
  moreover from this have "m0 \<noteq> m1" using SlotStatementMessage_inj by blast
  ultimately show "\<exists>d0 d1 m0 m1 s0 s1. d0 \<noteq> d1 \<and> m0 \<noteq> m1 \<and>
        SlotStatementMessage (eq_Context p) (eq_Slot p) d0 = Inr m0 \<and> c_verify cr pub m0 s0 \<and>
        SlotStatementMessage (eq_Context p) (eq_Slot p) d1 = Inr m1 \<and> c_verify cr pub m1 s1"
    by blast
qed (rule signed_conflict_verifies)

lemma sample_statement:
  "\<exists>st. SignSlotStatement sample_crypto (sample_key 1 @ sample_key 2) ''openline/1/spend'' ''acct:1'' (sample_key n) = Inr st"
proof -
  have "checkSlotField f ''openline/1/spend'' = None" "checkSlotField f ''acct:1'' = None" for f
    by (simp_all add: checkSlotField_def maxSlotFieldBytes_def)
  then show ?thesis
    by (simp add: SignSlotStatement_def SlotStatementMessage_def sample_key_def)
qed

theorem equivocation_proof_convicts_witness:
  "\<exists>st st'. SignSlotStatement sample_crypto (sample_key 1 @ sample_key 2) ''openline/1/spend'' ''acct:1'' (sample_key 3) = Inr st \<and>
     SignSlotStatement sample_crypto (sample_key 1 @ sample_key 2) ''openline/1/spend'' ''acct:1'' (sample_key 4) = Inr st' \<and>
     equivocation_Verify sample_crypto \<lparr>eq_Scheme = SlotStatementScheme,
         eq_HolderPublicKeyB64 = Std_encode (sample_key 2), eq_Context = ''openline/1/spend'', eq_Slot = ''acct:1'',
         eq_Statements = (st, st')\<rparr> = Inr (sample_key 2)"
proof -
  let ?k = "sample_key 1 @ sample_key 2"
  obtain st st' where s: "SignSlotStatement sample_crypto ?k ''openline/1/spend'' ''acct:1'' (sample_key 3) = Inr st"
     "SignSlotStatement sample_crypto ?k ''openline/1/spend'' ''acct:1'' (sample_key 4) = Inr st'"
    using sample_statement by blast
  have k: "public_of ?k = sample_key 2" "length ?k = PrivateKeySize" "sample_key 3 \<noteq> sample_key 4"
    by (simp_all add: public_of_def sample_key_def key_sizes)
  show ?thesis
    using equivocation_proof_convicts [THEN conjunct2, rule_format, OF s k(3,2)] s k by auto
qed

end
