(* ===== verification/Rate_Limits.thy ===== *)
theory Rate_Limits
  imports Prelude
begin

text \<open>
  The two limiters of the issuer. \<open>src/server/sendlimit.go\<close> bounds the verification messages one
  inbox receives per hour; its in-place filter shares the array of the stored slice, and the model
  writes out what that leaves behind. \<open>src/server/ratelimit.go\<close> is a token bucket per client and
  class of route, with \<open>float64\<close> read as real numbers.
\<close>

section \<open>Messages per identifier\<close>

definition maxBuckets :: nat where
  "maxBuckets = 100000"

record send_limiter =
  sl_perHour :: int
  sl_sends :: "(string \<times> time list) list"

definition newIdentifierSendLimiter :: "int \<Rightarrow> send_limiter" where
  "newIdentifierSendLimiter n = \<lparr>sl_perHour = n, sl_sends = []\<rparr>"

datatype send_answer = SendAllowed | SendRetryAfter duration | SendIndexPanic

definition sweep_sends :: "time \<Rightarrow> (string \<times> time list) list \<Rightarrow> (string \<times> time list) list" where
  "sweep_sends cutoff sends = filter (\<lambda>(k, ts). \<not> (ts = [] \<or> \<not> last ts > cutoff)) sends"

text \<open>
  \<open>recent\<close> is built in the array of the old slice: until the map entry is replaced, the entry reads
  as \<open>recent\<close> followed by the old tail. \<open>recent[0]\<close> of an empty slice panics.
\<close>

definition send_allow :: "send_limiter \<Rightarrow> string \<Rightarrow> time \<Rightarrow> send_answer \<times> send_limiter" where
  "send_allow l key now =
     (let cutoff = now - ns_hour;
          old = (case map_of (sl_sends l) key of Some ts \<Rightarrow> ts | None \<Rightarrow> []);
          recent = filter (\<lambda>t. t > cutoff) old;
          aliased = recent @ drop (length recent) old;
          sends = (if map_of (sl_sends l) key = None then sl_sends l
                   else alist_put key aliased (sl_sends l)) in
      if int (length recent) \<ge> sl_perHour l then
        (case recent of
           [] \<Rightarrow> (SendIndexPanic, l\<lparr>sl_sends := alist_put key recent sends\<rparr>)
         | t # _ \<Rightarrow> (SendRetryAfter (sub_time t cutoff), l\<lparr>sl_sends := alist_put key recent sends\<rparr>))
      else
        (let swept = (if length sends \<ge> maxBuckets then sweep_sends cutoff sends else sends) in
         if length sends \<ge> maxBuckets \<and> length swept \<ge> maxBuckets
         then (SendRetryAfter ns_minute, l\<lparr>sl_sends := swept\<rparr>)
         else (SendAllowed, l\<lparr>sl_sends := alist_put key (recent @ [now]) swept\<rparr>)))"

text \<open>Any sequence of calls with a clock that does not go back, and the messages it let through.\<close>

inductive send_run :: "int \<Rightarrow> send_limiter \<Rightarrow> (string \<times> time) list \<Rightarrow> time \<Rightarrow> bool" for n where
  send_start: "send_run n (newIdentifierSendLimiter n) [] t"
| send_step: "send_run n l sent t \<Longrightarrow> t \<le> now \<Longrightarrow> send_allow l key now = (a, l') \<Longrightarrow>
     send_run n l' (if a = SendAllowed then sent @ [(key, now)] else sent) now"

definition sent_since :: "string \<Rightarrow> time \<Rightarrow> (string \<times> time) list \<Rightarrow> nat" where
  "sent_since key cutoff sent = length (filter (\<lambda>(k, t). k = key \<and> cutoff < t) sent)"

definition stored :: "(string \<times> time list) list \<Rightarrow> string \<Rightarrow> time list" where
  "stored sends key = (case map_of sends key of Some ts \<Rightarrow> ts | None \<Rightarrow> [])"

definition since :: "time \<Rightarrow> time list \<Rightarrow> nat" where
  "since cutoff ts = length (filter (\<lambda>t. cutoff < t) ts)"

text \<open>The invariant: nothing sent in the last hour has been forgotten, and the last stored time of a
  key is its latest.\<close>

definition send_inv :: "(string \<Rightarrow> time list) \<Rightarrow> (string \<times> time) list \<Rightarrow> time \<Rightarrow> bool" where
  "send_inv f sent now \<longleftrightarrow>
     (\<forall>key cutoff. now - ns_hour \<le> cutoff \<longrightarrow> sent_since key cutoff sent \<le> since cutoff (f key)) \<and>
     (\<forall>key. \<forall>t \<in> set (f key). t \<le> last (f key) \<and> t \<le> now)"

lemma sent_since_mono: "c \<le> c' \<Longrightarrow> sent_since key c' sent \<le> sent_since key c sent"
  unfolding sent_since_def by (induction sent) (auto split: prod.splits)

lemma sent_since_snoc [simp]:
  "sent_since key c (sent @ [(k, t)]) = sent_since key c sent + (if k = key \<and> c < t then 1 else 0)"
  by (simp add: sent_since_def)

lemma since_append [simp]: "since c (xs @ ys) = since c xs + since c ys"
  by (simp add: since_def)

lemma since_filter [simp]: "d \<le> c \<Longrightarrow> since c (filter (\<lambda>t. d < t) xs) = since c xs"
  unfolding since_def filter_filter by (rule arg_cong [of _ _ length], rule filter_cong) auto

lemma since_zero: "\<forall>t \<in> set xs. t \<le> d \<Longrightarrow> d \<le> c \<Longrightarrow> since c xs = 0"
  by (auto simp: since_def filter_empty_conv)

lemma since_le_length: "since c xs \<le> length xs"
  by (simp add: since_def)

lemma send_inv_put:
  assumes "send_inv f sent now" "\<And>c. now - ns_hour \<le> c \<Longrightarrow> sent_since key c sent \<le> since c ys"
    "\<And>t. t \<in> set ys \<Longrightarrow> t \<le> last ys \<and> t \<le> now"
  shows "send_inv (f(key := ys)) sent now"
  using assms unfolding send_inv_def by simp

lemma send_inv_sent:
  assumes "send_inv f sent now" "\<And>c. now - ns_hour \<le> c \<Longrightarrow> sent_since key c sent \<le> since c ys"
    "\<And>t. t \<in> set ys \<Longrightarrow> t \<le> now"
  shows "send_inv (f(key := ys @ [now])) (sent @ [(key, now)]) now"
  using assms unfolding send_inv_def by (auto simp: since_def)

lemma send_inv_sweep:
  assumes "send_inv f sent now" "cutoff = now - ns_hour"
  shows "send_inv (\<lambda>k. if f k = [] \<or> last (f k) \<le> cutoff then [] else f k) sent now"
proof -
  have "sent_since k c sent \<le> 0" if "now - ns_hour \<le> c" "f k = [] \<or> last (f k) \<le> cutoff" for k c
  proof -
    have "\<forall>t \<in> set (f k). t \<le> cutoff"
      using assms that unfolding send_inv_def by (metis empty_iff empty_set order_trans)
    then have "since c (f k) = 0" using that(1) assms(2) by (intro since_zero) auto
    then show ?thesis using assms(1) that(1) unfolding send_inv_def by metis
  qed
  then show ?thesis using assms(1) by (auto simp: send_inv_def)
qed

lemma send_inv_later: "send_inv f sent t \<Longrightarrow> t \<le> now \<Longrightarrow> send_inv f sent now"
  unfolding send_inv_def by force

lemma stored_put [simp]: "stored (alist_put k ts sends) = (stored sends)(k := ts)"
  by (auto simp: stored_def)

lemma sweep_keys: "fst ` set (sweep_sends c xs) \<subseteq> fst ` set xs"
  by (auto simp: sweep_sends_def)

lemma stored_sweep:
  "distinct (map fst xs) \<Longrightarrow> stored (sweep_sends c xs) =
     (\<lambda>k. if stored xs k = [] \<or> last (stored xs k) \<le> c then [] else stored xs k)"
proof (induction xs)
  case (Cons x xs)
  obtain k ts where x: "x = (k, ts)" by force
  have n: "map_of xs k = None" "map_of (sweep_sends c xs) k = None"
    using Cons.prems x sweep_keys [of c xs] by (auto simp: map_of_eq_None_iff)
  have IH: "stored (sweep_sends c xs) j = (if stored xs j = [] \<or> last (stored xs j) \<le> c then [] else stored xs j)" for j
    using Cons by simp
  have "sweep_sends c (x # xs) = (if ts = [] \<or> last ts \<le> c then [] else [(k, ts)]) @ sweep_sends c xs"
    by (simp add: sweep_sends_def x not_less)
  then show ?case
    using n IH by (auto simp: stored_def x fun_eq_iff split: option.splits)
qed (simp add: sweep_sends_def stored_def fun_eq_iff)

lemma sweep_distinct: "distinct (map fst xs) \<Longrightarrow> distinct (map fst (sweep_sends c xs))"
  unfolding sweep_sends_def by (rule distinct_map_filter)

lemma aliased_bounds:
  fixes xs :: "time list"
  assumes ys_def: "ys = filter (\<lambda>t. c < t) xs" and "\<forall>t \<in> set xs. t \<le> last xs \<and> t \<le> now"
  shows "\<forall>t \<in> set (ys @ drop (length ys) xs). t \<le> last (ys @ drop (length ys) xs) \<and> t \<le> now"
    and "\<forall>t \<in> set ys. t \<le> last ys \<and> t \<le> now"
proof -
  have "set (ys @ drop (length ys) xs) \<subseteq> set xs" by (auto simp: ys_def dest: in_set_dropD)
  moreover have "last (ys @ drop (length ys) xs) = last xs"
  proof (cases "length ys < length xs")
    case False
    then have "ys = xs" unfolding ys_def by (metis filter_id_conv length_filter_less)
    then show ?thesis by simp
  qed simp
  ultimately show "\<forall>t \<in> set (ys @ drop (length ys) xs). t \<le> last (ys @ drop (length ys) xs) \<and> t \<le> now"
    using assms(2) by (metis subsetD)
  have "last ys = last xs" if ne: "ys \<noteq> []"
  proof -
    obtain t where "t \<in> set xs" "c < t" using ne by (auto simp: ys_def filter_empty_conv)
    then have "c < last xs" "xs \<noteq> []" using assms(2) by auto
    then have "ys = filter (\<lambda>t. c < t) (butlast xs) @ [last xs]"
      unfolding ys_def by (metis append_butlast_last_id filter.simps filter_append)
    then show ?thesis by simp
  qed
  then show "\<forall>t \<in> set ys. t \<le> last ys \<and> t \<le> now"
    using assms(2) by (fastforce simp: ys_def)
qed

lemma send_allow_step:
  assumes "send_inv (stored (sl_sends l)) sent now" "distinct (map fst (sl_sends l))"
    "send_allow l key now = (a, l')"
  shows "send_inv (stored (sl_sends l')) (if a = SendAllowed then sent @ [(key, now)] else sent) now \<and>
    distinct (map fst (sl_sends l')) \<and> sl_perHour l' = sl_perHour l \<and>
    (a = SendAllowed \<longrightarrow> int (sent_since key (now - ns_hour) sent) < sl_perHour l)"
proof -
  define old where "old = stored (sl_sends l) key"
  define recent where "recent = filter (\<lambda>t. now - ns_hour < t) old"
  define sends where "sends = (if map_of (sl_sends l) key = None then sl_sends l
      else alist_put key (recent @ drop (length recent) old) (sl_sends l))"
  have bo: "\<forall>t \<in> set old. t \<le> last old \<and> t \<le> now"
    using assms(1) by (simp add: send_inv_def old_def)
  note ab = aliased_bounds [OF recent_def bo]
  have rec: "since c recent = since c old" if "now - ns_hour \<le> c" for c
    using that by (simp add: recent_def)
  have hist: "sent_since key c sent \<le> since c recent" if "now - ns_hour \<le> c" for c
    using assms(1) that unfolding send_inv_def rec [OF that] old_def by blast
  have fs: "stored sends = (if map_of (sl_sends l) key = None then stored (sl_sends l)
      else (stored (sl_sends l))(key := recent @ drop (length recent) old))"
    by (simp add: sends_def)
  have ins: "send_inv (stored sends) sent now"
    unfolding fs using assms(1) ab(1) hist by (auto intro!: send_inv_put simp: trans_le_add1)
  have ds: "distinct (map fst sends)" using assms(2) by (simp add: sends_def)
  define swept where "swept = (if length sends \<ge> maxBuckets then sweep_sends (now - ns_hour) sends else sends)"
  have iw: "send_inv (stored swept) sent now"
    using send_inv_sweep [OF ins refl] ins by (simp add: swept_def stored_sweep [OF ds])
  have dw: "distinct (map fst swept)" using ds sweep_distinct by (simp add: swept_def)
  have allow: "send_allow l key now =
      (if int (length recent) \<ge> sl_perHour l then
        (case recent of
           [] \<Rightarrow> (SendIndexPanic, l\<lparr>sl_sends := alist_put key recent sends\<rparr>)
         | t # _ \<Rightarrow> (SendRetryAfter (sub_time t (now - ns_hour)), l\<lparr>sl_sends := alist_put key recent sends\<rparr>))
      else if length sends \<ge> maxBuckets \<and> length swept \<ge> maxBuckets
         then (SendRetryAfter ns_minute, l\<lparr>sl_sends := swept\<rparr>)
         else (SendAllowed, l\<lparr>sl_sends := alist_put key (recent @ [now]) swept\<rparr>))"
    unfolding send_allow_def Let_def stored_def [symmetric] old_def [symmetric] recent_def [symmetric]
      sends_def [symmetric] swept_def [symmetric] by simp
  have put: "send_inv (stored (alist_put key recent sends)) sent now"
    unfolding stored_put by (rule send_inv_put [OF ins]) (use hist ab(2) in auto)
  have sent: "send_inv (stored (alist_put key (recent @ [now]) swept)) (sent @ [(key, now)]) now"
    unfolding stored_put by (rule send_inv_sent [OF iw hist]) (use ab(2) in auto)
  have cnt: "sent_since key (now - ns_hour) sent \<le> length recent"
    using hist [of "now - ns_hour"] since_le_length [of "now - ns_hour" recent] by linarith
  show ?thesis
    using assms(3) put sent iw cnt ds dw unfolding allow
    by (auto split: if_splits list.splits)
qed

lemma send_run_inv:
  assumes "send_run n l sent t"
  shows "send_inv (stored (sl_sends l)) sent t \<and> distinct (map fst (sl_sends l)) \<and> sl_perHour l = n \<and>
    (\<forall>key. int (sent_since key (t - ns_hour) sent) \<le> max n 0)"
  using assms
proof (induction rule: send_run.induct)
  case (send_start t)
  then show ?case
    by (simp add: newIdentifierSendLimiter_def send_inv_def stored_def sent_since_def)
next
  case (send_step l sent t now key a l')
  have i: "send_inv (stored (sl_sends l)) sent now" using send_step send_inv_later by blast
  note st = send_allow_step [OF i _ send_step.hyps(3)]
  have old: "int (sent_since k (now - ns_hour) sent) \<le> max n 0" for k
    using send_step.IH send_step.hyps(2) sent_since_mono [of "t - ns_hour" "now - ns_hour" k sent]
    by (smt (verit, best) of_nat_mono)
  have h: "now - ns_hour < now" by (simp add: time_units)
  show ?case using st send_step.IH old h by auto
qed

section \<open>Token buckets\<close>

record rate_limit_config =
  rc_Enabled :: bool
  rc_StartPerMinute :: real
  rc_StartBurst :: real
  rc_BeginPerMinute :: real
  rc_BeginBurst :: real
  rc_DefaultPerMinute :: real
  rc_DefaultBurst :: real
  rc_TrustedProxyHops :: int
  rc_IdentifierSendsPerHour :: int

definition DefaultRateLimitConfig :: rate_limit_config where
  "DefaultRateLimitConfig =
     \<lparr>rc_Enabled = True, rc_StartPerMinute = 6, rc_StartBurst = 6, rc_BeginPerMinute = 6,
      rc_BeginBurst = 4, rc_DefaultPerMinute = 120, rc_DefaultBurst = 60,
      rc_TrustedProxyHops = 0, rc_IdentifierSendsPerHour = 5\<rparr>"

datatype rate_class = classDefault | classStart | classBegin

record bucket =
  bk_tokens :: real
  bk_last :: time

record rate_limiter =
  rl_cfg :: rate_limit_config
  rl_buckets :: "((rate_class \<times> string) \<times> bucket) list"
  rl_lastSweep :: time

definition newRateLimiter :: "rate_limit_config \<Rightarrow> rate_limiter" where
  "newRateLimiter cfg = \<lparr>rl_cfg = cfg, rl_buckets = [], rl_lastSweep = 0\<rparr>"

fun rate_params :: "rate_limit_config \<Rightarrow> rate_class \<Rightarrow> real \<times> real" where
  "rate_params cfg classStart = (rc_StartPerMinute cfg, rc_StartBurst cfg)"
| "rate_params cfg classBegin = (rc_BeginPerMinute cfg, rc_BeginBurst cfg)"
| "rate_params cfg classDefault = (rc_DefaultPerMinute cfg, rc_DefaultBurst cfg)"

definition dur_seconds :: "duration \<Rightarrow> real" where
  "dur_seconds d = real_of_int d / 1000000000"

definition sweep_buckets :: "rate_limiter \<Rightarrow> time \<Rightarrow> rate_limiter" where
  "sweep_buckets l now =
     (if sub_time now (rl_lastSweep l) < ns_minute then l
      else l\<lparr>rl_lastSweep := now,
             rl_buckets := filter (\<lambda>(k, b). \<not> sub_time now (bk_last b) > 10 * ns_minute) (rl_buckets l)\<rparr>)"

datatype rate_answer = RatePass | RateWait duration

text \<open>The key \<open>strconv.Itoa(class) + "|" + client\<close> determines class and client: it is the pair.\<close>

definition rate_allow :: "rate_limiter \<Rightarrow> string \<Rightarrow> rate_class \<Rightarrow> time \<Rightarrow> rate_answer \<times> rate_limiter" where
  "rate_allow l0 client c now =
     (let (perMinute, burst) = rate_params (rl_cfg l0) c in
      if perMinute \<le> 0 \<or> burst \<le> 0 then (RatePass, l0)
      else
        (let perSec = perMinute / 60; key = (c, client); l = sweep_buckets l0 now in
         if map_of (rl_buckets l) key = None \<and> length (rl_buckets l) \<ge> maxBuckets
         then (RateWait ns_minute, l)
         else
           (let b = (case map_of (rl_buckets l) key of Some b \<Rightarrow> b
                     | None \<Rightarrow> \<lparr>bk_tokens = burst, bk_last = now\<rparr>);
                tokens = min burst (bk_tokens b + dur_seconds (sub_time now (bk_last b)) * perSec) in
            if tokens \<ge> 1 then
              (RatePass, l\<lparr>rl_buckets := alist_put key \<lparr>bk_tokens = tokens - 1, bk_last = now\<rparr> (rl_buckets l)\<rparr>)
            else
              (RateWait \<lfloor>(1 - tokens) / perSec * 1000000000\<rfloor>,
               l\<lparr>rl_buckets := alist_put key \<lparr>bk_tokens = tokens, bk_last = now\<rparr> (rl_buckets l)\<rparr>))))"

text \<open>The route classes; \<open>None\<close> is a request that is never limited.\<close>

definition classify :: "string \<Rightarrow> string \<Rightarrow> rate_class option" where
  "classify meth p =
     (if p = ''/health'' \<or> p = ''/healthz'' \<or> meth = ''OPTIONS'' then None
      else if meth = ''GET'' \<and> (p = ''/.well-known/did.json'' \<or> has_prefix p ''/v1/status-list/'') then None
      else if meth = ''POST'' \<and> (p = ''/enrollment/start'' \<or> p = ''/v1/admin/revoke'') then Some classStart
      else if meth = ''POST'' \<and> has_prefix p ''/v1/methods/'' \<and> has_suffix p ''/begin'' then Some classBegin
      else Some classDefault)"

text \<open>\<open>strings.Split(h, ",")\<close>.\<close>

fun split_on :: "char \<Rightarrow> string \<Rightarrow> string list" where
  "split_on sep [] = [[]]"
| "split_on sep (c # s) = (if c = sep then [] # split_on sep s
     else (case split_on sep s of [] \<Rightarrow> [[c]] | p # ps \<Rightarrow> (c # p) # ps))"

definition forwarded_hops :: "string list \<Rightarrow> string list" where
  "forwarded_hops headers =
     filter (\<lambda>p. p \<noteq> '''') (map trim_space (concat (map (split_on (CHR '','')) headers)))"

text \<open>\<open>split_host_port\<close> is \<open>net.SplitHostPort\<close>, \<open>None\<close> when it fails.\<close>

definition clientIP :: "(string \<Rightarrow> string option) \<Rightarrow> string list \<Rightarrow> string \<Rightarrow> int \<Rightarrow> string" where
  "clientIP split_host_port headers remoteAddr trustedHops =
     (let hops = forwarded_hops headers in
      if trustedHops > 0 \<and> int (length hops) \<ge> trustedHops
      then hops ! nat (int (length hops) - trustedHops)
      else (case split_host_port remoteAddr of Some host \<Rightarrow> host | None \<Rightarrow> remoteAddr))"

datatype middleware_answer = PassOn | TooManyRequests int

text \<open>\<open>limiter_key\<close> is \<open>limiterKey\<close>, which reads the address with package \<open>net\<close>.\<close>

definition rate_middleware ::
  "(string \<Rightarrow> string) \<Rightarrow> (string \<Rightarrow> string option) \<Rightarrow> rate_limiter \<Rightarrow> string \<Rightarrow> string \<Rightarrow> string list \<Rightarrow> string
    \<Rightarrow> time \<Rightarrow> middleware_answer \<times> rate_limiter" where
  "rate_middleware limiter_key split_host_port l meth path headers remoteAddr now =
     (case classify meth path of
        None \<Rightarrow> (PassOn, l)
      | Some c \<Rightarrow>
          (case rate_allow l (limiter_key (clientIP split_host_port headers remoteAddr
               (rc_TrustedProxyHops (rl_cfg l)))) c now of
             (RatePass, l') \<Rightarrow> (PassOn, l')
           | (RateWait wait, l') \<Rightarrow> (TooManyRequests (max 1 \<lceil>dur_seconds wait\<rceil>), l')))"

text \<open>What a client has left: the content of its bucket after the refill up to \<open>now\<close>.\<close>

definition available :: "rate_limiter \<Rightarrow> rate_class \<times> string \<Rightarrow> time \<Rightarrow> real" where
  "available l key now =
     (let (perMinute, burst) = rate_params (rl_cfg l) (fst key) in
      case map_of (rl_buckets l) key of
        None \<Rightarrow> burst
      | Some b \<Rightarrow> min burst (bk_tokens b + dur_seconds (sub_time now (bk_last b)) * (perMinute / 60)))"

text \<open>A class is limited, and ten idle minutes fill its bucket, as the sweep assumes.\<close>

definition class_ok :: "rate_limit_config \<Rightarrow> rate_class \<Rightarrow> bool" where
  "class_ok cfg c \<longleftrightarrow> (case rate_params cfg c of (perMinute, burst) \<Rightarrow>
     0 < perMinute \<and> 0 < burst \<and> burst \<le> 10 * perMinute)"

definition rate_inv :: "rate_limiter \<Rightarrow> time \<Rightarrow> bool" where
  "rate_inv l t \<longleftrightarrow> distinct (map fst (rl_buckets l)) \<and>
     (\<forall>key b. map_of (rl_buckets l) key = Some b \<longrightarrow> 0 \<le> bk_tokens b \<and> bk_last b \<le> t)"

inductive rate_run ::
  "rate_limit_config \<Rightarrow> rate_limiter \<Rightarrow> ((rate_class \<times> string) \<times> time) list \<Rightarrow> time \<Rightarrow> bool" for cfg where
  rate_start: "rate_run cfg (newRateLimiter cfg) [] t"
| rate_step: "rate_run cfg l passed t \<Longrightarrow> t \<le> now \<Longrightarrow> rate_allow l client c now = (a, l') \<Longrightarrow>
     rate_run cfg l' (if a = RatePass then passed @ [((c, client), now)] else passed) now"

definition passed_since ::
  "rate_class \<times> string \<Rightarrow> time \<Rightarrow> ((rate_class \<times> string) \<times> time) list \<Rightarrow> nat" where
  "passed_since key s passed = length (filter (\<lambda>(k, t). k = key \<and> s \<le> t) passed)"

lemma sub_time_lipschitz: "t \<le> now \<Longrightarrow> sub_time t u \<le> sub_time now u \<and> sub_time now u \<le> sub_time t u + (now - t)"
  by (auto simp: sub_time_def Let_def max_int64_def min_int64_def)

lemma sub_time_nonneg: "u \<le> t \<Longrightarrow> 0 \<le> sub_time t u"
  by (simp add: sub_time_def Let_def max_int64_def min_int64_def)

lemma sub_time_self [simp]: "sub_time t t = 0"
  by (simp add: sub_time_def max_int64_def min_int64_def)

lemma available_le:
  "class_ok (rl_cfg l) (fst key) \<Longrightarrow> available l key now \<le> snd (rate_params (rl_cfg l) (fst key))"
  by (auto simp: available_def Let_def split: prod.splits option.splits)

lemma dur_seconds_mono: "d \<le> e \<Longrightarrow> dur_seconds d \<le> dur_seconds e"
  by (simp add: dur_seconds_def divide_right_mono)

lemma rate_inv_bucket:
  "rate_inv l t \<Longrightarrow> map_of (rl_buckets l) key = Some b \<Longrightarrow> 0 \<le> bk_tokens b \<and> bk_last b \<le> t"
  unfolding rate_inv_def by blast

lemma available_nonneg:
  assumes "class_ok (rl_cfg l) (fst key)" "rate_inv l now"
  shows "0 \<le> available l key now"
proof (cases "map_of (rl_buckets l) key")
  case None
  then show ?thesis using assms(1) by (auto simp: available_def class_ok_def split: prod.splits)
next
  case (Some b)
  then have "0 \<le> bk_tokens b" "0 \<le> dur_seconds (sub_time now (bk_last b))"
    using rate_inv_bucket [OF assms(2) Some] sub_time_nonneg by (auto simp: dur_seconds_def)
  then show ?thesis
    using Some assms(1) by (auto simp: available_def class_ok_def split: prod.splits)
qed

lemma available_grows:
  assumes "class_ok (rl_cfg l) (fst key)" "t \<le> now" "rate_params (rl_cfg l) (fst key) = (perMinute, burst)"
  shows "available l key now \<le> available l key t + dur_seconds (now - t) * (perMinute / 60)"
proof -
  have pm: "0 < perMinute" using assms by (auto simp: class_ok_def)
  then have nn: "0 \<le> dur_seconds (now - t) * (perMinute / 60)"
    using assms(2) by (simp add: dur_seconds_def)
  show ?thesis
  proof (cases "map_of (rl_buckets l) key")
    case (Some b)
    have "dur_seconds (sub_time now (bk_last b)) \<le> dur_seconds (sub_time t (bk_last b)) + dur_seconds (now - t)"
      using sub_time_lipschitz [OF assms(2), of "bk_last b"]
      by (simp add: dur_seconds_def flip: add_divide_distrib of_int_add)
    then have "dur_seconds (sub_time now (bk_last b)) * (perMinute / 60)
        \<le> dur_seconds (sub_time t (bk_last b)) * (perMinute / 60) + dur_seconds (now - t) * (perMinute / 60)"
      using pm by (simp add: mult_right_mono flip: distrib_right)
    then show ?thesis using Some assms(3) nn by (simp add: available_def)
  qed (use nn assms(3) in \<open>simp add: available_def\<close>)
qed

lemma map_of_filter_pred:
  "distinct (map fst xs) \<Longrightarrow> map_of (filter (\<lambda>(k, v). P v) xs) k =
     (case map_of xs k of Some v \<Rightarrow> if P v then Some v else None | None \<Rightarrow> None)"
proof (induction xs)
  case (Cons x xs)
  obtain j v where x: "x = (j, v)" by force
  then have "map_of xs j = None" using Cons.prems by (auto simp: map_of_eq_None_iff)
  then show ?case using Cons x by (auto split: option.splits)
qed simp

lemma sweep_buckets_available:
  assumes "class_ok (rl_cfg l) (fst key)" "rate_inv l t" "t \<le> now"
  shows "available (sweep_buckets l now) key now = available l key now"
proof -
  obtain perMinute burst where pm: "rate_params (rl_cfg l) (fst key) = (perMinute, burst)" by force
  have full: "min burst (bk_tokens b + dur_seconds (sub_time now (bk_last b)) * (perMinute / 60)) = burst"
    if "map_of (rl_buckets l) key = Some b" "sub_time now (bk_last b) > 10 * ns_minute" for b
  proof -
    have "600 \<le> dur_seconds (sub_time now (bk_last b))"
      using that(2) by (simp add: dur_seconds_def time_units)
    then have "600 * (perMinute / 60) \<le> dur_seconds (sub_time now (bk_last b)) * (perMinute / 60)"
      using assms(1) pm by (intro mult_right_mono) (auto simp: class_ok_def)
    moreover have "0 \<le> bk_tokens b" "burst \<le> 10 * perMinute"
      using rate_inv_bucket [OF assms(2) that(1)] assms(1) pm by (auto simp: class_ok_def)
    ultimately show ?thesis by simp
  qed
  have d: "distinct (map fst (rl_buckets l))" using assms(2) by (simp add: rate_inv_def)
  show ?thesis
    unfolding sweep_buckets_def available_def
    using full pm by (auto simp: map_of_filter_pred [OF d] split: option.splits)
qed

lemma sweep_buckets_inv: "rate_inv l t \<Longrightarrow> t \<le> now \<Longrightarrow> rate_inv (sweep_buckets l now) now"
  by (fastforce simp: rate_inv_def sweep_buckets_def map_of_filter_pred distinct_map_filter split: option.splits if_splits)

lemma sweep_buckets_cfg [simp]: "rl_cfg (sweep_buckets l now) = rl_cfg l"
  by (simp add: sweep_buckets_def)

lemma rate_allow_step:
  assumes "rate_inv l t" "t \<le> now" "rate_allow l client c now = (a, l')"
  shows "rate_inv l' now \<and> rl_cfg l' = rl_cfg l \<and> (class_ok (rl_cfg l) (fst key) \<longrightarrow>
    available l' key now = available l key now - (if a = RatePass \<and> key = (c, client) then 1 else 0))"
proof -
  obtain perMinute burst where pm: "rate_params (rl_cfg l) c = (perMinute, burst)" by force
  show ?thesis
  proof (cases "perMinute \<le> 0 \<or> burst \<le> 0")
    case True
    then have "a = RatePass" "l' = l" using assms(3) pm by (auto simp: rate_allow_def)
    moreover have "\<not> class_ok (rl_cfg l) c" using True pm by (auto simp: class_ok_def)
    ultimately show ?thesis using assms(1,2) by (force simp: rate_inv_def)
  next
    case False
    define w where "w = sweep_buckets l now"
    have wi: "rate_inv w now" and wc: "rl_cfg w = rl_cfg l"
      using sweep_buckets_inv [OF assms(1,2)] by (simp_all add: w_def)
    have wa: "available w key now = available l key now" if "class_ok (rl_cfg l) (fst key)"
      using sweep_buckets_available [OF that assms(1,2)] by (simp add: w_def)
    define tokens where "tokens = available w (c, client) now"
    have t0: "0 \<le> tokens"
    proof (cases "map_of (rl_buckets w) (c, client)")
      case (Some b)
      then have "0 \<le> bk_tokens b" "0 \<le> dur_seconds (sub_time now (bk_last b))"
        using rate_inv_bucket [OF wi Some] sub_time_nonneg by (auto simp: dur_seconds_def)
      then show ?thesis using Some False pm wc by (simp add: tokens_def available_def)
    qed (use False pm wc in \<open>simp add: tokens_def available_def\<close>)
    have allow: "rate_allow l client c now =
      (if map_of (rl_buckets w) (c, client) = None \<and> length (rl_buckets w) \<ge> maxBuckets then (RateWait ns_minute, w)
       else if tokens \<ge> 1 then
         (RatePass, w\<lparr>rl_buckets := alist_put (c, client) \<lparr>bk_tokens = tokens - 1, bk_last = now\<rparr> (rl_buckets w)\<rparr>)
       else (RateWait \<lfloor>(1 - tokens) / (perMinute / 60) * 1000000000\<rfloor>,
         w\<lparr>rl_buckets := alist_put (c, client) \<lparr>bk_tokens = tokens, bk_last = now\<rparr> (rl_buckets w)\<rparr>))"
      using False pm wc
      by (auto simp: rate_allow_def Let_def w_def [symmetric] tokens_def available_def dur_seconds_def
          split: option.splits)
    have put: "rate_inv (w\<lparr>rl_buckets := alist_put (c, client) \<lparr>bk_tokens = x, bk_last = now\<rparr> (rl_buckets w)\<rparr>) now"
      if "0 \<le> x" for x
      using wi that by (auto simp: rate_inv_def)
    have le: "tokens \<le> burst" using False pm wc
      by (auto simp: tokens_def available_def split: option.splits)
    have av: "available (w\<lparr>rl_buckets := alist_put (c, client) \<lparr>bk_tokens = x, bk_last = now\<rparr> (rl_buckets w)\<rparr>) key now
        = (if key = (c, client) then x else available w key now)" if "x \<le> burst" for x
      using that pm wc by (auto simp: available_def dur_seconds_def)
    show ?thesis
      using assms(3) wi wc wa put av [of tokens] av [of "tokens - 1"] t0 le unfolding allow
      by (auto split: if_splits simp: tokens_def)
  qed
qed

lemma rate_run_bound:
  assumes "rate_run cfg l passed t" "class_ok cfg (fst key)" "rate_params cfg (fst key) = (perMinute, burst)"
  shows "rate_inv l t \<and> rl_cfg l = cfg \<and> (\<forall>(k, u) \<in> set passed. u \<le> t) \<and>
    (s \<le> t \<longrightarrow> real (passed_since key s passed)
       \<le> burst + dur_seconds (t - s) * (perMinute / 60) - available l key t)"
  using assms
proof (induction rule: rate_run.induct)
  case (rate_start t)
  have "0 \<le> dur_seconds (t - s) * (perMinute / 60)" if "s \<le> t"
    using rate_start that by (auto simp: class_ok_def dur_seconds_def)
  then show ?case
    using rate_start by (simp add: newRateLimiter_def rate_inv_def passed_since_def available_def)
next
  case (rate_step l passed t now client c a l')
  have IH: "rate_inv l t" "rl_cfg l = cfg" "\<forall>(k, u) \<in> set passed. u \<le> t"
    "s \<le> t \<longrightarrow> real (passed_since key s passed)
       \<le> burst + dur_seconds (t - s) * (perMinute / 60) - available l key t"
    using rate_step by blast+
  have ok: "class_ok (rl_cfg l) (fst key)" using IH(2) rate_step.prems(1) by simp
  note st = rate_allow_step [OF IH(1) rate_step.hyps(2,3), of key]
  have pm: "0 < perMinute" using rate_step.prems by (auto simp: class_ok_def)
  have g: "available l key now \<le> available l key t + dur_seconds (now - t) * (perMinute / 60)"
    using available_grows [OF ok rate_step.hyps(2)] IH(2) rate_step.prems(2) by simp
  have split: "dur_seconds (now - s) * (perMinute / 60)
      = dur_seconds (t - s) * (perMinute / 60) + dur_seconds (now - t) * (perMinute / 60)"
    by (simp add: dur_seconds_def field_simps)
  have cnt: "real (passed_since key s passed) \<le> burst + dur_seconds (now - s) * (perMinute / 60) - available l key now"
    if "s \<le> now"
  proof (cases "s \<le> t")
    case True
    then show ?thesis unfolding split using IH(4) g by linarith
  next
    case False
    then have "passed_since key s passed = 0"
      using IH(3) by (fastforce simp: passed_since_def filter_empty_conv)
    moreover have "available l key now \<le> burst"
      using available_le [OF ok, of now] IH(2) rate_step.prems(2) by simp
    moreover have "0 \<le> dur_seconds (now - s) * (perMinute / 60)"
      using that pm by (simp add: dur_seconds_def)
    ultimately show ?thesis by simp
  qed
  have snoc: "passed_since key s (passed @ [(k, now)]) = passed_since key s passed + (if k = key \<and> s \<le> now then 1 else 0)" for k
    by (simp add: passed_since_def)
  show ?case
    using st ok cnt IH(2,3) rate_step.hyps(2) by (auto simp: snoc)
qed

section \<open>Properties\<close>

text \<open>C36: Whatever is asked in whatever order, no inbox receives more than \<open>perHour\<close> messages in any
  hour: at each moment of every run with a clock that does not go back, at most \<open>perHour\<close> messages
  were let through to a key during the hour before, across sweeps, refusals and the shared array.\<close>

theorem sends_per_hour_bounded:
  assumes "send_run n l sent now" "0 \<le> n"
  shows "int (length (filter (\<lambda>(k, t). k = key \<and> now - 3600000000000 < t) sent)) \<le> n"
  using send_run_inv [OF assms(1)] assms(2) by (simp add: sent_since_def time_units)

theorem sends_per_hour_bounded_witness:
  "\<exists>l sent. send_run 1 l sent 20 \<and> sent = [(''k'', 10)] \<and>
     int (length (filter (\<lambda>(k, t). k = ''k'' \<and> 20 - 3600000000000 < t) sent)) \<le> 1"
proof -
  define l1 where "l1 = \<lparr>sl_perHour = 1, sl_sends = [(''k'', [10])]\<rparr>"
  have l1: "send_allow (newIdentifierSendLimiter 1) ''k'' 10 = (SendAllowed, l1)"
    "sl_sends l1 = [(''k'', [10])]" "sl_perHour l1 = 1"
    by (simp_all add: l1_def send_allow_def newIdentifierSendLimiter_def maxBuckets_def alist_put_def)
  obtain l2 d where l2: "send_allow l1 ''k'' 20 = (SendRetryAfter d, l2)"
    using l1(2,3) by (simp add: send_allow_def time_units Let_def)
  have "send_run 1 l2 [(''k'', 10)] 20"
    using send_step [OF send_step [OF send_start [of 1 0] _ l1(1)] _ l2] by simp
  then show ?thesis using sends_per_hour_bounded [of 1 l2 "[(''k'', 10)]" 20 "''k''"] by auto
qed

text \<open>C37: The token bucket holds its rate: between any two moments a client gets at most \<open>burst\<close> calls
  plus the refill of the time between them through, also across the sweep that forgets idle
  clients, provided ten minutes refill a bucket.\<close>

theorem rate_limit_bounded:
  assumes "rate_run cfg l passed now" "class_ok cfg c" "rate_params cfg c = (perMinute, burst)" "s \<le> now"
  shows "real (length (filter (\<lambda>(k, t). k = (c, client) \<and> s \<le> t) passed))
    \<le> burst + perMinute * real_of_int (now - s) / 60000000000"
proof -
  note b = rate_run_bound [OF assms(1), of "(c, client)" perMinute burst s]
  have "0 \<le> available l (c, client) now"
    using available_nonneg [of l "(c, client)" now] b assms(2,3) by simp
  then show ?thesis using b assms(2,3,4) by (simp add: passed_since_def dur_seconds_def field_simps)
qed

theorem rate_limit_bounded_witness:
  "\<exists>l. rate_run DefaultRateLimitConfig l [((classStart, ''1.2.3.4''), 5)] 5 \<and>
     real (length (filter (\<lambda>(k, t). k = (classStart, ''1.2.3.4'') \<and> 5 \<le> t) [((classStart, ''1.2.3.4''), 5::time)])) \<le> 6"
proof -
  obtain l1 where l1: "rate_allow (newRateLimiter DefaultRateLimitConfig) ''1.2.3.4'' classStart 5 = (RatePass, l1)"
    by (simp add: rate_allow_def newRateLimiter_def DefaultRateLimitConfig_def sweep_buckets_def
        maxBuckets_def sub_time_def max_int64_def min_int64_def dur_seconds_def time_units)
  have r: "rate_run DefaultRateLimitConfig l1 [((classStart, ''1.2.3.4''), 5)] 5"
    using rate_step [OF rate_start [of DefaultRateLimitConfig 0] _ l1] by simp
  have c: "class_ok DefaultRateLimitConfig classStart" "rate_params DefaultRateLimitConfig classStart = (6, 6)"
    by (simp_all add: class_ok_def DefaultRateLimitConfig_def)
  show ?thesis using rate_limit_bounded [OF r c, of 5 "''1.2.3.4''"] r by auto
qed

lemma split_on_nonempty [simp]: "split_on sep s \<noteq> []"
  by (induction s) (auto split: list.split)

lemma split_on_append: "split_on sep (h @ sep # r) = split_on sep h @ split_on sep r"
  by (induction h) (auto split: list.split)

lemma split_on_single: "sep \<notin> set s \<Longrightarrow> split_on sep s = [s]"
  by (induction s) auto

text \<open>With one trusted proxy the limiter keys on the entry that proxy appended: whatever
  \<open>X-Forwarded-For\<close> values a client makes up, in headers of its own or in the same one, the address
  used is the last entry.\<close>

theorem forwarded_for_not_forgeable:
  assumes "printable ip" "ip \<noteq> ''''" "CHR '','' \<notin> set ip"
  shows "clientIP split_host_port (forged @ [ip]) peer 1 = ip
    \<and> clientIP split_host_port (forged @ [h @ '', '' @ ip]) peer 1 = ip"
proof -
  have last: "clientIP split_host_port hdrs peer 1 = ip" if "forwarded_hops hdrs = xs @ [ip]" for hdrs xs
    using that by (simp add: clientIP_def nth_append)
  have "forwarded_hops (forged @ [ip]) = forwarded_hops forged @ [ip]"
    using assms by (simp add: forwarded_hops_def split_on_single)
  moreover have "forwarded_hops (forged @ [h @ '', '' @ ip]) = forwarded_hops (forged @ [h]) @ [ip]"
    using assms split_on_append [of "CHR '',''" h "CHR '' '' # ip"]
    by (simp add: forwarded_hops_def split_on_single)
  ultimately show ?thesis using last by blast
qed

theorem forwarded_for_not_forgeable_witness:
  "clientIP (\<lambda>_. None) [''10.0.0.1, 203.0.113.9''] ''192.0.2.1:443'' 1 = ''203.0.113.9''"
  using forwarded_for_not_forgeable [of "''203.0.113.9''" "\<lambda>_. None" "[]" "''192.0.2.1:443''" "''10.0.0.1''"]
  by (simp add: printable_def)

end
