(* ===== verification/Session_Store.thy ===== *)
theory Session_Store
  imports Base58_Did
begin

text \<open>
  Enrollment sessions, \<open>src/server/session.go\<close> with its in-memory store. The clock and the random
  session identifier are arguments of the operations; a nil public key is the empty byte list, a map of
  identifier keys an association list. The interface the handlers use is the locale \<open>session_contract\<close>.
\<close>

section \<open>State and views\<close>

record session_view =
  sv_ID :: string
  sv_HolderDID :: did
  sv_HolderPublicKey :: bytes
  sv_CreatedAt :: time
  sv_ExpiresAt :: time
  sv_VerifiedMethods :: "verified_method list"
  sv_AnchorMethodID :: "string option"
  sv_IssuedCredentialID :: string
  sv_IdentifierKeys :: "(string \<times> string) list"

record session =
  se_id :: string
  se_holderDID :: did
  se_holderPublicKey :: bytes
  se_createdAt :: time
  se_expiresAt :: time
  se_verifiedMethods :: "verified_method list"
  se_anchorMethodID :: "string option"
  se_issuedCredentialID :: string
  se_identifierKeys :: "(string \<times> string) list"

record session_store =
  ses_ttl :: duration
  ses_sessions :: "string \<rightharpoonup> session"

datatype session_error = ErrSessionNotFound | ErrSessionAlreadyIssued | ErrFailedResult | ErrSessionRandom

definition copyStringMap :: "(string \<times> string) list \<Rightarrow> (string \<times> string) list" where
  "copyStringMap m = (if length m = 0 then [] else map (\<lambda>(k, v). (k, v)) m)"

definition session_to_view :: "session \<Rightarrow> session_view" where
  "session_to_view sess =
     \<lparr>sv_ID = se_id sess, sv_HolderDID = se_holderDID sess,
      sv_HolderPublicKey = (if length (se_holderPublicKey sess) = PublicKeySize
        then se_holderPublicKey sess else []),
      sv_CreatedAt = se_createdAt sess, sv_ExpiresAt = se_expiresAt sess,
      sv_VerifiedMethods = se_verifiedMethods sess, sv_AnchorMethodID = se_anchorMethodID sess,
      sv_IssuedCredentialID = se_issuedCredentialID sess,
      sv_IdentifierKeys = copyStringMap (se_identifierKeys sess)\<rparr>"

definition validSessionID :: "string \<Rightarrow> bool" where
  "validSessionID sid \<longleftrightarrow> length sid = 43 \<and>
     list_all (\<lambda>c. let n = byte_of c in
       65 \<le> n \<and> n \<le> 90 \<or> 97 \<le> n \<and> n \<le> 122 \<or> 48 \<le> n \<and> n \<le> 57 \<or> c = CHR ''-'' \<or> c = CHR ''_'') sid"

text \<open>\<open>rand32\<close> is what \<open>rand.Read\<close> put into the 32-byte buffer, \<open>None\<close> when it failed.\<close>

definition randomSessionID :: "bytes option \<Rightarrow> string option" where
  "randomSessionID rand32 = map_option RawURL_encode rand32"

section \<open>Operations of the in-memory store\<close>

definition NewInMemorySessionStore :: "duration \<Rightarrow> session_store" where
  "NewInMemorySessionStore ttl = \<lparr>ses_ttl = (if ttl \<le> 0 then ns_hour else ttl), ses_sessions = Map.empty\<rparr>"

definition session_Create ::
  "crypto \<Rightarrow> session_store \<Rightarrow> bytes option \<Rightarrow> bytes \<Rightarrow> time \<Rightarrow> (session_error + session_view) \<times> session_store" where
  "session_Create cr s rand32 holderPublicKey now =
     (case randomSessionID rand32 of
        None \<Rightarrow> (Inl ErrSessionRandom, s)
      | Some sid \<Rightarrow>
          (let sess = \<lparr>se_id = sid, se_holderDID = HolderDIDForSession cr sid holderPublicKey,
                 se_holderPublicKey = (if length holderPublicKey = PublicKeySize then holderPublicKey else []),
                 se_createdAt = now, se_expiresAt = now + ses_ttl s, se_verifiedMethods = [],
                 se_anchorMethodID = None, se_issuedCredentialID = '''', se_identifierKeys = []\<rparr>
           in (Inr (session_to_view sess), s\<lparr>ses_sessions := (ses_sessions s)(sid \<mapsto> sess)\<rparr>)))"

definition session_lookup ::
  "session_store \<Rightarrow> string \<Rightarrow> time \<Rightarrow> (session_error + session) \<times> session_store" where
  "session_lookup s sid now =
     (case ses_sessions s sid of
        None \<Rightarrow> (Inl ErrSessionNotFound, s)
      | Some sess \<Rightarrow>
          if now > se_expiresAt sess
          then (Inl ErrSessionNotFound, s\<lparr>ses_sessions := (ses_sessions s)(sid := None)\<rparr>)
          else (Inr sess, s))"

definition session_Get ::
  "session_store \<Rightarrow> string \<Rightarrow> time \<Rightarrow> (session_error + session_view) \<times> session_store" where
  "session_Get s sid now =
     (case session_lookup s sid now of
        (Inl e, s') \<Rightarrow> (Inl e, s')
      | (Inr sess, s') \<Rightarrow> (Inr (session_to_view sess), s'))"

text \<open>The loop that replaces the entry of the same method, or appends one.\<close>

fun put_method :: "verified_method \<Rightarrow> verified_method list \<Rightarrow> verified_method list" where
  "put_method new [] = [new]"
| "put_method new (vm # vms) =
     (if vm_MethodID vm = vm_MethodID new then new # vms else vm # put_method new vms)"

definition session_RecordMethodResult ::
  "session_store \<Rightarrow> string \<Rightarrow> method_result \<Rightarrow> method_metadata \<Rightarrow> time \<Rightarrow> session_error option \<times> session_store" where
  "session_RecordMethodResult s sid res md now =
     (if \<not> mr_Success res then (Some ErrFailedResult, s)
      else (case session_lookup s sid now of
          (Inl e, s') \<Rightarrow> (Some e, s')
        | (Inr sess, s') \<Rightarrow>
            if se_issuedCredentialID sess \<noteq> '''' then (Some ErrSessionAlreadyIssued, s')
            else
              (let vm = \<lparr>vm_MethodID = mr_MethodID res, vm_Strength = md_Strength md,
                         vm_VerifiedAt = mr_VerifiedAt res,
                         vm_FreshnessLifetime = md_FreshnessLifetime md,
                         vm_AttestationDigest = mr_AttestationDigest res\<rparr>;
                   sess' = sess\<lparr>se_verifiedMethods := put_method vm (se_verifiedMethods sess),
                     se_anchorMethodID := (if md_Type md = MethodTypeAnchor then Some (mr_MethodID res)
                       else se_anchorMethodID sess)\<rparr>
               in (None, s'\<lparr>ses_sessions := (ses_sessions s')(sid \<mapsto> sess')\<rparr>))))"

definition session_MarkIssued ::
  "session_store \<Rightarrow> string \<Rightarrow> string \<Rightarrow> time \<Rightarrow> session_error option \<times> session_store" where
  "session_MarkIssued s sid credID now =
     (case session_lookup s sid now of
        (Inl e, s') \<Rightarrow> (Some e, s')
      | (Inr sess, s') \<Rightarrow>
          if se_issuedCredentialID sess \<noteq> '''' then (Some ErrSessionAlreadyIssued, s')
          else (None, s'\<lparr>ses_sessions := (ses_sessions s')(sid \<mapsto> sess\<lparr>se_issuedCredentialID := credID\<rparr>)\<rparr>))"

definition session_SetIdentifierKey ::
  "session_store \<Rightarrow> string \<Rightarrow> string \<Rightarrow> string \<Rightarrow> time \<Rightarrow> session_error option \<times> session_store" where
  "session_SetIdentifierKey s sid kind key now =
     (case session_lookup s sid now of
        (Inl e, s') \<Rightarrow> (Some e, s')
      | (Inr sess, s') \<Rightarrow>
          if se_issuedCredentialID sess \<noteq> '''' then (Some ErrSessionAlreadyIssued, s')
          else (None, s'\<lparr>ses_sessions := (ses_sessions s')(sid \<mapsto>
                 sess\<lparr>se_identifierKeys := alist_put kind key (se_identifierKeys sess)\<rparr>)\<rparr>))"

section \<open>The calls as one type\<close>

text \<open>One call at one moment; \<open>session_exec\<close> is its effect on the store.\<close>

datatype session_call =
    CallCreate "bytes option" bytes
  | CallGet string
  | CallRecord string method_result method_metadata
  | CallMarkIssued string string
  | CallSetKey string string string

fun session_exec :: "crypto \<Rightarrow> session_store \<Rightarrow> session_call \<Rightarrow> time \<Rightarrow> session_store" where
  "session_exec cr s (CallCreate rnd pub) now = snd (session_Create cr s rnd pub now)"
| "session_exec cr s (CallGet sid) now = snd (session_Get s sid now)"
| "session_exec cr s (CallRecord sid res md) now = snd (session_RecordMethodResult s sid res md now)"
| "session_exec cr s (CallMarkIssued sid cid) now = snd (session_MarkIssued s sid cid now)"
| "session_exec cr s (CallSetKey sid kind key) now = snd (session_SetIdentifierKey s sid kind key now)"

text \<open>The session a call creates, if any: random identifiers are taken never to repeat.\<close>

fun creates :: "session_call \<Rightarrow> string option" where
  "creates (CallCreate rnd pub) = randomSessionID rnd"
| "creates _ = None"

definition session_view_of :: "session_store \<Rightarrow> string \<Rightarrow> time \<Rightarrow> session_view option" where
  "session_view_of s sid now = (case fst (session_Get s sid now) of Inr v \<Rightarrow> Some v | Inl _ \<Rightarrow> None)"

section \<open>The contract of a session store\<close>

locale session_contract =
  fixes exec :: "'s \<Rightarrow> session_call \<Rightarrow> time \<Rightarrow> 's"
    and view_of :: "'s \<Rightarrow> string \<Rightarrow> time \<Rightarrow> session_view option"
    and sound :: "'s \<Rightarrow> bool"
  assumes issued_frozen: "sound s \<Longrightarrow> view_of s sid now = Some v \<Longrightarrow> sv_IssuedCredentialID v \<noteq> '''' \<Longrightarrow>
      creates c \<noteq> Some sid \<Longrightarrow> now \<le> t \<Longrightarrow> t \<le> u \<Longrightarrow> view_of (exec s c t) sid u \<in> {None, Some v}"
    and gone_stays: "sound s \<Longrightarrow> view_of s sid now = None \<Longrightarrow> creates c \<noteq> Some sid \<Longrightarrow> now \<le> t \<Longrightarrow> t \<le> u \<Longrightarrow>
      view_of (exec s c t) sid u = None"
    and view_later: "now \<le> t \<Longrightarrow> view_of s sid t \<in> {None, view_of s sid now}"
    and exec_sound: "sound s \<Longrightarrow> sound (exec s c t)"
    and view_unexpired: "view_of s sid t = Some v \<Longrightarrow> t \<le> sv_ExpiresAt v"
begin

fun run :: "'s \<Rightarrow> (session_call \<times> time) list \<Rightarrow> 's" where
  "run s [] = s"
| "run s ((c, t) # cs) = run (exec s c t) cs"

text \<open>Once a credential was issued from a session, no sequence of calls changes the session any
  more: it stays as it is or it expires.\<close>

lemma issued_frozen_run:
  assumes "sound s" "view_of s sid now = Some v" "sv_IssuedCredentialID v \<noteq> ''''"
    "\<forall>c \<in> fst ` set cs. creates c \<noteq> Some sid" "sorted (now # map snd cs @ [u])"
  shows "view_of (run s cs) sid u \<in> {None, Some v}"
proof -
  have "sound s \<Longrightarrow> view_of s sid now \<in> {None, Some v} \<Longrightarrow> sv_IssuedCredentialID v \<noteq> '''' \<Longrightarrow>
    \<forall>c \<in> fst ` set cs. creates c \<noteq> Some sid \<Longrightarrow> sorted (now # map snd cs @ [u]) \<Longrightarrow>
    view_of (run s cs) sid u \<in> {None, Some v}" for s now
  proof (induction cs arbitrary: s now)
    case Nil
    then show ?case using view_later [of now u s sid] by auto
  next
    case (Cons ct cs)
    obtain c t where ct: "ct = (c, t)" by force
    have "view_of (exec s c t) sid t \<in> {None, Some v}"
      using Cons.prems ct issued_frozen [of s sid now v c t t] gone_stays [of s sid now c t t] by auto
    then show ?case using Cons.IH [of "exec s c t" t] Cons.prems ct exec_sound by simp
  qed
  then show ?thesis using assms by blast
qed

text \<open>A session that is gone does not come back.\<close>

lemma gone_run:
  assumes "sound s" "view_of s sid now = None" "\<forall>c \<in> fst ` set cs. creates c \<noteq> Some sid" "sorted (now # map snd cs @ [u])"
  shows "view_of (run s cs) sid u = None"
  using assms
proof (induction cs arbitrary: s now)
  case Nil
  then show ?case using view_later [of now u s sid] by auto
next
  case (Cons ct cs)
  obtain c t where ct: "ct = (c, t)" by force
  have "view_of (exec s c t) sid t = None" using Cons.prems ct gone_stays [of s sid now c t t] by auto
  then show ?case using Cons.IH [of "exec s c t" t] Cons.prems ct exec_sound by simp
qed

lemma sound_run: "sound s \<Longrightarrow> sound (run s cs)"
  by (induction s cs rule: run.induct) (simp_all add: exec_sound)

lemma run_append: "run s (cs @ cs') = run (run s cs) cs'"
  by (induction s cs rule: run.induct) simp_all

text \<open>At any moment \<open>w\<close> after a session issued it is as it was and not past its expiry, or gone for good.\<close>

lemma issued_stays_or_ends:
  assumes "sound s" "sv_IssuedCredentialID v \<noteq> ''''" "\<forall>c \<in> fst ` set (cs @ cs'). creates c \<noteq> Some sid"
    "sorted (now # map snd cs @ w # map snd cs' @ [u])"
  shows "(view_of s sid now = Some v \<longrightarrow> view_of (run s cs) sid w = None \<or> view_of (run s cs) sid w = Some v \<and> w \<le> sv_ExpiresAt v) \<and>
    (view_of (run s cs) sid w = None \<longrightarrow> view_of (run s (cs @ cs')) sid u = None)"
proof -
  have s: "sorted (now # map snd cs @ [w])" "sorted (w # map snd cs' @ [u])"
    using assms(4) by (auto simp: sorted_append)
  have "view_of s sid now = Some v \<longrightarrow> view_of (run s cs) sid w \<in> {None, Some v}"
    using issued_frozen_run [OF assms(1) _ assms(2) _ s(1)] assms(3) by auto
  moreover have "view_of (run s cs) sid w = None \<longrightarrow> view_of (run s (cs @ cs')) sid u = None"
    using gone_run [OF sound_run [OF assms(1)] _ _ s(2)] assms(3) by (auto simp: run_append)
  ultimately show ?thesis using view_unexpired by blast
qed

end

section \<open>What the store keeps\<close>

lemma session_lookup_Inr:
  "session_lookup s sid now = (Inr sess, s') \<longleftrightarrow> ses_sessions s sid = Some sess \<and> now \<le> se_expiresAt sess \<and> s' = s"
  by (auto simp: session_lookup_def split: option.splits if_splits)

lemma session_lookup_Inl:
  "session_lookup s sid now = (Inl e, s') \<Longrightarrow> e = ErrSessionNotFound \<and>
     s' = s\<lparr>ses_sessions := (ses_sessions s)(sid := None)\<rparr>"
  by (auto simp: session_lookup_def fun_upd_idem split: option.splits if_splits)

lemma session_view_of_alt:
  "session_view_of s sid now = (case ses_sessions s sid of
     Some sess \<Rightarrow> if now \<le> se_expiresAt sess then Some (session_to_view sess) else None | None \<Rightarrow> None)"
  by (auto simp: session_view_of_def session_Get_def session_lookup_def split: option.splits)

text \<open>Effect of a call on the entry of a session it does not create.\<close>

lemma session_exec_entry:
  assumes "creates c \<noteq> Some sid"
  shows "ses_sessions (session_exec cr s c now) sid \<in> {None, ses_sessions s sid} \<or>
    (\<exists>sess. ses_sessions s sid = Some sess \<and> now \<le> se_expiresAt sess \<and> se_issuedCredentialID sess = '''')"
proof (cases c)
  case (CallCreate rnd pub)
  then show ?thesis using assms by (auto simp: session_Create_def Let_def split: option.splits)
next
  case (CallGet i)
  then show ?thesis by (auto simp: session_Get_def session_lookup_def split: option.splits)
next
  case (CallRecord i res md)
  then show ?thesis
    by (auto simp: session_RecordMethodResult_def session_lookup_def Let_def split: option.splits)
next
  case (CallMarkIssued i cid)
  then show ?thesis by (auto simp: session_MarkIssued_def session_lookup_def split: option.splits)
next
  case (CallSetKey i kind key)
  then show ?thesis by (auto simp: session_SetIdentifierKey_def session_lookup_def split: option.splits)
qed

text \<open>Expiry times never change.\<close>

lemma session_exec_expiry:
  assumes "creates c \<noteq> Some sid" "ses_sessions (session_exec cr s c now) sid = Some sess'"
  shows "\<exists>sess. ses_sessions s sid = Some sess \<and> se_expiresAt sess' = se_expiresAt sess \<and>
    (sess' = sess \<or> now \<le> se_expiresAt sess)"
proof (cases c)
  case (CallCreate rnd pub)
  then show ?thesis using assms by (auto simp: session_Create_def Let_def split: option.splits)
next
  case (CallGet i)
  then show ?thesis using assms
    by (auto simp: session_Get_def session_lookup_def split: option.splits if_splits)
next
  case (CallRecord i res md)
  then show ?thesis using assms
    by (auto simp: session_RecordMethodResult_def session_lookup_def Let_def split: option.splits if_splits)
next
  case (CallMarkIssued i cid)
  then show ?thesis using assms
    by (auto simp: session_MarkIssued_def session_lookup_def split: option.splits if_splits)
next
  case (CallSetKey i kind key)
  then show ?thesis using assms
    by (auto simp: session_SetIdentifierKey_def session_lookup_def split: option.splits if_splits)
qed

interpretation in_memory: session_contract "session_exec cr" session_view_of "\<lambda>_. True" for cr
proof
  fix s sid now v c t u
  assume a: "session_view_of s sid now = Some v" "sv_IssuedCredentialID v \<noteq> ''''"
    "creates c \<noteq> Some sid" "now \<le> t" "t \<le> u"
  then obtain sess where s: "ses_sessions s sid = Some sess" "v = session_to_view sess"
    "se_issuedCredentialID sess \<noteq> ''''"
    by (auto simp: session_view_of_alt session_to_view_def split: option.splits if_splits)
  then have "ses_sessions (session_exec cr s c t) sid \<in> {None, Some sess}"
    using session_exec_entry [OF a(3), of cr s t] by auto
  then show "session_view_of (session_exec cr s c t) sid u \<in> {None, Some v}"
    using s(2) by (auto simp: session_view_of_alt)
next
  fix s sid now c t u
  assume a: "session_view_of s sid now = None" "creates c \<noteq> Some sid" "now \<le> t" "t \<le> (u::time)"
  show "session_view_of (session_exec cr s c t) sid u = None"
  proof (cases "ses_sessions (session_exec cr s c t) sid")
    case (Some sess')
    then obtain sess where "ses_sessions s sid = Some sess" "se_expiresAt sess' = se_expiresAt sess"
      using session_exec_expiry [OF a(2)] by blast
    then have "se_expiresAt sess' < u"
      using a by (auto simp: session_view_of_alt split: if_splits)
    then show ?thesis using Some by (simp add: session_view_of_alt)
  qed (simp add: session_view_of_alt)
next
  fix now t :: time and s sid
  assume "now \<le> t"
  then show "session_view_of s sid t \<in> {None, session_view_of s sid now}"
    by (auto simp: session_view_of_alt split: option.splits)
qed (auto simp: session_view_of_alt session_to_view_def split: option.splits if_splits)

text \<open>In memory an issued session is there for the whole of its time.\<close>

lemma session_exec_issued:
  "ses_sessions s sid = Some sess \<Longrightarrow> t \<le> se_expiresAt sess \<Longrightarrow> se_issuedCredentialID sess \<noteq> '''' \<Longrightarrow> creates c \<noteq> Some sid \<Longrightarrow>
   ses_sessions (session_exec cr s c t) sid = Some sess"
  by (cases c) (auto simp: session_Create_def session_Get_def session_RecordMethodResult_def session_MarkIssued_def
      session_SetIdentifierKey_def session_lookup_def Let_def split: option.splits)

lemma issued_kept_run:
  "ses_sessions s sid = Some sess \<Longrightarrow> se_issuedCredentialID sess \<noteq> '''' \<Longrightarrow> \<forall>c \<in> fst ` set cs. creates c \<noteq> Some sid \<Longrightarrow>
   \<forall>t \<in> snd ` set cs. t \<le> se_expiresAt sess \<Longrightarrow> ses_sessions (in_memory.run cr s cs) sid = Some sess"
  by (induction cs arbitrary: s) (auto simp: session_exec_issued)

section \<open>The shape of every session\<close>

definition session_wf :: "crypto \<Rightarrow> string \<Rightarrow> session \<Rightarrow> bool" where
  "session_wf cr sid sess \<longleftrightarrow> se_id sess = sid \<and>
     distinct (map vm_MethodID (se_verifiedMethods sess)) \<and>
     (\<forall>a. se_anchorMethodID sess = Some a \<longrightarrow> a \<in> vm_MethodID ` set (se_verifiedMethods sess)) \<and>
     (se_holderPublicKey sess = [] \<or> length (se_holderPublicKey sess) = PublicKeySize) \<and>
     se_holderDID sess = HolderDIDForSession cr sid (se_holderPublicKey sess)"

definition sessions_wf :: "crypto \<Rightarrow> session_store \<Rightarrow> bool" where
  "sessions_wf cr s \<longleftrightarrow> (\<forall>sid sess. ses_sessions s sid = Some sess \<longrightarrow> session_wf cr sid sess)"

lemma put_method_ids:
  "map vm_MethodID (put_method vm vms) =
     (if vm_MethodID vm \<in> vm_MethodID ` set vms then map vm_MethodID vms
      else map vm_MethodID vms @ [vm_MethodID vm])"
  by (induction vms) (auto intro: rev_image_eqI)

lemma put_method_set:
  "vm_MethodID ` set (put_method vm vms) = insert (vm_MethodID vm) (vm_MethodID ` set vms)"
  using arg_cong [OF put_method_ids, of set] by (auto split: if_splits)

lemma put_method_distinct:
  "distinct (map vm_MethodID vms) \<Longrightarrow> distinct (map vm_MethodID (put_method vm vms))"
  unfolding put_method_ids by simp

lemma put_method_mem: "vm \<in> set (put_method vm vms)"
  by (induction vms) auto

lemma put_method_subset: "set (put_method vm vms) \<subseteq> insert vm (set vms)"
  by (induction vms) auto

lemma HolderDID_stored:
  "length pub \<noteq> PublicKeySize \<Longrightarrow> pub \<noteq> [] \<Longrightarrow> HolderDIDForSession cr sid pub = HolderDIDForSession cr sid []"
  by (auto simp: HolderDIDForSession_def PublicKeySize_def)

lemma session_exec_wf:
  assumes "sessions_wf cr s"
  shows "sessions_wf cr (session_exec cr s c now)"
proof (cases c)
  case (CallCreate rnd pub)
  then show ?thesis
    using assms HolderDID_stored [of pub cr]
    by (cases "pub = []") (auto simp: sessions_wf_def session_Create_def Let_def session_wf_def
        split: option.splits)
next
  case (CallGet i)
  then show ?thesis using assms
    by (auto simp: sessions_wf_def session_Get_def session_lookup_def split: option.splits)
next
  case (CallRecord i res md)
  have "session_wf cr i (sess\<lparr>se_verifiedMethods := put_method vm (se_verifiedMethods sess)\<rparr>)"
    "session_wf cr i (sess\<lparr>se_verifiedMethods := put_method vm (se_verifiedMethods sess),
      se_anchorMethodID := Some (vm_MethodID vm)\<rparr>)"
    if "session_wf cr i sess" for sess vm
    using that by (auto simp: session_wf_def put_method_set put_method_distinct)
  note this [where vm = "\<lparr>vm_MethodID = mr_MethodID res, vm_Strength = md_Strength md,
    vm_VerifiedAt = mr_VerifiedAt res, vm_FreshnessLifetime = md_FreshnessLifetime md,
    vm_AttestationDigest = mr_AttestationDigest res\<rparr>", simplified]
  then show ?thesis using assms CallRecord
    by (auto simp: sessions_wf_def session_RecordMethodResult_def session_lookup_def Let_def split: option.splits)
next
  case (CallMarkIssued i cid)
  then show ?thesis using assms
    by (auto simp: sessions_wf_def session_MarkIssued_def session_lookup_def session_wf_def split: option.splits)
next
  case (CallSetKey i kind key)
  then show ?thesis using assms
    by (auto simp: sessions_wf_def session_SetIdentifierKey_def session_lookup_def session_wf_def
        split: option.splits)
qed

lemma session_run_wf: "sessions_wf cr s \<Longrightarrow> sessions_wf cr (in_memory.run cr s cs)"
  by (induction cs arbitrary: s) (auto simp: session_exec_wf)

lemma session_new_wf [simp]: "sessions_wf cr (NewInMemorySessionStore ttl)"
  by (simp add: sessions_wf_def NewInMemorySessionStore_def)

lemma session_view_wf:
  assumes "sessions_wf cr s" "session_view_of s sid now = Some v"
  shows "sv_ID v = sid \<and> distinct (map vm_MethodID (sv_VerifiedMethods v)) \<and>
    (\<forall>a. sv_AnchorMethodID v = Some a \<longrightarrow> a \<in> vm_MethodID ` set (sv_VerifiedMethods v)) \<and>
    sv_HolderDID v = HolderDIDForSession cr sid (sv_HolderPublicKey v)"
  using assms HolderDID_stored
  by (force simp: session_view_of_alt sessions_wf_def session_wf_def session_to_view_def
      split: option.splits if_splits)

section \<open>Properties\<close>

fun run_sessions :: "crypto \<Rightarrow> session_store \<Rightarrow> (session_call \<times> time) list \<Rightarrow> session_store" where
  "run_sessions cr s [] = s"
| "run_sessions cr s ((c, t) # cs) = run_sessions cr (session_exec cr s c t) cs"

lemma run_sessions_run: "run_sessions cr s cs = in_memory.run cr s cs"
  by (induction cr s cs rule: run_sessions.induct) auto

text \<open>In every session the store can hold, a method appears once however often its ceremony was
  repeated, the anchor is one of the methods, and the holder DID is the one of the session's key.\<close>

theorem session_shape:
  assumes "session_view_of (run_sessions cr (NewInMemorySessionStore ttl) cs) sid now = Some v"
  shows "sv_ID v = sid \<and> distinct (map vm_MethodID (sv_VerifiedMethods v))
    \<and> (\<forall>a. sv_AnchorMethodID v = Some a \<longrightarrow> a \<in> vm_MethodID ` set (sv_VerifiedMethods v))
    \<and> sv_HolderDID v = HolderDIDForSession cr sid (sv_HolderPublicKey v)"
  using session_view_wf [OF session_run_wf [OF session_new_wf]] assms by (simp add: run_sessions_run)

definition sample_result :: method_result where
  "sample_result = \<lparr>mr_Success = True, mr_MethodID = ''phone-liveness'', mr_VerifiedAt = 7,
     mr_AttestationDigest = ''ab'', mr_ErrorReason = '''', mr_VerifiedIdentifier = ''''\<rparr>"

definition sample_anchor_metadata :: method_metadata where
  "sample_anchor_metadata = \<lparr>md_ID = ''phone-liveness'', md_Type = MethodTypeAnchor, md_Strength = 80,
     md_CostUSD = 0, md_UXFriction = ''high'', md_PlatformRequirements = [], md_FreshnessLifetime = 0,
     md_Version = ''1''\<rparr>"

definition sample_calls :: "(session_call \<times> time) list" where
  "sample_calls = [(CallCreate (Some ''abc'') (sample_key 1), 5),
     (CallRecord ''YWJj'' sample_result sample_anchor_metadata, 7),
     (CallRecord ''YWJj'' sample_result sample_anchor_metadata, 8),
     (CallMarkIssued ''YWJj'' ''urn:1'', 9)]"

lemma sample_session:
  "session_view_of (run_sessions cr (NewInMemorySessionStore 100) sample_calls) ''YWJj'' 9 =
    Some \<lparr>sv_ID = ''YWJj'', sv_HolderDID = HolderDIDForSession cr ''YWJj'' (sample_key 1),
      sv_HolderPublicKey = sample_key 1, sv_CreatedAt = 5, sv_ExpiresAt = 105,
      sv_VerifiedMethods = [\<lparr>vm_MethodID = ''phone-liveness'', vm_Strength = 80, vm_VerifiedAt = 7,
        vm_FreshnessLifetime = 0, vm_AttestationDigest = ''ab''\<rparr>],
      sv_AnchorMethodID = Some ''phone-liveness'', sv_IssuedCredentialID = ''urn:1'',
      sv_IdentifierKeys = []\<rparr>"
proof -
  have r: "randomSessionID (Some ''abc'') = Some ''YWJj''"
    by (simp add: randomSessionID_def b64_url_def)
  show ?thesis
    by (simp add: sample_calls_def session_view_of_alt NewInMemorySessionStore_def session_Create_def r
        session_RecordMethodResult_def session_lookup_def session_MarkIssued_def sample_result_def
        sample_anchor_metadata_def session_to_view_def Let_def copyStringMap_def)
qed

theorem session_shape_witness:
  "\<exists>v. session_view_of (run_sessions sample_crypto (NewInMemorySessionStore 100) sample_calls) ''YWJj'' 9 = Some v
    \<and> distinct (map vm_MethodID (sv_VerifiedMethods v)) \<and> sv_AnchorMethodID v = Some ''phone-liveness''"
  using session_shape [OF sample_session [of sample_crypto]] sample_session [of sample_crypto] by simp

text \<open>A session issues once: from the moment a credential was issued from it, no sequence of
  calls, however long, changes the session or brings it back once expired.\<close>

theorem issued_session_frozen:
  assumes "session_view_of s sid now = Some v" "sv_IssuedCredentialID v \<noteq> ''''"
    "\<forall>c \<in> fst ` set cs. creates c \<noteq> Some sid" "sorted (now # map snd cs @ [u])"
  shows "session_view_of (run_sessions cr s cs) sid u = None
    \<or> session_view_of (run_sessions cr s cs) sid u = Some v"
  using in_memory.issued_frozen_run [OF TrueI assms] by (simp add: run_sessions_run)

theorem issued_session_frozen_witness:
  "let s = run_sessions sample_crypto (NewInMemorySessionStore 100) sample_calls;
       cs = [(CallRecord ''YWJj'' (sample_result\<lparr>mr_MethodID := ''email''\<rparr>) sample_anchor_metadata, 10)] in
   session_view_of (run_sessions sample_crypto s cs) ''YWJj'' 11 = session_view_of s ''YWJj'' 9
   \<or> session_view_of (run_sessions sample_crypto s cs) ''YWJj'' 11 = None"
  using issued_session_frozen [OF sample_session [of sample_crypto],
      of "[(CallRecord ''YWJj'' (sample_result\<lparr>mr_MethodID := ''email''\<rparr>) sample_anchor_metadata, 10)]" 11
      sample_crypto]
  by (auto simp: Let_def sample_session)

end
