(* ===== verification/Status_List.thy ===== *)
theory Status_List
  imports Credential_Model
begin

unbundle bit_operations_syntax

text \<open>
  The revocation bit string of \<open>src/credential/status.go\<close>: a list of bytes, addressed most
  significant bit first, its published form (gzip, an argument, then base64url) and the check a
  verifier runs. \<open>bit_array\<close> is the contract a list of named bits keeps; the byte list is shown to
  keep it.
\<close>

section \<open>The bit string\<close>

type_synonym bit_string = "8 word list"

definition NewBitString :: "int \<Rightarrow> bit_string" where
  "NewBitString bits = (let bits = (if bits < 0 then 0 else bits) in replicate (nat ((bits + 7) div 8)) 0)"

definition BitLen :: "bit_string \<Rightarrow> int" where
  "BitLen b = int (length b) * 8"

definition bit_Get :: "bit_string \<Rightarrow> int \<Rightarrow> bool" where
  "bit_Get b i =
     (if i < 0 then False
      else (let byteIdx = nat (i div 8) in
        if byteIdx \<ge> length b then False
        else b ! byteIdx AND drop_bit (nat (i mod 8)) 0x80 \<noteq> 0))"

datatype bit_error = BitNegativeIndex | BitOutOfRange

definition bit_Set :: "bit_string \<Rightarrow> int \<Rightarrow> bit_error + bit_string" where
  "bit_Set b i =
     (if i < 0 then Inl BitNegativeIndex
      else (let byteIdx = nat (i div 8) in
        if byteIdx \<ge> length b then Inl BitOutOfRange
        else Inr (b[byteIdx := b ! byteIdx OR drop_bit (nat (i mod 8)) 0x80])))"

section \<open>The published form\<close>

text \<open>\<open>gzip\<close> and \<open>gunzip\<close> are \<open>compress/gzip\<close>; bytes as text characters are \<open>byte_list\<close>.\<close>

definition byte_text :: "bit_string \<Rightarrow> bytes" where
  "byte_text b = map (\<lambda>w. byte (unat w)) b"

definition text_bytes :: "bytes \<Rightarrow> bit_string" where
  "text_bytes s = map (\<lambda>c. word_of_nat (byte_of c)) s"

definition bit_Encode :: "(bytes \<Rightarrow> bytes option) \<Rightarrow> bit_string \<Rightarrow> string option" where
  "bit_Encode gzip b = map_option RawURL_encode (gzip (byte_text b))"

datatype decode_error = DecEmpty | DecBase64 | DecGunzip

definition DecodeBitString :: "(bytes \<Rightarrow> bytes option) \<Rightarrow> string \<Rightarrow> decode_error + bit_string" where
  "DecodeBitString gunzip encoded =
     (if encoded = '''' then Inl DecEmpty
      else
        (let raw = (case RawURL_decode encoded of Some r \<Rightarrow> Some r | None \<Rightarrow> URL_decode encoded) in
         case raw of
           None \<Rightarrow> Inl DecBase64
         | Some r \<Rightarrow> (case gunzip r of None \<Rightarrow> Inl DecGunzip | Some out \<Rightarrow> Inr (text_bytes out))))"

datatype fetch_error =
    FetchEmptyURL | FetchFailed | FetchStatus nat | FetchReadBody | FetchParse | FetchNoList
  | FetchDecode decode_error

definition FetchStatusList ::
  "(bytes \<Rightarrow> bytes option) \<Rightarrow> (bytes \<Rightarrow> string option) \<Rightarrow> (string \<Rightarrow> (nat \<times> bytes option) option) \<Rightarrow> string
    \<Rightarrow> fetch_error + bit_string" where
  "FetchStatusList gunzip parse_env http_get url =
     (if url = '''' then Inl FetchEmptyURL
      else (case http_get url of
          None \<Rightarrow> Inl FetchFailed
        | Some (status, body) \<Rightarrow>
            if status \<noteq> 200 then Inl (FetchStatus status)
            else (case body of
                None \<Rightarrow> Inl FetchReadBody
              | Some b \<Rightarrow> (case parse_env b of
                    None \<Rightarrow> Inl FetchParse
                  | Some encodedList \<Rightarrow>
                      if encodedList = '''' then Inl FetchNoList
                      else (case DecodeBitString gunzip encodedList of
                          Inl e \<Rightarrow> Inl (FetchDecode e)
                        | Inr bits \<Rightarrow> Inr bits)))))"

datatype revoked_error = RevUnsupportedType | RevNegativeIndex | RevFetch fetch_error

definition IsRevoked ::
  "(bytes \<Rightarrow> bytes option) \<Rightarrow> (bytes \<Rightarrow> string option) \<Rightarrow> (string \<Rightarrow> (nat \<times> bytes option) option)
    \<Rightarrow> credential \<Rightarrow> revoked_error + bool" where
  "IsRevoked gunzip parse_env http_get cred =
     (case vc_CredentialStatus cred of
        None \<Rightarrow> Inr False
      | Some st \<Rightarrow>
          if st_Type st \<noteq> StatusList2021EntryType then Inl RevUnsupportedType
          else if st_StatusListIndex st < 0 then Inl RevNegativeIndex
          else (case FetchStatusList gunzip parse_env http_get (st_StatusListCredential st) of
              Inl e \<Rightarrow> Inl (RevFetch e)
            | Inr bits \<Rightarrow> Inr (bit_Get bits (st_StatusListIndex st))))"

section \<open>An array of bits\<close>

text \<open>What a client of the list relies on: a cleared list of some length, and set bits that stay
  set and touch no other index.\<close>

locale bit_array =
  fixes new :: "int \<Rightarrow> 'b"
    and get :: "'b \<Rightarrow> int \<Rightarrow> bool"
    and set_bit :: "'b \<Rightarrow> int \<Rightarrow> 'b option"
    and size :: "'b \<Rightarrow> int"
  assumes get_new: "\<not> get (new n) i"
    and size_new: "n \<le> size (new n)"
    and set_defined: "set_bit b i \<noteq> None \<longleftrightarrow> 0 \<le> i \<and> i < size b"
    and get_set: "set_bit b i = Some b' \<Longrightarrow> get b' j \<longleftrightarrow> j = i \<or> get b j"
    and size_set: "set_bit b i = Some b' \<Longrightarrow> size b' = size b"
begin

text \<open>Setting a list of indices, skipping those out of range as the status list handler does.\<close>

definition set_all :: "int list \<Rightarrow> 'b \<Rightarrow> 'b" where
  "set_all is b = fold (\<lambda>i b. case set_bit b i of Some b' \<Rightarrow> b' | None \<Rightarrow> b) is b"

lemma size_set_all: "size (set_all is b) = size b"
proof (induction "is" arbitrary: b)
  case (Cons i "is")
  show ?case
    using Cons.IH size_set [of b i] by (simp add: set_all_def split: option.split)
qed (simp add: set_all_def)

lemma get_set_all: "get (set_all is b) j \<longleftrightarrow> get b j \<or> (j \<in> set is \<and> 0 \<le> j \<and> j < size b)"
proof (induction "is" arbitrary: b)
  case (Cons i "is")
  show ?case
  proof (cases "set_bit b i")
    case None
    then have "set_all (i # is) b = set_all is b" by (simp add: set_all_def)
    then show ?thesis using Cons.IH [of b] set_defined [of b i] None by auto
  next
    case (Some b')
    then have "set_all (i # is) b = set_all is b'" by (simp add: set_all_def)
    then show ?thesis
      using Cons.IH [of b'] set_defined [of b i] Some get_set [OF Some, of j] size_set [OF Some] by auto
  qed
qed (simp add: set_all_def)

lemma get_set_all_new:
  "get (set_all is (new n)) j \<longleftrightarrow> j \<in> set is \<and> 0 \<le> j \<and> j < size (new n)"
  by (simp add: get_set_all get_new)

end

lemma mask_power: "k < 8 \<Longrightarrow> drop_bit k (0x80 :: 8 word) = 2 ^ (7 - k)"
proof -
  assume "k < 8"
  then have "k \<in> {0, 1, 2, 3, 4, 5, 6, 7}" by auto
  then show ?thesis by (elim insertE) (simp_all add: drop_bit_eq_div)
qed

lemma mask_bit: "k < 8 \<Longrightarrow> (w :: 8 word) AND drop_bit k 0x80 \<noteq> 0 \<longleftrightarrow> bit w (7 - k)"
  by (simp add: mask_power and_exp_eq_0_iff_not_bit)

lemma or_mask_bit: "k < 8 \<Longrightarrow> j < 8 \<Longrightarrow>
    bit ((w :: 8 word) OR drop_bit k 0x80) (7 - j) \<longleftrightarrow> j = k \<or> bit w (7 - j)"
  by (auto simp: mask_power bit_or_iff bit_exp_iff)

lemma bit_Get_iff:
  "bit_Get b i \<longleftrightarrow> 0 \<le> i \<and> i < BitLen b \<and> bit (b ! nat (i div 8)) (7 - nat (i mod 8))"
proof (cases "0 \<le> i \<and> i < BitLen b")
  case True
  then have "nat (i mod 8) < 8" "nat (i div 8) < length b" by (auto simp: BitLen_def)
  then show ?thesis using True mask_bit by (simp add: bit_Get_def Let_def)
next
  case False
  then show ?thesis by (auto simp: bit_Get_def BitLen_def Let_def)
qed

lemma index_split:
  fixes i j :: int
  assumes "0 \<le> i" "0 \<le> j"
  shows "i = j \<longleftrightarrow> nat (i div 8) = nat (j div 8) \<and> nat (i mod 8) = nat (j mod 8)"
proof -
  have "i = j \<longleftrightarrow> i div 8 = j div 8 \<and> i mod 8 = j mod 8"
    by (metis div_mult_mod_eq)
  then show ?thesis using assms by (simp add: eq_nat_nat_iff pos_imp_zdiv_nonneg_iff)
qed

lemma bit_Set_defined: "(\<exists>b'. bit_Set b i = Inr b') \<longleftrightarrow> 0 \<le> i \<and> i < BitLen b"
  by (auto simp: bit_Set_def BitLen_def Let_def)

lemma bit_Set_length: "bit_Set b i = Inr b' \<Longrightarrow> length b' = length b"
  by (auto simp: bit_Set_def Let_def split: if_splits)

lemma bit_Get_Set:
  assumes "bit_Set b i = Inr b'"
  shows "bit_Get b' j \<longleftrightarrow> j = i \<or> bit_Get b j"
proof -
  have i: "0 \<le> i" "i < BitLen b" using assms bit_Set_defined by blast+
  then have l: "nat (i div 8) < length b" "nat (i mod 8) < 8" by (auto simp: BitLen_def)
  have b': "b' = b[nat (i div 8) := b ! nat (i div 8) OR drop_bit (nat (i mod 8)) 0x80]"
    using assms by (auto simp: bit_Set_def Let_def split: if_splits)
  show ?thesis
  proof (cases "0 \<le> j \<and> j < BitLen b")
    case True
    then have j: "nat (j mod 8) < 8" "nat (j div 8) < length b" by (auto simp: BitLen_def)
    have "bit_Get b' j \<longleftrightarrow> bit (b' ! nat (j div 8)) (7 - nat (j mod 8))"
      "bit_Get b j \<longleftrightarrow> bit (b ! nat (j div 8)) (7 - nat (j mod 8))"
      using True by (simp_all add: bit_Get_iff b' BitLen_def)
    moreover have "j = i \<longleftrightarrow> nat (i div 8) = nat (j div 8) \<and> nat (j mod 8) = nat (i mod 8)"
      using index_split [of i j] i True by metis
    ultimately show ?thesis
      using or_mask_bit [OF l(2) j(1), of "b ! nat (i div 8)"] l
      by (cases "nat (i div 8) = nat (j div 8)") (simp_all add: b' nth_list_update)
  qed (use i in \<open>auto simp: bit_Get_iff b' BitLen_def\<close>)
qed

definition bit_Set_option :: "bit_string \<Rightarrow> int \<Rightarrow> bit_string option" where
  "bit_Set_option b i = (case bit_Set b i of Inl e \<Rightarrow> None | Inr b' \<Rightarrow> Some b')"

interpretation bits: bit_array NewBitString bit_Get bit_Set_option BitLen
proof
  fix n i show "\<not> bit_Get (NewBitString n) i"
    by (auto simp: bit_Get_iff NewBitString_def BitLen_def Let_def)
next
  fix n show "n \<le> BitLen (NewBitString n)"
    by (auto simp: NewBitString_def BitLen_def Let_def)
next
  fix b i show "(bit_Set_option b i \<noteq> None) \<longleftrightarrow> 0 \<le> i \<and> i < BitLen b"
    using bit_Set_defined [of b i] by (auto simp: bit_Set_option_def split: sum.splits)
next
  fix b b' i j assume "bit_Set_option b i = Some b'"
  then show "bit_Get b' j \<longleftrightarrow> j = i \<or> bit_Get b j"
    using bit_Get_Set [of b i b' j] by (auto simp: bit_Set_option_def split: sum.splits)
next
  fix b b' i assume "bit_Set_option b i = Some b'"
  then show "BitLen b' = BitLen b"
    using bit_Set_length [of b i b'] by (auto simp: bit_Set_option_def BitLen_def split: sum.splits)
qed

section \<open>Publishing and reading back\<close>

lemma byte_text_inverse [simp]: "text_bytes (byte_text b) = b"
proof -
  have "unat (w :: 8 word) mod 256 = unat w" for w
    using unsigned_less [of w, where ?'a = nat] by simp
  then show ?thesis by (simp add: text_bytes_def byte_text_def comp_def map_idI)
qed

lemma bit_Encode_decode:
  assumes "bit_Encode gzip b = Some s" "\<And>x y. gzip x = Some y \<Longrightarrow> y \<noteq> [] \<and> gunzip y = Some x"
  shows "DecodeBitString gunzip s = Inr b"
  using assms by (auto simp: bit_Encode_def DecodeBitString_def Let_def)

lemma IsRevoked_served:
  assumes "vc_CredentialStatus cred = Some st" "st_Type st = StatusList2021EntryType"
    and "0 \<le> st_StatusListIndex st" "st_StatusListCredential st \<noteq> ''''"
    and "http_get (st_StatusListCredential st) = Some (200, Some body)" "parse_env body = Some s"
    and "bit_Encode gzip b = Some s" "\<And>x y. gzip x = Some y \<Longrightarrow> y \<noteq> [] \<and> gunzip y = Some x"
  shows "IsRevoked gunzip parse_env http_get cred = Inr (bit_Get b (st_StatusListIndex st))"
proof -
  have "s \<noteq> ''''" using assms(7,8) by (auto simp: bit_Encode_def)
  then show ?thesis
    using assms bit_Encode_decode [OF assms(7,8)] by (simp add: IsRevoked_def FetchStatusList_def)
qed

end
