(* ===== verification/Revocation_Store.thy ===== *)
theory Revocation_Store
  imports Status_List
begin

text \<open>
  Which credential owns which slot of the status list, and which slots are revoked:
  \<open>src/server/revocation.go\<close> with its in-memory store, and the bit string the status list handler
  builds from it. The random bytes of each allocation attempt are an argument.
\<close>

section \<open>The in-memory store\<close>

definition statusListSize :: int where
  "statusListSize = 131072"

definition maxAllocateAttempts :: nat where
  "maxAllocateAttempts = 16"

text \<open>\<open>rv_revoked\<close> holds the keys of the Go map, without repetition.\<close>

record revocation_store =
  rv_used :: "int list"
  rv_byCred :: "string \<rightharpoonup> int"
  rv_revoked :: "int list"

datatype revocation_error = ErrCredentialNotFound | ErrRandomSlot | ErrNoFreeSlot

definition NewInMemoryRevocationStore :: revocation_store where
  "NewInMemoryRevocationStore = \<lparr>rv_used = [], rv_byCred = Map.empty, rv_revoked = []\<rparr>"

text \<open>Four random bytes, big endian; \<open>None\<close> when \<open>rand.Read\<close> fails.\<close>

definition randomSlot :: "bytes option \<Rightarrow> int option" where
  "randomSlot b = map_option (\<lambda>bs. int (foldl (\<lambda>a c. a * 256 + byte_of c) 0 bs) mod statusListSize) b"

fun allocate_loop ::
  "nat \<Rightarrow> (nat \<Rightarrow> bytes option) \<Rightarrow> nat \<Rightarrow> revocation_store \<Rightarrow> (revocation_error + int) \<times> revocation_store" where
  "allocate_loop 0 rnd i s = (Inl ErrNoFreeSlot, s)"
| "allocate_loop (Suc n) rnd i s =
     (case randomSlot (rnd i) of
        None \<Rightarrow> (Inl ErrRandomSlot, s)
      | Some idx \<Rightarrow>
          if idx \<notin> set (rv_used s) then (Inr idx, s\<lparr>rv_used := idx # rv_used s\<rparr>)
          else allocate_loop n rnd (Suc i) s)"

definition revocation_Allocate ::
  "(nat \<Rightarrow> bytes option) \<Rightarrow> revocation_store \<Rightarrow> (revocation_error + int) \<times> revocation_store" where
  "revocation_Allocate rnd s = allocate_loop maxAllocateAttempts rnd 0 s"

definition revocation_Bind :: "int \<Rightarrow> string \<Rightarrow> revocation_store \<Rightarrow> revocation_store" where
  "revocation_Bind index credID s = s\<lparr>rv_byCred := (rv_byCred s)(credID \<mapsto> index)\<rparr>"

definition revocation_Revoke ::
  "string \<Rightarrow> revocation_store \<Rightarrow> (revocation_error + (int \<times> bool)) \<times> revocation_store" where
  "revocation_Revoke credID s =
     (case rv_byCred s credID of
        None \<Rightarrow> (Inl ErrCredentialNotFound, s)
      | Some idx \<Rightarrow>
          (let already = idx \<in> set (rv_revoked s) in
           (Inr (idx, already), s\<lparr>rv_revoked := List.insert idx (rv_revoked s)\<rparr>)))"

definition revocation_Revoked :: "revocation_store \<Rightarrow> int list" where
  "revocation_Revoked s = sort (rv_revoked s)"

text \<open>The loop of the status list handler: any slot out of range is an error of the whole list.\<close>

fun set_slots :: "int list \<Rightarrow> bit_string \<Rightarrow> bit_error + bit_string" where
  "set_slots [] bits = Inr bits"
| "set_slots (idx # idxs) bits = (case bit_Set bits idx of Inl e \<Rightarrow> Inl e | Inr b \<Rightarrow> set_slots idxs b)"

definition status_list_bits :: "revocation_store \<Rightarrow> bit_error + bit_string" where
  "status_list_bits s = set_slots (revocation_Revoked s) (NewBitString statusListSize)"

section \<open>The contract\<close>

text \<open>What issuing and revoking rely on, over what a client can see: who owns which slot, which slots
  are taken, and which are revoked.\<close>

locale revocation_contract =
  fixes slot_of :: "'s \<Rightarrow> string \<Rightarrow> int option"
    and taken :: "'s \<Rightarrow> int set"
    and revoked :: "'s \<Rightarrow> int set"
    and allocate :: "(nat \<Rightarrow> bytes option) \<Rightarrow> 's \<Rightarrow> (revocation_error + int) \<times> 's"
    and bind :: "int \<Rightarrow> string \<Rightarrow> 's \<Rightarrow> 's"
    and revoke :: "string \<Rightarrow> 's \<Rightarrow> (revocation_error + (int \<times> bool)) \<times> 's"
  assumes allocate_fresh: "allocate rnd s = (Inr idx, s') \<Longrightarrow>
      idx \<notin> taken s \<and> 0 \<le> idx \<and> idx < statusListSize \<and> taken s' = insert idx (taken s) \<and>
      slot_of s' = slot_of s \<and> revoked s' = revoked s"
    and allocate_failed: "allocate rnd s = (Inl e, s') \<Longrightarrow> s' = s"
    and bind_slot: "slot_of (bind idx c s) = (slot_of s)(c \<mapsto> idx) \<and> taken (bind idx c s) = taken s \<and>
      revoked (bind idx c s) = revoked s"
    and revoke_slot: "revoke c s = (r, s') \<Longrightarrow> slot_of s' = slot_of s \<and> taken s' = taken s \<and>
      (case slot_of s c of None \<Rightarrow> r = Inl ErrCredentialNotFound \<and> s' = s
       | Some idx \<Rightarrow> r = Inr (idx, idx \<in> revoked s) \<and> revoked s' = insert idx (revoked s))"
begin

text \<open>Slots are owned by one credential each, taken, and in range; only taken slots are revoked.\<close>

definition good :: "'s \<Rightarrow> bool" where
  "good s \<longleftrightarrow> (\<forall>c idx. slot_of s c = Some idx \<longrightarrow> idx \<in> taken s) \<and>
     (\<forall>c c' idx. slot_of s c = Some idx \<longrightarrow> slot_of s c' = Some idx \<longrightarrow> c = c') \<and>
     revoked s \<subseteq> taken s \<and> (\<forall>idx \<in> taken s. 0 \<le> idx \<and> idx < statusListSize)"

lemma allocate_good:
  assumes "good s" "allocate rnd s = (r, s')"
  shows "good s'"
proof (cases r)
  case (Inl e)
  then show ?thesis using assms allocate_failed by blast
next
  case (Inr idx)
  then show ?thesis using assms allocate_fresh [of rnd s idx s'] by (auto simp: good_def)
qed

lemma issue_good:
  assumes "good s" "allocate rnd s = (Inr idx, s1)" "slot_of s c = None"
  shows "good (bind idx c s1) \<and> slot_of (bind idx c s1) c = Some idx \<and> idx \<notin> revoked (bind idx c s1)"
proof -
  have b: "slot_of (bind idx c s1) = (slot_of s)(c \<mapsto> idx)" "taken (bind idx c s1) = insert idx (taken s)"
    "revoked (bind idx c s1) = revoked s" "idx \<notin> taken s" "0 \<le> idx" "idx < statusListSize"
    using allocate_fresh [OF assms(2)] bind_slot [of idx c s1] by simp_all
  then show ?thesis using assms(1) unfolding good_def by auto
qed

lemma revoke_good: "good s \<Longrightarrow> revoke c s = (r, s') \<Longrightarrow> good s'"
  using revoke_slot [of c s r s'] by (auto simp: good_def split: option.splits)

text \<open>Revoking touches the slot of that credential and of no other.\<close>

lemma revoke_exactly:
  assumes "good s" "revoke c s = (Inr r, s')" "slot_of s c' = Some idx"
  shows "idx \<in> revoked s' \<longleftrightarrow> c' = c \<or> idx \<in> revoked s"
  using assms revoke_slot [OF assms(2)] by (auto simp: good_def split: option.splits)

end

lemma randomSlot_range: "randomSlot b = Some idx \<Longrightarrow> 0 \<le> idx \<and> idx < statusListSize"
  by (auto simp: randomSlot_def statusListSize_def)

lemma allocate_loop_Inr:
  "allocate_loop n rnd i s = (Inr idx, s') \<Longrightarrow>
     idx \<notin> set (rv_used s) \<and> 0 \<le> idx \<and> idx < statusListSize \<and> s' = s\<lparr>rv_used := idx # rv_used s\<rparr>"
  by (induction n rnd i s rule: allocate_loop.induct)
    (auto split: option.splits if_splits dest: randomSlot_range)

lemma allocate_loop_Inl: "allocate_loop n rnd i s = (Inl e, s') \<Longrightarrow> s' = s"
  by (induction n rnd i s rule: allocate_loop.induct) (auto split: option.splits if_splits)

interpretation mem_rev: revocation_contract rv_byCred "\<lambda>s. set (rv_used s)" "\<lambda>s. set (rv_revoked s)"
  revocation_Allocate revocation_Bind revocation_Revoke
proof
  fix rnd s idx s' assume "revocation_Allocate rnd s = (Inr idx, s')"
  then show "idx \<notin> set (rv_used s) \<and> 0 \<le> idx \<and> idx < statusListSize \<and>
      set (rv_used s') = insert idx (set (rv_used s)) \<and> rv_byCred s' = rv_byCred s \<and>
      set (rv_revoked s') = set (rv_revoked s)"
    unfolding revocation_Allocate_def by (auto dest!: allocate_loop_Inr)
next
  fix rnd s e s' assume "revocation_Allocate rnd s = (Inl e, s')"
  then show "s' = s" unfolding revocation_Allocate_def by (rule allocate_loop_Inl)
next
  fix idx c s show "rv_byCred (revocation_Bind idx c s) = (rv_byCred s)(c \<mapsto> idx) \<and>
      set (rv_used (revocation_Bind idx c s)) = set (rv_used s) \<and>
      set (rv_revoked (revocation_Bind idx c s)) = set (rv_revoked s)"
    by (simp add: revocation_Bind_def)
next
  fix c s r s' assume "revocation_Revoke c s = (r, s')"
  then show "rv_byCred s' = rv_byCred s \<and> set (rv_used s') = set (rv_used s) \<and>
      (case rv_byCred s c of None \<Rightarrow> r = Inl ErrCredentialNotFound \<and> s' = s
       | Some idx \<Rightarrow> r = Inr (idx, idx \<in> set (rv_revoked s)) \<and>
           set (rv_revoked s') = insert idx (set (rv_revoked s)))"
    by (auto simp: revocation_Revoke_def Let_def split: option.splits)
qed

section \<open>The published list\<close>

lemma set_slots_all:
  "\<forall>i \<in> set idxs. 0 \<le> i \<and> i < BitLen b \<Longrightarrow> set_slots idxs b = Inr (bits.set_all idxs b)"
proof (induction idxs arbitrary: b)
  case (Cons i idxs)
  obtain b' where b': "bit_Set b i = Inr b'"
    using Cons.prems bit_Set_defined [of b i] by auto
  then have "BitLen b' = BitLen b" using bit_Set_length by (simp add: BitLen_def)
  then have "set_slots idxs b' = Inr (bits.set_all idxs b')" using Cons by simp
  moreover have "bit_Set_option b i = Some b'" using b' by (simp add: bit_Set_option_def)
  ultimately show ?case using b' by (simp add: bits.set_all_def)
qed (simp add: bits.set_all_def)

lemma BitLen_list [simp]: "BitLen (NewBitString statusListSize) = statusListSize"
  by (simp add: BitLen_def NewBitString_def statusListSize_def)

lemma status_list_bits_get:
  assumes "mem_rev.good s"
  shows "\<exists>b. status_list_bits s = Inr b \<and> (\<forall>i. bit_Get b i \<longleftrightarrow> i \<in> set (rv_revoked s))"
proof -
  have r: "0 \<le> i \<and> i < statusListSize" if "i \<in> set (rv_revoked s)" for i
    using assms that by (auto simp: mem_rev.good_def)
  then have "status_list_bits s = Inr (bits.set_all (revocation_Revoked s) (NewBitString statusListSize))"
    unfolding status_list_bits_def by (intro set_slots_all) (simp add: revocation_Revoked_def)
  moreover have "bit_Get (bits.set_all (revocation_Revoked s) (NewBitString statusListSize)) i
      \<longleftrightarrow> i \<in> set (rv_revoked s)" for i
    using r by (auto simp: bits.get_set_all_new revocation_Revoked_def)
  ultimately show ?thesis by blast
qed

section \<open>Issuances and revocations\<close>

text \<open>Every store the issuer can have: slots are allocated and, for a credential identifier not used
  before, bound; credentials are revoked.\<close>

inductive revocation_reachable :: "revocation_store \<Rightarrow> bool" where
  rev_new: "revocation_reachable NewInMemoryRevocationStore"
| rev_allocate: "revocation_reachable s \<Longrightarrow> revocation_Allocate rnd s = (r, s') \<Longrightarrow> revocation_reachable s'"
| rev_issue: "revocation_reachable s \<Longrightarrow> revocation_Allocate rnd s = (Inr idx, s1) \<Longrightarrow>
     rv_byCred s c = None \<Longrightarrow> revocation_reachable (revocation_Bind idx c s1)"
| rev_revoke: "revocation_reachable s \<Longrightarrow> revocation_Revoke c s = (r, s') \<Longrightarrow> revocation_reachable s'"

lemma revocation_reachable_good: "revocation_reachable s \<Longrightarrow> mem_rev.good s"
proof (induction rule: revocation_reachable.induct)
  case rev_new
  then show ?case by (simp add: mem_rev.good_def NewInMemoryRevocationStore_def)
next
  case (rev_allocate s rnd r s')
  then show ?case using mem_rev.allocate_good by blast
next
  case (rev_issue s rnd idx s1 c)
  then show ?case using mem_rev.issue_good [of s rnd idx s1 c] by blast
next
  case (rev_revoke s c r s')
  then show ?case using mem_rev.revoke_good by blast
qed

section \<open>Properties\<close>

text \<open>Revoking hits its target and nobody else: in every store the issuer can reach, the published
  status list always builds, and after a credential is revoked the bit of an issued credential is
  set exactly if it is the revoked one or was revoked before.\<close>

theorem revocation_sets_exactly_its_bit:
  assumes "revocation_reachable s" "revocation_Revoke c s = (Inr (idx, already), s')"
    and "rv_byCred s c' = Some idx'"
  shows "\<exists>before after. status_list_bits s = Inr before \<and> status_list_bits s' = Inr after
    \<and> bit_Get after idx \<and> (already \<longleftrightarrow> bit_Get before idx)
    \<and> (bit_Get after idx' \<longleftrightarrow> c' = c \<or> bit_Get before idx')"
proof -
  have g: "mem_rev.good s" by (rule revocation_reachable_good [OF assms(1)])
  have g': "mem_rev.good s'" using mem_rev.revoke_good [OF g assms(2)] .
  obtain b b' where b: "status_list_bits s = Inr b" "\<forall>i. bit_Get b i \<longleftrightarrow> i \<in> set (rv_revoked s)"
    and b': "status_list_bits s' = Inr b'" "\<forall>i. bit_Get b' i \<longleftrightarrow> i \<in> set (rv_revoked s')"
    using status_list_bits_get [OF g] status_list_bits_get [OF g'] by blast
  have "rv_byCred s c = Some idx" "already \<longleftrightarrow> idx \<in> set (rv_revoked s)" "idx \<in> set (rv_revoked s')"
    using mem_rev.revoke_slot [OF assms(2)] by (auto split: option.splits)
  then show ?thesis
    using b b' mem_rev.revoke_exactly [OF g assms(2,3)] by auto
qed

definition sample_rnd :: "nat \<Rightarrow> nat \<Rightarrow> bytes option" where
  "sample_rnd n i = Some [byte 0, byte 0, byte 0, byte n]"

definition sample_revocations :: revocation_store where
  "sample_revocations = \<lparr>rv_used = [9, 7], rv_byCred = [''a'' \<mapsto> 7, ''b'' \<mapsto> 9], rv_revoked = []\<rparr>"

lemma first_attempt:
  "revocation_Allocate rnd s = (case randomSlot (rnd 0) of
      None \<Rightarrow> (Inl ErrRandomSlot, s)
    | Some idx \<Rightarrow> if idx \<notin> set (rv_used s) then (Inr idx, s\<lparr>rv_used := idx # rv_used s\<rparr>)
        else allocate_loop 15 rnd (Suc 0) s)"
  using allocate_loop.simps(2) [of 15 rnd 0 s]
  by (simp add: revocation_Allocate_def maxAllocateAttempts_def del: allocate_loop.simps)

lemma sample_revocations_reachable: "revocation_reachable sample_revocations"
proof -
  have a: "revocation_Allocate (sample_rnd 7) NewInMemoryRevocationStore
      = (Inr 7, \<lparr>rv_used = [7], rv_byCred = Map.empty, rv_revoked = []\<rparr>)"
    by (simp add: first_attempt randomSlot_def
        sample_rnd_def NewInMemoryRevocationStore_def statusListSize_def)
  have r1: "revocation_reachable \<lparr>rv_used = [7], rv_byCred = [''a'' \<mapsto> 7], rv_revoked = []\<rparr>"
    using rev_issue [OF rev_new a, of "''a''"] by (simp add: NewInMemoryRevocationStore_def revocation_Bind_def)
  have b: "revocation_Allocate (sample_rnd 9) \<lparr>rv_used = [7], rv_byCred = [''a'' \<mapsto> 7], rv_revoked = []\<rparr>
      = (Inr 9, \<lparr>rv_used = [9, 7], rv_byCred = [''a'' \<mapsto> 7], rv_revoked = []\<rparr>)"
    by (simp add: first_attempt randomSlot_def
        sample_rnd_def statusListSize_def)
  show ?thesis
    using rev_issue [OF r1 b, of "''b''"] by (simp add: revocation_Bind_def sample_revocations_def)
qed

theorem revocation_sets_exactly_its_bit_witness:
  "\<exists>after. status_list_bits (snd (revocation_Revoke ''a'' sample_revocations)) = Inr after
    \<and> bit_Get after 7 \<and> \<not> bit_Get after 9"
proof -
  have r: "revocation_Revoke ''a'' sample_revocations = (Inr (7, False), sample_revocations\<lparr>rv_revoked := [7]\<rparr>)"
    by (simp add: revocation_Revoke_def sample_revocations_def)
  have b: "rv_byCred sample_revocations ''b'' = Some 9" by (simp add: sample_revocations_def)
  have "\<not> (\<exists>before. status_list_bits sample_revocations = Inr before \<and> bit_Get before 9)"
    using status_list_bits_get [OF revocation_reachable_good [OF sample_revocations_reachable]]
    by (auto simp: sample_revocations_def)
  then show ?thesis
    using revocation_sets_exactly_its_bit [OF sample_revocations_reachable r b] r by auto
qed

end
