(* ===== verification/Identifier_Model.thy ===== *)
theory Identifier_Model
  imports Base58_Did
begin

text \<open>
  One inbox or phone, one voter: \<open>src/server/identifier.go\<close>. The normalizers, the keyed hash, the
  in-memory seed store, and \<open>resolveIdentifierSeed\<close> over any store: its two operations are
  arguments, their contract is the locale \<open>identifier_contract\<close>.
\<close>

section \<open>Kinds\<close>

definition identifierKindForMethod :: "string \<Rightarrow> string" where
  "identifierKindForMethod methodID =
     (if methodID = ''email'' \<or> methodID = ''email-tier'' then ''email''
      else if methodID = ''sms'' \<or> methodID = ''phone-carrier-tier'' then ''phone''
      else if methodID = ''document-chip'' \<or> methodID = ''document-signed-qr'' then ''document''
      else '''')"

definition identifierFromUserInput :: "string \<Rightarrow> bool" where
  "identifierFromUserInput kind \<longleftrightarrow> kind = ''email'' \<or> kind = ''phone''"

section \<open>Normalization\<close>

datatype identifier_error =
    IdNotEmail | IdEmptyMailbox | IdPhoneNoPlus | IdPhoneLength | IdPhoneDigits | IdNotDocument | IdUnknownKind

definition gmailDomains :: "string list" where
  "gmailDomains = [''gmail.com'', ''googlemail.com'']"

definition NormalizeEmail :: "string \<Rightarrow> identifier_error + string" where
  "NormalizeEmail raw =
     (let s = to_lower (trim_space raw) in
      case last_index s (CHR ''@'') of
        None \<Rightarrow> Inl IdNotEmail
      | Some pos \<Rightarrow>
          if pos = 0 \<or> pos = length s - 1 \<or> contains_any s ('' '' @ [byte 9, byte 13, byte 10])
          then Inl IdNotEmail
          else
            (let local0 = take pos s;
                 domain0 = trim_suffix (drop (pos + 1) s) ''.'';
                 local1 = (case index_byte local0 (CHR ''+'') of Some i \<Rightarrow> take i local0 | None \<Rightarrow> local0);
                 gmail = domain0 \<in> set gmailDomains;
                 local2 = (if gmail then remove_byte local1 (CHR ''.'') else local1);
                 domain = (if gmail then ''gmail.com'' else domain0)
             in if local2 = '''' \<or> domain = '''' then Inl IdEmptyMailbox
                else Inr (local2 @ ''@'' @ domain)))"

text \<open>
  The loop over the runes: separators and the no-break space are dropped. Bytes that are not valid
  UTF-8 stay, and make the number fail below as Go's replacement character does.
\<close>

fun drop_separators :: "string \<Rightarrow> string" where
  "drop_separators [] = []"
| "drop_separators (a # s) =
     (if a \<in> set '' -.()'' then drop_separators s
      else if a = byte 0xC2 \<and> s \<noteq> [] \<and> hd s = byte 0xA0 then drop_separators (tl s)
      else a # drop_separators s)"

definition NormalizePhoneE164 :: "string \<Rightarrow> identifier_error + string" where
  "NormalizePhoneE164 raw =
     (let s0 = drop_separators (trim_space raw);
          s = (if has_prefix s0 ''00'' then ''+'' @ drop 2 s0 else s0) in
      if \<not> has_prefix s ''+'' then Inl IdPhoneNoPlus
      else
        (let digits = drop 1 s in
         if length digits < 7 \<or> length digits > 15 \<or> digits ! 0 = CHR ''0'' then Inl IdPhoneLength
         else if \<not> digits_text digits then Inl IdPhoneDigits
         else Inr s))"

text \<open>\<open>documentchip.IsDocumentIdentifier\<close>.\<close>

definition IsDocumentIdentifier :: "string \<Rightarrow> bool" where
  "IsDocumentIdentifier s =
     (let check = (\<lambda>rest. case last_index rest (CHR '':'') of
          None \<Rightarrow> False
        | Some i \<Rightarrow> i > 0 \<and> length rest - i - 1 = 64 \<and> hex_decode (drop (i + 1) rest) \<noteq> None) in
      if has_prefix s ''chip:'' then check (drop 5 s)
      else if has_prefix s ''qr:'' then check (drop 3 s)
      else False)"

definition normalizeIdentifier :: "string \<Rightarrow> string \<Rightarrow> identifier_error + string" where
  "normalizeIdentifier kind raw =
     (if kind = ''email'' then NormalizeEmail raw
      else if kind = ''phone'' then NormalizePhoneE164 raw
      else if kind = ''document'' then
        (if \<not> IsDocumentIdentifier raw then Inl IdNotDocument else Inr raw)
      else Inl IdUnknownKind)"

section \<open>Keyed hashes\<close>

definition minIdentifierKeyBytes :: nat where
  "minIdentifierKeyBytes = 32"

record identifier_keyer =
  ik_key :: bytes

definition newIdentifierKeyer :: "bytes \<Rightarrow> identifier_keyer option" where
  "newIdentifierKeyer key = (if length key < minIdentifierKeyBytes then None else Some \<lparr>ik_key = key\<rparr>)"

definition identifierKeyContext :: string where
  "identifierKeyContext = ''personhood/identifier-key/v1''"

definition identifier_Key :: "crypto \<Rightarrow> identifier_keyer \<Rightarrow> string \<Rightarrow> string \<Rightarrow> string" where
  "identifier_Key cr k kind normalized =
     hex_encode (c_hmac cr (ik_key k)
       (identifierKeyContext @ [byte 0] @ kind @ [byte 0] @ normalized))"

section \<open>Seeds\<close>

record identifier_store =
  ids_seeds :: "string \<rightharpoonup> string"

definition NewInMemoryIdentifierStore :: identifier_store where
  "NewInMemoryIdentifierStore = \<lparr>ids_seeds = Map.empty\<rparr>"

text \<open>The error type of a store's operations is a parameter; the in-memory store never fails.\<close>

definition identifier_Lookup :: "identifier_store \<Rightarrow> string \<Rightarrow> 'e + string option" where
  "identifier_Lookup s key = Inr (ids_seeds s key)"

definition identifier_GetOrCreate ::
  "identifier_store \<Rightarrow> string \<Rightarrow> string \<Rightarrow> ('e + string) \<times> identifier_store" where
  "identifier_GetOrCreate s key seed =
     (case ids_seeds s key of
        Some existing \<Rightarrow> (Inr existing, s)
      | None \<Rightarrow> (Inr seed, s\<lparr>ids_seeds := (ids_seeds s)(key \<mapsto> seed)\<rparr>))"

definition identifierKindOrder :: "string \<Rightarrow> nat" where
  "identifierKindOrder kind =
     (if kind = ''document'' then 0 else if kind = ''phone'' then 1 else if kind = ''email'' then 2 else 3)"

text \<open>Known kinds first, in their order, then the others by name.\<close>

definition sort_kinds :: "string list \<Rightarrow> string list" where
  "sort_kinds kinds = sort_key identifierKindOrder (sort kinds)"

datatype 'e resolve_error = RsNoKeys | RsLookup 'e | RsRandom | RsBind 'e

text \<open>The first loop: the seed of the first kind that has one.\<close>

fun find_seed :: "('s \<Rightarrow> string \<Rightarrow> 'e + string option) \<Rightarrow> 's \<Rightarrow> string list \<Rightarrow> 'e + string" where
  "find_seed lookup s [] = Inr ''''"
| "find_seed lookup s (key # keys) =
     (case lookup s key of
        Inl e \<Rightarrow> Inl e
      | Inr (Some existing) \<Rightarrow> Inr existing
      | Inr None \<Rightarrow> find_seed lookup s keys)"

text \<open>The second loop; the flag is \<open>i == 0\<close>. Each kind is offered the seed as it then is.\<close>

fun bind_seeds ::
  "('s \<Rightarrow> string \<Rightarrow> string \<Rightarrow> ('e + string) \<times> 's) \<Rightarrow> bool \<Rightarrow> string \<Rightarrow> 's \<Rightarrow> string list
    \<Rightarrow> ('e + string) \<times> 's" where
  "bind_seeds create first seed s [] = (Inr seed, s)"
| "bind_seeds create first seed s (key # keys) =
     (case create s key seed of
        (Inl e, s') \<Rightarrow> (Inl e, s')
      | (Inr got, s') \<Rightarrow> bind_seeds create False (if first then got else seed) s' keys)"

definition resolveIdentifierSeed ::
  "('s \<Rightarrow> string \<Rightarrow> 'e + string option) \<Rightarrow> ('s \<Rightarrow> string \<Rightarrow> string \<Rightarrow> ('e + string) \<times> 's)
    \<Rightarrow> 's \<Rightarrow> (string \<times> string) list \<Rightarrow> bytes option \<Rightarrow> ('e resolve_error + string) \<times> 's" where
  "resolveIdentifierSeed lookup create s keys rand32 =
     (if length (map fst keys) = 0 then (Inl RsNoKeys, s)
      else
        (let kinds = sort_kinds (map fst keys);
             hashes = map (\<lambda>kind. the (map_of keys kind)) kinds in
         case find_seed lookup s hashes of
           Inl e \<Rightarrow> (Inl (RsLookup e), s)
         | Inr found \<Rightarrow>
             (case (if found = '''' then map_option hex_encode rand32 else Some found) of
                None \<Rightarrow> (Inl RsRandom, s)
              | Some seed \<Rightarrow>
                  (case bind_seeds create True seed s hashes of
                     (Inl e, s') \<Rightarrow> (Inl (RsBind e), s')
                   | (Inr seed', s') \<Rightarrow> (Inr seed', s')))))"

definition NullifierBindingForIdentifierSeed :: "crypto \<Rightarrow> string \<Rightarrow> nullifier_binding option" where
  "NullifierBindingForIdentifierSeed cr seed =
     (if seed = '''' then None
      else Some \<lparr>nb_Commitment = sha256_hex cr (''personhood-nullifier-binding-identifier-v1'' @ seed),
                 nb_Curve = ''bn254'', nb_Scheme = ''pedersen-v1''\<rparr>)"

section \<open>The contract of a seed store\<close>

locale identifier_contract =
  fixes lookup :: "'s \<Rightarrow> string \<Rightarrow> 'e + string option"
    and create :: "'s \<Rightarrow> string \<Rightarrow> string \<Rightarrow> ('e + string) \<times> 's"
    and bound :: "'s \<Rightarrow> string \<Rightarrow> string option"
  assumes lookup_bound: "lookup s key = Inr seen \<Longrightarrow> seen = bound s key"
    and create_bound: "create s key seed = (Inr got, s') \<Longrightarrow>
      bound s' key = Some got \<and> got = (case bound s key of Some old \<Rightarrow> old | None \<Rightarrow> seed)"
    and create_keeps: "create s key seed = (r, s') \<Longrightarrow> bound s k = Some x \<Longrightarrow> bound s' k = Some x"
    and create_only: "create s key seed = (r, s') \<Longrightarrow> bound s' k \<noteq> bound s k \<Longrightarrow> k = key \<and> bound s' k = Some seed"
begin

definition seeded :: "'s \<Rightarrow> bool" where
  "seeded s \<longleftrightarrow> (\<forall>k. bound s k \<noteq> Some '''')"

lemma find_seed_first:
  "find_seed lookup s (key # keys) = Inr found \<Longrightarrow> bound s key = Some x \<Longrightarrow> found = x"
  using lookup_bound [of s key] by (auto split: sum.splits option.splits)

lemma find_seed_nonempty: "seeded s \<Longrightarrow> find_seed lookup s keys = Inr found \<Longrightarrow>
    found = '''' \<or> (\<exists>k \<in> set keys. bound s k = Some found)"
  using lookup_bound
  by (induction keys) (fastforce split: sum.splits option.splits)+

lemma bind_seeds_keeps:
  "bind_seeds create first seed s keys = (r, s') \<Longrightarrow> bound s k = Some x \<Longrightarrow> bound s' k = Some x"
proof (induction keys arbitrary: first seed s)
  case (Cons key keys)
  then show ?case using create_keeps [of s key seed] by (auto split: prod.splits sum.splits)
qed simp

lemma bind_seeds_seeded:
  "bind_seeds create first seed s keys = (r, s') \<Longrightarrow> seeded s \<Longrightarrow> seed \<noteq> '''' \<Longrightarrow> seeded s'"
proof (induction keys arbitrary: first seed s)
  case (Cons key keys)
  obtain got s1 where c: "create s key seed = (got, s1)" by force
  have s1: "seeded s1"
    using Cons.prems(2,3) create_only [OF c] unfolding seeded_def by (metis option.inject)
  show ?case
  proof (cases got)
    case (Inr g)
    then have "g \<noteq> ''''"
      using create_bound [of s key seed g s1] c Cons.prems(2,3)
      by (auto simp: seeded_def split: option.splits)
    then show ?thesis using Cons.IH [of False "if first then g else seed" s1] Cons.prems c Inr s1 by auto
  qed (use Cons.prems c s1 in auto)
qed simp

text \<open>The first key ends up bound to the seed that is returned, and so do all that were free.\<close>

lemma bind_seeds_result:
  assumes "bind_seeds create first seed s keys = (Inr seed', s')"
  shows "(if first \<and> keys \<noteq> [] then bound s' (hd keys) = Some seed' else seed' = seed) \<and>
    (\<forall>k \<in> set keys. bound s k = None \<longrightarrow> (\<exists>x. bound s' k = Some x))"
  using assms
proof (induction keys arbitrary: first seed s)
  case (Cons key keys)
  then obtain got s1 where c: "create s key seed = (Inr got, s1)"
    and r: "bind_seeds create False (if first then got else seed) s1 keys = (Inr seed', s')"
    by (auto split: prod.splits sum.splits)
  have b: "bound s1 key = Some got" using create_bound [OF c] by simp
  have "\<exists>x. bound s' k = Some x" if "k \<in> set (key # keys)" for k
    using that Cons.IH [OF r] bind_seeds_keeps [OF r] b by (cases "bound s1 k") auto
  then show ?case
    using Cons.IH [OF r] bind_seeds_keeps [OF r b] by auto
qed simp

lemma resolve_keeps:
  "resolveIdentifierSeed lookup create s keys rnd = (r, s') \<Longrightarrow> bound s k = Some x \<Longrightarrow> bound s' k = Some x"
  using bind_seeds_keeps
  by (fastforce simp: resolveIdentifierSeed_def Let_def split: if_splits sum.splits option.splits prod.splits)

lemma resolve_seeded:
  assumes "resolveIdentifierSeed lookup create s keys rnd = (r, s')" "seeded s" "\<forall>b. rnd = Some b \<longrightarrow> b \<noteq> []"
  shows "seeded s'"
  using assms bind_seeds_seeded
  by (fastforce simp: resolveIdentifierSeed_def Let_def split: if_splits sum.splits option.splits prod.splits)

text \<open>The key that decides: that of the first kind.\<close>

definition leading :: "(string \<times> string) list \<Rightarrow> string" where
  "leading keys = the (map_of keys (hd (sort_kinds (map fst keys))))"

lemma sort_kinds_Nil [simp]: "sort_kinds ks = [] \<longleftrightarrow> ks = []"
  by (metis sort_kinds_def length_0_conv length_sort)

lemma resolve_binds_leading:
  assumes "resolveIdentifierSeed lookup create s keys rnd = (Inr seed, s')"
  shows "bound s' (leading keys) = Some seed"
proof -
  define hashes where "hashes = map (\<lambda>kind. the (map_of keys kind)) (sort_kinds (map fst keys))"
  from assms obtain seed0 where b: "bind_seeds create True seed0 s hashes = (Inr seed, s')" "keys \<noteq> []"
    unfolding hashes_def
    by (auto simp: resolveIdentifierSeed_def Let_def split: if_splits sum.splits option.splits prod.splits)
  then have "hashes \<noteq> []" "hd hashes = leading keys"
    by (auto simp: hashes_def leading_def hd_map)
  then show ?thesis using bind_seeds_result [OF b(1)] by simp
qed

text \<open>A bound leading key decides the seed.\<close>

lemma resolve_finds_leading:
  assumes "resolveIdentifierSeed lookup create s keys rnd = (Inr seed, s')"
    and "bound s (leading keys) = Some x"
  shows "seed = x"
  using resolve_binds_leading [OF assms(1)] resolve_keeps [OF assms] by simp

fun resolve_all :: "'s \<Rightarrow> ((string \<times> string) list \<times> bytes option) list \<Rightarrow> 's" where
  "resolve_all s [] = s"
| "resolve_all s ((keys, rnd) # rest) = resolve_all (snd (resolveIdentifierSeed lookup create s keys rnd)) rest"

lemma resolve_all_keeps: "bound s k = Some x \<Longrightarrow> bound (resolve_all s rest) k = Some x"
proof (induction rest arbitrary: s)
  case (Cons kr rest)
  then show ?case using resolve_keeps by (cases kr) (simp, metis prod.collapse)
qed simp

text \<open>The same leading identifier gets the same seed for ever, whoever enrolls in between.\<close>

lemma resolve_stable:
  assumes "resolveIdentifierSeed lookup create s keys rnd = (Inr seed, s1)"
    and "resolveIdentifierSeed lookup create (resolve_all s1 others) keys' rnd' = (Inr seed', s2)"
    and "leading keys' = leading keys"
  shows "seed' = seed"
  using resolve_finds_leading [OF assms(2)] resolve_all_keeps [OF resolve_binds_leading [OF assms(1)]]
    assms(3) by simp

end

interpretation mem_ids: identifier_contract
  "identifier_Lookup :: identifier_store \<Rightarrow> string \<Rightarrow> unit + string option"
  "identifier_GetOrCreate :: identifier_store \<Rightarrow> string \<Rightarrow> string \<Rightarrow> (unit + string) \<times> identifier_store"
  ids_seeds
proof
  fix s key and r :: "string option" assume "identifier_Lookup s key = (Inr r :: unit + _)"
  then show "r = ids_seeds s key" by (simp add: identifier_Lookup_def)
next
  fix s key seed got s' assume "identifier_GetOrCreate s key seed = ((Inr got :: unit + _), s')"
  then show "ids_seeds s' key = Some got \<and> got = (case ids_seeds s key of Some old \<Rightarrow> old | None \<Rightarrow> seed)"
    by (auto simp: identifier_GetOrCreate_def split: option.splits)
next
  fix s key seed and r :: "unit + string" and s' k x
  assume "identifier_GetOrCreate s key seed = (r, s')" "ids_seeds s k = Some x"
  then show "ids_seeds s' k = Some x"
    by (auto simp: identifier_GetOrCreate_def split: option.splits)
next
  fix s key seed and r :: "unit + string" and s' k
  assume "identifier_GetOrCreate s key seed = (r, s')" "ids_seeds s' k \<noteq> ids_seeds s k"
  then show "k = key \<and> ids_seeds s' k = Some seed"
    by (auto simp: identifier_GetOrCreate_def split: option.splits if_splits)
qed

section \<open>Mailboxes\<close>

text \<open>What a plain address \<open>l@d\<close> stands for: the mailbox it delivers to.\<close>

definition mailbox :: "string \<Rightarrow> string \<Rightarrow> string \<times> string" where
  "mailbox l d =
     (let l1 = takeWhile (\<lambda>c. c \<noteq> CHR ''+'') (to_lower l); d1 = to_lower d in
      if d1 = ''gmail.com'' \<or> d1 = ''googlemail.com''
      then (filter (\<lambda>c. c \<noteq> CHR ''.'') l1, ''gmail.com'') else (l1, d1))"

definition plain_address :: "string \<Rightarrow> string \<Rightarrow> bool" where
  "plain_address l d \<longleftrightarrow> printable l \<and> printable d \<and> CHR ''@'' \<notin> set d \<and> d \<noteq> [] \<and> last d \<noteq> CHR ''.'' \<and>
     fst (mailbox l d) \<noteq> []"

lemma byte_of_lower: "byte_of (lower_char c) = (if 65 \<le> byte_of c \<and> byte_of c \<le> 90 then byte_of c + 32 else byte_of c)"
  by (simp add: lower_char_def)

lemma lower_char_fixed:
  assumes "\<not> (65 \<le> byte_of x \<and> byte_of x \<le> 90)" "\<not> (97 \<le> byte_of x \<and> byte_of x \<le> 122)"
  shows "lower_char c = x \<longleftrightarrow> c = x"
  using assms byte_of_lower [of c] by (auto simp: lower_char_def split: if_splits)

lemma lower_char_marks [simp]:
  "lower_char c = CHR ''@'' \<longleftrightarrow> c = CHR ''@''" "lower_char c = CHR ''.'' \<longleftrightarrow> c = CHR ''.''"
  "CHR ''@'' = lower_char c \<longleftrightarrow> CHR ''@'' = c"
  using lower_char_fixed [of "CHR ''@''" c] lower_char_fixed [of "CHR ''.''" c] by auto

lemma lower_char_at [simp]: "lower_char (CHR ''@'') = CHR ''@''"
  by simp

lemma to_lower_append [simp]: "to_lower (a @ b) = to_lower a @ to_lower b"
  by (simp add: to_lower_def)

lemma to_lower_Cons [simp]: "to_lower (c # s) = lower_char c # to_lower s"
  by (simp add: to_lower_def)

lemma to_lower_Nil [simp]: "to_lower s = [] \<longleftrightarrow> s = []" "to_lower [] = []"
  by (simp_all add: to_lower_def)

lemma to_lower_printable: "printable s \<Longrightarrow> printable (to_lower s)"
  by (auto simp: printable_def to_lower_def list_all_iff byte_of_lower)

lemma to_lower_mem: "CHR ''@'' \<in> set (to_lower s) \<longleftrightarrow> CHR ''@'' \<in> set s"
  by (induction s) auto

lemma index_byte_append: "c \<notin> set xs \<Longrightarrow> index_byte (xs @ c # ys) c = Some (length xs)"
  by (induction xs) auto

lemma last_index_append: "c \<notin> set ys \<Longrightarrow> last_index (xs @ c # ys) c = Some (length xs)"
  by (simp add: last_index_def index_byte_append)

lemma index_byte_takeWhile:
  "(case index_byte s c of Some i \<Rightarrow> take i s | None \<Rightarrow> s) = takeWhile (\<lambda>x. x \<noteq> c) s"
  by (induction s) (auto split: option.splits)

lemma printable_no_space: "printable s \<Longrightarrow> \<not> contains_any s ('' '' @ [byte 9, byte 13, byte 10])"
  by (auto simp: printable_def list_all_iff contains_any_def list_ex_iff dest!: bspec)

lemma trim_suffix_dot: "d \<noteq> [] \<Longrightarrow> last d \<noteq> CHR ''.'' \<Longrightarrow> trim_suffix d ''.'' = d"
  by (cases d rule: rev_cases) (auto simp: trim_suffix_def has_suffix_def has_prefix_def)

lemma NormalizeEmail_mailbox:
  assumes "plain_address l d"
  shows "NormalizeEmail (l @ CHR ''@'' # d) = Inr (fst (mailbox l d) @ CHR ''@'' # snd (mailbox l d))"
proof -
  let ?l = "to_lower l" and ?d = "to_lower d"
  have p: "printable (l @ CHR ''@'' # d)" using assms by (simp add: plain_address_def printable_def)
  have s: "to_lower (trim_space (l @ CHR ''@'' # d)) = ?l @ CHR ''@'' # ?d" using p by simp
  have li: "last_index (?l @ CHR ''@'' # ?d) (CHR ''@'') = Some (length ?l)"
    using assms by (intro last_index_append) (simp add: plain_address_def to_lower_mem)
  have sp: "\<not> contains_any (?l @ CHR ''@'' # ?d) ('' '' @ [byte 9, byte 13, byte 10])"
    using printable_no_space [OF to_lower_printable [OF p]] by simp
  have ne: "?d \<noteq> []" "l \<noteq> []"
    using assms by (auto simp: plain_address_def mailbox_def Let_def split: if_splits)
  have td: "trim_suffix ?d ''.'' = ?d"
    using assms by (intro trim_suffix_dot) (simp_all add: plain_address_def to_lower_def last_map)
  have tk: "take (length ?l) (?l @ CHR ''@'' # ?d) = ?l" and dp: "drop (length ?l + 1) (?l @ CHR ''@'' # ?d) = ?d"
    by simp_all
  show ?thesis
    using assms ne sp
    unfolding NormalizeEmail_def s Let_def li option.case tk dp td index_byte_takeWhile
    by (simp add: mailbox_def Let_def gmailDomains_def remove_byte_def plain_address_def split: if_splits) auto
qed

lemma mailbox_no_at: "plain_address l d \<Longrightarrow> CHR ''@'' \<notin> set (snd (mailbox l d))"
  by (simp add: plain_address_def mailbox_def Let_def to_lower_mem)

lemma separator_inj_last:
  assumes "x \<notin> set b" "x \<notin> set b'"
  shows "a @ x # b = a' @ x # b' \<longleftrightarrow> a = a' \<and> b = b'"
proof -
  have "a @ x # b = a' @ x # b' \<longleftrightarrow> rev (a @ x # b) = rev (a' @ x # b')" by (simp only: rev_is_rev_conv)
  also have "\<dots> \<longleftrightarrow> rev b @ x # rev a = rev b' @ x # rev a'" by simp
  also have "\<dots> \<longleftrightarrow> rev b = rev b' \<and> rev a = rev a'" using assms by (intro separator_inj) auto
  finally show ?thesis by auto
qed

section \<open>Phone numbers\<close>

lemma NormalizePhone_shape:
  assumes "NormalizePhoneE164 raw = Inr s"
  shows "\<exists>ds. s = CHR ''+'' # ds \<and> digits_text ds \<and> 7 \<le> length ds \<and> length ds \<le> 15 \<and> hd ds \<noteq> CHR ''0''"
proof -
  have s: "has_prefix s ''+''" "\<not> (length (drop 1 s) < 7 \<or> length (drop 1 s) > 15 \<or> drop 1 s ! 0 = CHR ''0'')"
    "digits_text (drop 1 s)"
    using assms by (auto simp: NormalizePhoneE164_def Let_def split: if_splits)
  then obtain ds where ds: "s = CHR ''+'' # ds" by (cases s) (auto simp: has_prefix_def)
  then have "hd ds \<noteq> CHR ''0''" using s(2) by (cases ds) auto
  then show ?thesis using s ds by auto
qed

lemma drop_separators_id:
  "\<forall>c \<in> set s. c = CHR ''+'' \<or> 48 \<le> byte_of c \<and> byte_of c \<le> 57 \<Longrightarrow> drop_separators s = s"
proof (induction s)
  case (Cons a s)
  have "a = CHR ''+'' \<or> 48 \<le> byte_of a \<and> byte_of a \<le> 57" using Cons.prems by simp
  then have "byte_of a = 43 \<or> 48 \<le> byte_of a \<and> byte_of a \<le> 57" by (elim disjE) simp_all
  then have h: "byte_of a \<notin> {32, 45, 46, 40, 41, 194}" by (elim disjE) simp_all
  have "byte_of (CHR '' '') = 32" "byte_of (CHR ''-'') = 45" "byte_of (CHR ''.'') = 46"
    "byte_of (CHR ''('') = 40" "byte_of (CHR '')'') = 41" "byte_of (byte 0xC2) = 194"
    by simp_all
  then have "a \<notin> set '' -.()''" "a \<noteq> byte 0xC2" using h by (metis insertCI empty_iff insert_iff list.set)+
  then show ?case using Cons.IH Cons.prems by simp
qed simp

lemma NormalizePhone_idem:
  assumes "NormalizePhoneE164 raw = Inr s"
  shows "NormalizePhoneE164 s = Inr s"
proof -
  obtain ds where d: "s = CHR ''+'' # ds" "digits_text ds" "7 \<le> length ds" "length ds \<le> 15" "hd ds \<noteq> CHR ''0''"
    using NormalizePhone_shape [OF assms] by blast
  have "list_all (\<lambda>c. 33 \<le> byte_of c \<and> byte_of c < 127) ds"
    using d(2) unfolding digits_text_def by (rule list.pred_mono_strong) simp
  then have "printable s" using d(1) by (simp add: printable_def)
  moreover have "drop_separators s = s"
    using d by (intro drop_separators_id) (auto simp: digits_text_def list_all_iff)
  moreover have "ds ! 0 \<noteq> CHR ''0''" using d by (cases ds) auto
  ultimately show ?thesis
    using d by (simp add: NormalizePhoneE164_def has_prefix_def)
qed

section \<open>Properties\<close>

text \<open>\<open>NormalizeEmail\<close> identifies an inbox: on plain addresses two spellings get the same
  identifier exactly when they deliver to the same mailbox, so variants by case, \<open>+tag\<close> and Gmail
  dots count once and different mailboxes are never merged.\<close>

theorem normalize_email_identifies_mailbox:
  assumes "plain_address l d" "plain_address l' d'"
  shows "NormalizeEmail (l @ ''@'' @ d) = NormalizeEmail (l' @ ''@'' @ d') \<longleftrightarrow> mailbox l d = mailbox l' d'"
  using assms separator_inj_last [OF mailbox_no_at mailbox_no_at, OF assms, of "fst (mailbox l d)" "fst (mailbox l' d')"]
  by (simp add: NormalizeEmail_mailbox prod_eq_iff)

lemma sample_address:
  "plain_address ''A.lice+x'' ''GoogleMail.com'' \<and> plain_address ''alice'' ''gmail.com''"
  by (simp add: plain_address_def printable_def mailbox_def to_lower_def lower_char_def go_string)

theorem normalize_email_identifies_mailbox_witness:
  "NormalizeEmail ''A.lice+x@GoogleMail.com'' = NormalizeEmail ''alice@gmail.com''"
  using normalize_email_identifies_mailbox [of "''A.lice+x''" "''GoogleMail.com''" "''alice''" "''gmail.com''"]
    sample_address
  by (simp add: mailbox_def to_lower_def lower_char_def go_string)

text \<open>The in-memory store never fails: its error type is \<open>unit\<close>.\<close>

definition resolve_in_memory ::
  "identifier_store \<Rightarrow> (string \<times> string) list \<Rightarrow> bytes option \<Rightarrow> (unit resolve_error + string) \<times> identifier_store"
  where
  "resolve_in_memory s keys rnd = resolveIdentifierSeed identifier_Lookup identifier_GetOrCreate s keys rnd"

fun resolve_others ::
  "identifier_store \<Rightarrow> ((string \<times> string) list \<times> bytes option) list \<Rightarrow> identifier_store" where
  "resolve_others s [] = s"
| "resolve_others s ((keys, rnd) # rest) = resolve_others (snd (resolve_in_memory s keys rnd)) rest"

lemma resolve_others_all: "resolve_others s rest = mem_ids.resolve_all s rest"
  by (induction s rest rule: resolve_others.induct) (simp_all add: resolve_in_memory_def)

definition leading_identifier :: "(string \<times> string) list \<Rightarrow> string" where
  "leading_identifier keys = the (map_of keys (hd (sort_kinds (map fst keys))))"

text \<open>C30: One inbox or phone, one person: once an enrollment resolved a seed, every later enrollment
  whose leading identifier (document before phone before e-mail) is the same gets the same seed and
  the same nullifier binding, whatever enrollments happened in between and whatever random bytes
  were drawn.\<close>

theorem same_identifier_same_seed:
  assumes "resolve_in_memory s keys rnd = (Inr seed, s1)"
    and "resolve_in_memory (resolve_others s1 others) keys' rnd' = (Inr seed', s2)"
    and "leading_identifier keys' = leading_identifier keys"
  shows "seed' = seed
    \<and> NullifierBindingForIdentifierSeed cr seed' = NullifierBindingForIdentifierSeed cr seed"
proof -
  have "mem_ids.leading ks = leading_identifier ks" for ks
    by (simp add: mem_ids.leading_def leading_identifier_def)
  then have "seed' = seed"
    using mem_ids.resolve_stable [of s keys rnd seed s1 others keys' rnd' seed' s2] assms
    by (simp add: resolve_in_memory_def resolve_others_all)
  then show ?thesis by simp
qed

lemma sort_kinds_pair: "sort_kinds [''email'', ''phone''] = [''phone'', ''email'']"
  by (simp add: sort_kinds_def identifierKindOrder_def)

theorem same_identifier_same_seed_witness:
  "\<exists>s1 s2. resolve_in_memory NewInMemoryIdentifierStore [(''email'', ''h1''), (''phone'', ''h2'')] (Some ''a'') = (Inr ''61'', s1)
    \<and> resolve_in_memory (resolve_others s1 [([(''email'', ''h3'')], Some ''b'')]) [(''phone'', ''h2'')] (Some ''c'') = (Inr ''61'', s2)"
proof -
  define s1 where "s1 = \<lparr>ids_seeds = [''h2'' \<mapsto> ''61'', ''h1'' \<mapsto> ''61'']\<rparr>"
  have r1: "resolve_in_memory NewInMemoryIdentifierStore [(''email'', ''h1''), (''phone'', ''h2'')] (Some ''a'') = (Inr ''61'', s1)"
    by (simp add: resolve_in_memory_def resolveIdentifierSeed_def sort_kinds_pair Let_def identifier_Lookup_def
        identifier_GetOrCreate_def NewInMemoryIdentifierStore_def s1_def hex_encode_def hex_digit_def)
  obtain seed s2 where r2: "resolve_in_memory (resolve_others s1 [([(''email'', ''h3'')], Some ''b'')])
      [(''phone'', ''h2'')] (Some ''c'') = (Inr seed, s2)"
    by (simp add: resolve_in_memory_def resolveIdentifierSeed_def sort_kinds_def Let_def identifier_Lookup_def
        identifier_GetOrCreate_def s1_def hex_encode_def hex_digit_def)
  have "seed = ''61''"
    using same_identifier_same_seed [OF r1 r2]
    by (simp add: leading_identifier_def sort_kinds_pair) (simp add: sort_kinds_def)
  then show ?thesis using r1 r2 by blast
qed

text \<open>C38: A normalized phone number is a plus sign and 7 to 15 digits without a leading zero, and
  normalizing it again changes nothing.\<close>

theorem normalized_phone_canonical:
  assumes "NormalizePhoneE164 raw = Inr s"
  shows "\<exists>ds. s = ''+'' @ ds \<and> digits_text ds \<and> 7 \<le> length ds \<and> length ds \<le> 15
    \<and> hd ds \<noteq> CHR ''0'' \<and> NormalizePhoneE164 s = Inr s"
  using NormalizePhone_shape [OF assms] NormalizePhone_idem [OF assms] by auto

theorem normalized_phone_canonical_witness:
  "NormalizePhoneE164 ''00 1 (317) 555-0100'' = Inr ''+13175550100'' \<and> NormalizePhoneE164 ''+13175550100'' = Inr ''+13175550100''"
proof -
  have t: "trim_space ''00 1 (317) 555-0100'' = ''00 1 (317) 555-0100''"
    by (simp add: trim_space_def trim_left_def go_spaces_def has_prefix_def go_string)
  have "NormalizePhoneE164 ''00 1 (317) 555-0100'' = Inr ''+13175550100''"
    unfolding NormalizePhoneE164_def t
    by (simp add: Let_def has_prefix_def digits_text_def go_string)
  then show ?thesis using normalized_phone_canonical by blast
qed

end
