(* ===== verification/Vouch_Store.thy ===== *)
theory Vouch_Store
  imports Equivocation
begin

text \<open>
  The two stores of the vouching methods, \<open>src/methods/social-vouching/graph.go\<close> and
  \<open>inperson_store.go\<close>, with their in-memory implementations. A float64 is a real number. The inner Go
  maps the code ranges over are association lists, a nil inner map is \<open>None\<close>, and a DID without a record
  has the zero record. What \<open>InPersonStore\<close>'s comments promise is the locale \<open>voucher_contract\<close>.
\<close>

section \<open>The trust graph\<close>

record vouch =
  vo_VoucherID :: string
  vo_Weight :: real
  vo_At :: time

record graph_store =
  gs_trust :: "string \<rightharpoonup> real"
  gs_vouches :: "string \<rightharpoonup> (string \<times> vouch) list"

definition NewInMemoryGraphStore :: "(string \<rightharpoonup> real) \<Rightarrow> graph_store" where
  "NewInMemoryGraphStore seeds = \<lparr>gs_trust = seeds, gs_vouches = Map.empty\<rparr>"

definition graph_TrustOf :: "graph_store \<Rightarrow> string \<Rightarrow> real option" where
  "graph_TrustOf g member = gs_trust g member"

definition entries :: "('k \<rightharpoonup> ('v \<times> 'w) list) \<Rightarrow> 'k \<Rightarrow> ('v \<times> 'w) list" where
  "entries m k = (case m k of None \<Rightarrow> [] | Some xs \<Rightarrow> xs)"

definition graph_RecordVouch :: "graph_store \<Rightarrow> string \<Rightarrow> vouch \<Rightarrow> graph_store" where
  "graph_RecordVouch g candidate v =
     g\<lparr>gs_vouches := (gs_vouches g)(candidate \<mapsto>
        alist_put (vo_VoucherID v) v (entries (gs_vouches g) candidate))\<rparr>"

definition graph_VouchesFor :: "graph_store \<Rightarrow> string \<Rightarrow> vouch list" where
  "graph_VouchesFor g candidate = map snd (entries (gs_vouches g) candidate)"

definition graph_Enroll :: "graph_store \<Rightarrow> string \<Rightarrow> real \<Rightarrow> graph_store" where
  "graph_Enroll g member trust = g\<lparr>gs_trust := (gs_trust g)(member \<mapsto> trust)\<rparr>"

definition graph_Remove :: "graph_store \<Rightarrow> string \<Rightarrow> graph_store" where
  "graph_Remove g member =
     g\<lparr>gs_trust := (gs_trust g)(member := None), gs_vouches := (gs_vouches g)(member := None)\<rparr>"

section \<open>Offers and voucher records\<close>

datatype offer_state = OfferOpen | OfferAccepted | OfferConfirmed | OfferBurned

fun offer_state_string :: "offer_state \<Rightarrow> string" where
  "offer_state_string OfferOpen = ''open''"
| "offer_state_string OfferAccepted = ''accepted''"
| "offer_state_string OfferConfirmed = ''confirmed''"
| "offer_state_string OfferBurned = ''burned''"

record offer =
  of_Code :: string
  of_VoucherDID :: string
  of_VoucherPub :: bytes
  of_VoucherAnchored :: bool
  of_VoucherWeight :: real
  of_OfferIP :: string
  of_CreatedAt :: time
  of_ExpiresAt :: time
  of_State :: offer_state
  of_CandidateDID :: string
  of_AcceptedAt :: time
  of_AcceptIP :: string
  of_ReturnCode :: string
  of_ReturnExpiry :: time
  of_BadAttempts :: int

record inperson_vouch =
  iv_CandidateDID :: string
  iv_VoucherDID :: string
  iv_VoucherAnchored :: bool
  iv_Weight :: real
  iv_At :: time
  iv_RoundTrip :: duration
  iv_SameNetwork :: bool

record voucher_record =
  vr_VouchTimes :: "time list"
  vr_Strikes :: int
  vr_SuspendedUntil :: time
  vr_Revoked :: bool
  vr_PenalizedVouchers :: "string list"

definition zero_record :: voucher_record where
  "zero_record = \<lparr>vr_VouchTimes = [], vr_Strikes = 0, vr_SuspendedUntil = 0, vr_Revoked = False,
     vr_PenalizedVouchers = []\<rparr>"

datatype inperson_error =
    ErrVoucherSuspended | ErrVoucherRevoked | ErrQuotaExhausted | ErrAlreadyVouched
  | ErrCandidateRevoked | ErrOfferNotFound | ErrOfferCollision

record inperson_store =
  ip_offers :: "string \<rightharpoonup> offer"
  ip_vouches :: "string \<rightharpoonup> (string \<times> inperson_vouch) list"
  ip_vouchers :: "string \<rightharpoonup> voucher_record"

definition NewInMemoryInPersonStore :: inperson_store where
  "NewInMemoryInPersonStore = \<lparr>ip_offers = Map.empty, ip_vouches = Map.empty, ip_vouchers = Map.empty\<rparr>"

section \<open>Offers\<close>

definition offer_end :: "offer \<Rightarrow> time" where
  "offer_end o1 = (if of_ReturnExpiry o1 > of_ExpiresAt o1 then of_ReturnExpiry o1 else of_ExpiresAt o1)"

definition gcOffers :: "inperson_store \<Rightarrow> time \<Rightarrow> inperson_store" where
  "gcOffers s now = s\<lparr>ip_offers := (\<lambda>code. case ip_offers s code of
      None \<Rightarrow> None
    | Some o1 \<Rightarrow> if sub_time now (offer_end o1) > ns_hour then None else Some o1)\<rparr>"

definition inperson_PutOffer :: "inperson_store \<Rightarrow> offer \<Rightarrow> inperson_error option \<times> inperson_store" where
  "inperson_PutOffer s0 o1 =
     (let s = gcOffers s0 (of_CreatedAt o1) in
      case ip_offers s (of_Code o1) of
        Some _ \<Rightarrow> (Some ErrOfferCollision, s)
      | None \<Rightarrow> (None, s\<lparr>ip_offers := (ip_offers s)(of_Code o1 \<mapsto> o1)\<rparr>))"

definition inperson_GetOffer :: "inperson_store \<Rightarrow> string \<Rightarrow> inperson_error + offer" where
  "inperson_GetOffer s code = (case ip_offers s code of None \<Rightarrow> Inl ErrOfferNotFound | Some o1 \<Rightarrow> Inr o1)"

text \<open>The callback \<open>fn\<close> fails with an error of its own or returns the changed offer.\<close>

datatype 'e update_error = NoOffer inperson_error | FnError 'e

definition inperson_UpdateOffer ::
  "inperson_store \<Rightarrow> string \<Rightarrow> (offer \<Rightarrow> 'e + offer) \<Rightarrow> ('e update_error + offer) \<times> inperson_store" where
  "inperson_UpdateOffer s code fn =
     (case ip_offers s code of
        None \<Rightarrow> (Inl (NoOffer ErrOfferNotFound), s)
      | Some o1 \<Rightarrow> (case fn o1 of
            Inl e \<Rightarrow> (Inl (FnError e), s)
          | Inr o2 \<Rightarrow> (Inr o2, s\<lparr>ip_offers := (ip_offers s)(code \<mapsto> o2)\<rparr>)))"

section \<open>Vouches and standing\<close>

definition inperson_Voucher :: "inperson_store \<Rightarrow> string \<Rightarrow> voucher_record" where
  "inperson_Voucher s d = (case ip_vouchers s d of None \<Rightarrow> zero_record | Some r \<Rightarrow> r)"

definition set_record :: "string \<Rightarrow> voucher_record \<Rightarrow> inperson_store \<Rightarrow> inperson_store" where
  "set_record d r s = s\<lparr>ip_vouchers := (ip_vouchers s)(d \<mapsto> r)\<rparr>"

definition inperson_CommitVouch ::
  "inperson_store \<Rightarrow> inperson_vouch \<Rightarrow> int \<Rightarrow> duration \<Rightarrow> inperson_error option \<times> inperson_store" where
  "inperson_CommitVouch s v maxPerPeriod period =
     (if vr_Revoked (inperson_Voucher s (iv_CandidateDID v)) then (Some ErrCandidateRevoked, s)
      else
        (let r = inperson_Voucher s (iv_VoucherDID v) in
         if vr_Revoked r then (Some ErrVoucherRevoked, s)
         else if iv_At v < vr_SuspendedUntil r then (Some ErrVoucherSuspended, s)
         else if map_of (entries (ip_vouches s) (iv_CandidateDID v)) (iv_VoucherDID v) \<noteq> None
         then (Some ErrAlreadyVouched, s)
         else
           (let kept = filter (\<lambda>t. sub_time (iv_At v) t < period) (vr_VouchTimes r) in
            if int (length kept) \<ge> maxPerPeriod then (Some ErrQuotaExhausted, s)
            else
              (let s1 = set_record (iv_VoucherDID v) (r\<lparr>vr_VouchTimes := kept @ [iv_At v]\<rparr>) s in
               (None, s1\<lparr>ip_vouches := (ip_vouches s1)(iv_CandidateDID v \<mapsto>
                  alist_put (iv_VoucherDID v) v (entries (ip_vouches s1) (iv_CandidateDID v)))\<rparr>)))))"

definition inperson_VouchesFor :: "inperson_store \<Rightarrow> string \<Rightarrow> inperson_vouch list" where
  "inperson_VouchesFor s candidate = map snd (entries (ip_vouches s) candidate)"

text \<open>
  The loop of \<open>Penalize\<close>: one strike each, in the order given, the candidate itself skipped. The
  suspension is an \<open>int64\<close> product. The second component collects \<open>c.PenalizedVouchers\<close>, the third the
  strikes reported.
\<close>

definition strike :: "time \<Rightarrow> duration \<Rightarrow> voucher_record \<Rightarrow> voucher_record" where
  "strike now suspendFor r =
     (let n = vr_Strikes r + 1;
          suspended = now + wrap64 (suspendFor * n) in
      r\<lparr>vr_Strikes := n,
        vr_SuspendedUntil := (if suspended > vr_SuspendedUntil r then suspended else vr_SuspendedUntil r)\<rparr>)"

fun penalize_loop ::
  "string \<Rightarrow> time \<Rightarrow> duration \<Rightarrow> inperson_store \<Rightarrow> string list \<Rightarrow> (string \<times> int) list \<Rightarrow> string list
    \<Rightarrow> inperson_store \<times> string list \<times> (string \<times> int) list" where
  "penalize_loop candidate now suspendFor s penalized strikes [] = (s, penalized, strikes)"
| "penalize_loop candidate now suspendFor s penalized strikes (d # ds) =
     (if d = candidate then penalize_loop candidate now suspendFor s penalized strikes ds
      else
        (let r = strike now suspendFor (inperson_Voucher s d) in
         penalize_loop candidate now suspendFor (set_record d r s) (penalized @ [d])
           (alist_put d (vr_Strikes r) strikes) ds))"

text \<open>\<open>None\<close> is the nil map of a repeated report.\<close>

definition inperson_Penalize ::
  "inperson_store \<Rightarrow> string \<Rightarrow> string list \<Rightarrow> time \<Rightarrow> duration \<Rightarrow> (string \<times> int) list option \<times> inperson_store" where
  "inperson_Penalize s candidate vouchers now suspendFor =
     (let c = inperson_Voucher s candidate in
      if vr_Revoked c then (None, s)
      else (case penalize_loop candidate now suspendFor s (vr_PenalizedVouchers c) [] vouchers of
          (s1, penalized, strikes) \<Rightarrow>
            (Some strikes,
             set_record candidate (c\<lparr>vr_Revoked := True, vr_PenalizedVouchers := penalized\<rparr>) s1)))"

definition unstrike :: "voucher_record \<Rightarrow> voucher_record" where
  "unstrike r =
     (let n = (if vr_Strikes r > 0 then vr_Strikes r - 1 else vr_Strikes r) in
      r\<lparr>vr_Strikes := n, vr_SuspendedUntil := (if n = 0 then 0 else vr_SuspendedUntil r)\<rparr>)"

fun reinstate_loop ::
  "inperson_store \<Rightarrow> (string \<times> int) list \<Rightarrow> string list \<Rightarrow> inperson_store \<times> (string \<times> int) list" where
  "reinstate_loop s strikes [] = (s, strikes)"
| "reinstate_loop s strikes (d # ds) =
     (let r = unstrike (inperson_Voucher s d) in
      reinstate_loop (set_record d r s) (alist_put d (vr_Strikes r) strikes) ds)"

definition inperson_Reinstate ::
  "inperson_store \<Rightarrow> string \<Rightarrow> (string \<times> int) list option \<times> inperson_store" where
  "inperson_Reinstate s candidate =
     (let c = inperson_Voucher s candidate in
      if \<not> vr_Revoked c then (None, s)
      else (case reinstate_loop s [] (vr_PenalizedVouchers c) of
          (s1, strikes) \<Rightarrow>
            (Some strikes,
             set_record candidate (c\<lparr>vr_Revoked := False, vr_PenalizedVouchers := []\<rparr>) s1)))"

section \<open>Offer states in order\<close>

text \<open>An offer only moves up this order; \<open>OfferBurned\<close> ends it from any state.\<close>

fun offer_rank :: "offer_state \<Rightarrow> nat" where
  "offer_rank OfferOpen = 0"
| "offer_rank OfferAccepted = 1"
| "offer_rank OfferConfirmed = 2"
| "offer_rank OfferBurned = 3"

lemma offer_rank_inj [simp]: "offer_rank a = offer_rank b \<longleftrightarrow> a = b"
  by (cases a; cases b) auto

instantiation offer_state :: linorder
begin

definition less_eq_offer_state :: "offer_state \<Rightarrow> offer_state \<Rightarrow> bool" where
  "less_eq_offer_state a b \<longleftrightarrow> offer_rank a \<le> offer_rank b"

definition less_offer_state :: "offer_state \<Rightarrow> offer_state \<Rightarrow> bool" where
  "less_offer_state a b \<longleftrightarrow> offer_rank a < offer_rank b"

instance
  by standard (auto simp: less_eq_offer_state_def less_offer_state_def)

end

lemmas offer_order = less_eq_offer_state_def less_offer_state_def

section \<open>What the operations change\<close>

lemma entries_upd [simp]: "entries (m(k \<mapsto> xs)) j = (if j = k then xs else entries m j)"
  by (simp add: entries_def)

lemma entries_del [simp]: "entries (m(k := None)) j = (if j = k then [] else entries m j)"
  by (simp add: entries_def)

lemma set_record_simps [simp]:
  "inperson_Voucher (set_record d r s) e = (if e = d then r else inperson_Voucher s e)"
  "ip_offers (set_record d r s) = ip_offers s"
  "ip_vouches (set_record d r s) = ip_vouches s"
  by (simp_all add: set_record_def inperson_Voucher_def)

lemma inperson_Voucher_vouches [simp]: "inperson_Voucher (s\<lparr>ip_vouches := vs\<rparr>) = inperson_Voucher s"
  by (simp add: inperson_Voucher_def fun_eq_iff)

lemma inperson_Voucher_offers [simp]: "inperson_Voucher (s\<lparr>ip_offers := os\<rparr>) = inperson_Voucher s"
  by (simp add: inperson_Voucher_def fun_eq_iff)

lemma strike_simps [simp]:
  "vr_Strikes (strike now f r) = vr_Strikes r + 1" "vr_Revoked (strike now f r) = vr_Revoked r"
  "vr_VouchTimes (strike now f r) = vr_VouchTimes r"
  "vr_PenalizedVouchers (strike now f r) = vr_PenalizedVouchers r"
  by (simp_all add: strike_def Let_def)

lemma unstrike_simps [simp]:
  "vr_Strikes (unstrike r) = (if vr_Strikes r > 0 then vr_Strikes r - 1 else vr_Strikes r)"
  "vr_Revoked (unstrike r) = vr_Revoked r" "vr_VouchTimes (unstrike r) = vr_VouchTimes r"
  "vr_PenalizedVouchers (unstrike r) = vr_PenalizedVouchers r"
  by (simp_all add: unstrike_def Let_def)

lemma strike_iter [simp]:
  "vr_Strikes ((strike now f ^^ n) r) = vr_Strikes r + int n" "vr_Revoked ((strike now f ^^ n) r) = vr_Revoked r"
  "vr_VouchTimes ((strike now f ^^ n) r) = vr_VouchTimes r"
  "vr_PenalizedVouchers ((strike now f ^^ n) r) = vr_PenalizedVouchers r"
  by (induction n) auto

lemma unstrike_iter [simp]:
  "vr_Revoked ((unstrike ^^ n) r) = vr_Revoked r" "vr_VouchTimes ((unstrike ^^ n) r) = vr_VouchTimes r"
  "vr_PenalizedVouchers ((unstrike ^^ n) r) = vr_PenalizedVouchers r"
  by (induction n) auto

lemma unstrike_strikes: "int n \<le> vr_Strikes r \<Longrightarrow> vr_Strikes ((unstrike ^^ n) r) = vr_Strikes r - int n"
  by (induction n) auto

lemma penalize_loop_result:
  assumes "penalize_loop candidate now f s pen str ds = (s', pen', str')"
  shows "inperson_Voucher s' d =
      (if d = candidate then inperson_Voucher s d else (strike now f ^^ count_list ds d) (inperson_Voucher s d))"
    and "pen' = pen @ filter (\<lambda>e. e \<noteq> candidate) ds"
    and "fst ` set str' = fst ` set str \<union> (set ds - {candidate})"
    and "ip_offers s' = ip_offers s" and "ip_vouches s' = ip_vouches s"
  using assms
proof (induction ds arbitrary: s pen str)
  case (Cons e ds)
  { case 1 then show ?case using Cons.IH(1) by (auto simp: Let_def funpow_swap1 split: if_splits) }
  { case 2 then show ?case by (auto simp: Let_def dest!: Cons.IH(2) split: if_splits) }
  { case 3
    then show ?case
      by (cases "e = candidate") (simp_all add: Let_def Cons.IH(3) insert_Diff_if, blast?) }
  { case 4 then show ?case using Cons.IH(4) by (auto simp: Let_def split: if_splits) }
  { case 5 then show ?case using Cons.IH(5) by (auto simp: Let_def split: if_splits) }
qed auto

lemma reinstate_loop_result:
  assumes "reinstate_loop s str ds = (s', str')"
  shows "inperson_Voucher s' d = (unstrike ^^ count_list ds d) (inperson_Voucher s d)"
    and "fst ` set str' = fst ` set str \<union> set ds"
    and "ip_offers s' = ip_offers s" and "ip_vouches s' = ip_vouches s"
  using assms
proof (induction ds arbitrary: s str)
  case (Cons e ds)
  { case 1 then show ?case using Cons.IH(1) by (auto simp: Let_def funpow_swap1) }
  { case 2 then show ?case using Cons.IH(2) by (auto simp: Let_def) }
  { case 3 then show ?case using Cons.IH(3) by (auto simp: Let_def) }
  { case 4 then show ?case using Cons.IH(4) by (auto simp: Let_def) }
qed auto

lemma count_list_filter_neq [simp]:
  "count_list (filter (\<lambda>e. e \<noteq> c) ds) d = (if d = c then 0 else count_list ds d)"
  by (induction ds) auto

lemma Penalize_voucher:
  assumes "inperson_Penalize s c ds now f = (r, s')"
  shows "inperson_Voucher s' d =
    (if vr_Revoked (inperson_Voucher s c) then inperson_Voucher s d
     else if d = c then (inperson_Voucher s c)\<lparr>vr_Revoked := True, vr_PenalizedVouchers :=
       vr_PenalizedVouchers (inperson_Voucher s c) @ filter (\<lambda>e. e \<noteq> c) ds\<rparr>
     else (strike now f ^^ count_list ds d) (inperson_Voucher s d))"
  using assms penalize_loop_result [of c now f s]
  by (auto simp: inperson_Penalize_def Let_def split: if_splits prod.splits)

lemma Penalize_others:
  assumes "inperson_Penalize s c ds now f = (r, s')"
  shows "ip_offers s' = ip_offers s" "ip_vouches s' = ip_vouches s"
  using assms penalize_loop_result(4,5) [of c now f s]
  by (auto simp: inperson_Penalize_def Let_def split: if_splits prod.splits)

lemma Reinstate_voucher:
  assumes "inperson_Reinstate s c = (r, s')"
  shows "inperson_Voucher s' d =
    (if \<not> vr_Revoked (inperson_Voucher s c) then inperson_Voucher s d
     else if d = c then (inperson_Voucher s c)\<lparr>vr_Revoked := False, vr_PenalizedVouchers := []\<rparr>
     else (unstrike ^^ count_list (vr_PenalizedVouchers (inperson_Voucher s c)) d) (inperson_Voucher s d))"
  using assms reinstate_loop_result(1) [of s "[]"]
  by (auto simp: inperson_Reinstate_def Let_def split: if_splits prod.splits)

lemma Reinstate_others:
  assumes "inperson_Reinstate s c = (r, s')"
  shows "ip_offers s' = ip_offers s" "ip_vouches s' = ip_vouches s"
  using assms reinstate_loop_result(3,4) [of s "[]"]
  by (auto simp: inperson_Reinstate_def Let_def split: if_splits prod.splits)

section \<open>The contract of a vouch store\<close>

text \<open>The calls that decide who may vouch, and the vouch a call recorded, if it recorded one.\<close>

datatype voucher_call =
    CallCommit inperson_vouch
  | CallPenalize string "string list" time duration
  | CallReinstate string

fun voucher_exec ::
  "int \<Rightarrow> duration \<Rightarrow> inperson_store \<Rightarrow> voucher_call \<Rightarrow> inperson_vouch option \<times> inperson_store" where
  "voucher_exec m p s (CallCommit v) =
     (case inperson_CommitVouch s v m p of (None, s') \<Rightarrow> (Some v, s') | (Some e, s') \<Rightarrow> (None, s'))"
| "voucher_exec m p s (CallPenalize c ds now f) = (None, snd (inperson_Penalize s c ds now f))"
| "voucher_exec m p s (CallReinstate c) = (None, snd (inperson_Reinstate s c))"

text \<open>The vouches a sequence of calls records, oldest first.\<close>

fun vouch_log :: "('s \<Rightarrow> voucher_call \<Rightarrow> inperson_vouch option \<times> 's) \<Rightarrow> 's \<Rightarrow> voucher_call list
    \<Rightarrow> inperson_vouch list" where
  "vouch_log exec s [] = []"
| "vouch_log exec s (c # cs) =
     (case exec s c of (Some v, s') \<Rightarrow> v # vouch_log exec s' cs | (None, s') \<Rightarrow> vouch_log exec s' cs)"

fun commit_times :: "voucher_call list \<Rightarrow> time list" where
  "commit_times [] = []"
| "commit_times (CallCommit v # cs) = iv_At v # commit_times cs"
| "commit_times (_ # cs) = commit_times cs"

definition vouches_within :: "string \<Rightarrow> time \<Rightarrow> time \<Rightarrow> inperson_vouch list \<Rightarrow> inperson_vouch list" where
  "vouches_within d lo hi vs = filter (\<lambda>v. iv_VoucherDID v = d \<and> lo < iv_At v \<and> iv_At v \<le> hi) vs"

lemma vouches_within_append [simp]:
  "vouches_within d lo hi (xs @ ys) = vouches_within d lo hi xs @ vouches_within d lo hi ys"
  by (simp add: vouches_within_def)

text \<open>
  What ties the log \<open>past\<close> of a voucher to the times \<open>ts\<close> on its record: within the last period the
  record counts every vouch, and no window of one period holds more than \<open>m\<close>.
\<close>

definition counted :: "int \<Rightarrow> duration \<Rightarrow> string \<Rightarrow> inperson_vouch list \<Rightarrow> time list \<Rightarrow> time \<Rightarrow> bool" where
  "counted m p d past ts now \<longleftrightarrow>
     (\<forall>t \<in> set ts. t \<le> now) \<and> (\<forall>v \<in> set past. iv_At v \<le> now) \<and>
     (\<forall>lo \<ge> now - p. length (filter (\<lambda>v. iv_VoucherDID v = d \<and> lo < iv_At v) past)
        \<le> length (filter (\<lambda>t. lo < t) ts)) \<and>
     (\<forall>lo. int (length (vouches_within d lo (lo + p) past)) \<le> m)"

lemma sub_time_lt:
  "p \<le> max_int64 \<Longrightarrow> 0 < p \<Longrightarrow> sub_time now t < p \<longleftrightarrow> now - p < t"
  by (auto simp: sub_time_def Let_def max_int64_def min_int64_def)

lemma counted_later: "counted m p d past ts now \<Longrightarrow> now \<le> t \<Longrightarrow> counted m p d past ts t"
  unfolding counted_def by force

lemma counted_commit:
  assumes "counted m p d past ts now" "0 < p" "p \<le> max_int64" "now \<le> iv_At v" "0 \<le> m"
    and kept: "kept = filter (\<lambda>t. sub_time (iv_At v) t < p) ts"
    and ts': "ts' = (if d = iv_VoucherDID v then kept @ [iv_At v] else ts)"
    and quota: "d = iv_VoucherDID v \<Longrightarrow> int (length kept) < m"
  shows "counted m p d (past @ [v]) ts' (iv_At v)"
proof (cases "d = iv_VoucherDID v")
  case False
  then show ?thesis
    using counted_later [OF assms(1,4)] ts' by (auto simp: counted_def vouches_within_def)
next
  case True
  have k: "kept = filter (\<lambda>t. iv_At v - p < t) ts"
    unfolding kept using sub_time_lt [OF assms(3,2)] by simp
  have fresh: "length (filter (\<lambda>w. iv_VoucherDID w = d \<and> lo < iv_At w) past) \<le> length (filter (\<lambda>t. lo < t) kept)"
    if "iv_At v - p \<le> lo" for lo
  proof -
    have "filter (\<lambda>t. lo < t) kept = filter (\<lambda>t. lo < t) ts"
      unfolding k using that by (auto intro: filter_cong)
    then show ?thesis using assms(1,4) that by (auto simp: counted_def)
  qed
  have "int (length (vouches_within d lo (lo + p) (past @ [v]))) \<le> m" for lo
  proof (cases "lo < iv_At v \<and> iv_At v \<le> lo + p")
    case False
    then show ?thesis using assms(1) by (auto simp: counted_def vouches_within_def)
  next
    case inside: True
    have "length (vouches_within d lo (lo + p) past)
        \<le> length (filter (\<lambda>w. iv_VoucherDID w = d \<and> iv_At v - p < iv_At w) past)"
      using inside unfolding vouches_within_def by (induction past) auto
    also have "\<dots> \<le> length (filter (\<lambda>t. iv_At v - p < t) kept)" by (rule fresh) simp
    also have "\<dots> \<le> length kept" by simp
    finally show ?thesis using quota [OF True] by (simp add: vouches_within_def)
  qed
  moreover have "\<forall>t \<in> set ts'. t \<le> iv_At v" "\<forall>w \<in> set (past @ [v]). iv_At w \<le> iv_At v"
    using assms(1,4) True by (auto simp: counted_def ts' k)
  ultimately show ?thesis
    using fresh True by (auto simp: counted_def ts')
qed

locale voucher_contract =
  fixes m :: int and p :: duration
    and exec :: "'s \<Rightarrow> voucher_call \<Rightarrow> inperson_vouch option \<times> 's"
    and voucher :: "'s \<Rightarrow> string \<Rightarrow> voucher_record"
  assumes exec_commit: "exec s c = (Some v, s') \<Longrightarrow> c = CallCommit v \<and>
      \<not> vr_Revoked (voucher s (iv_CandidateDID v)) \<and> \<not> vr_Revoked (voucher s (iv_VoucherDID v)) \<and>
      int (length (filter (\<lambda>t. sub_time (iv_At v) t < p) (vr_VouchTimes (voucher s (iv_VoucherDID v))))) < m"
    and commit_record: "exec s c = (Some v, s') \<Longrightarrow> vr_VouchTimes (voucher s' d) =
      (if d = iv_VoucherDID v
       then filter (\<lambda>t. sub_time (iv_At v) t < p) (vr_VouchTimes (voucher s d)) @ [iv_At v]
       else vr_VouchTimes (voucher s d))"
    and exec_quiet: "exec s c = (None, s') \<Longrightarrow> vr_VouchTimes (voucher s' d) = vr_VouchTimes (voucher s d)"
    and exec_revoked: "vr_Revoked (voucher (snd (exec s c)) d) \<longleftrightarrow>
      (case c of CallCommit v \<Rightarrow> vr_Revoked (voucher s d)
       | CallPenalize e ds now f \<Rightarrow> vr_Revoked (voucher s d) \<or> d = e
       | CallReinstate e \<Rightarrow> vr_Revoked (voucher s d) \<and> d \<noteq> e)"
begin

lemma log_counted:
  assumes "sorted (now # commit_times cs)" "0 < p" "p \<le> max_int64" "0 \<le> m"
    and "counted m p d past (vr_VouchTimes (voucher s d)) now"
  shows "int (length (vouches_within d lo (lo + p) (past @ vouch_log exec s cs))) \<le> m"
  using assms
proof (induction cs arbitrary: s now past)
  case Nil
  then show ?case by (simp add: counted_def)
next
  case (Cons c cs)
  obtain r s' where e: "exec s c = (r, s')" by force
  show ?case
  proof (cases r)
    case None
    then have "vr_VouchTimes (voucher s' d) = vr_VouchTimes (voucher s d)"
      using exec_quiet [of s c s'] e by simp
    moreover have "sorted (now # commit_times cs)" using Cons.prems(1) by (cases c) auto
    ultimately show ?thesis using Cons.IH [of now past s'] Cons.prems e None by simp
  next
    case (Some v)
    then have ev: "exec s c = (Some v, s')" using e by simp
    have srt: "now \<le> iv_At v" "sorted (iv_At v # commit_times cs)"
      using exec_commit [OF ev] Cons.prems(1) by auto
    have "counted m p d (past @ [v]) (vr_VouchTimes (voucher s' d)) (iv_At v)"
      by (rule counted_commit [OF Cons.prems(5,2,3) srt(1) Cons.prems(4) refl])
        (use commit_record [OF ev] exec_commit [OF ev] in auto)
    then show ?thesis
      using Cons.IH [OF srt(2) Cons.prems(2,3,4), of "past @ [v]" s'] ev
      by (simp add: vouches_within_def)
  qed
qed

lemma quota_of_run:
  assumes "sorted (now # commit_times cs)" "0 < p" "p \<le> max_int64" "0 \<le> m"
    and "\<forall>t \<in> set (vr_VouchTimes (voucher s d)). t \<le> now"
  shows "int (length (vouches_within d lo (lo + p) (vouch_log exec s cs))) \<le> m"
  using log_counted [OF assms(1-4), of d "[]" s] assms(4,5) by (simp add: counted_def vouches_within_def)

text \<open>Nobody who was penalized vouches or is vouched for until an operator reinstates them.\<close>

lemma revoked_silent:
  assumes "vr_Revoked (voucher s d)" "CallReinstate d \<notin> set cs" "v \<in> set (vouch_log exec s cs)"
  shows "iv_CandidateDID v \<noteq> d \<and> iv_VoucherDID v \<noteq> d"
  using assms
proof (induction cs arbitrary: s)
  case (Cons c cs)
  obtain r s' where e: "exec s c = (r, s')" by force
  have "vr_Revoked (voucher s' d)"
    using exec_revoked [of s c d] e Cons.prems(1,2) by (auto split: voucher_call.splits)
  then show ?case
    using Cons.IH [of s'] Cons.prems exec_commit [of s c] e by (auto split: option.splits)
qed simp

end

lemma CommitVouch_None:
  "inperson_CommitVouch s v m p = (None, s') \<longleftrightarrow>
     \<not> vr_Revoked (inperson_Voucher s (iv_CandidateDID v)) \<and> \<not> vr_Revoked (inperson_Voucher s (iv_VoucherDID v)) \<and>
     vr_SuspendedUntil (inperson_Voucher s (iv_VoucherDID v)) \<le> iv_At v \<and>
     map_of (entries (ip_vouches s) (iv_CandidateDID v)) (iv_VoucherDID v) = None \<and>
     int (length (filter (\<lambda>t. sub_time (iv_At v) t < p) (vr_VouchTimes (inperson_Voucher s (iv_VoucherDID v))))) < m \<and>
     s' = (set_record (iv_VoucherDID v) ((inperson_Voucher s (iv_VoucherDID v))\<lparr>vr_VouchTimes :=
         filter (\<lambda>t. sub_time (iv_At v) t < p) (vr_VouchTimes (inperson_Voucher s (iv_VoucherDID v))) @ [iv_At v]\<rparr>) s)
       \<lparr>ip_vouches := (ip_vouches s)(iv_CandidateDID v \<mapsto>
         alist_put (iv_VoucherDID v) v (entries (ip_vouches s) (iv_CandidateDID v)))\<rparr>"
  by (auto simp: inperson_CommitVouch_def Let_def not_le)

lemma CommitVouch_Some: "inperson_CommitVouch s v m p = (Some e, s') \<Longrightarrow> s' = s"
  by (auto simp: inperson_CommitVouch_def Let_def split: if_splits)

interpretation vouchers: voucher_contract m p "voucher_exec m p" inperson_Voucher for m p
proof
  fix s c v s' d
  assume e: "voucher_exec m p s c = (Some v, s')"
  then have "c = CallCommit v" "inperson_CommitVouch s v m p = (None, s')"
    by (cases c; auto split: prod.splits option.splits)+
  then show "c = CallCommit v \<and> \<not> vr_Revoked (inperson_Voucher s (iv_CandidateDID v)) \<and>
      \<not> vr_Revoked (inperson_Voucher s (iv_VoucherDID v)) \<and>
      int (length (filter (\<lambda>t. sub_time (iv_At v) t < p) (vr_VouchTimes (inperson_Voucher s (iv_VoucherDID v))))) < m"
    "vr_VouchTimes (inperson_Voucher s' d) = (if d = iv_VoucherDID v
       then filter (\<lambda>t. sub_time (iv_At v) t < p) (vr_VouchTimes (inperson_Voucher s d)) @ [iv_At v]
       else vr_VouchTimes (inperson_Voucher s d))"
    by (auto simp: CommitVouch_None)
next
  fix s c s' d
  assume "voucher_exec m p s c = (None, s')"
  then show "vr_VouchTimes (inperson_Voucher s' d) = vr_VouchTimes (inperson_Voucher s d)"
    using Penalize_voucher [OF surjective_pairing] Reinstate_voucher [OF surjective_pairing]
    by (cases c) (auto split: prod.splits option.splits dest: CommitVouch_Some)
next
  fix s c d
  show "vr_Revoked (inperson_Voucher (snd (voucher_exec m p s c)) d) \<longleftrightarrow>
      (case c of CallCommit v \<Rightarrow> vr_Revoked (inperson_Voucher s d)
       | CallPenalize e ds now f \<Rightarrow> vr_Revoked (inperson_Voucher s d) \<or> d = e
       | CallReinstate e \<Rightarrow> vr_Revoked (inperson_Voucher s d) \<and> d \<noteq> e)"
    using Penalize_voucher [OF surjective_pairing] Reinstate_voucher [OF surjective_pairing]
    by (cases c) (auto split: prod.splits option.splits dest: CommitVouch_Some simp: CommitVouch_None)
qed

section \<open>Properties\<close>

text \<open>C29: No voucher gives more than \<open>maxPerPeriod\<close> vouches in any stretch of one period: whatever
  calls reach the store in whatever order, with the clock not going back, at most \<open>m\<close> of the vouches
  recorded for a voucher lie in a window of length \<open>p\<close>, also across penalties and reinstatements.\<close>

theorem vouch_quota_bounded:
  assumes "sorted (now # commit_times cs)" "0 < p" "p \<le> max_int64" "0 \<le> m"
    and "\<forall>t \<in> set (vr_VouchTimes (inperson_Voucher s d)). t \<le> now"
  shows "int (length (vouches_within d lo (lo + p) (vouch_log (voucher_exec m p) s cs))) \<le> m"
  by (rule vouchers.quota_of_run [OF assms])

definition sample_vouch :: "string \<Rightarrow> string \<Rightarrow> time \<Rightarrow> inperson_vouch" where
  "sample_vouch c d t = \<lparr>iv_CandidateDID = c, iv_VoucherDID = d, iv_VoucherAnchored = True, iv_Weight = 1,
     iv_At = t, iv_RoundTrip = 0, iv_SameNetwork = True\<rparr>"

lemmas store_eval = sample_vouch_def NewInMemoryInPersonStore_def inperson_CommitVouch_def
  inperson_Voucher_def set_record_def zero_record_def entries_def Let_def sub_time_def
  max_int64_def min_int64_def alist_put_def

theorem vouch_quota_bounded_witness:
  "vouch_log (voucher_exec 1 10) NewInMemoryInPersonStore
     [CallCommit (sample_vouch ''a'' ''v'' 5), CallCommit (sample_vouch ''b'' ''v'' 8)]
   = [sample_vouch ''a'' ''v'' 5] \<and>
   int (length (vouches_within ''v'' 0 (0 + 10) (vouch_log (voucher_exec 1 10) NewInMemoryInPersonStore
     [CallCommit (sample_vouch ''a'' ''v'' 5), CallCommit (sample_vouch ''b'' ''v'' 8)]))) \<le> 1"
  by (intro conjI vouch_quota_bounded [of 0]) (simp_all add: store_eval)

text \<open>A penalized person neither vouches nor is vouched for again until an operator reinstates
  them, whatever else happens; and reporting them again changes nothing and adds no strike.\<close>

theorem revoked_cannot_vouch:
  assumes "s' = snd (inperson_Penalize s d ds now f)" "CallReinstate d \<notin> set cs"
  shows "(\<forall>v \<in> set (vouch_log (voucher_exec m p) s' cs). iv_CandidateDID v \<noteq> d \<and> iv_VoucherDID v \<noteq> d) \<and>
    inperson_Penalize s' d ds' now' f' = (None, s')"
proof -
  have "vr_Revoked (inperson_Voucher s' d)"
    using Penalize_voucher [of s d ds now f "fst (inperson_Penalize s d ds now f)" s' d] assms(1) by simp
  then show ?thesis
    using vouchers.revoked_silent [OF _ assms(2), of s'] by (auto simp: inperson_Penalize_def Let_def)
qed

theorem revoked_cannot_vouch_witness:
  "vouch_log (voucher_exec 1 10) (snd (inperson_Penalize NewInMemoryInPersonStore ''a'' [''v''] 3 7))
     [CallCommit (sample_vouch ''a'' ''v'' 50), CallCommit (sample_vouch ''b'' ''w'' 60)]
     = [sample_vouch ''b'' ''w'' 60] \<and>
   inperson_Penalize (snd (inperson_Penalize NewInMemoryInPersonStore ''a'' [''v''] 3 7)) ''a'' [''v''] 4 7
     = (None, snd (inperson_Penalize NewInMemoryInPersonStore ''a'' [''v''] 3 7))"
  using revoked_cannot_vouch [OF refl, of "''a''" "[]" 1 10 NewInMemoryInPersonStore "[''v'']" 3 7 "[''v'']" 4 7]
  by (simp add: store_eval inperson_Penalize_def strike_def)

text \<open>Each strike suspends its voucher for the configured time multiplied by the number of strikes,
  up to strike 593 with the default of 180 days; from strike 594 on (up to 1186) the \<open>int64\<close> product is
  negative and a strike suspends nobody.\<close>

definition DefaultSuspendFor :: duration where
  "DefaultSuspendFor = 180 * 24 * ns_hour"

theorem suspension_grows_until_overflow:
  "(0 \<le> vr_Strikes r \<and> vr_Strikes r < 593 \<longrightarrow>
      vr_SuspendedUntil (strike now DefaultSuspendFor r)
        = max (vr_SuspendedUntil r) (now + DefaultSuspendFor * (vr_Strikes r + 1))) \<and>
   (593 \<le> vr_Strikes r \<and> vr_Strikes r < 1186 \<longrightarrow>
      vr_SuspendedUntil (strike now DefaultSuspendFor r) \<le> max (vr_SuspendedUntil r) now)"
proof -
  have d: "DefaultSuspendFor = 15552000000000000" by (simp add: DefaultSuspendFor_def time_units)
  have "wrap64 (15552000000000000 * (n + 1)) = 15552000000000000 * (n + 1)" if "0 \<le> n" "n < 593" for n
    using that by (intro wrap64_id) (auto simp: min_int64_def max_int64_def)
  moreover have "wrap64 (15552000000000000 * (n + 1)) = 15552000000000000 * (n + 1) - 18446744073709551616"
    if "593 \<le> n" "n < 1186" for n
  proof -
    have "(15552000000000000 * (n + 1) + 9223372036854775808) mod 18446744073709551616
        = 15552000000000000 * (n + 1) + 9223372036854775808 - 18446744073709551616"
      using that by (subst mod_pos_geq) (auto intro!: mod_pos_pos_trivial)
    then show ?thesis by (simp add: wrap64_def)
  qed
  ultimately show ?thesis unfolding d strike_def by (auto simp: Let_def)
qed

theorem suspension_grows_until_overflow_witness:
  "vr_SuspendedUntil (strike 5 DefaultSuspendFor zero_record) = 15552000000000005 \<and>
   vr_SuspendedUntil (strike 5 DefaultSuspendFor (zero_record\<lparr>vr_Strikes := 593\<rparr>)) \<le> 5"
  using suspension_grows_until_overflow [of zero_record 5]
    suspension_grows_until_overflow [of "zero_record\<lparr>vr_Strikes := 593\<rparr>" 5]
  by (simp add: zero_record_def DefaultSuspendFor_def time_units)

end
