(* ===== verification/Vouch_Codes.thy ===== *)
theory Vouch_Codes
  imports Equivocation Rate_Limits
begin

text \<open>
  What the two phones exchange in the in-person ceremony,
  \<open>src/methods/social-vouching/inperson.go\<close>: the eight-character codes, what a person may type for
  one, the texts the two keys sign, and the network prefix the two requests are compared by.
\<close>

section \<open>Messages\<close>

definition InPersonMethodID :: string where
  "InPersonMethodID = ''in-person-vouch''"

definition InPersonTag :: string where
  "InPersonTag = ''personhood-in-person-vouch/v1''"

definition VouchStatement :: string where
  "VouchStatement = ''I met this person face to face and I believe they hold no other credential.''"

definition QRPrefixOffer :: string where
  "QRPrefixOffer = ''PHV1:O:''"

definition QRPrefixReturn :: string where
  "QRPrefixReturn = ''PHV1:R:''"

definition AcceptMessage :: "string \<Rightarrow> string \<Rightarrow> string \<Rightarrow> string" where
  "AcceptMessage issuerDID offerCode candidateDID =
     join newline [InPersonTag, ''accept'', issuerDID, offerCode, candidateDID]"

definition ConfirmMessage :: "string \<Rightarrow> string \<Rightarrow> string \<Rightarrow> string \<Rightarrow> string" where
  "ConfirmMessage issuerDID offerCode candidateDID returnCode =
     join newline [InPersonTag, ''vouch'', issuerDID, offerCode, candidateDID, returnCode, VouchStatement]"

section \<open>Codes\<close>

definition crockford :: string where
  "crockford = ''0123456789ABCDEFGHJKMNPQRSTVWXYZ''"

text \<open>The loop from \<open>out[7]\<close> down to \<open>out[0]\<close>: five bits at a time.\<close>

fun code_chars :: "nat \<Rightarrow> nat \<Rightarrow> string \<Rightarrow> string" where
  "code_chars 0 v out = out"
| "code_chars (Suc i) v out = code_chars i (v div 32) (crockford ! (v mod 32) # out)"

text \<open>\<open>rand5\<close> is what \<open>rand.Read\<close> put into the five bytes, \<open>None\<close> when it failed.\<close>

definition newCode :: "bytes option \<Rightarrow> string option" where
  "newCode rand5 = map_option (\<lambda>b. code_chars 8 (foldl (\<lambda>v c. v * 256 + byte_of c) 0 b) []) rand5"

text \<open>
  \<open>strings.ToUpper\<close>, rune by rune: besides the ASCII letters only the dotless i and the long s have an
  ASCII upper case; every other rune stays outside the alphabet and makes the code invalid.
\<close>

fun upper_runes :: "string \<Rightarrow> string" where
  "upper_runes [] = []"
| "upper_runes [a] = [upper_char a]"
| "upper_runes (a # b # s) =
     (if a = byte 0xC4 \<and> b = byte 0xB1 then CHR ''I'' # upper_runes s
      else if a = byte 0xC5 \<and> b = byte 0xBF then CHR ''S'' # upper_runes s
      else upper_char a # upper_runes (b # s))"

definition fold_letter :: "char \<Rightarrow> char" where
  "fold_letter r = (if r = CHR ''O'' then CHR ''0''
     else if r = CHR ''I'' \<or> r = CHR ''L'' then CHR ''1'' else r)"

definition NormalizeCode :: "string \<Rightarrow> string" where
  "NormalizeCode s0 =
     (let s = trim_prefix (trim_prefix (trim_space s0) QRPrefixOffer) QRPrefixReturn;
          out = map fold_letter (filter (\<lambda>r. r \<noteq> CHR '' '' \<and> r \<noteq> CHR ''-'') (upper_runes s)) in
      if length out \<noteq> 8 then ''''
      else if \<not> list_all (\<lambda>c. c \<in> set crockford) out then ''''
      else out)"

section \<open>Network prefixes\<close>

text \<open>\<open>net.ParseIP\<close> as 16 bytes: four dotted fields, or eight groups with one \<open>::\<close> and a dotted tail.\<close>

definition ipv4_field :: "string \<Rightarrow> char option" where
  "ipv4_field f =
     (if f = [] \<or> \<not> digits_text f \<or> (length f > 1 \<and> hd f = CHR ''0'') \<or> text_nat 0 f > 255 then None
      else Some (byte (text_nat 0 f)))"

definition parse_ipv4 :: "string \<Rightarrow> bytes option" where
  "parse_ipv4 s =
     (let fs = map ipv4_field (split_on (CHR ''.'') s) in
      if length fs = 4 \<and> None \<notin> set fs then Some (map the fs) else None)"

fun hex_group :: "nat \<Rightarrow> string \<Rightarrow> nat" where
  "hex_group acc [] = acc"
| "hex_group acc (c # s) = hex_group (acc * 16 + the (hex_value c)) s"

text \<open>One round per group; the second component is what is read so far, the third where \<open>::\<close> was.\<close>

fun ipv6_loop :: "nat \<Rightarrow> string \<Rightarrow> bytes \<Rightarrow> nat option \<Rightarrow> (string \<times> bytes \<times> nat option) option" where
  "ipv6_loop 0 s ip gap = Some (s, ip, gap)"
| "ipv6_loop (Suc n) s ip gap =
     (let ds = takeWhile (\<lambda>c. hex_value c \<noteq> None) s;
          rest = drop (length ds) s;
          v = hex_group 0 ds;
          ip' = ip @ [byte (v div 256), byte (v mod 256)] in
      if ds = [] \<or> length ds > 4 then None
      else if rest \<noteq> [] \<and> hd rest = CHR ''.'' then
        (if gap = None \<and> length ip \<noteq> 12 \<or> length ip + 4 > 16 then None
         else map_option (\<lambda>q. ([], ip @ q, gap)) (parse_ipv4 s))
      else if rest = [] then Some ([], ip', gap)
      else if hd rest \<noteq> CHR '':'' \<or> length rest = 1 then None
      else if hd (tl rest) = CHR '':'' then
        (if gap \<noteq> None then None
         else if tl (tl rest) = [] then Some ([], ip', Some (length ip'))
         else ipv6_loop n (tl (tl rest)) ip' (Some (length ip')))
      else ipv6_loop n (tl rest) ip' gap)"

definition parse_ipv6 :: "string \<Rightarrow> bytes option" where
  "parse_ipv6 s =
     (if s = ''::'' then Some (replicate 16 (byte 0))
      else (case (if has_prefix s ''::'' then ipv6_loop 8 (drop 2 s) [] (Some 0) else ipv6_loop 8 s [] None) of
          None \<Rightarrow> None
        | Some (rest, ip, gap) \<Rightarrow>
            if rest \<noteq> [] then None
            else (case gap of
                None \<Rightarrow> if length ip < 16 then None else Some ip
              | Some g \<Rightarrow> if length ip < 16
                  then Some (take g ip @ replicate (16 - length ip) (byte 0) @ drop g ip) else None)))"

definition ipv4_in_6 :: bytes where
  "ipv4_in_6 = replicate 10 (byte 0) @ [byte 0xFF, byte 0xFF]"

definition ParseIP :: "string \<Rightarrow> bytes option" where
  "ParseIP s =
     (if CHR ''%'' \<in> set s then None
      else (case find (\<lambda>c. c = CHR ''.'' \<or> c = CHR '':'') s of
          None \<Rightarrow> None
        | Some c \<Rightarrow> if c = CHR ''.'' then map_option (\<lambda>q. ipv4_in_6 @ q) (parse_ipv4 s)
            else parse_ipv6 s))"

definition To4 :: "bytes \<Rightarrow> bytes option" where
  "To4 ip = (if take 12 ip = ipv4_in_6 then Some (drop 12 ip) else None)"

definition samePrefix :: "string \<Rightarrow> string \<Rightarrow> bool" where
  "samePrefix a b =
     (case (ParseIP a, ParseIP b) of
        (Some ia, Some ib) \<Rightarrow>
          (case (To4 ia, To4 ib) of
             (Some a4, Some b4) \<Rightarrow> take 3 a4 = take 3 b4
           | (None, None) \<Rightarrow> take 6 ia = take 6 ib
           | _ \<Rightarrow> False)
      | _ \<Rightarrow> False)"

section \<open>What the codes are\<close>

lemma crockford_length [simp]: "length crockford = 32"
  by (simp add: crockford_def)

lemma crockford_distinct: "distinct crockford"
  by (simp add: crockford_def)

lemma crockford_char:
  assumes "c \<in> set crockford"
  shows "33 \<le> byte_of c \<and> byte_of c < 127 \<and> upper_char c = c \<and> upper_char (lower_char c) = c \<and>
    byte_of (lower_char c) < 127 \<and> 33 \<le> byte_of (lower_char c) \<and> lower_char c \<noteq> CHR '':'' \<and>
    fold_letter c = c \<and> c \<noteq> CHR '' '' \<and> c \<noteq> CHR ''-'' \<and> c \<noteq> CHR '':''"
proof -
  have "list_all (\<lambda>c. 33 \<le> byte_of c \<and> byte_of c < 127 \<and> upper_char c = c \<and> upper_char (lower_char c) = c \<and>
    byte_of (lower_char c) < 127 \<and> 33 \<le> byte_of (lower_char c) \<and> lower_char c \<noteq> CHR '':'' \<and>
    fold_letter c = c \<and> c \<noteq> CHR '' '' \<and> c \<noteq> CHR ''-'' \<and> c \<noteq> CHR '':'') crockford"
    unfolding crockford_def list.pred_inject fold_letter_def upper_char_def lower_char_def
    by (simp add: go_string)
  then show ?thesis using assms by (auto simp: list_all_iff)
qed

lemma upper_runes_ascii: "\<forall>c \<in> set s. byte_of c < 127 \<Longrightarrow> upper_runes s = map upper_char s"
proof (induction s rule: upper_runes.induct)
  case (3 a b s)
  then have "a \<noteq> byte 0xC4" "a \<noteq> byte 0xC5" by auto
  then show ?case using 3 by simp
qed auto

definition code_text :: "string \<Rightarrow> bool" where
  "code_text c \<longleftrightarrow> length c = 8 \<and> set c \<subseteq> set crockford"

lemma code_chars_alphabet:
  "set out \<subseteq> set crockford \<Longrightarrow> set (code_chars i v out) \<subseteq> set crockford \<and>
     length (code_chars i v out) = i + length out"
  by (induction i arbitrary: v out) auto

lemma newCode_text: "newCode rnd = Some c \<Longrightarrow> code_text c"
  using code_chars_alphabet [of "[]" 8] by (auto simp: newCode_def code_text_def)

lemma code_chars_inj:
  "code_chars i v out = code_chars i v' out' \<Longrightarrow> length out = length out' \<Longrightarrow>
     out = out' \<and> v mod 32 ^ i = v' mod 32 ^ i"
proof (induction i arbitrary: v v' out out')
  case (Suc i)
  have "crockford ! (v mod 32) = crockford ! (v' mod 32) \<and> out = out' \<and> v div 32 mod 32 ^ i = v' div 32 mod 32 ^ i"
    using Suc.IH [of "v div 32" "crockford ! (v mod 32) # out" "v' div 32" "crockford ! (v' mod 32) # out'"] Suc.prems
    by simp
  moreover have "crockford ! (v mod 32) = crockford ! (v' mod 32) \<Longrightarrow> v mod 32 = v' mod 32"
    using nth_eq_iff_index_eq [OF crockford_distinct] by simp
  ultimately show ?case by (simp add: mod_mult2_eq)
qed simp

lemma big_endian_snoc: "foldl (\<lambda>v c. v * 256 + byte_of c) 0 (b @ [x]) = foldl (\<lambda>v c. v * 256 + byte_of c) 0 b * 256 + byte_of x"
  by simp

lemma big_endian_less: "foldl (\<lambda>v c. v * 256 + byte_of c) 0 b < 256 ^ length b"
proof (induction b rule: rev_induct)
  case (snoc x b)
  then show ?case using byte_of_less [of x] unfolding big_endian_snoc by (simp add: less_eq_Suc_le)
qed simp

lemma big_endian_inj:
  "length b = length b' \<Longrightarrow> foldl (\<lambda>v c. v * 256 + byte_of c) 0 b = foldl (\<lambda>v c. v * 256 + byte_of c) 0 b' \<Longrightarrow> b = b'"
proof (induction b arbitrary: b' rule: rev_induct)
  case (snoc x b)
  then obtain y c where b': "b' = c @ [y]" by (cases b' rule: rev_cases) auto
  define V where "V = foldl (\<lambda>v c. v * 256 + byte_of c) 0 b"
  define W where "W = foldl (\<lambda>v c. v * 256 + byte_of c) 0 c"
  have e: "V * 256 + byte_of x = W * 256 + byte_of y"
    using snoc.prems(2) unfolding b' big_endian_snoc V_def W_def .
  have "(V * 256 + byte_of x) div 256 = V" "(W * 256 + byte_of y) div 256 = W"
    using byte_of_less [of x] byte_of_less [of y] by simp_all
  then have VW: "V = W" using e by metis
  then have "byte_of x = byte_of y" using e by simp
  then show ?case using snoc.IH [of c] snoc.prems(1) b' using VW by (simp add: V_def W_def)
qed simp

lemma newCode_inj:
  assumes "newCode (Some b) = newCode (Some b')" "length b = 5" "length b' = 5"
  shows "b = b'"
proof -
  define V where "V = foldl (\<lambda>v c. v * 256 + byte_of c) 0 b"
  define W where "W = foldl (\<lambda>v c. v * 256 + byte_of c) 0 b'"
  have size: "V < 32 ^ 8" "W < 32 ^ 8"
    using big_endian_less [of b] big_endian_less [of b'] assms(2,3) by (simp_all add: V_def W_def)
  have "code_chars 8 V [] = code_chars 8 W []"
    using assms(1) unfolding newCode_def V_def W_def by simp
  then have "V mod 32 ^ 8 = W mod 32 ^ 8" using code_chars_inj by blast
  then have "V = W" using size by (metis mod_less)
  then show ?thesis using big_endian_inj [of b b'] assms(2,3) by (simp add: V_def W_def)
qed

lemma has_prefix_set: "has_prefix s p \<Longrightarrow> set p \<subseteq> set s"
  using set_take_subset [of "length p" s] by (simp add: has_prefix_def)

lemma trim_prefix_colon: "CHR '':'' \<notin> set s \<Longrightarrow> CHR '':'' \<in> set p \<Longrightarrow> trim_prefix s p = s"
  using has_prefix_set [of s p] by (auto simp: trim_prefix_def)

lemma trim_prefix_append [simp]: "trim_prefix (p @ s) p = s"
  by (simp add: trim_prefix_def has_prefix_def)

lemma colon_in_prefix [simp]: "CHR '':'' \<in> set QRPrefixOffer" "CHR '':'' \<in> set QRPrefixReturn"
  by (simp_all add: QRPrefixOffer_def QRPrefixReturn_def)

text \<open>What is left once the prefix is gone: any mix of cases and separators of a code.\<close>

lemma normalize_body:
  assumes "code_text c" "\<forall>x \<in> set t. byte_of x < 127"
    and "filter (\<lambda>r. r \<noteq> CHR '' '' \<and> r \<noteq> CHR ''-'') (map upper_char t) = c"
    and "trim_prefix (trim_prefix (trim_space s) QRPrefixOffer) QRPrefixReturn = t"
  shows "NormalizeCode s = c"
proof -
  have "map fold_letter c = c"
    using assms(1) crockford_char by (intro map_idI) (auto simp: code_text_def)
  then show ?thesis
    using assms by (auto simp: NormalizeCode_def upper_runes_ascii code_text_def list_all_iff)
qed

lemma code_text_char:
  "code_text c \<Longrightarrow> x \<in> set c \<Longrightarrow> x \<in> set crockford"
  by (auto simp: code_text_def)

lemma code_printable: "code_text c \<Longrightarrow> printable c" "code_text c \<Longrightarrow> printable (to_lower c)"
  using code_text_char crockford_char unfolding printable_def to_lower_def list_all_iff by fastforce+

lemma code_upper: "code_text c \<Longrightarrow> map upper_char c = c" "code_text c \<Longrightarrow> map upper_char (to_lower c) = c"
  using code_text_char crockford_char unfolding to_lower_def by (force intro: map_idI simp: comp_def)+

lemma code_filter: "code_text c \<Longrightarrow> filter (\<lambda>r. r \<noteq> CHR '' '' \<and> r \<noteq> CHR ''-'') c = c"
  using code_text_char crockford_char by (intro filter_True) blast

lemma code_no_colon: "code_text c \<Longrightarrow> CHR '':'' \<notin> set c" "code_text c \<Longrightarrow> CHR '':'' \<notin> set (to_lower c)"
  using code_text_char crockford_char unfolding to_lower_def by fastforce+

lemma prefix_printable [simp]: "printable QRPrefixOffer" "printable QRPrefixReturn"
  by (simp_all add: printable_def QRPrefixOffer_def QRPrefixReturn_def)

lemma no_offer_prefix: "trim_prefix (QRPrefixReturn @ c) QRPrefixOffer = QRPrefixReturn @ c"
  by (simp add: trim_prefix_def has_prefix_def QRPrefixReturn_def QRPrefixOffer_def)

lemma code_normal:
  assumes "newCode (Some b) = Some c"
  shows "NormalizeCode c = c" "NormalizeCode (QRPrefixOffer @ c) = c" "NormalizeCode (QRPrefixReturn @ c) = c"
    "NormalizeCode (to_lower c) = c" "NormalizeCode (take 4 c @ ''-'' @ drop 4 c) = c"
proof -
  have t: "code_text c" using newCode_text [OF assms] .
  have asc: "\<forall>x \<in> set c. byte_of x < 127" "\<forall>x \<in> set (to_lower c). byte_of x < 127"
    using code_printable [OF t] by (auto simp: printable_def list_all_iff)
  have plain: "NormalizeCode s = c" if "trim_prefix (trim_prefix (trim_space s) QRPrefixOffer) QRPrefixReturn = c" for s
    using normalize_body [OF t asc(1) _ that] code_upper(1) [OF t] code_filter [OF t] by simp
  have keep: "trim_prefix x QRPrefixOffer = x" "trim_prefix x QRPrefixReturn = x" if "CHR '':'' \<notin> set x" for x
    using trim_prefix_colon [OF that] by simp_all
  define dashed where "dashed = take 4 c @ ''-'' @ drop 4 c"
  have sub: "set (take 4 c) \<subseteq> set c" "set (drop 4 c) \<subseteq> set c"
    by (auto dest: in_set_takeD in_set_dropD)
  have d: "printable dashed" "CHR '':'' \<notin> set dashed" "\<forall>x \<in> set dashed. byte_of x < 127"
    using code_printable(1) [OF t] code_no_colon(1) [OF t] asc(1) sub
    by (auto simp: dashed_def printable_def list_all_iff)
  have "upper_char (CHR ''-'') = CHR ''-''" by (simp add: upper_char_def)
  then have up: "map upper_char dashed = take 4 c @ ''-'' @ drop 4 c"
    using code_upper(1) [OF t] by (simp add: dashed_def take_map [symmetric] drop_map [symmetric])
  have keep_all: "filter (\<lambda>r. r \<noteq> CHR '' '' \<and> r \<noteq> CHR ''-'') xs = xs" if "set xs \<subseteq> set c" for xs
  proof (rule filter_True, rule ballI)
    fix x
    assume "x \<in> set xs"
    then have "x \<in> set crockford" using that code_text_char [OF t] by blast
    then show "x \<noteq> CHR '' '' \<and> x \<noteq> CHR ''-''" using crockford_char by blast
  qed
  have "filter (\<lambda>r. r \<noteq> CHR '' '' \<and> r \<noteq> CHR ''-'') (take 4 c @ ''-'' @ drop 4 c) = c"
    by (simp add: keep_all [OF sub(1)] keep_all [OF sub(2)])
  then have "NormalizeCode dashed = c"
    using normalize_body [OF t d(3)] d(1,2) keep up by simp
  then show "NormalizeCode (take 4 c @ ''-'' @ drop 4 c) = c" by (simp add: dashed_def)
  show "NormalizeCode (to_lower c) = c"
    using normalize_body [OF t asc(2)] code_upper(2) [OF t] code_filter [OF t] keep [OF code_no_colon(2) [OF t]]
      code_printable(2) [OF t] by simp
  show "NormalizeCode (QRPrefixReturn @ c) = c"
    by (rule plain) (simp add: code_printable(1) [OF t] no_offer_prefix)
  show "NormalizeCode (QRPrefixOffer @ c) = c"
    by (rule plain) (simp add: code_printable(1) [OF t] keep [OF code_no_colon(1) [OF t]])
  show "NormalizeCode c = c"
    by (rule plain) (simp add: code_printable(1) [OF t] keep [OF code_no_colon(1) [OF t]])
qed

section \<open>Properties\<close>

text \<open>A code the issuer makes is read back as itself however it reaches the server: plain, as either
  phone's QR text, in lower case, or with a dash in the middle; and two draws of five random bytes
  never give the same code unless the bytes are the same.\<close>

theorem code_roundtrip:
  assumes "newCode (Some b) = Some c"
  shows "NormalizeCode c = c \<and> NormalizeCode (QRPrefixOffer @ c) = c \<and> NormalizeCode (QRPrefixReturn @ c) = c \<and>
    NormalizeCode (to_lower c) = c \<and> NormalizeCode (take 4 c @ ''-'' @ drop 4 c) = c \<and>
    (length b = 5 \<and> length b' = 5 \<and> newCode (Some b') = Some c \<longrightarrow> b = b')"
  using code_normal [OF assms] newCode_inj [of b b'] assms by simp

theorem code_roundtrip_witness:
  "newCode (Some [byte 1, byte 2, byte 3, byte 4, byte 255]) = Some ''0410617Z'' \<and>
   NormalizeCode ''PHV1:R:0410617Z'' = ''0410617Z''"
proof -
  define n where "n = Suc (Suc (Suc (Suc (Suc (Suc (Suc (Suc 0)))))))"
  have "code_chars n 4328719615 [] = ''0410617Z''"
    by (simp add: crockford_def n_def)
  moreover have "n = 8" by (simp add: n_def)
  moreover have "foldl (\<lambda>v c. v * 256 + byte_of c) 0 [byte 1, byte 2, byte 3, byte 4, byte 255] = 4328719615"
    by simp
  ultimately have e: "newCode (Some [byte 1, byte 2, byte 3, byte 4, byte 255]) = Some ''0410617Z''"
    unfolding newCode_def by (metis option.map(2))
  then show ?thesis using code_roundtrip [OF e] by (simp add: QRPrefixReturn_def)
qed

end
