(* ===== verification/Vouching.thy ===== *)
theory Vouching
  imports Vouch_Store Vouch_Codes
begin

text \<open>
  The in-person vouching ceremony, its accountability rules and the two methods fed by it:
  \<open>src/methods/social-vouching\<close> (\<open>inperson.go\<close>, \<open>accountability.go\<close>, \<open>anchor.go\<close>, \<open>method.go\<close>,
  \<open>vouch.go\<close>, \<open>authenticator.go\<close>) over the in-memory stores. A handler takes the decoded request
  (\<open>None\<close> when decoding failed), the caller's address, the random bytes it draws and the clock, and
  returns the new stores; JSON bodies and error texts are left out.
\<close>

section \<open>Configuration\<close>

record voucher_standing =
  vs_DID :: string
  vs_PublicKey :: bytes
  vs_AnchorMethodID :: string
  vs_AnchorVerifiedAt :: time

datatype verifier_error = ErrVoucherCredentialInvalid | VerifierFailed

record inperson_config =
  ic_IssuerDID :: string
  ic_DIDForKey :: "bytes \<Rightarrow> string option"
  ic_Required :: int
  ic_MaxPerPeriod :: int
  ic_Period :: duration
  ic_MinVoucherAge :: duration
  ic_MinVoucherScore :: real
  ic_OfferTTL :: duration
  ic_ReturnTTL :: duration
  ic_VouchValidity :: duration
  ic_SuspendFor :: duration
  ic_PenaltyFactor :: real
  ic_RequireSameNetwork :: bool

definition DefaultInPersonRequired :: int where "DefaultInPersonRequired = 3"
definition DefaultMaxPerPeriod :: int where "DefaultMaxPerPeriod = 2"
definition DefaultPeriod :: duration where "DefaultPeriod = 30 * 24 * ns_hour"
definition DefaultMinVoucherScore :: real where "DefaultMinVoucherScore = 1 / 2"
definition DefaultOfferTTL :: duration where "DefaultOfferTTL = 2 * ns_minute"
definition DefaultReturnTTL :: duration where "DefaultReturnTTL = 90 * ns_second"
definition DefaultVouchValidity :: duration where "DefaultVouchValidity = 30 * 24 * ns_hour"
definition DefaultPenaltyFactor :: real where "DefaultPenaltyFactor = 1 / 2"
definition maxReturnCodeAttempts :: int where "maxReturnCodeAttempts = 5"

definition setDefault :: "'a::linordered_idom \<Rightarrow> 'a \<Rightarrow> 'a" where
  "setDefault v d = (if v \<le> 0 then d else v)"

text \<open>\<open>None\<close> is the panic on an empty issuer DID; the other required dependencies always exist here.\<close>

definition NewInPerson :: "inperson_config \<Rightarrow> inperson_config option" where
  "NewInPerson cfg =
     (if ic_IssuerDID cfg = '''' then None
      else Some (cfg\<lparr>ic_Required := setDefault (ic_Required cfg) DefaultInPersonRequired,
        ic_MaxPerPeriod := setDefault (ic_MaxPerPeriod cfg) DefaultMaxPerPeriod,
        ic_Period := setDefault (ic_Period cfg) DefaultPeriod,
        ic_MinVoucherScore := setDefault (ic_MinVoucherScore cfg) DefaultMinVoucherScore,
        ic_OfferTTL := setDefault (ic_OfferTTL cfg) DefaultOfferTTL,
        ic_ReturnTTL := setDefault (ic_ReturnTTL cfg) DefaultReturnTTL,
        ic_VouchValidity := setDefault (ic_VouchValidity cfg) DefaultVouchValidity,
        ic_SuspendFor := setDefault (ic_SuspendFor cfg) DefaultSuspendFor,
        ic_PenaltyFactor := setDefault (ic_PenaltyFactor cfg) DefaultPenaltyFactor\<rparr>))"

record inperson_state =
  is_graph :: graph_store
  is_store :: inperson_store

text \<open>A \<open>*vouchError\<close> without its message, or any other error.\<close>

datatype vouch_failure = VErr nat string | OtherErr

text \<open>What \<open>handle\<close> writes: status and error code, or the result with 200.\<close>

definition vouch_handle :: "vouch_failure + 'a \<Rightarrow> (nat \<times> string) + 'a" where
  "vouch_handle r = (case r of
       Inr out \<Rightarrow> Inr out
     | Inl (VErr status code) \<Rightarrow> Inl (status, code)
     | Inl OtherErr \<Rightarrow> Inl (500, ''internal_error''))"

section \<open>Standing of a voucher\<close>

record eligibility =
  el_anchored :: bool
  el_weight :: real
  el_left :: int

definition eligible ::
  "inperson_config \<Rightarrow> inperson_state \<Rightarrow> voucher_standing \<Rightarrow> time \<Rightarrow> vouch_failure + eligibility" where
  "eligible cfg w st now =
     (let rec = inperson_Voucher (is_store w) (vs_DID st) in
      if vr_Revoked rec then Inl (VErr 403 ''voucher_revoked'')
      else if now < vr_SuspendedUntil rec then Inl (VErr 403 ''voucher_suspended'')
      else
        (let used = int (length (filter (\<lambda>t. sub_time now t < ic_Period cfg) (vr_VouchTimes rec)));
             left = ic_MaxPerPeriod cfg - used in
         if left \<le> 0 then Inl (VErr 403 ''quota_exhausted'')
         else if vs_AnchorMethodID st \<noteq> '''' then
           (if sub_time now (vs_AnchorVerifiedAt st) < ic_MinVoucherAge cfg
            then Inl (VErr 403 ''voucher_too_new'')
            else Inr \<lparr>el_anchored = True, el_weight = power_int (ic_PenaltyFactor cfg) (vr_Strikes rec),
                      el_left = left\<rparr>)
         else
           (case graph_TrustOf (is_graph w) (vs_DID st) of
              None \<Rightarrow> Inl (VErr 403 ''voucher_not_eligible'')
            | Some trust \<Rightarrow>
                if trust < ic_MinVoucherScore cfg then Inl (VErr 403 ''voucher_not_eligible'')
                else Inr \<lparr>el_anchored = False, el_weight = trust, el_left = left\<rparr>)))"

section \<open>The ceremony\<close>

record offer_response =
  or_OfferCode :: string
  or_QRText :: string
  or_ExpiresAt :: time
  or_VoucherDID :: string
  or_VoucherAnchored :: bool
  or_VouchesLeft :: int

definition fresh_offer ::
  "inperson_config \<Rightarrow> string \<Rightarrow> voucher_standing \<Rightarrow> eligibility \<Rightarrow> string \<Rightarrow> time \<Rightarrow> offer" where
  "fresh_offer cfg code st el ip now =
     \<lparr>of_Code = code, of_VoucherDID = vs_DID st, of_VoucherPub = vs_PublicKey st,
      of_VoucherAnchored = el_anchored el, of_VoucherWeight = el_weight el, of_OfferIP = ip,
      of_CreatedAt = now, of_ExpiresAt = now + ic_OfferTTL cfg, of_State = OfferOpen,
      of_CandidateDID = '''', of_AcceptedAt = 0, of_AcceptIP = '''', of_ReturnCode = '''',
      of_ReturnExpiry = 0, of_BadAttempts = 0\<rparr>"

text \<open>
  \<open>verified\<close> is what the verifier answered for the presented credential, \<open>None\<close> when the request has
  none.
\<close>

definition OfferHandler ::
  "inperson_config \<Rightarrow> inperson_state \<Rightarrow> string \<Rightarrow> (verifier_error + voucher_standing) option \<Rightarrow> bytes option \<Rightarrow> time
    \<Rightarrow> (vouch_failure + offer_response) \<times> inperson_state" where
  "OfferHandler cfg w ip verified rand5 now =
     (case verified of
        None \<Rightarrow> (Inl (VErr 400 ''invalid_request''), w)
      | Some (Inl ErrVoucherCredentialInvalid) \<Rightarrow> (Inl (VErr 401 ''credential_invalid''), w)
      | Some (Inl VerifierFailed) \<Rightarrow> (Inl OtherErr, w)
      | Some (Inr st) \<Rightarrow>
          (case eligible cfg w st now of
             Inl e \<Rightarrow> (Inl e, w)
           | Inr el \<Rightarrow>
               (case newCode rand5 of
                  None \<Rightarrow> (Inl OtherErr, w)
                | Some code \<Rightarrow>
                    (let o1 = fresh_offer cfg code st el ip now in
                     case inperson_PutOffer (is_store w) o1 of
                       (Some e, s) \<Rightarrow> (Inl OtherErr, w\<lparr>is_store := s\<rparr>)
                     | (None, s) \<Rightarrow>
                         (Inr \<lparr>or_OfferCode = code, or_QRText = QRPrefixOffer @ code,
                               or_ExpiresAt = of_ExpiresAt o1, or_VoucherDID = vs_DID st,
                               or_VoucherAnchored = el_anchored el, or_VouchesLeft = el_left el\<rparr>,
                          w\<lparr>is_store := s\<rparr>)))))"

record accept_request =
  aq_OfferCode :: string
  aq_CandidatePublicKeyB64 :: string
  aq_SignatureB64 :: string

record accept_response =
  ar_ReturnCode :: string
  ar_QRText :: string
  ar_ExpiresAt :: time
  ar_CandidateDID :: string
  ar_VoucherDID :: string
  ar_VoucherAnchored :: bool

definition accept_update ::
  "inperson_config \<Rightarrow> string \<Rightarrow> string \<Rightarrow> string \<Rightarrow> time \<Rightarrow> offer \<Rightarrow> vouch_failure + offer" where
  "accept_update cfg candidate returnCode ip now o1 =
     (if of_State o1 \<noteq> OfferOpen then Inl (VErr 409 ''offer_used'')
      else if now > of_ExpiresAt o1 then Inl (VErr 410 ''offer_expired'')
      else if of_VoucherDID o1 = candidate then Inl (VErr 400 ''self_vouch_not_allowed'')
      else Inr (o1\<lparr>of_State := OfferAccepted, of_CandidateDID := candidate, of_AcceptedAt := now,
        of_AcceptIP := ip, of_ReturnCode := returnCode, of_ReturnExpiry := now + ic_ReturnTTL cfg\<rparr>))"

definition AcceptHandler ::
  "inperson_config \<Rightarrow> crypto \<Rightarrow> inperson_state \<Rightarrow> string \<Rightarrow> accept_request option \<Rightarrow> bytes option \<Rightarrow> time
    \<Rightarrow> (vouch_failure + accept_response) \<times> inperson_state" where
  "AcceptHandler cfg cr w ip req0 rand5 now =
     (case req0 of
        None \<Rightarrow> (Inl (VErr 400 ''invalid_request''), w)
      | Some req \<Rightarrow>
          (let code = NormalizeCode (aq_OfferCode req) in
           if code = '''' then (Inl (VErr 400 ''invalid_code''), w)
           else (case decodeB64 (aq_CandidatePublicKeyB64 req) of
               None \<Rightarrow> (Inl (VErr 400 ''invalid_holder_key''), w)
             | Some pub \<Rightarrow>
                 if length pub \<noteq> PublicKeySize then (Inl (VErr 400 ''invalid_holder_key''), w)
                 else (case ic_DIDForKey cfg pub of
                     None \<Rightarrow> (Inl (VErr 400 ''invalid_holder_key''), w)
                   | Some candidate \<Rightarrow>
                       if (case decodeB64 (aq_SignatureB64 req) of None \<Rightarrow> True
                           | Some sig \<Rightarrow> \<not> c_verify cr pub (AcceptMessage (ic_IssuerDID cfg) code candidate) sig)
                       then (Inl (VErr 401 ''signature_invalid''), w)
                       else if vr_Revoked (inperson_Voucher (is_store w) candidate)
                       then (Inl (VErr 403 ''candidate_revoked''), w)
                       else (case newCode rand5 of
                           None \<Rightarrow> (Inl OtherErr, w)
                         | Some returnCode \<Rightarrow>
                             (case inperson_UpdateOffer (is_store w) code
                                     (accept_update cfg candidate returnCode ip now) of
                                (Inl (NoOffer e), s) \<Rightarrow> (Inl (VErr 404 ''offer_not_found''), w\<lparr>is_store := s\<rparr>)
                              | (Inl (FnError e), s) \<Rightarrow> (Inl e, w\<lparr>is_store := s\<rparr>)
                              | (Inr o1, s) \<Rightarrow>
                                  (Inr \<lparr>ar_ReturnCode = returnCode, ar_QRText = QRPrefixReturn @ returnCode,
                                        ar_ExpiresAt = of_ReturnExpiry o1, ar_CandidateDID = candidate,
                                        ar_VoucherDID = of_VoucherDID o1,
                                        ar_VoucherAnchored = of_VoucherAnchored o1\<rparr>,
                                   w\<lparr>is_store := s\<rparr>)))))))"

record status_response =
  sr_State :: string
  sr_ExpiresAt :: time
  sr_VoucherDID :: string
  sr_VoucherAnchored :: bool
  sr_CandidateDID :: string
  sr_ReturnExpiresAt :: "time option"

definition StatusHandler :: "inperson_state \<Rightarrow> string \<Rightarrow> time \<Rightarrow> vouch_failure + status_response" where
  "StatusHandler w code0 now =
     (let code = NormalizeCode code0 in
      if code = '''' then Inl (VErr 400 ''invalid_code'')
      else (case inperson_GetOffer (is_store w) code of
          Inl e \<Rightarrow> Inl (VErr 404 ''offer_not_found'')
        | Inr o1 \<Rightarrow>
            (let st = (if of_State o1 = OfferOpen \<and> now > of_ExpiresAt o1
                   \<or> of_State o1 = OfferAccepted \<and> now > of_ReturnExpiry o1
                 then ''expired'' else offer_state_string (of_State o1)) in
             Inr \<lparr>sr_State = st, sr_ExpiresAt = of_ExpiresAt o1, sr_VoucherDID = of_VoucherDID o1,
                  sr_VoucherAnchored = of_VoucherAnchored o1, sr_CandidateDID = of_CandidateDID o1,
                  sr_ReturnExpiresAt = (if of_ReturnExpiry o1 = 0 then None else Some (of_ReturnExpiry o1))\<rparr>)))"

record confirm_request =
  cq_OfferCode :: string
  cq_ReturnCode :: string
  cq_SignatureB64 :: string

record confirm_response =
  co_CandidateDID :: string
  co_VoucherAnchored :: bool
  co_Weight :: real
  co_RoundTripMS :: int
  co_SameNetwork :: bool
  co_CandidateVouches :: int
  co_Required :: int

datatype confirm_failure = WrongReturnCode | ConfirmRefused vouch_failure

definition confirm_update ::
  "inperson_config \<Rightarrow> crypto \<Rightarrow> string \<Rightarrow> string \<Rightarrow> bytes \<Rightarrow> string \<Rightarrow> time \<Rightarrow> offer \<Rightarrow> confirm_failure + offer" where
  "confirm_update cfg cr code ret sig ip now o1 =
     (if of_State o1 = OfferOpen then Inl (ConfirmRefused (VErr 409 ''offer_not_accepted''))
      else if of_State o1 \<noteq> OfferAccepted then Inl (ConfirmRefused (VErr 409 ''offer_used''))
      else if now > of_ReturnExpiry o1 then Inl (ConfirmRefused (VErr 410 ''offer_expired''))
      else if of_ReturnCode o1 \<noteq> ret then Inl WrongReturnCode
      else if \<not> c_verify cr (of_VoucherPub o1)
          (ConfirmMessage (ic_IssuerDID cfg) code (of_CandidateDID o1) ret) sig
      then Inl (ConfirmRefused (VErr 401 ''signature_invalid''))
      else if ic_RequireSameNetwork cfg \<and> \<not> samePrefix (of_AcceptIP o1) ip
      then Inl (ConfirmRefused (VErr 403 ''not_same_network''))
      else Inr (o1\<lparr>of_State := OfferConfirmed\<rparr>))"

text \<open>The second update, which counts a wrong return code.\<close>

definition count_attempt :: "offer \<Rightarrow> vouch_failure + offer" where
  "count_attempt o1 =
     (let n = of_BadAttempts o1 + 1 in
      Inr (o1\<lparr>of_BadAttempts := n,
              of_State := (if n \<ge> maxReturnCodeAttempts then OfferBurned else of_State o1)\<rparr>))"

fun commitError :: "inperson_error \<Rightarrow> vouch_failure" where
  "commitError ErrVoucherSuspended = VErr 403 ''voucher_suspended''"
| "commitError ErrVoucherRevoked = VErr 403 ''voucher_revoked''"
| "commitError ErrQuotaExhausted = VErr 403 ''quota_exhausted''"
| "commitError ErrAlreadyVouched = VErr 409 ''already_vouched''"
| "commitError ErrCandidateRevoked = VErr 403 ''candidate_revoked''"
| "commitError _ = OtherErr"

text \<open>\<open>Duration.Milliseconds\<close> truncates toward zero.\<close>

definition milliseconds :: "duration \<Rightarrow> int" where
  "milliseconds d = (if 0 \<le> d then d div 1000000 else - ((- d) div 1000000))"

definition vouch_of_offer :: "offer \<Rightarrow> string \<Rightarrow> time \<Rightarrow> inperson_vouch" where
  "vouch_of_offer o1 ip now =
     \<lparr>iv_CandidateDID = of_CandidateDID o1, iv_VoucherDID = of_VoucherDID o1,
      iv_VoucherAnchored = of_VoucherAnchored o1, iv_Weight = of_VoucherWeight o1, iv_At = now,
      iv_RoundTrip = sub_time now (of_CreatedAt o1), iv_SameNetwork = samePrefix (of_AcceptIP o1) ip\<rparr>"

text \<open>What follows the claimed offer: the commit, then the supplementary graph.\<close>

definition confirm_commit ::
  "inperson_config \<Rightarrow> inperson_state \<Rightarrow> inperson_vouch \<Rightarrow> (vouch_failure + confirm_response) \<times> inperson_state" where
  "confirm_commit cfg w v =
     (case inperson_CommitVouch (is_store w) v (ic_MaxPerPeriod cfg) (ic_Period cfg) of
        (Some e, s) \<Rightarrow> (Inl (commitError e), w\<lparr>is_store := s\<rparr>)
      | (None, s) \<Rightarrow>
          (let g = graph_RecordVouch (is_graph w) (iv_CandidateDID v)
                 \<lparr>vo_VoucherID = iv_VoucherDID v, vo_Weight = iv_Weight v, vo_At = iv_At v\<rparr> in
           (Inr \<lparr>co_CandidateDID = iv_CandidateDID v, co_VoucherAnchored = iv_VoucherAnchored v,
                 co_Weight = iv_Weight v, co_RoundTripMS = milliseconds (iv_RoundTrip v),
                 co_SameNetwork = iv_SameNetwork v,
                 co_CandidateVouches = int (length (inperson_VouchesFor s (iv_CandidateDID v))),
                 co_Required = ic_Required cfg\<rparr>,
            w\<lparr>is_graph := g, is_store := s\<rparr>)))"

definition ConfirmHandler ::
  "inperson_config \<Rightarrow> crypto \<Rightarrow> inperson_state \<Rightarrow> string \<Rightarrow> confirm_request option \<Rightarrow> time
    \<Rightarrow> (vouch_failure + confirm_response) \<times> inperson_state" where
  "ConfirmHandler cfg cr w ip req0 now =
     (case req0 of
        None \<Rightarrow> (Inl (VErr 400 ''invalid_request''), w)
      | Some req \<Rightarrow>
          (let code = NormalizeCode (cq_OfferCode req); ret = NormalizeCode (cq_ReturnCode req) in
           if code = '''' \<or> ret = '''' then (Inl (VErr 400 ''invalid_code''), w)
           else (case decodeB64 (cq_SignatureB64 req) of
               None \<Rightarrow> (Inl (VErr 400 ''invalid_request''), w)
             | Some sig \<Rightarrow>
                 (case inperson_UpdateOffer (is_store w) code (confirm_update cfg cr code ret sig ip now) of
                    (Inl (FnError WrongReturnCode), s) \<Rightarrow>
                      (Inl (VErr 401 ''return_code_wrong''),
                       w\<lparr>is_store := snd (inperson_UpdateOffer s code count_attempt)\<rparr>)
                  | (Inl (NoOffer e), s) \<Rightarrow> (Inl (VErr 404 ''offer_not_found''), w\<lparr>is_store := s\<rparr>)
                  | (Inl (FnError (ConfirmRefused e)), s) \<Rightarrow> (Inl e, w\<lparr>is_store := s\<rparr>)
                  | (Inr o1, s) \<Rightarrow> confirm_commit cfg (w\<lparr>is_store := s\<rparr>) (vouch_of_offer o1 ip now)))))"

section \<open>Accountability\<close>

record penalty_report =
  pr_CandidateDID :: string
  pr_AlreadyRevoked :: bool
  pr_Vouchers :: "(string \<times> int) list"

text \<open>The sorted keys of the set of vouchers, in person or through the graph.\<close>

definition all_vouchers :: "inperson_state \<Rightarrow> string \<Rightarrow> string list" where
  "all_vouchers w candidate =
     sort (remdups (map iv_VoucherDID (inperson_VouchesFor (is_store w) candidate)
       @ map vo_VoucherID (graph_VouchesFor (is_graph w) candidate)))"

text \<open>The loops over the reported strikes: every known voucher's trust is changed by \<open>f\<close>.\<close>

definition rescale :: "(real \<Rightarrow> real) \<Rightarrow> string \<Rightarrow> graph_store \<Rightarrow> graph_store" where
  "rescale f d g = (case graph_TrustOf g d of None \<Rightarrow> g | Some trust \<Rightarrow> graph_Enroll g d (f trust))"

definition InPerson_Penalize ::
  "inperson_config \<Rightarrow> inperson_state \<Rightarrow> string \<Rightarrow> time \<Rightarrow> penalty_report \<times> inperson_state" where
  "InPerson_Penalize cfg w candidate now =
     (case inperson_Penalize (is_store w) candidate (all_vouchers w candidate) now (ic_SuspendFor cfg) of
        (None, s) \<Rightarrow> (\<lparr>pr_CandidateDID = candidate, pr_AlreadyRevoked = True, pr_Vouchers = []\<rparr>, w\<lparr>is_store := s\<rparr>)
      | (Some strikes, s) \<Rightarrow>
          (\<lparr>pr_CandidateDID = candidate, pr_AlreadyRevoked = False, pr_Vouchers = strikes\<rparr>,
           w\<lparr>is_store := s,
             is_graph := fold (rescale (\<lambda>trust. trust * ic_PenaltyFactor cfg)) (map fst strikes)
               (graph_Remove (is_graph w) candidate)\<rparr>))"

definition restore_trust :: "inperson_config \<Rightarrow> real \<Rightarrow> real" where
  "restore_trust cfg trust =
     (let t = trust / ic_PenaltyFactor cfg in if t > 1 then 1 else t)"

definition InPerson_Reinstate ::
  "inperson_config \<Rightarrow> inperson_state \<Rightarrow> string \<Rightarrow> penalty_report \<times> inperson_state" where
  "InPerson_Reinstate cfg w candidate =
     (case inperson_Reinstate (is_store w) candidate of
        (None, s) \<Rightarrow> (\<lparr>pr_CandidateDID = candidate, pr_AlreadyRevoked = True, pr_Vouchers = []\<rparr>, w\<lparr>is_store := s\<rparr>)
      | (Some strikes, s) \<Rightarrow>
          (\<lparr>pr_CandidateDID = candidate, pr_AlreadyRevoked = False, pr_Vouchers = strikes\<rparr>,
           w\<lparr>is_store := s,
             is_graph := (if ic_PenaltyFactor cfg > 0
               then fold (rescale (restore_trust cfg)) (map fst strikes) (is_graph w) else is_graph w)\<rparr>))"

section \<open>The anchor\<close>

definition AnchorMethod_Metadata :: method_metadata where
  "AnchorMethod_Metadata = \<lparr>md_ID = InPersonMethodID, md_Type = MethodTypeAnchor, md_Strength = 55,
     md_CostUSD = 0, md_UXFriction = ''high'', md_PlatformRequirements = [],
     md_FreshnessLifetime = 180 * 24 * ns_hour, md_Version = ''0.1.0''\<rparr>"

definition AnchorMethod_BeginCeremony :: "inperson_config \<Rightarrow> ceremony_context \<Rightarrow> challenge_data option" where
  "AnchorMethod_BeginCeremony cfg cc =
     (if \<not> has_prefix (cc_HolderDID cc) ''did:key:'' then None
      else
        (let base = ''/v1/methods/'' @ InPersonMethodID @ ''/'' in
         Some \<lparr>ch_Type = ''in-person-vouch-challenge'',
           ch_Payload = [(''candidate_did'', JString (cc_HolderDID cc)), (''required'', JNum (ic_Required cfg)),
             (''accept_endpoint'', JString (base @ ''accept'')), (''status_endpoint'', JString (base @ ''status'')),
             (''instructions'', JString ''Meet each voucher in person. Scan the code on their phone, then let them scan the code on yours.'')]\<rparr>))"

definition anchorVouchers :: "inperson_config \<Rightarrow> inperson_state \<Rightarrow> string \<Rightarrow> time \<Rightarrow> string list" where
  "anchorVouchers cfg w candidate now =
     sort (map iv_VoucherDID (filter (\<lambda>v. \<not> (\<not> iv_VoucherAnchored v \<or> sub_time now (iv_At v) > ic_VouchValidity cfg)
         \<and> \<not> vr_Revoked (inperson_Voucher (is_store w) (iv_VoucherDID v)))
       (inperson_VouchesFor (is_store w) candidate)))"

definition AnchorVouchers :: "inperson_config \<Rightarrow> inperson_state \<Rightarrow> string \<Rightarrow> time \<Rightarrow> string list" where
  "AnchorVouchers cfg w candidate now = anchorVouchers cfg w candidate now"

definition VoucherDIDsFor :: "inperson_state \<Rightarrow> string \<Rightarrow> string list" where
  "VoucherDIDsFor w candidate = sort (map iv_VoucherDID (inperson_VouchesFor (is_store w) candidate))"

definition failed_result :: "string \<Rightarrow> string \<Rightarrow> method_result" where
  "failed_result mid reason = \<lparr>mr_Success = False, mr_MethodID = mid, mr_VerifiedAt = 0,
     mr_AttestationDigest = '''', mr_ErrorReason = reason, mr_VerifiedIdentifier = ''''\<rparr>"

definition passed_result :: "string \<Rightarrow> time \<Rightarrow> string \<Rightarrow> method_result" where
  "passed_result mid now digest = \<lparr>mr_Success = True, mr_MethodID = mid, mr_VerifiedAt = now,
     mr_AttestationDigest = digest, mr_ErrorReason = '''', mr_VerifiedIdentifier = ''''\<rparr>"

definition AnchorMethod_CompleteCeremony ::
  "inperson_config \<Rightarrow> crypto \<Rightarrow> inperson_state \<Rightarrow> ceremony_context \<Rightarrow> time \<Rightarrow> method_result" where
  "AnchorMethod_CompleteCeremony cfg cr w cc now =
     (let candidate = cc_HolderDID cc in
      if \<not> has_prefix candidate ''did:key:'' then failed_result InPersonMethodID ''holder_key_required''
      else if vr_Revoked (inperson_Voucher (is_store w) candidate)
      then failed_result InPersonMethodID ''candidate_revoked''
      else
        (let counted = anchorVouchers cfg w candidate now in
         if int (length counted) < ic_Required cfg
         then failed_result InPersonMethodID (''insufficient_vouches:have='' @ int_string (int (length counted))
           @ ''/'' @ int_string (ic_Required cfg))
         else passed_result InPersonMethodID now
           (sha256_hex cr (InPersonTag @ [byte 0] @ candidate @ concat (map (\<lambda>v. byte 0 # v) counted)))))"

section \<open>The supplementary graph method\<close>

record vouch_method =
  me_requiredVouches :: int
  me_requiredScore :: real
  me_decayFactor :: real

definition NewMethod :: "int \<Rightarrow> real \<Rightarrow> real \<Rightarrow> vouch_method" where
  "NewMethod requiredVouches requiredScore decayFactor =
     \<lparr>me_requiredVouches = (if requiredVouches \<le> 0 then 3 else requiredVouches),
      me_requiredScore = (if requiredScore \<le> 0 then 3 / 2 else requiredScore),
      me_decayFactor = (if decayFactor \<le> 0 then 3 / 4 else decayFactor)\<rparr>"

definition GraphMethodID :: string where
  "GraphMethodID = ''social-vouching-graph''"

definition GraphMethod_Metadata :: method_metadata where
  "GraphMethod_Metadata = \<lparr>md_ID = GraphMethodID, md_Type = MethodTypeSupplementary, md_Strength = 35,
     md_CostUSD = 0, md_UXFriction = ''high'', md_PlatformRequirements = [],
     md_FreshnessLifetime = 90 * 24 * ns_hour, md_Version = ''0.1.0''\<rparr>"

definition candidateKey :: "ceremony_context \<Rightarrow> string" where
  "candidateKey cc = (if cc_HolderDID cc \<noteq> '''' then cc_HolderDID cc else cc_SessionID cc)"

definition GraphMethod_BeginCeremony :: "vouch_method \<Rightarrow> ceremony_context \<Rightarrow> challenge_data option" where
  "GraphMethod_BeginCeremony m cc =
     (if cc_SessionID cc = '''' then None
      else Some \<lparr>ch_Type = ''social-vouching-challenge'',
        ch_Payload = [(''candidate_code'', JString (candidateKey cc)),
          (''vouch_endpoint'', JString (''/v1/methods/'' @ GraphMethodID @ ''/vouch'')),
          (''complete_endpoint'', JString (''/v1/methods/'' @ GraphMethodID @ ''/complete'')),
          (''required_vouches'', JNum (me_requiredVouches m)), (''required_score'', JReal (me_requiredScore m)),
          (''instructions'', JString ''Share candidate_code with an existing vouched member; once enough members vouch for you at vouch_endpoint, complete_endpoint will report success.'')]\<rparr>)"

definition vouchDigest :: "crypto \<Rightarrow> string \<Rightarrow> vouch list \<Rightarrow> string" where
  "vouchDigest cr candidate vouches =
     sha256_hex cr (candidate @ concat (map (\<lambda>v. byte 0 # vo_VoucherID v) (sort_key vo_VoucherID vouches)))"

text \<open>\<open>fmt2\<close> is the \<open>%.2f\<close> of the refusal.\<close>

definition GraphMethod_CompleteCeremony ::
  "(real \<Rightarrow> string) \<Rightarrow> vouch_method \<Rightarrow> crypto \<Rightarrow> graph_store \<Rightarrow> ceremony_context \<Rightarrow> time
    \<Rightarrow> method_result \<times> graph_store" where
  "GraphMethod_CompleteCeremony fmt2 m cr g cc now =
     (if cc_SessionID cc = '''' then (failed_result GraphMethodID ''missing_session_id'', g)
      else
        (let candidate = candidateKey cc;
             vouches = graph_VouchesFor g candidate;
             score = sum_list (map vo_Weight vouches) in
         if int (length vouches) < me_requiredVouches m \<or> score < me_requiredScore m
         then (failed_result GraphMethodID (''insufficient_vouches:have='' @ int_string (int (length vouches)) @ ''/''
             @ int_string (me_requiredVouches m) @ '',score='' @ fmt2 score @ ''/'' @ fmt2 (me_requiredScore m)), g)
         else
           (let avg = score / real (length vouches);
                trust = (if avg * me_decayFactor m > 1 then 1 else avg * me_decayFactor m) in
            (passed_result GraphMethodID now (vouchDigest cr candidate vouches), graph_Enroll g candidate trust))))"

text \<open>\<open>HMACDevAuthenticator\<close> and the route that uses it; \<open>None\<close> is a body that does not decode.\<close>

definition vouchProof :: "crypto \<Rightarrow> bytes \<Rightarrow> string \<Rightarrow> string \<Rightarrow> string" where
  "vouchProof cr secret voucherID candidateID =
     hex_encode (c_hmac cr secret (voucherID @ ''.'' @ candidateID))"

definition HMAC_Authenticate :: "crypto \<Rightarrow> bytes \<Rightarrow> string \<Rightarrow> string \<Rightarrow> string \<Rightarrow> bool" where
  "HMAC_Authenticate cr secret voucherID candidateID prf \<longleftrightarrow> vouchProof cr secret voucherID candidateID = prf"

definition RejectAll_Authenticate :: "string \<Rightarrow> string \<Rightarrow> string \<Rightarrow> bool" where
  "RejectAll_Authenticate voucherID candidateID prf = False"

record vouch_request =
  vq_CandidateID :: string
  vq_VoucherID :: string
  vq_Proof :: string

definition VouchHandler ::
  "(string \<Rightarrow> string \<Rightarrow> string \<Rightarrow> bool) \<Rightarrow> graph_store \<Rightarrow> string \<Rightarrow> vouch_request option \<Rightarrow> time
    \<Rightarrow> (nat \<times> string + real) \<times> graph_store" where
  "VouchHandler authenticate g meth req0 now =
     (if meth \<noteq> ''POST'' then (Inl (405, ''method_not_allowed''), g)
      else (case req0 of
          None \<Rightarrow> (Inl (400, ''invalid_request''), g)
        | Some req \<Rightarrow>
            if vq_CandidateID req = '''' \<or> vq_VoucherID req = '''' \<or> vq_Proof req = ''''
            then (Inl (400, ''missing_fields''), g)
            else if \<not> authenticate (vq_VoucherID req) (vq_CandidateID req) (vq_Proof req)
            then (Inl (401, ''proof_invalid''), g)
            else (case graph_TrustOf g (vq_VoucherID req) of
                None \<Rightarrow> (Inl (403, ''unknown_voucher''), g)
              | Some trust \<Rightarrow>
                  if vq_VoucherID req = vq_CandidateID req then (Inl (400, ''self_vouch_not_allowed''), g)
                  else (Inr trust, graph_RecordVouch g (vq_CandidateID req)
                    \<lparr>vo_VoucherID = vq_VoucherID req, vo_Weight = trust, vo_At = now\<rparr>))))"

section \<open>Runs of the ceremony\<close>

text \<open>
  One request or operator action at a time, with a clock that does not go back. The verifier only
  reports a holder with the key its did:key encodes, as \<open>Server.VerifyVoucherCredential\<close> does.
\<close>

inductive vouch_step ::
  "inperson_config \<Rightarrow> crypto \<Rightarrow> inperson_state \<times> time \<Rightarrow> inperson_state \<times> time \<Rightarrow> bool" for cfg cr where
  step_offer: "t \<le> now \<Longrightarrow> (\<And>st. verified = Some (Inr st) \<Longrightarrow> Ed25519FromDIDKey (vs_DID st) = Some (vs_PublicKey st)) \<Longrightarrow>
     OfferHandler cfg w ip verified rnd now = (r1, w') \<Longrightarrow> vouch_step cfg cr (w, t) (w', now)"
| step_accept: "t \<le> now \<Longrightarrow> AcceptHandler cfg cr w ip req rnd now = (r2, w') \<Longrightarrow> vouch_step cfg cr (w, t) (w', now)"
| step_confirm: "t \<le> now \<Longrightarrow> ConfirmHandler cfg cr w ip creq now = (r3, w') \<Longrightarrow> vouch_step cfg cr (w, t) (w', now)"
| step_penalize: "t \<le> now \<Longrightarrow> InPerson_Penalize cfg w candidate now = (r4, w') \<Longrightarrow> vouch_step cfg cr (w, t) (w', now)"
| step_reinstate: "t \<le> now \<Longrightarrow> InPerson_Reinstate cfg w candidate = (r5, w') \<Longrightarrow> vouch_step cfg cr (w, t) (w', now)"
| step_vouch: "t \<le> now \<Longrightarrow> VouchHandler authenticate (is_graph w) meth vreq now = (r6, g) \<Longrightarrow>
     vouch_step cfg cr (w, t) (w\<lparr>is_graph := g\<rparr>, now)"
| step_graduate: "t \<le> now \<Longrightarrow> GraphMethod_CompleteCeremony fmt2 m cr (is_graph w) cc now = (r7, g) \<Longrightarrow>
     vouch_step cfg cr (w, t) (w\<lparr>is_graph := g\<rparr>, now)"

inductive_cases vouch_stepE [consumes 1, case_names offer accept confirm penalize reinstate vouch graduate]:
  "vouch_step cfg cr (w, t) (w', t')"

inductive vouch_run :: "inperson_config \<Rightarrow> crypto \<Rightarrow> inperson_state \<times> time \<Rightarrow> bool" for cfg cr where
  run_start: "vouch_run cfg cr
     (\<lparr>is_graph = NewInMemoryGraphStore seeds, is_store = NewInMemoryInPersonStore\<rparr>, t)"
| run_step: "vouch_run cfg cr wt \<Longrightarrow> vouch_step cfg cr wt wt' \<Longrightarrow> vouch_run cfg cr wt'"

section \<open>What the handlers do to the offers\<close>

lemma OfferHandler_store:
  assumes "OfferHandler cfg w ip verified rnd now = (r, w')"
  shows "w' = w \<or> (\<exists>st code el. verified = Some (Inr st) \<and> is_graph w' = is_graph w \<and>
     eligible cfg w st now = Inr el \<and>
     is_store w' = snd (inperson_PutOffer (is_store w) (fresh_offer cfg code st el ip now)))"
  using assms unfolding OfferHandler_def Let_def
  by (auto split: option.splits sum.splits verifier_error.splits prod.splits; metis snd_conv)

lemma update_snd:
  "snd (case u of (Inl (NoOffer e), s) \<Rightarrow> (a e, w\<lparr>is_store := s\<rparr>)
      | (Inl (FnError e), s) \<Rightarrow> (b e, w\<lparr>is_store := s\<rparr>)
      | (Inr o1, s) \<Rightarrow> (c o1, w\<lparr>is_store := s\<rparr>)) = w\<lparr>is_store := snd u\<rparr>"
  by (auto split: prod.split sum.split update_error.split)

lemma AcceptHandler_store:
  assumes "AcceptHandler cfg cr w ip req rnd now = (r, w')"
  shows "w' = w \<or> (\<exists>code candidate pub sig ret. ic_DIDForKey cfg pub = Some candidate \<and>
     c_verify cr pub (AcceptMessage (ic_IssuerDID cfg) code candidate) sig \<and>
     \<not> vr_Revoked (inperson_Voucher (is_store w) candidate) \<and>
     w' = w\<lparr>is_store := snd (inperson_UpdateOffer (is_store w) code (accept_update cfg candidate ret ip now))\<rparr>)"
proof -
  have "snd (AcceptHandler cfg cr w ip req rnd now) = w \<or> (\<exists>code candidate pub sig ret. ic_DIDForKey cfg pub = Some candidate \<and>
     c_verify cr pub (AcceptMessage (ic_IssuerDID cfg) code candidate) sig \<and>
     \<not> vr_Revoked (inperson_Voucher (is_store w) candidate) \<and>
     snd (AcceptHandler cfg cr w ip req rnd now)
       = w\<lparr>is_store := snd (inperson_UpdateOffer (is_store w) code (accept_update cfg candidate ret ip now))\<rparr>)"
    unfolding AcceptHandler_def Let_def
    by (simp add: update_snd split: option.split; blast)
  then show ?thesis using assms by simp
qed

lemma UpdateOffer_cases:
  "inperson_UpdateOffer s code fn = (r, s') \<Longrightarrow>
     (case ip_offers s code of None \<Rightarrow> r = Inl (NoOffer ErrOfferNotFound) \<and> s' = s
      | Some o1 \<Rightarrow> (case fn o1 of Inl e \<Rightarrow> r = Inl (FnError e) \<and> s' = s
         | Inr o2 \<Rightarrow> r = Inr o2 \<and> s' = s\<lparr>ip_offers := (ip_offers s)(code \<mapsto> o2)\<rparr>))"
  by (auto simp: inperson_UpdateOffer_def split: option.splits sum.splits)

lemma commit_snd:
  "is_store (snd (confirm_commit cfg w v)) = snd (inperson_CommitVouch (is_store w) v (ic_MaxPerPeriod cfg) (ic_Period cfg))"
  by (auto simp: confirm_commit_def Let_def split: prod.split option.split)

text \<open>The three ways a confirmation ends: nothing, a counted wrong code, or a claimed offer.\<close>

lemma ConfirmHandler_store:
  assumes "ConfirmHandler cfg cr w ip req now = (r, w')"
  shows "is_store w' = is_store w \<or>
     (\<exists>code o1. ip_offers (is_store w) code = Some o1 \<and> of_State o1 = OfferAccepted \<and>
        is_store w' = snd (inperson_UpdateOffer (is_store w) code count_attempt)) \<or>
     (\<exists>code ret sig o1 o2. ip_offers (is_store w) code = Some o1 \<and>
        confirm_update cfg cr code ret sig ip now o1 = Inr o2 \<and>
        is_store w' = snd (inperson_CommitVouch ((is_store w)\<lparr>ip_offers := (ip_offers (is_store w))(code \<mapsto> o2)\<rparr>)
          (vouch_of_offer o2 ip now) (ic_MaxPerPeriod cfg) (ic_Period cfg)))"
    (is "?P w'")
proof (cases req)
  case (Some q)
  define code where "code = NormalizeCode (cq_OfferCode q)"
  define ret where "ret = NormalizeCode (cq_ReturnCode q)"
  show ?thesis
  proof (cases "code = '''' \<or> ret = '''' \<or> decodeB64 (cq_SignatureB64 q) = None \<or> ip_offers (is_store w) code = None")
    case True
    then have "is_store w' = is_store w"
      using assms Some unfolding ConfirmHandler_def code_def [symmetric] ret_def [symmetric]
      by (auto simp: Let_def code_def [symmetric] ret_def [symmetric] inperson_UpdateOffer_def split: if_splits option.splits)
    then show ?thesis by simp
  next
    case False
    then obtain sig o1 where sig: "decodeB64 (cq_SignatureB64 q) = Some sig" and o1: "ip_offers (is_store w) code = Some o1"
      by auto
    define u where "u = confirm_update cfg cr code ret sig ip now o1"
    have eq: "ConfirmHandler cfg cr w ip req now =
      (case u of Inl WrongReturnCode \<Rightarrow> (Inl (VErr 401 ''return_code_wrong''),
           w\<lparr>is_store := snd (inperson_UpdateOffer (is_store w) code count_attempt)\<rparr>)
       | Inl (ConfirmRefused e) \<Rightarrow> (Inl e, w)
       | Inr o2 \<Rightarrow> confirm_commit cfg
          (w\<lparr>is_store := (is_store w)\<lparr>ip_offers := (ip_offers (is_store w))(code \<mapsto> o2)\<rparr>\<rparr>) (vouch_of_offer o2 ip now))"
      using False sig o1 Some unfolding ConfirmHandler_def u_def
      by (simp add: Let_def code_def [symmetric] ret_def [symmetric] inperson_UpdateOffer_def
        split: sum.split confirm_failure.split)
    show ?thesis
    proof (cases u)
      case (Inr o2)
      then have "is_store w' = snd (inperson_CommitVouch ((is_store w)\<lparr>ip_offers := (ip_offers (is_store w))(code \<mapsto> o2)\<rparr>)
          (vouch_of_offer o2 ip now) (ic_MaxPerPeriod cfg) (ic_Period cfg))"
        using commit_snd [of cfg "w\<lparr>is_store := (is_store w)\<lparr>ip_offers := (ip_offers (is_store w))(code \<mapsto> o2)\<rparr>\<rparr>"
            "vouch_of_offer o2 ip now"] assms eq by simp
      then show ?thesis using o1 Inr unfolding u_def by blast
    next
      case (Inl e)
      show ?thesis
      proof (cases e)
        case WrongReturnCode
        then have "of_State o1 = OfferAccepted"
          using Inl unfolding u_def confirm_update_def by (auto split: if_splits)
        moreover have "is_store w' = snd (inperson_UpdateOffer (is_store w) code count_attempt)"
          using Inl WrongReturnCode assms eq by auto
        ultimately show ?thesis using o1 by blast
      qed (use Inl assms eq in auto)
    qed
  qed
qed (use assms in \<open>simp add: ConfirmHandler_def\<close>)

section \<open>The invariant of the ceremony\<close>

text \<open>The candidate's key signed for this offer code.\<close>

definition accepted_by :: "inperson_config \<Rightarrow> crypto \<Rightarrow> string \<Rightarrow> string \<Rightarrow> bool" where
  "accepted_by cfg cr code candidate \<longleftrightarrow> (\<exists>pub sig. ic_DIDForKey cfg pub = Some candidate \<and>
     c_verify cr pub (AcceptMessage (ic_IssuerDID cfg) code candidate) sig)"

definition confirmed_by :: "inperson_config \<Rightarrow> crypto \<Rightarrow> string \<Rightarrow> string \<Rightarrow> string \<Rightarrow> bool" where
  "confirmed_by cfg cr code candidate voucher \<longleftrightarrow> (\<exists>pub ret sig. Ed25519FromDIDKey voucher = Some pub \<and>
     c_verify cr pub (ConfirmMessage (ic_IssuerDID cfg) code candidate ret) sig)"

definition offer_ok :: "inperson_config \<Rightarrow> crypto \<Rightarrow> time \<Rightarrow> string \<Rightarrow> offer \<Rightarrow> bool" where
  "offer_ok cfg cr t code o1 \<longleftrightarrow>
     Ed25519FromDIDKey (of_VoucherDID o1) = Some (of_VoucherPub o1) \<and> of_CreatedAt o1 \<le> t \<and>
     of_ExpiresAt o1 = of_CreatedAt o1 + ic_OfferTTL cfg \<and>
     0 \<le> of_BadAttempts o1 \<and> of_BadAttempts o1 \<le> maxReturnCodeAttempts \<and>
     (of_State o1 = OfferBurned \<longleftrightarrow> of_BadAttempts o1 = maxReturnCodeAttempts) \<and>
     (of_State o1 \<noteq> OfferOpen \<longrightarrow> of_VoucherDID o1 \<noteq> of_CandidateDID o1 \<and>
        accepted_by cfg cr code (of_CandidateDID o1) \<and>
        of_ReturnExpiry o1 \<le> of_CreatedAt o1 + ic_OfferTTL cfg + ic_ReturnTTL cfg)"

definition vouch_ok :: "inperson_config \<Rightarrow> crypto \<Rightarrow> time \<Rightarrow> string \<Rightarrow> string \<Rightarrow> inperson_vouch \<Rightarrow> bool" where
  "vouch_ok cfg cr t c d v \<longleftrightarrow> iv_CandidateDID v = c \<and> iv_VoucherDID v = d \<and> c \<noteq> d \<and> iv_At v \<le> t \<and>
     0 \<le> iv_RoundTrip v \<and> iv_RoundTrip v \<le> ic_OfferTTL cfg + ic_ReturnTTL cfg \<and>
     (\<exists>code. accepted_by cfg cr code c \<and> confirmed_by cfg cr code c d)"

definition store_ok :: "inperson_config \<Rightarrow> crypto \<Rightarrow> time \<Rightarrow> inperson_store \<Rightarrow> bool" where
  "store_ok cfg cr t s \<longleftrightarrow>
     (\<forall>code o1. ip_offers s code = Some o1 \<longrightarrow> offer_ok cfg cr t code o1) \<and>
     (\<forall>c d v. map_of (entries (ip_vouches s) c) d = Some v \<longrightarrow> vouch_ok cfg cr t c d v) \<and>
     (\<forall>c. distinct (map fst (entries (ip_vouches s) c)))"

lemma offer_ok_later: "offer_ok cfg cr t code o1 \<Longrightarrow> t \<le> now \<Longrightarrow> offer_ok cfg cr now code o1"
  by (simp add: offer_ok_def)

lemma vouch_ok_later: "vouch_ok cfg cr t c d v \<Longrightarrow> t \<le> now \<Longrightarrow> vouch_ok cfg cr now c d v"
  by (auto simp: vouch_ok_def)

lemma store_ok_later: "store_ok cfg cr t s \<Longrightarrow> t \<le> now \<Longrightarrow> store_ok cfg cr now s"
  using offer_ok_later vouch_ok_later unfolding store_ok_def by blast

lemma store_ok_same:
  "store_ok cfg cr t s \<Longrightarrow> ip_offers s' = ip_offers s \<Longrightarrow> ip_vouches s' = ip_vouches s \<Longrightarrow> store_ok cfg cr t s'"
  by (simp add: store_ok_def)

lemma store_ok_put:
  assumes "store_ok cfg cr t s" "offer_ok cfg cr t (of_Code o1) o1"
  shows "store_ok cfg cr t (snd (inperson_PutOffer s o1))"
  using assms unfolding inperson_PutOffer_def store_ok_def gcOffers_def Let_def
  by (auto split: option.splits if_splits)

lemma store_ok_set_offer:
  assumes "store_ok cfg cr t s" "offer_ok cfg cr t code o1"
  shows "store_ok cfg cr t (s\<lparr>ip_offers := (ip_offers s)(code \<mapsto> o1)\<rparr>)"
  using assms by (simp add: store_ok_def)

lemma store_ok_update:
  assumes "store_ok cfg cr t s" "\<And>o1 o2. offer_ok cfg cr t code o1 \<Longrightarrow> ip_offers s code = Some o1 \<Longrightarrow>
    fn o1 = Inr o2 \<Longrightarrow> offer_ok cfg cr t code o2"
  shows "store_ok cfg cr t (snd (inperson_UpdateOffer s code fn))"
proof (cases "ip_offers s code")
  case (Some o1)
  then have "offer_ok cfg cr t code o1" using assms(1) by (simp add: store_ok_def)
  then show ?thesis
    using Some assms store_ok_set_offer [OF assms(1)] by (auto simp: inperson_UpdateOffer_def split: sum.split)
qed (use assms in \<open>simp add: inperson_UpdateOffer_def\<close>)

lemma store_ok_commit:
  assumes "store_ok cfg cr t s" "vouch_ok cfg cr t (iv_CandidateDID v) (iv_VoucherDID v) v"
  shows "store_ok cfg cr t (snd (inperson_CommitVouch s v m p))"
proof (cases "inperson_CommitVouch s v m p")
  case (Pair r s')
  show ?thesis
  proof (cases r)
    case None
    then have "inperson_CommitVouch s v m p = (None, s')" using Pair by simp
    then have "ip_offers s' = ip_offers s" "ip_vouches s' = (ip_vouches s)(iv_CandidateDID v \<mapsto>
        alist_put (iv_VoucherDID v) v (entries (ip_vouches s) (iv_CandidateDID v)))"
      unfolding CommitVouch_None by simp_all
    then show ?thesis using assms Pair by (auto simp: store_ok_def simp del: map_of_eq_Some_iff)
  next
    case (Some e)
    then show ?thesis using Pair assms(1) CommitVouch_Some [of s v m p e s'] by simp
  qed
qed

lemma accept_update_ok:
  assumes "accept_update cfg candidate ret ip now o1 = Inr o2" "offer_ok cfg cr now code o1"
    and "accepted_by cfg cr code candidate"
  shows "offer_ok cfg cr now code o2"
  using assms unfolding accept_update_def offer_ok_def by (auto split: if_splits)

lemma count_attempt_ok:
  assumes "count_attempt o1 = Inr o2" "offer_ok cfg cr now code o1" "of_State o1 = OfferAccepted"
  shows "offer_ok cfg cr now code o2"
  using assms unfolding count_attempt_def offer_ok_def maxReturnCodeAttempts_def Let_def
  by (auto split: if_splits)

lemma confirm_update_ok:
  assumes "confirm_update cfg cr code ret sig ip now o1 = Inr o2" "offer_ok cfg cr now code o1"
  shows "offer_ok cfg cr now code o2"
    and "vouch_ok cfg cr now (of_CandidateDID o2) (of_VoucherDID o2) (vouch_of_offer o2 ip now)"
proof -
  have o2: "o2 = o1\<lparr>of_State := OfferConfirmed\<rparr>" and st: "of_State o1 = OfferAccepted"
    and le: "now \<le> of_ReturnExpiry o1"
    and sig: "c_verify cr (of_VoucherPub o1) (ConfirmMessage (ic_IssuerDID cfg) code (of_CandidateDID o1) ret) sig"
    using assms(1) unfolding confirm_update_def by (cases "of_State o1"; auto split: if_splits)+
  show "offer_ok cfg cr now code o2" using assms(2) o2 st by (auto simp: offer_ok_def)
  have "confirmed_by cfg cr code (of_CandidateDID o1) (of_VoucherDID o1)"
    using assms(2) sig by (auto simp: confirmed_by_def offer_ok_def)
  moreover have "0 \<le> sub_time now (of_CreatedAt o1) \<and>
      sub_time now (of_CreatedAt o1) \<le> ic_OfferTTL cfg + ic_ReturnTTL cfg"
    using assms(2) le st by (auto simp: offer_ok_def sub_time_def Let_def max_int64_def min_int64_def)
  ultimately show "vouch_ok cfg cr now (of_CandidateDID o2) (of_VoucherDID o2) (vouch_of_offer o2 ip now)"
    using assms(2) o2 st by (auto simp: vouch_ok_def vouch_of_offer_def offer_ok_def)
qed

lemma Penalize_store: "InPerson_Penalize cfg w candidate now = (r, w') \<Longrightarrow>
    is_store w' = snd (inperson_Penalize (is_store w) candidate (all_vouchers w candidate) now (ic_SuspendFor cfg))"
  by (auto simp: InPerson_Penalize_def split: prod.splits option.splits)

lemma Reinstate_store: "InPerson_Reinstate cfg w candidate = (r, w') \<Longrightarrow>
    is_store w' = snd (inperson_Reinstate (is_store w) candidate)"
  by (auto simp: InPerson_Reinstate_def split: prod.splits option.splits)

lemma vouch_step_ok:
  assumes "vouch_step cfg cr (w, t) (w', t')" "store_ok cfg cr t (is_store w)" "0 \<le> ic_OfferTTL cfg"
  shows "store_ok cfg cr t' (is_store w') \<and> t \<le> t'"
  using assms(1)
proof (cases rule: vouch_stepE)
  case stp: (offer verified ip rnd r1)
  have ok: "store_ok cfg cr t' (is_store w)" using store_ok_later [OF assms(2) stp(1)] .
  from OfferHandler_store [OF stp(3)] show ?thesis
  proof
    assume "\<exists>st code el. verified = Some (Inr st) \<and> is_graph w' = is_graph w \<and> eligible cfg w st t' = Inr el \<and>
      is_store w' = snd (inperson_PutOffer (is_store w) (fresh_offer cfg code st el ip t'))"
    then obtain st code el where v: "verified = Some (Inr st)"
      and w': "is_store w' = snd (inperson_PutOffer (is_store w) (fresh_offer cfg code st el ip t'))" by blast
    have "offer_ok cfg cr t' (of_Code (fresh_offer cfg code st el ip t')) (fresh_offer cfg code st el ip t')"
      using stp(2) [OF v] by (simp add: offer_ok_def fresh_offer_def maxReturnCodeAttempts_def)
    then show ?thesis using store_ok_put [OF ok] w' stp(1) by simp
  qed (use ok stp(1) in simp)
next
  case stp: (accept ip req rnd r2)
  have ok: "store_ok cfg cr t' (is_store w)" using store_ok_later [OF assms(2) stp(1)] .
  from AcceptHandler_store [OF stp(2)] show ?thesis
  proof
    assume "\<exists>code candidate pub sig ret. ic_DIDForKey cfg pub = Some candidate \<and>
     c_verify cr pub (AcceptMessage (ic_IssuerDID cfg) code candidate) sig \<and>
     \<not> vr_Revoked (inperson_Voucher (is_store w) candidate) \<and>
     w' = w\<lparr>is_store := snd (inperson_UpdateOffer (is_store w) code (accept_update cfg candidate ret ip t'))\<rparr>"
    then obtain code candidate ret where "accepted_by cfg cr code candidate"
      and w': "is_store w' = snd (inperson_UpdateOffer (is_store w) code (accept_update cfg candidate ret ip t'))"
      unfolding accepted_by_def by (elim exE conjE) (simp, blast)
    then show ?thesis
      using store_ok_update [OF ok accept_update_ok] stp(1) by simp
  qed (use ok stp(1) in simp)
next
  case stp: (confirm ip creq r3)
  have ok: "store_ok cfg cr t' (is_store w)" using store_ok_later [OF assms(2) stp(1)] .
  have ook: "offer_ok cfg cr t' code o1" if "ip_offers (is_store w) code = Some o1" for code o1
    using ok that by (simp add: store_ok_def)
  from ConfirmHandler_store [OF stp(2)] consider
      "is_store w' = is_store w"
    | code o1 where "ip_offers (is_store w) code = Some o1" "of_State o1 = OfferAccepted"
        "is_store w' = snd (inperson_UpdateOffer (is_store w) code count_attempt)"
    | code ret sig o1 o2 where "ip_offers (is_store w) code = Some o1"
        "confirm_update cfg cr code ret sig ip t' o1 = Inr o2"
        "is_store w' = snd (inperson_CommitVouch ((is_store w)\<lparr>ip_offers := (ip_offers (is_store w))(code \<mapsto> o2)\<rparr>)
          (vouch_of_offer o2 ip t') (ic_MaxPerPeriod cfg) (ic_Period cfg))"
    by blast
  then show ?thesis
  proof cases
    case 1
    then show ?thesis using ok stp(1) by simp
  next
    case 2
    have "store_ok cfg cr t' (snd (inperson_UpdateOffer (is_store w) code count_attempt))"
    proof (rule store_ok_update [OF ok])
      fix o3 o2
      assume "offer_ok cfg cr t' code o3" "ip_offers (is_store w) code = Some o3" "count_attempt o3 = Inr o2"
      then show "offer_ok cfg cr t' code o2" using count_attempt_ok 2(1,2) by simp
    qed
    then show ?thesis using 2(3) stp(1) by simp
  next
    case 3
    note c = confirm_update_ok [OF 3(2) ook [OF 3(1)]]
    have "store_ok cfg cr t' ((is_store w)\<lparr>ip_offers := (ip_offers (is_store w))(code \<mapsto> o2)\<rparr>)"
      by (rule store_ok_set_offer [OF ok c(1)])
    then show ?thesis
      using store_ok_commit [of cfg cr t' _ "vouch_of_offer o2 ip t'"] c(2) 3(3) stp(1)
      by (simp add: vouch_of_offer_def)
  qed
next
  case stp: (penalize candidate r4)
  show ?thesis
    using Penalize_store [OF stp(2)] store_ok_same [OF store_ok_later [OF assms(2) stp(1)]] Penalize_others [OF surjective_pairing]
      stp(1) by simp
next
  case stp: (reinstate candidate r5)
  show ?thesis
    using Reinstate_store [OF stp(2)] store_ok_same [OF store_ok_later [OF assms(2) stp(1)]] Reinstate_others [OF surjective_pairing]
      stp(1) by simp
qed (use store_ok_later [OF assms(2)] in auto)

lemma vouch_run_ok:
  assumes "vouch_run cfg cr wt" "0 \<le> ic_OfferTTL cfg"
  shows "store_ok cfg cr (snd wt) (is_store (fst wt))"
  using assms(1)
proof induction
  case (run_start seeds t)
  then show ?case by (simp add: store_ok_def NewInMemoryInPersonStore_def entries_def)
next
  case (run_step wt wt')
  then show ?case using vouch_step_ok [OF _ _ assms(2), of cr "fst wt" "snd wt" "fst wt'" "snd wt'"] by simp
qed

section \<open>Progress of an offer\<close>

definition expired_offer :: "offer \<Rightarrow> time \<Rightarrow> bool" where
  "expired_offer o1 now \<longleftrightarrow> sub_time now (offer_end o1) > ns_hour"

definition offer_forward :: "time \<Rightarrow> offer \<Rightarrow> offer option \<Rightarrow> bool" where
  "offer_forward now o1 r = (case r of
       None \<Rightarrow> expired_offer o1 now
     | Some o2 \<Rightarrow> of_State o1 \<le> of_State o2 \<and> of_VoucherDID o2 = of_VoucherDID o1 \<and>
           (of_State o1 \<in> {OfferConfirmed, OfferBurned} \<longrightarrow> o2 = o1)
         \<or> expired_offer o1 now \<and> of_State o2 = OfferOpen \<and> of_CreatedAt o2 = now)"

lemma offer_forward_refl [simp]: "offer_forward now o1 (Some o1)"
  by (simp add: offer_forward_def)

lemma forward_put:
  "ip_offers s code = Some o1 \<Longrightarrow> of_State o2 = OfferOpen \<Longrightarrow>
     offer_forward (of_CreatedAt o2) o1 (ip_offers (snd (inperson_PutOffer s o2)) code)"
  by (auto simp: inperson_PutOffer_def gcOffers_def Let_def offer_forward_def expired_offer_def
      split: option.splits if_splits)

lemma forward_update:
  assumes "ip_offers s code = Some o1"
    and "\<And>o2 o3. ip_offers s k = Some o2 \<Longrightarrow> fn o2 = Inr o3 \<Longrightarrow> offer_forward now o2 (Some o3)"
  shows "offer_forward now o1 (ip_offers (snd (inperson_UpdateOffer s k fn)) code)"
  using assms by (auto simp: inperson_UpdateOffer_def split: option.splits sum.splits)

lemma forward_accept: "accept_update cfg candidate ret ip now o2 = Inr o3 \<Longrightarrow> offer_forward now o2 (Some o3)"
  by (auto simp: accept_update_def offer_forward_def offer_order split: if_splits)

lemma forward_confirm: "confirm_update cfg cr code ret sig ip now o2 = Inr o3 \<Longrightarrow> offer_forward now o2 (Some o3)"
  by (cases "of_State o2") (auto simp: confirm_update_def offer_forward_def offer_order split: if_splits)

lemma forward_count: "count_attempt o2 = Inr o3 \<Longrightarrow> of_State o2 = OfferAccepted \<Longrightarrow> offer_forward now o2 (Some o3)"
  by (auto simp: count_attempt_def offer_forward_def offer_order Let_def split: if_splits)

lemma CommitVouch_offers [simp]: "ip_offers (snd (inperson_CommitVouch s v m p)) = ip_offers s"
  by (auto simp: inperson_CommitVouch_def Let_def)

lemma vouch_step_forward:
  assumes "vouch_step cfg cr (w, t) (w', t')" "ip_offers (is_store w) code = Some o1"
  shows "offer_forward t' o1 (ip_offers (is_store w') code)"
  using assms(1)
proof (cases rule: vouch_stepE)
  case stp: (offer verified ip rnd r1)
  from OfferHandler_store [OF stp(3)] show ?thesis
  proof
    assume "\<exists>st code el. verified = Some (Inr st) \<and> is_graph w' = is_graph w \<and> eligible cfg w st t' = Inr el \<and>
      is_store w' = snd (inperson_PutOffer (is_store w) (fresh_offer cfg code st el ip t'))"
    then obtain st k el where w': "is_store w' = snd (inperson_PutOffer (is_store w) (fresh_offer cfg k st el ip t'))"
      by blast
    show ?thesis
      using forward_put [OF assms(2), of "fresh_offer cfg k st el ip t'"] w' by (simp add: fresh_offer_def)
  qed (use assms(2) in simp)
next
  case stp: (accept ip req rnd r2)
  from AcceptHandler_store [OF stp(2)] show ?thesis
    using forward_update [OF assms(2) forward_accept] assms(2) by auto
next
  case stp: (confirm ip creq r3)
  from ConfirmHandler_store [OF stp(2)] consider
      "is_store w' = is_store w"
    | k o2 where "ip_offers (is_store w) k = Some o2" "of_State o2 = OfferAccepted"
        "is_store w' = snd (inperson_UpdateOffer (is_store w) k count_attempt)"
    | k ret sig o2 o3 where "ip_offers (is_store w) k = Some o2"
        "confirm_update cfg cr k ret sig ip t' o2 = Inr o3"
        "ip_offers (is_store w') = (ip_offers (is_store w))(k \<mapsto> o3)"
    by (elim disjE exE conjE) auto
  then show ?thesis
  proof cases
    case 2
    have "offer_forward t' o1 (ip_offers (snd (inperson_UpdateOffer (is_store w) k count_attempt)) code)"
      by (rule forward_update [OF assms(2)], rule forward_count) (use 2 in auto)
    then show ?thesis using 2(3) by simp
  next
    case 3
    then show ?thesis using forward_confirm [OF 3(2)] assms(2) by auto
  qed (use assms(2) in simp)
next
  case stp: (penalize candidate r4)
  then show ?thesis
    using Penalize_store [OF stp(2)] Penalize_others [OF surjective_pairing] assms(2) by simp
next
  case stp: (reinstate candidate r5)
  then show ?thesis
    using Reinstate_store [OF stp(2)] Reinstate_others [OF surjective_pairing] assms(2) by simp
qed (use assms(2) in auto)

section \<open>Trust under penalty and reinstatement\<close>

lemma rescale_trust [simp]:
  "gs_trust (rescale f d g) = (\<lambda>e. if e = d then map_option f (gs_trust g d) else gs_trust g e)"
  "gs_vouches (rescale f d g) = gs_vouches g"
  by (auto simp: rescale_def graph_TrustOf_def graph_Enroll_def fun_eq_iff split: option.splits)

lemma rescale_fold:
  "distinct ds \<Longrightarrow> gs_trust (fold (rescale f) ds g) e =
     (if e \<in> set ds then map_option f (gs_trust g e) else gs_trust g e)"
  by (induction ds arbitrary: g) auto

lemma penalize_loop_distinct:
  "penalize_loop c now f s pen str ds = (s', pen', str') \<Longrightarrow> distinct (map fst str) \<Longrightarrow> distinct (map fst str')"
  by (induction ds arbitrary: s pen str) (auto simp: Let_def split: if_splits)

lemma reinstate_loop_distinct:
  "reinstate_loop s str ds = (s', str') \<Longrightarrow> distinct (map fst str) \<Longrightarrow> distinct (map fst str')"
  by (induction ds arbitrary: s str) (auto simp: Let_def)

lemma Penalize_Some:
  assumes "inperson_Penalize s c ds now f = (Some strikes, s')"
  shows "distinct (map fst strikes)" "fst ` set strikes = set ds - {c}" "\<not> vr_Revoked (inperson_Voucher s c)"
  using assms penalize_loop_distinct [of c now f s] penalize_loop_result(3) [of c now f s]
  by (auto simp: inperson_Penalize_def Let_def split: if_splits prod.splits)

lemma Penalize_ok:
  "\<not> vr_Revoked (inperson_Voucher s c) \<Longrightarrow> \<exists>k s'. inperson_Penalize s c ds now f = (Some k, s')"
  by (simp add: inperson_Penalize_def Let_def split: prod.split)

lemma Reinstate_ok:
  "vr_Revoked (inperson_Voucher s c) \<Longrightarrow> \<exists>k s'. inperson_Reinstate s c = (Some k, s')"
  by (simp add: inperson_Reinstate_def Let_def split: prod.split)

lemma Reinstate_Some:
  assumes "inperson_Reinstate s c = (Some strikes, s')"
  shows "distinct (map fst strikes)" "fst ` set strikes = set (vr_PenalizedVouchers (inperson_Voucher s c))"
  using assms reinstate_loop_distinct [of s "[]"] reinstate_loop_result(2) [of s "[]"]
  by (auto simp: inperson_Reinstate_def Let_def split: if_splits prod.splits)

lemma distinct_all_vouchers [simp]: "distinct (all_vouchers w c)"
  by (simp add: all_vouchers_def)

lemma distinct_count: "distinct xs \<Longrightarrow> count_list xs d = (if d \<in> set xs then 1 else 0)"
  by (induction xs) auto

section \<open>What counts toward the anchor\<close>

lemma store_ok_vouch:
  assumes "store_ok cfg cr t s" "v \<in> set (inperson_VouchesFor s c)"
  shows "vouch_ok cfg cr t c (iv_VoucherDID v) v"
proof -
  obtain d where "(d, v) \<in> set (entries (ip_vouches s) c)"
    using assms(2) by (auto simp: inperson_VouchesFor_def)
  then have "vouch_ok cfg cr t c d v" using assms(1) by (simp add: store_ok_def)
  then show ?thesis by (simp add: vouch_ok_def)
qed

lemma store_ok_distinct:
  assumes "store_ok cfg cr t s"
  shows "distinct (map iv_VoucherDID (inperson_VouchesFor s c))"
proof -
  have "map iv_VoucherDID (inperson_VouchesFor s c) = map fst (entries (ip_vouches s) c)"
    unfolding inperson_VouchesFor_def map_map
  proof (rule map_cong [OF refl])
    fix x
    assume x: "x \<in> set (entries (ip_vouches s) c)"
    then have "vouch_ok cfg cr t c (fst x) (snd x)" using assms unfolding store_ok_def by (metis map_of_is_SomeI surjective_pairing)
    then show "(iv_VoucherDID \<circ> snd) x = fst x" by (simp add: vouch_ok_def)
  qed
  then show ?thesis using assms by (simp add: store_ok_def)
qed

definition counting :: "inperson_config \<Rightarrow> inperson_store \<Rightarrow> time \<Rightarrow> inperson_vouch \<Rightarrow> bool" where
  "counting cfg s now v \<longleftrightarrow> iv_VoucherAnchored v \<and> sub_time now (iv_At v) \<le> ic_VouchValidity cfg \<and>
     \<not> vr_Revoked (inperson_Voucher s (iv_VoucherDID v))"

lemma anchorVouchers_exact:
  assumes "store_ok cfg cr t (is_store w)"
  shows "distinct (anchorVouchers cfg w c now)"
    and "set (anchorVouchers cfg w c now) =
      iv_VoucherDID ` {v \<in> set (inperson_VouchesFor (is_store w) c). counting cfg (is_store w) now v}"
  using store_ok_distinct [OF assms, of c]
  by (auto simp: anchorVouchers_def counting_def not_less distinct_map_filter)

lemma length_anchorVouchers:
  assumes "store_ok cfg cr t (is_store w)"
  shows "length (anchorVouchers cfg w c now) =
    card (iv_VoucherDID ` {v \<in> set (inperson_VouchesFor (is_store w) c). counting cfg (is_store w) now v})"
  using anchorVouchers_exact [OF assms, of c now] distinct_card by metis

section \<open>An honest ceremony\<close>

lemma filter_mono_length: "(\<And>x. P x \<Longrightarrow> Q x) \<Longrightarrow> length (filter P xs) \<le> length (filter Q xs)"
  by (induction xs) auto

lemma sub_time_mono: "t \<le> t' \<Longrightarrow> sub_time t u \<le> sub_time t' u"
  by (auto simp: sub_time_def Let_def max_int64_def min_int64_def)

lemma eligible_standing:
  assumes "eligible cfg w st now = Inr el"
  shows "\<not> vr_Revoked (inperson_Voucher (is_store w) (vs_DID st))"
    and "vr_SuspendedUntil (inperson_Voucher (is_store w) (vs_DID st)) \<le> now"
    and "int (length (filter (\<lambda>t. sub_time now t < ic_Period cfg)
      (vr_VouchTimes (inperson_Voucher (is_store w) (vs_DID st))))) < ic_MaxPerPeriod cfg"
  using assms by (auto simp: eligible_def Let_def split: if_splits)

lemma PutOffer_new:
  "ip_offers s (of_Code o1) = None \<Longrightarrow> \<exists>s'. inperson_PutOffer s o1 = (None, s') \<and>
     ip_offers s' (of_Code o1) = Some o1 \<and> ip_vouches s' = ip_vouches s \<and> ip_vouchers s' = ip_vouchers s"
  by (simp add: inperson_PutOffer_def gcOffers_def Let_def)

lemma UpdateOffer_some:
  "ip_offers s code = Some o1 \<Longrightarrow> fn o1 = Inr o2 \<Longrightarrow>
     inperson_UpdateOffer s code fn = (Inr o2, s\<lparr>ip_offers := (ip_offers s)(code \<mapsto> o2)\<rparr>)"
  by (simp add: inperson_UpdateOffer_def)

lemma code_not_Nil: "newCode rnd = Some code \<Longrightarrow> code \<noteq> []"
  using newCode_text [of rnd code] by (auto simp: code_text_def)

definition honest_offer ::
  "inperson_config \<Rightarrow> string \<Rightarrow> voucher_standing \<Rightarrow> eligibility \<Rightarrow> string \<Rightarrow> time \<Rightarrow> string \<Rightarrow> string \<Rightarrow> string \<Rightarrow> time \<Rightarrow> offer"
  where
  "honest_offer cfg code st el ip0 t0 cand ret ip1 t1 =
     (fresh_offer cfg code st el ip0 t0)\<lparr>of_State := OfferAccepted, of_CandidateDID := cand, of_AcceptedAt := t1,
        of_AcceptIP := ip1, of_ReturnCode := ret, of_ReturnExpiry := t1 + ic_ReturnTTL cfg\<rparr>"

lemma honest_accept:
  assumes "ip_offers (is_store w) code = Some (fresh_offer cfg code st el ip0 t0)"
    and "newCode (Some b0) = Some code" "newCode (Some b1) = Some ret"
    and "length pub = PublicKeySize" "ic_DIDForKey cfg pub = Some cand" "cand \<noteq> vs_DID st"
    and "c_verify cr pub (AcceptMessage (ic_IssuerDID cfg) code cand) sigA"
    and "\<not> vr_Revoked (inperson_Voucher (is_store w) cand)" "t1 \<le> t0 + ic_OfferTTL cfg"
  shows "\<exists>r. AcceptHandler cfg cr w ip1 (Some \<lparr>aq_OfferCode = QRPrefixOffer @ code,
      aq_CandidatePublicKeyB64 = Std_encode pub, aq_SignatureB64 = Std_encode sigA\<rparr>) (Some b1) t1
    = (Inr r, w\<lparr>is_store := (is_store w)\<lparr>ip_offers := (ip_offers (is_store w))(code \<mapsto>
        honest_offer cfg code st el ip0 t0 cand ret ip1 t1)\<rparr>\<rparr>)"
proof -
  have n: "NormalizeCode (QRPrefixOffer @ code) = code" "code \<noteq> []"
    using code_normal(2) [OF assms(2)] code_not_Nil [OF assms(2)] by simp_all
  have "accept_update cfg cand ret ip1 t1 (fresh_offer cfg code st el ip0 t0)
      = Inr (honest_offer cfg code st el ip0 t0 cand ret ip1 t1)"
    using assms(6,9) by (simp add: accept_update_def fresh_offer_def honest_offer_def)
  then show ?thesis
    using assms n by (simp add: AcceptHandler_def UpdateOffer_some)
qed

lemma honest_confirm:
  assumes "ip_offers (is_store w) code = Some (honest_offer cfg code st el ip0 t0 cand ret ip1 t1)"
    and "newCode (Some b0) = Some code" "newCode (Some b1) = Some ret"
    and "c_verify cr (vs_PublicKey st) (ConfirmMessage (ic_IssuerDID cfg) code cand ret) sigC"
    and "t2 \<le> t1 + ic_ReturnTTL cfg" "\<not> ic_RequireSameNetwork cfg \<or> samePrefix ip1 ip2"
    and "inperson_CommitVouch ((is_store w)\<lparr>ip_offers := (ip_offers (is_store w))(code \<mapsto> o2)\<rparr>)
      (vouch_of_offer o2 ip2 t2) (ic_MaxPerPeriod cfg) (ic_Period cfg) = (None, s2)"
    and "o2 = (honest_offer cfg code st el ip0 t0 cand ret ip1 t1)\<lparr>of_State := OfferConfirmed\<rparr>"
  shows "\<exists>r w2. ConfirmHandler cfg cr w ip2 (Some \<lparr>cq_OfferCode = QRPrefixOffer @ code,
      cq_ReturnCode = QRPrefixReturn @ ret, cq_SignatureB64 = Std_encode sigC\<rparr>) t2 = (Inr r, w2) \<and> is_store w2 = s2"
proof -
  have n: "NormalizeCode (QRPrefixOffer @ code) = code" "NormalizeCode (QRPrefixReturn @ ret) = ret" "code \<noteq> []" "ret \<noteq> []"
    using code_normal(2) [OF assms(2)] code_normal(3) [OF assms(3)] code_not_Nil [OF assms(2)] code_not_Nil [OF assms(3)]
    by simp_all
  have "confirm_update cfg cr code ret sigC ip2 t2 (honest_offer cfg code st el ip0 t0 cand ret ip1 t1) = Inr o2"
    using assms(4,5,6,8) by (auto simp: confirm_update_def fresh_offer_def honest_offer_def)
  then show ?thesis
    using assms(1,7) n by (simp add: ConfirmHandler_def UpdateOffer_some confirm_commit_def Let_def)
qed

text \<open>What has to be true at the three moments of the ceremony.\<close>

definition honest ::
  "inperson_config \<Rightarrow> crypto \<Rightarrow> inperson_state \<Rightarrow> voucher_standing \<Rightarrow> eligibility \<Rightarrow> bytes \<Rightarrow> bytes \<Rightarrow> string \<Rightarrow> string
    \<Rightarrow> bytes \<Rightarrow> string \<Rightarrow> bytes \<Rightarrow> bytes \<Rightarrow> string \<Rightarrow> string \<Rightarrow> time \<Rightarrow> time \<Rightarrow> time \<Rightarrow> bool" where
  "honest cfg cr w st el b0 b1 code ret pub cand sigA sigC ip1 ip2 t0 t1 t2 \<longleftrightarrow>
     eligible cfg w st t0 = Inr el \<and> newCode (Some b0) = Some code \<and> newCode (Some b1) = Some ret \<and>
     ip_offers (is_store w) code = None \<and> length pub = PublicKeySize \<and> ic_DIDForKey cfg pub = Some cand \<and>
     cand \<noteq> vs_DID st \<and> \<not> vr_Revoked (inperson_Voucher (is_store w) cand) \<and>
     map_of (entries (ip_vouches (is_store w)) cand) (vs_DID st) = None \<and>
     c_verify cr pub (AcceptMessage (ic_IssuerDID cfg) code cand) sigA \<and>
     c_verify cr (vs_PublicKey st) (ConfirmMessage (ic_IssuerDID cfg) code cand ret) sigC \<and>
     t0 \<le> t1 \<and> t1 \<le> t0 + ic_OfferTTL cfg \<and> t1 \<le> t2 \<and> t2 \<le> t1 + ic_ReturnTTL cfg \<and>
     (ic_RequireSameNetwork cfg \<longrightarrow> samePrefix ip1 ip2)"

lemma honest_ceremony:
  assumes h: "honest cfg cr w st el b0 b1 code ret pub cand sigA sigC ip1 ip2 t0 t1 t2"
    and o1: "OfferHandler cfg w ip0 (Some (Inr st)) (Some b0) t0 = (r0, w0)"
    and a1: "AcceptHandler cfg cr w0 ip1 (Some \<lparr>aq_OfferCode = QRPrefixOffer @ code,
      aq_CandidatePublicKeyB64 = Std_encode pub, aq_SignatureB64 = Std_encode sigA\<rparr>) (Some b1) t1 = (r1, w1)"
    and c1: "ConfirmHandler cfg cr w1 ip2 (Some \<lparr>cq_OfferCode = QRPrefixOffer @ code,
      cq_ReturnCode = QRPrefixReturn @ ret, cq_SignatureB64 = Std_encode sigC\<rparr>) t2 = (r2, w2)"
  shows "\<exists>resp0 resp1 resp2. r0 = Inr resp0 \<and> r1 = Inr resp1 \<and> r2 = Inr resp2"
    and "\<exists>v. map_of (entries (ip_vouches (is_store w2)) cand) (vs_DID st) = Some v \<and> iv_At v = t2 \<and>
      iv_Weight v = el_weight el \<and> iv_VoucherAnchored v = el_anchored el"
proof -
  note h' = h [unfolded honest_def]
  define f where "f = fresh_offer cfg code st el ip0 t0"
  have "of_Code f = code" by (simp add: f_def fresh_offer_def)
  then obtain s0 where put: "inperson_PutOffer (is_store w) f = (None, s0)" "ip_offers s0 code = Some f"
    "ip_vouches s0 = ip_vouches (is_store w)" "ip_vouchers s0 = ip_vouchers (is_store w)"
    using PutOffer_new [of "is_store w" f] h' by auto
  have ok0: "\<exists>x. r0 = Inr x" and w0: "w0 = w\<lparr>is_store := s0\<rparr>"
    using o1 h' put(1) unfolding f_def by (auto simp: OfferHandler_def Let_def)
  have V: "inperson_Voucher s0 = inperson_Voucher (is_store w)"
    using put(4) by (simp add: inperson_Voucher_def fun_eq_iff)
  define h1 where "h1 = honest_offer cfg code st el ip0 t0 cand ret ip1 t1"
  have "\<exists>x. AcceptHandler cfg cr w0 ip1 (Some \<lparr>aq_OfferCode = QRPrefixOffer @ code,
      aq_CandidatePublicKeyB64 = Std_encode pub, aq_SignatureB64 = Std_encode sigA\<rparr>) (Some b1) t1
    = (Inr x, w0\<lparr>is_store := (is_store w0)\<lparr>ip_offers := (ip_offers (is_store w0))(code \<mapsto> h1)\<rparr>\<rparr>)"
    unfolding h1_def by (rule honest_accept [where ?b0.0 = b0]) (use h' put w0 V f_def in auto)
  then have ok1: "\<exists>x. r1 = Inr x"
    and w1: "w1 = w0\<lparr>is_store := (is_store w0)\<lparr>ip_offers := (ip_offers (is_store w0))(code \<mapsto> h1)\<rparr>\<rparr>"
    using a1 by auto
  have V1: "inperson_Voucher (is_store w1) = inperson_Voucher (is_store w)" "ip_vouches (is_store w1) = ip_vouches (is_store w)"
    using V put(3) by (simp_all add: w1 w0)
  define h2 where "h2 = h1\<lparr>of_State := OfferConfirmed\<rparr>"
  define s1 where "s1 = (is_store w1)\<lparr>ip_offers := (ip_offers (is_store w1))(code \<mapsto> h2)\<rparr>"
  define v where "v = vouch_of_offer h2 ip2 t2"
  have v: "iv_CandidateDID v = cand" "iv_VoucherDID v = vs_DID st" "iv_At v = t2" "iv_Weight v = el_weight el"
    "iv_VoucherAnchored v = el_anchored el"
    by (simp_all add: v_def h2_def h1_def vouch_of_offer_def honest_offer_def fresh_offer_def)
  have el: "eligible cfg w st t0 = Inr el" and t02: "t0 \<le> t2" using h' by auto
  have "length (filter (\<lambda>t. sub_time t2 t < ic_Period cfg) (vr_VouchTimes (inperson_Voucher (is_store w) (vs_DID st))))
    \<le> length (filter (\<lambda>t. sub_time t0 t < ic_Period cfg) (vr_VouchTimes (inperson_Voucher (is_store w) (vs_DID st))))"
    by (rule filter_mono_length) (use sub_time_mono [OF t02] le_less_trans in blast)
  then obtain s2 where s2: "inperson_CommitVouch s1 v (ic_MaxPerPeriod cfg) (ic_Period cfg) = (None, s2)"
    using eligible_standing [OF el] h' V1 v t02 unfolding CommitVouch_None s1_def by auto
  have "\<exists>r w2. ConfirmHandler cfg cr w1 ip2 (Some \<lparr>cq_OfferCode = QRPrefixOffer @ code,
      cq_ReturnCode = QRPrefixReturn @ ret, cq_SignatureB64 = Std_encode sigC\<rparr>) t2 = (Inr r, w2) \<and> is_store w2 = s2"
    by (rule honest_confirm [where ?b0.0 = b0 and ?b1.0 = b1 and st = st and el = el and ?ip0.0 = ip0 and ?t0.0 = t0
          and ?ip1.0 = ip1 and ?t1.0 = t1 and cand = cand and ret = ret and ?o2.0 = h2])
      (use h' w1 s2 in \<open>auto simp: h1_def h2_def s1_def v_def\<close>)
  then have ok2: "\<exists>x. r2 = Inr x" and w2: "is_store w2 = s2" using c1 by auto
  show "\<exists>resp0 resp1 resp2. r0 = Inr resp0 \<and> r1 = Inr resp1 \<and> r2 = Inr resp2" using ok0 ok1 ok2 by blast
  have "map_of (entries (ip_vouches s2) cand) (vs_DID st) = Some v"
    using s2 v unfolding CommitVouch_None by simp
  then show "\<exists>v. map_of (entries (ip_vouches (is_store w2)) cand) (vs_DID st) = Some v \<and> iv_At v = t2 \<and>
      iv_Weight v = el_weight el \<and> iv_VoucherAnchored v = el_anchored el"
    using w2 v by blast
qed

section \<open>A sample run\<close>

definition sample_config :: inperson_config where
  "sample_config = \<lparr>ic_IssuerDID = ''i'', ic_DIDForKey = DIDKeyFromEd25519, ic_Required = 1,
     ic_MaxPerPeriod = DefaultMaxPerPeriod, ic_Period = DefaultPeriod, ic_MinVoucherAge = 0,
     ic_MinVoucherScore = DefaultMinVoucherScore, ic_OfferTTL = DefaultOfferTTL, ic_ReturnTTL = DefaultReturnTTL,
     ic_VouchValidity = DefaultVouchValidity, ic_SuspendFor = DefaultSuspendFor,
     ic_PenaltyFactor = DefaultPenaltyFactor, ic_RequireSameNetwork = False\<rparr>"

definition sample_did :: "nat \<Rightarrow> string" where
  "sample_did n = the (DIDKeyFromEd25519 (sample_key n))"

lemma sample_did [simp]: "DIDKeyFromEd25519 (sample_key n) = Some (sample_did n)"
  "Ed25519FromDIDKey (sample_did n) = Some (sample_key n)"
  using DIDKey_roundtrip [of "sample_key n"] by (simp_all add: sample_did_def DIDKeyFromEd25519_def)

lemma sample_did_neq: "sample_did 2 \<noteq> sample_did 7"
proof
  assume "sample_did 2 = sample_did 7"
  then have "sample_key 2 = sample_key 7" by (metis sample_did(2) option.inject)
  then show False by (simp add: sample_key_def)
qed

definition sample_standing :: voucher_standing where
  "sample_standing = \<lparr>vs_DID = sample_did 7, vs_PublicKey = sample_key 7, vs_AnchorMethodID = ''selfie'',
     vs_AnchorVerifiedAt = 0\<rparr>"

definition sample_start :: inperson_state where
  "sample_start = \<lparr>is_graph = NewInMemoryGraphStore Map.empty, is_store = NewInMemoryInPersonStore\<rparr>"

definition sample_sig :: "bytes \<Rightarrow> string \<Rightarrow> bytes" where
  "sample_sig pub msg = take 64 (pub @ msg @ replicate 64 (byte 0))"

lemma sample_verify [simp]: "c_verify sample_crypto pub msg (sample_sig pub msg)"
  by (simp add: sample_crypto_def sample_sig_def)

lemma sample_eligible:
  "eligible sample_config sample_start sample_standing 10 = Inr \<lparr>el_anchored = True, el_weight = 1, el_left = 2\<rparr>"
  by (simp add: eligible_def sample_config_def sample_start_def sample_standing_def inperson_Voucher_def
      NewInMemoryInPersonStore_def zero_record_def DefaultMaxPerPeriod_def sub_time_def Let_def
      max_int64_def min_int64_def)

definition sample_code :: "nat \<Rightarrow> string" where
  "sample_code n = the (newCode (Some (replicate 5 (byte n))))"

lemma sample_code [simp]: "newCode (Some (replicate 5 (byte n))) = Some (sample_code n)"
  by (simp add: sample_code_def newCode_def)

definition sample_accept_sig :: bytes where
  "sample_accept_sig = sample_sig (sample_key 2) (AcceptMessage ''i'' (sample_code 3) (sample_did 2))"

definition sample_confirm_sig :: bytes where
  "sample_confirm_sig = sample_sig (sample_key 7) (ConfirmMessage ''i'' (sample_code 3) (sample_did 2) (sample_code 2))"

lemma sample_honest:
  "honest sample_config sample_crypto sample_start sample_standing \<lparr>el_anchored = True, el_weight = 1, el_left = 2\<rparr>
     (replicate 5 (byte 3)) (replicate 5 (byte 2)) (sample_code 3) (sample_code 2) (sample_key 2) (sample_did 2)
     sample_accept_sig sample_confirm_sig '''' '''' 10 20 30"
  unfolding honest_def
  using sample_eligible sample_did_neq
  by (simp add: sample_start_def NewInMemoryInPersonStore_def entries_def inperson_Voucher_def zero_record_def
      sample_config_def sample_standing_def sample_accept_sig_def sample_confirm_sig_def
      DefaultOfferTTL_def DefaultReturnTTL_def time_units)

lemma sample_ttl [simp]: "ic_OfferTTL sample_config = 120000000000" "ic_ReturnTTL sample_config = 90000000000"
  by (simp_all add: sample_config_def DefaultOfferTTL_def DefaultReturnTTL_def time_units)

lemma sample_run:
  "\<exists>w v. vouch_run sample_config sample_crypto (w, 30) \<and>
     map_of (entries (ip_vouches (is_store w)) (sample_did 2)) (sample_did 7) = Some v \<and>
     iv_At v = 30 \<and> iv_VoucherAnchored v"
proof -
  define cfg where "cfg = sample_config"
  obtain r0 w0 where o1: "OfferHandler cfg sample_start '''' (Some (Inr sample_standing)) (Some (replicate 5 (byte 3))) 10 = (r0, w0)"
    by force
  obtain r1 w1 where a1: "AcceptHandler cfg sample_crypto w0 '''' (Some \<lparr>aq_OfferCode = QRPrefixOffer @ sample_code 3,
      aq_CandidatePublicKeyB64 = Std_encode (sample_key 2), aq_SignatureB64 = Std_encode sample_accept_sig\<rparr>)
      (Some (replicate 5 (byte 2))) 20 = (r1, w1)"
    by force
  obtain r2 w2 where c1: "ConfirmHandler cfg sample_crypto w1 '''' (Some \<lparr>cq_OfferCode = QRPrefixOffer @ sample_code 3,
      cq_ReturnCode = QRPrefixReturn @ sample_code 2, cq_SignatureB64 = Std_encode sample_confirm_sig\<rparr>) 30 = (r2, w2)"
    by force
  have run: "vouch_run cfg sample_crypto (sample_start, 0)"
    unfolding sample_start_def by (rule run_start)
  have "vouch_run cfg sample_crypto (w0, 10)"
    by (rule run_step [OF run step_offer [OF _ _ o1]]) (auto simp: sample_standing_def)
  then have "vouch_run cfg sample_crypto (w1, 20)"
    by (rule run_step) (rule step_accept [OF _ a1], simp)
  then have "vouch_run cfg sample_crypto (w2, 30)"
    by (rule run_step) (rule step_confirm [OF _ c1], simp)
  moreover have "\<exists>v. map_of (entries (ip_vouches (is_store w2)) (sample_did 2)) (sample_did 7) = Some v \<and>
      iv_At v = 30 \<and> iv_VoucherAnchored v"
    using honest_ceremony(2) [OF sample_honest o1 [unfolded cfg_def] a1 [unfolded cfg_def] c1 [unfolded cfg_def]]
    by (auto simp: sample_standing_def)
  ultimately show ?thesis unfolding cfg_def by blast
qed

section \<open>Properties\<close>

text \<open>C6: Every recorded vouch is real: in every run of the ceremony, a vouch of \<open>d\<close> for \<open>c\<close> was signed
  for by both keys over one offer code, joins two different people, and took from offer to confirmation
  at most the two deadlines together.\<close>

theorem recorded_vouch_sound:
  assumes "vouch_run cfg cr (w, t)" "0 \<le> ic_OfferTTL cfg"
    and "map_of (entries (ip_vouches (is_store w)) c) d = Some v"
  shows "c \<noteq> d \<and> iv_CandidateDID v = c \<and> iv_VoucherDID v = d \<and> iv_At v \<le> t \<and>
    0 \<le> iv_RoundTrip v \<and> iv_RoundTrip v \<le> ic_OfferTTL cfg + ic_ReturnTTL cfg \<and>
    (\<exists>code. accepted_by cfg cr code c \<and> confirmed_by cfg cr code c d)"
  using vouch_run_ok [OF assms(1,2)] assms(3) by (auto simp: store_ok_def vouch_ok_def simp del: map_of_eq_Some_iff)

theorem recorded_vouch_sound_witness:
  "\<exists>(w :: inperson_state) v. map_of (entries (ip_vouches (is_store w)) (sample_did 2)) (sample_did 7) = Some v \<and>
     iv_RoundTrip v \<le> 210000000000 \<and>
     (\<exists>code. confirmed_by sample_config sample_crypto code (sample_did 2) (sample_did 7))"
proof -
  obtain w v where r: "vouch_run sample_config sample_crypto (w, 30)"
    and v: "map_of (entries (ip_vouches (is_store w)) (sample_did 2)) (sample_did 7) = Some v"
    using sample_run by blast
  then show ?thesis using recorded_vouch_sound [OF r _ v] by (intro exI [of _ w] exI [of _ v]) auto
qed

text \<open>C39: The ceremony works: when an eligible voucher offers, the newcomer scans and signs before the
  offer ends, and the voucher scans back and signs before the return code ends, all three requests
  succeed and the vouch is on record with the voucher's weight and standing.\<close>

theorem honest_ceremony_completes:
  assumes "honest cfg cr w st el b0 b1 code ret pub cand sigA sigC ip1 ip2 t0 t1 t2"
    and "OfferHandler cfg w ip0 (Some (Inr st)) (Some b0) t0 = (r0, w0)"
    and "AcceptHandler cfg cr w0 ip1 (Some \<lparr>aq_OfferCode = QRPrefixOffer @ code,
      aq_CandidatePublicKeyB64 = Std_encode pub, aq_SignatureB64 = Std_encode sigA\<rparr>) (Some b1) t1 = (r1, w1)"
    and "ConfirmHandler cfg cr w1 ip2 (Some \<lparr>cq_OfferCode = QRPrefixOffer @ code,
      cq_ReturnCode = QRPrefixReturn @ ret, cq_SignatureB64 = Std_encode sigC\<rparr>) t2 = (r2, w2)"
  shows "(\<exists>resp0 resp1 resp2. r0 = Inr resp0 \<and> r1 = Inr resp1 \<and> r2 = Inr resp2) \<and>
    (\<exists>v. map_of (entries (ip_vouches (is_store w2)) cand) (vs_DID st) = Some v \<and> iv_At v = t2 \<and>
      iv_Weight v = el_weight el \<and> iv_VoucherAnchored v = el_anchored el)"
  using honest_ceremony [OF assms] by blast

theorem honest_ceremony_completes_witness:
  "\<exists>(w2 :: inperson_state) v. map_of (entries (ip_vouches (is_store w2)) (sample_did 2)) (sample_did 7) = Some v \<and> iv_Weight v = 1"
proof -
  obtain r0 w0 where o1: "OfferHandler sample_config sample_start '''' (Some (Inr sample_standing)) (Some (replicate 5 (byte 3))) 10 = (r0, w0)"
    by force
  obtain r1 w1 where a1: "AcceptHandler sample_config sample_crypto w0 '''' (Some \<lparr>aq_OfferCode = QRPrefixOffer @ sample_code 3,
      aq_CandidatePublicKeyB64 = Std_encode (sample_key 2), aq_SignatureB64 = Std_encode sample_accept_sig\<rparr>)
      (Some (replicate 5 (byte 2))) 20 = (r1, w1)"
    by force
  obtain r2 w2 where c1: "ConfirmHandler sample_config sample_crypto w1 '''' (Some \<lparr>cq_OfferCode = QRPrefixOffer @ sample_code 3,
      cq_ReturnCode = QRPrefixReturn @ sample_code 2, cq_SignatureB64 = Std_encode sample_confirm_sig\<rparr>) 30 = (r2, w2)"
    by force
  show ?thesis using honest_ceremony_completes [OF sample_honest o1 a1 c1] by (simp add: sample_standing_def) blast
qed

text \<open>C31: An offer only moves forward: no request or operator action takes it back to an earlier state or
  gives it another voucher, a confirmed or burned offer never changes again, and a code disappears or is
  given out anew only an hour after its deadlines.\<close>

theorem offer_moves_forward:
  assumes "vouch_step cfg cr (w, t) (w', t')" "ip_offers (is_store w) code = Some o1"
  shows "case ip_offers (is_store w') code of
      None \<Rightarrow> expired_offer o1 t'
    | Some o2 \<Rightarrow> of_State o1 \<le> of_State o2 \<and> of_VoucherDID o2 = of_VoucherDID o1 \<and>
          (of_State o1 \<in> {OfferConfirmed, OfferBurned} \<longrightarrow> o2 = o1)
        \<or> expired_offer o1 t' \<and> of_State o2 = OfferOpen \<and> of_CreatedAt o2 = t'"
  using vouch_step_forward [OF assms] by (simp add: offer_forward_def)

theorem offer_moves_forward_witness:
  "\<exists>(w' :: inperson_state) o1. ip_offers (is_store w') (sample_code 3) = Some o1 \<and> of_State o1 = OfferBurned"
proof -
  define o1 where "o1 = (fresh_offer sample_config (sample_code 3) sample_standing
    \<lparr>el_anchored = True, el_weight = 1, el_left = 2\<rparr> '''' 10)\<lparr>of_State := OfferBurned\<rparr>"
  define w where "w = sample_start\<lparr>is_store := (is_store sample_start)\<lparr>ip_offers := [sample_code 3 \<mapsto> o1]\<rparr>\<rparr>"
  obtain r w' where "InPerson_Penalize sample_config w ''x'' 40 = (r, w')" by force
  then have "vouch_step sample_config sample_crypto (w, 30) (w', 40)" by (intro step_penalize) auto
  moreover have "ip_offers (is_store w) (sample_code 3) = Some o1" by (simp add: w_def)
  moreover have "of_State o1 = OfferBurned" "\<not> expired_offer o1 40"
    by (simp_all add: o1_def fresh_offer_def expired_offer_def offer_end_def sub_time_def Let_def time_units
        max_int64_def min_int64_def)
  ultimately show ?thesis using offer_moves_forward [of sample_config sample_crypto w 30 w' 40 "sample_code 3" o1]
    by (auto split: option.splits)
qed

text \<open>The return code cannot be guessed: a wrong one is refused with 401 and counted on the offer, and
  in every run an offer has seen at most five wrong codes and is burned exactly when it has seen five.\<close>

theorem return_code_guesses_bounded:
  assumes "vouch_run cfg cr (w, t)" "0 \<le> ic_OfferTTL cfg" "ip_offers (is_store w) code = Some o1"
  shows "of_BadAttempts o1 \<le> 5 \<and> (of_State o1 = OfferBurned \<longleftrightarrow> of_BadAttempts o1 = 5) \<and>
    (of_State o1 = OfferAccepted \<and> now \<le> of_ReturnExpiry o1 \<and> NormalizeCode (cq_OfferCode req) = code \<and> code \<noteq> '''' \<and>
     NormalizeCode (cq_ReturnCode req) \<notin> {'''', of_ReturnCode o1} \<and> decodeB64 (cq_SignatureB64 req) \<noteq> None \<longrightarrow>
     (\<exists>o2. ConfirmHandler cfg cr w ip (Some req) now = (Inl (VErr 401 ''return_code_wrong''),
         w\<lparr>is_store := (is_store w)\<lparr>ip_offers := (ip_offers (is_store w))(code \<mapsto> o2)\<rparr>\<rparr>) \<and>
       of_BadAttempts o2 = of_BadAttempts o1 + 1))"
proof -
  have "offer_ok cfg cr t code o1"
    using vouch_run_ok [OF assms(1,2)] assms(3) by (simp add: store_ok_def)
  moreover have "\<exists>o2. ConfirmHandler cfg cr w ip (Some req) now = (Inl (VErr 401 ''return_code_wrong''),
         w\<lparr>is_store := (is_store w)\<lparr>ip_offers := (ip_offers (is_store w))(code \<mapsto> o2)\<rparr>\<rparr>) \<and>
       of_BadAttempts o2 = of_BadAttempts o1 + 1"
    if "of_State o1 = OfferAccepted" "now \<le> of_ReturnExpiry o1" "NormalizeCode (cq_OfferCode req) = code" "code \<noteq> ''''"
      "NormalizeCode (cq_ReturnCode req) \<notin> {'''', of_ReturnCode o1}" "decodeB64 (cq_SignatureB64 req) \<noteq> None"
    using that assms(3)
    by (auto simp: ConfirmHandler_def inperson_UpdateOffer_def confirm_update_def count_attempt_def Let_def)
  ultimately show ?thesis by (simp add: offer_ok_def maxReturnCodeAttempts_def)
qed

theorem return_code_guesses_bounded_witness:
  "\<exists>w o1. vouch_run sample_config sample_crypto (w, 10) \<and> ip_offers (is_store w) (sample_code 3) = Some o1 \<and>
     of_BadAttempts o1 \<le> 5 \<and> of_State o1 \<noteq> OfferBurned"
proof -
  obtain r0 w0 where o1: "OfferHandler sample_config sample_start '''' (Some (Inr sample_standing)) (Some (replicate 5 (byte 3))) 10 = (r0, w0)"
    by force
  have "vouch_run sample_config sample_crypto (sample_start, 0)"
    unfolding sample_start_def by (rule run_start)
  then have run: "vouch_run sample_config sample_crypto (w0, 10)"
    by (rule run_step [OF _ step_offer [OF _ _ o1]]) (auto simp: sample_standing_def)
  define f where "f = fresh_offer sample_config (sample_code 3) sample_standing
    \<lparr>el_anchored = True, el_weight = 1, el_left = 2\<rparr> '''' 10"
  have code: "of_Code f = sample_code 3" by (simp add: f_def fresh_offer_def)
  then have "ip_offers (is_store sample_start) (of_Code f) = None"
    by (simp add: sample_start_def NewInMemoryInPersonStore_def)
  then obtain s0 where "inperson_PutOffer (is_store sample_start) f = (None, s0)" "ip_offers s0 (sample_code 3) = Some f"
    using PutOffer_new code by metis
  then have "ip_offers (is_store w0) (sample_code 3) = Some f"
    using o1 by (auto simp: OfferHandler_def Let_def sample_eligible f_def)
  moreover from return_code_guesses_bounded [OF run _ this] have "of_BadAttempts f \<le> 5" by simp
  moreover have "of_State f \<noteq> OfferBurned" by (simp add: f_def fresh_offer_def)
  ultimately show ?thesis using run by blast
qed

text \<open>The anchor needs enough people: in every run it is granted exactly when the newcomer has a
  did:key that is not revoked and at least \<open>Required\<close> different vouchers, each anchored when they
  vouched, not revoked since, and within the validity of a vouch.\<close>

theorem anchor_needs_distinct_vouchers:
  assumes "vouch_run cfg cr (w, t)" "0 \<le> ic_OfferTTL cfg"
  shows "mr_Success (AnchorMethod_CompleteCeremony cfg cr w cc now) \<longleftrightarrow>
    has_prefix (cc_HolderDID cc) ''did:key:'' \<and> \<not> vr_Revoked (inperson_Voucher (is_store w) (cc_HolderDID cc)) \<and>
    ic_Required cfg \<le> int (card {d. \<exists>v. map_of (entries (ip_vouches (is_store w)) (cc_HolderDID cc)) d = Some v \<and>
      iv_VoucherAnchored v \<and> sub_time now (iv_At v) \<le> ic_VouchValidity cfg \<and> \<not> vr_Revoked (inperson_Voucher (is_store w) d)})"
proof -
  note ok = vouch_run_ok [OF assms, simplified]
  define c where "c = cc_HolderDID cc"
  have dist: "distinct (map fst (entries (ip_vouches (is_store w)) c))" using ok by (simp add: store_ok_def)
  have own: "iv_VoucherDID v = d" if "map_of (entries (ip_vouches (is_store w)) c) d = Some v" for d v
    using ok that by (auto simp: store_ok_def vouch_ok_def simp del: map_of_eq_Some_iff)
  have "v \<in> set (inperson_VouchesFor (is_store w) c) \<longleftrightarrow>
      map_of (entries (ip_vouches (is_store w)) c) (iv_VoucherDID v) = Some v" for v
  proof
    assume "v \<in> set (inperson_VouchesFor (is_store w) c)"
    then obtain d where "map_of (entries (ip_vouches (is_store w)) c) d = Some v"
      using dist by (auto simp: inperson_VouchesFor_def)
    then show "map_of (entries (ip_vouches (is_store w)) c) (iv_VoucherDID v) = Some v" using own by blast
  next
    assume "map_of (entries (ip_vouches (is_store w)) c) (iv_VoucherDID v) = Some v"
    then show "v \<in> set (inperson_VouchesFor (is_store w) c)"
      by (force simp: inperson_VouchesFor_def dest: map_of_SomeD)
  qed
  then have "iv_VoucherDID ` {v \<in> set (inperson_VouchesFor (is_store w) c). counting cfg (is_store w) now v}
      = {d. \<exists>v. map_of (entries (ip_vouches (is_store w)) c) d = Some v \<and> iv_VoucherAnchored v \<and>
          sub_time now (iv_At v) \<le> ic_VouchValidity cfg \<and> \<not> vr_Revoked (inperson_Voucher (is_store w) d)}"
    using own unfolding counting_def by (auto simp del: map_of_eq_Some_iff)
  then show ?thesis
    using length_anchorVouchers [OF ok, of c now]
    by (simp add: AnchorMethod_CompleteCeremony_def Let_def failed_result_def passed_result_def c_def not_less)
qed

theorem anchor_needs_distinct_vouchers_witness:
  "\<not> mr_Success (AnchorMethod_CompleteCeremony sample_config sample_crypto sample_start
     \<lparr>cc_SessionID = ''s'', cc_HolderDID = sample_did 2, cc_UserID = '''', cc_MethodID = '''', cc_IssuerDID = '''',
      cc_StartedAt = 0\<rparr> 40)"
proof -
  have "vouch_run sample_config sample_crypto (sample_start, 0)"
    unfolding sample_start_def by (rule run_start)
  from anchor_needs_distinct_vouchers [OF this] show ?thesis
    by (simp add: sample_start_def NewInMemoryInPersonStore_def entries_def) (simp add: sample_config_def)
qed

text \<open>Reinstating undoes a penalty: after an honest candidate was penalized and then reinstated,
  everybody's strikes, revocation and vouching times are what they were before, and so is the trust of
  everybody except the candidate, whose graph entry is not restored.\<close>

theorem reinstate_undoes_penalize:
  assumes "InPerson_Penalize cfg w c now = (rep1, w1)" "InPerson_Reinstate cfg w1 c = (rep2, w2)"
    and "\<not> vr_Revoked (inperson_Voucher (is_store w) c)" "vr_PenalizedVouchers (inperson_Voucher (is_store w) c) = []"
    and "\<forall>d. 0 \<le> vr_Strikes (inperson_Voucher (is_store w) d)"
    and "0 < ic_PenaltyFactor cfg" "\<forall>d trust. gs_trust (is_graph w) d = Some trust \<longrightarrow> trust \<le> 1"
  shows "\<not> pr_AlreadyRevoked rep1 \<and> \<not> pr_AlreadyRevoked rep2 \<and>
    (\<forall>d. vr_Strikes (inperson_Voucher (is_store w2) d) = vr_Strikes (inperson_Voucher (is_store w) d) \<and>
         vr_Revoked (inperson_Voucher (is_store w2) d) = vr_Revoked (inperson_Voucher (is_store w) d) \<and>
         vr_VouchTimes (inperson_Voucher (is_store w2) d) = vr_VouchTimes (inperson_Voucher (is_store w) d)) \<and>
    (\<forall>d. graph_TrustOf (is_graph w2) d = (if d = c then None else graph_TrustOf (is_graph w) d))"
proof -
  define ds where "ds = all_vouchers w c"
  obtain s1 k1 where p: "inperson_Penalize (is_store w) c ds now (ic_SuspendFor cfg) = (Some k1, s1)"
    using Penalize_ok [OF assms(3)] by blast
  have w1: "is_store w1 = s1" "\<not> pr_AlreadyRevoked rep1"
    "is_graph w1 = fold (rescale (\<lambda>trust. trust * ic_PenaltyFactor cfg)) (map fst k1) (graph_Remove (is_graph w) c)"
    using assms(1) p unfolding ds_def by (auto simp: InPerson_Penalize_def)
  have V1: "inperson_Voucher s1 d = (if d = c then (inperson_Voucher (is_store w) c)\<lparr>vr_Revoked := True,
      vr_PenalizedVouchers := filter (\<lambda>e. e \<noteq> c) ds\<rparr>
    else (strike now (ic_SuspendFor cfg) ^^ count_list ds d) (inperson_Voucher (is_store w) d))" for d
    using Penalize_voucher [OF p, of d] assms(3,4) by simp
  obtain s2 k2 where q: "inperson_Reinstate s1 c = (Some k2, s2)"
    using Reinstate_ok [of s1 c] V1 [of c] by auto
  have w2: "is_store w2 = s2" "\<not> pr_AlreadyRevoked rep2"
    "is_graph w2 = fold (rescale (restore_trust cfg)) (map fst k2) (is_graph w1)"
    using assms(2,6) q w1(1) by (auto simp: InPerson_Reinstate_def)
  have "inperson_Voucher s2 d = (if d = c then (inperson_Voucher (is_store w) c)\<lparr>vr_Revoked := False, vr_PenalizedVouchers := []\<rparr>
    else (unstrike ^^ count_list ds d) ((strike now (ic_SuspendFor cfg) ^^ count_list ds d) (inperson_Voucher (is_store w) d)))" for d
    using Reinstate_voucher [OF q, of d] V1 by simp
  then have same: "vr_Strikes (inperson_Voucher s2 d) = vr_Strikes (inperson_Voucher (is_store w) d) \<and>
         vr_Revoked (inperson_Voucher s2 d) = vr_Revoked (inperson_Voucher (is_store w) d) \<and>
         vr_VouchTimes (inperson_Voucher s2 d) = vr_VouchTimes (inperson_Voucher (is_store w) d)" for d
    using assms(3,5) by (auto simp: unstrike_strikes)
  have keys: "set (map fst k1) = set ds - {c}" "set (map fst k2) = set ds - {c}" "distinct (map fst k1)" "distinct (map fst k2)"
    using Penalize_Some [OF p] Reinstate_Some [OF q] V1 [of c] by auto
  have "graph_TrustOf (is_graph w2) d = (if d = c then None else graph_TrustOf (is_graph w) d)" for d
  proof (cases "gs_trust (is_graph w) d")
    case (Some trust)
    then have "trust \<le> 1" using assms(7) by blast
    then show ?thesis
      using Some keys assms(6) unfolding w2(3) w1(3) graph_TrustOf_def rescale_fold [OF keys(3)] rescale_fold [OF keys(4)]
      by (auto simp: graph_Remove_def restore_trust_def Let_def)
  qed (use keys in \<open>auto simp: w2(3) w1(3) graph_TrustOf_def rescale_fold graph_Remove_def\<close>)
  then show ?thesis using same w1(2) w2(1,2) by simp
qed

theorem reinstate_undoes_penalize_witness:
  "\<exists>(w1 :: inperson_state) (w2 :: inperson_state). graph_TrustOf (is_graph w1) ''v'' = Some (1 / 2) \<and> graph_TrustOf (is_graph w2) ''v'' = Some 1 \<and>
     vr_Strikes (inperson_Voucher (is_store w2) ''v'') = 0"
proof -
  define w where "w = \<lparr>is_graph = \<lparr>gs_trust = [''v'' \<mapsto> 1],
      gs_vouches = [''c'' \<mapsto> [(''v'', \<lparr>vo_VoucherID = ''v'', vo_Weight = 1, vo_At = 3\<rparr>)]]\<rparr>,
    is_store = NewInMemoryInPersonStore\<rparr>"
  obtain rep1 w1 where p: "InPerson_Penalize sample_config w ''c'' 9 = (rep1, w1)" by force
  obtain rep2 w2 where q: "InPerson_Reinstate sample_config w1 ''c'' = (rep2, w2)" by force
  have z: "inperson_Voucher (is_store w) d = zero_record" for d
    by (simp add: w_def NewInMemoryInPersonStore_def inperson_Voucher_def)
  have "all_vouchers w ''c'' = [''v'']"
    by (simp add: all_vouchers_def inperson_VouchesFor_def graph_VouchesFor_def w_def entries_def
        NewInMemoryInPersonStore_def)
  then have "graph_TrustOf (is_graph w1) ''v'' = Some (1 / 2)"
    using p z by (auto simp: InPerson_Penalize_def inperson_Penalize_def Let_def w_def graph_Remove_def
        graph_TrustOf_def sample_config_def DefaultPenaltyFactor_def zero_record_def alist_put_def split: prod.splits)
  then show ?thesis
    using reinstate_undoes_penalize [OF p q] z
    by (intro exI [of _ w1] exI [of _ w2])
      (auto simp: zero_record_def w_def sample_config_def DefaultPenaltyFactor_def graph_TrustOf_def split: if_splits)
qed

text \<open>Trust only decays: a graduate of the supplementary method had at least the required number of
  vouches and score, and enters the graph with a trust of at most 1 and at most the decay factor times
  the largest weight that vouched for them.\<close>

theorem graduate_trust_bounded:
  assumes "GraphMethod_CompleteCeremony fmt2 (NewMethod n s f) cr g cc now = (r, g')" "mr_Success r"
    and "\<forall>v \<in> set (graph_VouchesFor g (candidateKey cc)). vo_Weight v \<le> b"
  shows "0 < length (graph_VouchesFor g (candidateKey cc)) \<and> n \<le> int (length (graph_VouchesFor g (candidateKey cc))) \<and>
    s \<le> sum_list (map vo_Weight (graph_VouchesFor g (candidateKey cc))) \<and>
    (\<exists>trust. g' = graph_Enroll g (candidateKey cc) trust \<and> trust \<le> 1 \<and>
       trust \<le> (if f \<le> 0 then 3 / 4 else f) * b)"
proof -
  define vs where "vs = graph_VouchesFor g (candidateKey cc)"
  define m where "m = NewMethod n s f"
  have en: "me_requiredVouches m \<le> int (length vs)" "me_requiredScore m \<le> sum_list (map vo_Weight vs)"
    and g': "g' = graph_Enroll g (candidateKey cc) (min 1 (sum_list (map vo_Weight vs) / real (length vs) * me_decayFactor m))"
    using assms(1,2) unfolding vs_def m_def
    by (auto simp: GraphMethod_CompleteCeremony_def Let_def failed_result_def min_def split: if_splits)
  have pos: "0 < length vs" "0 < me_decayFactor m" "n \<le> me_requiredVouches m" "s \<le> me_requiredScore m"
    using en by (auto simp: m_def NewMethod_def split: if_splits)
  have "sum_list (map vo_Weight vs) \<le> real (length vs) * b"
    using assms(3) unfolding vs_def [symmetric] by (induction vs) (auto simp: algebra_simps)
  then have "sum_list (map vo_Weight vs) / real (length vs) \<le> b"
    using pos(1) by (simp add: field_simps)
  then have "sum_list (map vo_Weight vs) / real (length vs) * me_decayFactor m \<le> me_decayFactor m * b"
    using mult_right_mono [of _ b "me_decayFactor m"] pos(2) by (metis less_imp_le mult.commute)
  then show ?thesis
    using en pos g' unfolding vs_def [symmetric] by (intro conjI exI [of _ "min 1 (sum_list (map vo_Weight vs) / real (length vs) * me_decayFactor m)"])
      (auto simp: m_def NewMethod_def)
qed

theorem graduate_trust_bounded_witness:
  "\<exists>(g' :: graph_store). graph_TrustOf g' ''did'' \<noteq> None \<and> graph_TrustOf g' ''did'' \<in> {Some t | t. t \<le> 3 / 4 \<and> t \<le> (1 :: real)}"
proof -
  define g where "g = \<lparr>gs_trust = Map.empty, gs_vouches = [''did'' \<mapsto> [(''a'', \<lparr>vo_VoucherID = ''a'', vo_Weight = 1, vo_At = 0\<rparr>),
    (''b'', \<lparr>vo_VoucherID = ''b'', vo_Weight = 1, vo_At = 0\<rparr>)]]\<rparr>"
  define cc where "cc = \<lparr>cc_SessionID = ''s'', cc_HolderDID = ''did'', cc_UserID = '''', cc_MethodID = '''', cc_IssuerDID = '''',
      cc_StartedAt = 0\<rparr>"
  obtain r g' where c: "GraphMethod_CompleteCeremony (\<lambda>x. '''') (NewMethod 2 0 0) sample_crypto g cc 5 = (r, g')" by force
  then have "mr_Success r"
    by (auto simp: GraphMethod_CompleteCeremony_def NewMethod_def g_def cc_def candidateKey_def graph_VouchesFor_def
        entries_def passed_result_def Let_def)
  from graduate_trust_bounded [OF c this, of 1] show ?thesis
    by (intro exI [of _ g']) (auto simp: g_def cc_def candidateKey_def graph_VouchesFor_def entries_def graph_Enroll_def graph_TrustOf_def)
qed

end
