(* ===== verification/Server_Monad.thy ===== *)
theory Server_Monad
  imports Prelude
begin

text \<open>
  The way a handler of \<open>src/server\<close> runs: it threads the issuer's state through its calls, returns early
  with an error, and goes on otherwise. A computation maps a state to a result, \<open>Inl\<close> the error or \<open>Inr\<close>
  the value, and the state it leaves, also when it fails. \<open>wp\<close> is its weakest precondition for a
  postcondition on values and one on errors; the collection \<open>wp\<close> computes it.
\<close>

named_theorems wp \<open>equations that compute the weakest precondition of a computation\<close>

type_synonym ('s, 'e, 'a) comp = "'s \<Rightarrow> ('e + 'a) \<times> 's"

definition ret :: "'a \<Rightarrow> ('s, 'e, 'a) comp" where
  "ret a s = (Inr a, s)"

definition throw :: "'e \<Rightarrow> ('s, 'e, 'a) comp" where
  "throw e s = (Inl e, s)"

definition andThen :: "('s, 'e, 'a) comp \<Rightarrow> ('a \<Rightarrow> ('s, 'e, 'b) comp) \<Rightarrow> ('s, 'e, 'b) comp" where
  "andThen m f s = (case m s of (Inl e, s') \<Rightarrow> (Inl e, s') | (Inr a, s') \<Rightarrow> f a s')"

definition onError :: "('e \<Rightarrow> 'f) \<Rightarrow> ('s, 'e, 'a) comp \<Rightarrow> ('s, 'f, 'a) comp" where
  "onError h m s = (case m s of (Inl e, s') \<Rightarrow> (Inl (h e), s') | (Inr a, s') \<Rightarrow> (Inr a, s'))"

definition reads :: "('s \<Rightarrow> 'a) \<Rightarrow> ('s, 'e, 'a) comp" where
  "reads f s = (Inr (f s), s)"

text \<open>What becomes of a call to a service outside the process: it may fail before it took effect, or after.\<close>

datatype call_fate = Answers | FailsBefore | FailsAfter

text \<open>\<open>if bad { writeError(...); return }\<close>.\<close>

definition refuseIf :: "bool \<Rightarrow> 'e \<Rightarrow> ('s, 'e, unit) comp" where
  "refuseIf bad e = (if bad then throw e else ret ())"

fun forEach :: "('a \<Rightarrow> ('s, 'e, unit) comp) \<Rightarrow> 'a list \<Rightarrow> ('s, 'e, unit) comp" where
  "forEach f [] = ret ()"
| "forEach f (x # xs) = andThen (f x) (\<lambda>_. forEach f xs)"

text \<open>A loop that counts the elements for which its body answers true.\<close>

fun countEach :: "('a \<Rightarrow> ('s, 'e, bool) comp) \<Rightarrow> 'a list \<Rightarrow> ('s, 'e, nat) comp" where
  "countEach f [] = ret 0"
| "countEach f (x # xs) = andThen (f x) (\<lambda>hit.
     andThen (countEach f xs) (\<lambda>n. ret (if hit then Suc n else n)))"

text \<open>A loop that returns at the first element for which its body answers true.\<close>

fun anyOf :: "('a \<Rightarrow> ('s, 'e, bool) comp) \<Rightarrow> 'a list \<Rightarrow> ('s, 'e, bool) comp" where
  "anyOf f [] = ret False"
| "anyOf f (x # xs) = andThen (f x) (\<lambda>hit. if hit then ret True else anyOf f xs)"

section \<open>Weakest preconditions\<close>

definition wp :: "('s, 'e, 'a) comp \<Rightarrow> ('a \<Rightarrow> 's \<Rightarrow> bool) \<Rightarrow> ('e \<Rightarrow> 's \<Rightarrow> bool) \<Rightarrow> 's \<Rightarrow> bool" where
  "wp m Q E s \<longleftrightarrow> (case m s of (Inl e, s') \<Rightarrow> E e s' | (Inr a, s') \<Rightarrow> Q a s')"

lemma wp_ret [wp]: "wp (ret a) Q E = Q a"
  by (simp add: fun_eq_iff wp_def ret_def)

lemma wp_throw [wp]: "wp (throw e) Q E = E e"
  by (simp add: fun_eq_iff wp_def throw_def)

lemma wp_andThen [wp]: "wp (andThen m f) Q E = wp m (\<lambda>a. wp (f a) Q E) E"
  by (simp add: fun_eq_iff wp_def andThen_def split: prod.split sum.split)

lemma wp_onError [wp]: "wp (onError h m) Q E = wp m Q (\<lambda>e. E (h e))"
  by (simp add: fun_eq_iff wp_def onError_def split: prod.split sum.split)

lemma wp_reads [wp]: "wp (reads f) Q E s = Q (f s) s"
  by (simp add: wp_def reads_def)

lemma wp_refuseIf [wp]: "wp (refuseIf bad e) Q E s = (if bad then E e s else Q () s)"
  by (simp add: refuseIf_def wp)

lemma wp_if [wp]: "wp (if c then a else b) Q E s = (if c then wp a Q E s else wp b Q E s)"
  by simp

lemma wp_option [wp]:
  "wp (case x of None \<Rightarrow> a | Some y \<Rightarrow> f y) Q E s = (case x of None \<Rightarrow> wp a Q E s | Some y \<Rightarrow> wp (f y) Q E s)"
  by (simp split: option.split)

lemma wp_sum [wp]:
  "wp (case x of Inl y \<Rightarrow> f y | Inr z \<Rightarrow> g z) Q E s = (case x of Inl y \<Rightarrow> wp (f y) Q E s | Inr z \<Rightarrow> wp (g z) Q E s)"
  by (simp split: sum.split)

lemma wp_prod [wp]: "wp (case x of (y, z) \<Rightarrow> f y z) Q E s = (case x of (y, z) \<Rightarrow> wp (f y z) Q E s)"
  by (simp split: prod.split)

lemma wp_Let [wp]: "wp (let x = y in f x) Q E s = (let x = y in wp (f x) Q E s)"
  by simp

lemma wp_mono:
  assumes "wp m Q E s" "\<And>a s'. Q a s' \<Longrightarrow> Q' a s'" "\<And>e s'. E e s' \<Longrightarrow> E' e s'"
  shows "wp m Q' E' s"
  using assms by (auto simp: wp_def split: prod.splits sum.splits)

lemma wp_seq:
  assumes "wp m R E s" "\<And>a t. R a t \<Longrightarrow> wp (f a) Q E t"
  shows "wp (andThen m f) Q E s"
  unfolding wp_andThen by (rule wp_mono [OF assms(1)]) (rule assms(2))

lemma wp_step:
  assumes "wp m R E' s" "\<And>e t. E' e t \<Longrightarrow> E e t" "\<And>a t. R a t \<Longrightarrow> wp (f a) Q E t"
  shows "wp (andThen m f) Q E s"
  unfolding wp_andThen by (rule wp_mono [OF assms(1)]) (rule assms(3), assumption, rule assms(2))

lemma wp_conj: "wp m Q E s \<Longrightarrow> wp m Q' E' s \<Longrightarrow> wp m (\<lambda>a t. Q a t \<and> Q' a t) (\<lambda>e t. E e t \<and> E' e t) s"
  by (auto simp: wp_def split: prod.splits sum.splits)

lemma wp_result: "m s = (Inr a, s') \<Longrightarrow> wp m Q E s \<Longrightarrow> Q a s'"
  by (simp add: wp_def)

lemma wp_error: "m s = (Inl e, s') \<Longrightarrow> wp m Q E s \<Longrightarrow> E e s'"
  by (simp add: wp_def)

lemma wp_state: "m s = (r, s') \<Longrightarrow> wp m (\<lambda>_. P) (\<lambda>_. P) s \<Longrightarrow> P s'"
  by (cases r) (simp_all add: wp_def)

lemma wpI: "(\<And>a s'. m s = (Inr a, s') \<Longrightarrow> Q a s') \<Longrightarrow> (\<And>e s'. m s = (Inl e, s') \<Longrightarrow> E e s') \<Longrightarrow> wp m Q E s"
  by (auto simp: wp_def split: prod.split sum.split)

section \<open>Loops\<close>

text \<open>The invariant of a loop speaks of the elements it has passed.\<close>

lemma wp_forEach:
  assumes step: "\<And>seen x rest t. xs = seen @ x # rest \<Longrightarrow> I seen t \<Longrightarrow> wp (f x) (\<lambda>_. I (seen @ [x])) E t"
    and "I [] s" and finish: "\<And>t. I xs t \<Longrightarrow> Q () t"
  shows "wp (forEach f xs) Q E s"
proof -
  have "wp (forEach f rest) (\<lambda>_. I xs) E t" if "I seen t" "xs = seen @ rest" for seen rest t
    using that
  proof (induction rest arbitrary: seen t)
    case (Cons x rest)
    have "wp (f x) (\<lambda>_. I (seen @ [x])) E t"
      using step [of seen x rest t] Cons.prems by simp
    then show ?case
      using Cons.IH [of "seen @ [x]"] Cons.prems by (auto simp: wp elim!: wp_mono)
  qed (simp add: wp)
  from this [of "[]" s xs] show ?thesis
    using \<open>I [] s\<close> finish by (auto elim!: wp_mono)
qed

lemma wp_countEach:
  assumes step: "\<And>seen x rest t. xs = seen @ x # rest \<Longrightarrow> I seen t \<Longrightarrow> wp (f x) (\<lambda>_. I (seen @ [x])) E t"
    and "I [] s" and finish: "\<And>n t. I xs t \<Longrightarrow> Q n t"
  shows "wp (countEach f xs) Q E s"
proof -
  have "wp (countEach f rest) (\<lambda>_. I xs) E t" if "I seen t" "xs = seen @ rest" for seen rest t
    using that
  proof (induction rest arbitrary: seen t)
    case (Cons x rest)
    have "wp (f x) (\<lambda>_. I (seen @ [x])) E t"
      using step [of seen x rest t] Cons.prems by simp
    then show ?case
      using Cons.IH [of "seen @ [x]"] Cons.prems by (auto simp: wp elim!: wp_mono)
  qed (simp add: wp)
  from this [of "[]" s xs] show ?thesis
    using \<open>I [] s\<close> finish by (auto elim!: wp_mono)
qed

section \<open>Invariants\<close>

text \<open>A computation keeps a predicate when it holds afterwards, whether it failed or not.\<close>

definition keeps :: "('s \<Rightarrow> bool) \<Rightarrow> ('s, 'e, 'a) comp \<Rightarrow> bool" where
  "keeps I m \<longleftrightarrow> (\<forall>s. I s \<longrightarrow> I (snd (m s)))"

named_theorems keeps \<open>rules that show that a computation keeps a predicate\<close>

lemma keeps_wp: "keeps I m \<longleftrightarrow> (\<forall>s. I s \<longrightarrow> wp m (\<lambda>_. I) (\<lambda>_. I) s)"
  by (auto simp: keeps_def wp_def case_prod_beta split: sum.split)

lemma keepsD: "keeps I m \<Longrightarrow> I s \<Longrightarrow> m s = (r, s') \<Longrightarrow> I s'"
  by (metis keeps_def snd_conv)

lemma keeps_ret [keeps]: "keeps I (ret a)"
  by (simp add: keeps_def ret_def)

lemma keeps_throw [keeps]: "keeps I (throw e)"
  by (simp add: keeps_def throw_def)

lemma keeps_reads [keeps]: "keeps I (reads f)"
  by (simp add: keeps_def reads_def)

lemma keeps_refuseIf [keeps]: "keeps I (refuseIf bad e)"
  by (simp add: refuseIf_def keeps)

lemma keeps_andThen [keeps]: "keeps I m \<Longrightarrow> (\<And>a. keeps I (f a)) \<Longrightarrow> keeps I (andThen m f)"
  by (fastforce simp: keeps_def andThen_def split: prod.split sum.split)

lemma wp_seq_keeps:
  assumes "wp m (\<lambda>_. I) (\<lambda>_. I) s" "\<And>a. keeps I (f a)"
  shows "wp (andThen m f) (\<lambda>_. I) (\<lambda>_. I) s"
  using assms by (auto simp: keeps_wp intro: wp_seq)

lemma keeps_onError [keeps]: "keeps I m \<Longrightarrow> keeps I (onError h m)"
  by (fastforce simp: keeps_def onError_def split: prod.split sum.split)

lemma keeps_if [keeps]: "(c \<Longrightarrow> keeps I a) \<Longrightarrow> (\<not> c \<Longrightarrow> keeps I b) \<Longrightarrow> keeps I (if c then a else b)"
  by simp

lemma keeps_option [keeps]:
  "(x = None \<Longrightarrow> keeps I a) \<Longrightarrow> (\<And>y. x = Some y \<Longrightarrow> keeps I (f y)) \<Longrightarrow> keeps I (case x of None \<Rightarrow> a | Some y \<Rightarrow> f y)"
  by (simp split: option.split)

lemma keeps_sum [keeps]:
  "(\<And>y. x = Inl y \<Longrightarrow> keeps I (f y)) \<Longrightarrow> (\<And>z. x = Inr z \<Longrightarrow> keeps I (g z)) \<Longrightarrow>
     keeps I (case x of Inl y \<Rightarrow> f y | Inr z \<Rightarrow> g z)"
  by (simp split: sum.split)

lemma keeps_prod [keeps]: "(\<And>y z. x = (y, z) \<Longrightarrow> keeps I (f y z)) \<Longrightarrow> keeps I (case x of (y, z) \<Rightarrow> f y z)"
  by (simp split: prod.split)

lemma keeps_Let [keeps]: "keeps I (f y) \<Longrightarrow> keeps I (let x = y in f x)"
  by simp

lemma keeps_forEach [keeps]: "(\<And>x. x \<in> set xs \<Longrightarrow> keeps I (f x)) \<Longrightarrow> keeps I (forEach f xs)"
  by (induction xs) (auto intro!: keeps)

lemma keeps_countEach [keeps]: "(\<And>x. x \<in> set xs \<Longrightarrow> keeps I (f x)) \<Longrightarrow> keeps I (countEach f xs)"
  by (induction xs) (auto intro!: keeps)

lemma keeps_anyOf [keeps]: "(\<And>x. x \<in> set xs \<Longrightarrow> keeps I (f x)) \<Longrightarrow> keeps I (anyOf f xs)"
  by (induction xs) (auto intro!: keeps)

lemma wp_anyOf_read:
  assumes "\<And>x t. x \<in> set xs \<Longrightarrow> I t \<Longrightarrow> wp (f x) (\<lambda>b u. b = P x \<and> I u) E t" "I s"
  shows "wp (anyOf f xs) (\<lambda>b u. b = list_ex P xs \<and> I u) E s"
  using assms
proof (induction xs arbitrary: s)
  case (Cons x xs)
  have "wp (f x) (\<lambda>b u. b = P x \<and> I u) E s" using Cons.prems by simp
  then show ?case
    unfolding anyOf.simps wp_andThen
  proof (rule wp_mono)
    fix b u assume "b = P x \<and> I u"
    then show "wp (if b then ret True else anyOf f xs) (\<lambda>b u. b = list_ex P (x # xs) \<and> I u) E u"
      using Cons.IH [of u] Cons.prems by (auto simp: wp)
  qed
qed (simp add: wp)

end
