(* ===== verification/Holder_Ledger.thy ===== *)
theory Holder_Ledger
  imports Base58_Did
begin

text \<open>
  What the issuer remembers of each holder, \<open>src/server/holderrevoke.go\<close>: the issuances of a holder DID
  and the bans on holders, nullifiers and pardoned evidence. There are two implementations, one in memory
  and one over a key-value interface \<open>kv\<close>, whose contract is the locale \<open>kv_contract\<close>; the second is
  shown to answer as the first. A document is kept as a value: encoding and decoding JSON is the identity
  on the values of one type, and gives the zero value across types.
\<close>

section \<open>Records\<close>

definition BanKindHolder :: string where "BanKindHolder = ''holder''"
definition BanKindNullifier :: string where "BanKindNullifier = ''nullifier''"
definition BanKindPardon :: string where "BanKindPardon = ''pardon''"

lemmas ban_kinds = BanKindHolder_def BanKindNullifier_def BanKindPardon_def

record issuance_record =
  ir_CredentialID :: string
  ir_NullifierCommitments :: "string list"
  ir_IssuedAt :: time

record ban_record =
  br_Reason :: string
  br_EvidenceDigest :: string
  br_At :: time

definition zero_ban :: ban_record where
  "zero_ban = \<lparr>br_Reason = '''', br_EvidenceDigest = '''', br_At = 0\<rparr>"

section \<open>In memory\<close>

record holder_ledger =
  hl_issuances :: "string \<rightharpoonup> issuance_record list"
  hl_bans :: "string \<rightharpoonup> ban_record"

definition NewInMemoryHolderLedger :: holder_ledger where
  "NewInMemoryHolderLedger = \<lparr>hl_issuances = Map.empty, hl_bans = Map.empty\<rparr>"

definition ban_key :: "string \<Rightarrow> string \<Rightarrow> string" where
  "ban_key kind v = kind @ [byte 0] @ v"

definition ledger_Issuances :: "holder_ledger \<Rightarrow> did \<Rightarrow> issuance_record list" where
  "ledger_Issuances l holder = (case hl_issuances l holder of None \<Rightarrow> [] | Some rs \<Rightarrow> rs)"

definition ledger_RecordIssuance :: "holder_ledger \<Rightarrow> did \<Rightarrow> issuance_record \<Rightarrow> holder_ledger" where
  "ledger_RecordIssuance l holder rec =
     l\<lparr>hl_issuances := (hl_issuances l)(holder \<mapsto> ledger_Issuances l holder @ [rec])\<rparr>"

definition ledger_Ban :: "holder_ledger \<Rightarrow> string \<Rightarrow> string \<Rightarrow> ban_record \<Rightarrow> bool \<times> holder_ledger" where
  "ledger_Ban l kind v rec =
     (case hl_bans l (ban_key kind v) of
        Some _ \<Rightarrow> (True, l)
      | None \<Rightarrow> (False, l\<lparr>hl_bans := (hl_bans l)(ban_key kind v \<mapsto> rec)\<rparr>))"

definition ledger_Banned :: "holder_ledger \<Rightarrow> string \<Rightarrow> string \<Rightarrow> bool" where
  "ledger_Banned l kind v \<longleftrightarrow> hl_bans l (ban_key kind v) \<noteq> None"

definition ledger_BanInfo :: "holder_ledger \<Rightarrow> string \<Rightarrow> string \<Rightarrow> ban_record \<times> bool" where
  "ledger_BanInfo l kind v =
     (case hl_bans l (ban_key kind v) of None \<Rightarrow> (zero_ban, False) | Some rec \<Rightarrow> (rec, True))"

definition ledger_Unban :: "holder_ledger \<Rightarrow> string \<Rightarrow> string \<Rightarrow> holder_ledger" where
  "ledger_Unban l kind v = l\<lparr>hl_bans := (hl_bans l)(ban_key kind v := None)\<rparr>"

section \<open>The key-value interface\<close>

text \<open>\<open>memKV\<close>: one map under \<open>ns + "\x00" + id\<close>.\<close>

type_synonym 'd mem_kv = "string \<rightharpoonup> 'd"

definition newMemKV :: "'d mem_kv" where
  "newMemKV = Map.empty"

definition kv_key :: "string \<Rightarrow> string \<Rightarrow> string" where
  "kv_key ns i = ns @ [byte 0] @ i"

definition memKV_get :: "'d mem_kv \<Rightarrow> string \<Rightarrow> string \<Rightarrow> 'd option" where
  "memKV_get m ns i = m (kv_key ns i)"

definition memKV_set :: "'d mem_kv \<Rightarrow> string \<Rightarrow> string \<Rightarrow> 'd \<Rightarrow> 'd mem_kv" where
  "memKV_set m ns i d = m(kv_key ns i \<mapsto> d)"

definition memKV_create :: "'d mem_kv \<Rightarrow> string \<Rightarrow> string \<Rightarrow> 'd \<Rightarrow> bool \<times> 'd mem_kv" where
  "memKV_create m ns i d =
     (case m (kv_key ns i) of Some _ \<Rightarrow> (False, m) | None \<Rightarrow> (True, m(kv_key ns i \<mapsto> d)))"

definition memKV_del :: "'d mem_kv \<Rightarrow> string \<Rightarrow> string \<Rightarrow> 'd mem_kv" where
  "memKV_del m ns i = m(kv_key ns i := None)"

text \<open>The operations of one \<open>kv\<close>, as the ledger over it receives them.\<close>

record ('s, 'd) kv_ops =
  kv_get :: "'s \<Rightarrow> string \<Rightarrow> string \<Rightarrow> 'd option"
  kv_set :: "'s \<Rightarrow> string \<Rightarrow> string \<Rightarrow> 'd \<Rightarrow> 's"
  kv_create :: "'s \<Rightarrow> string \<Rightarrow> string \<Rightarrow> 'd \<Rightarrow> bool \<times> 's"
  kv_del :: "'s \<Rightarrow> string \<Rightarrow> string \<Rightarrow> 's"

definition mem_kv_ops :: "('d mem_kv, 'd) kv_ops" where
  "mem_kv_ops = \<lparr>kv_get = memKV_get, kv_set = memKV_set, kv_create = memKV_create, kv_del = memKV_del\<rparr>"

section \<open>The ledger over a key-value store\<close>

datatype ledger_doc = IssuanceDoc "issuance_record list" | BanDoc ban_record

fun as_issuances :: "ledger_doc \<Rightarrow> issuance_record list" where
  "as_issuances (IssuanceDoc rs) = rs"
| "as_issuances (BanDoc _) = []"

fun as_ban :: "ledger_doc \<Rightarrow> ban_record" where
  "as_ban (BanDoc rec) = rec"
| "as_ban (IssuanceDoc _) = zero_ban"

definition kvIssuancesNS :: string where "kvIssuancesNS = ''personhood-holder-issuances''"
definition kvBansNS :: string where "kvBansNS = ''personhood-bans''"

definition kv_ban_id :: "crypto \<Rightarrow> string \<Rightarrow> string \<Rightarrow> string" where
  "kv_ban_id cr kind v = kind @ ''-'' @ sha256_hex cr v"

definition kvledger_issuances ::
  "('s, ledger_doc) kv_ops \<Rightarrow> crypto \<Rightarrow> 's \<Rightarrow> did \<Rightarrow> issuance_record list" where
  "kvledger_issuances kv cr s holder =
     (case kv_get kv s kvIssuancesNS (sha256_hex cr holder) of None \<Rightarrow> [] | Some d \<Rightarrow> as_issuances d)"

definition kvledger_RecordIssuance ::
  "('s, ledger_doc) kv_ops \<Rightarrow> crypto \<Rightarrow> 's \<Rightarrow> did \<Rightarrow> issuance_record \<Rightarrow> 's" where
  "kvledger_RecordIssuance kv cr s holder rec =
     kv_set kv s kvIssuancesNS (sha256_hex cr holder) (IssuanceDoc (kvledger_issuances kv cr s holder @ [rec]))"

definition kvledger_Ban ::
  "('s, ledger_doc) kv_ops \<Rightarrow> crypto \<Rightarrow> 's \<Rightarrow> string \<Rightarrow> string \<Rightarrow> ban_record \<Rightarrow> bool \<times> 's" where
  "kvledger_Ban kv cr s kind v rec =
     (case kv_create kv s kvBansNS (kv_ban_id cr kind v) (BanDoc rec) of (created, s') \<Rightarrow> (\<not> created, s'))"

definition kvledger_Banned :: "('s, ledger_doc) kv_ops \<Rightarrow> crypto \<Rightarrow> 's \<Rightarrow> string \<Rightarrow> string \<Rightarrow> bool" where
  "kvledger_Banned kv cr s kind v \<longleftrightarrow> kv_get kv s kvBansNS (kv_ban_id cr kind v) \<noteq> None"

definition kvledger_BanInfo ::
  "('s, ledger_doc) kv_ops \<Rightarrow> crypto \<Rightarrow> 's \<Rightarrow> string \<Rightarrow> string \<Rightarrow> ban_record \<times> bool" where
  "kvledger_BanInfo kv cr s kind v =
     (case kv_get kv s kvBansNS (kv_ban_id cr kind v) of None \<Rightarrow> (zero_ban, False) | Some d \<Rightarrow> (as_ban d, True))"

definition kvledger_Unban :: "('s, ledger_doc) kv_ops \<Rightarrow> crypto \<Rightarrow> 's \<Rightarrow> string \<Rightarrow> string \<Rightarrow> 's" where
  "kvledger_Unban kv cr s kind v = kv_del kv s kvBansNS (kv_ban_id cr kind v)"

section \<open>The ledger's calls\<close>

datatype ledger_call =
    LRecord did issuance_record
  | LIssuances did
  | LBan string string ban_record
  | LBanned string string
  | LBanInfo string string
  | LUnban string string

datatype ledger_answer =
    ADone | AIssuances "issuance_record list" | AFlag bool | AInfo "ban_record \<times> bool"

fun mem_ledger_exec :: "holder_ledger \<Rightarrow> ledger_call \<Rightarrow> ledger_answer \<times> holder_ledger" where
  "mem_ledger_exec l (LRecord h rec) = (ADone, ledger_RecordIssuance l h rec)"
| "mem_ledger_exec l (LIssuances h) = (AIssuances (ledger_Issuances l h), l)"
| "mem_ledger_exec l (LBan k v rec) = (case ledger_Ban l k v rec of (b, l') \<Rightarrow> (AFlag b, l'))"
| "mem_ledger_exec l (LBanned k v) = (AFlag (ledger_Banned l k v), l)"
| "mem_ledger_exec l (LBanInfo k v) = (AInfo (ledger_BanInfo l k v), l)"
| "mem_ledger_exec l (LUnban k v) = (ADone, ledger_Unban l k v)"

fun kv_ledger_exec ::
  "('s, ledger_doc) kv_ops \<Rightarrow> crypto \<Rightarrow> 's \<Rightarrow> ledger_call \<Rightarrow> ledger_answer \<times> 's" where
  "kv_ledger_exec kv cr s (LRecord h rec) = (ADone, kvledger_RecordIssuance kv cr s h rec)"
| "kv_ledger_exec kv cr s (LIssuances h) = (AIssuances (kvledger_issuances kv cr s h), s)"
| "kv_ledger_exec kv cr s (LBan k v rec) = (case kvledger_Ban kv cr s k v rec of (b, s') \<Rightarrow> (AFlag b, s'))"
| "kv_ledger_exec kv cr s (LBanned k v) = (AFlag (kvledger_Banned kv cr s k v), s)"
| "kv_ledger_exec kv cr s (LBanInfo k v) = (AInfo (kvledger_BanInfo kv cr s k v), s)"
| "kv_ledger_exec kv cr s (LUnban k v) = (ADone, kvledger_Unban kv cr s k v)"

fun ledger_answers :: "('s \<Rightarrow> ledger_call \<Rightarrow> ledger_answer \<times> 's) \<Rightarrow> 's \<Rightarrow> ledger_call list \<Rightarrow> ledger_answer list" where
  "ledger_answers exec s [] = []"
| "ledger_answers exec s (c # cs) = (case exec s c of (a, s') \<Rightarrow> a # ledger_answers exec s' cs)"

text \<open>The DIDs and values a call hashes, and the kinds the issuer uses.\<close>

fun call_value :: "ledger_call \<Rightarrow> string" where
  "call_value (LRecord h _) = h"
| "call_value (LIssuances h) = h"
| "call_value (LBan _ v _) = v"
| "call_value (LBanned _ v) = v"
| "call_value (LBanInfo _ v) = v"
| "call_value (LUnban _ v) = v"

fun call_kind :: "ledger_call \<Rightarrow> string" where
  "call_kind (LBan k _ _) = k"
| "call_kind (LBanned k _) = k"
| "call_kind (LBanInfo k _) = k"
| "call_kind (LUnban k _) = k"
| "call_kind _ = BanKindHolder"

definition ledger_kinds :: "string set" where
  "ledger_kinds = {BanKindHolder, BanKindNullifier, BanKindPardon}"

lemma ledger_kind_chars: "k \<in> ledger_kinds \<Longrightarrow> byte 0 \<notin> set k \<and> CHR ''-'' \<notin> set k"
  by (auto simp: ledger_kinds_def ban_kinds go_string)

lemma ban_key_inj: "k \<in> ledger_kinds \<Longrightarrow> k' \<in> ledger_kinds \<Longrightarrow> ban_key k v = ban_key k' v' \<longleftrightarrow> k = k' \<and> v = v'"
  using separator_inj [of "byte 0" k k' v v'] ledger_kind_chars by (simp add: ban_key_def)

lemma kv_ban_id_inj:
  "k \<in> ledger_kinds \<Longrightarrow> k' \<in> ledger_kinds \<Longrightarrow> inj_on (c_sha256 cr) V \<Longrightarrow> v \<in> V \<Longrightarrow> v' \<in> V \<Longrightarrow>
     kv_ban_id cr k v = kv_ban_id cr k' v' \<longleftrightarrow> k = k' \<and> v = v'"
  using separator_inj [of "CHR ''-''" k k' "sha256_hex cr v" "sha256_hex cr v'"] ledger_kind_chars
  by (auto simp: kv_ban_id_def sha256_hex_def inj_on_def)

lemma ledger_Banned_simps [simp]:
  "k \<in> ledger_kinds \<Longrightarrow> k' \<in> ledger_kinds \<Longrightarrow>
     ledger_Banned (snd (ledger_Ban l k v rec)) k' v' \<longleftrightarrow> ledger_Banned l k' v' \<or> k' = k \<and> v' = v"
  "k \<in> ledger_kinds \<Longrightarrow> k' \<in> ledger_kinds \<Longrightarrow>
     ledger_Banned (ledger_Unban l k v) k' v' \<longleftrightarrow> ledger_Banned l k' v' \<and> \<not> (k' = k \<and> v' = v)"
  "ledger_Banned (ledger_RecordIssuance l h rec') k' v' = ledger_Banned l k' v'"
  by (auto simp: ledger_Banned_def ledger_Ban_def ledger_Unban_def ledger_RecordIssuance_def ban_key_inj
      split: option.splits)

lemma ledger_Issuances_simps [simp]:
  "ledger_Issuances (snd (ledger_Ban l k v rec)) h = ledger_Issuances l h"
  "ledger_Issuances (ledger_Unban l k v) h = ledger_Issuances l h"
  "ledger_Issuances (ledger_RecordIssuance l h' rec') h =
     (if h = h' then ledger_Issuances l h @ [rec'] else ledger_Issuances l h)"
  by (auto simp: ledger_Issuances_def ledger_Ban_def ledger_Unban_def ledger_RecordIssuance_def split: option.splits)

lemma kinds_in [simp]: "BanKindHolder \<in> ledger_kinds" "BanKindNullifier \<in> ledger_kinds" "BanKindPardon \<in> ledger_kinds"
  by (simp_all add: ledger_kinds_def)

lemma kinds_distinct [simp]:
  "BanKindHolder \<noteq> BanKindNullifier" "BanKindHolder \<noteq> BanKindPardon" "BanKindNullifier \<noteq> BanKindPardon"
  "BanKindNullifier \<noteq> BanKindHolder" "BanKindPardon \<noteq> BanKindHolder" "BanKindPardon \<noteq> BanKindNullifier"
  by (simp_all add: ban_kinds)

section \<open>The contract of a key-value store\<close>

text \<open>Namespaces are constants without a NUL byte; within them the store is a map on pairs.\<close>

definition plain_ns :: "string \<Rightarrow> bool" where
  "plain_ns ns \<longleftrightarrow> byte 0 \<notin> set ns"

lemma plain_ns_consts [simp]: "plain_ns kvIssuancesNS" "plain_ns kvBansNS"
  by (auto simp: plain_ns_def kvIssuancesNS_def kvBansNS_def go_string)

lemma kvNS_distinct [simp]: "kvIssuancesNS \<noteq> kvBansNS" "kvBansNS \<noteq> kvIssuancesNS"
  by (simp_all add: kvIssuancesNS_def kvBansNS_def)

locale kv_contract =
  fixes kv :: "('s, 'd) kv_ops"
  assumes get_set: "plain_ns ns \<Longrightarrow> plain_ns ns' \<Longrightarrow>
      kv_get kv (kv_set kv s ns i d) ns' j = (if ns' = ns \<and> j = i then Some d else kv_get kv s ns' j)"
    and create_get: "fst (kv_create kv s ns i d) \<longleftrightarrow> kv_get kv s ns i = None"
    and get_create: "plain_ns ns \<Longrightarrow> plain_ns ns' \<Longrightarrow> kv_get kv (snd (kv_create kv s ns i d)) ns' j =
      (if ns' = ns \<and> j = i \<and> kv_get kv s ns i = None then Some d else kv_get kv s ns' j)"
    and get_del: "plain_ns ns \<Longrightarrow> plain_ns ns' \<Longrightarrow>
      kv_get kv (kv_del kv s ns i) ns' j = (if ns' = ns \<and> j = i then None else kv_get kv s ns' j)"

lemma kv_key_inj: "plain_ns ns \<Longrightarrow> plain_ns ns' \<Longrightarrow> kv_key ns i = kv_key ns' j \<longleftrightarrow> ns = ns' \<and> i = j"
  using separator_inj [of "byte 0" ns ns' i j] by (simp add: plain_ns_def kv_key_def)

interpretation memKV: kv_contract mem_kv_ops
  by unfold_locales
    (auto simp: mem_kv_ops_def memKV_get_def memKV_set_def memKV_create_def memKV_del_def kv_key_inj split: option.splits)

section \<open>The ledger over a store answers as the one in memory\<close>

locale kv_ledger = kv_contract kv for kv :: "('s, ledger_doc) kv_ops" +
  fixes cr :: crypto
begin

definition agrees :: "string set \<Rightarrow> 's \<Rightarrow> holder_ledger \<Rightarrow> bool" where
  "agrees V s l \<longleftrightarrow> (\<forall>h \<in> V. kvledger_issuances kv cr s h = ledger_Issuances l h) \<and>
     (\<forall>k \<in> ledger_kinds. \<forall>v \<in> V. kv_get kv s kvBansNS (kv_ban_id cr k v) = map_option BanDoc (hl_bans l (ban_key k v)))"

lemma agrees_record:
  assumes "agrees V s l" "inj_on (c_sha256 cr) V" "h \<in> V"
  shows "agrees V (kvledger_RecordIssuance kv cr s h rec) (ledger_RecordIssuance l h rec)"
  using assms
  by (auto simp: agrees_def kvledger_RecordIssuance_def kvledger_issuances_def get_set sha256_hex_def
      ledger_RecordIssuance_def ledger_Issuances_def inj_on_def)

lemma agrees_ban:
  assumes "agrees V s l" "inj_on (c_sha256 cr) V" "v \<in> V" "k \<in> ledger_kinds"
  shows "fst (kvledger_Ban kv cr s k v rec) = fst (ledger_Ban l k v rec) \<and>
     agrees V (snd (kvledger_Ban kv cr s k v rec)) (snd (ledger_Ban l k v rec))"
proof -
  obtain created s' where c: "kv_create kv s kvBansNS (kv_ban_id cr k v) (BanDoc rec) = (created, s')" by fastforce
  note get = get_create [of kvBansNS _ s "kv_ban_id cr k v" "BanDoc rec", unfolded c snd_conv]
  have "created \<longleftrightarrow> kv_get kv s kvBansNS (kv_ban_id cr k v) = None"
    using create_get [of s kvBansNS "kv_ban_id cr k v" "BanDoc rec"] c by simp
  then show ?thesis
    using assms kv_ban_id_inj [of _ k cr V _ v]
    by (auto simp: agrees_def kvledger_Ban_def ledger_Ban_def kvledger_issuances_def get c ban_key_inj
        ledger_Issuances_def split: option.split)
qed

lemma agrees_unban:
  assumes "agrees V s l" "inj_on (c_sha256 cr) V" "v \<in> V" "k \<in> ledger_kinds"
  shows "agrees V (kvledger_Unban kv cr s k v) (ledger_Unban l k v)"
  using assms kv_ban_id_inj [of _ k cr V _ v]
  by (auto simp: agrees_def kvledger_Unban_def ledger_Unban_def kvledger_issuances_def get_del ban_key_inj
      ledger_Issuances_def)

lemma agrees_exec:
  assumes "agrees V s l" "inj_on (c_sha256 cr) V" "call_value c \<in> V" "call_kind c \<in> ledger_kinds"
  shows "fst (kv_ledger_exec kv cr s c) = fst (mem_ledger_exec l c) \<and>
     agrees V (snd (kv_ledger_exec kv cr s c)) (snd (mem_ledger_exec l c))"
  using assms
proof (cases c)
  case (LBan k v rec)
  then show ?thesis using agrees_ban [of V s l v k rec] assms by (simp add: case_prod_beta)
next
  case (LBanInfo k v)
  then show ?thesis using assms
    by (auto simp: agrees_def kvledger_BanInfo_def ledger_BanInfo_def split: option.splits)
qed (auto simp: agrees_record agrees_unban agrees_def [of V s l] kvledger_Banned_def ledger_Banned_def)

lemma answers_agree:
  assumes "agrees V s l" "inj_on (c_sha256 cr) V" "\<forall>c \<in> set cs. call_value c \<in> V \<and> call_kind c \<in> ledger_kinds"
  shows "ledger_answers (kv_ledger_exec kv cr) s cs = ledger_answers mem_ledger_exec l cs"
  using assms
proof (induction cs arbitrary: s l)
  case (Cons c cs)
  then show ?case using agrees_exec [of V s l c] by (auto split: prod.split)
qed simp

end

interpretation mem_ledger: kv_ledger mem_kv_ops cr for cr
  by unfold_locales

section \<open>Properties\<close>

text \<open>C40: The ledger over a key-value store answers every sequence of calls exactly as the one in memory,
  as long as SHA-256 does not collide on the DIDs and values of the sequence.\<close>

theorem kv_ledger_equivalent:
  assumes "inj_on (c_sha256 cr) (call_value ` set cs)" "\<forall>c \<in> set cs. call_kind c \<in> ledger_kinds"
  shows "ledger_answers (kv_ledger_exec mem_kv_ops cr) newMemKV cs
    = ledger_answers mem_ledger_exec NewInMemoryHolderLedger cs"
proof (rule mem_ledger.answers_agree)
  show "mem_ledger.agrees cr (call_value ` set cs) newMemKV NewInMemoryHolderLedger"
    unfolding mem_ledger.agrees_def
    by (simp add: newMemKV_def NewInMemoryHolderLedger_def kvledger_issuances_def
        ledger_Issuances_def mem_kv_ops_def memKV_get_def)
qed (use assms in auto)

definition sample_ban :: ban_record where
  "sample_ban = \<lparr>br_Reason = ''operator: x'', br_EvidenceDigest = '''', br_At = 3\<rparr>"

theorem kv_ledger_equivalent_witness:
  "ledger_answers (kv_ledger_exec mem_kv_ops sample_crypto) newMemKV
     [LBan BanKindHolder ''did:a'' sample_ban, LBan BanKindHolder ''did:a'' sample_ban, LBanned BanKindNullifier ''did:a'']
   = [AFlag False, AFlag True, AFlag False]"
proof -
  have "ledger_answers (kv_ledger_exec mem_kv_ops sample_crypto) newMemKV
     [LBan BanKindHolder ''did:a'' sample_ban, LBan BanKindHolder ''did:a'' sample_ban, LBanned BanKindNullifier ''did:a'']
   = ledger_answers mem_ledger_exec NewInMemoryHolderLedger
     [LBan BanKindHolder ''did:a'' sample_ban, LBan BanKindHolder ''did:a'' sample_ban, LBanned BanKindNullifier ''did:a'']"
    by (rule kv_ledger_equivalent) simp_all
  then show ?thesis
    by (simp add: ledger_Ban_def ledger_Banned_def NewInMemoryHolderLedger_def ban_key_inj)
qed

end
