(* ===== verification/Server_State.thy ===== *)
theory Server_State
  imports Server_Monad Holder_Ledger Session_Store Revocation_Store Identifier_Model Registry_Model Vouching
begin

text \<open>
  The issuer \<open>Server\<close> of \<open>src/server\<close>: its configuration, the stores its handlers share, the documents of
  the no-false-lockout store (\<open>nolockout.go\<close>, \<open>recovery.go\<close>, \<open>review.go\<close>) and the calls through which the
  handlers reach the stores. Each call to a durable store (ledger, revocations, identifiers, lockout store,
  vouching) can fail: \<open>ss_faults\<close> says which of the next calls do, so every \<open>if err != nil\<close> branch of the
  handlers is a branch of the model. A failing call leaves its store as it was. Sessions are the
  in-memory ones. One request reads the clock once.
\<close>

section \<open>Configuration\<close>

record lockout_config =
  lc_RecoveryDelay :: duration
  lc_RecoveryCooldown :: duration
  lc_MaxCancelledRecoveries :: int
  lc_RecoveryVouches :: int
  lc_RecoveryDocumentMethods :: "string list"
  lc_FaceMatchExtraVouches :: int
  lc_FaceMatchMaxOthers :: int

definition withDefaults :: "lockout_config \<Rightarrow> lockout_config" where
  "withDefaults c =
     c\<lparr>lc_RecoveryDelay := (if lc_RecoveryDelay c \<le> 0 then 72 * ns_hour else lc_RecoveryDelay c),
       lc_RecoveryCooldown := (if lc_RecoveryCooldown c \<le> 0 then 30 * 24 * ns_hour else lc_RecoveryCooldown c),
       lc_MaxCancelledRecoveries :=
         (if lc_MaxCancelledRecoveries c \<le> 0 then 3 else lc_MaxCancelledRecoveries c),
       lc_RecoveryVouches := (if lc_RecoveryVouches c \<le> 0 then 2 else lc_RecoveryVouches c),
       lc_FaceMatchExtraVouches :=
         (if lc_FaceMatchExtraVouches c < 0 then 0
          else if lc_FaceMatchExtraVouches c = 0 then 2 else lc_FaceMatchExtraVouches c),
       lc_FaceMatchMaxOthers := (if lc_FaceMatchMaxOthers c \<le> 0 then 2 else lc_FaceMatchMaxOthers c)\<rparr>"

text \<open>
  \<open>cf_lockout\<close>, \<open>cf_inPerson\<close> and \<open>cf_identifierKeys\<close> are \<open>None\<close> where the server's pointer is nil.
  \<open>cf_range\<close> is the order in which Go's \<open>range\<close> happens to visit the keys of a map. \<open>cf_registry\<close> keeps the
  registered methods by their metadata; a plugin's own state is a parameter of the handlers that run it.
\<close>

record server_config =
  cf_crypto :: crypto
  cf_json :: json_codec
  cf_issuerDID :: did
  cf_issuerPublicKey :: bytes
  cf_issuer :: "issuer option"
  cf_credentialLifetime :: duration
  cf_statusListURL :: string
  cf_AdminToken :: string
  cf_EnrollmentInviteCode :: string
  cf_RequireHolderPoP :: bool
  cf_ExposeChallengeSecrets :: bool
  cf_emailDelivery :: string
  cf_smsDelivery :: string
  cf_holderRevocation :: bool
  cf_identifierKeys :: "identifier_keyer option"
  cf_inPerson :: "inperson_config option"
  cf_lockout :: "lockout_config option"
  cf_registry :: "unit registry"
  cf_methodPrerequisites :: "(string \<times> string list) list"
  cf_range :: "string list \<Rightarrow> string list"

text \<open>A map's keys are visited each once, in any order.\<close>

definition ranges_all :: "server_config \<Rightarrow> bool" where
  "ranges_all cfg \<longleftrightarrow> (\<forall>xs. distinct xs \<longrightarrow> distinct (cf_range cfg xs) \<and> set (cf_range cfg xs) = set xs)"

section \<open>Documents of the lockout store\<close>

record face_match_doc =
  fm_Commitment :: string
  fm_At :: time
  fm_Declined :: bool

record identity_doc =
  id_HolderDID :: did
  id_At :: time

definition RecoveryPending :: string where "RecoveryPending = ''pending''"
definition RecoveryCancelled :: string where "RecoveryCancelled = ''cancelled''"
definition RecoveryCompleted :: string where "RecoveryCompleted = ''completed''"

lemmas recovery_state_defs = RecoveryPending_def RecoveryCancelled_def RecoveryCompleted_def

lemma recovery_states_distinct [simp]:
  "RecoveryPending \<noteq> RecoveryCancelled" "RecoveryPending \<noteq> RecoveryCompleted"
  "RecoveryCancelled \<noteq> RecoveryPending" "RecoveryCancelled \<noteq> RecoveryCompleted"
  "RecoveryCompleted \<noteq> RecoveryPending" "RecoveryCompleted \<noteq> RecoveryCancelled"
  by (simp_all add: recovery_state_defs)

record recovery_doc =
  rd_ID :: string
  rd_OldHolder :: did
  rd_NewHolder :: did
  rd_Commitment :: string
  rd_Factors :: "string list"
  rd_Status :: string
  rd_CreatedAt :: time
  rd_ExecutesAt :: time
  rd_ClosedAt :: time
  rd_ClosedBy :: string

record recovery_history =
  rh_Active :: string
  rh_Completed :: "time list"
  rh_Cancelled :: "time list"

record review_doc =
  rw_ID :: string
  rw_Kind :: string
  rw_HolderDID :: did
  rw_Message :: string
  rw_Signed :: bool
  rw_Commitment :: string
  rw_BanReason :: string
  rw_Status :: string
  rw_CreatedAt :: time
  rw_DecidedAt :: time
  rw_Note :: string

record review_approval =
  ra_ReviewID :: string
  ra_Kind :: string
  ra_At :: time

datatype lockout_doc =
    FaceMatchDoc face_match_doc
  | IdentityDoc identity_doc
  | LinksDoc "string list"
  | OthersDoc "did list"
  | RecoveryDoc recovery_doc
  | PointerDoc string
  | HistoryDoc recovery_history
  | ReviewDoc review_doc
  | ReviewIndexDoc "string list"
  | ApprovalDoc review_approval

definition zero_history :: recovery_history where
  "zero_history = \<lparr>rh_Active = '''', rh_Completed = [], rh_Cancelled = []\<rparr>"

definition zero_recovery :: recovery_doc where
  "zero_recovery = \<lparr>rd_ID = '''', rd_OldHolder = '''', rd_NewHolder = '''', rd_Commitment = '''', rd_Factors = [],
     rd_Status = '''', rd_CreatedAt = 0, rd_ExecutesAt = 0, rd_ClosedAt = 0, rd_ClosedBy = ''''\<rparr>"

definition zero_review :: review_doc where
  "zero_review = \<lparr>rw_ID = '''', rw_Kind = '''', rw_HolderDID = '''', rw_Message = '''', rw_Signed = False,
     rw_Commitment = '''', rw_BanReason = '''', rw_Status = '''', rw_CreatedAt = 0, rw_DecidedAt = 0, rw_Note = ''''\<rparr>"

text \<open>
  \<open>json.Unmarshal\<close> into a type of the same namespace; the one namespace with two types, the reviews and
  the index of the open ones, gives the zero value across them.
\<close>

fun as_face_match :: "lockout_doc \<Rightarrow> face_match_doc" where
  "as_face_match (FaceMatchDoc d) = d"
| "as_face_match _ = \<lparr>fm_Commitment = '''', fm_At = 0, fm_Declined = False\<rparr>"

fun as_holder :: "lockout_doc \<Rightarrow> did" where
  "as_holder (IdentityDoc d) = id_HolderDID d"
| "as_holder _ = ''''"

fun as_strings :: "lockout_doc \<Rightarrow> string list" where
  "as_strings (LinksDoc xs) = xs"
| "as_strings (OthersDoc xs) = xs"
| "as_strings (ReviewIndexDoc xs) = xs"
| "as_strings _ = []"

fun as_recovery :: "lockout_doc \<Rightarrow> recovery_doc" where
  "as_recovery (RecoveryDoc d) = d"
| "as_recovery _ = zero_recovery"

fun as_pointer :: "lockout_doc \<Rightarrow> string" where
  "as_pointer (PointerDoc i) = i"
| "as_pointer _ = ''''"

fun as_history :: "lockout_doc \<Rightarrow> recovery_history" where
  "as_history (HistoryDoc h) = h"
| "as_history _ = zero_history"

fun as_review :: "lockout_doc \<Rightarrow> review_doc" where
  "as_review (ReviewDoc d) = d"
| "as_review _ = zero_review"

fun as_approval :: "lockout_doc \<Rightarrow> review_approval" where
  "as_approval (ApprovalDoc a) = a"
| "as_approval _ = \<lparr>ra_ReviewID = '''', ra_Kind = '''', ra_At = 0\<rparr>"

text \<open>Namespaces.\<close>

definition nsFaceMatches :: string where "nsFaceMatches = ''personhood-face-matches''"
definition nsIdentityIndex :: string where "nsIdentityIndex = ''personhood-identity-index''"
definition nsIdentityLinks :: string where "nsIdentityLinks = ''personhood-identity-links''"
definition nsFaceMatchOthers :: string where "nsFaceMatchOthers = ''personhood-face-match-others''"
definition nsRecoveries :: string where "nsRecoveries = ''personhood-recoveries''"
definition nsRecoveryByKey :: string where "nsRecoveryByKey = ''personhood-recovery-pointers''"
definition nsRecoveryHistory :: string where "nsRecoveryHistory = ''personhood-recovery-history''"
definition nsReviews :: string where "nsReviews = ''personhood-reviews''"
definition nsReviewOpen :: string where "nsReviewOpen = ''personhood-review-open''"
definition nsReviewApprovals :: string where "nsReviewApprovals = ''personhood-review-approvals''"

lemmas lockout_ns_defs =
  nsFaceMatches_def nsIdentityIndex_def nsIdentityLinks_def nsFaceMatchOthers_def nsRecoveries_def
  nsRecoveryByKey_def nsRecoveryHistory_def nsReviews_def nsReviewOpen_def nsReviewApprovals_def

lemma plain_ns_lockout [simp]:
  "plain_ns nsFaceMatches" "plain_ns nsIdentityIndex" "plain_ns nsIdentityLinks"
  "plain_ns nsFaceMatchOthers" "plain_ns nsRecoveries" "plain_ns nsRecoveryByKey"
  "plain_ns nsRecoveryHistory" "plain_ns nsReviews" "plain_ns nsReviewOpen" "plain_ns nsReviewApprovals"
  by (auto simp: plain_ns_def lockout_ns_defs go_string)

lemma lockout_ns_distinct [simp]:
  "nsFaceMatches \<noteq> nsIdentityIndex" "nsFaceMatches \<noteq> nsIdentityLinks"
  "nsFaceMatches \<noteq> nsFaceMatchOthers" "nsFaceMatches \<noteq> nsRecoveries"
  "nsFaceMatches \<noteq> nsRecoveryByKey" "nsFaceMatches \<noteq> nsRecoveryHistory"
  "nsFaceMatches \<noteq> nsReviews" "nsFaceMatches \<noteq> nsReviewOpen"
  "nsFaceMatches \<noteq> nsReviewApprovals" "nsIdentityIndex \<noteq> nsFaceMatches"
  "nsIdentityIndex \<noteq> nsIdentityLinks" "nsIdentityIndex \<noteq> nsFaceMatchOthers"
  "nsIdentityIndex \<noteq> nsRecoveries" "nsIdentityIndex \<noteq> nsRecoveryByKey"
  "nsIdentityIndex \<noteq> nsRecoveryHistory" "nsIdentityIndex \<noteq> nsReviews"
  "nsIdentityIndex \<noteq> nsReviewOpen" "nsIdentityIndex \<noteq> nsReviewApprovals"
  "nsIdentityLinks \<noteq> nsFaceMatches" "nsIdentityLinks \<noteq> nsIdentityIndex"
  "nsIdentityLinks \<noteq> nsFaceMatchOthers" "nsIdentityLinks \<noteq> nsRecoveries"
  "nsIdentityLinks \<noteq> nsRecoveryByKey" "nsIdentityLinks \<noteq> nsRecoveryHistory"
  "nsIdentityLinks \<noteq> nsReviews" "nsIdentityLinks \<noteq> nsReviewOpen"
  "nsIdentityLinks \<noteq> nsReviewApprovals" "nsFaceMatchOthers \<noteq> nsFaceMatches"
  "nsFaceMatchOthers \<noteq> nsIdentityIndex" "nsFaceMatchOthers \<noteq> nsIdentityLinks"
  "nsFaceMatchOthers \<noteq> nsRecoveries" "nsFaceMatchOthers \<noteq> nsRecoveryByKey"
  "nsFaceMatchOthers \<noteq> nsRecoveryHistory" "nsFaceMatchOthers \<noteq> nsReviews"
  "nsFaceMatchOthers \<noteq> nsReviewOpen" "nsFaceMatchOthers \<noteq> nsReviewApprovals"
  "nsRecoveries \<noteq> nsFaceMatches" "nsRecoveries \<noteq> nsIdentityIndex"
  "nsRecoveries \<noteq> nsIdentityLinks" "nsRecoveries \<noteq> nsFaceMatchOthers"
  "nsRecoveries \<noteq> nsRecoveryByKey" "nsRecoveries \<noteq> nsRecoveryHistory"
  "nsRecoveries \<noteq> nsReviews" "nsRecoveries \<noteq> nsReviewOpen"
  "nsRecoveries \<noteq> nsReviewApprovals" "nsRecoveryByKey \<noteq> nsFaceMatches"
  "nsRecoveryByKey \<noteq> nsIdentityIndex" "nsRecoveryByKey \<noteq> nsIdentityLinks"
  "nsRecoveryByKey \<noteq> nsFaceMatchOthers" "nsRecoveryByKey \<noteq> nsRecoveries"
  "nsRecoveryByKey \<noteq> nsRecoveryHistory" "nsRecoveryByKey \<noteq> nsReviews"
  "nsRecoveryByKey \<noteq> nsReviewOpen" "nsRecoveryByKey \<noteq> nsReviewApprovals"
  "nsRecoveryHistory \<noteq> nsFaceMatches" "nsRecoveryHistory \<noteq> nsIdentityIndex"
  "nsRecoveryHistory \<noteq> nsIdentityLinks" "nsRecoveryHistory \<noteq> nsFaceMatchOthers"
  "nsRecoveryHistory \<noteq> nsRecoveries" "nsRecoveryHistory \<noteq> nsRecoveryByKey"
  "nsRecoveryHistory \<noteq> nsReviews" "nsRecoveryHistory \<noteq> nsReviewOpen"
  "nsRecoveryHistory \<noteq> nsReviewApprovals" "nsReviews \<noteq> nsFaceMatches"
  "nsReviews \<noteq> nsIdentityIndex" "nsReviews \<noteq> nsIdentityLinks"
  "nsReviews \<noteq> nsFaceMatchOthers" "nsReviews \<noteq> nsRecoveries"
  "nsReviews \<noteq> nsRecoveryByKey" "nsReviews \<noteq> nsRecoveryHistory"
  "nsReviews \<noteq> nsReviewOpen" "nsReviews \<noteq> nsReviewApprovals"
  "nsReviewOpen \<noteq> nsFaceMatches" "nsReviewOpen \<noteq> nsIdentityIndex"
  "nsReviewOpen \<noteq> nsIdentityLinks" "nsReviewOpen \<noteq> nsFaceMatchOthers"
  "nsReviewOpen \<noteq> nsRecoveries" "nsReviewOpen \<noteq> nsRecoveryByKey"
  "nsReviewOpen \<noteq> nsRecoveryHistory" "nsReviewOpen \<noteq> nsReviews"
  "nsReviewOpen \<noteq> nsReviewApprovals" "nsReviewApprovals \<noteq> nsFaceMatches"
  "nsReviewApprovals \<noteq> nsIdentityIndex" "nsReviewApprovals \<noteq> nsIdentityLinks"
  "nsReviewApprovals \<noteq> nsFaceMatchOthers" "nsReviewApprovals \<noteq> nsRecoveries"
  "nsReviewApprovals \<noteq> nsRecoveryByKey" "nsReviewApprovals \<noteq> nsRecoveryHistory"
  "nsReviewApprovals \<noteq> nsReviews" "nsReviewApprovals \<noteq> nsReviewOpen"
  by (simp_all add: lockout_ns_defs)

section \<open>State\<close>

record server_state =
  ss_sessions :: session_store
  ss_revocations :: revocation_store
  ss_holders :: holder_ledger
  ss_identifiers :: identifier_store
  ss_kv :: "lockout_doc mem_kv"
  ss_inPerson :: inperson_state
  ss_identifierSends :: "send_limiter option"
  ss_faults :: "bool list"

section \<open>Answers\<close>

record next_step =
  nx_Action :: string
  nx_Endpoint :: string
  nx_Methods :: "string list"
  nx_Description :: string

definition next_to :: "string \<Rightarrow> string \<Rightarrow> string \<Rightarrow> next_step" where
  "next_to action endpoint description =
     \<lparr>nx_Action = action, nx_Endpoint = endpoint, nx_Methods = [], nx_Description = description\<rparr>"

text \<open>
  What \<open>writeError\<close> and \<open>writeErrorNext\<close> send, less the English message: the status, the code, the ways
  forward and the extra fields.
\<close>

record refusal =
  rf_status :: nat
  rf_code :: string
  rf_next :: "next_step list"
  rf_extra :: json_object

definition writeErrorNext :: "nat \<Rightarrow> string \<Rightarrow> next_step list \<Rightarrow> json_object \<Rightarrow> refusal" where
  "writeErrorNext status code next extra =
     \<lparr>rf_status = status, rf_code = code, rf_next = next, rf_extra = extra\<rparr>"

definition writeError :: "nat \<Rightarrow> string \<Rightarrow> refusal" where
  "writeError status code = writeErrorNext status code [] []"

text \<open>Inside a handler: a store's error, not yet answered, or the answer.\<close>

datatype failure = StoreErr | Refused (the_refusal: refusal)

type_synonym 'a call = "(server_state, failure, 'a) comp"

definition refuse :: "nat \<Rightarrow> string \<Rightarrow> 'a call" where
  "refuse status code = throw (Refused (writeError status code))"

definition check :: "bool \<Rightarrow> nat \<Rightarrow> string \<Rightarrow> unit call" where
  "check bad status code = refuseIf bad (Refused (writeError status code))"

text \<open>\<open>if err != nil { writeError(w, 500, code, ...); return }\<close>\<close>

fun answer_500 :: "string \<Rightarrow> failure \<Rightarrow> failure" where
  "answer_500 code StoreErr = Refused (writeError 500 code)"
| "answer_500 code (Refused r) = Refused r"

definition or500 :: "string \<Rightarrow> 'a call \<Rightarrow> 'a call" where
  "or500 code m = onError (answer_500 code) m"

section \<open>Calls to the stores\<close>

definition attempt :: "(server_state \<Rightarrow> 'a \<times> server_state) \<Rightarrow> 'a call" where
  "attempt m s = (case ss_faults s of
       [] \<Rightarrow> (case m s of (a, s') \<Rightarrow> (Inr a, s'))
     | fails # later \<Rightarrow>
         if fails then (Inl StoreErr, s\<lparr>ss_faults := later\<rparr>)
         else (case m (s\<lparr>ss_faults := later\<rparr>) of (a, s') \<Rightarrow> (Inr a, s')))"

definition getJSON :: "string \<Rightarrow> string \<Rightarrow> lockout_doc option call" where
  "getJSON ns i = attempt (\<lambda>s. (memKV_get (ss_kv s) ns i, s))"

definition setJSON :: "string \<Rightarrow> string \<Rightarrow> lockout_doc \<Rightarrow> unit call" where
  "setJSON ns i d = attempt (\<lambda>s. ((), s\<lparr>ss_kv := memKV_set (ss_kv s) ns i d\<rparr>))"

definition holders_Ban :: "string \<Rightarrow> string \<Rightarrow> ban_record \<Rightarrow> bool call" where
  "holders_Ban kind v rec = attempt (\<lambda>s.
     case ledger_Ban (ss_holders s) kind v rec of (already, l) \<Rightarrow> (already, s\<lparr>ss_holders := l\<rparr>))"

definition holders_Banned :: "string \<Rightarrow> string \<Rightarrow> bool call" where
  "holders_Banned kind v = attempt (\<lambda>s. (ledger_Banned (ss_holders s) kind v, s))"

definition holders_BanInfo :: "string \<Rightarrow> string \<Rightarrow> (ban_record \<times> bool) call" where
  "holders_BanInfo kind v = attempt (\<lambda>s. (ledger_BanInfo (ss_holders s) kind v, s))"

definition holders_Unban :: "string \<Rightarrow> string \<Rightarrow> unit call" where
  "holders_Unban kind v = attempt (\<lambda>s. ((), s\<lparr>ss_holders := ledger_Unban (ss_holders s) kind v\<rparr>))"

definition holders_Issuances :: "did \<Rightarrow> issuance_record list call" where
  "holders_Issuances h = attempt (\<lambda>s. (ledger_Issuances (ss_holders s) h, s))"

definition holders_RecordIssuance :: "did \<Rightarrow> issuance_record \<Rightarrow> unit call" where
  "holders_RecordIssuance h rec = attempt (\<lambda>s. ((), s\<lparr>ss_holders := ledger_RecordIssuance (ss_holders s) h rec\<rparr>))"

definition revocations_Allocate :: "(nat \<Rightarrow> bytes option) \<Rightarrow> (revocation_error + int) call" where
  "revocations_Allocate rnd = attempt (\<lambda>s.
     case revocation_Allocate rnd (ss_revocations s) of (r, v) \<Rightarrow> (r, s\<lparr>ss_revocations := v\<rparr>))"

definition revocations_Bind :: "int \<Rightarrow> string \<Rightarrow> unit call" where
  "revocations_Bind idx cid = attempt (\<lambda>s. ((), s\<lparr>ss_revocations := revocation_Bind idx cid (ss_revocations s)\<rparr>))"

definition revocations_Revoke :: "string \<Rightarrow> (revocation_error + int \<times> bool) call" where
  "revocations_Revoke cid = attempt (\<lambda>s.
     case revocation_Revoke cid (ss_revocations s) of (r, v) \<Rightarrow> (r, s\<lparr>ss_revocations := v\<rparr>))"

definition revocations_Revoked :: "int list call" where
  "revocations_Revoked = attempt (\<lambda>s. (revocation_Revoked (ss_revocations s), s))"

definition identifiers_Lookup :: "string \<Rightarrow> string option call" where
  "identifiers_Lookup key = attempt (\<lambda>s. (ids_seeds (ss_identifiers s) key, s))"

text \<open>\<open>resolveIdentifierSeed\<close> on the server's store is one call: it fails as a whole.\<close>

definition identifiers_resolve :: "(string \<times> string) list \<Rightarrow> bytes option \<Rightarrow> (unit resolve_error + string) call" where
  "identifiers_resolve keys rnd = attempt (\<lambda>s.
     case resolve_in_memory (ss_identifiers s) keys rnd of (r, ids) \<Rightarrow> (r, s\<lparr>ss_identifiers := ids\<rparr>))"

definition inPerson_Penalize :: "inperson_config \<Rightarrow> string \<Rightarrow> time \<Rightarrow> penalty_report call" where
  "inPerson_Penalize ip d now = attempt (\<lambda>s.
     case InPerson_Penalize ip (ss_inPerson s) d now of (p, w) \<Rightarrow> (p, s\<lparr>ss_inPerson := w\<rparr>))"

definition inPerson_Reinstate :: "inperson_config \<Rightarrow> string \<Rightarrow> penalty_report call" where
  "inPerson_Reinstate ip d = attempt (\<lambda>s.
     case InPerson_Reinstate ip (ss_inPerson s) d of (p, w) \<Rightarrow> (p, s\<lparr>ss_inPerson := w\<rparr>))"

definition inPerson_AnchorVouchers :: "inperson_config \<Rightarrow> string \<Rightarrow> time \<Rightarrow> string list call" where
  "inPerson_AnchorVouchers ip d now = attempt (\<lambda>s. (AnchorVouchers ip (ss_inPerson s) d now, s))"

definition inPerson_VoucherDIDsFor :: "string \<Rightarrow> string list call" where
  "inPerson_VoucherDIDsFor d = attempt (\<lambda>s. (VoucherDIDsFor (ss_inPerson s) d, s))"

text \<open>The session store's calls answer their own errors.\<close>

definition sessions_Get :: "string \<Rightarrow> time \<Rightarrow> (session_error + session_view) call" where
  "sessions_Get sid now s =
     (case session_Get (ss_sessions s) sid now of (r, st) \<Rightarrow> (Inr r, s\<lparr>ss_sessions := st\<rparr>))"

definition sessions_RecordMethodResult ::
  "string \<Rightarrow> method_result \<Rightarrow> method_metadata \<Rightarrow> time \<Rightarrow> session_error option call" where
  "sessions_RecordMethodResult sid res md now s =
     (case session_RecordMethodResult (ss_sessions s) sid res md now of (r, st) \<Rightarrow> (Inr r, s\<lparr>ss_sessions := st\<rparr>))"

definition sessions_MarkIssued :: "string \<Rightarrow> string \<Rightarrow> time \<Rightarrow> session_error option call" where
  "sessions_MarkIssued sid cid now s =
     (case session_MarkIssued (ss_sessions s) sid cid now of (r, st) \<Rightarrow> (Inr r, s\<lparr>ss_sessions := st\<rparr>))"

definition sessions_SetIdentifierKey :: "string \<Rightarrow> string \<Rightarrow> string \<Rightarrow> time \<Rightarrow> session_error option call" where
  "sessions_SetIdentifierKey sid kind key now s =
     (case session_SetIdentifierKey (ss_sessions s) sid kind key now of (r, st) \<Rightarrow> (Inr r, s\<lparr>ss_sessions := st\<rparr>))"

text \<open>\<open>sess, err := s.sessions.Get(...)\<close> with 404 on any error.\<close>

definition session_or_404 :: "string \<Rightarrow> time \<Rightarrow> session_view call" where
  "session_or_404 sid now = andThen (sessions_Get sid now)
     (\<lambda>r. case r of Inl e \<Rightarrow> refuse 404 ''session_not_found'' | Inr view \<Rightarrow> ret view)"

text \<open>\<open>decodeJSON\<close>: \<open>None\<close> is a body that does not decode.\<close>

definition decode_body :: "'r option \<Rightarrow> 'r call" where
  "decode_body req = (case req of None \<Rightarrow> refuse 400 ''invalid_request'' | Some r \<Rightarrow> ret r)"

text \<open>\<open>decodeB64Tolerant\<close>: the first of the four encodings that decodes the trimmed text.\<close>

definition decodeB64Tolerant :: "string \<Rightarrow> bytes option" where
  "decodeB64Tolerant s0 =
     (let s = trim_space s0 in
      case RawURL_decode s of Some b \<Rightarrow> Some b
      | None \<Rightarrow> (case URL_decode s of Some b \<Rightarrow> Some b
        | None \<Rightarrow> (case RawStd_decode s of Some b \<Rightarrow> Some b
          | None \<Rightarrow> Std_decode s)))"

definition reviewsEnabled :: "server_config \<Rightarrow> bool" where
  "reviewsEnabled cfg \<longleftrightarrow> cf_lockout cfg \<noteq> None \<and> cf_AdminToken cfg \<noteq> ''''"

text \<open>\<open>subtle.ConstantTimeCompare\<close> is equality of the bytes.\<close>

definition adminAuthorized :: "server_config \<Rightarrow> string \<Rightarrow> bool" where
  "adminAuthorized cfg got \<longleftrightarrow> cf_AdminToken cfg \<noteq> '''' \<and> has_prefix got ''Bearer '' \<and>
     trim_prefix got ''Bearer '' = cf_AdminToken cfg"

definition appealStep :: "server_config \<Rightarrow> next_step list" where
  "appealStep cfg =
     (if \<not> reviewsEnabled cfg
      then [next_to ''contact_operator'' '''' (''Contact the issuer'' @ [byte 39] @ ''s operator to appeal.'')]
      else [next_to ''appeal'' ''/v1/appeals''
        ''Appeal: a person at the issuer reviews it and can reinstate you.''])"

definition appealStepIfLockout :: "server_config \<Rightarrow> next_step list" where
  "appealStepIfLockout cfg = (if cf_lockout cfg = None then [] else appealStep cfg)"

section \<open>Reasoning about the calls\<close>

text \<open>Whatever fails: a call either leaves the state, less the used-up faults, or has its effect.\<close>

lemma wp_attempt:
  assumes "\<And>fs. E StoreErr (s\<lparr>ss_faults := fs\<rparr>)"
    and "\<And>fs. Q (fst (m (s\<lparr>ss_faults := fs\<rparr>))) (snd (m (s\<lparr>ss_faults := fs\<rparr>)))"
  shows "wp (attempt m) Q E s"
proof -
  have "Q (fst (m s)) (snd (m s))" using assms(2) [of "ss_faults s"] by simp
  then show ?thesis
    using assms by (simp add: wp_def attempt_def case_prod_beta split: list.split)
qed

lemma keeps_attempt:
  assumes "\<And>s fs. I s \<Longrightarrow> I (s\<lparr>ss_faults := fs\<rparr>)" "\<And>s. I s \<Longrightarrow> I (snd (m s))"
  shows "keeps I (attempt m)"
  using assms by (simp add: keeps_def attempt_def case_prod_beta split: list.split)

lemma keeps_refuse [keeps]: "keeps I (refuse status code)"
  by (simp add: refuse_def keeps)

lemma keeps_check [keeps]: "keeps I (check bad status code)"
  by (simp add: check_def keeps)

lemma keeps_or500 [keeps]: "keeps I m \<Longrightarrow> keeps I (or500 code m)"
  by (simp add: or500_def keeps)

lemma keeps_decode_body [keeps]: "keeps I (decode_body req)"
  by (simp add: decode_body_def keeps split: option.split)

lemma wp_refuse [wp]: "wp (refuse status code) Q E = E (Refused (writeError status code))"
  by (simp add: refuse_def wp)

lemma wp_check [wp]: "wp (check bad status code) Q E s = (if bad then E (Refused (writeError status code)) s else Q () s)"
  by (simp add: check_def wp)

lemma wp_or500 [wp]: "wp (or500 code m) Q E = wp m Q (\<lambda>e. E (answer_500 code e))"
  by (simp add: or500_def wp)

text \<open>Without faults a call is its effect.\<close>

lemma wp_attempt_ok: "ss_faults s = [] \<Longrightarrow> wp (attempt m) Q E s = Q (fst (m s)) (snd (m s))"
  by (simp add: wp_def attempt_def case_prod_beta)

lemmas store_calls = getJSON_def setJSON_def holders_Ban_def holders_Banned_def holders_BanInfo_def
  holders_Unban_def holders_Issuances_def holders_RecordIssuance_def revocations_Allocate_def
  revocations_Bind_def revocations_Revoke_def revocations_Revoked_def identifiers_Lookup_def
  identifiers_resolve_def inPerson_Penalize_def inPerson_Reinstate_def inPerson_AnchorVouchers_def
  inPerson_VoucherDIDsFor_def

lemmas session_calls = sessions_Get_def sessions_RecordMethodResult_def sessions_MarkIssued_def
  sessions_SetIdentifierKey_def

text \<open>Running a computation on a concrete state.\<close>

lemmas run_comp = andThen_def onError_def or500_def ret_def throw_def check_def refuseIf_def attempt_def getJSON_def setJSON_def

lemma keeps_attempt_ok:
  assumes "\<And>s. I s \<Longrightarrow> ss_faults s = []" "\<And>s. I s \<Longrightarrow> I (snd (m s))"
  shows "keeps I (attempt m)"
  using assms by (simp add: keeps_def attempt_def case_prod_beta split: list.split)

lemma memKV_get_set [simp]:
  "plain_ns ns \<Longrightarrow> plain_ns ns' \<Longrightarrow>
     memKV_get (memKV_set m ns i d) ns' j = (if ns' = ns \<and> j = i then Some d else memKV_get m ns' j)"
  by (auto simp: memKV_get_def memKV_set_def kv_key_inj)

lemma memKV_get_new [simp]: "memKV_get newMemKV ns i = None"
  by (simp add: memKV_get_def newMemKV_def)

section \<open>A small issuer\<close>

text \<open>An issuer with every feature on and empty stores, for the examples of the other theories.\<close>

definition sample_lockout :: lockout_config where
  "sample_lockout = \<lparr>lc_RecoveryDelay = 100, lc_RecoveryCooldown = 1000, lc_MaxCancelledRecoveries = 3,
     lc_RecoveryVouches = 1, lc_RecoveryDocumentMethods = [''document-chip''], lc_FaceMatchExtraVouches = 2,
     lc_FaceMatchMaxOthers = 2\<rparr>"

definition sample_server :: server_config where
  "sample_server = \<lparr>cf_crypto = sample_crypto, cf_json = sample_json, cf_issuerDID = ''did:web:x'',
     cf_issuerPublicKey = sample_key 2, cf_issuer = Some sample_issuer, cf_credentialLifetime = 365 * ns_day,
     cf_statusListURL = ''https://x/status'', cf_AdminToken = ''secret'', cf_EnrollmentInviteCode = '''',
     cf_RequireHolderPoP = False, cf_ExposeChallengeSecrets = False, cf_emailDelivery = ''smtp'',
     cf_smsDelivery = ''log'', cf_holderRevocation = True, cf_identifierKeys = None, cf_inPerson = None,
     cf_lockout = Some sample_lockout, cf_registry = registry_New, cf_methodPrerequisites = [], cf_range = rev\<rparr>"

lemma sample_server_ranges [simp]: "ranges_all sample_server"
  by (simp add: ranges_all_def sample_server_def)

definition sample_state :: server_state where
  "sample_state = \<lparr>ss_sessions = NewInMemorySessionStore 10000, ss_revocations = NewInMemoryRevocationStore,
     ss_holders = NewInMemoryHolderLedger, ss_identifiers = NewInMemoryIdentifierStore, ss_kv = newMemKV,
     ss_inPerson = sample_start, ss_identifierSends = None, ss_faults = []\<rparr>"

end
