(* ===== verification/Lockout.thy ===== *)
theory Lockout
  imports Server_State
begin

text \<open>
  \<open>src/server/nolockout.go\<close>: the store of the no-false-lockout records, the routing of a selfie that
  matched an enrolled face, and the checks around issuance. \<open>activeRecoveryFor\<close> of \<open>recovery.go\<close>, which the
  checks use, is here too.
\<close>

section \<open>Store\<close>

definition cfgLockout :: "server_config \<Rightarrow> lockout_config" where
  "cfgLockout cfg = (case cf_lockout cfg of
       Some c \<Rightarrow> c
     | None \<Rightarrow> \<lparr>lc_RecoveryDelay = 0, lc_RecoveryCooldown = 0, lc_MaxCancelledRecoveries = 0,
         lc_RecoveryVouches = 0, lc_RecoveryDocumentMethods = [], lc_FaceMatchExtraVouches = 0,
         lc_FaceMatchMaxOthers = 0\<rparr>)"

definition hashed :: "server_config \<Rightarrow> string \<Rightarrow> string" where
  "hashed cfg v = sha256_hex (cf_crypto cfg) v"

definition faceMatch :: "server_config \<Rightarrow> string \<Rightarrow> face_match_doc option call" where
  "faceMatch cfg sid = andThen (getJSON nsFaceMatches (hashed cfg sid)) (\<lambda>d. ret (map_option as_face_match d))"

definition putFaceMatch :: "server_config \<Rightarrow> string \<Rightarrow> face_match_doc \<Rightarrow> unit call" where
  "putFaceMatch cfg sid d = setJSON nsFaceMatches (hashed cfg sid) (FaceMatchDoc d)"

definition identityKeyNullifier :: "string \<Rightarrow> string" where
  "identityKeyNullifier commitment = ''nullifier:'' @ commitment"

definition identityKeyAttestation :: "string \<Rightarrow> string \<Rightarrow> string" where
  "identityKeyAttestation methodID digest = ''attestation:'' @ methodID @ '':'' @ digest"

definition holderOf :: "server_config \<Rightarrow> string \<Rightarrow> did option call" where
  "holderOf cfg key = andThen (getJSON nsIdentityIndex (hashed cfg key)) (\<lambda>d. ret (map_option as_holder d))"

definition setHolderOf :: "server_config \<Rightarrow> string \<Rightarrow> did \<Rightarrow> time \<Rightarrow> unit call" where
  "setHolderOf cfg key holder now =
     setJSON nsIdentityIndex (hashed cfg key) (IdentityDoc \<lparr>id_HolderDID = holder, id_At = now\<rparr>)"

definition strings_of :: "lockout_doc option \<Rightarrow> string list" where
  "strings_of d = (case d of None \<Rightarrow> [] | Some x \<Rightarrow> as_strings x)"

text \<open>The set of the document's keys.\<close>

definition identityLinks :: "server_config \<Rightarrow> string \<Rightarrow> string list call" where
  "identityLinks cfg bioNB = andThen (getJSON nsIdentityLinks (hashed cfg bioNB)) (\<lambda>d. ret (strings_of d))"

fun append_new :: "string list \<Rightarrow> string list \<Rightarrow> string list" where
  "append_new have [] = have"
| "append_new have (k # ks) = append_new (if k \<in> set have then have else have @ [k]) ks"

definition addIdentityLinks :: "server_config \<Rightarrow> string \<Rightarrow> string list \<Rightarrow> unit call" where
  "addIdentityLinks cfg bioNB keys =
     (if length keys = 0 then ret ()
      else andThen (getJSON nsIdentityLinks (hashed cfg bioNB)) (\<lambda>d.
        setJSON nsIdentityLinks (hashed cfg bioNB) (LinksDoc (append_new (strings_of d) keys))))"

definition faceMatchOthers :: "server_config \<Rightarrow> string \<Rightarrow> did list call" where
  "faceMatchOthers cfg commitment =
     andThen (getJSON nsFaceMatchOthers (hashed cfg commitment)) (\<lambda>d. ret (strings_of d))"

definition addFaceMatchOther :: "server_config \<Rightarrow> string \<Rightarrow> did \<Rightarrow> unit call" where
  "addFaceMatchOther cfg commitment holder =
     andThen (getJSON nsFaceMatchOthers (hashed cfg commitment)) (\<lambda>d.
       if holder \<in> set (strings_of d) then ret ()
       else setJSON nsFaceMatchOthers (hashed cfg commitment) (OthersDoc (strings_of d @ [holder])))"

section \<open>Recoveries in progress\<close>

definition recovery :: "string \<Rightarrow> recovery_doc option call" where
  "recovery i = andThen (getJSON nsRecoveries i) (\<lambda>d. ret (map_option as_recovery d))"

text \<open>The id of the pending recovery the holder is a party of, or the empty string.\<close>

definition activeRecoveryFor :: "server_config \<Rightarrow> did \<Rightarrow> string call" where
  "activeRecoveryFor cfg holder =
     (if cf_lockout cfg = None then ret ''''
      else andThen (getJSON nsRecoveryByKey (hashed cfg holder)) (\<lambda>p.
        case p of
          None \<Rightarrow> ret ''''
        | Some x \<Rightarrow>
            if as_pointer x = '''' then ret ''''
            else andThen (recovery (as_pointer x)) (\<lambda>d. ret (case d of
                None \<Rightarrow> ''''
              | Some r \<Rightarrow> if rd_Status r \<noteq> RecoveryPending then '''' else rd_ID r))))"

section \<open>Selfies\<close>

definition SelfieMethodID :: string where "SelfieMethodID = ''fuzzy-extractor-selfie''"
definition NativeMethodID :: string where "NativeMethodID = ''fuzzy-extractor-selfie-native''"
definition OperatorReviewMethodID :: string where "OperatorReviewMethodID = ''operator-review''"

definition selfieCommitment :: "verified_method list \<Rightarrow> string" where
  "selfieCommitment vms =
     (let c = biometricCommitmentFromVerifiedMethods vms SelfieMethodID in
      if c \<noteq> '''' then c else biometricCommitmentFromVerifiedMethods vms NativeMethodID)"

definition isSelfieMethod :: "string \<Rightarrow> bool" where
  "isSelfieMethod mid \<longleftrightarrow> mid = SelfieMethodID \<or> mid = NativeMethodID"

text \<open>A face commitment is the hex text of a hash, never empty, so the nil binding does not arise.\<close>

definition face_nullifier :: "server_config \<Rightarrow> string \<Rightarrow> string" where
  "face_nullifier cfg commitment =
     (case NullifierBindingForBiometricCommitment (cf_crypto cfg) commitment of
        None \<Rightarrow> '''' | Some nb \<Rightarrow> nb_Commitment nb)"

section \<open>Routing a face match\<close>

definition recordFaceMatch :: "server_config \<Rightarrow> string \<Rightarrow> string \<Rightarrow> time \<Rightarrow> unit call" where
  "recordFaceMatch cfg sid commitment now =
     putFaceMatch cfg sid \<lparr>fm_Commitment = commitment, fm_At = now, fm_Declined = False\<rparr>"

text \<open>\<open>Duration.Round(time.Minute)\<close>, half away from zero, saturating.\<close>

definition round_minute :: "duration \<Rightarrow> duration" where
  "round_minute d =
     (if d < 0 then
        (let r = (- d) mod ns_minute in
         if r + r < ns_minute then d + r
         else if d - ns_minute + r \<ge> min_int64 then d - ns_minute + r else min_int64)
      else
        (let r = d mod ns_minute in
         if r + r < ns_minute then d - r
         else if d + ns_minute - r \<le> max_int64 then d + ns_minute - r else max_int64))"

definition quot :: "int \<Rightarrow> int \<Rightarrow> int" where
  "quot a b = (if a < 0 then - ((- a) div b) else a div b)"

definition humanDuration :: "duration \<Rightarrow> string" where
  "humanDuration d =
     (if d \<ge> 48 * ns_hour \<and> d mod (24 * ns_hour) = 0 then int_string (d div (24 * ns_hour)) @ ''-day''
      else if d \<ge> ns_hour \<and> d mod ns_hour = 0 then int_string (d div ns_hour) @ ''-hour''
      else int_string (quot (round_minute d) ns_minute) @ ''-minute'')"

definition faceMatchOptions :: "server_config \<Rightarrow> next_step list" where
  "faceMatchOptions cfg =
     (let others = map (\<lambda>m. md_ID (me_Metadata m))
            (filter (\<lambda>m. md_Type (me_Metadata m) = MethodTypeAnchor \<and>
                \<not> isSelfieMethod (md_ID (me_Metadata m)) \<and> md_ID (me_Metadata m) \<noteq> OperatorReviewMethodID)
              (registry_List (cf_registry cfg))) in
      [next_to ''recover'' ''/v1/recovery/start''
         (''This might be you: recover your identity onto this phone. Needs one more proof (your original email or phone, ''
          @ int_string (lc_RecoveryVouches (cfgLockout cfg))
          @ '' of your vouchers meeting you again, or the same document), then a ''
          @ humanDuration (lc_RecoveryDelay (cfgLockout cfg))
          @ '' wait during which your old phone can cancel.''),
       (next_to ''other_anchor'' ''/v1/face-match/decline''
         ''Not you (a twin or a look-alike): continue with another anchor. Your selfie is not used, so you get your own identity, not theirs.'')
         \<lparr>nx_Methods := others\<rparr>]
      @ (if reviewsEnabled cfg
         then [next_to ''manual_review'' ''/v1/reviews'' ''Ask a person at the issuer to review your case.''] else []))"

text \<open>
  The result that replaces the refusal, or else the options (\<open>Some\<close>) to offer; \<open>(None, None)\<close> when the
  session has no recorded match.
\<close>

definition routeFaceMatch ::
  "server_config \<Rightarrow> session_view \<Rightarrow> method_metadata \<Rightarrow> time \<Rightarrow> (method_result option \<times> next_step list option) call" where
  "routeFaceMatch cfg sess md now =
     andThen (faceMatch cfg (sv_ID sess)) (\<lambda>found.
     case found of
       None \<Rightarrow> ret (None, None)
     | Some fm \<Rightarrow>
         andThen (holderOf cfg (identityKeyNullifier (face_nullifier cfg (fm_Commitment fm)))) (\<lambda>holder.
         if holder = Some (sv_HolderDID sess) \<and> has_prefix (sv_HolderDID sess) ''did:key:'' then
           (let res = passed_result (md_ID md) now (fm_Commitment fm) in
            andThen (sessions_RecordMethodResult (sv_ID sess) res md now) (\<lambda>err.
            case err of Some e \<Rightarrow> throw StoreErr | None \<Rightarrow> ret (Some res, None)))
         else ret (None, Some (faceMatchOptions cfg))))"

definition handleFaceMatchDecline ::
  "server_config \<Rightarrow> string option \<Rightarrow> time \<Rightarrow> (int \<times> next_step list) call" where
  "handleFaceMatchDecline cfg body now =
     andThen (decode_body body) (\<lambda>sid.
     andThen (session_or_404 sid now) (\<lambda>sess.
     andThen (or500 ''store_failed'' (faceMatch cfg (sv_ID sess))) (\<lambda>found.
     case found of
       None \<Rightarrow> refuse 409 ''no_face_match''
     | Some fm \<Rightarrow>
         andThen (or500 ''store_failed'' (activeRecoveryFor cfg (sv_HolderDID sess))) (\<lambda>active.
         andThen (check (active \<noteq> '''') 409 ''recovery_pending'') (\<lambda>_.
         andThen (or500 ''store_failed'' (putFaceMatch cfg (sv_ID sess) (fm\<lparr>fm_Declined := True\<rparr>))) (\<lambda>_.
         ret (lc_FaceMatchExtraVouches (cfgLockout cfg), drop 1 (faceMatchOptions cfg))))))))"

section \<open>Checks around issuance\<close>

definition faceMatchDeclined :: "server_config \<Rightarrow> string \<Rightarrow> face_match_doc option call" where
  "faceMatchDeclined cfg sid = andThen (faceMatch cfg sid) (\<lambda>found.
     ret (case found of None \<Rightarrow> None | Some fm \<Rightarrow> if fm_Declined fm then Some fm else None))"

definition checkDeclinedVouches :: "server_config \<Rightarrow> session_view \<Rightarrow> time \<Rightarrow> string call" where
  "checkDeclinedVouches cfg sess now = (case cf_inPerson cfg of
       None \<Rightarrow> ret ''''
     | Some ip \<Rightarrow>
         andThen (faceMatchDeclined cfg (sv_ID sess)) (\<lambda>declined.
         if declined = None then ret ''''
         else andThen (inPerson_AnchorVouchers ip (sv_HolderDID sess) now) (\<lambda>have.
           let need = ic_Required ip + lc_FaceMatchExtraVouches (cfgLockout cfg) in
           if int (length have) < need
           then ret (''insufficient_vouches:have='' @ int_string (int (length have)) @ ''/'' @ int_string need)
           else ret '''')))"

fun hasVerified :: "verified_method list \<Rightarrow> string \<Rightarrow> bool" where
  "hasVerified [] methodID = False"
| "hasVerified (vm # vms) methodID = (if vm_MethodID vm = methodID then True else hasVerified vms methodID)"

text \<open>\<open>None\<close> lets the issuance go on.\<close>

definition lockoutIssuanceCheck :: "server_config \<Rightarrow> session_view \<Rightarrow> refusal option call" where
  "lockoutIssuanceCheck cfg view =
     andThen (activeRecoveryFor cfg (sv_HolderDID view)) (\<lambda>active.
     if active \<noteq> '''' then ret (Some (writeError 409 ''recovery_pending''))
     else andThen (faceMatchDeclined cfg (sv_ID view)) (\<lambda>declined.
       case declined of
         None \<Rightarrow> ret None
       | Some fm \<Rightarrow>
           if hasVerified (sv_VerifiedMethods view) OperatorReviewMethodID then ret None
           else andThen (faceMatchOthers cfg (fm_Commitment fm)) (\<lambda>others.
             if sv_HolderDID view \<in> set others then ret None
             else if int (length others) \<ge> lc_FaceMatchMaxOthers (cfgLockout cfg)
             then ret (Some (writeErrorNext 403 ''face_match_limit''
               (if reviewsEnabled cfg then [next_to ''manual_review'' ''/v1/reviews''
                  ''Several people already enrolled with a face like this one. A person at the issuer can review your case.'']
                else []) []))
             else ret None)))"

definition identity_links_of :: "server_config \<Rightarrow> session_view \<Rightarrow> string list \<Rightarrow> string \<Rightarrow> string list" where
  "identity_links_of cfg view commitments bioNB =
     (let holderNB = (case NullifierBindingForHolder (cf_crypto cfg) (sv_HolderPublicKey view) of
            None \<Rightarrow> '''' | Some nb \<Rightarrow> nb_Commitment nb) in
      map identityKeyNullifier (filter (\<lambda>c. c \<noteq> bioNB \<and> c \<noteq> holderNB) commitments)
      @ map (\<lambda>vm. identityKeyAttestation (vm_MethodID vm) (vm_AttestationDigest vm))
          (filter (\<lambda>vm. vm_MethodID vm \<in> set (lc_RecoveryDocumentMethods (cfgLockout cfg)) \<and>
              vm_AttestationDigest vm \<noteq> '''') (sv_VerifiedMethods view)))"

definition lockoutRecordIssuance :: "server_config \<Rightarrow> session_view \<Rightarrow> string list \<Rightarrow> time \<Rightarrow> unit call" where
  "lockoutRecordIssuance cfg view commitments now =
     andThen (forEach (\<lambda>c. setHolderOf cfg (identityKeyNullifier c) (sv_HolderDID view) now) commitments) (\<lambda>_.
     andThen (let bio = selfieCommitment (sv_VerifiedMethods view) in
       if bio \<noteq> ''''
       then addIdentityLinks cfg (face_nullifier cfg bio)
         (identity_links_of cfg view commitments (face_nullifier cfg bio))
       else ret ()) (\<lambda>_.
     andThen (faceMatchDeclined cfg (sv_ID view)) (\<lambda>declined.
     case declined of None \<Rightarrow> ret () | Some fm \<Rightarrow> addFaceMatchOther cfg (fm_Commitment fm) (sv_HolderDID view))))"

end
