(* ===== verification/Holder_Revocation.thy ===== *)
theory Holder_Revocation
  imports Server_State
begin

text \<open>
  Revoking a holder and everything issued to it, and refusing what is banned: the second half of
  \<open>src/server/holderrevoke.go\<close> with its two handlers. The cascade may fail at any of its store calls;
  calling it again finishes the job.
\<close>

section \<open>The cascade\<close>

record holder_report =
  hr_HolderDID :: did
  hr_AlreadyBanned :: bool
  hr_KnownHolder :: bool
  hr_RevokedCredentials :: nat
  hr_NullifiersBanned :: nat
  hr_VouchersPenalized :: nat

text \<open>The holder-key nullifier of the DID's own key, when it is a \<open>did:key\<close>.\<close>

definition holder_nullifier :: "server_config \<Rightarrow> did \<Rightarrow> string list" where
  "holder_nullifier cfg holder =
     (case Ed25519FromDIDKey holder of
        None \<Rightarrow> []
      | Some pub \<Rightarrow> (case NullifierBindingForHolder (cf_crypto cfg) pub of
            None \<Rightarrow> [] | Some nb \<Rightarrow> [nb_Commitment nb]))"

text \<open>The keys of the map \<open>nullifiers\<close>.\<close>

definition touched_nullifiers :: "server_config \<Rightarrow> did \<Rightarrow> issuance_record list \<Rightarrow> string list" where
  "touched_nullifiers cfg holder recs =
     remdups (holder_nullifier cfg holder @ concat (map ir_NullifierCommitments recs))"

text \<open>\<open>Revoke\<close> in the loops over a holder's credentials: one never bound is skipped.\<close>

definition revoke_issued :: "string \<Rightarrow> bool call" where
  "revoke_issued cid = andThen (revocations_Revoke cid) (\<lambda>r.
     case r of
       Inl e \<Rightarrow> (if e = ErrCredentialNotFound then ret False else throw StoreErr)
     | Inr (idx, already) \<Rightarrow> ret (\<not> already))"

definition ban_nullifier :: "ban_record \<Rightarrow> string \<Rightarrow> bool call" where
  "ban_nullifier rec c = andThen (holders_Ban BanKindNullifier c rec) (\<lambda>was. ret (\<not> was))"

definition revokeHolder :: "server_config \<Rightarrow> did \<Rightarrow> ban_record \<Rightarrow> time \<Rightarrow> holder_report call" where
  "revokeHolder cfg holder rec now =
     andThen (holders_Ban BanKindHolder holder rec) (\<lambda>already.
     andThen (holders_Issuances holder) (\<lambda>recs.
     andThen (countEach revoke_issued (map ir_CredentialID recs)) (\<lambda>revoked.
     andThen (countEach (ban_nullifier rec) (cf_range cfg (touched_nullifiers cfg holder recs))) (\<lambda>banned.
     andThen (case cf_inPerson cfg of
         None \<Rightarrow> ret 0
       | Some ip \<Rightarrow> andThen (inPerson_Penalize ip holder now) (\<lambda>pen. ret (length (pr_Vouchers pen)))) (\<lambda>penalized.
     ret \<lparr>hr_HolderDID = holder, hr_AlreadyBanned = already, hr_KnownHolder = (recs \<noteq> []),
          hr_RevokedCredentials = revoked, hr_NullifiersBanned = banned, hr_VouchersPenalized = penalized\<rparr>)))))"

section \<open>Checks at issuance\<close>

definition add_commitment :: "string list \<Rightarrow> nullifier_binding option \<Rightarrow> string list" where
  "add_commitment out b = (case b of
       None \<Rightarrow> out
     | Some nb \<Rightarrow> if nb_Commitment nb \<in> set out then out else out @ [nb_Commitment nb])"

definition sessionNullifierCommitments ::
  "server_config \<Rightarrow> session_view \<Rightarrow> nullifier_binding option \<Rightarrow> bool \<Rightarrow> bytes option \<Rightarrow> string list call" where
  "sessionNullifierCommitments cfg view nb bioWon rnd =
     (let out = add_commitment (add_commitment [] nb)
            (NullifierBindingForHolder (cf_crypto cfg) (sv_HolderPublicKey view)) in
      if bioWon \<and> cf_identifierKeys cfg \<noteq> None \<and> length (sv_IdentifierKeys view) > 0
      then andThen (identifiers_resolve (sv_IdentifierKeys view) rnd) (\<lambda>r. case r of
            Inl e \<Rightarrow> throw StoreErr
          | Inr seed \<Rightarrow> ret (add_commitment out (NullifierBindingForIdentifierSeed (cf_crypto cfg) seed)))
      else ret out)"

text \<open>The code of the \<open>apiError\<close>, \<open>None\<close> when nothing is banned.\<close>

definition checkHolderBans :: "did \<Rightarrow> string list \<Rightarrow> string option call" where
  "checkHolderBans holder commitments =
     andThen (holders_Banned BanKindHolder holder) (\<lambda>banned.
     if banned then ret (Some ''holder_revoked'')
     else andThen (anyOf (holders_Banned BanKindNullifier) commitments) (\<lambda>hit.
       ret (if hit then Some ''nullifier_revoked'' else None)))"

section \<open>Handlers\<close>

definition equivocationDigest :: "crypto \<Rightarrow> bytes \<Rightarrow> equivocation_proof \<Rightarrow> string" where
  "equivocationDigest cr pub p =
     (let a0 = ss_PayloadDigestHex (fst (eq_Statements p)); b0 = ss_PayloadDigestHex (snd (eq_Statements p));
          (a, b) = (if b0 < a0 then (b0, a0) else (a0, b0)) in
      sha256_hex cr (join newline
        [''personhood-equivocation-evidence/v1'', hex_encode pub, eq_Context p, eq_Slot p, a, b]))"

definition handleEquivocation :: "server_config \<Rightarrow> equivocation_proof option \<Rightarrow> time \<Rightarrow> holder_report call" where
  "handleEquivocation cfg body now =
     andThen (decode_body body) (\<lambda>proof.
     case equivocation_Verify (cf_crypto cfg) proof of
       Inl e \<Rightarrow> refuse 400 ''proof_invalid''
     | Inr pub \<Rightarrow>
         (case DIDKeyFromEd25519 pub of
            None \<Rightarrow> refuse 400 ''proof_invalid''
          | Some holder \<Rightarrow>
              (let digest = equivocationDigest (cf_crypto cfg) pub proof in
               andThen (or500 ''revoke_failed'' (holders_Banned BanKindPardon digest)) (\<lambda>pardoned.
               andThen (check pardoned 409 ''evidence_pardoned'') (\<lambda>_.
               or500 ''revoke_failed'' (revokeHolder cfg holder
                 \<lparr>br_Reason = ''equivocation: '' @ eq_Context proof, br_EvidenceDigest = digest, br_At = now\<rparr> now))))))"

record revoke_holder_request =
  rq_HolderDID :: string
  rq_Reason :: string

definition handleAdminRevokeHolder ::
  "server_config \<Rightarrow> string \<Rightarrow> revoke_holder_request option \<Rightarrow> time \<Rightarrow> holder_report call" where
  "handleAdminRevokeHolder cfg auth body now =
     andThen (check (\<not> adminAuthorized cfg auth) 401 ''unauthorized'') (\<lambda>_.
     andThen (decode_body body) (\<lambda>req.
     let holder = trim_space (rq_HolderDID req); reason = trim_space (rq_Reason req) in
     andThen (check (\<not> has_prefix holder ''did:'' \<or> reason = '''' \<or> length reason > 200) 400 ''invalid_request'') (\<lambda>_.
     or500 ''revoke_failed'' (revokeHolder cfg holder
       \<lparr>br_Reason = ''operator: '' @ reason, br_EvidenceDigest = '''', br_At = now\<rparr> now))))"

section \<open>What the cascade does to the stores\<close>

lemma keeps_revoke_issued:
  assumes "\<And>s fs. I s \<Longrightarrow> I (s\<lparr>ss_faults := fs\<rparr>)" "\<And>s c. I s \<Longrightarrow> I (s\<lparr>ss_revocations := snd (revocation_Revoke c (ss_revocations s))\<rparr>)"
  shows "keeps I (revoke_issued c)"
  unfolding revoke_issued_def revocations_Revoke_def
  by (intro keeps keeps_attempt) (auto simp: assms case_prod_beta intro!: keeps)

text \<open>A predicate that no ban, revocation or penalty can break is kept by the whole cascade.\<close>

lemma keeps_revokeHolder:
  assumes "\<And>s fs. I s \<Longrightarrow> I (s\<lparr>ss_faults := fs\<rparr>)"
    and "\<And>s c. I s \<Longrightarrow> I (s\<lparr>ss_revocations := snd (revocation_Revoke c (ss_revocations s))\<rparr>)"
    and "\<And>s k v rec. I s \<Longrightarrow> k \<in> {BanKindHolder, BanKindNullifier} \<Longrightarrow>
        I (s\<lparr>ss_holders := snd (ledger_Ban (ss_holders s) k v rec)\<rparr>)"
    and "\<And>s w. I s \<Longrightarrow> I (s\<lparr>ss_inPerson := w\<rparr>)"
  shows "keeps I (revokeHolder cfg holder rec now)"
  unfolding revokeHolder_def holders_Ban_def holders_Issuances_def ban_nullifier_def inPerson_Penalize_def
  by (intro keeps keeps_attempt keeps_revoke_issued) (auto simp: assms case_prod_beta)

text \<open>What holds of the ledger and the revocation store after a cascade that returned.\<close>

definition slot_revoked :: "revocation_store \<Rightarrow> string \<Rightarrow> bool" where
  "slot_revoked r cid \<longleftrightarrow> (\<forall>idx. rv_byCred r cid = Some idx \<longrightarrow> idx \<in> set (rv_revoked r))"

definition holder_retired :: "server_config \<Rightarrow> did \<Rightarrow> holder_ledger \<Rightarrow> revocation_store \<Rightarrow> bool" where
  "holder_retired cfg holder l r \<longleftrightarrow>
     ledger_Banned l BanKindHolder holder \<and>
     (\<forall>rec \<in> set (ledger_Issuances l holder). slot_revoked r (ir_CredentialID rec)) \<and>
     (\<forall>c \<in> set (touched_nullifiers cfg holder (ledger_Issuances l holder)). ledger_Banned l BanKindNullifier c)"

lemma slot_revoked_Revoke [simp]:
  "slot_revoked (snd (revocation_Revoke c r)) c' \<longleftrightarrow> slot_revoked r c' \<or> c' = c \<or>
     (\<exists>idx. rv_byCred r c = Some idx \<and> rv_byCred r c' = Some idx)"
  by (auto simp: revocation_Revoke_def slot_revoked_def split: option.splits)

lemma ban_holder_step:
  "wp (holders_Ban BanKindHolder holder rec) (\<lambda>_ t. ledger_Banned (ss_holders t) BanKindHolder holder) (\<lambda>_ _. True) s"
  unfolding holders_Ban_def by (rule wp_attempt) (auto simp: case_prod_beta)

lemma issuances_step:
  assumes "ledger_Banned (ss_holders s) BanKindHolder holder"
  shows "wp (holders_Issuances holder) (\<lambda>recs t. ledger_Banned (ss_holders t) BanKindHolder holder \<and>
     ledger_Issuances (ss_holders t) holder = recs) (\<lambda>_ _. True) s"
  unfolding holders_Issuances_def by (rule wp_attempt) (auto simp: assms)

lemma revoke_loop:
  assumes "ledger_Banned (ss_holders s) BanKindHolder holder \<and> ledger_Issuances (ss_holders s) holder = recs"
  shows "wp (countEach revoke_issued cids)
     (\<lambda>_ t. ledger_Banned (ss_holders t) BanKindHolder holder \<and> ledger_Issuances (ss_holders t) holder = recs \<and>
        (\<forall>c \<in> set cids. slot_revoked (ss_revocations t) c)) (\<lambda>_ _. True) s"
  by (rule wp_countEach [where I = "\<lambda>seen t. ledger_Banned (ss_holders t) BanKindHolder holder \<and>
        ledger_Issuances (ss_holders t) holder = recs \<and> (\<forall>c \<in> set seen. slot_revoked (ss_revocations t) c)"])
    (use assms in \<open>auto simp: revoke_issued_def revocations_Revoke_def wp case_prod_beta
       intro!: wp_attempt split: sum.split\<close>)

lemma ban_loop:
  assumes "ledger_Banned (ss_holders s) BanKindHolder holder \<and> ledger_Issuances (ss_holders s) holder = recs \<and> P (ss_revocations s)"
  shows "wp (countEach (ban_nullifier rec) cs)
     (\<lambda>_ t. ledger_Banned (ss_holders t) BanKindHolder holder \<and> ledger_Issuances (ss_holders t) holder = recs \<and>
        P (ss_revocations t) \<and> (\<forall>c \<in> set cs. ledger_Banned (ss_holders t) BanKindNullifier c)) (\<lambda>_ _. True) s"
  by (rule wp_countEach [where I = "\<lambda>seen t. ledger_Banned (ss_holders t) BanKindHolder holder \<and>
        ledger_Issuances (ss_holders t) holder = recs \<and> P (ss_revocations t) \<and>
        (\<forall>c \<in> set seen. ledger_Banned (ss_holders t) BanKindNullifier c)"])
    (use assms in \<open>auto simp: ban_nullifier_def holders_Ban_def wp case_prod_beta intro!: wp_attempt\<close>)

lemma revokeHolder_retires:
  assumes "ranges_all cfg"
  shows "wp (revokeHolder cfg holder rec now) (\<lambda>_ t. holder_retired cfg holder (ss_holders t) (ss_revocations t))
     (\<lambda>_ _. True) s"
  unfolding revokeHolder_def
proof (rule wp_seq [OF ban_holder_step], rule wp_seq [OF issuances_step], assumption,
    rule wp_seq [OF revoke_loop], assumption,
    rule wp_seq [OF ban_loop [where P = "\<lambda>r. \<forall>c \<in> ir_CredentialID ` set recs. slot_revoked r c" for recs]])
  fix recs and t :: server_state
  assume "ledger_Banned (ss_holders t) BanKindHolder holder \<and> ledger_Issuances (ss_holders t) holder = recs \<and>
    (\<forall>c \<in> set (map ir_CredentialID recs). slot_revoked (ss_revocations t) c)"
  then show "ledger_Banned (ss_holders t) BanKindHolder holder \<and> ledger_Issuances (ss_holders t) holder = recs \<and>
    (\<forall>c \<in> ir_CredentialID ` set recs. slot_revoked (ss_revocations t) c)"
    by simp
next
  fix recs and t :: server_state
  assume "ledger_Banned (ss_holders t) BanKindHolder holder \<and> ledger_Issuances (ss_holders t) holder = recs \<and>
    (\<forall>c \<in> ir_CredentialID ` set recs. slot_revoked (ss_revocations t) c) \<and>
    (\<forall>c \<in> set (cf_range cfg (touched_nullifiers cfg holder recs)). ledger_Banned (ss_holders t) BanKindNullifier c)"
  then have "holder_retired cfg holder (ss_holders t) (ss_revocations t)"
    using assms by (auto simp: holder_retired_def ranges_all_def touched_nullifiers_def)
  then show "wp (andThen (case cf_inPerson cfg of
         None \<Rightarrow> ret 0
       | Some ip \<Rightarrow> andThen (inPerson_Penalize ip holder now) (\<lambda>pen. ret (length (pr_Vouchers pen)))) (\<lambda>penalized.
      ret (report penalized))) (\<lambda>_ t. holder_retired cfg holder (ss_holders t) (ss_revocations t)) (\<lambda>_ _. True) t" for report
    by (auto simp: wp inPerson_Penalize_def case_prod_beta intro!: wp_attempt split: option.split)
qed

section \<open>Evidence\<close>

lemma lower_char_id: "lower_char c = c \<longleftrightarrow> \<not> (65 \<le> byte_of c \<and> byte_of c \<le> 90)"
proof (cases "65 \<le> byte_of c \<and> byte_of c \<le> 90")
  case True
  then have "byte_of (lower_char c) = byte_of c + 32" by (simp add: lower_char_def)
  then show ?thesis using True by (metis add_eq_self_zero zero_neq_numeral)
qed (auto simp: lower_char_def)

lemma hex_value_lower:
  assumes "hex_value a = Some x" "lower_char a = a"
  shows "x < 16" "hex_digit x = a"
proof -
  have b: "byte_of a = (if x < 10 then x + 48 else x + 87)" "x < 16"
    using assms by (auto simp: hex_value_def Let_def lower_char_id split: if_splits)
  then show "x < 16" by simp
  have "hex_value (hex_digit x) = Some x" "lower_char (hex_digit x) = hex_digit x"
    using b(2) by (simp, use nibble_cases [OF b(2)] in \<open>auto simp: hex_digit_def lower_char_def\<close>)
  then have "byte_of (hex_digit x) = (if x < 10 then x + 48 else x + 87)"
    by (auto simp: hex_value_def Let_def lower_char_id split: if_splits)
  with b show "hex_digit x = a" by (metis of_char_eq_iff)
qed

lemma hex_decode_lower: "hex_decode s = Some d \<Longrightarrow> to_lower s = s \<Longrightarrow> hex_encode d = s"
proof (induction s arbitrary: d rule: hex_decode.induct)
  case (3 a b s)
  then obtain x y r where d: "hex_value a = Some x" "hex_value b = Some y" "hex_decode s = Some r" "d = byte (16 * x + y) # r"
    by (auto split: option.splits)
  have l: "lower_char a = a" "lower_char b = b" "to_lower s = s" using 3(3) by (auto simp: to_lower_def)
  have "hex_encode r = s" using 3(1) [OF d(3) l(3)] .
  then show ?case
    using hex_value_lower [OF d(1) l(1)] hex_value_lower [OF d(2) l(2)] d(4) by (simp add: hex_encode_def)
qed (simp_all add: hex_encode_def)

lemma statement_digest_hex: "statement_digest i st = Inr d \<Longrightarrow> ss_PayloadDigestHex st = hex_encode d"
  by (auto simp: statement_digest_def hex_decode_lower split: option.splits if_splits)

lemma Verify_statement_digests:
  assumes "equivocation_Verify cr p = Inr pub"
  obtains d0 d1 where "statement_digest 0 (fst (eq_Statements p)) = Inr d0" "statement_digest 1 (snd (eq_Statements p)) = Inr d1"
  using assms by (auto simp: equivocation_Verify_def split: if_splits option.splits sum.splits)

text \<open>What two statements sign, in either order.\<close>

definition payloads :: "equivocation_proof \<Rightarrow> bytes option set" where
  "payloads p = {hex_decode (ss_PayloadDigestHex (fst (eq_Statements p))), hex_decode (ss_PayloadDigestHex (snd (eq_Statements p)))}"

lemma equivocationDigest_same:
  assumes v: "equivocation_Verify cr p = Inr pub" "equivocation_Verify cr p' = Inr pub'"
    and s: "eq_Context p' = eq_Context p" "eq_Slot p' = eq_Slot p" "payloads p' = payloads p"
  shows "equivocationDigest cr k p' = equivocationDigest cr k p"
proof -
  obtain d0 d1 d0' d1' where d: "statement_digest 0 (fst (eq_Statements p)) = Inr d0" "statement_digest 1 (snd (eq_Statements p)) = Inr d1"
    "statement_digest 0 (fst (eq_Statements p')) = Inr d0'" "statement_digest 1 (snd (eq_Statements p')) = Inr d1'"
    using Verify_statement_digests [OF v(1)] Verify_statement_digests [OF v(2)] by metis
  note h = d [THEN statement_digest_hex]
  have "{d0', d1'} = {d0, d1}" using s(3) by (simp add: payloads_def h doubleton_eq_iff) 
  then have "d0' = d0 \<and> d1' = d1 \<or> d0' = d1 \<and> d1' = d0" by (auto simp: doubleton_eq_iff)
  then show ?thesis
  proof
    assume "d0' = d0 \<and> d1' = d1"
    then show ?thesis by (simp add: equivocationDigest_def h s)
  next
    assume "d0' = d1 \<and> d1' = d0"
    moreover have "\<not> (hex_encode d0 < hex_encode d1 \<and> hex_encode d1 < hex_encode d0)"
      "hex_encode d0 < hex_encode d1 \<or> hex_encode d1 < hex_encode d0 \<or> hex_encode d0 = hex_encode d1"
      using linorder_less_linear [of "hex_encode d0" "hex_encode d1"] by (auto dest: less_not_sym)
    ultimately show ?thesis by (auto simp: equivocationDigest_def h s Let_def)
  qed
qed

section \<open>Properties\<close>

lemma no_fault_attempt:
  assumes "ss_faults s = []" "\<And>t. ss_faults (snd (m t)) = ss_faults t"
  shows "wp (attempt m) (\<lambda>_ t. ss_faults t = []) (\<lambda>_ _. False) s"
  using assms by (simp add: wp_attempt_ok)

lemma revoke_issued_ok:
  assumes "ss_faults s = []"
  shows "wp (revoke_issued c) (\<lambda>_ t. ss_faults t = []) (\<lambda>_ _. False) s"
  using assms
  by (simp add: revoke_issued_def revocations_Revoke_def wp wp_attempt_ok revocation_Revoke_def case_prod_beta Let_def
      split: option.split)

lemma revokeHolder_ok:
  assumes "ss_faults s = []"
  shows "wp (revokeHolder cfg holder rec now) (\<lambda>_ t. ss_faults t = []) (\<lambda>_ _. False) s"
  unfolding revokeHolder_def
  by (rule wp_seq [where R = "\<lambda>_ t. ss_faults t = []"],
      use assms in \<open>simp add: holders_Ban_def wp_attempt_ok case_prod_beta\<close>,
      rule wp_seq [where R = "\<lambda>_ t. ss_faults t = []"], simp add: holders_Issuances_def wp_attempt_ok,
      rule wp_seq [where R = "\<lambda>_ t. ss_faults t = []"], rule wp_countEach [where I = "\<lambda>_ t. ss_faults t = []"],
      rule revoke_issued_ok, assumption, assumption, assumption,
      rule wp_seq [where R = "\<lambda>_ t. ss_faults t = []"], rule wp_countEach [where I = "\<lambda>_ t. ss_faults t = []"],
      simp add: ban_nullifier_def holders_Ban_def wp wp_attempt_ok case_prod_beta, assumption, assumption)
    (auto simp: wp inPerson_Penalize_def wp_attempt_ok case_prod_beta split: option.split)

text \<open>C7: A holder revocation that fails part-way still bars the holder, unless the very first store call
  failed, and calling it again finishes the job: once a call returns, every credential on record for the
  holder is revoked in the status list and every nullifier it ever touched is banned, and with the stores
  answering again a call does return.\<close>

theorem revocation_resumes:
  assumes "ranges_all cfg" "revokeHolder cfg holder rec now s = (r, s1)"
  shows "(\<forall>rep. r = Inr rep \<longrightarrow> holder_retired cfg holder (ss_holders s1) (ss_revocations s1)) \<and>
     (take 1 (ss_faults s) \<noteq> [True] \<longrightarrow> ledger_Banned (ss_holders s1) BanKindHolder holder) \<and>
     (ss_faults s1 = [] \<longrightarrow> (\<exists>rep s2. revokeHolder cfg holder rec' later s1 = (Inr rep, s2) \<and>
        holder_retired cfg holder (ss_holders s2) (ss_revocations s2)))"
proof (intro conjI impI allI)
  fix rep assume "r = Inr rep"
  then show "holder_retired cfg holder (ss_holders s1) (ss_revocations s1)"
    using wp_result [OF _ revokeHolder_retires [OF assms(1)]] assms(2) by blast
next
  let ?I = "\<lambda>t. ledger_Banned (ss_holders t) BanKindHolder holder"
  assume "take 1 (ss_faults s) \<noteq> [True]"
  then have "wp (holders_Ban BanKindHolder holder rec) (\<lambda>_. ?I) (\<lambda>_. ?I) s"
    by (auto simp: wp_def holders_Ban_def attempt_def case_prod_beta split: list.split)
  then have "wp (revokeHolder cfg holder rec now) (\<lambda>_. ?I) (\<lambda>_. ?I) s"
    unfolding revokeHolder_def holders_Issuances_def ban_nullifier_def inPerson_Penalize_def
    by (rule wp_seq_keeps) (auto simp: holders_Ban_def case_prod_beta intro!: keeps keeps_attempt keeps_revoke_issued)
  then show "?I s1" using assms(2) wp_state [of _ s r s1 ?I] by blast
next
  assume "ss_faults s1 = []"
  then show "\<exists>rep s2. revokeHolder cfg holder rec' later s1 = (Inr rep, s2) \<and>
        holder_retired cfg holder (ss_holders s2) (ss_revocations s2)"
    using revokeHolder_ok [of s1 cfg holder rec' later] revokeHolder_retires [OF assms(1), of holder rec' later s1]
    by (cases "revokeHolder cfg holder rec' later s1") (auto simp: wp_def split: sum.splits)
qed

definition sample_issued :: server_state where
  "sample_issued = sample_state
     \<lparr>ss_holders := ledger_RecordIssuance NewInMemoryHolderLedger ''did:x''
        \<lparr>ir_CredentialID = ''urn:1'', ir_NullifierCommitments = [''n1'', ''n2''], ir_IssuedAt = 3\<rparr>,
      ss_revocations := revocation_Bind 7 ''urn:1'' NewInMemoryRevocationStore,
      ss_faults := [False, False, True]\<rparr>"

lemma no_did_key [simp]: "Ed25519FromDIDKey ''did:x'' = None"
  by (simp add: Ed25519FromDIDKey_def has_prefix_def)

theorem revocation_resumes_witness:
  "\<exists>(s1 :: server_state) rep (s2 :: server_state).
     revokeHolder sample_server ''did:x'' sample_ban 5 sample_issued = (Inl StoreErr, s1) \<and>
     ledger_Banned (ss_holders s1) BanKindHolder ''did:x'' \<and>
     revokeHolder sample_server ''did:x'' sample_ban 6 s1 = (Inr rep, s2) \<and>
     holder_retired sample_server ''did:x'' (ss_holders s2) (ss_revocations s2)"
proof -
  obtain s1 where r: "revokeHolder sample_server ''did:x'' sample_ban 5 sample_issued = (Inl StoreErr, s1)" "ss_faults s1 = []"
    by (simp add: revokeHolder_def andThen_def holders_Ban_def holders_Issuances_def attempt_def sample_issued_def
        ledger_Ban_def ledger_RecordIssuance_def ledger_Issuances_def NewInMemoryHolderLedger_def case_prod_beta
        revoke_issued_def revocations_Revoke_def)
  show ?thesis
    using revocation_resumes [OF sample_server_ranges r(1), of sample_ban 6] r
    by (auto simp: sample_issued_def)
qed

text \<open>Once an operator reviewed an equivocation proof and reinstated the holder, that double-sign
  revokes nobody again: however a proof of the same two statements is spelled and ordered, it is refused
  and changes no store.\<close>

theorem pardoned_evidence_ignored:
  assumes "equivocation_Verify (cf_crypto cfg) p = Inr pub"
    and "ledger_Banned (ss_holders s) BanKindPardon (equivocationDigest (cf_crypto cfg) pub p)"
    and "equivocation_Verify (cf_crypto cfg) p' = Inr pub"
    and "eq_Context p' = eq_Context p" "eq_Slot p' = eq_Slot p" "payloads p' = payloads p"
  shows "wp (handleEquivocation cfg (Some p') now) (\<lambda>_ _. False)
     (\<lambda>e t. (e = Refused (writeError 409 ''evidence_pardoned'') \<or> e = Refused (writeError 500 ''revoke_failed'')) \<and>
        t = s\<lparr>ss_faults := ss_faults t\<rparr>) s"
proof -
  have len: "length pub = PublicKeySize" using assms(1) by (simp add: equivocation_Verify_Inr)
  have dig: "equivocationDigest (cf_crypto cfg) pub p' = equivocationDigest (cf_crypto cfg) pub p"
    using equivocationDigest_same [OF assms(1,3)] assms(4-6) by blast
  show ?thesis
    using assms(2,3) len
    by (auto simp: handleEquivocation_def decode_body_def wp DIDKeyFromEd25519_def Let_def dig holders_Banned_def
        intro!: wp_attempt)
qed

theorem pardoned_evidence_ignored_witness:
  "\<exists>p p'. p' \<noteq> p \<and> equivocation_Verify sample_crypto p = Inr (sample_key 2) \<and>
     equivocation_Verify sample_crypto p' = Inr (sample_key 2) \<and>
     (let s = sample_state\<lparr>ss_holders := snd (ledger_Ban NewInMemoryHolderLedger BanKindPardon
          (equivocationDigest sample_crypto (sample_key 2) p) sample_ban)\<rparr> in
      wp (handleEquivocation sample_server (Some p') 9) (\<lambda>_ _. False)
     (\<lambda>e t. (e = Refused (writeError 409 ''evidence_pardoned'') \<or> e = Refused (writeError 500 ''revoke_failed'')) \<and>
        t = s\<lparr>ss_faults := ss_faults t\<rparr>) s)"
proof -
  let ?k = "sample_key 1 @ sample_key 2"
  obtain st st' where s: "SignSlotStatement sample_crypto ?k ''openline/1/spend'' ''acct:1'' (sample_key 3) = Inr st"
     "SignSlotStatement sample_crypto ?k ''openline/1/spend'' ''acct:1'' (sample_key 4) = Inr st'"
    using sample_statement by blast
  let ?p = "\<lambda>a b. \<lparr>eq_Scheme = SlotStatementScheme, eq_HolderPublicKeyB64 = Std_encode (sample_key 2),
     eq_Context = ''openline/1/spend'', eq_Slot = ''acct:1'', eq_Statements = (a, b)\<rparr>"
  have k: "public_of ?k = sample_key 2" "length ?k = PrivateKeySize" "sample_key 3 \<noteq> sample_key 4"
    by (simp_all add: public_of_def sample_key_def key_sizes)
  have v: "equivocation_Verify sample_crypto (?p st st') = Inr (sample_key 2)"
    "equivocation_Verify sample_crypto (?p st' st) = Inr (sample_key 2)"
    using signed_conflict_verifies [OF s k(3,2)] signed_conflict_verifies [OF s(2,1) k(3) [symmetric] k(2)] k by auto
  have "st \<noteq> st'" using s k(3) by (auto simp: SignSlotStatement_def split: sum.splits)
  have cr: "cf_crypto sample_server = sample_crypto" by (simp add: sample_server_def)
  show ?thesis
    by (rule exI [of _ "?p st st'"], rule exI [of _ "?p st' st"], intro conjI, use \<open>st \<noteq> st'\<close> in simp, rule v, rule v,
        simp only: Let_def, rule pardoned_evidence_ignored [of _ "?p st st'" "sample_key 2"])
      (simp_all add: v cr payloads_def insert_commute)
qed

end
