(* ===== verification/Recovery.thy ===== *)
theory Recovery
  imports Lockout Holder_Revocation
begin

text \<open>
  Identity recovery, \<open>src/server/recovery.go\<close>: a recovery moves a face identity to a new holder key after a
  delay in which either key can cancel it. The webhook and log lines of \<open>notifyRecovery\<close> leave the program
  and are not modelled. The steps of all handlers that touch recoveries form \<open>recovery_step\<close>.
\<close>

section \<open>Records\<close>

definition FactorIdentifier :: string where "FactorIdentifier = ''identifier''"
definition FactorVouchers :: string where "FactorVouchers = ''vouchers''"
definition FactorDocument :: string where "FactorDocument = ''document''"
definition FactorOperatorReview :: string where "FactorOperatorReview = ''operator_review''"

definition RecoveryCancelMessage :: "did \<Rightarrow> string \<Rightarrow> string" where
  "RecoveryCancelMessage issuerDID i =
     ''personhood-recovery/v1'' @ newline @ ''cancel'' @ newline @ issuerDID @ newline @ i"

definition history_of :: "lockout_doc option \<Rightarrow> recovery_history" where
  "history_of d = (case d of None \<Rightarrow> zero_history | Some x \<Rightarrow> as_history x)"

definition history :: "server_config \<Rightarrow> string \<Rightarrow> recovery_history call" where
  "history cfg commitment = andThen (getJSON nsRecoveryHistory (hashed cfg commitment)) (\<lambda>d. ret (history_of d))"

definition setRecovery :: "recovery_doc \<Rightarrow> unit call" where
  "setRecovery d = setJSON nsRecoveries (rd_ID d) (RecoveryDoc d)"

definition setHistory :: "server_config \<Rightarrow> string \<Rightarrow> recovery_history \<Rightarrow> unit call" where
  "setHistory cfg commitment h = setJSON nsRecoveryHistory (hashed cfg commitment) (HistoryDoc h)"

fun pruneSince :: "time list \<Rightarrow> time \<Rightarrow> time list" where
  "pruneSince [] cutoff = []"
| "pruneSince (t # ts) cutoff = (if t > cutoff then t # pruneSince ts cutoff else pruneSince ts cutoff)"

section \<open>Opening and closing\<close>

definition reviewStep :: "server_config \<Rightarrow> string \<Rightarrow> next_step list" where
  "reviewStep cfg kind =
     (if \<not> reviewsEnabled cfg
      then [next_to ''contact_operator'' ''''
        (''Contact the issuer'' @ [byte 39] @ ''s operator; this issuer has no online review queue.'')]
      else [next_to ''manual_review'' ''/v1/reviews''
        (''Ask a person at the issuer to review your case (kind '' @ [byte 34] @ kind @ [byte 34] @ '').'')])"

text \<open>The recovery in progress that the history points to, if it is still pending.\<close>

definition current_recovery :: "recovery_history \<Rightarrow> recovery_doc option call" where
  "current_recovery h =
     (if rh_Active h = '''' then ret None
      else andThen (recovery (rh_Active h)) (\<lambda>found. ret (case found of
          None \<Rightarrow> None
        | Some cur \<Rightarrow> if rd_Status cur = RecoveryPending then Some cur else None)))"

text \<open>\<open>d.Factors[0]\<close>: every caller passes at least one factor.\<close>

definition by_operator :: "recovery_doc \<Rightarrow> bool" where
  "by_operator d \<longleftrightarrow> rd_Factors d \<noteq> [] \<and> hd (rd_Factors d) = FactorOperatorReview"

definition record_opening :: "server_config \<Rightarrow> recovery_doc \<Rightarrow> recovery_history \<Rightarrow> unit call" where
  "record_opening cfg d h =
     andThen (setRecovery d) (\<lambda>_.
     andThen (setHistory cfg (rd_Commitment d) h) (\<lambda>_.
     forEach (\<lambda>k. setJSON nsRecoveryByKey (hashed cfg k) (PointerDoc (rd_ID d))) [rd_OldHolder d, rd_NewHolder d]))"

text \<open>The limits per identity, once no recovery of it is in progress.\<close>

definition open_in_limits :: "server_config \<Rightarrow> recovery_doc \<Rightarrow> recovery_history \<Rightarrow> refusal option call" where
  "open_in_limits cfg d h =
     (let cooldown = lc_RecoveryCooldown (cfgLockout cfg);
          window = rd_CreatedAt d - cooldown;
          completed = pruneSince (rh_Completed h) window;
          cancelled = pruneSince (rh_Cancelled h) window in
      if \<not> by_operator d \<and> length completed > 0
      then ret (Some (writeErrorNext 429 ''recovery_cooldown'' (reviewStep cfg ''recovery'')
        [(''retry_after'', JTime (last completed + cooldown))]))
      else if \<not> by_operator d \<and> int (length cancelled) \<ge> lc_MaxCancelledRecoveries (cfgLockout cfg)
      then ret (Some (writeErrorNext 403 ''recovery_needs_review'' (reviewStep cfg ''recovery'') []))
      else andThen (record_opening cfg d
             \<lparr>rh_Active = rd_ID d, rh_Completed = completed, rh_Cancelled = cancelled\<rparr>) (\<lambda>_. ret None))"

definition openRecovery :: "server_config \<Rightarrow> recovery_doc \<Rightarrow> refusal option call" where
  "openRecovery cfg d =
     andThen (history cfg (rd_Commitment d)) (\<lambda>h.
     andThen (current_recovery h) (\<lambda>current.
     case current of
       Some cur \<Rightarrow> ret (Some (writeErrorNext 409 ''recovery_pending'' [] [(''executes_at'', JTime (rd_ExecutesAt cur))]))
     | None \<Rightarrow> open_in_limits cfg d h))"

datatype close_error = errRecoveryNotFound | errRecoveryClosed

definition closed_history :: "recovery_history \<Rightarrow> string \<Rightarrow> string \<Rightarrow> time \<Rightarrow> recovery_history" where
  "closed_history h i status now =
     (let h1 = (if rh_Active h = i then h\<lparr>rh_Active := ''''\<rparr> else h) in
      if status = RecoveryCompleted then h1\<lparr>rh_Completed := rh_Completed h1 @ [now]\<rparr>
      else h1\<lparr>rh_Cancelled := rh_Cancelled h1 @ [now]\<rparr>)"

definition closeRecovery ::
  "server_config \<Rightarrow> string \<Rightarrow> string \<Rightarrow> string \<Rightarrow> time \<Rightarrow> (close_error + recovery_doc) call" where
  "closeRecovery cfg i status who now =
     andThen (recovery i) (\<lambda>found.
     case found of
       None \<Rightarrow> ret (Inl errRecoveryNotFound)
     | Some d0 \<Rightarrow>
         if rd_Status d0 \<noteq> RecoveryPending then ret (Inl errRecoveryClosed)
         else
           (let d = d0\<lparr>rd_Status := status, rd_ClosedAt := now, rd_ClosedBy := who\<rparr> in
            andThen (history cfg (rd_Commitment d)) (\<lambda>h.
            andThen (setJSON nsRecoveries i (RecoveryDoc d)) (\<lambda>_.
            andThen (setHistory cfg (rd_Commitment d) (closed_history h i status now)) (\<lambda>_.
            ret (Inr d))))))"

section \<open>Factors\<close>

definition proves_identifier :: "server_config \<Rightarrow> string list \<Rightarrow> string \<Rightarrow> bool call" where
  "proves_identifier cfg links key = andThen (identifiers_Lookup key) (\<lambda>seed. ret (case seed of
       None \<Rightarrow> False
     | Some sd \<Rightarrow> (case NullifierBindingForIdentifierSeed (cf_crypto cfg) sd of
           None \<Rightarrow> False
         | Some nb \<Rightarrow> identityKeyNullifier (nb_Commitment nb) \<in> set links)))"

definition recoveryFactors :: "server_config \<Rightarrow> session_view \<Rightarrow> string \<Rightarrow> did \<Rightarrow> time \<Rightarrow> string list call" where
  "recoveryFactors cfg sess bioNB old now =
     andThen (identityLinks cfg bioNB) (\<lambda>links.
     andThen (if cf_identifierKeys cfg = None then ret False
       else anyOf (proves_identifier cfg links)
         (map (\<lambda>kind. the (map_of (sv_IdentifierKeys sess) kind)) (cf_range cfg (map fst (sv_IdentifierKeys sess))))) (\<lambda>ident.
     andThen (case cf_inPerson cfg of
         None \<Rightarrow> ret False
       | Some ip \<Rightarrow>
           andThen (inPerson_AnchorVouchers ip (sv_HolderDID sess) now) (\<lambda>current.
           andThen (inPerson_VoucherDIDsFor old) (\<lambda>before.
           ret (int (length (filter (\<lambda>v. v \<in> set before) current)) \<ge> lc_RecoveryVouches (cfgLockout cfg))))) (\<lambda>vouched.
     let document = list_ex (\<lambda>vm. vm_MethodID vm \<in> set (lc_RecoveryDocumentMethods (cfgLockout cfg)) \<and>
           vm_AttestationDigest vm \<noteq> '''' \<and>
           identityKeyAttestation (vm_MethodID vm) (vm_AttestationDigest vm) \<in> set links) (sv_VerifiedMethods sess) in
     ret ((if ident then [FactorIdentifier] else []) @ (if vouched then [FactorVouchers] else [])
       @ (if document then [FactorDocument] else [])))))"

definition factorSteps :: "server_config \<Rightarrow> next_step list" where
  "factorSteps cfg =
     [(next_to ''verify_identifier'' ''/v1/methods/email/begin''
         ''Verify the email address or phone number you enrolled with, in this same session, then start the recovery again.'')
        \<lparr>nx_Methods := [''email'', ''sms'']\<rparr>]
     @ (if cf_inPerson cfg \<noteq> None
        then [next_to ''vouchers'' ''/v1/methods/in-person-vouch/accept''
          (''Meet '' @ int_string (lc_RecoveryVouches (cfgLockout cfg))
           @ '' of the people who vouched for you before; each vouches in person for this new phone. Then start the recovery again.'')]
        else [])
     @ (if length (lc_RecoveryDocumentMethods (cfgLockout cfg)) > 0
        then [(next_to ''document'' ''''
          ''Scan the same identity document you enrolled with, in this session, then start the recovery again.'')
            \<lparr>nx_Methods := lc_RecoveryDocumentMethods (cfgLockout cfg)\<rparr>]
        else [])
     @ reviewStep cfg ''recovery''"

section \<open>Handlers\<close>

record recovery_view =
  vw_ID :: string
  vw_Status :: string
  vw_Factors :: "string list"
  vw_CreatedAt :: time
  vw_ExecutesAt :: time
  vw_ClosedAt :: time

definition viewOf :: "recovery_doc \<Rightarrow> recovery_view" where
  "viewOf d = \<lparr>vw_ID = rd_ID d, vw_Status = rd_Status d, vw_Factors = rd_Factors d,
     vw_CreatedAt = rd_CreatedAt d, vw_ExecutesAt = rd_ExecutesAt d, vw_ClosedAt = rd_ClosedAt d\<rparr>"

text \<open>\<open>rand16\<close> is what \<open>rand.Read\<close> gave, \<open>None\<close> when it failed.\<close>

definition newRecoveryID :: "bytes option \<Rightarrow> string option" where
  "newRecoveryID rand16 = map_option hex_encode rand16"

definition startRecovery ::
  "server_config \<Rightarrow> did \<Rightarrow> did \<Rightarrow> string \<Rightarrow> string list \<Rightarrow> bytes option \<Rightarrow> time \<Rightarrow> recovery_view call" where
  "startRecovery cfg old newHolder commitment factors rand16 now =
     (case newRecoveryID rand16 of
        None \<Rightarrow> refuse 500 ''recovery_failed''
      | Some i \<Rightarrow>
          (let d = \<lparr>rd_ID = i, rd_OldHolder = old, rd_NewHolder = newHolder, rd_Commitment = commitment,
                 rd_Factors = factors, rd_Status = RecoveryPending, rd_CreatedAt = now,
                 rd_ExecutesAt = now + lc_RecoveryDelay (cfgLockout cfg), rd_ClosedAt = 0, rd_ClosedBy = ''''\<rparr> in
           andThen (or500 ''recovery_failed'' (openRecovery cfg d)) (\<lambda>lerr.
           case lerr of Some r \<Rightarrow> throw (Refused r) | None \<Rightarrow> ret (viewOf d))))"

definition handleRecoveryStart ::
  "server_config \<Rightarrow> string option \<Rightarrow> bytes option \<Rightarrow> time \<Rightarrow> recovery_view call" where
  "handleRecoveryStart cfg body rand16 now =
     andThen (decode_body body) (\<lambda>sid.
     andThen (session_or_404 sid now) (\<lambda>sess.
     andThen (check (sv_IssuedCredentialID sess \<noteq> '''') 409 ''already_issued'') (\<lambda>_.
     andThen (check (\<not> has_prefix (sv_HolderDID sess) ''did:key:'') 400 ''holder_key_required'') (\<lambda>_.
     andThen (or500 ''store_failed'' (faceMatch cfg (sv_ID sess))) (\<lambda>found.
     case found of
       None \<Rightarrow> throw (Refused (writeErrorNext 409 ''no_face_match''
         [next_to ''selfie'' (''/v1/methods/'' @ SelfieMethodID @ ''/begin'') ''Take the selfie check in this session first.''] []))
     | Some fm \<Rightarrow>
         andThen (check (fm_Declined fm) 409 ''face_match_declined'') (\<lambda>_.
         let nb = face_nullifier cfg (fm_Commitment fm) in
         andThen (or500 ''store_failed'' (holderOf cfg (identityKeyNullifier nb))) (\<lambda>holder.
         case holder of
           None \<Rightarrow> throw (Refused (writeErrorNext 404 ''recovery_identity_unknown'' (reviewStep cfg ''recovery'') []))
         | Some old \<Rightarrow>
             andThen (check (old = sv_HolderDID sess) 409 ''already_yours'') (\<lambda>_.
             andThen (or500 ''ban_check_failed'' (holders_Banned BanKindNullifier nb)) (\<lambda>banned.
             andThen (refuseIf banned (Refused (writeErrorNext 403 ''nullifier_revoked'' (appealStep cfg) []))) (\<lambda>_.
             andThen (or500 ''store_failed'' (holders_Issuances (sv_HolderDID sess))) (\<lambda>recs.
             andThen (check (length recs > 0) 409 ''holder_has_credential'') (\<lambda>_.
             andThen (or500 ''factor_check_failed'' (recoveryFactors cfg sess nb old now)) (\<lambda>factors.
             andThen (refuseIf (length factors = 0)
               (Refused (writeErrorNext 403 ''recovery_factor_missing'' (factorSteps cfg) []))) (\<lambda>_.
             startRecovery cfg old (sv_HolderDID sess) (fm_Commitment fm) factors rand16 now)))))))))))))) "

definition handleRecoveryGet :: "string \<Rightarrow> recovery_view call" where
  "handleRecoveryGet i =
     andThen (or500 ''store_failed'' (recovery i)) (\<lambda>found.
     case found of None \<Rightarrow> refuse 404 ''recovery_not_found'' | Some d \<Rightarrow> ret (viewOf d))"

text \<open>The pending recovery of the holder, its role in it and the message to sign to cancel.\<close>

definition handleRecoveryPending ::
  "server_config \<Rightarrow> string \<Rightarrow> (recovery_view \<times> string \<times> string) option call" where
  "handleRecoveryPending cfg holder_did =
     (let holder = trim_space holder_did in
      andThen (check (\<not> has_prefix holder ''did:'') 400 ''invalid_request'') (\<lambda>_.
      andThen (or500 ''store_failed'' (activeRecoveryFor cfg holder)) (\<lambda>i.
      if i = '''' then ret None
      else andThen (or500 ''store_failed'' (recovery i)) (\<lambda>found.
        let d = (case found of None \<Rightarrow> zero_recovery | Some d \<Rightarrow> d) in
        ret (Some (viewOf d, if rd_OldHolder d = holder then ''old_key'' else ''new_key'',
          RecoveryCancelMessage (cf_issuerDID cfg) (rd_ID d)))))))"

definition verifyDIDSignature :: "crypto \<Rightarrow> did \<Rightarrow> string \<Rightarrow> string \<Rightarrow> bool" where
  "verifyDIDSignature cr holder message sigB64 =
     (case Ed25519FromDIDKey holder of
        None \<Rightarrow> False
      | Some pub \<Rightarrow>
          (case (case Std_decode (trim_space sigB64) of Some b \<Rightarrow> Some b | None \<Rightarrow> decodeB64Tolerant sigB64) of
             None \<Rightarrow> False
           | Some sig \<Rightarrow> length sig = SignatureSize \<and> c_verify cr pub message sig))"

record cancel_request =
  xq_HolderDID :: string
  xq_SignatureB64 :: string

definition handleRecoveryCancel ::
  "server_config \<Rightarrow> string \<Rightarrow> cancel_request option \<Rightarrow> time \<Rightarrow> recovery_view call" where
  "handleRecoveryCancel cfg i body now =
     andThen (decode_body body) (\<lambda>req.
     andThen (or500 ''store_failed'' (recovery i)) (\<lambda>found.
     case found of
       None \<Rightarrow> refuse 404 ''recovery_not_found''
     | Some d \<Rightarrow>
         (let holder = xq_HolderDID req in
          andThen (if holder = rd_OldHolder d then ret ''old_key''
            else if holder = rd_NewHolder d then ret ''new_key''
            else refuse 403 ''not_a_party'') (\<lambda>who.
          andThen (check (\<not> verifyDIDSignature (cf_crypto cfg) holder
              (RecoveryCancelMessage (cf_issuerDID cfg) i) (xq_SignatureB64 req)) 403 ''bad_signature'') (\<lambda>_.
          andThen (or500 ''store_failed'' (closeRecovery cfg i RecoveryCancelled who now)) (\<lambda>r.
          case r of
            Inl errRecoveryClosed \<Rightarrow> refuse 409 ''recovery_closed''
          | Inl errRecoveryNotFound \<Rightarrow> refuse 500 ''store_failed''
          | Inr d' \<Rightarrow> ret (viewOf d')))))))"

text \<open>Revokes every credential of the old key and bars the key; its nullifiers stay valid.\<close>

definition retireRecoveredHolder :: "did \<Rightarrow> time \<Rightarrow> nat call" where
  "retireRecoveredHolder old now =
     andThen (holders_Ban BanKindHolder old \<lparr>br_Reason = ''recovered: identity moved to a new holder key'',
         br_EvidenceDigest = '''', br_At = now\<rparr>) (\<lambda>_.
     andThen (holders_Issuances old) (\<lambda>recs.
     countEach revoke_issued (map ir_CredentialID recs)))"

definition handleRecoveryComplete ::
  "server_config \<Rightarrow> string \<Rightarrow> string option \<Rightarrow> time \<Rightarrow> (recovery_view \<times> nat \<times> session_view option) call" where
  "handleRecoveryComplete cfg i body now =
     andThen (decode_body body) (\<lambda>sid.
     andThen (or500 ''store_failed'' (recovery i)) (\<lambda>found.
     case found of
       None \<Rightarrow> refuse 404 ''recovery_not_found''
     | Some d \<Rightarrow>
         andThen (session_or_404 sid now) (\<lambda>sess.
         andThen (check (sv_HolderDID sess \<noteq> rd_NewHolder d \<or> sv_IssuedCredentialID sess \<noteq> '''') 403 ''wrong_session'') (\<lambda>_.
         let retry = (rd_Status d = RecoveryCompleted) in
         andThen (check (rd_Status d \<noteq> RecoveryPending \<and> \<not> retry) 409 ''recovery_closed'') (\<lambda>_.
         andThen (refuseIf (now < rd_ExecutesAt d)
           (Refused (writeErrorNext 425 ''recovery_not_ready'' [] [(''executes_at'', JTime (rd_ExecutesAt d))]))) (\<lambda>_.
         andThen (or500 ''ban_check_failed''
           (holders_Banned BanKindNullifier (face_nullifier cfg (rd_Commitment d)))) (\<lambda>banned.
         andThen (refuseIf banned (Refused (writeErrorNext 403 ''nullifier_revoked'' (appealStep cfg) []))) (\<lambda>_.
         case registry_Get (cf_registry cfg) SelfieMethodID of
           None \<Rightarrow> refuse 500 ''selfie_unavailable''
         | Some selfie \<Rightarrow>
             andThen (if retry then ret d
               else andThen (or500 ''store_failed'' (closeRecovery cfg i RecoveryCompleted ''new_key'' now)) (\<lambda>r.
                 case r of
                   Inl errRecoveryClosed \<Rightarrow> refuse 409 ''recovery_closed''
                 | Inl errRecoveryNotFound \<Rightarrow> refuse 500 ''store_failed''
                 | Inr d' \<Rightarrow> ret d')) (\<lambda>d'.
             andThen (or500 ''revoke_failed'' (retireRecoveredHolder (rd_OldHolder d') now)) (\<lambda>revoked.
             andThen (sessions_RecordMethodResult (sv_ID sess)
               (passed_result SelfieMethodID now (rd_Commitment d')) (me_Metadata selfie) now) (\<lambda>err.
             andThen (check (err \<noteq> None) 500 ''record_failed'') (\<lambda>_.
             andThen (sessions_Get (sv_ID sess) now) (\<lambda>r.
             ret (viewOf d', revoked, case r of Inl e \<Rightarrow> None | Inr view \<Rightarrow> Some view))))))))))))))"

end
