(* ===== verification/Issuance.thy ===== *)
theory Issuance
  imports Recovery
begin

text \<open>
  The enrollment handlers of \<open>src/server/handlers.go\<close>, with \<open>holderpop.go\<close> and the credential check of
  \<open>inperson.go\<close>: starting an enrollment, completing a method, issuing the credential, the status list and
  the operator's revocation of one credential. The ceremony of a plugin is a parameter.
\<close>

section \<open>Starting an enrollment\<close>

definition checkInviteCode :: "server_config \<Rightarrow> string \<Rightarrow> string option" where
  "checkInviteCode cfg supplied =
     (let want = cf_EnrollmentInviteCode cfg; got = trim_space supplied in
      if want = '''' then None
      else if got = '''' then Some ''invite_code_required''
      else if got \<noteq> want then Some ''invite_code_invalid''
      else None)"

definition HolderPoPMessage :: "did \<Rightarrow> string \<Rightarrow> string" where
  "HolderPoPMessage issuerDID sessionID = ''personhood-holder-pop:v1:'' @ issuerDID @ '':'' @ sessionID"

record method_summary =
  ms_ID :: string
  ms_Type :: string
  ms_Strength :: int
  ms_UXFriction :: string
  ms_CostUSD :: real
  ms_Version :: string

definition methodSummaries :: "server_config \<Rightarrow> method_summary list" where
  "methodSummaries cfg = map (\<lambda>m. let md = me_Metadata m in
     \<lparr>ms_ID = md_ID md, ms_Type = md_Type md, ms_Strength = md_Strength md, ms_UXFriction = md_UXFriction md,
      ms_CostUSD = md_CostUSD md, ms_Version = md_Version md\<rparr>) (registry_List (cf_registry cfg))"

record start_request =
  tq_HolderPublicKeyB64 :: string
  tq_InviteCode :: string

record start_response =
  tr_SessionID :: string
  tr_HolderDID :: did
  tr_IssuerDID :: did
  tr_ExpiresAt :: time
  tr_AvailableMethods :: "method_summary list"
  tr_HolderProofMessage :: string

definition declared_key :: "string \<Rightarrow> bytes option call" where
  "declared_key b64 =
     (if trim_space b64 \<noteq> ''''
      then (case decodeB64Tolerant b64 of
          None \<Rightarrow> refuse 400 ''invalid_holder_key''
        | Some raw \<Rightarrow> if length raw \<noteq> PublicKeySize then refuse 400 ''invalid_holder_key'' else ret (Some raw))
      else ret None)"

definition sessions_Create :: "server_config \<Rightarrow> bytes option \<Rightarrow> bytes \<Rightarrow> time \<Rightarrow> (session_error + session_view) call" where
  "sessions_Create cfg rand32 pub now s =
     (case session_Create (cf_crypto cfg) (ss_sessions s) rand32 pub now of (r, st) \<Rightarrow> (Inr r, s\<lparr>ss_sessions := st\<rparr>))"

definition handleStartEnrollment ::
  "server_config \<Rightarrow> start_request option \<Rightarrow> bytes option \<Rightarrow> time \<Rightarrow> start_response call" where
  "handleStartEnrollment cfg body rand32 now =
     andThen (decode_body body) (\<lambda>req.
     andThen (case checkInviteCode cfg (tq_InviteCode req) of None \<Rightarrow> ret () | Some code \<Rightarrow> refuse 403 code) (\<lambda>_.
     andThen (declared_key (tq_HolderPublicKeyB64 req)) (\<lambda>pub.
     andThen (sessions_Create cfg rand32 (case pub of None \<Rightarrow> [] | Some k \<Rightarrow> k) now) (\<lambda>r.
     case r of
       Inl e \<Rightarrow> refuse 500 ''session_create_failed''
     | Inr view \<Rightarrow> ret \<lparr>tr_SessionID = sv_ID view, tr_HolderDID = sv_HolderDID view, tr_IssuerDID = cf_issuerDID cfg,
         tr_ExpiresAt = sv_ExpiresAt view, tr_AvailableMethods = methodSummaries cfg,
         tr_HolderProofMessage = (if pub = None then '''' else HolderPoPMessage (cf_issuerDID cfg) (sv_ID view))\<rparr>))))"

definition handleGetSession :: "string \<Rightarrow> time \<Rightarrow> session_view call" where
  "handleGetSession sid now = session_or_404 sid now"

section \<open>Completing a method\<close>

definition recordVerified ::
  "server_config \<Rightarrow> string \<Rightarrow> string \<Rightarrow> method_result \<Rightarrow> method_metadata \<Rightarrow> time \<Rightarrow> unit call" where
  "recordVerified cfg sid methodID res md now =
     (let raw = mr_VerifiedIdentifier res; kind = identifierKindForMethod methodID in
      andThen (case cf_identifierKeys cfg of
          None \<Rightarrow> ret ()
        | Some keyer \<Rightarrow>
            if kind = '''' then ret ()
            else if raw = '''' then throw StoreErr
            else (case normalizeIdentifier kind raw of
                Inl e \<Rightarrow> throw StoreErr
              | Inr normalized \<Rightarrow>
                  andThen (sessions_SetIdentifierKey sid kind (identifier_Key (cf_crypto cfg) keyer kind normalized) now) (\<lambda>err.
                  if err = None then ret () else throw StoreErr))) (\<lambda>_.
      andThen (sessions_RecordMethodResult sid (res\<lparr>mr_VerifiedIdentifier := ''''\<rparr>) md now) (\<lambda>err.
      if err = None then ret () else throw StoreErr)))"

text \<open>\<open>None\<close> when the method has no prerequisite or one is met.\<close>

definition missingPrerequisite :: "server_config \<Rightarrow> string \<Rightarrow> session_view \<Rightarrow> string list option" where
  "missingPrerequisite cfg methodID view =
     (case map_of (cf_methodPrerequisites cfg) methodID of
        None \<Rightarrow> None
      | Some need \<Rightarrow>
          if length need = 0 then None
          else if list_ex (\<lambda>vm. vm_MethodID vm \<in> set need) (sv_VerifiedMethods view) then None
          else Some need)"

definition IpAsnMethodID :: string where "IpAsnMethodID = ''ip-asn-reputation''"
definition ReasonDuplicate :: string where "ReasonDuplicate = ''duplicate_person_detected''"

record complete_response =
  cp_Result :: method_result
  cp_Session :: "session_view option"
  cp_FaceMatch :: "next_step list option"

text \<open>The routing of a completed ceremony: the result that counts, and the ways forward after a face match.
  \<open>True\<close>: the result is already recorded.\<close>

definition route_result ::
  "server_config \<Rightarrow> session_view \<Rightarrow> string \<Rightarrow> method_metadata \<Rightarrow> method_result \<Rightarrow> time
    \<Rightarrow> (method_result \<times> bool \<times> next_step list option) call" where
  "route_result cfg sess methodID md result now =
     (if cf_lockout cfg = None then ret (result, False, None)
      else if isSelfieMethod methodID \<and> \<not> mr_Success result \<and> mr_ErrorReason result = ReasonDuplicate
      then andThen (or500 ''face_match_failed'' (routeFaceMatch cfg sess md now)) (\<lambda>(res, routing).
        case res of
          Some r \<Rightarrow> ret (r, True, None)
        | None \<Rightarrow> ret (result, False, routing))
      else if methodID = InPersonMethodID \<and> mr_Success result
      then andThen (or500 ''complete_failed'' (checkDeclinedVouches cfg sess now)) (\<lambda>reason.
        ret (if reason \<noteq> '''' then failed_result methodID reason else result, False, None))
      else ret (result, False, None))"

definition session_after :: "string \<Rightarrow> time \<Rightarrow> session_view option call" where
  "session_after sid now = andThen (sessions_Get sid now) (\<lambda>r.
     ret (case r of Inl e \<Rightarrow> None | Inr view \<Rightarrow> Some view))"

definition with_ip :: "string \<Rightarrow> string \<Rightarrow> response_data \<Rightarrow> response_data" where
  "with_ip methodID ip resp =
     (if methodID = IpAsnMethodID then resp\<lparr>rd_Payload := alist_put ''ip'' (JString ip) (rd_Payload resp)\<rparr> else resp)"

definition handleCompleteMethod ::
  "server_config \<Rightarrow> (string \<Rightarrow> ceremony_context \<Rightarrow> response_data \<Rightarrow> method_result call) \<Rightarrow> string
    \<Rightarrow> (string \<times> response_data) option \<Rightarrow> string \<Rightarrow> time \<Rightarrow> complete_response call" where
  "handleCompleteMethod cfg ceremony methodID body ip now =
     (case registry_Get (cf_registry cfg) methodID of
        None \<Rightarrow> refuse 404 ''method_not_found''
      | Some entry \<Rightarrow>
          andThen (decode_body body) (\<lambda>(sid, resp).
          andThen (session_or_404 sid now) (\<lambda>sess.
          andThen (case missingPrerequisite cfg methodID sess of
              None \<Rightarrow> ret None
            | Some need \<Rightarrow>
                if cf_lockout cfg \<noteq> None \<and> SelfieMethodID \<in> set need
                then andThen (or500 ''store_failed'' (faceMatchDeclined cfg (sv_ID sess))) (\<lambda>declined.
                  ret (if declined \<noteq> None then None else Some need))
                else ret (Some need)) (\<lambda>need.
          case need of
            Some ids \<Rightarrow> ret \<lparr>cp_Result = failed_result methodID (''prerequisite_missing:'' @ join ''|'' ids),
              cp_Session = Some sess, cp_FaceMatch = None\<rparr>
          | None \<Rightarrow>
              andThen (or500 ''complete_failed'' (ceremony methodID
                \<lparr>cc_SessionID = sv_ID sess, cc_HolderDID = sv_HolderDID sess, cc_UserID = '''', cc_MethodID = methodID,
                 cc_IssuerDID = cf_issuerDID cfg, cc_StartedAt = sv_CreatedAt sess\<rparr> (with_ip methodID ip resp))) (\<lambda>result0.
              andThen (route_result cfg sess methodID (me_Metadata entry) result0 now) (\<lambda>(result, recorded, routing).
              andThen (if mr_Success result \<and> \<not> recorded
                then or500 ''record_failed'' (recordVerified cfg (sv_ID sess) methodID result (me_Metadata entry) now)
                else ret ()) (\<lambda>_.
              andThen (session_after (sv_ID sess) now) (\<lambda>view.
              ret \<lparr>cp_Result = result, cp_Session = view, cp_FaceMatch = routing\<rparr>))))))))"

text \<open>The landing page of a magic link: the ceremony with the token, and whether the page says success.\<close>

definition handleEmailMagicLink ::
  "server_config \<Rightarrow> (string \<Rightarrow> ceremony_context \<Rightarrow> response_data \<Rightarrow> method_result call) \<Rightarrow> string \<Rightarrow> string \<Rightarrow> string
    \<Rightarrow> time \<Rightarrow> bool call" where
  "handleEmailMagicLink cfg ceremony sessionID token method0 now =
     (let methodID = (if method0 = '''' then ''email'' else method0) in
      andThen (check (sessionID = '''' \<or> token = '''') 400 ''missing_params'') (\<lambda>_.
      case registry_Get (cf_registry cfg) methodID of
        None \<Rightarrow> refuse 404 ''method_not_found''
      | Some entry \<Rightarrow>
          andThen (session_or_404 sessionID now) (\<lambda>sess.
          andThen (or500 ''complete_failed'' (ceremony methodID
            \<lparr>cc_SessionID = sv_ID sess, cc_HolderDID = sv_HolderDID sess, cc_UserID = '''', cc_MethodID = methodID,
             cc_IssuerDID = cf_issuerDID cfg, cc_StartedAt = sv_CreatedAt sess\<rparr>
            \<lparr>rd_Type = ''magic-link-click'', rd_Payload = [(''token'', JString token)]\<rparr>)) (\<lambda>result.
          andThen (if mr_Success result
            then or500 ''record_failed'' (recordVerified cfg (sv_ID sess) methodID result (me_Metadata entry) now)
            else ret ()) (\<lambda>_.
          ret (mr_Success result))))))"

section \<open>Issuing\<close>

definition checkHolderPoP :: "server_config \<Rightarrow> session_view \<Rightarrow> string \<Rightarrow> string option" where
  "checkHolderPoP cfg view proofB64 =
     (if length (sv_HolderPublicKey view) \<noteq> PublicKeySize then None
      else if proofB64 = ''''
      then (if cf_RequireHolderPoP cfg then Some ''holder_proof_required'' else None)
      else (case decodeB64Tolerant proofB64 of
          None \<Rightarrow> Some ''holder_proof_invalid''
        | Some sig \<Rightarrow>
            if length sig \<noteq> SignatureSize \<or> \<not> c_verify (cf_crypto cfg) (sv_HolderPublicKey view)
                (HolderPoPMessage (cf_issuerDID cfg) (sv_ID view)) sig
            then Some ''holder_proof_invalid'' else None))"

record issue_request =
  iq_SessionID :: string
  iq_HolderProofB64 :: string

text \<open>A method of the session whose identifier was verified before identifiers were keyed.\<close>

definition unkeyed_identifier :: "session_view \<Rightarrow> bool" where
  "unkeyed_identifier view \<longleftrightarrow> list_ex (\<lambda>vm. let kind = identifierKindForMethod (vm_MethodID vm) in
     kind \<noteq> '''' \<and> map_of (sv_IdentifierKeys view) kind \<in> {None, Some ''''}) (sv_VerifiedMethods view)"

definition session_nullifier :: "server_config \<Rightarrow> session_view \<Rightarrow> bytes option \<Rightarrow> nullifier_binding option call" where
  "session_nullifier cfg view rand32 =
     (let holder = NullifierBindingForHolder (cf_crypto cfg) (sv_HolderPublicKey view);
          bio = selfieCommitment (sv_VerifiedMethods view) in
      if bio = '''' \<and> cf_identifierKeys cfg \<noteq> None
      then andThen (check (unkeyed_identifier view) 409 ''reverify_required'') (\<lambda>_.
        if length (sv_IdentifierKeys view) > 0
        then andThen (or500 ''identifier_seed_failed'' (identifiers_resolve (sv_IdentifierKeys view) rand32)) (\<lambda>r.
          case r of
            Inl e \<Rightarrow> refuse 500 ''identifier_seed_failed''
          | Inr seed \<Rightarrow> ret (NullifierBindingForIdentifierSeed (cf_crypto cfg) seed))
        else ret holder)
      else if bio \<noteq> '''' then ret (NullifierBindingForBiometricCommitment (cf_crypto cfg) bio)
      else ret holder)"

text \<open>The checks of the ban list and of the lockout rules; the commitments the session touched.\<close>

definition issuance_checks ::
  "server_config \<Rightarrow> session_view \<Rightarrow> nullifier_binding option \<Rightarrow> bytes option \<Rightarrow> string list call" where
  "issuance_checks cfg view nb rand32 =
     andThen (if \<not> cf_holderRevocation cfg then ret []
       else andThen (or500 ''identifier_seed_failed'' (sessionNullifierCommitments cfg view nb
           (selfieCommitment (sv_VerifiedMethods view) \<noteq> '''') rand32)) (\<lambda>commitments.
         andThen (or500 ''ban_check_failed'' (checkHolderBans (sv_HolderDID view) commitments)) (\<lambda>banned.
         case banned of
           Some code \<Rightarrow> throw (Refused (writeErrorNext 403 code (appealStepIfLockout cfg) []))
         | None \<Rightarrow> ret commitments))) (\<lambda>commitments.
     andThen (if cf_lockout cfg = None then ret None
       else or500 ''issuance_check_failed'' (lockoutIssuanceCheck cfg view)) (\<lambda>refused.
     case refused of Some r \<Rightarrow> throw (Refused r) | None \<Rightarrow> ret commitments))"

definition record_issuance ::
  "server_config \<Rightarrow> session_view \<Rightarrow> credential \<Rightarrow> string list \<Rightarrow> time \<Rightarrow> unit call" where
  "record_issuance cfg view cred commitments now =
     andThen (if cf_holderRevocation cfg
       then or500 ''issuance_record_failed'' (holders_RecordIssuance (sv_HolderDID view)
         \<lparr>ir_CredentialID = vc_ID cred, ir_NullifierCommitments = commitments, ir_IssuedAt = now\<rparr>)
       else ret ()) (\<lambda>_.
     if cf_lockout cfg = None then ret ()
     else or500 ''issuance_record_failed'' (lockoutRecordIssuance cfg view commitments now))"

definition handleIssueCredential ::
  "server_config \<Rightarrow> issue_request option \<Rightarrow> bytes option \<Rightarrow> (nat \<Rightarrow> bytes option) \<Rightarrow> time \<Rightarrow> credential call" where
  "handleIssueCredential cfg body rand32 rnd now =
     andThen (decode_body body) (\<lambda>req.
     andThen (session_or_404 (iq_SessionID req) now) (\<lambda>view.
     andThen (check (sv_IssuedCredentialID view \<noteq> '''') 409 ''already_issued'') (\<lambda>_.
     andThen (check (length (sv_VerifiedMethods view) = 0) 422 ''no_methods_completed'') (\<lambda>_.
     andThen (case checkHolderPoP cfg view (iq_HolderProofB64 req) of None \<Rightarrow> ret () | Some code \<Rightarrow> refuse 403 code) (\<lambda>_.
     andThen (session_nullifier cfg view rand32) (\<lambda>nb.
     andThen (issuance_checks cfg view nb rand32) (\<lambda>commitments.
     andThen (or500 ''status_slot_failed'' (revocations_Allocate rnd)) (\<lambda>slot.
     case slot of
       Inl e \<Rightarrow> refuse 500 ''status_slot_failed''
     | Inr idx \<Rightarrow>
         (case Issue (cf_crypto cfg) (cf_json cfg) (cf_issuer cfg) (sv_HolderDID view) (sv_VerifiedMethods view)
             (sv_AnchorMethodID view) nb now (now + cf_credentialLifetime cfg) (Some idx) of
            Inl e \<Rightarrow> refuse 500 ''issue_failed''
          | Inr cred \<Rightarrow>
              andThen (or500 ''status_slot_failed'' (revocations_Bind idx (vc_ID cred))) (\<lambda>_.
              andThen (record_issuance cfg view cred commitments now) (\<lambda>_.
              andThen (sessions_MarkIssued (iq_SessionID req) (vc_ID cred) now) (\<lambda>err.
              case err of
                None \<Rightarrow> ret cred
              | Some e \<Rightarrow> refuse (if e = ErrSessionAlreadyIssued then 409 else 500) ''mark_issued_failed''))))))))))))"

section \<open>Revoking one credential\<close>

text \<open>The list's bits; encoding and packaging them is \<open>BitString.Encode\<close> and plain JSON.\<close>

definition handleStatusList :: "string \<Rightarrow> bit_string call" where
  "handleStatusList listId =
     andThen (check (listId \<noteq> ''default'') 404 ''status_list_not_found'') (\<lambda>_.
     andThen (or500 ''status_list_failed'' revocations_Revoked) (\<lambda>revoked.
     case set_slots revoked (NewBitString statusListSize) of
       Inl e \<Rightarrow> refuse 500 ''status_list_failed''
     | Inr bits \<Rightarrow> ret bits))"

definition handleAdminRevoke :: "server_config \<Rightarrow> string \<Rightarrow> string option \<Rightarrow> (int \<times> bool) call" where
  "handleAdminRevoke cfg auth body =
     andThen (check (\<not> adminAuthorized cfg auth) 401 ''unauthorized'') (\<lambda>_.
     andThen (decode_body body) (\<lambda>cid.
     andThen (check (trim_space cid = '''') 400 ''invalid_request'') (\<lambda>_.
     andThen (or500 ''revoke_failed'' (revocations_Revoke cid)) (\<lambda>r.
     case r of
       Inl e \<Rightarrow> (if e = ErrCredentialNotFound then refuse 404 ''credential_not_found'' else refuse 500 ''revoke_failed'')
     | Inr answer \<Rightarrow> ret answer))))"

section \<open>A voucher's credential\<close>

fun standing_anchor :: "time \<Rightarrow> string \<Rightarrow> verified_method list \<Rightarrow> string \<times> time" where
  "standing_anchor now a [] = ('''', 0)"
| "standing_anchor now a (vm # vms) =
     (if vm_MethodID vm = a \<and> (vm_FreshnessLifetime vm \<le> 0 \<or> sub_time now (vm_VerifiedAt vm) \<le> vm_FreshnessLifetime vm)
      then (vm_MethodID vm, vm_VerifiedAt vm) else standing_anchor now a vms)"

text \<open>\<open>None\<close> is JSON that is not a credential; \<open>Inl\<close> an invalid one.\<close>

definition VerifyVoucherCredential ::
  "server_config \<Rightarrow> credential option \<Rightarrow> time \<Rightarrow> (verifier_error + voucher_standing) call" where
  "VerifyVoucherCredential cfg raw now =
     (let invalid = Inl ErrVoucherCredentialInvalid in
      case raw of
        None \<Rightarrow> ret invalid
      | Some cred \<Rightarrow>
          if vc_Issuer cred \<noteq> cf_issuerDID cfg then ret invalid
          else if Verify (cf_crypto cfg) (cf_json cfg)
              (Some (MapResolver_Resolve (Some [cf_issuerDID cfg \<mapsto> cf_issuerPublicKey cfg]))) cred \<noteq> None then ret invalid
          else if \<not> now < vc_ExpirationDate cred then ret invalid
          else andThen (case vc_CredentialStatus cred of
              None \<Rightarrow> ret False
            | Some st \<Rightarrow> andThen revocations_Revoked (\<lambda>revoked. ret (st_StatusListIndex st \<in> set revoked))) (\<lambda>revoked.
            if revoked then ret invalid
            else (case Ed25519FromDIDKey (cs_ID (vc_CredentialSubject cred)) of
                None \<Rightarrow> ret invalid
              | Some pub \<Rightarrow>
                  andThen (if cf_holderRevocation cfg
                    then holders_Banned BanKindHolder (cs_ID (vc_CredentialSubject cred)) else ret False) (\<lambda>banned.
                  if banned then ret invalid
                  else (case (case cs_AnchorMethodID (vc_CredentialSubject cred) of
                      None \<Rightarrow> ('''', 0)
                    | Some a \<Rightarrow> standing_anchor now a (cs_VerifiedMethods (vc_CredentialSubject cred))) of
                      (mid, verified) \<Rightarrow> ret (Inr \<lparr>vs_DID = cs_ID (vc_CredentialSubject cred), vs_PublicKey = pub,
                        vs_AnchorMethodID = mid, vs_AnchorVerifiedAt = verified\<rparr>))))))"

end
