(* ===== verification/Issuance_Safety.thy ===== *)
theory Issuance_Safety
  imports Issuance
begin

text \<open>
  What issuance promises: a credential only goes to a holder and onto nullifiers that are not banned, it
  is on record and revocable before it is handed out, and a revoked holder stays out whatever else the
  issuer serves.
\<close>

section \<open>Calls that leave the bans alone\<close>

abbreviation bans_of :: "server_state \<Rightarrow> string \<rightharpoonup> ban_record" where
  "bans_of s \<equiv> hl_bans (ss_holders s)"

locale ban_frame =
  fixes I :: "server_state \<Rightarrow> bool"
  assumes same_bans: "I t \<Longrightarrow> bans_of u = bans_of t \<Longrightarrow> I u"
begin

lemma keeps_call: "(\<And>t. bans_of (snd (m t)) = bans_of t) \<Longrightarrow> keeps I (attempt m)"
  by (rule keeps_attempt) (erule same_bans, simp)+

lemma keeps_kv: "keeps I (getJSON ns i)" "keeps I (setJSON ns i d)"
  unfolding getJSON_def setJSON_def by (rule keeps_call; simp)+

lemma keeps_ledger_reads:
  "keeps I (holders_Banned k v)" "keeps I (holders_Issuances h)" "keeps I (holders_BanInfo k v)"
  "keeps I (holders_RecordIssuance h ir)"
  unfolding holders_Banned_def holders_Issuances_def holders_BanInfo_def holders_RecordIssuance_def
  by (rule keeps_call; simp add: ledger_RecordIssuance_def)+

lemma keeps_others:
  "keeps I (revocations_Revoke c)" "keeps I (revocations_Allocate rnd)" "keeps I (revocations_Bind idx c)"
  "keeps I revocations_Revoked" "keeps I (identifiers_Lookup key)" "keeps I (identifiers_resolve keys rand32)"
  "keeps I (inPerson_Penalize ip d now)" "keeps I (inPerson_Reinstate ip d)"
  "keeps I (inPerson_AnchorVouchers ip d now)" "keeps I (inPerson_VoucherDIDsFor d)"
  unfolding revocations_Revoke_def revocations_Allocate_def revocations_Bind_def revocations_Revoked_def
    identifiers_Lookup_def identifiers_resolve_def inPerson_Penalize_def inPerson_Reinstate_def
    inPerson_AnchorVouchers_def inPerson_VoucherDIDsFor_def
  by (rule keeps_call; simp add: case_prod_beta)+

lemma keeps_sessions:
  "keeps I (sessions_Get sid now)" "keeps I (sessions_RecordMethodResult sid res md now)"
  "keeps I (sessions_MarkIssued sid c now)" "keeps I (sessions_SetIdentifierKey sid kind key now)"
  "keeps I (sessions_Create cfg rand32 pub now)"
  using same_bans by (auto simp: keeps_def session_calls sessions_Create_def case_prod_beta)

lemmas keeps_calls = keeps keeps_kv keeps_ledger_reads keeps_others keeps_sessions

lemma keeps_lockout:
  "keeps I (session_or_404 sid now)" "keeps I (faceMatch cfg sid)" "keeps I (faceMatchDeclined cfg sid)"
  "keeps I (activeRecoveryFor cfg h)" "keeps I (holderOf cfg key)" "keeps I (recovery i)"
  unfolding session_or_404_def faceMatch_def faceMatchDeclined_def activeRecoveryFor_def holderOf_def recovery_def
  by (intro keeps_calls)+

lemma keeps_decline: "keeps I (handleFaceMatchDecline cfg body now)"
  unfolding handleFaceMatchDecline_def putFaceMatch_def by (intro keeps_calls keeps_lockout)

lemma keeps_checks:
  "keeps I (session_nullifier cfg view rand32)" "keeps I (sessionNullifierCommitments cfg view nb w rand32)"
  "keeps I (checkHolderBans h cs)" "keeps I (lockoutIssuanceCheck cfg view)"
  unfolding session_nullifier_def sessionNullifierCommitments_def checkHolderBans_def lockoutIssuanceCheck_def faceMatchOthers_def
  by (intro keeps_calls keeps_lockout)+

lemma keeps_record: "keeps I (record_issuance cfg view cred cs now)"
  unfolding record_issuance_def lockoutRecordIssuance_def setHolderOf_def addIdentityLinks_def addFaceMatchOther_def
  by (intro keeps_calls keeps_lockout)

lemma keeps_issue: "keeps I (handleIssueCredential cfg body rand32 rnd now)"
  unfolding handleIssueCredential_def issuance_checks_def by (intro keeps_calls keeps_lockout keeps_checks keeps_record)

lemma keeps_enroll: "keeps I (handleStartEnrollment cfg req rand32 now)" "keeps I (handleGetSession sid now)"
  "keeps I (handleAdminRevoke cfg auth cid)"
  unfolding handleStartEnrollment_def declared_key_def handleGetSession_def handleAdminRevoke_def
  by (intro keeps_calls keeps_lockout)+

lemma keeps_recordVerified: "keeps I (recordVerified cfg sid mid res md now)"
  unfolding recordVerified_def by (intro keeps_calls)

lemma keeps_complete_method:
  assumes "\<And>mid cc resp. keeps I (ceremony mid cc resp)"
  shows "keeps I (handleCompleteMethod cfg ceremony mid req ip now)" "keeps I (handleEmailMagicLink cfg ceremony sid token m0 now)"
  unfolding handleCompleteMethod_def route_result_def routeFaceMatch_def checkDeclinedVouches_def session_after_def
    handleEmailMagicLink_def
  by (intro keeps_calls keeps_lockout keeps_recordVerified assms)+

lemma keeps_openRecovery: "keeps I (startRecovery cfg old new c factors rand16 now)"
  unfolding startRecovery_def openRecovery_def open_in_limits_def record_opening_def setRecovery_def setHistory_def
    history_def current_recovery_def
  by (intro keeps_calls keeps_lockout)

lemma keeps_recovery_start: "keeps I (handleRecoveryStart cfg body rand16 now)"
  unfolding handleRecoveryStart_def recoveryFactors_def identityLinks_def proves_identifier_def
  by (intro keeps_calls keeps_lockout keeps_openRecovery)

lemma keeps_closeRecovery: "keeps I (closeRecovery cfg i status who now)"
  unfolding closeRecovery_def history_def setHistory_def by (intro keeps_calls keeps_lockout)

lemma keeps_close_answer:
  "keeps I (case r of Inl errRecoveryClosed \<Rightarrow> refuse 409 ''recovery_closed''
     | Inl errRecoveryNotFound \<Rightarrow> refuse 500 ''store_failed'' | Inr d \<Rightarrow> ret (f d))"
  by (auto intro!: keeps split: sum.split close_error.split)

lemma keeps_recovery_cancel: "keeps I (handleRecoveryCancel cfg i breq now)"
  unfolding handleRecoveryCancel_def by (intro keeps_calls keeps_lockout keeps_closeRecovery keeps_close_answer)

end

text \<open>A predicate that further bans do not break either.\<close>

locale ban_growth = ban_frame +
  assumes more_bans: "I t \<Longrightarrow> k \<in> {BanKindHolder, BanKindNullifier} \<Longrightarrow> I (t\<lparr>ss_holders := snd (ledger_Ban (ss_holders t) k v rec)\<rparr>)"
begin

lemma keeps_ban: "k \<in> {BanKindHolder, BanKindNullifier} \<Longrightarrow> keeps I (holders_Ban k v rec)"
  unfolding holders_Ban_def
  by (rule keeps_attempt) (erule same_bans, simp, simp add: case_prod_beta more_bans)

lemma keeps_revoke: "keeps I (revokeHolder cfg h rec now)"
  by (rule keeps_revokeHolder) (auto intro: same_bans more_bans)

lemma keeps_revoke_handlers:
  "keeps I (handleEquivocation cfg proof now)" "keeps I (handleAdminRevokeHolder cfg auth rq now)"
  unfolding handleEquivocation_def handleAdminRevokeHolder_def by (intro keeps_calls keeps_revoke)+

lemma keeps_retire: "keeps I (retireRecoveredHolder old now)"
  unfolding retireRecoveredHolder_def revoke_issued_def by (intro keeps_calls keeps_ban) simp

lemma keeps_recovery_complete: "keeps I (handleRecoveryComplete cfg i body now)"
  unfolding handleRecoveryComplete_def
  by (intro keeps_calls keeps_lockout keeps_closeRecovery keeps_close_answer keeps_retire)

end

interpretation same_bans: ban_frame "\<lambda>t. bans_of t = B" for B
  by unfold_locales simp

lemma ban_stays: "ledger_Banned l k v \<Longrightarrow> ledger_Banned (snd (ledger_Ban l k' v' rec)) k v"
  by (auto simp: ledger_Banned_def ledger_Ban_def split: option.splits)

interpretation stays_banned: ban_growth "\<lambda>t. ledger_Banned (ss_holders t) k v" for k v
  by unfold_locales (simp add: ledger_Banned_def, simp add: ban_stays)

section \<open>Steps of the issuer\<close>

text \<open>
  Every request the issuer serves, except an operator's reinstatement, in any order and with any store
  failing; a plugin's ceremony and everything outside these handlers leave the ban list as it is.
\<close>

inductive server_step :: "server_config \<Rightarrow> server_state \<Rightarrow> server_state \<Rightarrow> bool" for cfg where
  srv_enroll: "handleStartEnrollment cfg req rand32 now s = (r1, s') \<Longrightarrow> server_step cfg s s'"
| srv_session: "handleGetSession sid now s = (r2, s') \<Longrightarrow> server_step cfg s s'"
| srv_complete: "(\<And>B mid cc resp. keeps (\<lambda>t. bans_of t = B) (ceremony mid cc resp)) \<Longrightarrow>
     handleCompleteMethod cfg ceremony mid creq ip now s = (r3, s') \<Longrightarrow> server_step cfg s s'"
| srv_magic_link: "(\<And>B mid cc resp. keeps (\<lambda>t. bans_of t = B) (ceremony mid cc resp)) \<Longrightarrow>
     handleEmailMagicLink cfg ceremony sid token m0 now s = (r4, s') \<Longrightarrow> server_step cfg s s'"
| srv_issue: "handleIssueCredential cfg ireq rand32 rnd now s = (r5, s') \<Longrightarrow> server_step cfg s s'"
| srv_revoke: "handleAdminRevoke cfg auth cid s = (r6, s') \<Longrightarrow> server_step cfg s s'"
| srv_equivocation: "handleEquivocation cfg proof now s = (r7, s') \<Longrightarrow> server_step cfg s s'"
| srv_revoke_holder: "handleAdminRevokeHolder cfg auth hreq now s = (r8, s') \<Longrightarrow> server_step cfg s s'"
| srv_decline: "handleFaceMatchDecline cfg dreq now s = (r9, s') \<Longrightarrow> server_step cfg s s'"
| srv_recovery_start: "handleRecoveryStart cfg sreq rand16 now s = (r10, s') \<Longrightarrow> server_step cfg s s'"
| srv_operator_start: "startRecovery cfg old new c factors rand16 now s = (r11, s') \<Longrightarrow> server_step cfg s s'"
| srv_recovery_cancel: "handleRecoveryCancel cfg i xreq now s = (r12, s') \<Longrightarrow> server_step cfg s s'"
| srv_recovery_complete: "handleRecoveryComplete cfg i kreq now s = (r13, s') \<Longrightarrow> server_step cfg s s'"
| srv_other: "bans_of s' = bans_of s \<Longrightarrow> server_step cfg s s'"

inductive server_run :: "server_config \<Rightarrow> server_state \<Rightarrow> server_state \<Rightarrow> bool" for cfg where
  srv_refl: "server_run cfg s s"
| srv_next: "server_run cfg s t \<Longrightarrow> server_step cfg t u \<Longrightarrow> server_run cfg s u"

lemma keeps_bans_banned:
  assumes "\<And>B. keeps (\<lambda>t. bans_of t = B) m"
  shows "keeps (\<lambda>t. ledger_Banned (ss_holders t) k v) m"
  using assms by (auto simp: keeps_def ledger_Banned_def)

lemma step_banned:
  assumes "server_step cfg s s'" "ledger_Banned (ss_holders s) k v"
  shows "ledger_Banned (ss_holders s') k v"
  using assms
proof cases
  case (srv_complete ceremony mid creq ip now r3)
  then show ?thesis
    using keepsD [OF stays_banned.keeps_complete_method(1) assms(2)] keeps_bans_banned by blast
next
  case (srv_magic_link ceremony sid token m0 now r4)
  then show ?thesis
    using keepsD [OF stays_banned.keeps_complete_method(2) assms(2)] keeps_bans_banned by blast
next
  case srv_other
  then show ?thesis using assms(2) by (simp add: ledger_Banned_def)
qed (blast intro: keepsD [OF stays_banned.keeps_enroll(1) assms(2)] keepsD [OF stays_banned.keeps_enroll(2) assms(2)]
   keepsD [OF stays_banned.keeps_enroll(3) assms(2)] keepsD [OF stays_banned.keeps_issue assms(2)]
   keepsD [OF stays_banned.keeps_revoke_handlers(1) assms(2)] keepsD [OF stays_banned.keeps_revoke_handlers(2) assms(2)]
   keepsD [OF stays_banned.keeps_decline assms(2)] keepsD [OF stays_banned.keeps_recovery_start assms(2)]
   keepsD [OF stays_banned.keeps_openRecovery assms(2)] keepsD [OF stays_banned.keeps_recovery_cancel assms(2)]
   keepsD [OF stays_banned.keeps_recovery_complete assms(2)])+

lemma run_banned:
  assumes "server_run cfg s s'" "ledger_Banned (ss_holders s) k v"
  shows "ledger_Banned (ss_holders s') k v"
  using assms by induction (auto intro: step_banned)

section \<open>What issuance checks and records\<close>

lemma wp_same_bans: "keeps (\<lambda>t. bans_of t = B) m \<Longrightarrow> bans_of s = B \<Longrightarrow> wp m (\<lambda>_ t. bans_of t = B) (\<lambda>_ _. True) s"
  unfolding keeps_wp by (blast intro: wp_mono)

lemma wp_seq_bans:
  "keeps (\<lambda>t. bans_of t = B) m \<Longrightarrow> bans_of s = B \<Longrightarrow> (\<And>a t. bans_of t = B \<Longrightarrow> wp (f a) Q (\<lambda>_ _. True) t) \<Longrightarrow>
     wp (andThen m f) Q (\<lambda>_ _. True) s"
  by (rule wp_step [OF wp_same_bans]) auto

definition banned_in :: "(string \<rightharpoonup> ban_record) \<Rightarrow> string \<Rightarrow> string \<Rightarrow> bool" where
  "banned_in B k v \<longleftrightarrow> B (ban_key k v) \<noteq> None"

lemma wp_Banned:
  "bans_of s = B \<Longrightarrow> wp (holders_Banned k v) (\<lambda>b t. b = banned_in B k v \<and> bans_of t = B) (\<lambda>_ _. True) s"
  unfolding holders_Banned_def by (rule wp_attempt) (simp_all add: ledger_Banned_def banned_in_def)

lemma wp_checkHolderBans:
  assumes "bans_of s = B"
  shows "wp (checkHolderBans h cs) (\<lambda>r t. bans_of t = B \<and> (r = None \<longrightarrow> \<not> banned_in B BanKindHolder h \<and>
     (\<forall>c \<in> set cs. \<not> banned_in B BanKindNullifier c))) (\<lambda>_ _. True) s"
  unfolding checkHolderBans_def
proof (rule wp_step [OF wp_Banned [OF assms]])
  fix b t assume b: "b = banned_in B BanKindHolder h \<and> bans_of t = B"
  have "wp (anyOf (holders_Banned BanKindNullifier) cs)
     (\<lambda>hit u. hit = list_ex (banned_in B BanKindNullifier) cs \<and> bans_of u = B) (\<lambda>_ _. True) t"
    by (rule wp_anyOf_read) (use b wp_Banned in auto)
  then show "wp (if b then ret (Some ''holder_revoked'')
     else andThen (anyOf (holders_Banned BanKindNullifier) cs) (\<lambda>hit.
       ret (if hit then Some ''nullifier_revoked'' else None)))
     (\<lambda>r t. bans_of t = B \<and> (r = None \<longrightarrow> \<not> banned_in B BanKindHolder h \<and>
        (\<forall>c \<in> set cs. \<not> banned_in B BanKindNullifier c))) (\<lambda>_ _. True) t"
    using b by (auto simp: wp list_ex_iff elim!: wp_mono split: if_splits)
qed simp

lemma add_commitment_in: "set out \<subseteq> set (add_commitment out b)" "\<And>nb. b = Some nb \<Longrightarrow> nb_Commitment nb \<in> set (add_commitment out b)"
  by (auto simp: add_commitment_def split: option.split)

lemma wp_commitments:
  assumes "bans_of s = B"
  shows "wp (sessionNullifierCommitments cfg view nb w rand32) (\<lambda>cs t. bans_of t = B \<and>
     (\<forall>n. nb = Some n \<longrightarrow> nb_Commitment n \<in> set cs)) (\<lambda>_ _. True) s"
proof -
  have in1: "nb_Commitment n \<in> set (add_commitment (add_commitment [] nb) h)" if "nb = Some n" for n h
    using add_commitment_in that by blast
  then have in2: "nb_Commitment n \<in> set (add_commitment (add_commitment (add_commitment [] nb) h) b)" if "nb = Some n" for n h b
    using add_commitment_in(1) that by blast
  show ?thesis
    unfolding sessionNullifierCommitments_def
    using assms in1 in2 by (auto simp: wp Let_def identifiers_resolve_def case_prod_beta intro!: wp_attempt split: sum.split)
qed

text \<open>The commitments that passed all checks.\<close>

lemma wp_issuance_checks:
  assumes "bans_of s = B" "cf_holderRevocation cfg"
  shows "wp (issuance_checks cfg view nb rand32) (\<lambda>cs t. bans_of t = B \<and> (\<forall>n. nb = Some n \<longrightarrow> nb_Commitment n \<in> set cs) \<and>
     \<not> banned_in B BanKindHolder (sv_HolderDID view) \<and> (\<forall>c \<in> set cs. \<not> banned_in B BanKindNullifier c)) (\<lambda>_ _. True) s"
  unfolding issuance_checks_def
proof (rule wp_step [where R = "\<lambda>cs t. bans_of t = B \<and> (\<forall>n. nb = Some n \<longrightarrow> nb_Commitment n \<in> set cs) \<and>
     \<not> banned_in B BanKindHolder (sv_HolderDID view) \<and> (\<forall>c \<in> set cs. \<not> banned_in B BanKindNullifier c)"
     and E' = "\<lambda>_ _. True"])
  have "wp (andThen (or500 ''identifier_seed_failed'' (sessionNullifierCommitments cfg view nb
           (selfieCommitment (sv_VerifiedMethods view) \<noteq> '''') rand32)) (\<lambda>commitments.
         andThen (or500 ''ban_check_failed'' (checkHolderBans (sv_HolderDID view) commitments)) (\<lambda>banned.
         case banned of
           Some code \<Rightarrow> throw (Refused (writeErrorNext 403 code (appealStepIfLockout cfg) []))
         | None \<Rightarrow> ret commitments)))
     (\<lambda>cs t. bans_of t = B \<and> (\<forall>n. nb = Some n \<longrightarrow> nb_Commitment n \<in> set cs) \<and>
     \<not> banned_in B BanKindHolder (sv_HolderDID view) \<and> (\<forall>c \<in> set cs. \<not> banned_in B BanKindNullifier c)) (\<lambda>_ _. True) s"
    unfolding or500_def wp_andThen wp_onError
    by (rule wp_mono [OF wp_commitments [OF assms(1)]], rule wp_mono [OF wp_checkHolderBans])
      (auto simp: wp split: option.split)
  then show "wp (if \<not> cf_holderRevocation cfg then ret []
       else andThen (or500 ''identifier_seed_failed'' (sessionNullifierCommitments cfg view nb
           (selfieCommitment (sv_VerifiedMethods view) \<noteq> '''') rand32)) (\<lambda>commitments.
         andThen (or500 ''ban_check_failed'' (checkHolderBans (sv_HolderDID view) commitments)) (\<lambda>banned.
         case banned of
           Some code \<Rightarrow> throw (Refused (writeErrorNext 403 code (appealStepIfLockout cfg) []))
         | None \<Rightarrow> ret commitments)))
     (\<lambda>cs t. bans_of t = B \<and> (\<forall>n. nb = Some n \<longrightarrow> nb_Commitment n \<in> set cs) \<and>
     \<not> banned_in B BanKindHolder (sv_HolderDID view) \<and> (\<forall>c \<in> set cs. \<not> banned_in B BanKindNullifier c)) (\<lambda>_ _. True) s"
    using assms(2) by simp
next
  fix cs and t :: server_state
  assume a: "bans_of t = B \<and> (\<forall>n. nb = Some n \<longrightarrow> nb_Commitment n \<in> set cs) \<and>
     \<not> banned_in B BanKindHolder (sv_HolderDID view) \<and> (\<forall>c \<in> set cs. \<not> banned_in B BanKindNullifier c)"
  show "wp (andThen (if cf_lockout cfg = None then ret None
       else or500 ''issuance_check_failed'' (lockoutIssuanceCheck cfg view)) (\<lambda>refused.
     case refused of Some r \<Rightarrow> throw (Refused r) | None \<Rightarrow> ret cs))
     (\<lambda>cs t. bans_of t = B \<and> (\<forall>n. nb = Some n \<longrightarrow> nb_Commitment n \<in> set cs) \<and>
     \<not> banned_in B BanKindHolder (sv_HolderDID view) \<and> (\<forall>c \<in> set cs. \<not> banned_in B BanKindNullifier c)) (\<lambda>_ _. True) t"
    by (rule wp_seq_bans [where B = B], intro same_bans.keeps_calls same_bans.keeps_checks)
      (use a in \<open>auto simp: wp split: option.split\<close>)
qed simp

text \<open>What is on record for a credential that was handed out.\<close>

definition issuance_on_record :: "(string \<rightharpoonup> ban_record) \<Rightarrow> credential \<Rightarrow> server_state \<Rightarrow> bool" where
  "issuance_on_record B cred t \<longleftrightarrow> (let subj = vc_CredentialSubject cred in
     \<not> banned_in B BanKindHolder (cs_ID subj) \<and>
     (\<exists>ir \<in> set (ledger_Issuances (ss_holders t) (cs_ID subj)). ir_CredentialID ir = vc_ID cred \<and>
        (\<forall>nb. cs_NullifierBinding subj = Some nb \<longrightarrow> nb_Commitment nb \<in> set (ir_NullifierCommitments ir)) \<and>
        (\<forall>c \<in> set (ir_NullifierCommitments ir). \<not> banned_in B BanKindNullifier c)) \<and>
     (\<exists>idx. rv_byCred (ss_revocations t) (vc_ID cred) = Some idx \<and>
        (\<forall>st. vc_CredentialStatus cred = Some st \<longrightarrow> st_StatusListIndex st = idx)))"

lemma issuance_on_record_cong:
  "issuance_on_record B cred t \<Longrightarrow> ss_holders u = ss_holders t \<Longrightarrow> ss_revocations u = ss_revocations t \<Longrightarrow>
     issuance_on_record B cred u"
  by (simp add: issuance_on_record_def)

lemma keeps_on_record:
  "keeps (issuance_on_record B cred) (lockoutRecordIssuance cfg view cs now)"
  "keeps (issuance_on_record B cred) (sessions_MarkIssued sid c now)"
proof -
  have kv: "keeps (issuance_on_record B cred) (getJSON ns i)" "keeps (issuance_on_record B cred) (setJSON ns i d)" for ns i d
    unfolding getJSON_def setJSON_def by (rule keeps_attempt; erule issuance_on_record_cong; simp)+
  show "keeps (issuance_on_record B cred) (lockoutRecordIssuance cfg view cs now)"
    unfolding lockoutRecordIssuance_def setHolderOf_def addIdentityLinks_def addFaceMatchOther_def
      faceMatchDeclined_def faceMatch_def
    by (intro keeps kv)
  show "keeps (issuance_on_record B cred) (sessions_MarkIssued sid c now)"
    by (auto simp: keeps_def sessions_MarkIssued_def case_prod_beta elim: issuance_on_record_cong)
qed

lemma wp_on_record:
  "issuance_on_record B cred s \<Longrightarrow> keeps (issuance_on_record B cred) m \<Longrightarrow>
     (\<And>a t. issuance_on_record B cred t \<Longrightarrow> wp (f a) Q (\<lambda>_ _. True) t) \<Longrightarrow> wp (andThen m f) Q (\<lambda>_ _. True) s"
  unfolding wp_andThen keeps_wp by (blast intro: wp_mono)

lemma wp_record_issuance:
  assumes "cf_holderRevocation cfg"
    and "Issue cr js io (sv_HolderDID view) ms anchor nb now e (Some idx) = Inr cred"
    and "\<not> banned_in B BanKindHolder (sv_HolderDID view)" "\<forall>c \<in> set cs. \<not> banned_in B BanKindNullifier c"
      "\<forall>n. nb = Some n \<longrightarrow> nb_Commitment n \<in> set cs" "rv_byCred (ss_revocations s) (vc_ID cred) = Some idx"
  shows "wp (record_issuance cfg view cred cs now) (\<lambda>_. issuance_on_record B cred) (\<lambda>_ _. True) s"
proof -
  have c: "cs_ID (vc_CredentialSubject cred) = sv_HolderDID view" "cs_NullifierBinding (vc_CredentialSubject cred) = nb"
    "\<forall>st. vc_CredentialStatus cred = Some st \<longrightarrow> st_StatusListIndex st = idx"
    using assms(2) by (auto simp: Issue_Inr unsigned_credential_def split: if_splits)
  have "wp (holders_RecordIssuance (sv_HolderDID view) \<lparr>ir_CredentialID = vc_ID cred, ir_NullifierCommitments = cs, ir_IssuedAt = now\<rparr>)
     (\<lambda>_. issuance_on_record B cred) (\<lambda>_ _. True) s"
    unfolding holders_RecordIssuance_def by (rule wp_attempt) (use assms(3-6) c in \<open>auto simp: issuance_on_record_def\<close>)
  moreover have "keeps (issuance_on_record B cred) (if cf_lockout cfg = None then ret ()
      else or500 ''issuance_record_failed'' (lockoutRecordIssuance cfg view cs now))"
    by (intro keeps keeps_on_record)
  ultimately show ?thesis
    unfolding record_issuance_def keeps_wp using assms(1) by (auto simp: wp elim!: wp_mono)
qed

lemma wp_handleIssueCredential:
  assumes "cf_holderRevocation cfg" "bans_of s = B"
  shows "wp (handleIssueCredential cfg body rand32 rnd now) (issuance_on_record B) (\<lambda>_ _. True) s"
  unfolding handleIssueCredential_def
proof (rule wp_seq_bans [OF _ assms(2)], (intro same_bans.keeps_calls)[1],
    rule wp_seq_bans, (intro same_bans.keeps_lockout)[1], assumption,
    rule wp_seq_bans, (intro same_bans.keeps_calls)[1], assumption,
    rule wp_seq_bans, (intro same_bans.keeps_calls)[1], assumption,
    rule wp_seq_bans, (intro same_bans.keeps_calls)[1], assumption,
    rule wp_seq_bans, (intro same_bans.keeps_checks)[1], assumption,
    rule wp_step [OF wp_issuance_checks], assumption, rule assms(1), simp)
  fix req and view :: session_view and nb :: "nullifier_binding option" and cs and t :: server_state
  assume a: "bans_of t = B \<and> (\<forall>n. nb = Some n \<longrightarrow> nb_Commitment n \<in> set cs) \<and>
     \<not> banned_in B BanKindHolder (sv_HolderDID view) \<and> (\<forall>c \<in> set cs. \<not> banned_in B BanKindNullifier c)"
  have fin: "wp (andThen (or500 ''status_slot_failed'' (revocations_Bind idx (vc_ID cred))) (\<lambda>_.
      andThen (record_issuance cfg view cred cs now) (\<lambda>_.
      andThen (sessions_MarkIssued (iq_SessionID req) (vc_ID cred) now) (\<lambda>err.
      case err of None \<Rightarrow> ret cred
      | Some e \<Rightarrow> refuse (if e = ErrSessionAlreadyIssued then 409 else 500) ''mark_issued_failed''))))
      (issuance_on_record B) (\<lambda>_ _. True) u"
    if "Issue cr js io (sv_HolderDID view) ms anchor nb now e (Some idx) = Inr cred" for cr js io ms anchor e idx cred u
  proof (rule wp_step)
    show "wp (or500 ''status_slot_failed'' (revocations_Bind idx (vc_ID cred)))
       (\<lambda>_ t. rv_byCred (ss_revocations t) (vc_ID cred) = Some idx) (\<lambda>_ _. True) u"
      unfolding revocations_Bind_def wp_or500 by (rule wp_attempt) (simp_all add: revocation_Bind_def)
  next
    fix t :: server_state assume bound: "rv_byCred (ss_revocations t) (vc_ID cred) = Some idx"
    show "wp (andThen (record_issuance cfg view cred cs now) (\<lambda>_.
      andThen (sessions_MarkIssued (iq_SessionID req) (vc_ID cred) now) (\<lambda>err.
      case err of None \<Rightarrow> ret cred
      | Some e \<Rightarrow> refuse (if e = ErrSessionAlreadyIssued then 409 else 500) ''mark_issued_failed'')))
      (issuance_on_record B) (\<lambda>_ _. True) t"
      by (rule wp_step [OF wp_record_issuance [OF assms(1) that _ _ _ bound, of B]], use a in blast, use a in blast, use a in blast,
          simp, rule wp_on_record, assumption, rule keeps_on_record) (simp add: wp split: option.split)
  qed simp
  show "wp (andThen (or500 ''status_slot_failed'' (revocations_Allocate rnd)) (\<lambda>slot.
     case slot of
       Inl e \<Rightarrow> refuse 500 ''status_slot_failed''
     | Inr idx \<Rightarrow>
         (case Issue (cf_crypto cfg) (cf_json cfg) (cf_issuer cfg) (sv_HolderDID view) (sv_VerifiedMethods view)
             (sv_AnchorMethodID view) nb now (now + cf_credentialLifetime cfg) (Some idx) of
            Inl e \<Rightarrow> refuse 500 ''issue_failed''
          | Inr cred \<Rightarrow>
              andThen (or500 ''status_slot_failed'' (revocations_Bind idx (vc_ID cred))) (\<lambda>_.
              andThen (record_issuance cfg view cred cs now) (\<lambda>_.
              andThen (sessions_MarkIssued (iq_SessionID req) (vc_ID cred) now) (\<lambda>err.
              case err of
                None \<Rightarrow> ret cred
              | Some e \<Rightarrow> refuse (if e = ErrSessionAlreadyIssued then 409 else 500) ''mark_issued_failed''))))))
      (issuance_on_record B) (\<lambda>_ _. True) t"
    by (rule wp_step [where R = "\<lambda>_ _. True" and E' = "\<lambda>_ _. True"])
      (auto intro: wpI fin simp: wp_sum wp_refuse split: sum.split)
qed

section \<open>Properties\<close>

text \<open>C2: With holder revocation on, a credential is only handed out to a holder that is not banned and
  on nullifiers that are not banned; and before it leaves, the ledger holds a record of it under its holder
  that names the nullifier it is bound to, and the revocation store can find the slot its status entry
  names, so that a later cascade reaches it. This holds whichever store calls fail on the way.\<close>

theorem issued_only_to_unbanned:
  assumes "cf_holderRevocation cfg" "handleIssueCredential cfg body rand32 rnd now s = (Inr cred, s')"
  shows "issuance_on_record (hl_bans (ss_holders s)) cred s'"
  using wp_result [OF assms(2) wp_handleIssueCredential [OF assms(1) refl]] .

text \<open>C1: A revoked holder stays out. Once the cascade has returned, whatever requests the issuer then
  serves in whatever order and with whatever stores failing, short of an operator's reinstatement, no
  credential is issued to that holder's key again, and none to any key on a nullifier the holder ever
  touched.\<close>

theorem revoked_never_reissued:
  assumes "ranges_all cfg" "cf_holderRevocation cfg"
    and "revokeHolder cfg holder rec now0 s0 = (Inr report, s1)" "server_run cfg s1 s2"
    and "handleIssueCredential cfg body rand32 rnd now s2 = (Inr cred, s3)"
  shows "cs_ID (vc_CredentialSubject cred) \<noteq> holder \<and>
     (\<forall>nb. cs_NullifierBinding (vc_CredentialSubject cred) = Some nb \<longrightarrow>
        nb_Commitment nb \<notin> set (touched_nullifiers cfg holder (ledger_Issuances (ss_holders s1) holder)))"
proof -
  have "holder_retired cfg holder (ss_holders s1) (ss_revocations s1)"
    using wp_result [OF assms(3) revokeHolder_retires [OF assms(1)]] .
  then have b: "ledger_Banned (ss_holders s2) BanKindHolder holder"
    "\<And>c. c \<in> set (touched_nullifiers cfg holder (ledger_Issuances (ss_holders s1) holder)) \<Longrightarrow>
       ledger_Banned (ss_holders s2) BanKindNullifier c"
    using run_banned [OF assms(4)] by (auto simp: holder_retired_def)
  have "issuance_on_record (hl_bans (ss_holders s2)) cred s3"
    using wp_result [OF assms(5) wp_handleIssueCredential [OF assms(2) refl]] .
  then show ?thesis
    using b unfolding issuance_on_record_def banned_in_def ledger_Banned_def Let_def by metis
qed

end
