(* ===== verification/Recovery_Machine.thy ===== *)
theory Recovery_Machine
  imports Recovery
begin

text \<open>
  The specification of recoveries, a machine on the recovery documents and the histories of the
  identities, and the proof that the handlers implement it, also when the store fails between two
  writes. The properties of recoveries are then invariants of the machine.
\<close>

section \<open>The machine\<close>

definition rec_at :: "server_state \<Rightarrow> string \<rightharpoonup> recovery_doc" where
  "rec_at s = (\<lambda>i. map_option as_recovery (memKV_get (ss_kv s) nsRecoveries i))"

definition hist_at :: "server_state \<Rightarrow> string \<Rightarrow> recovery_history" where
  "hist_at s = (\<lambda>k. history_of (memKV_get (ss_kv s) nsRecoveryHistory k))"

text \<open>Who may close a pending recovery, and when.\<close>

definition may_close :: "server_config \<Rightarrow> string \<Rightarrow> recovery_doc \<Rightarrow> string \<Rightarrow> string \<Rightarrow> time \<Rightarrow> bool" where
  "may_close cfg i d status who now \<longleftrightarrow>
     status = RecoveryCompleted \<and> who = ''new_key'' \<and> rd_ExecutesAt d \<le> now
   \<or> status = RecoveryCancelled \<and> (\<exists>holder sig. (holder = rd_OldHolder d \<and> who = ''old_key'' \<or> holder = rd_NewHolder d \<and> who = ''new_key'')
       \<and> verifyDIDSignature (cf_crypto cfg) holder (RecoveryCancelMessage (cf_issuerDID cfg) i) sig)"

text \<open>No recovery of the identity is in progress, and its limits allow another one.\<close>

definition may_open :: "server_config \<Rightarrow> (string \<rightharpoonup> recovery_doc) \<Rightarrow> recovery_history \<Rightarrow> recovery_doc \<Rightarrow> bool" where
  "may_open cfg R h d \<longleftrightarrow>
     (\<forall>cur. rh_Active h \<noteq> '''' \<longrightarrow> R (rh_Active h) = Some cur \<longrightarrow> rd_Status cur \<noteq> RecoveryPending) \<and>
     (by_operator d \<or>
       (let cutoff = rd_CreatedAt d - lc_RecoveryCooldown (cfgLockout cfg) in
        (\<forall>t \<in> set (rh_Completed h). t \<le> cutoff) \<and>
        int (length (filter (\<lambda>t. t > cutoff) (rh_Cancelled h))) < lc_MaxCancelledRecoveries (cfgLockout cfg)))"

definition opened_history :: "server_config \<Rightarrow> recovery_history \<Rightarrow> recovery_doc \<Rightarrow> recovery_history" where
  "opened_history cfg h d = (let cutoff = rd_CreatedAt d - lc_RecoveryCooldown (cfgLockout cfg) in
     \<lparr>rh_Active = rd_ID d, rh_Completed = filter (\<lambda>t. t > cutoff) (rh_Completed h),
      rh_Cancelled = filter (\<lambda>t. t > cutoff) (rh_Cancelled h)\<rparr>)"

text \<open>\<open>ok\<close>: no store call fails. Otherwise the document may be written without its history.\<close>

inductive recovery_move ::
  "server_config \<Rightarrow> bool \<Rightarrow> time \<Rightarrow> (string \<rightharpoonup> recovery_doc) \<times> (string \<Rightarrow> recovery_history)
     \<Rightarrow> (string \<rightharpoonup> recovery_doc) \<times> (string \<Rightarrow> recovery_history) \<Rightarrow> bool" for cfg ok now where
  move_stay: "recovery_move cfg ok now a a"
| move_open: "R (rd_ID d) = None \<Longrightarrow> rd_ID d \<noteq> '''' \<Longrightarrow> rd_Status d = RecoveryPending \<Longrightarrow> rd_CreatedAt d = now \<Longrightarrow>
     rd_ExecutesAt d = now + lc_RecoveryDelay (cfgLockout cfg) \<Longrightarrow> k = hashed cfg (rd_Commitment d) \<Longrightarrow>
     may_open cfg R (H k) d \<Longrightarrow> H' = H(k := opened_history cfg (H k) d) \<or> \<not> ok \<and> H' = H \<Longrightarrow>
     recovery_move cfg ok now (R, H) (R(rd_ID d \<mapsto> d), H')"
| move_close: "R i = Some d \<Longrightarrow> rd_Status d = RecoveryPending \<Longrightarrow> may_close cfg i d status who now \<Longrightarrow>
     k = hashed cfg (rd_Commitment d) \<Longrightarrow> H' = H(k := closed_history (H k) i status now) \<or> \<not> ok \<and> H' = H \<Longrightarrow>
     recovery_move cfg ok now (R, H)
       (R(i \<mapsto> d\<lparr>rd_Status := status, rd_ClosedAt := now, rd_ClosedBy := who\<rparr>), H')"

inductive_cases recovery_moveE [consumes 1, case_names stay opens closes]: "recovery_move cfg ok now (R, H) (R', H')"

section \<open>Calls that do not touch recoveries\<close>

text \<open>A predicate that only looks at recoveries, histories and whether stores are still answering.\<close>

locale recovery_frame =
  fixes I :: "server_state \<Rightarrow> bool"
  assumes calm: "I t \<Longrightarrow> rec_at u = rec_at t \<Longrightarrow> hist_at u = hist_at t \<Longrightarrow> (ss_faults t = [] \<Longrightarrow> ss_faults u = []) \<Longrightarrow> I u"
begin

lemma keeps_call:
  assumes "\<And>t. rec_at (snd (m t)) = rec_at t \<and> hist_at (snd (m t)) = hist_at t \<and> ss_faults (snd (m t)) = ss_faults t"
  shows "keeps I (attempt m)"
proof -
  have "I (snd (attempt m s))" if "I s" for s
  proof (cases "ss_faults s")
    case Nil
    then show ?thesis using calm [OF that, of "snd (m s)"] assms [of s] by (simp add: attempt_def case_prod_beta)
  next
    case (Cons f fs)
    let ?s = "s\<lparr>ss_faults := fs\<rparr>"
    have "I ?s" "I (snd (m ?s))"
      using calm [OF that, of ?s] calm [OF that, of "snd (m ?s)"] assms [of ?s] Cons by (auto simp: rec_at_def hist_at_def)
    then show ?thesis using Cons by (simp add: attempt_def case_prod_beta)
  qed
  then show ?thesis by (simp add: keeps_def)
qed

lemma keeps_set: "plain_ns ns \<Longrightarrow> ns \<noteq> nsRecoveries \<Longrightarrow> ns \<noteq> nsRecoveryHistory \<Longrightarrow> keeps I (setJSON ns i d)"
  unfolding setJSON_def by (rule keeps_call) (simp add: rec_at_def hist_at_def)

lemma keeps_get: "keeps I (getJSON ns i)"
  unfolding getJSON_def by (rule keeps_call) simp

lemma keeps_ledger:
  "keeps I (holders_Ban k v rec)" "keeps I (holders_Banned k v)" "keeps I (holders_Issuances h)"
  "keeps I (holders_BanInfo k v)" "keeps I (holders_Unban k v)" "keeps I (holders_RecordIssuance h ir)"
  unfolding holders_Ban_def holders_Banned_def holders_Issuances_def holders_BanInfo_def holders_Unban_def
    holders_RecordIssuance_def
  by (rule keeps_call; simp add: case_prod_beta rec_at_def hist_at_def)+

lemma keeps_others:
  "keeps I (revocations_Revoke c)" "keeps I (revocations_Allocate rnd)" "keeps I (revocations_Bind idx c)"
  "keeps I (identifiers_Lookup key)" "keeps I (identifiers_resolve keys rand32)"
  "keeps I (inPerson_Penalize ip d now)" "keeps I (inPerson_Reinstate ip d)"
  "keeps I (inPerson_AnchorVouchers ip d now)" "keeps I (inPerson_VoucherDIDsFor d)"
  unfolding revocations_Revoke_def revocations_Allocate_def revocations_Bind_def identifiers_Lookup_def
    identifiers_resolve_def inPerson_Penalize_def inPerson_Reinstate_def inPerson_AnchorVouchers_def
    inPerson_VoucherDIDsFor_def
  by (rule keeps_call; simp add: case_prod_beta rec_at_def hist_at_def)+

lemma keeps_sessions:
  "keeps I (sessions_Get sid now)" "keeps I (sessions_RecordMethodResult sid res md now)"
  "keeps I (sessions_MarkIssued sid c now)" "keeps I (sessions_SetIdentifierKey sid kind key now)"
  using calm by (auto simp: keeps_def session_calls case_prod_beta rec_at_def hist_at_def)

lemmas keeps_calls = keeps_get keeps_ledger keeps_others keeps_sessions

lemma keeps_session_or_404: "keeps I (session_or_404 sid now)"
  unfolding session_or_404_def by (intro keeps keeps_calls)

lemma keeps_recovery: "keeps I (recovery i)"
  unfolding recovery_def by (intro keeps keeps_calls)

lemma keeps_faceMatch: "keeps I (faceMatch cfg sid)"
  unfolding faceMatch_def by (intro keeps keeps_calls)

lemma keeps_holderOf: "keeps I (holderOf cfg key)"
  unfolding holderOf_def by (intro keeps keeps_calls)

lemma keeps_recoveryFactors: "keeps I (recoveryFactors cfg sess nb old now)"
  unfolding recoveryFactors_def identityLinks_def proves_identifier_def by (intro keeps keeps_calls)

lemma keeps_retire: "keeps I (retireRecoveredHolder old now)"
  unfolding retireRecoveredHolder_def revoke_issued_def by (intro keeps keeps_calls)

lemma wp_frame: "keeps I m \<Longrightarrow> I s \<Longrightarrow> (\<And>a t. I t \<Longrightarrow> Q a t) \<Longrightarrow> (\<And>e t. I t \<Longrightarrow> E e t) \<Longrightarrow> wp m Q E s"
  unfolding keeps_wp by (blast intro: wp_mono)

end

definition idle :: "server_state \<Rightarrow> server_state \<Rightarrow> bool" where
  "idle s0 t \<longleftrightarrow> rec_at t = rec_at s0 \<and> hist_at t = hist_at s0 \<and> (ss_faults s0 = [] \<longrightarrow> ss_faults t = [])"

definition moved :: "server_config \<Rightarrow> time \<Rightarrow> server_state \<Rightarrow> server_state \<Rightarrow> bool" where
  "moved cfg now s0 t \<longleftrightarrow>
     recovery_move cfg (ss_faults s0 = []) now (rec_at s0, hist_at s0) (rec_at t, hist_at t) \<and>
     (ss_faults s0 = [] \<longrightarrow> ss_faults t = [])"

interpretation at_rest: recovery_frame "idle s0" for s0
  by unfold_locales (auto simp: idle_def)

interpretation in_move: recovery_frame "moved cfg now s0" for cfg now s0
  by unfold_locales (auto simp: moved_def)

lemma idle_moved: "idle s0 t \<Longrightarrow> moved cfg now s0 t"
  by (simp add: idle_def moved_def move_stay)

lemma idle_refl [simp]: "idle s s"
  by (simp add: idle_def)

section \<open>The handlers implement the machine\<close>

lemma wp_attempt_faults:
  assumes "\<And>f fs. ss_faults s = f # fs \<Longrightarrow> E StoreErr (s\<lparr>ss_faults := fs\<rparr>)"
    and "\<And>fs. (ss_faults s = [] \<Longrightarrow> fs = []) \<Longrightarrow> Q (fst (m (s\<lparr>ss_faults := fs\<rparr>))) (snd (m (s\<lparr>ss_faults := fs\<rparr>)))"
  shows "wp (attempt m) Q E s"
proof (cases "ss_faults s")
  case Nil
  then have "s\<lparr>ss_faults := []\<rparr> = s" by (cases s) simp
  then show ?thesis using assms(2) [of "[]"] wp_attempt_ok [OF Nil, of m Q E] by simp
next
  case (Cons f fs)
  then show ?thesis using assms(1) [OF Cons] assms(2) [of fs] by (simp add: wp_def attempt_def case_prod_beta)
qed

lemma wp_recovery:
  assumes "idle s0 s"
  shows "wp (recovery i) (\<lambda>r t. idle s0 t \<and> r = rec_at s0 i) (\<lambda>_. idle s0) s"
  unfolding recovery_def getJSON_def wp_andThen wp_ret
  by (rule wp_attempt_faults) (use assms in \<open>auto simp: idle_def rec_at_def hist_at_def fun_eq_iff\<close>)

lemma wp_history:
  assumes "idle s0 s"
  shows "wp (history cfg c) (\<lambda>h t. idle s0 t \<and> h = hist_at s0 (hashed cfg c)) (\<lambda>_. idle s0) s"
  unfolding history_def getJSON_def wp_andThen wp_ret
  by (rule wp_attempt_faults) (use assms in \<open>auto simp: idle_def rec_at_def hist_at_def fun_eq_iff\<close>)

lemma wp_current_recovery:
  assumes "idle s0 s"
  shows "wp (current_recovery h) (\<lambda>r t. idle s0 t \<and> (r = None \<longrightarrow>
       (\<forall>cur. rh_Active h \<noteq> '''' \<longrightarrow> rec_at s0 (rh_Active h) = Some cur \<longrightarrow> rd_Status cur \<noteq> RecoveryPending)))
     (\<lambda>_. idle s0) s"
  unfolding current_recovery_def wp_if wp_ret wp_andThen
  using assms wp_mono [OF wp_recovery [OF assms, of "rh_Active h"]] by (auto split: option.splits if_splits)

text \<open>Between the two writes: the document is new, the history is not.\<close>

definition halfway :: "server_state \<Rightarrow> string \<Rightarrow> recovery_doc \<Rightarrow> server_state \<Rightarrow> bool" where
  "halfway s0 i d t \<longleftrightarrow> rec_at t = (rec_at s0)(i \<mapsto> d) \<and> hist_at t = hist_at s0 \<and> (ss_faults s0 = [] \<longrightarrow> ss_faults t = [])"

lemma wp_write_doc:
  assumes "idle s0 s"
  shows "wp (setJSON nsRecoveries i (RecoveryDoc d)) (\<lambda>_. halfway s0 i d) (\<lambda>_. idle s0) s"
  unfolding setJSON_def
  by (rule wp_attempt_faults) (use assms in \<open>auto simp: idle_def halfway_def rec_at_def hist_at_def fun_eq_iff\<close>)

lemma wp_write_history:
  assumes "halfway s0 i d s"
  shows "wp (setHistory cfg c h)
     (\<lambda>_ t. rec_at t = (rec_at s0)(i \<mapsto> d) \<and> hist_at t = (hist_at s0)(hashed cfg c := h) \<and> (ss_faults s0 = [] \<longrightarrow> ss_faults t = []))
     (\<lambda>_ t. halfway s0 i d t \<and> ss_faults s0 \<noteq> []) s"
  unfolding setHistory_def setJSON_def
  by (rule wp_attempt_faults)
    (use assms in \<open>auto simp: halfway_def rec_at_def hist_at_def history_of_def fun_eq_iff\<close>)

lemma pruneSince_filter: "pruneSince ts cutoff = filter (\<lambda>t. t > cutoff) ts"
  by (induction ts) auto

lemma record_opening_moves:
  assumes "idle s0 s" "recovery_move cfg True now (rec_at s0, hist_at s0)
      ((rec_at s0)(rd_ID d \<mapsto> d), (hist_at s0)(hashed cfg (rd_Commitment d) := h))"
    and "recovery_move cfg False now (rec_at s0, hist_at s0) ((rec_at s0)(rd_ID d \<mapsto> d), hist_at s0)"
  shows "wp (record_opening cfg d h) (\<lambda>_. moved cfg now s0) (\<lambda>_. moved cfg now s0) s"
proof -
  have more: "recovery_move cfg ok now a b" if "recovery_move cfg True now a b" for ok a b
    using that by (cases a, cases b) (auto elim!: recovery_moveE intro: recovery_move.intros)
  show ?thesis
    unfolding record_opening_def setRecovery_def
  proof (rule wp_step [OF wp_write_doc [OF assms(1)]], rule idle_moved, assumption,
      rule wp_step [OF wp_write_history], assumption)
    fix e t assume "halfway s0 (rd_ID d) d t \<and> ss_faults s0 \<noteq> []"
    then show "moved cfg now s0 t" using assms(3) by (simp add: halfway_def moved_def)
  next
    fix a b and t :: server_state
    assume "rec_at t = (rec_at s0)(rd_ID d \<mapsto> d) \<and> hist_at t = (hist_at s0)(hashed cfg (rd_Commitment d) := h) \<and>
      (ss_faults s0 = [] \<longrightarrow> ss_faults t = [])"
    then have "moved cfg now s0 t" using more [OF assms(2)] by (simp add: moved_def)
    then show "wp (forEach (\<lambda>k. setJSON nsRecoveryByKey (hashed cfg k) (PointerDoc (rd_ID d))) [rd_OldHolder d, rd_NewHolder d])
       (\<lambda>_. moved cfg now s0) (\<lambda>_. moved cfg now s0) t"
      by (rule in_move.wp_frame [rotated]) (assumption, assumption, intro keeps in_move.keeps_set, simp_all)
  qed
qed

lemma openRecovery_moves:
  assumes "idle s0 s" "rec_at s0 (rd_ID d) = None" "rd_ID d \<noteq> ''''" "rd_Status d = RecoveryPending"
    "rd_CreatedAt d = now" "rd_ExecutesAt d = now + lc_RecoveryDelay (cfgLockout cfg)"
  shows "wp (openRecovery cfg d) (\<lambda>_. moved cfg now s0) (\<lambda>_. moved cfg now s0) s"
  unfolding openRecovery_def
proof (rule wp_step [OF wp_history [OF assms(1)]], rule idle_moved, assumption,
    rule wp_step [OF wp_current_recovery], erule conjunct1, rule idle_moved, assumption)
  fix h and t u :: server_state and current :: "recovery_doc option"
  let ?k = "hashed cfg (rd_Commitment d)"
  assume h: "idle s0 t \<and> h = hist_at s0 ?k"
    and c: "idle s0 u \<and> (current = None \<longrightarrow> (\<forall>cur. rh_Active h \<noteq> '''' \<longrightarrow> rec_at s0 (rh_Active h) = Some cur \<longrightarrow>
        rd_Status cur \<noteq> RecoveryPending))"
  have m: "recovery_move cfg ok now (rec_at s0, hist_at s0) ((rec_at s0)(rd_ID d \<mapsto> d), H')"
    if "may_open cfg (rec_at s0) h d" "H' = (hist_at s0)(?k := opened_history cfg h d) \<or> \<not> ok \<and> H' = hist_at s0" for ok H'
    by (rule move_open [where k = ?k]) (use assms that h in auto)
  show "wp (case current of
       Some cur \<Rightarrow> ret (Some (writeErrorNext 409 ''recovery_pending'' [] [(''executes_at'', JTime (rd_ExecutesAt cur))]))
     | None \<Rightarrow> open_in_limits cfg d h) (\<lambda>_. moved cfg now s0) (\<lambda>_. moved cfg now s0) u"
  proof (cases current)
    case None
    let ?h = "opened_history cfg h d"
    show ?thesis
    proof (cases "may_open cfg (rec_at s0) h d")
      case True
      then have "wp (record_opening cfg d ?h) (\<lambda>_. moved cfg now s0) (\<lambda>_. moved cfg now s0) u"
        using c m by (intro record_opening_moves) auto
      then show ?thesis
        using None c idle_moved by (auto simp: open_in_limits_def wp Let_def pruneSince_filter opened_history_def)
    next
      case False
      then show ?thesis
        using None c idle_moved [of s0 u]
        by (auto simp: open_in_limits_def wp Let_def pruneSince_filter may_open_def filter_empty_conv not_less not_le)
    qed
  qed (use c idle_moved in \<open>auto simp: wp\<close>)
qed

lemma closeRecovery_moves:
  assumes "idle s0 s" "\<And>d. rec_at s0 i = Some d \<Longrightarrow> may_close cfg i d status who now"
  shows "wp (closeRecovery cfg i status who now)
     (\<lambda>r t. case r of Inl _ \<Rightarrow> idle s0 t | Inr d' \<Rightarrow> moved cfg now s0 t \<and> (\<exists>d. rec_at s0 i = Some d \<and>
         rd_Status d = RecoveryPending \<and> d' = d\<lparr>rd_Status := status, rd_ClosedAt := now, rd_ClosedBy := who\<rparr>))
     (\<lambda>_. moved cfg now s0) s"
  unfolding closeRecovery_def
proof (rule wp_step [OF wp_recovery [OF assms(1)]], rule idle_moved, assumption)
  fix found and t :: server_state
  assume t: "idle s0 t \<and> found = rec_at s0 i"
  let ?Q = "\<lambda>r t. case r of Inl _ \<Rightarrow> idle s0 t | Inr d' \<Rightarrow> moved cfg now s0 t \<and> (\<exists>d. rec_at s0 i = Some d \<and>
         rd_Status d = RecoveryPending \<and> d' = d\<lparr>rd_Status := status, rd_ClosedAt := now, rd_ClosedBy := who\<rparr>)"
  have closes: "wp (andThen (history cfg (rd_Commitment d')) (\<lambda>h.
        andThen (setJSON nsRecoveries i (RecoveryDoc d')) (\<lambda>_.
        andThen (setHistory cfg (rd_Commitment d') (closed_history h i status now)) (\<lambda>_. ret (Inr d'))))) ?Q
        (\<lambda>_. moved cfg now s0) t"
    if d: "rec_at s0 i = Some d" "rd_Status d = RecoveryPending"
      "d' = d\<lparr>rd_Status := status, rd_ClosedAt := now, rd_ClosedBy := who\<rparr>" for d d'
  proof -
    let ?k = "hashed cfg (rd_Commitment d)"
    have m: "recovery_move cfg ok now (rec_at s0, hist_at s0) ((rec_at s0)(i \<mapsto> d'), H')"
      if "H' = (hist_at s0)(?k := closed_history (hist_at s0 ?k) i status now) \<or> \<not> ok \<and> H' = hist_at s0" for ok H'
      unfolding d(3) by (rule move_close [where k = ?k]) (use assms(2) d that in auto)
    show ?thesis
      by (rule wp_step [OF wp_history], rule conjunct1 [OF t], rule idle_moved, assumption,
          rule wp_step [OF wp_write_doc], erule conjunct1, rule idle_moved, assumption,
          rule wp_step [OF wp_write_history], assumption)
        (use d m in \<open>auto simp: wp moved_def halfway_def\<close>)
  qed
  show "wp (case found of
       None \<Rightarrow> ret (Inl errRecoveryNotFound)
     | Some d0 \<Rightarrow>
         if rd_Status d0 \<noteq> RecoveryPending then ret (Inl errRecoveryClosed)
         else
           (let d = d0\<lparr>rd_Status := status, rd_ClosedAt := now, rd_ClosedBy := who\<rparr> in
            andThen (history cfg (rd_Commitment d)) (\<lambda>h.
            andThen (setJSON nsRecoveries i (RecoveryDoc d)) (\<lambda>_.
            andThen (setHistory cfg (rd_Commitment d) (closed_history h i status now)) (\<lambda>_.
            ret (Inr d)))))) ?Q (\<lambda>_. moved cfg now s0) t"
    using t closes by (auto simp: wp_ret Let_def split: option.split)
qed

lemma wp_at_rest: "keeps (idle s0) m \<Longrightarrow> idle s0 s \<Longrightarrow> wp m (\<lambda>_. idle s0) (\<lambda>_. idle s0) s"
  by (simp add: keeps_wp)

lemma startRecovery_moves:
  assumes "idle s0 s" "\<And>b. rnd = Some b \<Longrightarrow> length b = 16 \<and> rec_at s0 (hex_encode b) = None"
  shows "wp (startRecovery cfg old new c factors rnd now) (\<lambda>_. moved cfg now s0) (\<lambda>_. moved cfg now s0) s"
proof (cases rnd)
  case None
  then show ?thesis using assms(1) by (simp add: startRecovery_def newRecoveryID_def wp idle_moved)
next
  case (Some b)
  then have b: "hex_encode b \<noteq> ''''" "rec_at s0 (hex_encode b) = None"
    using assms(2) by (auto simp: hex_encode_def)
  show ?thesis
    unfolding startRecovery_def newRecoveryID_def Some Let_def option.map option.case or500_def
    by (rule wp_seq, simp only: wp_onError, rule openRecovery_moves [OF assms(1)])
      (use b in \<open>auto simp: wp split: option.split\<close>)
qed

text \<open>A handler that does not touch recoveries up to its last call makes the move of that call.\<close>

definition ends :: "server_config \<Rightarrow> time \<Rightarrow> server_state \<Rightarrow> 'a call \<Rightarrow> server_state \<Rightarrow> bool" where
  "ends cfg now s m t \<longleftrightarrow> wp m (\<lambda>_. moved cfg now s) (\<lambda>_. moved cfg now s) t"

named_theorems ends \<open>rules that follow a handler to its last call\<close>

lemma ends_seq [ends]:
  "keeps (idle s) m \<Longrightarrow> idle s t \<Longrightarrow> (\<And>a t. idle s t \<Longrightarrow> ends cfg now s (f a) t) \<Longrightarrow> ends cfg now s (andThen m f) t"
  unfolding ends_def by (rule wp_step [OF wp_at_rest]) (auto intro: idle_moved)

lemma ends_option [ends]:
  "(x = None \<Longrightarrow> ends cfg now s a t) \<Longrightarrow> (\<And>y. x = Some y \<Longrightarrow> ends cfg now s (f y) t) \<Longrightarrow>
     ends cfg now s (case x of None \<Rightarrow> a | Some y \<Rightarrow> f y) t"
  by (simp split: option.split)

lemma ends_Let [ends]: "ends cfg now s (f y) t \<Longrightarrow> ends cfg now s (let x = y in f x) t"
  by simp

lemma ends_throw [ends]: "idle s t \<Longrightarrow> ends cfg now s (throw e) t"
  by (simp add: ends_def wp idle_moved)

lemma ends_refuse [ends]: "idle s t \<Longrightarrow> ends cfg now s (refuse status code) t"
  by (simp add: refuse_def ends)

lemmas rest_calls = keeps at_rest.keeps_calls at_rest.keeps_session_or_404 at_rest.keeps_faceMatch
  at_rest.keeps_holderOf at_rest.keeps_recoveryFactors at_rest.keeps_recovery
lemmas move_calls = keeps in_move.keeps_calls in_move.keeps_retire

lemma handleRecoveryStart_moves:
  assumes "\<And>b. rnd = Some b \<Longrightarrow> length b = 16 \<and> rec_at s (hex_encode b) = None"
  shows "ends cfg now s (handleRecoveryStart cfg body rnd now) s"
proof -
  have start: "ends cfg now s (startRecovery cfg old new c factors rnd now) t" if "idle s t" for old new c factors t
    unfolding ends_def by (rule startRecovery_moves [OF that assms])
  show ?thesis
    unfolding handleRecoveryStart_def by (intro ends start rest_calls; (assumption | rule idle_refl))
qed

lemma ends_recovery:
  assumes "idle s t" "\<And>r t. idle s t \<Longrightarrow> r = rec_at s i \<Longrightarrow> ends cfg now s (f r) t"
  shows "ends cfg now s (andThen (or500 code (recovery i)) f) t"
proof -
  have "wp (or500 code (recovery i)) (\<lambda>r t. idle s t \<and> r = rec_at s i) (\<lambda>_. idle s) t"
    unfolding wp_or500 by (rule wp_recovery [OF assms(1)])
  then show ?thesis
    unfolding ends_def by (rule wp_step) (use assms(2) in \<open>auto simp: ends_def idle_moved\<close>)
qed

lemma ends_refuseIf:
  "idle s t \<Longrightarrow> (\<not> bad \<Longrightarrow> ends cfg now s (f ()) t) \<Longrightarrow> ends cfg now s (andThen (refuseIf bad e) f) t"
  by (auto simp: ends_def wp idle_moved)

lemma handleRecoveryCancel_moves: "ends cfg now s (handleRecoveryCancel cfg i body now) s"
proof -
  have party: "ends cfg now s (andThen (if holder = rd_OldHolder d then ret ''old_key''
            else if holder = rd_NewHolder d then ret ''new_key''
            else refuse 403 ''not_a_party'') (\<lambda>who.
          andThen (check (\<not> verifyDIDSignature (cf_crypto cfg) holder
              (RecoveryCancelMessage (cf_issuerDID cfg) i) sig) 403 ''bad_signature'') (\<lambda>_.
          andThen (or500 ''store_failed'' (closeRecovery cfg i RecoveryCancelled who now)) (\<lambda>r.
          case r of
            Inl errRecoveryClosed \<Rightarrow> refuse 409 ''recovery_closed''
          | Inl errRecoveryNotFound \<Rightarrow> refuse 500 ''store_failed''
          | Inr d' \<Rightarrow> ret (viewOf d'))))) t"
    if t: "idle s t" "rec_at s i = Some d" for d holder sig t
  proof -
    have close: "wp (closeRecovery cfg i RecoveryCancelled who now)
       (\<lambda>r t. case r of Inl _ \<Rightarrow> idle s t | Inr d' \<Rightarrow> moved cfg now s t) (\<lambda>_. moved cfg now s) t"
      if "holder = rd_OldHolder d \<and> who = ''old_key'' \<or> holder = rd_NewHolder d \<and> who = ''new_key''"
        "verifyDIDSignature (cf_crypto cfg) holder (RecoveryCancelMessage (cf_issuerDID cfg) i) sig" for who
      by (rule wp_mono [OF closeRecovery_moves [OF t(1)]])
        (use that t(2) in \<open>auto simp: may_close_def split: sum.splits\<close>)
    have finish: "wp (case r of
            Inl errRecoveryClosed \<Rightarrow> refuse 409 ''recovery_closed''
          | Inl errRecoveryNotFound \<Rightarrow> refuse 500 ''store_failed''
          | Inr d' \<Rightarrow> ret (viewOf d')) (\<lambda>_. moved cfg now s) (\<lambda>_. moved cfg now s) u"
      if "case r of Inl _ \<Rightarrow> idle s u | Inr d' \<Rightarrow> moved cfg now s u" for r u
      using that idle_moved by (auto simp: wp split: sum.splits close_error.splits)
    show ?thesis
      unfolding ends_def wp_andThen wp_check wp_or500 wp_if wp_refuse wp_ret
      using idle_moved [OF t(1)] wp_mono [OF close finish] by auto
  qed
  show ?thesis
    unfolding handleRecoveryCancel_def Let_def
    by (rule ends_seq, intro rest_calls, simp, rule ends_recovery, assumption, rule ends_option,
        rule ends_refuse, assumption, rule party) auto
qed

lemma handleRecoveryComplete_moves: "ends cfg now s (handleRecoveryComplete cfg i body now) s"
proof -
  have close: "wp (if retry then ret d
               else andThen (or500 ''store_failed'' (closeRecovery cfg i RecoveryCompleted ''new_key'' now)) (\<lambda>r.
                 case r of
                   Inl errRecoveryClosed \<Rightarrow> refuse 409 ''recovery_closed''
                 | Inl errRecoveryNotFound \<Rightarrow> refuse 500 ''store_failed''
                 | Inr d' \<Rightarrow> ret d')) (\<lambda>_. moved cfg now s) (\<lambda>_. moved cfg now s) t"
    if t: "idle s t" "rec_at s i = Some d" "\<not> now < rd_ExecutesAt d" for d retry t
  proof -
    have finish: "wp (case r of
            Inl errRecoveryClosed \<Rightarrow> refuse 409 ''recovery_closed''
          | Inl errRecoveryNotFound \<Rightarrow> refuse 500 ''store_failed''
          | Inr d' \<Rightarrow> ret d') (\<lambda>_. moved cfg now s) (\<lambda>_. moved cfg now s) u"
      if "case r of Inl _ \<Rightarrow> idle s u | Inr d' \<Rightarrow> moved cfg now s u \<and> P d'" for r u P
      using that idle_moved by (auto simp: wp split: sum.splits close_error.splits)
    have "wp (closeRecovery cfg i RecoveryCompleted ''new_key'' now)
       (\<lambda>r t. case r of Inl _ \<Rightarrow> idle s t | Inr d' \<Rightarrow> moved cfg now s t \<and> (\<exists>d. rec_at s i = Some d \<and>
         rd_Status d = RecoveryPending \<and> d' = d\<lparr>rd_Status := RecoveryCompleted, rd_ClosedAt := now, rd_ClosedBy := ''new_key''\<rparr>))
       (\<lambda>_. moved cfg now s) t"
      by (rule closeRecovery_moves [OF t(1)]) (use t in \<open>auto simp: may_close_def\<close>)
    then have "wp (closeRecovery cfg i RecoveryCompleted ''new_key'' now)
       (\<lambda>r. wp (case r of
            Inl errRecoveryClosed \<Rightarrow> refuse 409 ''recovery_closed''
          | Inl errRecoveryNotFound \<Rightarrow> refuse 500 ''store_failed''
          | Inr d' \<Rightarrow> ret d') (\<lambda>_. moved cfg now s) (\<lambda>_. moved cfg now s)) (\<lambda>_. moved cfg now s) t"
      by (rule wp_mono) (erule finish, assumption)
    then show ?thesis
      unfolding wp_if wp_andThen wp_or500 wp_ret using idle_moved [OF t(1)] by simp
  qed
  have tail: "wp (andThen m f) (\<lambda>_. moved cfg now s) (\<lambda>_. moved cfg now s) t"
    if "wp m (\<lambda>_. moved cfg now s) (\<lambda>_. moved cfg now s) t" "\<And>a. keeps (moved cfg now s) (f a)" for m f and t :: server_state
    by (rule wp_step [OF that(1)]) (use that(2) in \<open>auto simp: keeps_wp\<close>)
  show ?thesis
    unfolding handleRecoveryComplete_def
    apply (rule ends_seq, intro rest_calls, simp, rule ends_recovery, assumption, rule ends_option,
        rule ends_refuse, assumption)
    apply (rule ends_seq, intro rest_calls, assumption, rule ends_seq, intro rest_calls, assumption, rule ends_Let,
        rule ends_seq, intro rest_calls, assumption, rule ends_refuseIf, assumption, rule ends_seq, intro rest_calls,
        assumption, rule ends_seq, intro rest_calls, assumption, rule ends_option, rule ends_refuse, assumption)
    unfolding ends_def
    by (rule tail, rule close, assumption, simp, assumption, intro move_calls)
qed

section \<open>Steps\<close>

text \<open>
  What can happen to recoveries: a start by a person or, after a review, by an operator; a cancel; a
  completion; and anything that leaves the recovery documents and histories alone, at a time not before
  the last step. The 128-bit random ids are taken never to repeat.
\<close>

inductive recovery_step ::
  "server_config \<Rightarrow> server_state \<times> time \<Rightarrow> server_state \<times> time \<Rightarrow> bool" for cfg where
  step_start: "t \<le> now \<Longrightarrow> (\<And>b. rnd = Some b \<Longrightarrow> length b = 16 \<and> rec_at s (hex_encode b) = None) \<Longrightarrow>
     handleRecoveryStart cfg body rnd now s = (r, s') \<Longrightarrow> recovery_step cfg (s, t) (s', now)"
| step_operator: "t \<le> now \<Longrightarrow> (\<And>b. rnd = Some b \<Longrightarrow> length b = 16 \<and> rec_at s (hex_encode b) = None) \<Longrightarrow>
     startRecovery cfg old new c [FactorOperatorReview] rnd now s = (r, s') \<Longrightarrow> recovery_step cfg (s, t) (s', now)"
| step_cancel: "t \<le> now \<Longrightarrow> handleRecoveryCancel cfg i breq now s = (r, s') \<Longrightarrow> recovery_step cfg (s, t) (s', now)"
| step_complete: "t \<le> now \<Longrightarrow> handleRecoveryComplete cfg i body now s = (r3, s') \<Longrightarrow> recovery_step cfg (s, t) (s', now)"
| step_other: "t \<le> now \<Longrightarrow> idle s s' \<Longrightarrow> recovery_step cfg (s, t) (s', now)"

inductive_cases recovery_stepE [consumes 1, case_names start operator cancel complete other]:
  "recovery_step cfg (s, t) (s', t')"

lemma ends_state: "ends cfg now s m s \<Longrightarrow> m s = (r, s') \<Longrightarrow> moved cfg now s s'"
  unfolding ends_def by (rule wp_state)

lemma recovery_step_moved:
  assumes "recovery_step cfg (s, t) (s', t')"
  shows "moved cfg t' s s' \<and> t \<le> t'"
  using assms
proof (cases rule: recovery_stepE)
  case (start rnd body r)
  then show ?thesis using ends_state [OF handleRecoveryStart_moves] by blast
next
  case (operator rnd old new c r)
  have "wp (startRecovery cfg old new c [FactorOperatorReview] rnd t') (\<lambda>_. moved cfg t' s) (\<lambda>_. moved cfg t' s) s"
    by (rule startRecovery_moves [OF idle_refl]) (rule operator(2))
  from wp_state [OF operator(3) this] show ?thesis using operator(1) by simp
next
  case (cancel i breq r)
  then show ?thesis using ends_state [OF handleRecoveryCancel_moves] by blast
next
  case (complete i body r3)
  then show ?thesis using ends_state [OF handleRecoveryComplete_moves] by blast
next
  case other
  then show ?thesis by (simp add: idle_moved)
qed

inductive recovery_run :: "server_config \<Rightarrow> server_state \<times> time \<Rightarrow> server_state \<times> time \<Rightarrow> bool" for cfg where
  run_refl: "recovery_run cfg a a"
| run_step: "recovery_run cfg a b \<Longrightarrow> recovery_step cfg b c \<Longrightarrow> recovery_run cfg a c"

section \<open>The life of a recovery\<close>

text \<open>What may become of a recovery document between two times.\<close>

definition closed_as :: "server_config \<Rightarrow> string \<Rightarrow> recovery_doc \<Rightarrow> recovery_doc \<Rightarrow> time \<Rightarrow> time \<Rightarrow> bool" where
  "closed_as cfg i d d' t t' \<longleftrightarrow> rd_Status d = RecoveryPending \<and>
     (\<exists>status who now. t \<le> now \<and> now \<le> t' \<and> may_close cfg i d status who now \<and>
        d' = d\<lparr>rd_Status := status, rd_ClosedAt := now, rd_ClosedBy := who\<rparr>)"

lemma may_close_status: "may_close cfg i d status who now \<Longrightarrow> status \<noteq> RecoveryPending"
  by (auto simp: may_close_def)

lemma recovery_move_life:
  assumes "recovery_move cfg ok now (R, H) (R', H')" "R i = Some d" "t \<le> now"
  shows "\<exists>d'. R' i = Some d' \<and> (d' = d \<or> closed_as cfg i d d' t now)"
  using assms(1)
proof (cases rule: recovery_moveE)
  case (opens d1)
  then show ?thesis using assms(2) by auto
next
  case (closes j d1 status who)
  then show ?thesis using assms(2,3) by (cases "j = i") (auto simp: closed_as_def)
qed (use assms in auto)

lemma recovery_run_life:
  assumes "recovery_run cfg a b" "a = (s, t)" "b = (s', t')" "rec_at s i = Some d"
  shows "t \<le> t' \<and> (\<exists>d'. rec_at s' i = Some d' \<and> (d' = d \<or> closed_as cfg i d d' t t'))"
  using assms
proof (induction arbitrary: s' t' rule: recovery_run.induct)
  case (run_step a b c)
  obtain s1 t1 where b: "b = (s1, t1)" by (cases b)
  with run_step obtain d1 where d1: "t \<le> t1" "rec_at s1 i = Some d1" "d1 = d \<or> closed_as cfg i d d1 t t1" by blast
  have m: "recovery_move cfg (ss_faults s1 = []) t' (rec_at s1, hist_at s1) (rec_at s', hist_at s')" "t1 \<le> t'"
    using recovery_step_moved [of cfg s1 t1 s' t'] run_step.hyps(2) run_step.prems(2) b by (auto simp: moved_def)
  obtain d2 where d2: "rec_at s' i = Some d2" "d2 = d1 \<or> closed_as cfg i d1 d2 t1 t'"
    using recovery_move_life [OF m(1) d1(2) m(2)] by blast
  have "d2 = d \<or> closed_as cfg i d d2 t t'"
    using d1(3) d2(2)
  proof (elim disjE)
    assume "closed_as cfg i d d1 t t1" "closed_as cfg i d1 d2 t1 t'"
    then show ?thesis by (auto simp: closed_as_def dest!: may_close_status)
  qed (use m(2) d1(1) in \<open>force simp: closed_as_def\<close>)+
  then show ?case using d1 d2 m(2) by auto
qed auto

section \<open>Properties\<close>

text \<open>C5: The handlers implement the recovery machine. Whatever the request and whichever store calls
  fail, a handler's step makes one move of the machine: it opens a recovery only when none is pending for
  the identity and its cooldown and cancel limits allow one, or closes a pending one, by completion once
  the delay has passed or by a cancel signed by one of the two keys, or changes nothing.\<close>

theorem recovery_handlers_refine:
  assumes "recovery_step cfg (s, t) (s', t')"
  shows "recovery_move cfg (ss_faults s = []) t' (rec_at s, hist_at s) (rec_at s', hist_at s')"
  using recovery_step_moved [OF assms] by (simp add: moved_def)

text \<open>C26: A recovery is closed at most once, and for good: over any run it stays as it is, or it goes from
  pending to completed, at or after the end of its delay, or to cancelled, on a signature of the old or the
  new key over its cancel message. Nothing else about it ever changes.\<close>

theorem recovery_closes_once:
  assumes "recovery_run cfg (s, t) (s', t')" "rec_at s i = Some d"
  shows "\<exists>d'. rec_at s' i = Some d' \<and> (d' = d \<or> rd_Status d = RecoveryPending \<and>
     (\<exists>now. t \<le> now \<and> now \<le> t' \<and>
        (d' = d\<lparr>rd_Status := RecoveryCompleted, rd_ClosedAt := now, rd_ClosedBy := ''new_key''\<rparr> \<and> rd_ExecutesAt d \<le> now
       \<or> (\<exists>holder who sig. d' = d\<lparr>rd_Status := RecoveryCancelled, rd_ClosedAt := now, rd_ClosedBy := who\<rparr> \<and>
            holder \<in> {rd_OldHolder d, rd_NewHolder d} \<and>
            verifyDIDSignature (cf_crypto cfg) holder (RecoveryCancelMessage (cf_issuerDID cfg) i) sig))))"
proof -
  obtain d' where "rec_at s' i = Some d'" "d' = d \<or> closed_as cfg i d d' t t'"
    using recovery_run_life [OF assms(1) refl refl assms(2)] by blast
  then show ?thesis by (auto simp: closed_as_def may_close_def)
qed

end
