(* ===== verification/Recovery_Limits.thy ===== *)
theory Recovery_Limits
  imports Recovery_Machine
begin

text \<open>
  The limits on recoveries of one identity, while the stores answer: one at a time, and a cooldown after
  one completes. Identities are told apart by the hash their histories are kept under.
\<close>

section \<open>Reachable states\<close>

inductive recovery_reachable :: "server_config \<Rightarrow> server_state \<times> time \<Rightarrow> bool" for cfg where
  reach_start: "rec_at s = Map.empty \<Longrightarrow> hist_at s = (\<lambda>_. zero_history) \<Longrightarrow> ss_faults s = [] \<Longrightarrow> recovery_reachable cfg (s, t)"
| reach_step: "recovery_reachable cfg a \<Longrightarrow> recovery_step cfg a b \<Longrightarrow> recovery_reachable cfg b"

abbreviation identity_of :: "server_config \<Rightarrow> recovery_doc \<Rightarrow> string" where
  "identity_of cfg d \<equiv> hashed cfg (rd_Commitment d)"

abbreviation cooldown_of :: "server_config \<Rightarrow> duration" where
  "cooldown_of cfg \<equiv> lc_RecoveryCooldown (cfgLockout cfg)"

text \<open>The invariant: documents are where their id says, the pending one is the active and the latest one of
  its identity, completions are remembered for as long as the cooldown needs them.\<close>

definition docs_ok :: "server_config \<Rightarrow> (string \<rightharpoonup> recovery_doc) \<Rightarrow> time \<Rightarrow> bool" where
  "docs_ok cfg R t \<longleftrightarrow> (\<forall>i d. R i = Some d \<longrightarrow> rd_ID d = i \<and> i \<noteq> '''' \<and> rd_CreatedAt d \<le> t \<and>
     rd_ExecutesAt d = rd_CreatedAt d + lc_RecoveryDelay (cfgLockout cfg))"

definition active_ok :: "server_config \<Rightarrow> (string \<rightharpoonup> recovery_doc) \<Rightarrow> (string \<Rightarrow> recovery_history) \<Rightarrow> bool" where
  "active_ok cfg R H \<longleftrightarrow> (\<forall>i d. R i = Some d \<longrightarrow> rd_Status d = RecoveryPending \<longrightarrow> rh_Active (H (identity_of cfg d)) = i)"

definition latest_ok :: "server_config \<Rightarrow> (string \<rightharpoonup> recovery_doc) \<Rightarrow> bool" where
  "latest_ok cfg R \<longleftrightarrow> (\<forall>i d j d'. R i = Some d \<longrightarrow> rd_Status d = RecoveryPending \<longrightarrow> R j = Some d' \<longrightarrow>
     identity_of cfg d' = identity_of cfg d \<longrightarrow> rd_CreatedAt d' \<le> rd_CreatedAt d)"

definition completions_ok :: "server_config \<Rightarrow> (string \<rightharpoonup> recovery_doc) \<Rightarrow> (string \<Rightarrow> recovery_history) \<Rightarrow> time \<Rightarrow> bool" where
  "completions_ok cfg R H t \<longleftrightarrow> (\<forall>i d. R i = Some d \<longrightarrow> rd_Status d = RecoveryCompleted \<longrightarrow>
     rd_ClosedAt d \<in> set (rh_Completed (H (identity_of cfg d))) \<or> rd_ClosedAt d + cooldown_of cfg \<le> t)"

definition cooldown_ok :: "server_config \<Rightarrow> (string \<rightharpoonup> recovery_doc) \<Rightarrow> bool" where
  "cooldown_ok cfg R \<longleftrightarrow> (\<forall>i d j d'. R i = Some d \<longrightarrow> rd_Status d = RecoveryCompleted \<longrightarrow> R j = Some d' \<longrightarrow>
     identity_of cfg d' = identity_of cfg d \<longrightarrow> \<not> by_operator d' \<longrightarrow> rd_ClosedAt d \<le> rd_CreatedAt d' \<longrightarrow>
     rd_ClosedAt d + cooldown_of cfg \<le> rd_CreatedAt d')"

lemmas recovery_inv = docs_ok_def active_ok_def latest_ok_def completions_ok_def cooldown_ok_def

definition tidy :: "server_config \<Rightarrow> (string \<rightharpoonup> recovery_doc) \<Rightarrow> (string \<Rightarrow> recovery_history) \<Rightarrow> time \<Rightarrow> bool" where
  "tidy cfg R H t \<longleftrightarrow> docs_ok cfg R t \<and> active_ok cfg R H \<and> latest_ok cfg R \<and> completions_ok cfg R H t \<and> cooldown_ok cfg R"

lemma no_other_pending:
  assumes "active_ok cfg R H" "docs_ok cfg R t" "may_open cfg R (H k) d" "R i = Some d1" "identity_of cfg d1 = k"
  shows "rd_Status d1 \<noteq> RecoveryPending"
  using assms by (auto simp: recovery_inv may_open_def)

lemma tidy_open:
  assumes i: "tidy cfg R H t" "t \<le> now"
    and d: "R (rd_ID d) = None" "rd_ID d \<noteq> ''''" "rd_Status d = RecoveryPending" "rd_CreatedAt d = now"
      "rd_ExecutesAt d = now + lc_RecoveryDelay (cfgLockout cfg)" "may_open cfg R (H (identity_of cfg d)) d"
  shows "tidy cfg (R(rd_ID d \<mapsto> d)) (H(identity_of cfg d := opened_history cfg (H (identity_of cfg d)) d)) now"
proof -
  let ?k = "identity_of cfg d"
  have inv: "docs_ok cfg R t" "active_ok cfg R H" "latest_ok cfg R" "completions_ok cfg R H t" "cooldown_ok cfg R"
    using i by (simp_all add: tidy_def)
  have old: "rd_Status d1 \<noteq> RecoveryPending" if "R j = Some d1" "identity_of cfg d1 = ?k" for j d1
    using no_other_pending [OF inv(2,1) d(6) that] .
  have created: "rd_CreatedAt d1 \<le> now" if "R j = Some d1" for j d1
    using inv(1) that i(2) by (fastforce simp: docs_ok_def)
  have "docs_ok cfg (R(rd_ID d \<mapsto> d)) now"
    using inv(1) i(2) d by (fastforce simp: docs_ok_def)
  moreover have "active_ok cfg (R(rd_ID d \<mapsto> d)) (H(?k := opened_history cfg (H ?k) d))"
    using inv(2) old by (auto simp: active_ok_def opened_history_def Let_def)
  moreover have "latest_ok cfg (R(rd_ID d \<mapsto> d))"
    using inv(3) old created d(3,4) by (auto simp: latest_ok_def)
  moreover have "completions_ok cfg (R(rd_ID d \<mapsto> d)) (H(?k := opened_history cfg (H ?k) d)) now"
    using inv(4) i(2) d(3,4) by (fastforce simp: completions_ok_def opened_history_def Let_def)
  moreover have "cooldown_ok cfg (R(rd_ID d \<mapsto> d))"
  proof -
    have "rd_ClosedAt d1 + cooldown_of cfg \<le> now"
      if "R j = Some d1" "rd_Status d1 = RecoveryCompleted" "identity_of cfg d1 = ?k" "\<not> by_operator d" for j d1
    proof -
      have "rd_ClosedAt d1 \<in> set (rh_Completed (H ?k)) \<or> rd_ClosedAt d1 + cooldown_of cfg \<le> t"
        using inv(4) that unfolding completions_ok_def by metis
      then show ?thesis using d(6) that(4) d(4) i(2) by (fastforce simp: may_open_def Let_def)
    qed
    then show ?thesis
      using inv(5) d(3,4) by (auto simp: cooldown_ok_def)
  qed
  ultimately show ?thesis by (simp add: tidy_def)
qed

lemma tidy_close:
  assumes i: "tidy cfg R H t" "t \<le> now" "0 < lc_RecoveryDelay (cfgLockout cfg)"
    and d: "R i = Some d" "rd_Status d = RecoveryPending" "may_close cfg i d status who now"
    and c: "d' = d\<lparr>rd_Status := status, rd_ClosedAt := now, rd_ClosedBy := who\<rparr>"
  shows "tidy cfg (R(i \<mapsto> d')) (H(identity_of cfg d := closed_history (H (identity_of cfg d)) i status now)) now"
proof -
  let ?k = "identity_of cfg d"
  let ?H = "H(?k := closed_history (H ?k) i status now)"
  have inv: "docs_ok cfg R t" "active_ok cfg R H" "latest_ok cfg R" "completions_ok cfg R H t" "cooldown_ok cfg R"
    using i by (simp_all add: tidy_def)
  have status: "status \<noteq> RecoveryPending" using d(3) by (rule may_close_status)
  have [simp]: "rd_ID d' = rd_ID d" "rd_Commitment d' = rd_Commitment d" "rd_CreatedAt d' = rd_CreatedAt d"
    "rd_ExecutesAt d' = rd_ExecutesAt d" "rd_Status d' = status" "rd_ClosedAt d' = now" "by_operator d' = by_operator d"
    by (simp_all add: c by_operator_def)
  have act: "rh_Active (H ?k) = i" using inv(2) d by (simp add: active_ok_def)
  have "docs_ok cfg (R(i \<mapsto> d')) now"
    using inv(1) i(2) d by (fastforce simp: docs_ok_def)
  moreover have "active_ok cfg (R(i \<mapsto> d')) ?H"
  proof -
    have "j = i" if "R j = Some d1" "rd_Status d1 = RecoveryPending" "identity_of cfg d1 = ?k" for j d1
      using inv(2) act that unfolding active_ok_def by metis
    then show ?thesis
      using inv(2) status by (auto simp: active_ok_def closed_history_def)
  qed
  moreover have "latest_ok cfg (R(i \<mapsto> d'))"
    using inv(3) status d by (auto simp: latest_ok_def)
  moreover have "completions_ok cfg (R(i \<mapsto> d')) ?H now"
    using inv(4) i(2) by (fastforce simp: completions_ok_def closed_history_def Let_def)
  moreover have "cooldown_ok cfg (R(i \<mapsto> d'))"
  proof -
    have "\<not> now \<le> rd_CreatedAt d1"
      if "R j = Some d1" "identity_of cfg d1 = ?k" "status = RecoveryCompleted" for j d1
    proof -
      have "rd_CreatedAt d1 \<le> rd_CreatedAt d" using inv(3) d that by (auto simp: latest_ok_def)
      moreover have "rd_CreatedAt d + lc_RecoveryDelay (cfgLockout cfg) \<le> now"
        using d(1,3) inv(1) that(3) by (auto simp: docs_ok_def may_close_def)
      ultimately show ?thesis using i(3) by simp
    qed
    then show ?thesis
      using inv(5) d by (auto simp: cooldown_ok_def)
  qed
  ultimately show ?thesis by (simp add: tidy_def)
qed

lemma tidy_later: "tidy cfg R H t \<Longrightarrow> t \<le> now \<Longrightarrow> tidy cfg R H now"
  by (fastforce simp: tidy_def docs_ok_def completions_ok_def)

lemma reachable_tidy:
  assumes "recovery_reachable cfg a" "0 < lc_RecoveryDelay (cfgLockout cfg)"
  shows "ss_faults (fst a) = [] \<and> tidy cfg (rec_at (fst a)) (hist_at (fst a)) (snd a)"
  using assms(1)
proof induction
  case (reach_step a b)
  obtain s t s' now where ab: "a = (s, t)" "b = (s', now)" by (cases a, cases b)
  with reach_step have m: "moved cfg now s s'" "t \<le> now" and i: "ss_faults s = []" "tidy cfg (rec_at s) (hist_at s) t"
    using recovery_step_moved [of cfg s t s' now] by auto
  then have mv: "recovery_move cfg True now (rec_at s, hist_at s) (rec_at s', hist_at s')" and f: "ss_faults s' = []"
    by (auto simp: moved_def)
  from mv have "tidy cfg (rec_at s') (hist_at s') now"
  proof (cases rule: recovery_moveE)
    case stay
    then show ?thesis using tidy_later [OF i(2) m(2)] by simp
  next
    case (opens d)
    then show ?thesis using tidy_open [OF i(2) m(2), of d] by auto
  next
    case (closes j d status who)
    then show ?thesis using tidy_close [OF i(2) m(2) assms(2), of j d status who] by auto
  qed
  with f ab show ?case by simp
qed (simp add: tidy_def recovery_inv)

section \<open>Properties\<close>

text \<open>C27: While the stores answer, an identity never has two recoveries in progress: whatever requests were
  served in whatever order, two pending recoveries of one face are the same recovery.\<close>

theorem one_recovery_at_a_time:
  assumes "recovery_reachable cfg (s, t)" "0 < lc_RecoveryDelay (cfgLockout cfg)"
    and "rec_at s i = Some d" "rd_Status d = RecoveryPending"
    and "rec_at s j = Some d'" "rd_Status d' = RecoveryPending" "rd_Commitment d' = rd_Commitment d"
  shows "j = i"
  using reachable_tidy [OF assms(1,2)] assms(3-7) unfolding tidy_def active_ok_def fst_conv snd_conv by metis

text \<open>C28: After a recovery of an identity completes, no recovery of it that an operator did not approve is
  opened for the whole cooldown, so an owner and a thief cannot trade the identity back and forth.\<close>

theorem recovery_cooldown_holds:
  assumes "recovery_reachable cfg (s, t)" "0 < lc_RecoveryDelay (cfgLockout cfg)"
    and "rec_at s i = Some d" "rd_Status d = RecoveryCompleted"
    and "rec_at s j = Some d'" "rd_Commitment d' = rd_Commitment d" "\<not> by_operator d'"
    and "rd_ClosedAt d \<le> rd_CreatedAt d'"
  shows "rd_ClosedAt d + lc_RecoveryCooldown (cfgLockout cfg) \<le> rd_CreatedAt d'"
  using reachable_tidy [OF assms(1,2)] assms(3-8) by (auto simp: tidy_def cooldown_ok_def)

end
