(* ===== verification/Recovery_Example.thy ===== *)
theory Recovery_Example
  imports Recovery_Limits
begin

text \<open>
  A concrete run of the recovery handlers, from an empty store over a completed recovery to a second one
  after the cooldown. The examples of the recovery properties are points of it.
\<close>

section \<open>A run\<close>

text \<open>
  An operator opens a recovery of the face \<open>''face''\<close> onto the key 7 at time 5; a session of that key
  completes it at 200; at 1300, after the cooldown, a session of the key 8 starts another one with the
  document once issued with the face.
\<close>

definition selfie_metadata :: method_metadata where
  "selfie_metadata = \<lparr>md_ID = SelfieMethodID, md_Type = MethodTypeAnchor, md_Strength = 60, md_CostUSD = 0,
     md_UXFriction = ''medium'', md_PlatformRequirements = [], md_FreshnessLifetime = 0, md_Version = ''1''\<rparr>"

definition recovery_server :: server_config where
  "recovery_server = sample_server\<lparr>cf_registry := \<lparr>reg_methods = [(SelfieMethodID, Method_Entry selfie_metadata ())]\<rparr>\<rparr>"

definition rid :: "nat \<Rightarrow> string" where
  "rid n = hex_encode (replicate 16 (byte n))"

definition first_recovery :: recovery_doc where
  "first_recovery = \<lparr>rd_ID = rid 1, rd_OldHolder = ''did:x'', rd_NewHolder = sample_did 7, rd_Commitment = ''face'',
     rd_Factors = [FactorOperatorReview], rd_Status = RecoveryPending, rd_CreatedAt = 5, rd_ExecutesAt = 105,
     rd_ClosedAt = 0, rd_ClosedBy = ''''\<rparr>"

definition opened_state :: server_state where
  "opened_state = sample_state\<lparr>ss_kv :=
     memKV_set (memKV_set (memKV_set (memKV_set newMemKV nsRecoveries (rid 1) (RecoveryDoc first_recovery))
       nsRecoveryHistory (hashed recovery_server ''face'') (HistoryDoc \<lparr>rh_Active = rid 1, rh_Completed = [], rh_Cancelled = []\<rparr>))
       nsRecoveryByKey (hashed recovery_server ''did:x'') (PointerDoc (rid 1)))
       nsRecoveryByKey (hashed recovery_server (sample_did 7)) (PointerDoc (rid 1))\<rparr>"

lemma sample_state_kv: "ss_kv sample_state = newMemKV" "ss_faults sample_state = []"
  by (simp_all add: sample_state_def)

lemma server_lockout: "cfgLockout recovery_server = sample_lockout" "cf_lockout recovery_server = Some sample_lockout"
  "cf_inPerson recovery_server = None" "cf_identifierKeys recovery_server = None"
  by (simp_all add: cfgLockout_def recovery_server_def sample_server_def)

lemma run_open:
  "startRecovery recovery_server ''did:x'' (sample_did 7) ''face'' [FactorOperatorReview] (Some (replicate 16 (byte 1))) 5 sample_state
     = (Inr (viewOf first_recovery), opened_state)"
  by (simp add: startRecovery_def newRecoveryID_def openRecovery_def open_in_limits_def record_opening_def setRecovery_def
      Let_def setHistory_def history_def current_recovery_def history_of_def zero_history_def run_comp sample_state_kv server_lockout
      sample_lockout_def by_operator_def first_recovery_def opened_state_def flip: rid_def)

definition sample_session_of :: "string \<Rightarrow> nat \<Rightarrow> time \<Rightarrow> verified_method list \<Rightarrow> session" where
  "sample_session_of sid n created vms = \<lparr>se_id = sid, se_holderDID = sample_did n, se_holderPublicKey = sample_key n,
     se_createdAt = created, se_expiresAt = 9999, se_verifiedMethods = vms, se_anchorMethodID = None,
     se_issuedCredentialID = '''', se_identifierKeys = []\<rparr>"

definition sample_sessions_of :: "string \<Rightarrow> session \<Rightarrow> session_store" where
  "sample_sessions_of sid sess = \<lparr>ses_ttl = 10000, ses_sessions = [sid \<mapsto> sess]\<rparr>"

definition returning_state :: server_state where
  "returning_state = opened_state\<lparr>ss_sessions := sample_sessions_of ''s7'' (sample_session_of ''s7'' 7 150 [])\<rparr>"

definition done_recovery :: recovery_doc where
  "done_recovery = first_recovery\<lparr>rd_Status := RecoveryCompleted, rd_ClosedAt := 200, rd_ClosedBy := ''new_key''\<rparr>"

definition done_kv :: "lockout_doc mem_kv" where
  "done_kv = memKV_set (memKV_set (ss_kv opened_state) nsRecoveries (rid 1) (RecoveryDoc done_recovery))
     nsRecoveryHistory (hashed recovery_server ''face'') (HistoryDoc \<lparr>rh_Active = '''', rh_Completed = [200], rh_Cancelled = []\<rparr>)"

definition completed_state :: server_state where
  "completed_state = snd (handleRecoveryComplete recovery_server (rid 1) (Some ''s7'') 200 returning_state)"

lemma opened_state_parts:
  "memKV_get (ss_kv opened_state) nsRecoveries (rid 1) = Some (RecoveryDoc first_recovery)"
  "memKV_get (ss_kv opened_state) nsRecoveryHistory (hashed recovery_server ''face'') =
     Some (HistoryDoc \<lparr>rh_Active = rid 1, rh_Completed = [], rh_Cancelled = []\<rparr>)"
  "ss_faults opened_state = []" "ss_holders opened_state = NewInMemoryHolderLedger"
  "ss_revocations opened_state = NewInMemoryRevocationStore"
  by (simp_all add: opened_state_def sample_state_def)

lemma new_ledger: "ledger_Banned NewInMemoryHolderLedger k v \<longleftrightarrow> False" "ledger_Issuances NewInMemoryHolderLedger h = []"
  by (simp_all add: ledger_Banned_def ledger_Issuances_def NewInMemoryHolderLedger_def)

lemma run_complete:
  "\<exists>r. handleRecoveryComplete recovery_server (rid 1) (Some ''s7'') 200 returning_state = (Inr r, completed_state)"
  "ss_kv completed_state = done_kv" "ss_faults completed_state = []"
proof -
  have "\<exists>r s'. handleRecoveryComplete recovery_server (rid 1) (Some ''s7'') 200 returning_state = (Inr r, s') \<and>
     ss_kv s' = done_kv \<and> ss_faults s' = []"
    using opened_state_parts new_ledger
    by (simp add: handleRecoveryComplete_def decode_body_def session_or_404_def sessions_Get_def session_Get_def session_lookup_def
      returning_state_def sample_sessions_of_def sample_session_of_def session_to_view_def recovery_def closeRecovery_def
      history_def history_of_def setHistory_def holders_Banned_def holders_Ban_def holders_Issuances_def retireRecoveredHolder_def
      sessions_RecordMethodResult_def session_RecordMethodResult_def passed_result_def closed_history_def
      registry_Get_def recovery_server_def Let_def run_comp case_prod_beta first_recovery_def
      done_kv_def done_recovery_def)
  then show "\<exists>r. handleRecoveryComplete recovery_server (rid 1) (Some ''s7'') 200 returning_state = (Inr r, completed_state)"
    "ss_kv completed_state = done_kv" "ss_faults completed_state = []"
    by (auto simp: completed_state_def)
qed

definition face_nb :: string where
  "face_nb = face_nullifier recovery_server ''face''"

definition document_vm :: verified_method where
  "document_vm = sample_vm\<lparr>vm_MethodID := ''document-chip'', vm_AttestationDigest := ''ab''\<rparr>"

text \<open>What other requests did by 1300: the session of the key 8 matched the face and scanned the document.\<close>

definition matched_state :: server_state where
  "matched_state = completed_state\<lparr>
     ss_sessions := sample_sessions_of ''s8'' (sample_session_of ''s8'' 8 1200 [document_vm]),
     ss_holders := NewInMemoryHolderLedger,
     ss_kv := memKV_set (memKV_set (memKV_set done_kv
       nsFaceMatches (hashed recovery_server ''s8'') (FaceMatchDoc \<lparr>fm_Commitment = ''face'', fm_At = 1250, fm_Declined = False\<rparr>))
       nsIdentityIndex (hashed recovery_server (identityKeyNullifier face_nb)) (IdentityDoc \<lparr>id_HolderDID = ''did:old'', id_At = 300\<rparr>))
       nsIdentityLinks (hashed recovery_server face_nb) (LinksDoc [identityKeyAttestation ''document-chip'' ''ab''])\<rparr>"

definition second_recovery :: recovery_doc where
  "second_recovery = \<lparr>rd_ID = rid 2, rd_OldHolder = ''did:old'', rd_NewHolder = sample_did 8, rd_Commitment = ''face'',
     rd_Factors = [FactorDocument], rd_Status = RecoveryPending, rd_CreatedAt = 1300, rd_ExecutesAt = 1400,
     rd_ClosedAt = 0, rd_ClosedBy = ''''\<rparr>"

lemma rid_neq [simp]: "rid 2 \<noteq> rid (Suc 0)" "rid (Suc 0) \<noteq> rid 2" "rid n \<noteq> ''''"
proof -
  have "hex_encode b \<noteq> ''''" if "b \<noteq> []" for b
    using that by (cases b) (simp_all add: hex_encode_def)
  then show "rid n \<noteq> ''''" by (simp add: rid_def)
qed (simp_all add: rid_def hex_encode_inj)

lemma did_prefix: "has_prefix (sample_did n) ''did:key:''" "sample_did n \<noteq> ''did:old''" "''did:old'' \<noteq> sample_did n"
proof -
  have "sample_did n = ''did:key:z'' @ base58Encode (ed25519MulticodecPrefix @ sample_key n)"
    by (simp add: sample_did_def DIDKeyFromEd25519_def)
  then show "has_prefix (sample_did n) ''did:key:''" "sample_did n \<noteq> ''did:old''" "''did:old'' \<noteq> sample_did n"
    by (simp_all add: has_prefix_def)
qed

definition restarted_state :: server_state where
  "restarted_state = snd (handleRecoveryStart recovery_server (Some ''s8'') (Some (replicate 16 (byte 2))) 1300 matched_state)"

lemma run_restart:
  "\<exists>r. handleRecoveryStart recovery_server (Some ''s8'') (Some (replicate 16 (byte 2))) 1300 matched_state = (Inr r, restarted_state)"
  "rec_at restarted_state (rid 1) = Some done_recovery" "rec_at restarted_state (rid 2) = Some second_recovery"
proof -
  have "\<exists>r s'. handleRecoveryStart recovery_server (Some ''s8'') (Some (replicate 16 (byte 2))) 1300 matched_state = (Inr r, s') \<and>
     rec_at s' (rid 1) = Some done_recovery \<and> rec_at s' (rid 2) = Some second_recovery"
    using opened_state_parts new_ledger run_complete(3)
    apply (simp add: handleRecoveryStart_def decode_body_def session_or_404_def sessions_Get_def session_Get_def session_lookup_def
      matched_state_def sample_sessions_of_def sample_session_of_def session_to_view_def faceMatch_def holderOf_def
      holders_Banned_def holders_Issuances_def recoveryFactors_def identityLinks_def strings_of_def document_vm_def
      startRecovery_def newRecoveryID_def openRecovery_def open_in_limits_def record_opening_def setRecovery_def recovery_def
      setHistory_def history_def current_recovery_def history_of_def did_prefix server_lockout sample_lockout_def
      by_operator_def Let_def run_comp case_prod_beta done_kv_def rec_at_def second_recovery_def FactorDocument_def FactorOperatorReview_def
      done_recovery_def first_recovery_def copyStringMap_def flip: rid_def face_nb_def)
    done
  then show "\<exists>r. handleRecoveryStart recovery_server (Some ''s8'') (Some (replicate 16 (byte 2))) 1300 matched_state = (Inr r, restarted_state)"
  "rec_at restarted_state (rid 1) = Some done_recovery" "rec_at restarted_state (rid 2) = Some second_recovery"
    by (auto simp: restarted_state_def)
qed

section \<open>The run is a run\<close>

lemma step_open: "recovery_step recovery_server (sample_state, 0) (opened_state, 5)"
  by (rule step_operator [OF _ _ run_open])
    (auto simp: rec_at_def sample_state_kv)

lemma step_return: "recovery_step recovery_server (opened_state, 5) (returning_state, 150)"
  by (rule step_other) (simp_all add: idle_def rec_at_def hist_at_def returning_state_def)

lemma step_completes: "recovery_step recovery_server (returning_state, 150) (completed_state, 200)"
  using run_complete(1) by (auto intro: step_complete)

lemma step_match: "recovery_step recovery_server (completed_state, 200) (matched_state, 1250)"
  by (rule step_other)
    (simp_all add: idle_def rec_at_def hist_at_def matched_state_def run_complete fun_eq_iff)

lemma step_restart: "recovery_step recovery_server (matched_state, 1250) (restarted_state, 1300)"
proof -
  obtain r where "handleRecoveryStart recovery_server (Some ''s8'') (Some (replicate 16 (byte 2))) 1300 matched_state = (Inr r, restarted_state)"
    using run_restart(1) by blast
  then show ?thesis
    by (rule step_start [rotated 2])
      (auto simp: rec_at_def matched_state_def done_kv_def opened_state_def sample_state_def simp flip: rid_def)
qed

lemma reach_opened: "recovery_reachable recovery_server (opened_state, 5)"
  by (rule reach_step [OF reach_start step_open])
    (simp_all add: rec_at_def hist_at_def history_of_def sample_state_kv)

lemma reach_restarted: "recovery_reachable recovery_server (restarted_state, 1300)"
  using reach_opened step_return step_completes step_match step_restart by (meson reach_step)

lemma run_to_completion: "recovery_run recovery_server (opened_state, 5) (completed_state, 200)"
  using run_refl step_return step_completes by (meson run_step)

lemma opened_rec: "rec_at opened_state (rid 1) = Some first_recovery"
  using opened_state_parts(1) by (simp add: rec_at_def)

lemma delay_positive: "0 < lc_RecoveryDelay (cfgLockout recovery_server)"
  by (simp add: server_lockout sample_lockout_def)

section \<open>Examples of the properties\<close>

theorem recovery_handlers_refine_witness:
  "recovery_step recovery_server (sample_state, 0) (opened_state, 5) \<and>
   recovery_move recovery_server True 5 (rec_at sample_state, hist_at sample_state) (rec_at opened_state, hist_at opened_state)"
  using step_open recovery_handlers_refine [OF step_open] by (simp add: sample_state_kv)

theorem recovery_closes_once_witness:
  "\<exists>d'. rec_at completed_state (rid 1) = Some d' \<and> (d' = first_recovery \<or> rd_Status first_recovery = RecoveryPending \<and>
     (\<exists>now. 5 \<le> now \<and> now \<le> 200 \<and>
        (d' = first_recovery\<lparr>rd_Status := RecoveryCompleted, rd_ClosedAt := now, rd_ClosedBy := ''new_key''\<rparr> \<and>
           rd_ExecutesAt first_recovery \<le> now
       \<or> (\<exists>holder who sig. d' = first_recovery\<lparr>rd_Status := RecoveryCancelled, rd_ClosedAt := now, rd_ClosedBy := who\<rparr> \<and>
            holder \<in> {rd_OldHolder first_recovery, rd_NewHolder first_recovery} \<and>
            verifyDIDSignature (cf_crypto recovery_server) holder
              (RecoveryCancelMessage (cf_issuerDID recovery_server) (rid 1)) sig))))"
  using recovery_closes_once [OF run_to_completion opened_rec] .

theorem one_recovery_at_a_time_witness:
  "recovery_reachable recovery_server (opened_state, 5) \<and>
   {j. \<exists>d'. rec_at opened_state j = Some d' \<and> rd_Status d' = RecoveryPending \<and> rd_Commitment d' = ''face''} = {rid 1}"
proof -
  have f: "rd_Status first_recovery = RecoveryPending" "rd_Commitment first_recovery = ''face''"
    by (simp_all add: first_recovery_def)
  have "j = rid 1" if "rec_at opened_state j = Some d'" "rd_Status d' = RecoveryPending" "rd_Commitment d' = ''face''" for j d'
    using one_recovery_at_a_time [OF reach_opened delay_positive opened_rec f(1) that(1,2)] that(3) f(2) by simp
  then show ?thesis
    using reach_opened opened_rec f by blast
qed

theorem recovery_cooldown_holds_witness:
  "recovery_reachable recovery_server (restarted_state, 1300) \<and> rec_at restarted_state (rid 1) = Some done_recovery \<and>
   rec_at restarted_state (rid 2) = Some second_recovery \<and>
   rd_ClosedAt done_recovery + lc_RecoveryCooldown (cfgLockout recovery_server) \<le> rd_CreatedAt second_recovery"
  using recovery_cooldown_holds [OF reach_restarted delay_positive run_restart(2) _ run_restart(3)] reach_restarted run_restart
  by (simp add: done_recovery_def second_recovery_def first_recovery_def by_operator_def FactorDocument_def FactorOperatorReview_def)

end
