(* ===== verification/Issuance_Example.thy ===== *)
theory Issuance_Example
  imports Issuance_Safety Recovery_Example
begin

text \<open>
  A holder is revoked, the issuer serves another request, and another holder is issued a credential: the
  example of the issuance properties.
\<close>

definition two_holders :: server_state where
  "two_holders = sample_issued\<lparr>ss_faults := [],
     ss_sessions := sample_sessions_of ''s9'' (sample_session_of ''s9'' 9 150 [sample_vm])\<rparr>"

lemma other_did [simp]: "sample_did n \<noteq> ''did:x''" "''did:x'' \<noteq> sample_did n" "sample_did n \<noteq> ''''"
proof -
  have "Ed25519FromDIDKey '''' = None" by (simp add: Ed25519FromDIDKey_def has_prefix_def)
  then show "sample_did n \<noteq> ''did:x''" "''did:x'' \<noteq> sample_did n" "sample_did n \<noteq> ''''"
    using no_did_key sample_did(2) [of n] by (metis option.distinct(1))+
qed

lemma run_revocation:
  "\<exists>rep s1. revokeHolder sample_server ''did:x'' sample_ban 160 two_holders = (Inr rep, s1) \<and>
     ss_faults s1 = [] \<and> ss_sessions s1 = ss_sessions two_holders \<and> ss_kv s1 = newMemKV \<and> rv_used (ss_revocations s1) = [] \<and>
     ledger_Banned (ss_holders s1) BanKindHolder (sample_did 9) = False \<and>
     (\<forall>c. length c > 2 \<longrightarrow> ledger_Banned (ss_holders s1) BanKindNullifier c = False)"
  by (simp add: two_holders_def revokeHolder_def andThen_def ret_def holders_Ban_def holders_Issuances_def attempt_def sample_issued_def
        ledger_RecordIssuance_def ledger_Issuances_def NewInMemoryHolderLedger_def case_prod_beta touched_nullifiers_def holder_nullifier_def
        revoke_issued_def revocations_Revoke_def revocation_Revoke_def revocation_Bind_def ban_nullifier_def sample_server_def sample_state_def
        ledger_Ban_def ban_kinds ban_key_def)
    (auto simp: ledger_Banned_def ban_key_def NewInMemoryRevocationStore_def)

definition view9 :: session_view where
  "view9 = session_to_view (sample_session_of ''s9'' 9 150 [sample_vm])"

definition nb9 :: nullifier_binding where
  "nb9 = the (NullifierBindingForHolder sample_crypto (sample_key 9))"

lemma nb9: "NullifierBindingForHolder sample_crypto (sample_key 9) = Some nb9" "length (nb_Commitment nb9) > 2"
  by (simp_all add: nb9_def NullifierBindingForHolder_def sha256_hex_def sample_crypto_def)

lemma view9: "sv_ID view9 = ''s9''" "sv_HolderDID view9 = sample_did 9" "sv_HolderPublicKey view9 = sample_key 9"
  "sv_VerifiedMethods view9 = [sample_vm]" "sv_AnchorMethodID view9 = None" "sv_IssuedCredentialID view9 = ''''"
  "sv_IdentifierKeys view9 = []"
  by (simp_all add: view9_def session_to_view_def sample_session_of_def copyStringMap_def)

lemma server_fields: "cf_crypto sample_server = sample_crypto" "cf_json sample_server = sample_json"
  "cf_issuer sample_server = Some sample_issuer" "cf_RequireHolderPoP sample_server = False"
  "cf_holderRevocation sample_server = True" "cf_identifierKeys sample_server = None"
  "cf_lockout sample_server = Some sample_lockout" "cf_credentialLifetime sample_server = 365 * ns_day"
  by (simp_all add: sample_server_def)

lemma no_selfie: "selfieCommitment [sample_vm] = ''''"
  by (simp add: selfieCommitment_def sample_vm_def SelfieMethodID_def NativeMethodID_def)

lemma issues: "\<exists>cred. Issue sample_crypto sample_json (Some sample_issuer) (sample_did 9) [sample_vm] None
     (Some nb9) 200 (200 + 365 * ns_day) (Some 7) = Inr cred"
  by (simp add: Issue_Inr unsigned_Validate sample_json_canon ns_day_def)
    (simp add: sample_issuer_def NewIssuer_def sample_key_def key_sizes)

text \<open>The issuance runs through in every state that the revocation and further requests can have left like this.\<close>

definition ready_state :: "server_state \<Rightarrow> bool" where
  "ready_state s \<longleftrightarrow> ss_faults s = [] \<and> ss_sessions s = ss_sessions two_holders \<and> ss_kv s = newMemKV \<and>
     rv_used (ss_revocations s) = [] \<and> \<not> ledger_Banned (ss_holders s) BanKindHolder (sample_did 9) \<and>
     (\<forall>c. length c > 2 \<longrightarrow> \<not> ledger_Banned (ss_holders s) BanKindNullifier c)"

definition request9 :: issue_request where
  "request9 = \<lparr>iq_SessionID = ''s9'', iq_HolderProofB64 = ''''\<rparr>"

lemma run_issue:
  assumes "ready_state s"
  shows "\<exists>cred s'. handleIssueCredential sample_server (Some request9) None (sample_rnd 7) 200 s = (Inr cred, s') \<and>
     cs_ID (vc_CredentialSubject cred) = sample_did 9"
proof -
  note a = assms [unfolded ready_state_def]
  obtain cred where c: "Issue sample_crypto sample_json (Some sample_issuer) (sample_did 9) [sample_vm] None
      (Some nb9) 200 (200 + 365 * ns_day) (Some 7) = Inr cred"
    using issues ..
  have id9: "cs_ID (vc_CredentialSubject cred) = sample_did 9" using c by (auto simp: Issue_Inr)
  have get: "session_lookup (ss_sessions s) ''s9'' 200 = (Inr (sample_session_of ''s9'' 9 150 [sample_vm]), ss_sessions s)"
    using a by (simp add: session_lookup_def two_holders_def sample_sessions_of_def sample_session_of_def)
  have view: "session_or_404 ''s9'' 200 s = (Inr view9, s)"
    by (simp add: session_or_404_def sessions_Get_def session_Get_def get run_comp view9_def)
  have pop: "checkHolderPoP sample_server view9 '''' = None"
    by (simp add: checkHolderPoP_def server_fields)
  have nb: "session_nullifier sample_server view9 None s = (Inr (Some nb9), s)"
    by (simp add: session_nullifier_def view9 server_fields no_selfie nb9 Let_def run_comp)
  have checks: "issuance_checks sample_server view9 (Some nb9) None s = (Inr [nb_Commitment nb9], s)"
    using a nb9 by (simp add: issuance_checks_def sessionNullifierCommitments_def checkHolderBans_def holders_Banned_def view9
      server_fields no_selfie add_commitment_def Let_def run_comp lockoutIssuanceCheck_def activeRecoveryFor_def
      faceMatchDeclined_def faceMatch_def)
  obtain u where bind: "revocations_Allocate (sample_rnd 7) s = (Inr (Inr 7), u)" "ss_faults u = []" "ss_kv u = newMemKV" "ss_sessions u = ss_sessions s"
    using a by (simp add: revocations_Allocate_def attempt_def first_attempt randomSlot_def sample_rnd_def statusListSize_def)
  obtain w where rec: "record_issuance sample_server view9 cred [nb_Commitment nb9] 200 (u\<lparr>ss_revocations := revocation_Bind 7 (vc_ID cred) (ss_revocations u)\<rparr>)
      = (Inr (), w)" "ss_sessions w = ss_sessions s"
    using bind by (simp add: record_issuance_def server_fields holders_RecordIssuance_def run_comp lockoutRecordIssuance_def
      setHolderOf_def view9 no_selfie Let_def faceMatchDeclined_def faceMatch_def)
  have mark: "\<exists>x. sessions_MarkIssued ''s9'' (vc_ID cred) 200 w = (Inr None, x)"
    by (simp add: sessions_MarkIssued_def session_MarkIssued_def rec get) (simp add: sample_session_of_def)
  show ?thesis
    using mark view pop nb checks bind(1,2) c rec(1) id9
    by (auto simp: handleIssueCredential_def request9_def andThen_def or500_def onError_def decode_body_def ret_def check_def
      refuseIf_def view9 server_fields revocations_Bind_def attempt_def)
qed

theorem issued_only_to_unbanned_witness:
  "\<exists>(s :: server_state) cred (s' :: server_state).
     handleIssueCredential sample_server (Some request9) None (sample_rnd 7) 200 s = (Inr cred, s') \<and>
     issuance_on_record (hl_bans (ss_holders s)) cred s'"
  using run_revocation run_issue issued_only_to_unbanned [of sample_server] unfolding ready_state_def
  by (metis server_fields(5))

theorem revoked_never_reissued_witness:
  "\<exists>rep (s1 :: server_state) cred (s2 :: server_state).
     revokeHolder sample_server ''did:x'' sample_ban 160 two_holders = (Inr rep, s1) \<and>
     handleIssueCredential sample_server (Some request9) None (sample_rnd 7) 200 s1 = (Inr cred, s2) \<and>
     cs_ID (vc_CredentialSubject cred) = sample_did 9 \<and> cs_ID (vc_CredentialSubject cred) \<noteq> ''did:x''"
proof -
  obtain rep and s1 :: server_state where r: "revokeHolder sample_server ''did:x'' sample_ban 160 two_holders = (Inr rep, s1)"
    "ready_state s1"
    using run_revocation unfolding ready_state_def by blast
  obtain cred and s2 :: server_state where i: "handleIssueCredential sample_server (Some request9) None (sample_rnd 7) 200 s1 = (Inr cred, s2)"
    "cs_ID (vc_CredentialSubject cred) = sample_did 9"
    using run_issue [OF r(2)] by blast
  have "cs_ID (vc_CredentialSubject cred) \<noteq> ''did:x''"
    using revoked_never_reissued [OF sample_server_ranges _ r(1) srv_refl i(1)] server_fields(5) by blast
  with r i show ?thesis by blast
qed

end
