(* ===== verification/Fuzzy_Extractor.thy ===== *)
theory Fuzzy_Extractor
  imports Codec
begin

text \<open>
  The fuzzy extractor of the selfie anchor, \<open>src/src/methods/fuzzy-extractor-selfie/extractor.go\<close>: a
  commitment to a 17-bit seed through a repetition code of 17 blocks of 15 bits over a 256-bit template.
  A byte slice is a list of 8-bit words here, since the code works on its bits. \<open>bitAt\<close> and
  \<open>withinTolerance\<close> are the abstract view: which bits are set, and which templates reproduce a commitment.
\<close>

unbundle bit_operations_syntax

type_synonym octet = "8 word"
type_synonym commitment = bytes

section \<open>Constants\<close>

definition TemplateBytes :: nat where "TemplateBytes = 32"
definition templateBits :: nat where "templateBits = TemplateBytes * 8"
definition BlockBits :: nat where "BlockBits = 15"
definition numBlocks :: nat where "numBlocks = templateBits div BlockBits"
definition usedBits :: nat where "usedBits = numBlocks * BlockBits"
definition seedBytes :: nat where "seedBytes = (numBlocks + 7) div 8"
definition MaxResidualBits :: nat where "MaxResidualBits = usedBits div 4"
definition domainTag :: string where "domainTag = ''personhood-fuzzy-extractor-v1''"

definition boolToInt :: "bool \<Rightarrow> nat" where
  "boolToInt v = (if v then 1 else 0)"

definition usedByteLen :: nat where
  "usedByteLen = usedBits div 8 + boolToInt (usedBits mod 8 \<noteq> 0)"

lemma fuzzy_constants:
  "TemplateBytes = 32" "templateBits = 256" "BlockBits = 15" "numBlocks = 17" "usedBits = 255"
  "seedBytes = 3" "MaxResidualBits = 63" "usedByteLen = 32"
  by (simp_all add: TemplateBytes_def templateBits_def BlockBits_def numBlocks_def usedBits_def
      seedBytes_def MaxResidualBits_def usedByteLen_def boolToInt_def)

section \<open>Bits of a byte slice\<close>

text \<open>Bit 0 is the most significant bit of byte 0. A read outside the slice is 0, a write a no-op.\<close>

definition getBit :: "octet list \<Rightarrow> nat \<Rightarrow> octet" where
  "getBit b i = (let byteIdx = i div 8; bitIdx = 7 - i mod 8 in
     if byteIdx \<ge> length b then 0 else drop_bit bitIdx (b ! byteIdx) AND 1)"

definition setBit :: "octet list \<Rightarrow> nat \<Rightarrow> octet \<Rightarrow> octet list" where
  "setBit b i v = (let byteIdx = i div 8; bitIdx = 7 - i mod 8 in
     if byteIdx \<ge> length b then b
     else if v = 1 then b[byteIdx := b ! byteIdx OR push_bit bitIdx 1]
     else b[byteIdx := b ! byteIdx AND NOT (push_bit bitIdx 1)])"

definition xorBytes :: "octet list \<Rightarrow> octet list \<Rightarrow> octet list" where
  "xorBytes a b = (let n = (if length b < length a then length b else length a) in
     map (\<lambda>i. a ! i XOR b ! i) [0..<n])"

text \<open>The bit-counting loop clears the lowest set bit, \<open>by &= by - 1\<close>, until none is left.\<close>

lemma clear_lowest_less:
  assumes "w \<noteq> (0 :: octet)"
  shows "unat (w AND (w - 1)) < unat w"
proof -
  have "w AND (w - 1) \<le> w - 1" by (metis and.commute word_and_le1)
  moreover have "w - 1 < w" using assms by (simp add: word_less_nat_alt unat_gt_0 unat_minus_one)
  ultimately show ?thesis by (metis order_le_less_trans word_less_nat_alt)
qed

function (domintros) clear_bits :: "octet \<Rightarrow> nat \<Rightarrow> nat" where
  "clear_bits w n = (if w \<noteq> 0 then clear_bits (w AND (w - 1)) (n + 1) else n)"
  by auto
termination
  by (relation "measure (\<lambda>(w, _). unat w)") (auto simp: clear_lowest_less)

lemma clear_bits_ends: "clear_bits_dom (w, n)"
proof (induction "unat w" arbitrary: w n rule: less_induct)
  case less
  show ?case
    by (rule clear_bits.domintros) (use less clear_lowest_less in simp)
qed

declare clear_bits.simps [simp del]

definition hammingDistance :: "octet list \<Rightarrow> octet list \<Rightarrow> nat" where
  "hammingDistance a b = fold clear_bits (xorBytes a b) 0"

section \<open>The repetition code\<close>

text \<open>The state of a loop is what it writes and the running bit position.\<close>

definition writeRepeat :: "octet \<Rightarrow> nat \<Rightarrow> octet list \<times> nat \<Rightarrow> octet list \<times> nat" where
  "writeRepeat v i = (\<lambda>(out, bitPos). (setBit out bitPos v, bitPos + 1))"

definition expandBlock :: "octet list \<Rightarrow> nat \<Rightarrow> octet list \<times> nat \<Rightarrow> octet list \<times> nat" where
  "expandBlock seed block s = fold (writeRepeat (getBit seed block)) [0..<BlockBits] s"

definition expandSeed :: "octet list \<Rightarrow> octet list" where
  "expandSeed seed = fst (fold (expandBlock seed) [0..<numBlocks] (replicate usedByteLen 0, 0))"

definition countOne :: "octet list \<Rightarrow> nat \<Rightarrow> nat \<times> nat \<Rightarrow> nat \<times> nat" where
  "countOne x i = (\<lambda>(ones, bitPos). (if getBit x bitPos = 1 then ones + 1 else ones, bitPos + 1))"

definition voteBlock :: "octet list \<Rightarrow> nat \<Rightarrow> octet list \<times> nat \<Rightarrow> octet list \<times> nat" where
  "voteBlock x block = (\<lambda>(seed, bitPos).
     let (ones, bitPos') = fold (countOne x) [0..<BlockBits] (0, bitPos)
     in (if ones * 2 > BlockBits then setBit seed block 1 else seed, bitPos'))"

definition majorityDecode :: "octet list \<Rightarrow> octet list" where
  "majorityDecode x = fst (fold (voteBlock x) [0..<numBlocks] (replicate seedBytes 0, 0))"

definition clearPaddingBits :: "octet list \<Rightarrow> octet list" where
  "clearPaddingBits seed = fold (\<lambda>i seed. setBit seed i 0) [numBlocks..<seedBytes * 8] seed"

section \<open>Gen and Rep\<close>

datatype fuzzy_error = ErrBadTemplateLength | ErrGenerateSeed | ErrHelperLength nat

text \<open>A \<open>[32]byte\<close> filled by \<open>copy\<close>, and the bytes a hash reads.\<close>

definition copy32 :: "bytes \<Rightarrow> bytes" where
  "copy32 b = take 32 (b @ replicate 32 (byte 0))"

definition octets_bytes :: "octet list \<Rightarrow> bytes" where
  "octets_bytes = map (\<lambda>w. byte (unat w))"

definition bytes_octets :: "bytes \<Rightarrow> octet list" where
  "bytes_octets = map (\<lambda>c. of_nat (byte_of c))"

definition commitmentFromSeed :: "crypto \<Rightarrow> octet list \<Rightarrow> commitment" where
  "commitmentFromSeed cr seed = copy32 (c_sha256 cr (domainTag @ octets_bytes seed))"

text \<open>
  The three random bytes of the seed are an argument, \<open>None\<close> when \<open>rand.Read\<close> fails. The result is the
  helper data and the commitment.
\<close>

definition Gen ::
  "crypto \<Rightarrow> (octet \<times> octet \<times> octet) option \<Rightarrow> octet list \<Rightarrow> fuzzy_error + octet list \<times> commitment" where
  "Gen cr rand template =
     (if length template \<noteq> TemplateBytes then Inl ErrBadTemplateLength
      else case rand of
        None \<Rightarrow> Inl ErrGenerateSeed
      | Some (r0, r1, r2) \<Rightarrow>
          (let seed = clearPaddingBits [r0, r1, r2];
               codeword = expandSeed seed;
               helper = xorBytes (take usedByteLen template) codeword
           in Inr (helper, commitmentFromSeed cr seed)))"

text \<open>\<open>Inr None\<close> is \<open>ok = false\<close>.\<close>

definition Rep :: "crypto \<Rightarrow> octet list \<Rightarrow> octet list \<Rightarrow> fuzzy_error + commitment option" where
  "Rep cr template helper =
     (if length template \<noteq> TemplateBytes then Inl ErrBadTemplateLength
      else if length helper \<noteq> usedByteLen then Inl (ErrHelperLength (length helper))
      else
        (let x = xorBytes (take usedByteLen template) helper;
             seedGuess = majorityDecode x;
             residual = hammingDistance x (expandSeed seedGuess)
         in if residual > MaxResidualBits then Inr None
            else Inr (Some (commitmentFromSeed cr seedGuess))))"

section \<open>The abstract view\<close>

definition bitAt :: "octet list \<Rightarrow> nat \<Rightarrow> bool" where
  "bitAt b i \<longleftrightarrow> i div 8 < length b \<and> bit (b ! (i div 8)) (7 - i mod 8)"

text \<open>How many of the positions \<open>is\<close> hold different bits.\<close>

definition flips :: "octet list \<Rightarrow> octet list \<Rightarrow> nat list \<Rightarrow> nat" where
  "flips a b ps = length (filter (\<lambda>i. bitAt a i \<noteq> bitAt b i) ps)"

definition blockBitsOf :: "nat \<Rightarrow> nat list" where
  "blockBitsOf k = [15 * k..<15 * k + 15]"

definition withinTolerance :: "octet list \<Rightarrow> octet list \<Rightarrow> bool" where
  "withinTolerance w w' \<longleftrightarrow>
     list_all (\<lambda>k. flips w w' (blockBitsOf k) \<le> 7) [0..<17] \<and> flips w w' [0..<256] \<le> 63"

lemma getBit_bitAt: "getBit b i = of_bool (bitAt b i)"
  by (simp add: getBit_def bitAt_def Let_def and_one_eq bit_iff_odd_drop_bit mod_2_eq_odd)

lemma length_setBit [simp]: "length (setBit b i v) = length b"
  by (simp add: setBit_def Let_def)

lemma mod8_sub: "7 - i mod 8 = 7 - j mod 8 \<Longrightarrow> i div 8 = j div 8 \<Longrightarrow> i = (j :: nat)"
proof -
  assume "7 - i mod 8 = 7 - j mod 8" "i div 8 = j div 8"
  moreover have "i mod 8 < 8" "j mod 8 < 8" by simp_all
  ultimately have "i mod 8 = j mod 8" by linarith
  then show "i = j" using \<open>i div 8 = j div 8\<close> by (metis div_mult_mod_eq)
qed

lemma bit_write:
  "n < 8 \<Longrightarrow> bit ((w :: octet) OR push_bit n 1) m \<longleftrightarrow> m = n \<or> bit w m"
  "n < 8 \<Longrightarrow> bit (w AND NOT (push_bit n 1)) m \<longleftrightarrow> m \<noteq> n \<and> bit w m"
  by (auto simp: bit_simps dest: bit_imp_le_length)

lemma bitAt_setBit:
  "bitAt (setBit b i v) j \<longleftrightarrow> (if j = i \<and> i div 8 < length b then v = 1 else bitAt b j)"
proof (cases "i div 8 < length b \<and> i div 8 = j div 8")
  case True
  have m: "7 - j mod 8 = 7 - i mod 8 \<longleftrightarrow> j = i" using mod8_sub True by metis
  have p: "7 - i mod 8 < 8" by simp
  have "bitAt (setBit b i v) j \<longleftrightarrow> bit (if v = 1 then b ! (i div 8) OR push_bit (7 - i mod 8) 1
      else b ! (i div 8) AND NOT (push_bit (7 - i mod 8) 1)) (7 - j mod 8)"
    using True by (simp add: bitAt_def setBit_def Let_def)
  also have "\<dots> \<longleftrightarrow> (if j = i then v = 1 else bit (b ! (i div 8)) (7 - j mod 8))"
    using bit_write [OF p, of "b ! (i div 8)" "7 - j mod 8"] m by auto
  finally show ?thesis using True by (simp add: bitAt_def)
next
  case False
  then show ?thesis by (auto simp: bitAt_def setBit_def Let_def nth_list_update)
qed

lemma length_xorBytes [simp]: "length (xorBytes a b) = min (length a) (length b)"
  by (simp add: xorBytes_def Let_def)

lemma bitAt_xorBytes:
  "bitAt (xorBytes a b) i \<longleftrightarrow> i div 8 < min (length a) (length b) \<and> bitAt a i \<noteq> bitAt b i"
  by (auto simp: bitAt_def xorBytes_def Let_def bit_simps)

lemma octets_eqI:
  assumes "length a = length b" "\<And>i. i < 8 * length a \<Longrightarrow> bitAt a i = bitAt b i"
  shows "a = b"
proof (rule nth_equalityI [OF assms(1)])
  fix k assume k: "k < length a"
  show "a ! k = b ! k"
  proof (rule bit_word_eqI)
    fix n assume "n < LENGTH(8)"
    then obtain m where m: "m < 8" "n = 7 - m" 
      by (intro that [of "7 - n"]) auto
    have "bitAt a (8 * k + m) = bitAt b (8 * k + m)" using k m by (intro assms(2)) simp
    moreover have "(8 * k + m) div 8 = k" "(8 * k + m) mod 8 = m" using m by simp_all
    ultimately show "bit (a ! k) n = bit (b ! k) n" using k assms(1) m by (simp add: bitAt_def)
  qed
qed

section \<open>What the operations do to bits\<close>

text \<open>The counting loop adds the number of set bits.\<close>

lemma clear_lowest_nat:
  "0 < n \<Longrightarrow> \<exists>j. bit n j \<and> (\<forall>m. bit n m \<and> bit (n - 1) m \<longleftrightarrow> bit (n :: nat) m \<and> m \<noteq> j)"
proof (induction n rule: nat_bit_induct)
  case zero
  then show ?case by simp
next
  case (even n)
  then obtain j where j: "bit n j" "\<And>m. bit n m \<and> bit (n - 1) m \<longleftrightarrow> bit n m \<and> m \<noteq> j" by auto
  have h: "(2 * n - 1) div 2 = n - 1" using even by simp
  have "bit (2 * n) m \<and> bit (2 * n - 1) m \<longleftrightarrow> bit (2 * n) m \<and> m \<noteq> Suc j" for m
    using j(2) h by (cases m) (simp_all add: bit_0 bit_Suc)
  moreover have "bit (2 * n) (Suc j)" using j(1) by (simp add: bit_Suc)
  ultimately show ?case by blast
next
  case (odd n)
  have "bit (Suc (2 * n)) m \<and> bit (Suc (2 * n) - 1) m \<longleftrightarrow> bit (Suc (2 * n)) m \<and> m \<noteq> 0" for m
    by (cases m) (simp_all add: bit_0 bit_Suc)
  moreover have "bit (Suc (2 * n)) 0" by (simp add: bit_0)
  ultimately show ?case by blast
qed

lemma clear_lowest_bits:
  assumes "w \<noteq> (0 :: octet)"
  obtains j where "bit w j" "{n. bit (w AND (w - 1)) n} = {n. bit w n} - {j}"
proof -
  have "0 < unat w" "unat (w - 1) = unat w - 1" using assms by (simp_all add: unat_gt_0 unat_minus_one)
  then obtain j where j: "bit (unat w) j"
    "\<And>m. bit (unat w) m \<and> bit (unat (w - 1)) m \<longleftrightarrow> bit (unat w) m \<and> m \<noteq> j"
    using clear_lowest_nat [of "unat w"] by auto
  show ?thesis
    by (rule that [of j]) (use j in \<open>auto simp: bit_simps bit_unsigned_iff dest: bit_imp_le_length\<close>)
qed

lemma finite_bits: "finite {n. bit (w :: octet) n}"
  by (rule finite_subset [of _ "{..<8}"]) (auto dest: bit_imp_le_length)

lemma clear_bits_count: "clear_bits w n = n + card {m. bit w m}"
proof (induction w n rule: clear_bits.induct)
  case (1 w n)
  show ?case
  proof (cases "w = 0")
    case True
    then show ?thesis using clear_bits.simps [of 0 n] by simp
  next
    case False
    obtain j where j: "bit w j" "{n. bit (w AND (w - 1)) n} = {n. bit w n} - {j}"
      by (rule clear_lowest_bits [OF False])
    have "card {m. bit w m} = Suc (card ({m. bit w m} - {j}))"
      using card_Suc_Diff1 [OF finite_bits, of j w] j(1) by simp
    then show ?thesis using 1 [OF False] False j(2) by (simp add: clear_bits.simps [of w])
  qed
qed

lemma bit_octet: "bit (w :: octet) m \<Longrightarrow> m < 8 \<and> 7 - (7 - m) = m \<and> bit w (7 - (7 - m))"
  by (frule bit_imp_le_length) simp

lemma card_byte_bits: "card {m. bit (w :: octet) m} = length (filter (\<lambda>i. bit w (7 - i)) [0..<8])"
proof -
  have "card {m. bit w m} = card (set (filter (\<lambda>i. bit w (7 - i)) [0..<8]))"
  proof (rule bij_betw_same_card [of "\<lambda>m. 7 - m"])
    show "bij_betw (\<lambda>m. 7 - m) {m. bit w m} (set (filter (\<lambda>i. bit w (7 - i)) [0..<8]))"
      by (rule bij_betw_byWitness [where f' = "\<lambda>m. 7 - m"]) (auto dest: bit_octet)
  qed
  also have "\<dots> = length (filter (\<lambda>i. bit w (7 - i)) [0..<8])" by (intro distinct_card distinct_filter distinct_upt)
  finally show ?thesis .
qed

lemma fold_clear_bits:
  "fold clear_bits b n = n + length (filter (bitAt b) [0..<8 * length b])"
proof (induction b arbitrary: n rule: rev_induct)
  case (snoc w b)
  have "filter (bitAt (b @ [w])) [0..<8 * length b] = filter (bitAt b) [0..<8 * length b]"
    by (rule filter_cong) (auto simp: bitAt_def nth_append)
  moreover have "length (filter (bitAt (b @ [w])) [8 * length b..<8 * length b + 8]) = card {m. bit w m}"
  proof -
    have s: "[8 * length b..<8 * length b + 8] = map (\<lambda>i. 8 * length b + i) [0..<8]"
      by (simp add: map_add_upt add.commute)
    show ?thesis
      unfolding s filter_map length_map card_byte_bits
      by (intro arg_cong [where f = length] filter_cong) (auto simp: bitAt_def nth_append)
  qed
  ultimately show ?case
    using snoc upt_add_eq_append [of 0 "8 * length b" 8] by (simp add: clear_bits_count algebra_simps)
qed simp

lemma hammingDistance_flips:
  "hammingDistance a b = flips a b [0..<8 * min (length a) (length b)]"
proof -
  have "i < 8 * min (length a) (length b) \<Longrightarrow> i div 8 < min (length a) (length b)" for i
    by (rule less_mult_imp_div_less) (simp only: mult.commute)
  then show ?thesis
    unfolding hammingDistance_def fold_clear_bits flips_def add_0 length_xorBytes
    by (intro arg_cong [where f = length] filter_cong refl) (simp only: bitAt_xorBytes set_upt atLeastLessThan_iff simp_thms)
qed

text \<open>The codeword repeats bit \<open>k\<close> of the seed over block \<open>k\<close>; the decoder takes the majority of each block.\<close>

lemma fold_writeRepeat:
  "\<exists>out'. fold (writeRepeat v) [0..<n] (out, p) = (out', p + n) \<and> length out' = length out \<and>
     (\<forall>j. bitAt out' j \<longleftrightarrow> (if p \<le> j \<and> j < p + n \<and> j div 8 < length out then v = 1 else bitAt out j))"
proof (induction n)
  case (Suc n)
  then obtain out' where out':
    "fold (writeRepeat v) [0..<n] (out, p) = (out', p + n)" "length out' = length out"
    "\<And>j. bitAt out' j \<longleftrightarrow> (if p \<le> j \<and> j < p + n \<and> j div 8 < length out then v = 1 else bitAt out j)"
    by blast
  have "fold (writeRepeat v) [0..<Suc n] (out, p) = (setBit out' (p + n) v, p + Suc n)"
    by (simp add: out'(1) writeRepeat_def)
  then show ?case using out'(2,3) by (auto simp: bitAt_setBit)
qed auto

lemma expandBlock_bits:
  assumes "length out = 32" "n < 17" "\<And>j. bitAt out j \<longleftrightarrow> j < 15 * n \<and> bitAt seed (j div 15)"
  obtains out' where "expandBlock seed n (out, 15 * n) = (out', 15 * Suc n)" "length out' = 32"
    "\<And>j. bitAt out' j \<longleftrightarrow> j < 15 * Suc n \<and> bitAt seed (j div 15)"
proof -
  obtain out' where out': "expandBlock seed n (out, 15 * n) = (out', 15 * n + 15)" "length out' = length out"
    "\<And>j. bitAt out' j \<longleftrightarrow> (if 15 * n \<le> j \<and> j < 15 * n + 15 \<and> j div 8 < length out
        then getBit seed n = 1 else bitAt out j)"
    unfolding expandBlock_def fuzzy_constants using fold_writeRepeat by blast
  have "bitAt out' j \<longleftrightarrow> j < 15 * Suc n \<and> bitAt seed (j div 15)" for j
  proof (cases "15 * n \<le> j \<and> j < 15 * n + 15")
    case True
    then have "j div 15 = n" by (intro div_nat_eqI) auto
    moreover have "j div 8 < 32" using True assms(2) by (simp add: less_mult_imp_div_less)
    ultimately show ?thesis using True by (simp add: out'(3) assms(1) getBit_bitAt)
  next
    case False
    then show ?thesis unfolding out'(3) assms(3) by auto
  qed
  then show ?thesis using that [of out'] out'(1,2) assms(1) by simp
qed

lemma fold_expandBlock:
  "n \<le> 17 \<Longrightarrow> \<exists>out. fold (expandBlock seed) [0..<n] (replicate 32 0, 0) = (out, 15 * n) \<and> length out = 32 \<and>
     (\<forall>j. bitAt out j \<longleftrightarrow> j < 15 * n \<and> bitAt seed (j div 15))"
proof (induction n)
  case 0
  then show ?case by (simp add: bitAt_def)
next
  case (Suc n)
  then obtain out where out: "fold (expandBlock seed) [0..<n] (replicate 32 0, 0) = (out, 15 * n)"
    "length out = 32" "\<And>j. bitAt out j \<longleftrightarrow> j < 15 * n \<and> bitAt seed (j div 15)"
    by auto
  obtain out' where "expandBlock seed n (out, 15 * n) = (out', 15 * Suc n)" "length out' = 32"
    "\<And>j. bitAt out' j \<longleftrightarrow> j < 15 * Suc n \<and> bitAt seed (j div 15)"
    by (rule expandBlock_bits [OF out(2) _ out(3)]) (use Suc.prems in auto)
  then show ?case by (intro exI [of _ out']) (simp add: out(1))
qed

lemma bitAt_expandSeed: "bitAt (expandSeed seed) j \<longleftrightarrow> j < 255 \<and> bitAt seed (j div 15)"
  and length_expandSeed [simp]: "length (expandSeed seed) = 32"
proof -
  obtain out where out: "fold (expandBlock seed) [0..<17] (replicate 32 0, 0) = (out, 15 * 17)" "length out = 32"
     "\<And>j. bitAt out j \<longleftrightarrow> j < 15 * 17 \<and> bitAt seed (j div 15)"
    using fold_expandBlock [OF order_refl] by blast
  have e: "expandSeed seed = out" unfolding expandSeed_def fuzzy_constants out(1) by (rule fst_conv)
  show "length (expandSeed seed) = 32" by (simp add: e out(2))
  show "bitAt (expandSeed seed) j \<longleftrightarrow> j < 255 \<and> bitAt seed (j div 15)" by (simp add: e out(3))
qed

lemma fold_countOne:
  "fold (countOne x) [0..<n] (ones, p) = (ones + length (filter (bitAt x) [p..<p + n]), p + n)"
  by (induction n) (simp_all add: getBit_bitAt countOne_def)

lemma voteBlock_eq:
  "voteBlock x n (seed, 15 * n) =
     (if 7 < length (filter (bitAt x) (blockBitsOf n)) then setBit seed n 1 else seed, 15 * Suc n)"
  by (auto simp: voteBlock_def fuzzy_constants fold_countOne blockBitsOf_def simp del: upt_rec_numeral)

lemma fold_voteBlock:
  "n \<le> 17 \<Longrightarrow> \<exists>seed. fold (voteBlock x) [0..<n] (replicate 3 0, 0) = (seed, 15 * n) \<and> length seed = 3 \<and>
     (\<forall>k. bitAt seed k \<longleftrightarrow> k < n \<and> 7 < length (filter (bitAt x) (blockBitsOf k)))"
proof (induction n)
  case 0
  then show ?case by (simp add: bitAt_def)
next
  case (Suc n)
  then obtain seed where seed: "fold (voteBlock x) [0..<n] (replicate 3 0, 0) = (seed, 15 * n)"
    "length seed = 3" "\<And>k. bitAt seed k \<longleftrightarrow> k < n \<and> 7 < length (filter (bitAt x) (blockBitsOf k))"
    by auto
  have "n div 8 < 3" using Suc.prems by (simp add: less_mult_imp_div_less)
  then show ?case using seed(2) by (auto simp: seed(1,3) voteBlock_eq bitAt_setBit less_Suc_eq)
qed

lemma bitAt_majorityDecode:
    "bitAt (majorityDecode x) k \<longleftrightarrow> k < 17 \<and> 7 < length (filter (bitAt x) (blockBitsOf k))"
  and length_majorityDecode [simp]: "length (majorityDecode x) = 3"
proof -
  obtain seed where seed: "fold (voteBlock x) [0..<17] (replicate 3 0, 0) = (seed, 15 * 17)" "length seed = 3"
     "\<And>k. bitAt seed k \<longleftrightarrow> k < 17 \<and> 7 < length (filter (bitAt x) (blockBitsOf k))"
    using fold_voteBlock [OF order_refl] by blast
  have e: "majorityDecode x = seed" unfolding majorityDecode_def fuzzy_constants seed(1) by (rule fst_conv)
  show "length (majorityDecode x) = 3" by (simp add: e seed(2))
  show "bitAt (majorityDecode x) k \<longleftrightarrow> k < 17 \<and> 7 < length (filter (bitAt x) (blockBitsOf k))"
    by (simp only: e seed(3))
qed

lemma length_fold_clear: "length (fold (\<lambda>i seed. setBit seed i 0) ps seed) = length seed"
  by (induction ps arbitrary: seed) simp_all

lemma bitAt_fold_clear: "bitAt (fold (\<lambda>i seed. setBit seed i 0) ps seed) k \<longleftrightarrow> k \<notin> set ps \<and> bitAt seed k"
proof (induction ps arbitrary: seed)
  case (Cons i ps)
  have "bitAt (setBit seed i 0) k \<longleftrightarrow> k \<noteq> i \<and> bitAt seed k"
    unfolding bitAt_setBit by (auto simp: bitAt_def)
  then show ?case using Cons by auto
qed simp

lemma length_clearPaddingBits [simp]: "length (clearPaddingBits seed) = length seed"
  by (simp add: clearPaddingBits_def length_fold_clear)

lemma bitAt_clearPaddingBits:
  "length seed = 3 \<Longrightarrow> bitAt (clearPaddingBits seed) k \<longleftrightarrow> k < 17 \<and> bitAt seed k"
proof -
  assume "length seed = 3"
  then have "bitAt seed k \<Longrightarrow> k < 24" by (auto simp: bitAt_def)
  then show ?thesis
    unfolding clearPaddingBits_def bitAt_fold_clear fuzzy_constants set_upt by auto
qed

section \<open>What Gen and Rep establish\<close>

lemma flips_sym: "flips a b ps = flips b a ps"
  unfolding flips_def by (intro arg_cong [where f = length] filter_cong) auto

text \<open>Flipping the bits of a constant block keeps its value while at most seven are flipped.\<close>

lemma length_filter_not:
  "length (filter (\<lambda>i. \<not> P i) ps) + length (filter P ps) = length ps"
  using sum_length_filter_compl [of P ps] by simp

lemma decode_block:
  assumes "length w = 32" "length w' = 32" "length seed = 3" "k < 17"
  shows "bitAt (majorityDecode (xorBytes w' (xorBytes w (expandSeed seed)))) k \<longleftrightarrow>
     (bitAt seed k \<longleftrightarrow> flips w w' (blockBitsOf k) \<le> 7)"
proof -
  let ?x = "xorBytes w' (xorBytes w (expandSeed seed))"
  have x: "bitAt ?x i \<longleftrightarrow> (bitAt w i \<noteq> bitAt w' i) \<noteq> bitAt seed k" if "i \<in> set (blockBitsOf k)" for i
  proof -
    have i: "15 * k \<le> i" "i < 15 * k + 15" using that by (auto simp: blockBitsOf_def)
    then have "i div 15 = k" by (intro div_nat_eqI) auto
    moreover have "i div 8 < 32" "i < 255" using i assms(4) by (auto intro: less_mult_imp_div_less)
    ultimately show ?thesis using assms by (auto simp: bitAt_xorBytes bitAt_expandSeed)
  qed
  have l: "length (blockBitsOf k) = 15" by (simp add: blockBitsOf_def)
  show ?thesis
  proof (cases "bitAt seed k")
    case True
    have "filter (bitAt ?x) (blockBitsOf k) = filter (\<lambda>i. \<not> (bitAt w i \<noteq> bitAt w' i)) (blockBitsOf k)"
      by (rule filter_cong) (use x True in auto)
    then have "length (filter (bitAt ?x) (blockBitsOf k)) + flips w w' (blockBitsOf k) = 15"
      unfolding flips_def using length_filter_not [of "\<lambda>i. bitAt w i \<noteq> bitAt w' i" "blockBitsOf k"] l by simp
    then show ?thesis using True assms(4) by (auto simp: bitAt_majorityDecode)
  next
    case False
    have "filter (bitAt ?x) (blockBitsOf k) = filter (\<lambda>i. bitAt w i \<noteq> bitAt w' i) (blockBitsOf k)"
      by (rule filter_cong) (use x False in auto)
    then show ?thesis using False assms(4) by (simp add: bitAt_majorityDecode flips_def not_le)
  qed
qed

text \<open>A seed after \<open>clearPaddingBits\<close>.\<close>

definition clean_seed :: "octet list \<Rightarrow> bool" where
  "clean_seed seed \<longleftrightarrow> length seed = 3 \<and> (\<forall>k \<ge> 17. \<not> bitAt seed k)"

lemma clean_seed_eqI:
  "clean_seed s \<Longrightarrow> clean_seed t \<Longrightarrow> (\<And>k. k < 17 \<Longrightarrow> bitAt s k = bitAt t k) \<Longrightarrow> s = t"
  by (rule octets_eqI) (auto simp: clean_seed_def, (metis not_le)+)

lemma clean_decode: "clean_seed (majorityDecode x)"
  by (auto simp: clean_seed_def bitAt_majorityDecode)

lemma decode_eq_iff:
  assumes "length w = 32" "length w' = 32" "clean_seed seed"
  shows "majorityDecode (xorBytes w' (xorBytes w (expandSeed seed))) = seed \<longleftrightarrow>
     list_all (\<lambda>k. flips w w' (blockBitsOf k) \<le> 7) [0..<17]"
proof -
  have d: "k < 17 \<Longrightarrow> bitAt (majorityDecode (xorBytes w' (xorBytes w (expandSeed seed)))) k \<longleftrightarrow>
     (bitAt seed k \<longleftrightarrow> flips w w' (blockBitsOf k) \<le> 7)" for k
    using decode_block assms by (auto simp: clean_seed_def)
  show ?thesis
  proof
    assume "majorityDecode (xorBytes w' (xorBytes w (expandSeed seed))) = seed"
    then have "k < 17 \<Longrightarrow> flips w w' (blockBitsOf k) \<le> 7" for k
      using d [of k] by (metis (full_types))
    then show "list_all (\<lambda>k. flips w w' (blockBitsOf k) \<le> 7) [0..<17]"
      unfolding list_all_iff set_upt by simp
  next
    assume "list_all (\<lambda>k. flips w w' (blockBitsOf k) \<le> 7) [0..<17]"
    then show "majorityDecode (xorBytes w' (xorBytes w (expandSeed seed))) = seed"
      unfolding list_all_iff set_upt
      by (intro clean_seed_eqI clean_decode assms(3)) (use d in auto)
  qed
qed

lemma residual_eq:
  assumes "length w = 32" "length w' = 32"
  shows "hammingDistance (xorBytes w' (xorBytes w (expandSeed seed))) (expandSeed seed) = flips w w' [0..<256]"
proof -
  let ?x = "xorBytes w' (xorBytes w (expandSeed seed))"
  have "hammingDistance ?x (expandSeed seed) = flips ?x (expandSeed seed) [0..<8 * 32]"
    using assms by (subst hammingDistance_flips) simp_all
  also have "\<dots> = flips w w' [0..<8 * 32]"
    unfolding flips_def
    by (intro arg_cong [where f = length] filter_cong refl)
      (use assms in \<open>auto simp: bitAt_xorBytes less_mult_imp_div_less\<close>)
  finally show ?thesis by simp
qed

lemma Gen_Inr:
  assumes "Gen cr rand w = Inr (h, c)"
  obtains seed where "length w = 32" "clean_seed seed" "h = xorBytes w (expandSeed seed)"
    "c = commitmentFromSeed cr seed"
proof -
  obtain r0 r1 r2 where r: "length w = 32" "h = xorBytes w (expandSeed (clearPaddingBits [r0, r1, r2]))"
    "c = commitmentFromSeed cr (clearPaddingBits [r0, r1, r2])"
    using assms by (auto simp: Gen_def Let_def fuzzy_constants split: if_splits option.splits)
  have "clean_seed (clearPaddingBits [r0, r1, r2])"
    by (simp add: clean_seed_def bitAt_clearPaddingBits)
  then show ?thesis using that r by blast
qed

lemma Gen_lengths:
  "Gen cr rand w = Inr (h, c) \<Longrightarrow> length w = 32 \<and> length h = 32 \<and> length c = 32"
  by (auto elim!: Gen_Inr simp: commitmentFromSeed_def copy32_def)

lemma Rep_Gen:
  assumes "length w = 32" "length w' = 32" "clean_seed seed"
  shows "Rep cr w' (xorBytes w (expandSeed seed)) =
    (let x = xorBytes w' (xorBytes w (expandSeed seed)); guess = majorityDecode x in
     if hammingDistance x (expandSeed guess) > 63 then Inr None else Inr (Some (commitmentFromSeed cr guess)))"
  using assms by (simp add: Rep_def Let_def fuzzy_constants)

text \<open>A reading within tolerance reproduces the commitment, whatever the hash function.\<close>

lemma rep_recovers:
  assumes "Gen cr rand w = Inr (h, c)" "length w' = 32" "withinTolerance w w'"
  shows "Rep cr w' h = Inr (Some c)"
  using assms(1)
proof (rule Gen_Inr)
  fix seed assume g: "length w = 32" "clean_seed seed" "h = xorBytes w (expandSeed seed)"
    "c = commitmentFromSeed cr seed"
  have "majorityDecode (xorBytes w' h) = seed"
    using decode_eq_iff [OF g(1) assms(2) g(2)] assms(3) by (simp only: g(3) withinTolerance_def)
  moreover have "hammingDistance (xorBytes w' h) (expandSeed seed) \<le> 63"
    using residual_eq [OF g(1) assms(2)] assms(3) by (simp only: g(3) withinTolerance_def)
  ultimately show ?thesis using Rep_Gen [OF g(1) assms(2) g(2), of cr] g(3,4) by (simp add: Let_def)
qed

text \<open>
  The seeds a commitment can hide, and the templates a stored record admits: try each seed, keep those that
  give the commitment, and unmask.
\<close>

definition candidate :: "nat \<Rightarrow> octet list" where
  "candidate n = [of_nat (n div 512), of_nat (n div 2 mod 256), of_nat (128 * (n mod 2))]"

definition candidateSeeds :: "octet list list" where
  "candidateSeeds = map candidate [0..<131072]"

definition templatesOf :: "crypto \<Rightarrow> octet list \<times> commitment \<Rightarrow> octet list list" where
  "templatesOf cr rec = map (\<lambda>seed. xorBytes (fst rec) (expandSeed seed))
     (filter (\<lambda>seed. commitmentFromSeed cr seed = snd rec) candidateSeeds)"

lemma octet_lt: "unat (w :: octet) < 256"
proof -
  have "unat w < 2 ^ LENGTH(8)" by (rule unsigned_less)
  then show ?thesis by simp
qed

lemma candidate_digits:
  fixes a b q :: nat
  assumes "a < 256" "b < 256" "q < 2"
  shows "(a * 512 + b * 2 + q) div 512 = a \<and> (a * 512 + b * 2 + q) div 2 mod 256 = b \<and>
    (a * 512 + b * 2 + q) mod 2 = q \<and> a * 512 + b * 2 + q < 131072"
proof -
  have "(a * 512 + b * 2 + q) div 512 = a" by (rule div_nat_eqI) (use assms in \<open>simp_all add: algebra_simps\<close>)
  moreover have "(a * 512 + b * 2 + q) div 2 = a * 256 + b" by (rule div_nat_eqI) (use assms in \<open>simp_all add: algebra_simps\<close>)
  moreover have "(a * 512 + b * 2 + q) mod 2 = q" using assms(3) by presburger
  ultimately show ?thesis using assms by simp
qed

lemma clean_seed_candidate:
  assumes "clean_seed seed"
  shows "seed \<in> set candidateSeeds"
proof -
  obtain a b c where s: "seed = [a, b, c]" and z: "\<And>k. 17 \<le> k \<Longrightarrow> \<not> bitAt seed k"
    using assms by (auto simp: clean_seed_def numeral_3_eq_3 length_Suc_conv)
  have low: "\<not> bit c n" if "n < 7" for n
  proof -
    have "(23 - n) div 8 = 2" by (rule div_nat_eqI) (use that in auto)
    moreover from this have "(23 - n) mod 8 = 23 - n - 16" by (simp add: modulo_nat_def)
    ultimately have "(23 - n) div 8 = 2" "7 - (23 - n) mod 8 = n" using that by simp_all
    then show ?thesis using z [of "23 - n"] that by (simp add: bitAt_def s)
  qed
  have "take_bit 7 c = 0" by (rule bit_word_eqI) (simp add: bit_take_bit_iff low)
  then have "unat (take_bit 7 c) = 0" by simp
  then have "unat c mod 128 = 0" unfolding unsigned_take_bit_eq by (simp add: take_bit_eq_mod)
  then have c: "128 * (unat c div 128) = unat c" by auto
  define n where "n = unat a * 512 + unat b * 2 + unat c div 128"
  have "unat c < 256" "unat a < 256" "unat b < 256" by (rule octet_lt)+
  moreover from this(1) have "unat c div 128 < 2" by (simp add: less_mult_imp_div_less)
  ultimately have "n div 512 = unat a \<and> n div 2 mod 256 = unat b \<and> n mod 2 = unat c div 128 \<and> n < 131072"
    unfolding n_def by (intro candidate_digits)
  then have "candidate n = seed" "n < 131072" by (simp_all add: candidate_def s c)
  then show ?thesis unfolding candidateSeeds_def set_map set_upt by force
qed

text \<open>
  A stored record, the helper data with the commitment, gives its template back after a search of
  131072 seeds.
\<close>

lemma unmask: "length w = 32 \<Longrightarrow> xorBytes (xorBytes w (expandSeed s)) (expandSeed s) = w"
  by (rule octets_eqI) (auto simp: bitAt_xorBytes less_mult_imp_div_less)

lemma templatesOf_Gen:
  assumes "Gen cr rand w = Inr (h, c)"
    and "\<And>s t. length s = 3 \<Longrightarrow> length t = 3 \<Longrightarrow> commitmentFromSeed cr s = commitmentFromSeed cr t \<Longrightarrow> s = t"
  shows "set (templatesOf cr (h, c)) = {w}"
  using assms(1)
proof (rule Gen_Inr)
  fix seed assume g: "length w = 32" "clean_seed seed" "h = xorBytes w (expandSeed seed)"
    "c = commitmentFromSeed cr seed"
  have len: "s \<in> set candidateSeeds \<Longrightarrow> length s = 3" for s
    unfolding candidateSeeds_def set_map by (auto simp: candidate_def simp del: set_upt)
  have "{s \<in> set candidateSeeds. commitmentFromSeed cr s = c} = {seed}"
    using assms(2) len clean_seed_candidate [OF g(2)] g(2,4) unfolding clean_seed_def by auto
  then show ?thesis
    unfolding templatesOf_def set_map set_filter fst_conv snd_conv g(3) by (simp add: unmask g(1))
qed

lemma commitments_finite:
  "{c. \<exists>rand w h. Gen cr rand w = Inr (h, c)} \<subseteq> commitmentFromSeed cr ` set candidateSeeds"
  by (auto elim!: Gen_Inr intro: clean_seed_candidate)

lemma card_commitments: "card (commitmentFromSeed cr ` set candidateSeeds) \<le> 131072"
proof -
  have "card (commitmentFromSeed cr ` set candidateSeeds) \<le> card (set candidateSeeds)"
    by (rule card_image_le) simp
  also have "\<dots> \<le> length candidateSeeds" by (rule card_length)
  also have "\<dots> = 131072" unfolding candidateSeeds_def length_map length_upt by simp
  finally show ?thesis .
qed

lemma length_candidateSeeds: "length candidateSeeds = 131072"
  unfolding candidateSeeds_def length_map length_upt by simp

end
