(* ===== verification/Selfie_Accumulator.thy ===== *)
theory Selfie_Accumulator
  imports Fuzzy_Extractor Server_Monad
begin

text \<open>
  The set of enrolled faces the selfie anchor checks a new template against:
  \<open>src/src/methods/fuzzy-extractor-selfie/accumulator.go\<close> (the interface and the in-memory list) and
  \<open>src/src/server/accumulator_store.go\<close> (Firestore, one document per commitment, and a Redis list). What a
  client of the interface relies on is the locale \<open>accumulator\<close>; each implementation is interpreted in it.
  A durable store may fail to answer, before or after the write took effect.
\<close>

section \<open>The interface\<close>

record enrollment_record =
  er_Helper :: "octet list"
  er_Commitment :: commitment
  er_EnrolledAt :: time

datatype accumulator_error =
    AccRep fuzzy_error | AccUnavailable | AccCorruptRecord | AccCommitmentStored

fun scanForDuplicate ::
  "crypto \<Rightarrow> octet list \<Rightarrow> enrollment_record list \<Rightarrow> accumulator_error + enrollment_record option" where
  "scanForDuplicate cr template [] = Inr None"
| "scanForDuplicate cr template (rec # recs) =
     (case Rep cr template (er_Helper rec) of
        Inl e \<Rightarrow> Inl (AccRep e)
      | Inr res \<Rightarrow> if res = Some (er_Commitment rec) then Inr (Some rec)
                   else scanForDuplicate cr template recs)"

definition reproduces :: "crypto \<Rightarrow> octet list \<Rightarrow> enrollment_record \<Rightarrow> bool" where
  "reproduces cr template rec \<longleftrightarrow> Rep cr template (er_Helper rec) = Inr (Some (er_Commitment rec))"

lemma scan_None: "scanForDuplicate cr t recs = Inr None \<Longrightarrow> rec \<in> set recs \<Longrightarrow> \<not> reproduces cr t rec"
  by (induction recs) (auto simp: reproduces_def split: sum.splits if_splits)

lemma scan_Some:
  "scanForDuplicate cr t recs = Inr (Some rec) \<Longrightarrow> rec \<in> set recs \<and> reproduces cr t rec"
  by (induction recs) (auto simp: reproduces_def split: sum.splits if_splits)

text \<open>A commitment is a \<open>[32]byte\<close>.\<close>

definition has_size :: "enrollment_record \<Rightarrow> bool" where
  "has_size rec \<longleftrightarrow> length (er_Commitment rec) = 32"

text \<open>
  \<open>enrolled s\<close> is the set of records a state stands for. \<open>Add\<close> may fail after storing, but never loses a record,
  and a lookup that answers has compared the template with every record.
\<close>

locale accumulator =
  fixes find_dup :: "crypto \<Rightarrow> octet list \<Rightarrow> ('s, accumulator_error, enrollment_record option) comp"
    and add :: "enrollment_record \<Rightarrow> ('s, accumulator_error, unit) comp"
    and enrolled :: "'s \<Rightarrow> enrollment_record set"
  assumes find_keeps: "wp (find_dup cr t) (\<lambda>_ s'. enrolled s' = enrolled s) (\<lambda>_ s'. enrolled s' = enrolled s) s"
    and find_answers: "wp (find_dup cr t)
      (\<lambda>res _. case res of None \<Rightarrow> \<forall>rec \<in> enrolled s. has_size rec \<longrightarrow> \<not> reproduces cr t rec
        | Some rec \<Rightarrow> rec \<in> enrolled s \<and> reproduces cr t rec) (\<lambda>_ _. True) s"
    and add_keeps: "has_size rec \<Longrightarrow> wp (add rec)
      (\<lambda>_ s'. enrolled s' = insert rec (enrolled s))
      (\<lambda>_ s'. enrolled s' = enrolled s \<or> enrolled s' = insert rec (enrolled s)) s"
begin

text \<open>Once a record is in, no later lookup for a template that reproduces it answers that the face is new.\<close>

lemma find_sees:
  assumes "rec \<in> enrolled s" "has_size rec" "reproduces cr t rec"
  shows "wp (find_dup cr t) (\<lambda>res _. res \<noteq> None) (\<lambda>_ _. True) s"
  by (rule wp_mono [OF find_answers]) (use assms in \<open>auto split: option.splits\<close>)

lemma add_grows: "has_size rec \<Longrightarrow> wp (add rec) (\<lambda>_ s'. enrolled s \<subseteq> enrolled s' \<and> rec \<in> enrolled s')
    (\<lambda>_ s'. enrolled s \<subseteq> enrolled s') s"
  by (rule wp_mono [OF add_keeps]) auto

end

section \<open>In memory\<close>

record memory_accumulator =
  ia_records :: "enrollment_record list"

definition NewInMemoryAccumulator :: memory_accumulator where
  "NewInMemoryAccumulator = \<lparr>ia_records = []\<rparr>"

definition mem_FindDuplicate ::
  "crypto \<Rightarrow> octet list \<Rightarrow> (memory_accumulator, accumulator_error, enrollment_record option) comp" where
  "mem_FindDuplicate cr template a = (scanForDuplicate cr template (ia_records a), a)"

definition mem_Add :: "enrollment_record \<Rightarrow> (memory_accumulator, accumulator_error, unit) comp" where
  "mem_Add rec a = (Inr (), a\<lparr>ia_records := ia_records a @ [rec]\<rparr>)"

definition mem_Count :: "(memory_accumulator, accumulator_error, nat) comp" where
  "mem_Count a = (Inr (length (ia_records a)), a)"

interpretation mem: accumulator mem_FindDuplicate mem_Add "\<lambda>a. set (ia_records a)"
proof unfold_locales
  fix cr t s
  show "wp (mem_FindDuplicate cr t) (\<lambda>_ s'. set (ia_records s') = set (ia_records s))
      (\<lambda>_ s'. set (ia_records s') = set (ia_records s)) s"
    by (simp add: wp_def mem_FindDuplicate_def split: sum.split)
  show "wp (mem_FindDuplicate cr t)
      (\<lambda>res _. case res of None \<Rightarrow> \<forall>rec \<in> set (ia_records s). has_size rec \<longrightarrow> \<not> reproduces cr t rec
        | Some rec \<Rightarrow> rec \<in> set (ia_records s) \<and> reproduces cr t rec) (\<lambda>_ _. True) s"
    by (auto simp: wp_def mem_FindDuplicate_def dest: scan_None scan_Some split: sum.split option.split)
qed (auto simp: wp_def mem_Add_def)

section \<open>The durable stores\<close>

text \<open>
  A stored document is \<open>selfieRecordDoc\<close>, the commitment as hex. \<open>json.Marshal\<close> and \<open>json.Unmarshal\<close> of this
  struct of bytes, text and a UTC time are inverse and are left out, so the only corruption left to
  \<open>decodeSelfieRecord\<close> is a commitment that is not 32 hex-encoded bytes.
\<close>

record selfieRecordDoc =
  sd_Helper :: "octet list"
  sd_Commitment :: string
  sd_EnrolledAt :: time

definition encodeSelfieRecord :: "enrollment_record \<Rightarrow> selfieRecordDoc" where
  "encodeSelfieRecord rec =
     \<lparr>sd_Helper = er_Helper rec, sd_Commitment = hex_encode (er_Commitment rec), sd_EnrolledAt = er_EnrolledAt rec\<rparr>"

definition decodeSelfieRecord :: "selfieRecordDoc \<Rightarrow> accumulator_error + enrollment_record" where
  "decodeSelfieRecord doc =
     (case hex_decode (sd_Commitment doc) of
        None \<Rightarrow> Inl AccCorruptRecord
      | Some c \<Rightarrow> if length c \<noteq> 32 then Inl AccCorruptRecord
          else Inr \<lparr>er_Helper = sd_Helper doc, er_Commitment = c, er_EnrolledAt = sd_EnrolledAt doc\<rparr>)"

lemma decode_encode: "length (er_Commitment rec) = 32 \<Longrightarrow> decodeSelfieRecord (encodeSelfieRecord rec) = Inr rec"
  by (simp add: decodeSelfieRecord_def encodeSelfieRecord_def)

fun decodeAll :: "selfieRecordDoc list \<Rightarrow> accumulator_error + enrollment_record list" where
  "decodeAll [] = Inr []"
| "decodeAll (d # ds) =
     (case decodeSelfieRecord d of
        Inl e \<Rightarrow> Inl e
      | Inr rec \<Rightarrow> (case decodeAll ds of Inl e \<Rightarrow> Inl e | Inr recs \<Rightarrow> Inr (rec # recs)))"

text \<open>
  The service keeps documents under their ids, in the order it lists them; \<open>du_calls\<close> says what becomes of the
  next calls. Once it runs out every call answers.
\<close>

record durable =
  du_docs :: "(string \<times> selfieRecordDoc) list"
  du_calls :: "call_fate list"

definition fate :: "durable \<Rightarrow> call_fate" where
  "fate d = (case du_calls d of [] \<Rightarrow> Answers | f # _ \<Rightarrow> f)"

definition called :: "durable \<Rightarrow> durable" where
  "called d = d\<lparr>du_calls := tl (du_calls d)\<rparr>"

definition service_list :: "(durable, accumulator_error, selfieRecordDoc list) comp" where
  "service_list d = (if fate d = Answers then Inr (map snd (du_docs d)) else Inl AccUnavailable, called d)"

text \<open>\<open>FindDuplicate\<close> of both stores: list, decode everything, scan.\<close>

definition durable_FindDuplicate ::
  "crypto \<Rightarrow> octet list \<Rightarrow> (durable, accumulator_error, enrollment_record option) comp" where
  "durable_FindDuplicate cr template =
     andThen service_list (\<lambda>docs.
       case decodeAll docs of
         Inl e \<Rightarrow> throw e
       | Inr recs \<Rightarrow> (case scanForDuplicate cr template recs of Inl e \<Rightarrow> throw e | Inr res \<Rightarrow> ret res))"

text \<open>\<open>Create\<close> answers whether the id was free; a taken id leaves the document as it is.\<close>

definition firestore_Create :: "string \<Rightarrow> selfieRecordDoc \<Rightarrow> (durable, accumulator_error, bool) comp" where
  "firestore_Create i doc d =
     (let created = (i \<notin> fst ` set (du_docs d));
          d' = (if created then (called d)\<lparr>du_docs := insort_key fst (i, doc) (du_docs d)\<rparr> else called d)
      in case fate d of
           Answers \<Rightarrow> (Inr created, d')
         | FailsBefore \<Rightarrow> (Inl AccUnavailable, called d)
         | FailsAfter \<Rightarrow> (Inl AccUnavailable, d'))"

definition firestore_Add :: "enrollment_record \<Rightarrow> (durable, accumulator_error, unit) comp" where
  "firestore_Add rec =
     andThen (firestore_Create (hex_encode (er_Commitment rec)) (encodeSelfieRecord rec)) (\<lambda>created.
       if \<not> created then throw AccCommitmentStored else ret ())"

definition redis_Add :: "enrollment_record \<Rightarrow> (durable, accumulator_error, unit) comp" where
  "redis_Add rec d =
     (let d' = (called d)\<lparr>du_docs := du_docs d @ [('''', encodeSelfieRecord rec)]\<rparr>
      in case fate d of
           Answers \<Rightarrow> (Inr (), d')
         | FailsBefore \<Rightarrow> (Inl AccUnavailable, called d)
         | FailsAfter \<Rightarrow> (Inl AccUnavailable, d'))"

definition durable_Count :: "(durable, accumulator_error, nat) comp" where
  "durable_Count = andThen service_list (\<lambda>docs. ret (length docs))"

text \<open>The records of the documents that decode.\<close>

definition durable_records :: "durable \<Rightarrow> enrollment_record set" where
  "durable_records d = {rec. \<exists>doc \<in> snd ` set (du_docs d). decodeSelfieRecord doc = Inr rec}"

lemma decodeAll_Inr: "decodeAll ds = Inr recs \<Longrightarrow> set recs = {rec. \<exists>d \<in> set ds. decodeSelfieRecord d = Inr rec}"
  by (induction ds arbitrary: recs) (auto split: sum.splits)

lemma called_docs [simp]: "du_docs (called d) = du_docs d"
  by (simp add: called_def)

lemma durable_records_called [simp]: "durable_records (called d) = durable_records d"
  by (simp add: durable_records_def)

lemma durable_records_insert:
  "has_size rec \<Longrightarrow> set (du_docs d') = insert (i, encodeSelfieRecord rec) (set (du_docs d)) \<Longrightarrow>
     durable_records d' = insert rec (durable_records d)"
  by (auto simp: durable_records_def has_size_def decode_encode)

lemma durable_find_keeps:
  "wp (durable_FindDuplicate cr t) (\<lambda>_ s'. durable_records s' = durable_records s)
     (\<lambda>_ s'. durable_records s' = durable_records s) s"
  by (simp add: durable_FindDuplicate_def service_list_def wp_def andThen_def throw_def ret_def
      split: sum.split)

lemma durable_find_answers:
  "wp (durable_FindDuplicate cr t)
     (\<lambda>res _. case res of None \<Rightarrow> \<forall>rec \<in> durable_records s. has_size rec \<longrightarrow> \<not> reproduces cr t rec
        | Some rec \<Rightarrow> rec \<in> durable_records s \<and> reproduces cr t rec) (\<lambda>_ _. True) s"
proof -
  have "case res of None \<Rightarrow> \<forall>rec \<in> durable_records s. has_size rec \<longrightarrow> \<not> reproduces cr t rec
        | Some rec \<Rightarrow> rec \<in> durable_records s \<and> reproduces cr t rec"
    if "decodeAll (map snd (du_docs s)) = Inr recs" "scanForDuplicate cr t recs = Inr res" for recs res
  proof -
    have "durable_records s = set recs" using decodeAll_Inr [OF that(1)] by (simp add: durable_records_def)
    then show ?thesis using that(2) by (auto dest: scan_None scan_Some split: option.split)
  qed
  then show ?thesis
    by (simp add: durable_FindDuplicate_def service_list_def wp_def andThen_def throw_def ret_def split: sum.split)
qed

interpretation firestore: accumulator durable_FindDuplicate firestore_Add durable_records
proof unfold_locales
  fix rec s assume r: "has_size rec"
  show "wp (firestore_Add rec) (\<lambda>_ s'. durable_records s' = insert rec (durable_records s))
      (\<lambda>_ s'. durable_records s' = durable_records s \<or> durable_records s' = insert rec (durable_records s)) s"
    by (auto simp: firestore_Add_def firestore_Create_def wp_def andThen_def throw_def ret_def Let_def
        set_insort_key durable_records_insert [OF r] split: call_fate.split)
qed (rule durable_find_keeps durable_find_answers)+

interpretation redis: accumulator durable_FindDuplicate redis_Add durable_records
proof unfold_locales
  fix rec s assume r: "has_size rec"
  show "wp (redis_Add rec) (\<lambda>_ s'. durable_records s' = insert rec (durable_records s))
      (\<lambda>_ s'. durable_records s' = durable_records s \<or> durable_records s' = insert rec (durable_records s)) s"
    by (auto simp: redis_Add_def wp_def Let_def durable_records_insert [OF r] split: call_fate.split)
qed (rule durable_find_keeps durable_find_answers)+

end
