(* ===== verification/Selfie_Liveness.thy ===== *)
theory Selfie_Liveness
  imports Selfie_Accumulator Types_Model "HOL-Library.Multiset"
begin

text \<open>
  The active-liveness part of the selfie ceremony, \<open>src/src/methods/fuzzy-extractor-selfie/liveness.go\<close>: the
  random order of challenges, the token that binds it to a session and a time under the issuer's key, and the
  check of what the client reports. Randomness and the clock are arguments.
\<close>

section \<open>Configuration\<close>

definition ChallengeKinds :: "string list" where
  "ChallengeKinds = [''turn_left'', ''turn_right'', ''blink'', ''closer'']"

definition ChallengeCount :: nat where "ChallengeCount = 3"
definition MinChallengeMS :: int where "MinChallengeMS = 250"
definition MaxChallengeMS :: int where "MaxChallengeMS = 10000"
definition DefaultTemplateVersion :: string where "DefaultTemplateVersion = ''dlib128-simhash256-v1''"
definition livenessTokenTag :: string where "livenessTokenTag = ''personhood-selfie-liveness-v1''"
definition livenessMACBytes :: nat where "livenessMACBytes = 16"

record liveness_config =
  lv_Key :: bytes
  lv_TemplateVersion :: string
  lv_MinCeremony :: duration
  lv_MaxCeremony :: duration

text \<open>\<open>None\<close> is the error for a key under 32 bytes.\<close>

definition lv_withDefaults :: "liveness_config \<Rightarrow> liveness_config option" where
  "lv_withDefaults c =
     (if length (lv_Key c) < 32 then None
      else Some \<lparr>lv_Key = lv_Key c,
        lv_TemplateVersion = (if lv_TemplateVersion c = '''' then DefaultTemplateVersion else lv_TemplateVersion c),
        lv_MinCeremony = (if lv_MinCeremony c = 0 then 3 * ns_second else lv_MinCeremony c),
        lv_MaxCeremony = (if lv_MaxCeremony c = 0 then 10 * ns_minute else lv_MaxCeremony c)\<rparr>)"

section \<open>The order of challenges\<close>

text \<open>
  \<open>rand.Int(rand.Reader, max)\<close> is a value below \<open>max\<close> or an error: a draw is a number, taken modulo the size
  of the pool, or \<open>None\<close>.
\<close>

fun drawKinds :: "nat \<Rightarrow> nat option list \<Rightarrow> nat list \<Rightarrow> nat list \<Rightarrow> nat list option" where
  "drawKinds 0 ds pool out = Some out"
| "drawKinds (Suc k) (Some n # ds) pool out =
     (let i = n mod length pool in
      drawKinds k ds (take i pool @ drop (Suc i) pool) (out @ [pool ! i]))"
| "drawKinds (Suc k) _ pool out = None"

definition randomChallengeOrder :: "nat option list \<Rightarrow> nat list option" where
  "randomChallengeOrder ds = drawKinds ChallengeCount ds [0, 1, 2, 3] []"

lemma drop_nth_perm: "i < length xs \<Longrightarrow> mset (take i xs @ drop (Suc i) xs) + {#xs ! i#} = mset xs"
  by (metis add_mset_add_single id_take_nth_drop mset.simps(2) mset_append union_mset_add_mset_right)

lemma drawKinds_mset:
  "drawKinds k ds pool out = Some res \<Longrightarrow> k \<le> length pool \<Longrightarrow>
     \<exists>rest. mset res + mset rest = mset out + mset pool \<and> length res = length out + k"
proof (induction k ds pool out rule: drawKinds.induct)
  case (2 k n ds pool out)
  define i where "i = n mod length pool"
  have i: "i < length pool" unfolding i_def by (rule mod_less_divisor) (use 2(3) in auto)
  then have "k \<le> length (take i pool @ drop (Suc i) pool)" using 2(3) by simp
  then obtain rest where "mset res + mset rest = mset (out @ [pool ! i]) + mset (take i pool @ drop (Suc i) pool)"
    "length res = length (out @ [pool ! i]) + k"
    using 2(1) [OF i_def] 2(2) by (auto simp: Let_def i_def)
  then have "mset res + mset rest = mset out + mset pool \<and> length res = length out + Suc k"
    using drop_nth_perm [OF i] by (simp add: ac_simps)
  then show ?case by blast
qed auto

lemma order_shape:
  assumes "randomChallengeOrder ds = Some order"
  shows "length order = 3" "distinct order" "set order \<subseteq> {0, 1, 2, 3}"
proof -
  obtain rest where r: "mset order + mset rest = mset [0, 1, 2, 3]" "length order = 3"
    using drawKinds_mset [OF assms [unfolded randomChallengeOrder_def]] unfolding ChallengeCount_def by force
  from r(1) have m: "mset (order @ rest) = mset [0, 1, 2, 3]" unfolding mset_append .
  have "distinct (order @ rest) \<longleftrightarrow> distinct [0, 1, 2, 3 :: nat]" by (rule mset_eq_imp_distinct_iff [OF m])
  then show "distinct order" by simp
  have "set order \<subseteq> set (order @ rest)" by simp
  also have "\<dots> = set [0, 1, 2, 3]" by (rule mset_eq_setD [OF m])
  finally show "set order \<subseteq> {0, 1, 2, 3}" by simp
  show "length order = 3" by (rule r(2))
qed

section \<open>The token\<close>

definition unix_milli :: "time \<Rightarrow> int" where
  "unix_milli t = wrap64 ((t - unix_epoch) div 1000000)"

definition from_unix_milli :: "int \<Rightarrow> time" where
  "from_unix_milli ms = unix_epoch + ms * 1000000"

text \<open>\<open>binary.BigEndian\<close> on a \<open>uint64\<close>; converting between \<open>int64\<close> and \<open>uint64\<close> keeps the bits.\<close>

definition put_be64 :: "int \<Rightarrow> bytes" where
  "put_be64 n = map (\<lambda>k. byte (nat (n div 256 ^ k mod 256))) (rev [0..<8])"

definition get_be64 :: "bytes \<Rightarrow> int" where
  "get_be64 b = wrap64 (int (foldl (\<lambda>v c. v * 256 + byte_of c) 0 b))"

definition token_mac :: "crypto \<Rightarrow> liveness_config \<Rightarrow> string \<Rightarrow> bytes \<Rightarrow> bytes" where
  "token_mac cr c sid body =
     take livenessMACBytes (c_hmac cr (lv_Key c) (livenessTokenTag @ [byte 0] @ sid @ [byte 0] @ body))"

definition issueToken ::
  "crypto \<Rightarrow> liveness_config \<Rightarrow> time \<Rightarrow> nat option list \<Rightarrow> string \<Rightarrow> (string list \<times> string) option" where
  "issueToken cr c now draws sid =
     (case randomChallengeOrder draws of
        None \<Rightarrow> None
      | Some order \<Rightarrow>
          (let body = put_be64 (unix_milli now) @ map byte order;
               token = RawURL_encode (body @ token_mac cr c sid body)
           in Some (map (\<lambda>i. ChallengeKinds ! i) order, token)))"

definition openToken ::
  "crypto \<Rightarrow> liveness_config \<Rightarrow> string \<Rightarrow> string \<Rightarrow> (time \<times> string list) option" where
  "openToken cr c sid token =
     (case RawURL_decode token of
        None \<Rightarrow> None
      | Some raw \<Rightarrow>
          if length raw \<noteq> 8 + ChallengeCount + livenessMACBytes then None
          else
            (let body = take (8 + ChallengeCount) raw; mac = drop (8 + ChallengeCount) raw in
             if mac \<noteq> token_mac cr c sid body then None
             else if list_ex (\<lambda>o'. byte_of o' \<ge> length ChallengeKinds) (drop 8 body) then None
             else Some (from_unix_milli (get_be64 (take 8 body)),
                        map (\<lambda>o'. ChallengeKinds ! byte_of o') (drop 8 body))))"

lemma length_put_be64 [simp]: "length (put_be64 n) = 8"
  by (simp add: put_be64_def)

lemma be_digits:
  "int (foldl (\<lambda>v c. v * 256 + byte_of c) 0 (map (\<lambda>k. byte (nat (n div 256 ^ k mod 256))) (rev [j..<j + m])))
     = n div 256 ^ j mod 256 ^ m"
proof (induction m arbitrary: j)
  case (Suc m)
  have d: "int (byte_of (byte (nat (n div 256 ^ j mod 256)))) = n div 256 ^ j mod 256"
    by (simp add: nat_less_iff)
  have r: "rev [j..<j + Suc m] = rev [Suc j..<Suc j + m] @ [j]" by (simp add: upt_conv_Cons)
  have "n div 256 ^ Suc j = n div 256 ^ j div 256" by (subst power_Suc2, subst zdiv_zmult2_eq) simp_all
  then show ?case
    unfolding r map_append foldl_append using Suc.IH [of "Suc j"] d
    by (simp add: zmod_zmult2_eq)
qed simp

lemma get_put_be64:
  assumes "min_int64 \<le> n" "n \<le> max_int64"
  shows "get_be64 (put_be64 n) = n"
proof -
  have "get_be64 (put_be64 n) = wrap64 (n mod 256 ^ 8)"
    using be_digits [of n 0 8] unfolding get_be64_def put_be64_def by (simp only: div_by_1 power_0 add_0)
  also have "\<dots> = wrap64 n" by (simp add: wrap64_def mod_add_left_eq)
  finally show ?thesis using assms by simp
qed

lemma openToken_Some:
  assumes "openToken cr c sid token = Some (t, kinds)"
  obtains body where "length body = 11"
    "RawURL_decode token = Some (body @ token_mac cr c sid body)" "length (token_mac cr c sid body) = 16"
    "t = from_unix_milli (get_be64 (take 8 body))" "kinds = map (\<lambda>o'. ChallengeKinds ! byte_of o') (drop 8 body)"
proof -
  obtain raw where raw: "RawURL_decode token = Some raw" "length raw = 27"
      "drop 11 raw = token_mac cr c sid (take 11 raw)"
      "t = from_unix_milli (get_be64 (take 8 raw))" "kinds = map (\<lambda>o'. ChallengeKinds ! byte_of o') (drop 8 (take 11 raw))"
    using assms by (auto simp: openToken_def ChallengeCount_def livenessMACBytes_def Let_def min_def
        split: option.splits if_splits)
  have "raw = take 11 raw @ token_mac cr c sid (take 11 raw)" using raw(3) by (metis append_take_drop_id)
  moreover have "length (token_mac cr c sid (take 11 raw)) = 16" using raw(2) by (simp flip: raw(3))
  ultimately show ?thesis using that [of "take 11 raw"] raw by (simp add: min_def)
qed

text \<open>The token a begun ceremony hands out opens, in that session, to its time (in milliseconds) and order.\<close>

lemma openToken_issued:
  assumes "issueToken cr c now draws sid = Some (kinds, token)"
    and "\<And>m. 16 \<le> length (c_hmac cr (lv_Key c) m)"
  shows "openToken cr c sid token = Some (from_unix_milli (unix_milli now), kinds)"
proof -
  obtain order where o: "randomChallengeOrder draws = Some order" "kinds = map (\<lambda>i. ChallengeKinds ! i) order"
    "token = RawURL_encode (put_be64 (unix_milli now) @ map byte order @
        token_mac cr c sid (put_be64 (unix_milli now) @ map byte order))"
    using assms(1) by (auto simp: issueToken_def Let_def split: option.splits)
  have sh: "length order = 3" "\<forall>i \<in> set order. i < 4" using order_shape [OF o(1)] by auto
  have b: "i \<in> set order \<Longrightarrow> byte_of (byte i) = i" for i using sh(2) by auto
  have m: "length (token_mac cr c sid b) = 16" for b
    by (simp add: token_mac_def livenessMACBytes_def min_absorb2 assms(2))
  have k: "map (\<lambda>o'. ChallengeKinds ! byte_of o') (map byte order) = kinds" unfolding o(2) using b by simp
  have e: "\<not> list_ex (\<lambda>o'. 4 \<le> byte_of o') (map byte order)" using b sh(2) by (auto simp: list_ex_iff)
  have r: "get_be64 (put_be64 (unix_milli now)) = unix_milli now"
    by (rule get_put_be64) (simp_all add: unix_milli_def wrap64_range)
  have l: "length ChallengeKinds = 4" by (simp add: ChallengeKinds_def)
  show ?thesis
    unfolding openToken_def o(3) using m sh(1) k e l r
    by (simp add: ChallengeCount_def livenessMACBytes_def Let_def)
qed

text \<open>
  In another session it is refused, unless the messages the key signs collide in the first 16 bytes of the MAC.
  The messages differ, since the body has a fixed length.
\<close>

definition token_message :: "string \<Rightarrow> bytes \<Rightarrow> bytes" where
  "token_message sid body = livenessTokenTag @ [byte 0] @ sid @ [byte 0] @ body"

lemma token_message_inj:
  "length body = length body' \<Longrightarrow> token_message sid body = token_message sid' body' \<longleftrightarrow> sid = sid' \<and> body = body'"
  by (auto simp: token_message_def)

lemma openToken_other_session:
  assumes "openToken cr c sid token = Some r" "openToken cr c sid' token = Some r'"
  obtains body where "length body = 11"
    "take 16 (c_hmac cr (lv_Key c) (token_message sid body)) = take 16 (c_hmac cr (lv_Key c) (token_message sid' body))"
proof -
  obtain t kinds t' kinds' where r: "r = (t, kinds)" "r' = (t', kinds')" by (cases r, cases r')
  obtain body where b: "length body = 11" "RawURL_decode token = Some (body @ token_mac cr c sid body)"
    by (rule openToken_Some [OF assms(1) [unfolded r]])
  obtain body' where b': "length body' = 11" "RawURL_decode token = Some (body' @ token_mac cr c sid' body')"
    by (rule openToken_Some [OF assms(2) [unfolded r]])
  have "body = body'" "token_mac cr c sid body = token_mac cr c sid' body'" using b b' by auto
  then show ?thesis using that [OF b(1)] by (simp add: token_mac_def token_message_def livenessMACBytes_def)
qed

section \<open>The evidence\<close>

record challenge_result =
  chr_Kind :: string
  chr_MS :: int

record liveness_evidence =
  le_Challenges :: "challenge_result list"
  le_Frames :: int
  le_Parallax :: "real list"

text \<open>
  \<open>json.Unmarshal\<close> of the re-marshalled value: a field is found under its name in any (ASCII) letter case, the
  last one winning, \<open>null\<close> and a missing field leave the zero value, and an integer field takes a number with no
  fraction that fits. (A body that holds one field under two spellings is decoded into the same slice twice,
  which is not modelled.)
\<close>

definition json_field :: "json_object \<Rightarrow> string \<Rightarrow> json_value" where
  "json_field obj name =
     (case filter (\<lambda>kv. to_lower (fst kv) = name) (sort_key fst obj) of
        [] \<Rightarrow> JNull | m # ms \<Rightarrow> snd (last (m # ms)))"

fun as_int :: "json_value \<Rightarrow> int option" where
  "as_int JNull = Some 0"
| "as_int (JNum n) = (if min_int64 \<le> n \<and> n \<le> max_int64 then Some n else None)"
| "as_int (JReal r) =
     (if r = of_int \<lfloor>r\<rfloor> \<and> min_int64 \<le> \<lfloor>r\<rfloor> \<and> \<lfloor>r\<rfloor> \<le> max_int64 then Some \<lfloor>r\<rfloor> else None)"
| "as_int _ = None"

fun as_text :: "json_value \<Rightarrow> string option" where
  "as_text JNull = Some ''''"
| "as_text (JString s) = Some s"
| "as_text _ = None"

fun as_real :: "json_value \<Rightarrow> real option" where
  "as_real JNull = Some 0"
| "as_real (JNum n) = Some (of_int n)"
| "as_real (JReal r) = Some r"
| "as_real _ = None"

fun as_challenge :: "json_value \<Rightarrow> challenge_result option" where
  "as_challenge JNull = Some \<lparr>chr_Kind = '''', chr_MS = 0\<rparr>"
| "as_challenge (JObject obj) =
     (case (as_text (json_field obj ''kind''), as_int (json_field obj ''ms'')) of
        (Some k, Some ms) \<Rightarrow> Some \<lparr>chr_Kind = k, chr_MS = ms\<rparr> | _ \<Rightarrow> None)"
| "as_challenge _ = None"

fun map_all :: "('a \<Rightarrow> 'b option) \<Rightarrow> 'a list \<Rightarrow> 'b list option" where
  "map_all f [] = Some []"
| "map_all f (x # xs) = (case (f x, map_all f xs) of (Some y, Some ys) \<Rightarrow> Some (y # ys) | _ \<Rightarrow> None)"

fun as_list :: "(json_value \<Rightarrow> 'b option) \<Rightarrow> json_value \<Rightarrow> 'b list option" where
  "as_list f JNull = Some []"
| "as_list f (JList vs) = map_all f vs"
| "as_list f _ = None"

fun unmarshal_evidence :: "json_value \<Rightarrow> liveness_evidence option" where
  "unmarshal_evidence JNull = Some \<lparr>le_Challenges = [], le_Frames = 0, le_Parallax = []\<rparr>"
| "unmarshal_evidence (JObject obj) =
     (case (as_list as_challenge (json_field obj ''challenges''), as_int (json_field obj ''frames''),
            as_list as_real (json_field obj ''parallax'')) of
        (Some cs, Some n, Some p) \<Rightarrow> Some \<lparr>le_Challenges = cs, le_Frames = n, le_Parallax = p\<rparr>
      | _ \<Rightarrow> None)"
| "unmarshal_evidence _ = None"

section \<open>The check\<close>

definition stringField :: "json_object \<Rightarrow> string \<Rightarrow> string \<times> bool" where
  "stringField m key = (case map_of m key of Some (JString s) \<Rightarrow> (s, s \<noteq> '''') | _ \<Rightarrow> ('''', False))"

text \<open>\<open>want\<close> is the issued order; the answer is an error reason, or the total of the reported times.\<close>

fun checkChallenges :: "challenge_result list \<Rightarrow> string list \<Rightarrow> int \<Rightarrow> string + int" where
  "checkChallenges (ch # chs) (k # want) tot =
     (if chr_Kind ch \<noteq> k then Inl ''liveness_challenge_mismatch''
      else if chr_MS ch < MinChallengeMS \<or> chr_MS ch > MaxChallengeMS then Inl ''liveness_timing_implausible''
      else checkChallenges chs want (tot + chr_MS ch))"
| "checkChallenges _ _ tot = Inr tot"

definition evidenceReason :: "duration \<Rightarrow> string list \<Rightarrow> liveness_evidence \<Rightarrow> string" where
  "evidenceReason elapsed want ev =
     (if length (le_Challenges ev) \<noteq> length want then ''liveness_challenge_mismatch''
      else case checkChallenges (le_Challenges ev) want 0 of
        Inl reason \<Rightarrow> reason
      | Inr tot \<Rightarrow> if wrap64 (tot * 1000000) > elapsed then ''liveness_timing_implausible'' else '''')"

definition checkLiveness ::
  "crypto \<Rightarrow> liveness_config \<Rightarrow> time \<Rightarrow> string \<Rightarrow> json_object \<Rightarrow> string" where
  "checkLiveness cr c now sid payload =
     (if fst (stringField payload ''template_version'') \<noteq> lv_TemplateVersion c then ''unsupported_template_version''
      else
        (let token = fst (stringField payload ''challenge_token'') in
         if token = '''' then ''missing_challenge_token''
         else case openToken cr c sid token of
           None \<Rightarrow> ''invalid_challenge_token''
         | Some (issued, want) \<Rightarrow>
             (let elapsed = sub_time now issued in
              if elapsed < lv_MinCeremony c then ''liveness_too_fast''
              else if elapsed > lv_MaxCeremony c then ''challenge_expired''
              else case map_of payload ''liveness'' of
                None \<Rightarrow> ''missing_liveness''
              | Some raw \<Rightarrow>
                  (case unmarshal_evidence raw of
                     None \<Rightarrow> ''invalid_liveness''
                   | Some ev \<Rightarrow> evidenceReason elapsed want ev))))"

lemma checkChallenges_Inr:
  "length chs = length want \<Longrightarrow> checkChallenges chs want tot = Inr n \<longleftrightarrow>
     map chr_Kind chs = want \<and> (\<forall>ch \<in> set chs. 250 \<le> chr_MS ch \<and> chr_MS ch \<le> 10000) \<and>
     n = tot + sum_list (map chr_MS chs)"
  by (induction chs want tot rule: checkChallenges.induct) (auto simp: MinChallengeMS_def MaxChallengeMS_def)

lemma sum_MS_bounds:
  "\<forall>ch \<in> set chs. 250 \<le> chr_MS ch \<and> chr_MS ch \<le> 10000 \<Longrightarrow>
     0 \<le> sum_list (map chr_MS chs) \<and> sum_list (map chr_MS chs) \<le> 10000 * int (length chs)"
  by (induction chs) auto

lemma openToken_kinds: "openToken cr c sid token = Some (t, kinds) \<Longrightarrow> length kinds = 3"
  by (erule openToken_Some) simp

lemma checkChallenges_reason [simp]: "checkChallenges chs want tot \<noteq> Inl ''''"
  by (induction chs want tot rule: checkChallenges.induct) auto

text \<open>What a passing check means: the issued challenges in the issued order, each and all in a plausible time.\<close>

definition plausible :: "duration \<Rightarrow> string list \<Rightarrow> liveness_evidence \<Rightarrow> bool" where
  "plausible elapsed want ev \<longleftrightarrow>
     map chr_Kind (le_Challenges ev) = want \<and>
     list_all (\<lambda>ch. 250 \<le> chr_MS ch \<and> chr_MS ch \<le> 10000) (le_Challenges ev) \<and>
     sum_list (map chr_MS (le_Challenges ev)) * 1000000 \<le> elapsed"

lemma evidenceReason_passes:
  assumes "length want = 3"
  shows "evidenceReason elapsed want ev = '''' \<longleftrightarrow> plausible elapsed want ev"
proof (cases "length (le_Challenges ev) = length want \<and>
    (\<forall>ch \<in> set (le_Challenges ev). 250 \<le> chr_MS ch \<and> chr_MS ch \<le> 10000)")
  case True
  define n where "n = sum_list (map chr_MS (le_Challenges ev))"
  have "0 \<le> n" "n \<le> 30000" using sum_MS_bounds [of "le_Challenges ev"] True assms by (auto simp: n_def)
  then have w: "wrap64 (n * 1000000) = n * 1000000" by (intro wrap64_id) (simp_all add: min_int64_def max_int64_def)
  show ?thesis
  proof (cases "map chr_Kind (le_Challenges ev) = want")
    case kinds: True
    then have "checkChallenges (le_Challenges ev) want 0 = Inr n" using True by (simp add: checkChallenges_Inr n_def)
    then show ?thesis using True kinds w by (simp add: evidenceReason_def plausible_def list_all_iff n_def [symmetric])
  next
    case False
    then have "\<exists>r. checkChallenges (le_Challenges ev) want 0 = Inl r"
      using True by (cases "checkChallenges (le_Challenges ev) want 0") (auto simp: checkChallenges_Inr)
    then show ?thesis using True False by (auto simp: evidenceReason_def plausible_def)
  qed
next
  case False
  then have "\<exists>r. checkChallenges (le_Challenges ev) want 0 = Inl r" if "length (le_Challenges ev) = length want"
    using that by (cases "checkChallenges (le_Challenges ev) want 0") (auto simp: checkChallenges_Inr)
  then show ?thesis using False
    by (auto simp: evidenceReason_def plausible_def list_all_iff)
qed

lemma checkLiveness_passes:
  "checkLiveness cr c now sid payload = '''' \<longleftrightarrow>
     fst (stringField payload ''template_version'') = lv_TemplateVersion c \<and>
     (\<exists>issued want raw ev.
        fst (stringField payload ''challenge_token'') \<noteq> '''' \<and>
        openToken cr c sid (fst (stringField payload ''challenge_token'')) = Some (issued, want) \<and>
        lv_MinCeremony c \<le> sub_time now issued \<and> sub_time now issued \<le> lv_MaxCeremony c \<and>
        map_of payload ''liveness'' = Some raw \<and> unmarshal_evidence raw = Some ev \<and>
        plausible (sub_time now issued) want ev)"
  unfolding checkLiveness_def Let_def
  by (auto simp: evidenceReason_passes [OF openToken_kinds] not_less split: option.splits if_splits)

end
