(* ===== verification/Selfie_Method.thy ===== *)
theory Selfie_Method
  imports Selfie_Liveness Vouching
begin

text \<open>
  The two selfie ceremonies, \<open>src/src/methods/fuzzy-extractor-selfie/method.go\<close> (in a browser) and
  \<open>native.go\<close> (the Android wallet): what they check and the enrollment they share. The state is a pair of the
  accumulator and whatever the issuer's match hook works on. What the native ceremony asks of code outside the
  package, the attestation of the device key and its signature, is an argument, and so is the verdict of the
  floating-point motion analysis (\<open>motion.go\<close>).
\<close>

section \<open>Enrollment\<close>

record ('a, 'm) selfie_state =
  sf_acc :: 'a
  sf_issuer :: 'm

datatype selfie_error =
    SeSessionRequired | SeChallengeOrder
  | SeAccumulatorLookup accumulator_error | SeOnMatch string | SeGen fuzzy_error | SeAccumulatorAdd accumulator_error

definition on_acc :: "('a, 'e, 'b) comp \<Rightarrow> (('a, 'm) selfie_state, 'e, 'b) comp" where
  "on_acc m s = (case m (sf_acc s) of (r, a) \<Rightarrow> (r, s\<lparr>sf_acc := a\<rparr>))"

definition on_issuer :: "('m, 'e, 'b) comp \<Rightarrow> (('a, 'm) selfie_state, 'e, 'b) comp" where
  "on_issuer m s = (case m (sf_issuer s) of (r, i) \<Rightarrow> (r, s\<lparr>sf_issuer := i\<rparr>))"

definition SelfieMethod :: string where "SelfieMethod = ''fuzzy-extractor-selfie''"
definition NativeMethod :: string where "NativeMethod = ''fuzzy-extractor-selfie-native''"
definition ReasonDuplicate :: string where "ReasonDuplicate = ''duplicate_person_detected''"

type_synonym 'a finder = "crypto \<Rightarrow> octet list \<Rightarrow> ('a, accumulator_error, enrollment_record option) comp"
type_synonym 'a adder = "enrollment_record \<Rightarrow> ('a, accumulator_error, unit) comp"
type_synonym 'm match_hook = "(string \<Rightarrow> commitment \<Rightarrow> ('m, string, unit) comp) option"

definition enroll ::
  "crypto \<Rightarrow> 'a finder \<Rightarrow> 'a adder \<Rightarrow> 'm match_hook \<Rightarrow> (octet \<times> octet \<times> octet) option \<Rightarrow> time \<Rightarrow>
   string \<Rightarrow> string \<Rightarrow> octet list \<Rightarrow> (('a, 'm) selfie_state, selfie_error, method_result) comp" where
  "enroll cr find_dup add onMatch rand now sid methodID template =
     andThen (onError SeAccumulatorLookup (on_acc (find_dup cr template))) (\<lambda>found.
       case found of
         Some rec \<Rightarrow>
           andThen (case onMatch of
                 None \<Rightarrow> ret ()
               | Some hook \<Rightarrow> onError SeOnMatch (on_issuer (hook sid (er_Commitment rec)))) (\<lambda>_.
             ret (failed_result methodID ReasonDuplicate))
       | None \<Rightarrow>
           (case Gen cr rand template of
              Inl e \<Rightarrow> throw (SeGen e)
            | Inr (helper, c) \<Rightarrow>
                andThen (onError SeAccumulatorAdd (on_acc
                    (add \<lparr>er_Helper = helper, er_Commitment = c, er_EnrolledAt = now\<rparr>))) (\<lambda>_.
                  ret (passed_result methodID now (hex_encode c)))))"

section \<open>The browser ceremony\<close>

record selfie_config =
  sm_Liveness :: "liveness_config option"
  sm_Strength :: int

text \<open>\<open>selfie_NewMethod\<close>; \<open>None\<close> is the panic of an invalid liveness configuration.\<close>

definition selfie_NewMethod :: "selfie_config \<Rightarrow> selfie_config option" where
  "selfie_NewMethod cfg =
     (let strength = (if sm_Strength cfg = 0 then 70 else sm_Strength cfg) in
      case sm_Liveness cfg of
        None \<Rightarrow> Some \<lparr>sm_Liveness = None, sm_Strength = strength\<rparr>
      | Some lc \<Rightarrow> map_option (\<lambda>lc'. \<lparr>sm_Liveness = Some lc', sm_Strength = strength\<rparr>) (lv_withDefaults lc))"

definition selfie_Metadata :: "selfie_config \<Rightarrow> method_metadata" where
  "selfie_Metadata m =
     \<lparr>md_ID = SelfieMethod, md_Type = MethodTypeAnchor, md_Strength = sm_Strength m, md_CostUSD = 0,
      md_UXFriction = ''med'', md_PlatformRequirements = [], md_FreshnessLifetime = 180 * 24 * ns_hour,
      md_Version = ''0.1.0''\<rparr>"

definition selfie_BeginCeremony ::
  "crypto \<Rightarrow> selfie_config \<Rightarrow> time \<Rightarrow> nat option list \<Rightarrow> ceremony_context \<Rightarrow> selfie_error + challenge_data" where
  "selfie_BeginCeremony cr m now draws cc =
     (let endpoint = ''/v1/methods/'' @ SelfieMethod @ ''/complete'' in
      if cc_SessionID cc = '''' then Inl SeSessionRequired
      else case sm_Liveness m of
        Some lc \<Rightarrow>
          (case issueToken cr lc now draws (cc_SessionID cc) of
             None \<Rightarrow> Inl SeChallengeOrder
           | Some (kinds, token) \<Rightarrow> Inr \<lparr>ch_Type = ''fuzzy-extractor-challenge'', ch_Payload =
               [(''template_bytes'', JNum (int TemplateBytes)), (''template_version'', JString (lv_TemplateVersion lc)),
                (''liveness'', JString ''active-v1''), (''challenges'', JList (map JString kinds)),
                (''challenge_token'', JString token), (''complete_endpoint'', JString endpoint),
                (''instructions'', JString ''Run the challenges in the given order with the camera and the on-device face model, then submit template_b64, template_version, challenge_token and liveness.'')]\<rparr>)
      | None \<Rightarrow> Inr \<lparr>ch_Type = ''fuzzy-extractor-challenge'', ch_Payload =
           [(''template_bytes'', JNum (int TemplateBytes)), (''complete_endpoint'', JString endpoint),
            (''instructions'', JString ''Capture a selfie, run on-device liveness + face-embedding extraction, binarize to template_bytes bytes, and submit base64 as template_b64.'')]\<rparr>)"

definition decodeTemplate :: "json_object \<Rightarrow> string + octet list" where
  "decodeTemplate payload =
     (let templateB64 = fst (stringField payload ''template_b64'') in
      if templateB64 = '''' then Inl ''missing_template''
      else case Std_decode templateB64 of
        None \<Rightarrow> Inl ''invalid_template_encoding''
      | Some b \<Rightarrow>
          if length b \<noteq> TemplateBytes
          then Inl (''invalid_template_length:want='' @ int_string (int TemplateBytes) @ '',got='' @ int_string (int (length b)))
          else Inr (bytes_octets b))"

definition selfie_CompleteCeremony ::
  "crypto \<Rightarrow> selfie_config \<Rightarrow> 'a finder \<Rightarrow> 'a adder \<Rightarrow> 'm match_hook \<Rightarrow> (octet \<times> octet \<times> octet) option \<Rightarrow> time \<Rightarrow>
   string \<Rightarrow> json_object \<Rightarrow> (('a, 'm) selfie_state, selfie_error, method_result) comp" where
  "selfie_CompleteCeremony cr m find_dup add onMatch rand now sid payload =
     (if sid = '''' then ret (failed_result SelfieMethod ''missing_session_id'')
      else case decodeTemplate payload of
        Inl reason \<Rightarrow> ret (failed_result SelfieMethod reason)
      | Inr template \<Rightarrow>
          (let reason = (case sm_Liveness m of None \<Rightarrow> '''' | Some lc \<Rightarrow> checkLiveness cr lc now sid payload) in
           if reason \<noteq> '''' then ret (failed_result SelfieMethod reason)
           else enroll cr find_dup add onMatch rand now sid SelfieMethod template))"

section \<open>The native ceremony\<close>

definition NativeSummaryVersion :: string where "NativeSummaryVersion = ''native-selfie-v1''"
definition DefaultFlashColours :: nat where "DefaultFlashColours = 8"
definition DefaultFlashSegmentMS :: int where "DefaultFlashSegmentMS = 300"
definition DefaultSweepMS :: int where "DefaultSweepMS = 3000"
definition maxSummaryBytes :: nat where "maxSummaryBytes = 2097152"
definition attestTag :: string where "attestTag = ''personhood-selfie-native-v1''"
definition flashTag :: string where "flashTag = ''personhood-selfie-flash-v1''"
definition FlashColourNames :: "string list" where "FlashColourNames = [''#ff0000'', ''#00ff00'', ''#0000ff'']"

record 'trace native_summary =
  nm_Version :: string
  nm_SessionID :: string
  nm_ChallengeToken :: string
  nm_TemplateB64 :: string
  nm_TemplateVersion :: string
  nm_Liveness :: liveness_evidence
  nm_Trace :: 'trace

text \<open>
  \<open>na_parse\<close> is \<open>json.Unmarshal\<close> into the summary. \<open>na_attest\<close> is the \<open>KeyAttester\<close>: the attested key, or the
  reason of its \<open>AttestationError\<close>, empty for any other error. \<open>na_verify\<close> holds when the key is an ECDSA key
  under which the signature of a digest verifies. \<open>na_analyze\<close> is \<open>AnalyzeNativeTrace\<close>: pass, and a reason.
\<close>

record ('trace, 'key) native_env =
  na_parse :: "bytes \<Rightarrow> 'trace native_summary option"
  na_attest :: "string list \<Rightarrow> bytes \<Rightarrow> string + 'key"
  na_verify :: "'key \<Rightarrow> bytes \<Rightarrow> bytes \<Rightarrow> bool"
  na_analyze :: "'trace \<Rightarrow> nat list \<Rightarrow> bool \<times> string"

definition attestationChallenge :: "crypto \<Rightarrow> string \<Rightarrow> string \<Rightarrow> bytes" where
  "attestationChallenge cr sid token = c_sha256 cr (attestTag @ [byte 0] @ sid @ [byte 0] @ token)"

text \<open>\<open>out[i] = (out[i-1] + 1 + b[i % len(b)] % 2) % 3\<close> for the remaining positions.\<close>

fun nextColours :: "bytes \<Rightarrow> nat \<Rightarrow> nat \<Rightarrow> nat \<Rightarrow> nat list" where
  "nextColours b prev i 0 = []"
| "nextColours b prev i (Suc k) =
     (let c = (prev + 1 + byte_of (b ! (i mod length b)) mod 2) mod 3 in c # nextColours b c (i + 1) k)"

definition flashColours :: "crypto \<Rightarrow> liveness_config \<Rightarrow> string \<Rightarrow> nat \<Rightarrow> nat list" where
  "flashColours cr lc token n =
     (let b = c_hmac cr (lv_Key lc) (flashTag @ [byte 0] @ token);
          first = byte_of (b ! 0) mod 3
      in first # nextColours b first 1 (n - 1))"

definition native_BeginCeremony ::
  "crypto \<Rightarrow> liveness_config \<Rightarrow> time \<Rightarrow> nat option list \<Rightarrow> ceremony_context \<Rightarrow> selfie_error + challenge_data" where
  "native_BeginCeremony cr lc now draws cc =
     (if cc_SessionID cc = '''' then Inl SeSessionRequired
      else case issueToken cr lc now draws (cc_SessionID cc) of
        None \<Rightarrow> Inl SeChallengeOrder
      | Some (kinds, token) \<Rightarrow> Inr \<lparr>ch_Type = ''fuzzy-extractor-native-challenge'', ch_Payload =
          [(''template_bytes'', JNum (int TemplateBytes)), (''template_version'', JString (lv_TemplateVersion lc)),
           (''liveness'', JString ''active-v1''), (''challenges'', JList (map JString kinds)),
           (''challenge_token'', JString token), (''summary_version'', JString NativeSummaryVersion),
           (''attestation_challenge'', JString (hex_encode (attestationChallenge cr (cc_SessionID cc) token))),
           (''flash_colors'', JList (map (\<lambda>c. JString (FlashColourNames ! c)) (flashColours cr lc token DefaultFlashColours))),
           (''flash_segment_ms'', JNum DefaultFlashSegmentMS), (''sweep_ms'', JNum DefaultSweepMS),
           (''complete_endpoint'', JString (''/v1/methods/'' @ NativeMethod @ ''/complete'')),
           (''fallback_method'', JString SelfieMethod)]\<rparr>)"

text \<open>\<open>stringList\<close>; a blank or non-string element empties it.\<close>

fun stringList :: "json_value option \<Rightarrow> string list" where
  "stringList (Some (JList vs)) =
     (if list_all (\<lambda>v. case v of JString s \<Rightarrow> trim_space s \<noteq> '''' | _ \<Rightarrow> False) vs
      then map (\<lambda>v. case v of JString s \<Rightarrow> trim_space s | _ \<Rightarrow> '''') vs else [])"
| "stringList _ = []"

text \<open>\<open>json.Marshal\<close> of the signed evidence, which \<open>checkLiveness\<close> reads back.\<close>

definition marshal_evidence :: "liveness_evidence \<Rightarrow> json_value" where
  "marshal_evidence ev = JObject ([(''challenges'', JList (map (\<lambda>ch. JObject [(''kind'', JString (chr_Kind ch)),
        (''ms'', JNum (chr_MS ch))]) (le_Challenges ev)))]
     @ (if le_Frames ev = 0 then [] else [(''frames'', JNum (le_Frames ev))])
     @ (if le_Parallax ev = [] then [] else [(''parallax'', JList (map JReal (le_Parallax ev)))]))"

definition summary_payload :: "'trace native_summary \<Rightarrow> json_object" where
  "summary_payload smy =
     [(''template_b64'', JString (nm_TemplateB64 smy)), (''template_version'', JString (nm_TemplateVersion smy)),
      (''challenge_token'', JString (nm_ChallengeToken smy)), (''liveness'', marshal_evidence (nm_Liveness smy))]"

text \<open>
  Everything \<open>CompleteCeremony\<close> does before it enrolls: the error reason, or the template that goes in.
\<close>

definition native_checks ::
  "crypto \<Rightarrow> liveness_config \<Rightarrow> ('trace, 'key) native_env \<Rightarrow> time \<Rightarrow> string \<Rightarrow> json_object \<Rightarrow> string + octet list" where
  "native_checks cr lc env now sid payload =
     (if sid = '''' then Inl ''missing_session_id''
      else case map_of payload ''native'' of
        Some (JObject evid) \<Rightarrow>
          (let summaryB64 = fst (stringField evid ''summary_b64'');
               sigB64 = fst (stringField evid ''signature_b64'');
               chain = stringList (map_of evid ''certificate_chain'')
           in if summaryB64 = '''' \<or> sigB64 = '''' \<or> chain = [] then Inl ''native_evidence_missing''
              else if length summaryB64 > maxSummaryBytes * 4 div 3 + 4 then Inl ''native_summary_invalid''
              else case (Std_decode summaryB64, Std_decode sigB64) of
                (Some summaryBytes, Some sig) \<Rightarrow>
                  (case na_parse env summaryBytes of
                     None \<Rightarrow> Inl ''native_summary_invalid''
                   | Some smy \<Rightarrow>
                       if nm_Version smy \<noteq> NativeSummaryVersion then Inl ''native_summary_invalid''
                       else if nm_SessionID smy \<noteq> sid \<or> nm_ChallengeToken smy = '''' then Inl ''native_summary_mismatch''
                       else case na_attest env chain (attestationChallenge cr sid (nm_ChallengeToken smy)) of
                         Inl reason \<Rightarrow> Inl (if reason \<noteq> '''' then reason else ''attestation_invalid'')
                       | Inr pub \<Rightarrow>
                           if \<not> na_verify env pub (c_sha256 cr summaryBytes) sig then Inl ''native_signature_invalid''
                           else case decodeTemplate (summary_payload smy) of
                             Inl reason \<Rightarrow> Inl reason
                           | Inr template \<Rightarrow>
                               (let reason = checkLiveness cr lc now sid (summary_payload smy) in
                                if reason \<noteq> '''' then Inl reason
                                else let (pass, why) = na_analyze env (nm_Trace smy)
                                       (flashColours cr lc (nm_ChallengeToken smy) DefaultFlashColours)
                                in if \<not> pass then Inl why else Inr template))
              | _ \<Rightarrow> Inl ''native_summary_invalid'')
      | _ \<Rightarrow> Inl ''native_evidence_missing'')"

definition native_CompleteCeremony ::
  "crypto \<Rightarrow> liveness_config \<Rightarrow> ('trace, 'key) native_env \<Rightarrow> 'a finder \<Rightarrow> 'a adder \<Rightarrow> 'm match_hook \<Rightarrow>
   (octet \<times> octet \<times> octet) option \<Rightarrow> time \<Rightarrow> string \<Rightarrow> json_object \<Rightarrow>
   (('a, 'm) selfie_state, selfie_error, method_result) comp" where
  "native_CompleteCeremony cr lc env find_dup add onMatch rand now sid payload =
     (case native_checks cr lc env now sid payload of
        Inl reason \<Rightarrow> ret (failed_result NativeMethod reason)
      | Inr template \<Rightarrow> enroll cr find_dup add onMatch rand now sid NativeMethod template)"

definition IsNativeFallbackReason :: "string \<Rightarrow> bool" where
  "IsNativeFallbackReason reason \<longleftrightarrow> has_prefix reason ''native_'' \<or> has_prefix reason ''attestation_''"

definition native_Metadata :: "int \<Rightarrow> selfie_config \<Rightarrow> method_metadata" where
  "native_Metadata strength m =
     (selfie_Metadata m)\<lparr>md_ID := NativeMethod, md_Strength := (if strength = 0 then 55 else strength)\<rparr>"

definition native_IsAvailableForUser :: "string \<Rightarrow> bool" where
  "native_IsAvailableForUser platform \<longleftrightarrow> to_lower (trim_space platform) \<notin> {''web'', ''kiosk''}"

lemma selfie_metadata_valid:
  "selfie_NewMethod cfg = Some m \<Longrightarrow> 50 \<le> sm_Strength m \<Longrightarrow> sm_Strength m \<le> 100 \<Longrightarrow>
     md_Validate (selfie_Metadata m) = None \<and> md_Validate (native_Metadata 0 m) = None"
  by (simp add: md_Validate_None selfie_Metadata_def native_Metadata_def SelfieMethod_def NativeMethod_def)

end
