(* ===== verification/Selfie_Safety.thy ===== *)
theory Selfie_Safety
  imports Selfie_Method
begin

text \<open>
  What the selfie anchor guarantees. The enrollment is proved once against the \<open>accumulator\<close> interface; the
  properties state it for the in-memory list, Firestore and Redis, in any sequence of ceremonies and with any
  store call failing.
\<close>

section \<open>One enrollment\<close>

definition from_Gen :: "crypto \<Rightarrow> octet list \<Rightarrow> enrollment_record \<Rightarrow> bool" where
  "from_Gen cr w rec \<longleftrightarrow> length w = 32 \<and> has_size rec \<and> (\<exists>rand. Gen cr rand w = Inr (er_Helper rec, er_Commitment rec))"

lemma from_Gen_reproduces:
  "from_Gen cr w rec \<Longrightarrow> length w' = 32 \<Longrightarrow> withinTolerance w w' \<Longrightarrow> reproduces cr w' rec"
  by (auto simp: from_Gen_def reproduces_def intro: rep_recovers)

lemma wp_on_acc: "wp (on_acc m) Q E s = wp m (\<lambda>a t. Q a (s\<lparr>sf_acc := t\<rparr>)) (\<lambda>e t. E e (s\<lparr>sf_acc := t\<rparr>)) (sf_acc s)"
  by (simp add: wp_def on_acc_def split: prod.split sum.split)

lemma wp_on_issuer:
  "wp (on_issuer m) Q E s = wp m (\<lambda>a t. Q a (s\<lparr>sf_issuer := t\<rparr>)) (\<lambda>e t. E e (s\<lparr>sf_issuer := t\<rparr>)) (sf_issuer s)"
  by (simp add: wp_def on_issuer_def split: prod.split sum.split)

lemma wp_top: "wp m (\<lambda>_ _. True) (\<lambda>_ _. True) s"
  by (simp add: wp_def split: prod.split sum.split)

text \<open>
  \<open>outcome\<close> says what an enrollment of template \<open>t\<close> leaves behind: nothing is lost, and a success stores a record
  of \<open>t\<close>, which no record from before reproduces.
\<close>

definition outcome ::
  "crypto \<Rightarrow> octet list \<Rightarrow> enrollment_record set \<Rightarrow> enrollment_record set \<Rightarrow> method_result \<Rightarrow> bool" where
  "outcome cr t before after res \<longleftrightarrow> before \<subseteq> after \<and>
     (mr_Success res \<longrightarrow>
        (\<forall>rec \<in> before. has_size rec \<longrightarrow> \<not> reproduces cr t rec) \<and>
        (\<exists>rec \<in> after. from_Gen cr t rec \<and> mr_AttestationDigest res = hex_encode (er_Commitment rec)))"

context accumulator
begin

lemma enroll_outcome:
  "wp (enroll cr find_dup add onMatch rand now sid mid t)
     (\<lambda>res s'. outcome cr t (enrolled (sf_acc s)) (enrolled (sf_acc s')) res)
     (\<lambda>_ s'. enrolled (sf_acc s) \<subseteq> enrolled (sf_acc s')) s"
  unfolding enroll_def wp_andThen wp_onError wp_on_acc
proof (rule wp_mono [OF wp_conj [OF find_keeps find_answers]], goal_cases)
  case (1 found s')
  note found = 1
  show ?case
  proof (cases found)
    case (Some rec)
    then show ?thesis using found
      by (cases onMatch) (auto simp: wp wp_on_issuer outcome_def failed_result_def intro: wp_mono [OF wp_top])
  next
    case None
    show ?thesis
    proof (cases "Gen cr rand t")
      case (Inl e)
      then show ?thesis using found None by (simp add: wp)
    next
      case (Inr hc)
      obtain h c where hc: "hc = (h, c)" by (cases hc)
      let ?rec = "\<lparr>er_Helper = h, er_Commitment = c, er_EnrolledAt = now\<rparr>"
      have l: "length t = 32" "has_size ?rec" using Gen_lengths Inr hc by (auto simp: has_size_def)
      then have "from_Gen cr t ?rec" using Inr hc by (auto simp: from_Gen_def)
      then show ?thesis
        unfolding None Inr hc option.case sum.case prod.case wp_andThen wp_onError wp_on_acc wp_ret
        using found None by (intro wp_mono [OF add_grows [OF l(2)]]) (auto simp: outcome_def passed_result_def)
    qed
  qed
next
  case (2 e s')
  then show ?case by simp
qed

end

section \<open>Sequences of ceremonies\<close>

record ('trace, 'key) selfie_setup =
  su_crypto :: crypto
  su_web :: selfie_config
  su_native :: liveness_config
  su_env :: "('trace, 'key) native_env"

text \<open>A completion request with the randomness and the clock it meets.\<close>

datatype selfie_request =
    WebComplete string json_object "(octet \<times> octet \<times> octet) option" time
  | NativeComplete string json_object "(octet \<times> octet \<times> octet) option" time

fun complete ::
  "('trace, 'key) selfie_setup \<Rightarrow> 'a finder \<Rightarrow> 'a adder \<Rightarrow> 'm match_hook \<Rightarrow> selfie_request \<Rightarrow>
   (('a, 'm) selfie_state, selfie_error, method_result) comp" where
  "complete su fd ad hook (WebComplete sid payload rand now) =
     selfie_CompleteCeremony (su_crypto su) (su_web su) fd ad hook rand now sid payload"
| "complete su fd ad hook (NativeComplete sid payload rand now) =
     native_CompleteCeremony (su_crypto su) (su_native su) (su_env su) fd ad hook rand now sid payload"

text \<open>The template a request presents, once its checks have passed.\<close>

fun presented :: "('trace, 'key) selfie_setup \<Rightarrow> selfie_request \<Rightarrow> octet list" where
  "presented su (WebComplete sid payload rand now) = (case decodeTemplate payload of Inr t \<Rightarrow> t | Inl _ \<Rightarrow> [])"
| "presented su (NativeComplete sid payload rand now) =
     (case native_checks (su_crypto su) (su_native su) (su_env su) now sid payload of Inr t \<Rightarrow> t | Inl _ \<Rightarrow> [])"

text \<open>\<open>serve\<close> runs requests in turn and logs each success with its template.\<close>

fun serve ::
  "('trace, 'key) selfie_setup \<Rightarrow> 'a finder \<Rightarrow> 'a adder \<Rightarrow> 'm match_hook \<Rightarrow> selfie_request list \<Rightarrow>
   ('a, 'm) selfie_state \<Rightarrow> (octet list \<times> method_result) list" where
  "serve su fd ad hook [] s = []"
| "serve su fd ad hook (req # reqs) s =
     (case complete su fd ad hook req s of
        (Inl _, s') \<Rightarrow> serve su fd ad hook reqs s'
      | (Inr res, s') \<Rightarrow> (if mr_Success res then [(presented su req, res)] else []) @ serve su fd ad hook reqs s')"

definition pairwise_far :: "(octet list \<times> method_result) list \<Rightarrow> bool" where
  "pairwise_far ps \<longleftrightarrow> sorted_wrt (\<lambda>p q. \<not> withinTolerance (fst p) (fst q)) ps"

definition digests :: "(octet list \<times> method_result) list \<Rightarrow> string list" where
  "digests ps = map (mr_AttestationDigest \<circ> snd) ps"

lemma outcome_refused [simp]: "outcome cr t A A (failed_result mid reason)"
  by (simp add: outcome_def failed_result_def)

context accumulator
begin

lemma complete_outcome:
  "wp (complete su find_dup add hook req)
     (\<lambda>res s'. outcome (su_crypto su) (presented su req) (enrolled (sf_acc s)) (enrolled (sf_acc s')) res)
     (\<lambda>_ s'. enrolled (sf_acc s) \<subseteq> enrolled (sf_acc s')) s"
  by (cases req) (auto simp: selfie_CompleteCeremony_def native_CompleteCeremony_def Let_def wp enroll_outcome
      split: sum.split)

lemma complete_cases:
  assumes "complete su find_dup add hook req s = (r, s')"
  shows "enrolled (sf_acc s) \<subseteq> enrolled (sf_acc s') \<and>
    (\<forall>res. r = Inr res \<longrightarrow> outcome (su_crypto su) (presented su req) (enrolled (sf_acc s)) (enrolled (sf_acc s')) res)"
  using complete_outcome [of su hook req s] assms by (cases r) (auto simp: wp_def outcome_def)

lemma serve_far_from_enrolled:
  "p \<in> set (serve su find_dup add hook reqs s) \<Longrightarrow> rec \<in> enrolled (sf_acc s) \<Longrightarrow>
     from_Gen (su_crypto su) w rec \<Longrightarrow> \<not> withinTolerance w (fst p)"
proof (induction reqs arbitrary: s)
  case (Cons req reqs)
  obtain r s' where c: "complete su find_dup add hook req s = (r, s')" by (cases "complete su find_dup add hook req s")
  note o = complete_cases [OF c]
  have rest: "rec \<in> enrolled (sf_acc s')" using o Cons.prems(2) by blast
  show ?case
  proof (cases "p \<in> set (serve su find_dup add hook reqs s')")
    case True
    then show ?thesis using Cons.IH rest Cons.prems(3) by blast
  next
    case False
    then obtain res where r: "r = Inr res" "mr_Success res" "p = (presented su req, res)"
      using Cons.prems(1) c by (auto split: sum.splits if_splits)
    then have "\<not> reproduces (su_crypto su) (presented su req) rec" "length (presented su req) = 32"
      using o Cons.prems(2,3) by (auto simp: outcome_def from_Gen_def)
    then show ?thesis using from_Gen_reproduces [OF Cons.prems(3)] r(3) by auto
  qed
qed simp

lemma serve_pairwise_far: "pairwise_far (serve su find_dup add hook reqs s)"
proof (induction reqs arbitrary: s)
  case (Cons req reqs)
  obtain r s' where c: "complete su find_dup add hook req s = (r, s')" by (cases "complete su find_dup add hook req s")
  have "\<not> withinTolerance (presented su req) (fst q)"
    if r: "r = Inr res" "mr_Success res" and q: "q \<in> set (serve su find_dup add hook reqs s')" for res q
  proof -
    obtain rec where "rec \<in> enrolled (sf_acc s')" "from_Gen (su_crypto su) (presented su req) rec"
      using complete_cases [OF c] r by (auto simp: outcome_def)
    then show ?thesis using serve_far_from_enrolled q by blast
  qed
  then show ?case using Cons c by (auto simp: pairwise_far_def split: sum.splits)
qed (simp add: pairwise_far_def)

text \<open>Every digest that goes out is the commitment of a record that stays in the store.\<close>

lemma serve_digest:
  "p \<in> set (serve su find_dup add hook reqs s) \<Longrightarrow>
     \<exists>seed \<in> set candidateSeeds. mr_AttestationDigest (snd p) = hex_encode (commitmentFromSeed (su_crypto su) seed)"
proof (induction reqs arbitrary: s)
  case (Cons req reqs)
  obtain r s' where c: "complete su find_dup add hook req s = (r, s')" by (cases "complete su find_dup add hook req s")
  have "\<exists>seed \<in> set candidateSeeds. mr_AttestationDigest res = hex_encode (commitmentFromSeed (su_crypto su) seed)"
    if "r = Inr res" "mr_Success res" for res
    using complete_cases [OF c] that
    by (auto simp: outcome_def from_Gen_def elim!: Gen_Inr intro!: bexI clean_seed_candidate)
  then show ?case using Cons c by (auto split: sum.splits if_splits)
qed simp

lemma serve_digests_card: "card (set (digests (serve su find_dup add hook reqs s))) \<le> 131072"
proof -
  have "set (digests (serve su find_dup add hook reqs s)) \<subseteq>
      hex_encode ` commitmentFromSeed (su_crypto su) ` set candidateSeeds"
    using serve_digest by (fastforce simp: digests_def)
  then have "card (set (digests (serve su find_dup add hook reqs s))) \<le>
      card (hex_encode ` commitmentFromSeed (su_crypto su) ` set candidateSeeds)"
    by (intro card_mono finite_imageI finite_set)
  also have "\<dots> \<le> card (commitmentFromSeed (su_crypto su) ` set candidateSeeds)"
    by (intro card_image_le finite_imageI finite_set)
  also have "\<dots> \<le> 131072" by (rule card_commitments)
  finally show ?thesis .
qed

end

section \<open>Firestore takes each commitment once\<close>

definition doc_ids :: "durable \<Rightarrow> string set" where
  "doc_ids d = fst ` set (du_docs d)"

lemma doc_ids_called [simp]: "doc_ids (called d) = doc_ids d"
  by (simp add: doc_ids_def)

lemma firestore_find_ids:
  "wp (durable_FindDuplicate cr t) (\<lambda>_ s'. doc_ids s' = doc_ids s) (\<lambda>_ s'. doc_ids s' = doc_ids s) s"
  by (simp add: durable_FindDuplicate_def service_list_def wp_def andThen_def throw_def ret_def split: sum.split)

lemma firestore_add_ids:
  "wp (firestore_Add rec)
     (\<lambda>_ s'. hex_encode (er_Commitment rec) \<notin> doc_ids s \<and> doc_ids s' = insert (hex_encode (er_Commitment rec)) (doc_ids s))
     (\<lambda>_ s'. doc_ids s \<subseteq> doc_ids s') s"
  by (auto simp: firestore_Add_def firestore_Create_def wp_def andThen_def throw_def ret_def Let_def doc_ids_def
      set_insort_key split: call_fate.split)

definition fresh_digest :: "string set \<Rightarrow> string set \<Rightarrow> method_result \<Rightarrow> bool" where
  "fresh_digest before after res \<longleftrightarrow> before \<subseteq> after \<and>
     (mr_Success res \<longrightarrow> mr_AttestationDigest res \<in> after - before)"

lemma enroll_fresh:
  "wp (enroll cr durable_FindDuplicate firestore_Add onMatch rand now sid mid t)
     (\<lambda>res s'. fresh_digest (doc_ids (sf_acc s)) (doc_ids (sf_acc s')) res)
     (\<lambda>_ s'. doc_ids (sf_acc s) \<subseteq> doc_ids (sf_acc s')) s"
  unfolding enroll_def wp_andThen wp_onError wp_on_acc
proof (rule wp_mono [OF firestore_find_ids], goal_cases)
  case (1 found s')
  then show ?case
  proof (cases found)
    case (Some rec)
    then show ?thesis using 1
      by (cases onMatch) (auto simp: wp wp_on_issuer fresh_digest_def failed_result_def intro: wp_mono [OF wp_top])
  next
    case None
    show ?thesis
    proof (cases "Gen cr rand t")
      case (Inl e)
      then show ?thesis using 1 None by (simp add: wp)
    next
      case (Inr hc)
      obtain h c where hc: "hc = (h, c)" by (cases hc)
      show ?thesis
        unfolding None Inr hc option.case sum.case prod.case wp_andThen wp_onError wp_on_acc wp_ret
        by (rule wp_mono [OF firestore_add_ids]) (use 1 in \<open>auto simp: fresh_digest_def passed_result_def\<close>)
    qed
  qed
next
  case (2 e s')
  then show ?case by simp
qed

lemma complete_fresh:
  "wp (complete su durable_FindDuplicate firestore_Add hook req)
     (\<lambda>res s'. fresh_digest (doc_ids (sf_acc s)) (doc_ids (sf_acc s')) res)
     (\<lambda>_ s'. doc_ids (sf_acc s) \<subseteq> doc_ids (sf_acc s')) s"
proof -
  have "fresh_digest A A (failed_result mid reason)" for A mid reason
    by (simp add: fresh_digest_def failed_result_def)
  then show ?thesis
    by (cases req) (auto simp: selfie_CompleteCeremony_def native_CompleteCeremony_def Let_def wp enroll_fresh
      split: sum.split)
qed

lemma serve_fresh:
  fixes s :: "(durable, 'm) selfie_state"
  shows "distinct (digests (serve su durable_FindDuplicate firestore_Add hook reqs s)) \<and>
     set (digests (serve su durable_FindDuplicate firestore_Add hook reqs s)) \<inter> doc_ids (sf_acc s) = {}"
proof (induction reqs arbitrary: s)
  case (Cons req reqs)
  obtain r s' where c: "complete su durable_FindDuplicate firestore_Add hook req s = (r, s')"
    by (cases "complete su durable_FindDuplicate firestore_Add hook req s")
  have "doc_ids (sf_acc s) \<subseteq> doc_ids (sf_acc s') \<and>
      (\<forall>res. r = Inr res \<longrightarrow> fresh_digest (doc_ids (sf_acc s)) (doc_ids (sf_acc s')) res)"
    using complete_fresh [of su hook req s] c by (cases r) (auto simp: wp_def fresh_digest_def)
  then show ?case using Cons [of s'] c by (auto simp: digests_def fresh_digest_def split: sum.splits)
qed (simp add: digests_def)

section \<open>The properties\<close>

text \<open>C9: No face is enrolled twice: in any sequence of browser and native ceremonies, whatever the requests, the
  randomness and the match hook do, and whichever calls of a durable store fail, before or after taking effect,
  the templates of any two successful enrollments differ by more than the extractor tolerates. So whoever presents a reading
  within tolerance of an enrolled one is never enrolled again.
\<close>

theorem enrolled_faces_pairwise_far:
  "pairwise_far (serve su mem_FindDuplicate mem_Add hook reqs s) \<and>
   pairwise_far (serve su durable_FindDuplicate firestore_Add hook' reqs s') \<and>
   pairwise_far (serve su durable_FindDuplicate redis_Add hook' reqs s')"
  by (intro conjI mem.serve_pairwise_far firestore.serve_pairwise_far redis.serve_pairwise_far)

text \<open>C33: The digest a selfie puts on a credential, from which the issuer derives the person's nullifier, hides a seed of 17 bits:
  however many ceremonies succeed, they yield at most 131072 different digests. The in-memory and Redis stores give one digest
  to several people; Firestore, which takes a commitment once, enrolls no more than 131072 faces in its lifetime.
\<close>

theorem selfie_digests_bounded:
  "card (set (digests (serve su mem_FindDuplicate mem_Add hook reqs s))) \<le> 131072 \<and>
   card (set (digests (serve su durable_FindDuplicate redis_Add hook' reqs s'))) \<le> 131072 \<and>
   length (serve su durable_FindDuplicate firestore_Add hook' reqs s') \<le> 131072"
proof -
  have "length (serve su durable_FindDuplicate firestore_Add hook' reqs s') =
      card (set (digests (serve su durable_FindDuplicate firestore_Add hook' reqs s')))"
    using serve_fresh [of su hook' reqs s'] distinct_card by (fastforce simp: digests_def)
  then show ?thesis using mem.serve_digests_card redis.serve_digests_card firestore.serve_digests_card by metis
qed

section \<open>The native ceremony\<close>

text \<open>The flash sequence has the asked length, uses the three colours, and never shows one twice in a row.\<close>

lemma nextColours_shape:
  "prev < 3 \<Longrightarrow> length (nextColours b prev i k) = k \<and> set (nextColours b prev i k) \<subseteq> {..<3} \<and>
     successively (\<noteq>) (prev # nextColours b prev i k)"
proof (induction k arbitrary: prev i)
  case (Suc k)
  define e where "e = byte_of (b ! (i mod length b)) mod 2"
  define c where "c = (prev + 1 + e) mod 3"
  have "e = 0 \<or> e = 1" unfolding e_def by linarith
  moreover have "prev = 0 \<or> prev = 1 \<or> prev = 2" using Suc.prems by linarith
  ultimately have "c \<noteq> prev" unfolding c_def by (elim disjE) simp_all
  moreover have "c < 3" unfolding c_def by simp
  moreover have n: "nextColours b prev i (Suc k) = c # nextColours b c (Suc i) k"
    by (simp add: Let_def c_def e_def)
  ultimately show ?case using Suc.IH [of c "Suc i"] unfolding n by simp
qed simp

lemma flashColours_shape:
  assumes "0 < n"
  shows "length (flashColours cr lc token n) = n" "set (flashColours cr lc token n) \<subseteq> {..<3}"
    "successively (\<noteq>) (flashColours cr lc token n)"
  using assms nextColours_shape [of "byte_of (c_hmac cr (lv_Key lc) (flashTag @ [byte 0] @ token) ! 0) mod 3"]
  by (simp_all add: flashColours_def Let_def)

text \<open>What the issuer has checked when a template reaches the enrollment.\<close>

definition attested ::
  "crypto \<Rightarrow> liveness_config \<Rightarrow> ('trace, 'key) native_env \<Rightarrow> time \<Rightarrow> string \<Rightarrow> 'trace native_summary \<Rightarrow> bytes \<Rightarrow> bool" where
  "attested cr lc env now sid smy body \<longleftrightarrow>
     na_parse env body = Some smy \<and> nm_SessionID smy = sid \<and>
     (\<exists>chain key sig. na_attest env chain (attestationChallenge cr sid (nm_ChallengeToken smy)) = Inr key \<and>
        na_verify env key (c_sha256 cr body) sig) \<and>
     (\<exists>issued want ev. openToken cr lc sid (nm_ChallengeToken smy) = Some (issued, want) \<and>
        lv_MinCeremony lc \<le> sub_time now issued \<and> sub_time now issued \<le> lv_MaxCeremony lc \<and>
        unmarshal_evidence (marshal_evidence (nm_Liveness smy)) = Some ev \<and> plausible (sub_time now issued) want ev) \<and>
     fst (na_analyze env (nm_Trace smy) (flashColours cr lc (nm_ChallengeToken smy) 8))"

lemma stringField_summary:
  "fst (stringField (summary_payload smy) ''challenge_token'') = nm_ChallengeToken smy"
  "map_of (summary_payload smy) ''liveness'' = Some (marshal_evidence (nm_Liveness smy))"
  "stringField (summary_payload smy) ''template_b64'' = (nm_TemplateB64 smy, nm_TemplateB64 smy \<noteq> '''')"
  "fst (stringField (summary_payload smy) ''template_version'') = nm_TemplateVersion smy"
  by (simp_all add: stringField_def summary_payload_def)

lemma native_checks_Inr:
  assumes "native_checks cr lc env now sid payload = Inr t"
  obtains smy body where "attested cr lc env now sid smy body" "decodeTemplate (summary_payload smy) = Inr t"
proof -
  obtain evid chain body sig smy key where c: "na_parse env body = Some smy" "nm_SessionID smy = sid"
      "na_attest env chain (attestationChallenge cr sid (nm_ChallengeToken smy)) = Inr key"
      "na_verify env key (c_sha256 cr body) sig" "decodeTemplate (summary_payload smy) = Inr t"
      "checkLiveness cr lc now sid (summary_payload smy) = ''''"
      "fst (na_analyze env (nm_Trace smy) (flashColours cr lc (nm_ChallengeToken smy) DefaultFlashColours))"
    using assms unfolding native_checks_def Let_def
    by (auto split: if_splits option.splits json_value.splits sum.splits prod.splits)
  have l: "\<exists>issued want ev. openToken cr lc sid (nm_ChallengeToken smy) = Some (issued, want) \<and>
        lv_MinCeremony lc \<le> sub_time now issued \<and> sub_time now issued \<le> lv_MaxCeremony lc \<and>
        unmarshal_evidence (marshal_evidence (nm_Liveness smy)) = Some ev \<and> plausible (sub_time now issued) want ev"
    using c(6) unfolding checkLiveness_passes stringField_summary by blast
  have "attested cr lc env now sid smy body"
    unfolding attested_def using c(1-4,7) l unfolding DefaultFlashColours_def by blast
  then show ?thesis using that c(5) by blast
qed

text \<open>C11: A native selfie succeeds only with a template from a summary that names this session and is signed, byte for byte,
  by a key the attester accepted for this session's and token's challenge; the token opens in this session, the signed
  evidence answers its challenges in order and in plausible time, and the motion analysis passed against this token's colours.
  The digest it returns is a commitment to that template.
\<close>

theorem native_success_attested:
  assumes "native_CompleteCeremony cr lc env mem_FindDuplicate mem_Add hook rand now sid payload s = (Inr res, s')"
    and "mr_Success res"
  shows "\<exists>smy body t rec. attested cr lc env now sid smy body \<and> decodeTemplate (summary_payload smy) = Inr t \<and>
    rec \<in> set (ia_records (sf_acc s')) \<and> from_Gen cr t rec \<and>
    mr_AttestationDigest res = hex_encode (er_Commitment rec)"
proof -
  obtain t where t: "native_checks cr lc env now sid payload = Inr t"
    using assms by (cases "native_checks cr lc env now sid payload")
      (auto simp: native_CompleteCeremony_def ret_def failed_result_def)
  obtain smy body where n: "attested cr lc env now sid smy body" "decodeTemplate (summary_payload smy) = Inr t"
    by (rule native_checks_Inr [OF t])
  have "enroll cr mem_FindDuplicate mem_Add hook rand now sid NativeMethod t s = (Inr res, s')"
    using assms(1) by (simp add: native_CompleteCeremony_def t)
  from wp_result [OF this mem.enroll_outcome] show ?thesis using n assms(2) by (auto simp: outcome_def)
qed

section \<open>The extractor\<close>

text \<open>No two seeds give one commitment: what the extractor needs of SHA-256 on its 131072 seeds.\<close>

definition commits_uniquely :: "crypto \<Rightarrow> bool" where
  "commits_uniquely cr \<longleftrightarrow>
     (\<forall>s t. length s = 3 \<longrightarrow> length t = 3 \<longrightarrow> commitmentFromSeed cr s = commitmentFromSeed cr t \<longrightarrow> s = t)"

text \<open>C10: \<open>Rep\<close> is exactly the tolerance of the code: on helper data made by \<open>Gen\<close> from a template it returns the template's
  commitment if and only if the new reading differs in at most seven bits of every 15-bit block and in at most 63 of all 256
  bits. Any other reading is refused or yields another commitment.
\<close>

theorem rep_recovers_iff:
  assumes "Gen cr rand w = Inr (h, c)" "length w' = TemplateBytes" "commits_uniquely cr"
  shows "Rep cr w' h = Inr (Some c) \<longleftrightarrow> withinTolerance w w'"
proof
  assume rep: "Rep cr w' h = Inr (Some c)"
  have l: "length w' = 32" using assms(2) by (simp add: fuzzy_constants)
  show "withinTolerance w w'"
    using assms(1)
  proof (rule Gen_Inr)
    fix seed assume g: "length w = 32" "clean_seed seed" "h = xorBytes w (expandSeed seed)"
      "c = commitmentFromSeed cr seed"
    let ?x = "xorBytes w' (xorBytes w (expandSeed seed))"
    have r: "hammingDistance ?x (expandSeed (majorityDecode ?x)) \<le> 63"
      "commitmentFromSeed cr (majorityDecode ?x) = commitmentFromSeed cr seed"
      using rep unfolding g(3,4) Rep_Gen [OF g(1) l g(2)] Let_def by (auto split: if_splits)
    then have "majorityDecode ?x = seed"
      using assms(3) g(2) length_majorityDecode unfolding commits_uniquely_def clean_seed_def by blast
    note d = this
    have "list_all (\<lambda>k. flips w w' (blockBitsOf k) \<le> 7) [0..<17]" using d decode_eq_iff [OF g(1) l g(2)] by blast
    moreover have "flips w w' [0..<256] \<le> 63"
      using r(1) unfolding d residual_eq [OF g(1) l, of seed] .
    ultimately show ?thesis unfolding withinTolerance_def by blast
  qed
qed (use rep_recovers assms(1,2) in \<open>simp add: fuzzy_constants\<close>)

text \<open>C32: A stored record gives the enrolled template away: trying each of the 131072 seeds against the commitment and unmasking
  the helper data with the ones that fit leaves exactly the template the record was made from.
\<close>

theorem stored_record_reveals_template:
  assumes "Gen cr rand w = Inr (h, c)" "commits_uniquely cr"
  shows "set (templatesOf cr (h, c)) = {w} \<and> length candidateSeeds = 131072"
proof
  show "set (templatesOf cr (h, c)) = {w}"
    by (rule templatesOf_Gen [OF assms(1)]) (use assms(2) in \<open>unfold commits_uniquely_def, blast\<close>)
qed (rule length_candidateSeeds)

text \<open>C34: The bit-counting loop of \<open>hammingDistance\<close> ends on every byte, because clearing the lowest set bit makes it smaller, and
  the distance it adds up is the number of positions, of the shorter slice, in which the two slices differ.
\<close>

theorem hamming_distance_counts:
  "clear_bits_dom (x, n) \<and> clear_bits x n = n + card {m. bit x m} \<and>
   hammingDistance a b = flips a b [0..<8 * min (length a) (length b)]"
  by (intro conjI clear_bits_ends clear_bits_count hammingDistance_flips)

text \<open>A challenge token opens in the session it was issued to, to the issue time in milliseconds and the issued order of three different
  challenges, and in no other session unless the key gives the two sessions' messages, which differ, one MAC prefix.
\<close>

theorem token_opens_in_its_session:
  assumes "issueToken cr lc now draws sid = Some (kinds, token)"
    and "\<And>m. 16 \<le> length (c_hmac cr (lv_Key lc) m)"
  shows "openToken cr lc sid token = Some (from_unix_milli (unix_milli now), kinds) \<and> length kinds = 3 \<and> distinct kinds \<and>
    (sid' = sid \<or> openToken cr lc sid' token = None \<or>
     (\<exists>body. token_message sid body \<noteq> token_message sid' body \<and>
        take 16 (c_hmac cr (lv_Key lc) (token_message sid body)) = take 16 (c_hmac cr (lv_Key lc) (token_message sid' body))))"
proof -
  have o: "openToken cr lc sid token = Some (from_unix_milli (unix_milli now), kinds)"
    by (rule openToken_issued [OF assms])
  obtain order where order: "randomChallengeOrder draws = Some order" "kinds = map (\<lambda>i. ChallengeKinds ! i) order"
    using assms(1) by (auto simp: issueToken_def Let_def split: option.splits)
  have "distinct ChallengeKinds" "length ChallengeKinds = 4" by (simp_all add: ChallengeKinds_def)
  moreover have "i \<in> set order \<Longrightarrow> i < 4" for i using order_shape(3) [OF order(1)] by auto
  ultimately have "inj_on (\<lambda>i. ChallengeKinds ! i) (set order)"
    unfolding inj_on_def by (metis nth_eq_iff_index_eq)
  then have k: "length kinds = 3" "distinct kinds"
    using order_shape [OF order(1)] by (simp_all add: order(2) distinct_map)
  have "\<exists>body. token_message sid body \<noteq> token_message sid' body \<and>
        take 16 (c_hmac cr (lv_Key lc) (token_message sid body)) = take 16 (c_hmac cr (lv_Key lc) (token_message sid' body))"
    if "sid' \<noteq> sid" "openToken cr lc sid' token = Some r" for r
    by (rule openToken_other_session [OF o that(2)]) (use that(1) token_message_inj in metis)
  then show ?thesis using o k by (cases "openToken cr lc sid' token") auto
qed

end
