(* ===== verification/Selfie_Example.thy ===== *)
theory Selfie_Example
  imports Selfie_Safety
begin

text \<open>Concrete ceremonies that meet the hypotheses of the selfie properties.\<close>

lemma octets_bytes_inj: "octets_bytes s = octets_bytes t \<Longrightarrow> s = t"
proof -
  have "byte_of (byte (unat w)) = unat w" for w :: octet using octet_lt [of w] by simp
  then have "inj (\<lambda>w :: octet. byte (unat w))" unfolding inj_def word_unat_eq_iff by metis
  then show "octets_bytes s = octets_bytes t \<Longrightarrow> s = t" by (simp add: octets_bytes_def inj_map_eq_map)
qed

lemma sample_commits: "commits_uniquely sample_crypto"
proof -
  have "commitmentFromSeed sample_crypto s = domainTag @ octets_bytes s" if "length s = 3" for s
    using that by (simp add: commitmentFromSeed_def copy32_def sample_crypto_def domainTag_def octets_bytes_def)
  then show ?thesis unfolding commits_uniquely_def using octets_bytes_inj by simp
qed

definition zero_template :: "octet list" where
  "zero_template = replicate 32 0"

lemma length_zero [simp]: "length zero_template = 32"
  by (simp add: zero_template_def)

lemma zero_Gen: "\<exists>h c. Gen sample_crypto (Some (0, 0, 0)) zero_template = Inr (h, c)"
  by (simp add: Gen_def Let_def fuzzy_constants zero_template_def)

theorem rep_recovers_iff_witness:
  "\<exists>h c. Gen sample_crypto (Some (0, 0, 0)) zero_template = Inr (h, c) \<and>
     (Rep sample_crypto zero_template h = Inr (Some c) \<longleftrightarrow> withinTolerance zero_template zero_template) \<and>
     withinTolerance zero_template zero_template"
proof -
  obtain h c where g: "Gen sample_crypto (Some (0, 0, 0)) zero_template = Inr (h, c)" using zero_Gen by blast
  have "length zero_template = TemplateBytes" by (simp add: zero_template_def fuzzy_constants)
  note rep_recovers_iff [OF g this sample_commits]
  moreover have "withinTolerance zero_template zero_template" by (simp add: withinTolerance_def flips_def list_all_iff)
  ultimately show ?thesis using g by blast
qed

theorem stored_record_reveals_template_witness:
  "\<exists>h c. Gen sample_crypto (Some (0, 0, 0)) zero_template = Inr (h, c) \<and>
     set (templatesOf sample_crypto (h, c)) = {zero_template} \<and> length candidateSeeds = 131072"
  using zero_Gen stored_record_reveals_template [OF _ sample_commits] by blast

section \<open>A token\<close>

definition sample_liveness :: liveness_config where
  "sample_liveness = \<lparr>lv_Key = replicate 32 (byte 7), lv_TemplateVersion = ''v'', lv_MinCeremony = 3000000000,
     lv_MaxCeremony = 600000000000\<rparr>"

lemma sample_hmac: "16 \<le> length (c_hmac sample_crypto (lv_Key sample_liveness) m)"
  by (simp add: sample_crypto_def sample_liveness_def)

definition begun :: time where "begun = unix_epoch + 1000000"

lemma sample_token:
  "\<exists>token. issueToken sample_crypto sample_liveness begun [Some 0, Some 0, Some 0] sid =
     Some ([''turn_left'', ''turn_right'', ''blink''], token)"
proof -
  have r: "randomChallengeOrder [Some 0, Some 0, Some 0] = Some [0, 1, 2]" by code_simp
  show ?thesis unfolding issueToken_def r option.case Let_def by (simp add: ChallengeKinds_def del: b64_encode.simps)
qed

theorem token_opens_in_its_session_witness:
  "\<exists>token. openToken sample_crypto sample_liveness ''s'' token =
     Some (from_unix_milli (unix_milli begun), [''turn_left'', ''turn_right'', ''blink''])"
proof -
  obtain token where "issueToken sample_crypto sample_liveness begun [Some 0, Some 0, Some 0] ''s'' =
     Some ([''turn_left'', ''turn_right'', ''blink''], token)"
    using sample_token by blast
  from token_opens_in_its_session [OF this sample_hmac] show ?thesis by blast
qed

section \<open>A native ceremony\<close>

definition the_token :: string where
  "the_token = snd (the (issueToken sample_crypto sample_liveness begun [Some 0, Some 0, Some 0] ''s''))"

definition sample_evidence :: liveness_evidence where
  "sample_evidence = \<lparr>le_Challenges = map (\<lambda>k. \<lparr>chr_Kind = k, chr_MS = 1000\<rparr>) [''turn_left'', ''turn_right'', ''blink''],
     le_Frames = 0, le_Parallax = []\<rparr>"

definition sample_summary :: "unit native_summary" where
  "sample_summary = \<lparr>nm_Version = NativeSummaryVersion, nm_SessionID = ''s'', nm_ChallengeToken = the_token,
     nm_TemplateB64 = Std_encode (replicate 32 (byte 0)), nm_TemplateVersion = ''v'', nm_Liveness = sample_evidence,
     nm_Trace = ()\<rparr>"

definition sample_env :: "(unit, unit) native_env" where
  "sample_env = \<lparr>na_parse = (\<lambda>_. Some sample_summary), na_attest = (\<lambda>_ _. Inr ()), na_verify = (\<lambda>_ _ _. True),
     na_analyze = (\<lambda>_ _. (True, ''''))\<rparr>"

definition sample_payload :: json_object where
  "sample_payload = [(''native'', JObject [(''summary_b64'', JString (Std_encode ''x'')),
     (''signature_b64'', JString (Std_encode ''y'')), (''certificate_chain'', JList [JString ''c''])])]"

definition no_hook :: "unit match_hook" where "no_hook = None"

definition fresh_state :: "(memory_accumulator, unit) selfie_state" where
  "fresh_state = \<lparr>sf_acc = NewInMemoryAccumulator, sf_issuer = ()\<rparr>"

lemma the_token: "issueToken sample_crypto sample_liveness begun [Some 0, Some 0, Some 0] ''s'' =
     Some ([''turn_left'', ''turn_right'', ''blink''], the_token)"
  using sample_token [of "''s''"] by (auto simp: the_token_def)

lemma the_token_opens: "openToken sample_crypto sample_liveness ''s'' the_token =
     Some (begun, [''turn_left'', ''turn_right'', ''blink''])"
proof -
  have "from_unix_milli (unix_milli begun) = begun"
    by (simp add: from_unix_milli_def unix_milli_def begun_def wrap64_def)
  then show ?thesis using openToken_issued [OF the_token sample_hmac] by simp
qed

lemma sample_unmarshal: "unmarshal_evidence (marshal_evidence sample_evidence) = Some sample_evidence"
  by (simp add: marshal_evidence_def sample_evidence_def json_field_def to_lower_def lower_char_def
      min_int64_def max_int64_def)

lemma sample_checks:
  "checkLiveness sample_crypto sample_liveness (begun + 5000000000) ''s'' (summary_payload sample_summary) = ''''"
proof -
  have t: "nm_ChallengeToken sample_summary = the_token" "nm_TemplateVersion sample_summary = ''v''"
      "nm_Liveness sample_summary = sample_evidence"
    by (simp_all add: sample_summary_def)
  have "the_token \<noteq> ''''"
    using the_token by (auto simp: issueToken_def Let_def put_be64_def split: option.splits)
  moreover have e: "sub_time (begun + 5000000000) begun = 5000000000"
    by (simp add: sub_time_def max_int64_def min_int64_def)
  moreover have p: "plausible 5000000000 [''turn_left'', ''turn_right'', ''blink''] sample_evidence"
    by (simp add: plausible_def sample_evidence_def)
  ultimately show ?thesis
    unfolding checkLiveness_passes stringField_summary t the_token_opens
    using p e sample_unmarshal by (auto simp: sample_liveness_def)
qed

lemma sample_template: "decodeTemplate (summary_payload sample_summary) = Inr zero_template"
proof -
  have "Std_encode (replicate 32 (byte 0)) \<noteq> ''''" by simp
  then show ?thesis
    unfolding decodeTemplate_def stringField_summary
    by (simp add: sample_summary_def fuzzy_constants bytes_octets_def zero_template_def)
qed

lemma sample_native: "native_checks sample_crypto sample_liveness sample_env (begun + 5000000000) ''s'' sample_payload = Inr zero_template"
proof -
  let ?nat = "[(''summary_b64'', JString (Std_encode ''x'')),
     (''signature_b64'', JString (Std_encode ''y'')), (''certificate_chain'', JList [JString ''c''])]"
  have p: "map_of sample_payload ''native'' = Some (JObject ?nat)" by (simp add: sample_payload_def)
  have f: "fst (stringField ?nat ''summary_b64'') = Std_encode ''x''" "fst (stringField ?nat ''signature_b64'') = Std_encode ''y''"
    by (simp_all add: stringField_def)
  have c: "stringList (map_of ?nat ''certificate_chain'') = [''c'']" by code_simp
  have l: "length (Std_encode ''x'') \<le> maxSummaryBytes * 4 div 3 + 4" by (simp add: maxSummaryBytes_def)
  have t: "the_token \<noteq> ''''" using the_token by (auto simp: issueToken_def Let_def put_be64_def split: option.splits)
  have m: "na_parse sample_env b = Some sample_summary" "na_attest sample_env ch a = Inr ()" "na_verify sample_env () d g"
      "na_analyze sample_env tr cs = (True, '''')" "nm_Version sample_summary = NativeSummaryVersion"
      "nm_SessionID sample_summary = ''s''" "nm_ChallengeToken sample_summary = the_token" for b ch a d g tr cs
    by (simp_all add: sample_env_def sample_summary_def)
  show ?thesis
    unfolding native_checks_def p option.case json_value.case Let_def f c
    using l t by (simp add: m sample_template sample_checks del: b64_encode.simps)
qed

definition native_answer :: method_result where
  "native_answer = passed_result NativeMethod (begun + 5000000000)
     (hex_encode (commitmentFromSeed sample_crypto (clearPaddingBits [0, 0, 0])))"

lemma sample_success:
  "\<exists>s'. native_CompleteCeremony sample_crypto sample_liveness sample_env mem_FindDuplicate mem_Add no_hook (Some (0, 0, 0))
     (begun + 5000000000) ''s'' sample_payload fresh_state = (Inr native_answer, s')"
proof -
  have f: "mem_FindDuplicate sample_crypto zero_template NewInMemoryAccumulator = (Inr None, NewInMemoryAccumulator)"
    by (simp add: mem_FindDuplicate_def NewInMemoryAccumulator_def)
  show ?thesis
    unfolding native_CompleteCeremony_def sample_native sum.case
    by (simp add: enroll_def andThen_def onError_def on_acc_def fresh_state_def f Gen_def Let_def fuzzy_constants
        native_answer_def mem_Add_def ret_def)
qed

theorem native_success_attested_witness:
  "\<exists>smy body t s' rec. attested sample_crypto sample_liveness sample_env (begun + 5000000000) ''s'' smy body \<and>
    decodeTemplate (summary_payload smy) = Inr t \<and> rec \<in> set (ia_records (sf_acc (s' :: (memory_accumulator, unit) selfie_state))) \<and>
    from_Gen sample_crypto t rec \<and> mr_AttestationDigest native_answer = hex_encode (er_Commitment rec)"
proof -
  obtain s' where s': "native_CompleteCeremony sample_crypto sample_liveness sample_env mem_FindDuplicate mem_Add no_hook
     (Some (0, 0, 0)) (begun + 5000000000) ''s'' sample_payload fresh_state = (Inr native_answer, s')"
    using sample_success by blast
  have "mr_Success native_answer" by (simp add: native_answer_def passed_result_def)
  from native_success_attested [OF s' this] show ?thesis by blast
qed

end
