(* ===== verification/Review.thy ===== *)
theory Review
  imports Recovery Holder_Revocation
begin

text \<open>
  The manual review queue of \<open>src/server/review.go\<close>: opening a review or an appeal, the operator's
  decision with its three outcomes (reinstating a holder, starting a recovery, approving the
  operator-review anchor), and reinstatement.
\<close>

section \<open>Kinds and states\<close>

definition ReviewFaceMatch :: string where "ReviewFaceMatch = ''face_match''"
definition ReviewRecovery :: string where "ReviewRecovery = ''recovery''"
definition ReviewNoSelfie :: string where "ReviewNoSelfie = ''no_selfie''"
definition ReviewOther :: string where "ReviewOther = ''other''"
definition ReviewAppeal :: string where "ReviewAppeal = ''appeal''"

lemmas review_kinds = ReviewFaceMatch_def ReviewRecovery_def ReviewNoSelfie_def ReviewOther_def ReviewAppeal_def

definition ReviewOpen :: string where "ReviewOpen = ''open''"
definition ReviewApproved :: string where "ReviewApproved = ''approved''"
definition ReviewDenied :: string where "ReviewDenied = ''denied''"

lemmas review_states = ReviewOpen_def ReviewApproved_def ReviewDenied_def

definition maxOpenReviews :: nat where "maxOpenReviews = 5000"
definition reviewApprovalLifetime :: duration where "reviewApprovalLifetime = 30 * 24 * ns_hour"

definition open_index :: string where "open_index = ''_open''"

section \<open>The queue\<close>

definition review_key :: "server_config \<Rightarrow> string \<Rightarrow> did \<Rightarrow> string" where
  "review_key cfg kind holder = hashed cfg (kind @ [byte 0] @ holder)"

definition review_at :: "string \<Rightarrow> review_doc option call" where
  "review_at i = andThen (getJSON nsReviews i) (\<lambda>d. ret (map_option as_review d))"

definition open_ids :: "lockout_doc option \<Rightarrow> string list" where
  "open_ids d = (case d of None \<Rightarrow> [] | Some x \<Rightarrow> as_strings x)"

datatype review_outcome = Opened | Existing string | QueueFull

definition open_of_kind :: "server_config \<Rightarrow> review_doc \<Rightarrow> review_doc option call" where
  "open_of_kind cfg d =
     andThen (getJSON nsReviewOpen (review_key cfg (rw_Kind d) (rw_HolderDID d))) (\<lambda>ptr.
     case ptr of
       None \<Rightarrow> ret None
     | Some x \<Rightarrow>
         if as_pointer x = '''' then ret None
         else andThen (review_at (as_pointer x)) (\<lambda>found. ret (case found of
             None \<Rightarrow> None
           | Some cur \<Rightarrow> if rw_Status cur = ReviewOpen then Some cur else None)))"

definition openReview :: "server_config \<Rightarrow> review_doc \<Rightarrow> review_outcome call" where
  "openReview cfg d =
     andThen (open_of_kind cfg d) (\<lambda>current.
     case current of
       Some cur \<Rightarrow> ret (Existing (rw_ID cur))
     | None \<Rightarrow>
         andThen (getJSON nsReviews open_index) (\<lambda>idx.
         if length (open_ids idx) \<ge> maxOpenReviews then ret QueueFull
         else
           andThen (setJSON nsReviews (rw_ID d) (ReviewDoc d)) (\<lambda>_.
           andThen (setJSON nsReviewOpen (review_key cfg (rw_Kind d) (rw_HolderDID d)) (PointerDoc (rw_ID d))) (\<lambda>_.
           andThen (setJSON nsReviews open_index (ReviewIndexDoc (open_ids idx @ [rw_ID d]))) (\<lambda>_.
           ret Opened)))))"

text \<open>The id and the status of a review just opened.\<close>

definition writeReviewOpened :: "server_config \<Rightarrow> review_doc \<Rightarrow> (string \<times> string) call" where
  "writeReviewOpened cfg d =
     andThen (or500 ''store_failed'' (openReview cfg d)) (\<lambda>r.
     case r of
       QueueFull \<Rightarrow> refuse 503 ''review_queue_full''
     | Existing i \<Rightarrow>
         if i \<noteq> '''' then throw (Refused (writeErrorNext 409 ''review_open'' [] [(''review_id'', JString i)]))
         else ret (rw_ID d, rw_Status d)
     | Opened \<Rightarrow> ret (rw_ID d, rw_Status d))"

record review_request =
  vq_SessionID :: string
  vq_Kind :: string
  vq_Message :: string

definition handleReviewRequest ::
  "server_config \<Rightarrow> review_request option \<Rightarrow> bytes option \<Rightarrow> time \<Rightarrow> (string \<times> string) call" where
  "handleReviewRequest cfg body rand16 now =
     andThen (decode_body body) (\<lambda>req.
     andThen (check (vq_Kind req \<notin> {ReviewFaceMatch, ReviewRecovery, ReviewNoSelfie, ReviewOther}) 400 ''invalid_request'') (\<lambda>_.
     andThen (check (length (vq_Message req) > 1000) 400 ''invalid_request'') (\<lambda>_.
     andThen (session_or_404 (vq_SessionID req) now) (\<lambda>sess.
     andThen (check (\<not> has_prefix (sv_HolderDID sess) ''did:key:'') 400 ''holder_key_required'') (\<lambda>_.
     andThen (if vq_Kind req = ReviewFaceMatch \<or> vq_Kind req = ReviewRecovery
       then andThen (or500 ''store_failed'' (faceMatch cfg (sv_ID sess))) (\<lambda>found.
         case found of None \<Rightarrow> refuse 409 ''no_face_match'' | Some fm \<Rightarrow> ret (fm_Commitment fm))
       else ret '''') (\<lambda>commitment.
     case newRecoveryID rand16 of
       None \<Rightarrow> refuse 500 ''store_failed''
     | Some i \<Rightarrow> writeReviewOpened cfg (zero_review\<lparr>rw_ID := i, rw_Kind := vq_Kind req, rw_HolderDID := sv_HolderDID sess,
         rw_Message := trim_space (vq_Message req), rw_Commitment := commitment, rw_Status := ReviewOpen,
         rw_CreatedAt := now\<rparr>)))))))"

definition AppealMessage :: "did \<Rightarrow> did \<Rightarrow> string \<Rightarrow> string" where
  "AppealMessage issuerDID holder message =
     ''personhood-appeal/v1'' @ newline @ issuerDID @ newline @ holder @ newline @ message"

record appeal_request =
  pq_HolderDID :: string
  pq_Message :: string
  pq_SignatureB64 :: string

definition handleAppeal ::
  "server_config \<Rightarrow> appeal_request option \<Rightarrow> bytes option \<Rightarrow> time \<Rightarrow> (string \<times> string) call" where
  "handleAppeal cfg body rand16 now =
     andThen (decode_body body) (\<lambda>req.
     let holder = trim_space (pq_HolderDID req); message = pq_Message req in
     andThen (check (\<not> has_prefix holder ''did:'' \<or> length message > 1000) 400 ''invalid_request'') (\<lambda>_.
     andThen (or500 ''store_failed'' (holders_BanInfo BanKindHolder holder)) (\<lambda>(ban, banned).
     andThen (check (\<not> banned) 409 ''not_banned'') (\<lambda>_.
     andThen (check (pq_SignatureB64 req \<noteq> '''' \<and> \<not> verifyDIDSignature (cf_crypto cfg) holder
         (AppealMessage (cf_issuerDID cfg) holder message) (pq_SignatureB64 req)) 403 ''bad_signature'') (\<lambda>_.
     case newRecoveryID rand16 of
       None \<Rightarrow> refuse 500 ''store_failed''
     | Some i \<Rightarrow> writeReviewOpened cfg (zero_review\<lparr>rw_ID := i, rw_Kind := ReviewAppeal, rw_HolderDID := holder,
         rw_Message := trim_space message, rw_Signed := (pq_SignatureB64 req \<noteq> ''''), rw_BanReason := br_Reason ban,
         rw_Status := ReviewOpen, rw_CreatedAt := now\<rparr>))))))"

text \<open>The open or decided review of an id; \<open>_open\<close> is the index, not a review.\<close>

definition review_or_404 :: "string \<Rightarrow> review_doc call" where
  "review_or_404 i =
     andThen (or500 ''store_failed'' (review_at i)) (\<lambda>found.
     case found of
       None \<Rightarrow> refuse 404 ''review_not_found''
     | Some d \<Rightarrow> if i = open_index then refuse 404 ''review_not_found'' else ret d)"

definition handleReviewGet :: "string \<Rightarrow> (string \<times> string \<times> string \<times> time \<times> string) call" where
  "handleReviewGet i = andThen (review_or_404 i) (\<lambda>d.
     ret (rw_ID d, rw_Kind d, rw_Status d, rw_DecidedAt d, rw_Note d))"

fun queued_reviews :: "string list \<Rightarrow> review_doc list call" where
  "queued_reviews [] = ret []"
| "queued_reviews (i # rest) = andThen (review_at i) (\<lambda>found.
     andThen (queued_reviews rest) (\<lambda>ds.
     ret (case found of None \<Rightarrow> ds | Some d \<Rightarrow> d\<lparr>rw_Commitment := ''''\<rparr> # ds)))"

definition handleAdminReviews :: "server_config \<Rightarrow> string \<Rightarrow> review_doc list call" where
  "handleAdminReviews cfg auth =
     andThen (check (\<not> adminAuthorized cfg auth) 401 ''unauthorized'') (\<lambda>_.
     or500 ''store_failed''
       (andThen (getJSON nsReviews open_index) (\<lambda>idx. queued_reviews (open_ids idx))))"

section \<open>Reinstatement\<close>

record reinstate_report =
  rr_HolderDID :: did
  rr_WasBanned :: bool
  rr_NullifiersUnbanned :: nat
  rr_VouchersRestored :: nat
  rr_EvidencePardoned :: bool

datatype reinstate_error = errRetiredByRecovery

definition unban_nullifier :: "string \<Rightarrow> bool call" where
  "unban_nullifier c = andThen (holders_Banned BanKindNullifier c) (\<lambda>was.
     if was then andThen (holders_Unban BanKindNullifier c) (\<lambda>_. ret True) else ret False)"

definition reinstate :: "server_config \<Rightarrow> did \<Rightarrow> time \<Rightarrow> (reinstate_error + reinstate_report) call" where
  "reinstate cfg holder now =
     andThen (holders_BanInfo BanKindHolder holder) (\<lambda>(ban, banned).
     if banned \<and> has_prefix (br_Reason ban) ''recovered:'' then ret (Inl errRetiredByRecovery)
     else
       andThen (if br_EvidenceDigest ban \<noteq> ''''
         then andThen (holders_Ban BanKindPardon (br_EvidenceDigest ban) \<lparr>br_Reason = ''pardoned after review of '' @ holder,
           br_EvidenceDigest = '''', br_At = now\<rparr>) (\<lambda>_. ret ())
         else ret ()) (\<lambda>_.
       andThen (holders_Issuances holder) (\<lambda>recs.
       andThen (countEach unban_nullifier (cf_range cfg (touched_nullifiers cfg holder recs))) (\<lambda>unbanned.
       andThen (holders_Unban BanKindHolder holder) (\<lambda>_.
       andThen (case cf_inPerson cfg of
           None \<Rightarrow> ret 0
         | Some ip \<Rightarrow> andThen (inPerson_Reinstate ip holder) (\<lambda>pr. ret (length (pr_Vouchers pr)))) (\<lambda>restored.
       ret (Inr \<lparr>rr_HolderDID = holder, rr_WasBanned = banned, rr_NullifiersUnbanned = unbanned,
         rr_VouchersRestored = restored, rr_EvidencePardoned = (br_EvidenceDigest ban \<noteq> '''')\<rparr>)))))))"

definition reinstate_or_refuse :: "server_config \<Rightarrow> did \<Rightarrow> time \<Rightarrow> reinstate_report call" where
  "reinstate_or_refuse cfg holder now =
     andThen (or500 ''reinstate_failed'' (reinstate cfg holder now)) (\<lambda>r.
     case r of Inl e \<Rightarrow> refuse 409 ''retired_by_recovery'' | Inr rep \<Rightarrow> ret rep)"

record reinstate_request =
  nq_HolderDID :: string
  nq_Reason :: string

definition handleAdminReinstate ::
  "server_config \<Rightarrow> string \<Rightarrow> reinstate_request option \<Rightarrow> time \<Rightarrow> reinstate_report call" where
  "handleAdminReinstate cfg auth body now =
     andThen (check (\<not> adminAuthorized cfg auth) 401 ''unauthorized'') (\<lambda>_.
     andThen (decode_body body) (\<lambda>req.
     let holder = trim_space (nq_HolderDID req); reason = trim_space (nq_Reason req) in
     andThen (check (\<not> has_prefix holder ''did:'' \<or> reason = '''' \<or> length reason > 200) 400 ''invalid_request'') (\<lambda>_.
     reinstate_or_refuse cfg holder now)))"

section \<open>Deciding a review\<close>

definition closeReview :: "review_doc \<Rightarrow> unit call" where
  "closeReview d =
     andThen (setJSON nsReviews (rw_ID d) (ReviewDoc d)) (\<lambda>_.
     andThen (getJSON nsReviews open_index) (\<lambda>idx.
     setJSON nsReviews open_index (ReviewIndexDoc (filter (\<lambda>i. i \<noteq> rw_ID d) (open_ids idx)))))"

record decide_request =
  dq_Approve :: bool
  dq_Note :: string
  dq_OldHolderDID :: string

datatype decision = NoEffect | Reinstated reinstate_report | RecoveryStarted recovery_view | AnchorApproved

definition approve_review ::
  "server_config \<Rightarrow> review_doc \<Rightarrow> string \<Rightarrow> bytes option \<Rightarrow> time \<Rightarrow> decision call" where
  "approve_review cfg d oldHolder rand16 now =
     (if rw_Kind d = ReviewAppeal
      then andThen (reinstate_or_refuse cfg (rw_HolderDID d) now) (\<lambda>rep. ret (Reinstated rep))
      else if rw_Kind d = ReviewRecovery
      then andThen (if trim_space oldHolder = ''''
          then andThen (or500 ''store_failed'' (holderOf cfg (identityKeyNullifier (face_nullifier cfg (rw_Commitment d))))) (\<lambda>h.
            case h of None \<Rightarrow> refuse 400 ''old_holder_unknown'' | Some old \<Rightarrow> ret old)
          else ret (trim_space oldHolder)) (\<lambda>old.
        andThen (startRecovery cfg old (rw_HolderDID d) (rw_Commitment d) [FactorOperatorReview] rand16 now) (\<lambda>view.
        ret (RecoveryStarted view)))
      else andThen (or500 ''store_failed'' (setJSON nsReviewApprovals (hashed cfg (rw_HolderDID d))
          (ApprovalDoc \<lparr>ra_ReviewID = rw_ID d, ra_Kind = rw_Kind d, ra_At = now\<rparr>))) (\<lambda>_. ret AnchorApproved))"

definition handleAdminDecide ::
  "server_config \<Rightarrow> string \<Rightarrow> string \<Rightarrow> decide_request option \<Rightarrow> bytes option \<Rightarrow> time \<Rightarrow> (string \<times> string \<times> decision) call" where
  "handleAdminDecide cfg auth i body rand16 now =
     andThen (check (\<not> adminAuthorized cfg auth) 401 ''unauthorized'') (\<lambda>_.
     andThen (decode_body body) (\<lambda>req.
     let note = trim_space (dq_Note req) in
     andThen (check (note = '''' \<or> length note > 500) 400 ''invalid_request'') (\<lambda>_.
     andThen (review_or_404 i) (\<lambda>d0.
     andThen (check (rw_Status d0 \<noteq> ReviewOpen) 409 ''review_closed'') (\<lambda>_.
     andThen (if dq_Approve req then approve_review cfg d0 (dq_OldHolderDID req) rand16 now else ret NoEffect) (\<lambda>out.
     let d = d0\<lparr>rw_Status := (if dq_Approve req then ReviewApproved else ReviewDenied), rw_DecidedAt := now, rw_Note := note\<rparr> in
     andThen (or500 ''store_failed'' (closeReview d)) (\<lambda>_.
     ret (rw_ID d, rw_Status d, out))))))))"

section \<open>The operator-review anchor\<close>

definition operatorReview_Metadata :: method_metadata where
  "operatorReview_Metadata = \<lparr>md_ID = OperatorReviewMethodID, md_Type = MethodTypeAnchor, md_Strength = 50,
     md_CostUSD = 0, md_UXFriction = ''high'', md_PlatformRequirements = [],
     md_FreshnessLifetime = 180 * 24 * ns_hour, md_Version = ''0.1.0''\<rparr>"

definition operatorReview_BeginCeremony :: "ceremony_context \<Rightarrow> challenge_data" where
  "operatorReview_BeginCeremony cc = \<lparr>ch_Type = ''operator-review'', ch_Payload =
     [(''reviews_endpoint'', JString ''/v1/reviews''),
      (''instructions'', JString ''Ask for a review with POST /v1/reviews. Once an operator approves it, complete this method from any session of the same holder key.'')]\<rparr>"

definition operatorReview_CompleteCeremony ::
  "server_config \<Rightarrow> ceremony_context \<Rightarrow> response_data \<Rightarrow> time \<Rightarrow> method_result call" where
  "operatorReview_CompleteCeremony cfg cc resp now =
     andThen (getJSON nsReviewApprovals (hashed cfg (cc_HolderDID cc))) (\<lambda>found.
     case found of
       None \<Rightarrow> ret (failed_result OperatorReviewMethodID ''review_not_approved'')
     | Some x \<Rightarrow>
         let a = as_approval x in
         ret (if sub_time now (ra_At a) > reviewApprovalLifetime
           then failed_result OperatorReviewMethodID ''review_not_approved''
           else passed_result OperatorReviewMethodID now
             (sha256_hex (cf_crypto cfg) (OperatorReviewMethodID @ [byte 0] @ ra_ReviewID a))))"

end
