(* ===== verification/Review_Queue.thy ===== *)
theory Review_Queue
  imports Review
begin

text \<open>
  The queue of open reviews: while the stores answer, the operator's list holds every open review once, its
  length is bounded, and a holder has one open review of a kind; and what a store failure can leave behind.
\<close>

section \<open>The reviews in the store\<close>

definition rv_at :: "server_state \<Rightarrow> string \<rightharpoonup> lockout_doc" where
  "rv_at s = memKV_get (ss_kv s) nsReviews"

definition op_at :: "server_state \<Rightarrow> string \<rightharpoonup> lockout_doc" where
  "op_at s = memKV_get (ss_kv s) nsReviewOpen"

definition open_review :: "(string \<rightharpoonup> lockout_doc) \<Rightarrow> string \<Rightarrow> review_doc \<Rightarrow> bool" where
  "open_review R i d \<longleftrightarrow> i \<noteq> open_index \<and> R i = Some (ReviewDoc d) \<and> rw_Status d = ReviewOpen"

definition queue_ok :: "server_config \<Rightarrow> (string \<rightharpoonup> lockout_doc) \<Rightarrow> (string \<rightharpoonup> lockout_doc) \<Rightarrow> bool" where
  "queue_ok cfg R P \<longleftrightarrow> (let ids = open_ids (R open_index) in
     distinct ids \<and> length ids \<le> maxOpenReviews \<and> set ids = {i. \<exists>d. open_review R i d} \<and>
     (\<forall>i x. i \<noteq> open_index \<longrightarrow> R i = Some x \<longrightarrow> (\<exists>d. x = ReviewDoc d \<and> rw_ID d = i \<and> i \<noteq> '''')) \<and>
     (\<forall>i d. open_review R i d \<longrightarrow> P (review_key cfg (rw_Kind d) (rw_HolderDID d)) = Some (PointerDoc i)))"

lemma open_ids_simps [simp]: "open_ids None = []" "open_ids (Some (ReviewIndexDoc xs)) = xs"
  by (simp_all add: open_ids_def)

lemma queue_ok_empty: "queue_ok cfg Map.empty P"
  by (simp add: queue_ok_def open_review_def)

lemma queue_ok_open:
  assumes "queue_ok cfg R P" "R i = None" "i \<noteq> open_index" "i \<noteq> ''''" "rw_ID d = i" "rw_Status d = ReviewOpen"
    and "\<And>j e. open_review R j e \<Longrightarrow> review_key cfg (rw_Kind e) (rw_HolderDID e) \<noteq> review_key cfg (rw_Kind d) (rw_HolderDID d)"
    and "length (open_ids (R open_index)) < maxOpenReviews"
  shows "queue_ok cfg (R(i \<mapsto> ReviewDoc d, open_index \<mapsto> ReviewIndexDoc (open_ids (R open_index) @ [i])))
     (P(review_key cfg (rw_Kind d) (rw_HolderDID d) \<mapsto> PointerDoc i))"
proof -
  let ?R = "R(i \<mapsto> ReviewDoc d, open_index \<mapsto> ReviewIndexDoc (open_ids (R open_index) @ [i]))"
  have o: "open_review ?R j e \<longleftrightarrow> open_review R j e \<or> j = i \<and> e = d" for j e
    using assms(2-6) by (auto simp: open_review_def)
  have "\<not> open_review R i e" for e using assms(2) by (simp add: open_review_def)
  then have "i \<notin> set (open_ids (R open_index))" using assms(1) by (auto simp: queue_ok_def Let_def)
  moreover have "set (open_ids (R open_index) @ [i]) = {j. \<exists>e. open_review ?R j e}"
    using assms(1) by (auto simp: queue_ok_def Let_def o)
  ultimately show ?thesis
    using assms(1,3-8) unfolding queue_ok_def Let_def o by auto
qed

lemma queue_ok_close:
  assumes "queue_ok cfg R P" "open_review R i e" "rw_ID d = i" "rw_Status d \<noteq> ReviewOpen"
  shows "queue_ok cfg (R(i \<mapsto> ReviewDoc d, open_index \<mapsto> ReviewIndexDoc (filter (\<lambda>j. j \<noteq> i) (open_ids (R open_index))))) P"
proof -
  let ?R = "R(i \<mapsto> ReviewDoc d, open_index \<mapsto> ReviewIndexDoc (filter (\<lambda>j. j \<noteq> i) (open_ids (R open_index))))"
  have i: "i \<noteq> open_index" "R i = Some (ReviewDoc e)" using assms(2) by (auto simp: open_review_def)
  have o: "open_review ?R j f \<longleftrightarrow> open_review R j f \<and> j \<noteq> i" for j f
    using assms(3,4) by (auto simp: open_review_def)
  have "length (filter (\<lambda>j. j \<noteq> i) (open_ids (R open_index))) \<le> maxOpenReviews"
    using assms(1) length_filter_le [of "\<lambda>j. j \<noteq> i" "open_ids (R open_index)"] by (simp add: queue_ok_def Let_def del: length_filter_le)
  moreover have "set (filter (\<lambda>j. j \<noteq> i) (open_ids (R open_index))) = {j. \<exists>f. open_review ?R j f}"
    using assms(1) by (auto simp: queue_ok_def Let_def o)
  moreover have "i \<noteq> ''''" using assms(1) i by (auto simp: queue_ok_def Let_def)
  ultimately show ?thesis
    using assms(1,3) unfolding queue_ok_def Let_def o by auto
qed

section \<open>Calls that leave the queue alone\<close>

locale review_frame =
  fixes I :: "server_state \<Rightarrow> bool"
  assumes no_faults: "I t \<Longrightarrow> ss_faults t = []"
    and same_queue: "I t \<Longrightarrow> rv_at u = rv_at t \<Longrightarrow> op_at u = op_at t \<Longrightarrow> ss_faults u = ss_faults t \<Longrightarrow> I u"
begin

lemma keeps_call:
  "(\<And>t. rv_at (snd (m t)) = rv_at t \<and> op_at (snd (m t)) = op_at t \<and> ss_faults (snd (m t)) = ss_faults t) \<Longrightarrow> keeps I (attempt m)"
  by (rule keeps_attempt_ok) (erule no_faults, erule same_queue, simp_all)

lemma keeps_get: "keeps I (getJSON ns i)"
  unfolding getJSON_def by (rule keeps_call) simp

lemma keeps_set: "plain_ns ns \<Longrightarrow> ns \<noteq> nsReviews \<Longrightarrow> ns \<noteq> nsReviewOpen \<Longrightarrow> keeps I (setJSON ns i d)"
  unfolding setJSON_def by (rule keeps_call) (simp add: rv_at_def op_at_def fun_eq_iff)

lemma keeps_stores:
  "keeps I (holders_Ban k v rec)" "keeps I (holders_Banned k v)" "keeps I (holders_Issuances h)"
  "keeps I (holders_BanInfo k v)" "keeps I (holders_Unban k v)" "keeps I (inPerson_Reinstate ip d)"
  unfolding holders_Ban_def holders_Banned_def holders_Issuances_def holders_BanInfo_def holders_Unban_def inPerson_Reinstate_def
  by (rule keeps_call; simp add: case_prod_beta rv_at_def op_at_def)+

lemma keeps_session: "keeps I (session_or_404 sid now)"
proof -
  have "keeps I (sessions_Get sid now)"
    using same_queue by (auto simp: keeps_def sessions_Get_def case_prod_beta rv_at_def op_at_def)
  then show ?thesis unfolding session_or_404_def by (intro keeps)
qed

lemmas keeps_calls = keeps keeps_get keeps_stores keeps_session

lemma keeps_gets: "keeps I (faceMatch cfg sid)" "keeps I (holderOf cfg key)" "keeps I (review_at i)" "keeps I (review_or_404 i)"
  "keeps I (recovery i)" "keeps I (history cfg c)" "keeps I (current_recovery h)"
  unfolding faceMatch_def holderOf_def review_at_def review_or_404_def recovery_def history_def current_recovery_def
  by (intro keeps_calls)+

lemma keeps_startRecovery: "keeps I (startRecovery cfg old new c factors rand16 now)"
  unfolding startRecovery_def openRecovery_def open_in_limits_def record_opening_def setRecovery_def setHistory_def
  by (intro keeps_calls keeps_gets keeps_set) simp_all

lemma keeps_reinstate: "keeps I (reinstate_or_refuse cfg h now)"
  unfolding reinstate_or_refuse_def reinstate_def unban_nullifier_def by (intro keeps_calls)

lemma keeps_approve: "keeps I (approve_review cfg d old rand16 now)"
  unfolding approve_review_def by (intro keeps_calls keeps_gets keeps_startRecovery keeps_reinstate keeps_set) simp_all

end

text \<open>The queue as it is.\<close>

definition queue_is :: "(string \<rightharpoonup> lockout_doc) \<Rightarrow> (string \<rightharpoonup> lockout_doc) \<Rightarrow> server_state \<Rightarrow> bool" where
  "queue_is R P t \<longleftrightarrow> rv_at t = R \<and> op_at t = P \<and> ss_faults t = []"

interpretation quiet: review_frame "queue_is R P" for R P
  by unfold_locales (auto simp: queue_is_def)

lemma wp_quiet:
  assumes "keeps (queue_is R P) m" "queue_is R P s" "\<And>e t. queue_is R P t \<Longrightarrow> E e t"
    and "\<And>a t. queue_is R P t \<Longrightarrow> wp (f a) Q E t"
  shows "wp (andThen m f) Q E s"
  by (rule wp_step [where R = "\<lambda>_. queue_is R P" and E' = "\<lambda>_. queue_is R P"]) (use assms in \<open>auto simp: keeps_wp\<close>)

section \<open>Opening and closing\<close>

definition queue_good :: "server_config \<Rightarrow> server_state \<Rightarrow> bool" where
  "queue_good cfg t \<longleftrightarrow> queue_ok cfg (rv_at t) (op_at t) \<and> ss_faults t = []"

lemma queue_good_is: "queue_good cfg t \<Longrightarrow> queue_is (rv_at t) (op_at t) t" "queue_is R P t \<Longrightarrow> queue_ok cfg R P \<Longrightarrow> queue_good cfg t"
  by (auto simp: queue_good_def queue_is_def)

lemma review_ns: "nsReviews \<noteq> nsReviewOpen" "plain_ns nsReviews" "plain_ns nsReviewOpen"
  by simp_all

lemma wp_open_of_kind:
  assumes "queue_is R P s" "queue_ok cfg R P"
  shows "wp (open_of_kind cfg d) (\<lambda>r t. queue_is R P t \<and> (r = None \<longrightarrow> (\<forall>j e. open_review R j e \<longrightarrow>
     review_key cfg (rw_Kind e) (rw_HolderDID e) \<noteq> review_key cfg (rw_Kind d) (rw_HolderDID d)))) (\<lambda>_. queue_is R P) s"
proof -
  let ?k = "review_key cfg (rw_Kind d) (rw_HolderDID d)"
  have f: "ss_faults s = []" "memKV_get (ss_kv s) nsReviewOpen = P" "memKV_get (ss_kv s) nsReviews = R"
    using assms(1) by (auto simp: queue_is_def rv_at_def op_at_def)
  have ptr: "P ?k = Some (PointerDoc j) \<and> j \<noteq> '''' \<and> R j = Some (ReviewDoc e) \<and> rw_Status e = ReviewOpen"
    if "open_review R j e" "review_key cfg (rw_Kind e) (rw_HolderDID e) = ?k" for j e
    using assms(2) that unfolding queue_ok_def Let_def open_review_def by metis
  show ?thesis
    using assms(1) f ptr
    by (auto simp: open_of_kind_def review_at_def getJSON_def wp wp_attempt_ok split: option.split) (metis as_pointer.simps(1) as_review.simps(1) option.inject)+
qed

lemma wp_openReview:
  assumes "queue_good cfg s" "rv_at s (rw_ID d) = None" "rw_ID d \<noteq> open_index" "rw_ID d \<noteq> ''''" "rw_Status d = ReviewOpen"
  shows "wp (openReview cfg d) (\<lambda>_. queue_good cfg) (\<lambda>_. queue_good cfg) s"
  unfolding openReview_def
proof (rule wp_step [OF wp_open_of_kind [OF queue_good_is(1) [OF assms(1)]]])
  show ok: "queue_ok cfg (rv_at s) (op_at s)" using assms(1) by (simp add: queue_good_def)
  show "queue_good cfg t" if "queue_is (rv_at s) (op_at s) t" for t using queue_good_is(2) [OF that ok] .
  fix current :: "review_doc option" and t :: server_state
  assume t: "queue_is (rv_at s) (op_at s) t \<and> (current = None \<longrightarrow> (\<forall>j e. open_review (rv_at s) j e \<longrightarrow>
     review_key cfg (rw_Kind e) (rw_HolderDID e) \<noteq> review_key cfg (rw_Kind d) (rw_HolderDID d)))"
  show "wp (case current of
       Some cur \<Rightarrow> ret (Existing (rw_ID cur))
     | None \<Rightarrow>
         andThen (getJSON nsReviews open_index) (\<lambda>idx.
         if length (open_ids idx) \<ge> maxOpenReviews then ret QueueFull
         else
           andThen (setJSON nsReviews (rw_ID d) (ReviewDoc d)) (\<lambda>_.
           andThen (setJSON nsReviewOpen (review_key cfg (rw_Kind d) (rw_HolderDID d)) (PointerDoc (rw_ID d))) (\<lambda>_.
           andThen (setJSON nsReviews open_index (ReviewIndexDoc (open_ids idx @ [rw_ID d]))) (\<lambda>_.
           ret Opened))))) (\<lambda>_. queue_good cfg) (\<lambda>_. queue_good cfg) t"
  proof (cases current)
    case None
    let ?R = "rv_at s"
    have same: "rv_at t = ?R" "op_at t = op_at s" "ss_faults t = []" using t by (auto simp: queue_is_def)
    have new: "queue_ok cfg (?R(rw_ID d \<mapsto> ReviewDoc d, open_index \<mapsto> ReviewIndexDoc (open_ids (?R open_index) @ [rw_ID d])))
        ((op_at s)(review_key cfg (rw_Kind d) (rw_HolderDID d) \<mapsto> PointerDoc (rw_ID d)))"
      if "length (open_ids (?R open_index)) < maxOpenReviews"
      by (rule queue_ok_open [OF ok assms(2,3,4) refl assms(5) _ that]) (use t None in blast)
    have upd: "memKV_get (memKV_set m ns i x) ns = (memKV_get m ns)(i \<mapsto> x)" if "plain_ns ns" for m ns i and x :: lockout_doc
      using that by (simp add: fun_eq_iff)
    have other: "memKV_get (memKV_set m ns i x) ns' = memKV_get m ns'" if "plain_ns ns" "plain_ns ns'" "ns' \<noteq> ns"
      for m ns ns' i and x :: lockout_doc
      using that by (simp add: fun_eq_iff)
    show ?thesis
      using None same ok new
      by (simp add: wp getJSON_def setJSON_def wp_attempt_ok queue_good_def rv_at_def op_at_def upd other not_le)
  qed (use t queue_good_is(2) [OF _ ok] in \<open>simp add: wp\<close>)
qed

lemma wp_closeReview:
  assumes "queue_good cfg s" "open_review (rv_at s) (rw_ID d) e" "rw_Status d \<noteq> ReviewOpen"
  shows "wp (closeReview d) (\<lambda>_. queue_good cfg) (\<lambda>_. queue_good cfg) s"
proof -
  let ?R = "rv_at s"
  have s: "queue_ok cfg ?R (op_at s)" "ss_faults s = []" using assms(1) by (auto simp: queue_good_def)
  have ne: "rw_ID d \<noteq> open_index" using assms(2) by (simp add: open_review_def)
  have "queue_ok cfg (?R(rw_ID d \<mapsto> ReviewDoc d, open_index \<mapsto> ReviewIndexDoc (filter (\<lambda>j. j \<noteq> rw_ID d) (open_ids (?R open_index))))) (op_at s)"
    by (rule queue_ok_close [OF s(1) assms(2) refl assms(3)])
  moreover have "memKV_get (memKV_set (memKV_set m nsReviews i x) nsReviews j y) nsReviews = (memKV_get m nsReviews)(i \<mapsto> x, j \<mapsto> y)"
    "memKV_get (memKV_set (memKV_set m nsReviews i x) nsReviews j y) nsReviewOpen = memKV_get m nsReviewOpen" for m i j and x y :: lockout_doc
    by (simp_all add: fun_eq_iff)
  ultimately show ?thesis
    using s(2) ne by (simp add: closeReview_def wp getJSON_def setJSON_def wp_attempt_ok queue_good_def rv_at_def op_at_def)
qed

section \<open>The handlers\<close>

text \<open>\<open>rand.Read\<close> fills its 16 bytes, and an id drawn is not in use.\<close>

definition fresh_review_id :: "server_state \<Rightarrow> bytes option \<Rightarrow> bool" where
  "fresh_review_id s rand16 \<longleftrightarrow> (\<forall>b. rand16 = Some b \<longrightarrow> length b = 16 \<and> rv_at s (hex_encode b) = None)"

lemma fresh_id_shape: "fresh_review_id s rand16 \<Longrightarrow> newRecoveryID rand16 = Some i \<Longrightarrow> rv_at s i = None \<and> i \<noteq> open_index \<and> i \<noteq> ''''"
proof -
  assume "fresh_review_id s rand16" "newRecoveryID rand16 = Some i"
  then obtain b where b: "i = hex_encode b" "length b = 16" "rv_at s i = None"
    by (auto simp: fresh_review_id_def newRecoveryID_def)
  then have "length i = 32" by simp
  then show ?thesis using b(3) by (auto simp: open_index_def)
qed

lemma wp_writeReviewOpened:
  assumes "queue_good cfg s" "queue_is (rv_at s) (op_at s) t" "fresh_review_id s rand16" "newRecoveryID rand16 = Some (rw_ID d)"
    and "rw_Status d = ReviewOpen"
  shows "wp (writeReviewOpened cfg d) (\<lambda>_. queue_good cfg) (\<lambda>_. queue_good cfg) t"
proof -
  have "queue_good cfg t" using assms(1,2) by (simp add: queue_good_def queue_is_def)
  moreover have "rv_at t = rv_at s" using assms(2) by (simp add: queue_is_def)
  ultimately have "wp (openReview cfg d) (\<lambda>_. queue_good cfg) (\<lambda>_. queue_good cfg) t"
    using wp_openReview [of cfg t d] fresh_id_shape [OF assms(3,4)] assms(5) by simp
  then show ?thesis
    unfolding writeReviewOpened_def by (auto simp: wp elim!: wp_mono split: review_outcome.split)
qed

lemma good_of_is: "queue_good cfg s \<Longrightarrow> queue_is (rv_at s) (op_at s) t \<Longrightarrow> queue_good cfg t"
  by (simp add: queue_good_def queue_is_def)

lemma wp_handleReviewRequest:
  assumes "queue_good cfg s" "fresh_review_id s rand16"
  shows "wp (handleReviewRequest cfg body rand16 now) (\<lambda>_. queue_good cfg) (\<lambda>_. queue_good cfg) s"
  unfolding handleReviewRequest_def
  by (rule wp_quiet [OF _ queue_good_is(1) [OF assms(1)]], (intro quiet.keeps_calls)[1], erule good_of_is [OF assms(1)],
      rule wp_quiet, (intro quiet.keeps_calls)[1], assumption, erule good_of_is [OF assms(1)],
      rule wp_quiet, (intro quiet.keeps_calls)[1], assumption, erule good_of_is [OF assms(1)],
      rule wp_quiet, (intro quiet.keeps_calls)[1], assumption, erule good_of_is [OF assms(1)],
      rule wp_quiet, (intro quiet.keeps_calls)[1], assumption, erule good_of_is [OF assms(1)],
      rule wp_quiet, (intro quiet.keeps_calls quiet.keeps_gets)[1], assumption, erule good_of_is [OF assms(1)])
    (auto simp: wp good_of_is [OF assms(1)] intro!: wp_writeReviewOpened [OF assms(1) _ assms(2)] split: option.split)

lemma wp_handleAppeal:
  assumes "queue_good cfg s" "fresh_review_id s rand16"
  shows "wp (handleAppeal cfg body rand16 now) (\<lambda>_. queue_good cfg) (\<lambda>_. queue_good cfg) s"
  unfolding handleAppeal_def Let_def
  by (rule wp_quiet [OF _ queue_good_is(1) [OF assms(1)]], (intro quiet.keeps_calls)[1], erule good_of_is [OF assms(1)],
      rule wp_quiet, (intro quiet.keeps_calls)[1], assumption, erule good_of_is [OF assms(1)],
      rule wp_quiet, (intro quiet.keeps_calls)[1], assumption, erule good_of_is [OF assms(1)])
    (auto simp: wp good_of_is [OF assms(1)] intro!: wp_writeReviewOpened [OF assms(1) _ assms(2)] split: option.split)

lemma wp_review_or_404:
  assumes "queue_good cfg s" "queue_is (rv_at s) (op_at s) t"
  shows "wp (review_or_404 i) (\<lambda>d u. queue_is (rv_at s) (op_at s) u \<and> i \<noteq> open_index \<and> rv_at s i = Some (ReviewDoc d) \<and> rw_ID d = i)
     (\<lambda>_. queue_good cfg) t"
proof -
  have "queue_good cfg t" using good_of_is [OF assms] .
  moreover have "\<exists>d. x = ReviewDoc d \<and> rw_ID d = i" if "rv_at s i = Some x" "i \<noteq> open_index" for x
    using assms(1) that unfolding queue_good_def queue_ok_def Let_def by metis
  ultimately show ?thesis
    using assms(2) by (auto simp: review_or_404_def review_at_def getJSON_def wp wp_attempt_ok queue_is_def rv_at_def split: option.split)
qed

lemma wp_handleAdminDecide:
  assumes "queue_good cfg s"
  shows "wp (handleAdminDecide cfg auth i body rand16 now) (\<lambda>_. queue_good cfg) (\<lambda>_. queue_good cfg) s"
  unfolding handleAdminDecide_def Let_def
proof (rule wp_quiet [OF _ queue_good_is(1) [OF assms(1)]], (intro quiet.keeps_calls)[1], erule good_of_is [OF assms],
    rule wp_quiet, (intro quiet.keeps_calls)[1], assumption, erule good_of_is [OF assms],
    rule wp_quiet, (intro quiet.keeps_calls)[1], assumption, erule good_of_is [OF assms],
    rule wp_step [OF wp_review_or_404 [OF assms]], assumption, assumption)
  fix req d0 and u :: server_state
  assume u: "queue_is (rv_at s) (op_at s) u \<and> i \<noteq> open_index \<and> rv_at s i = Some (ReviewDoc d0) \<and> rw_ID d0 = i"
  show "wp (andThen (check (rw_Status d0 \<noteq> ReviewOpen) 409 ''review_closed'') (\<lambda>_.
     andThen (if dq_Approve req then approve_review cfg d0 (dq_OldHolderDID req) rand16 now else ret NoEffect) (\<lambda>out.
     andThen (or500 ''store_failed'' (closeReview (d0\<lparr>rw_Status := (if dq_Approve req then ReviewApproved else ReviewDenied),
       rw_DecidedAt := now, rw_Note := trim_space (dq_Note req)\<rparr>))) (\<lambda>_.
     ret (rw_ID (d0\<lparr>rw_Status := (if dq_Approve req then ReviewApproved else ReviewDenied),
       rw_DecidedAt := now, rw_Note := trim_space (dq_Note req)\<rparr>),
       rw_Status (d0\<lparr>rw_Status := (if dq_Approve req then ReviewApproved else ReviewDenied),
       rw_DecidedAt := now, rw_Note := trim_space (dq_Note req)\<rparr>), out))))) (\<lambda>_. queue_good cfg) (\<lambda>_. queue_good cfg) u"
  proof (cases "rw_Status d0 = ReviewOpen")
    case False
    then show ?thesis using u good_of_is [OF assms] by (simp add: wp)
  next
    case True
    then have "open_review (rv_at s) i d0" using u by (simp add: open_review_def)
    then have close: "wp (closeReview (d0\<lparr>rw_Status := (if dq_Approve req then ReviewApproved else ReviewDenied),
       rw_DecidedAt := now, rw_Note := trim_space (dq_Note req)\<rparr>)) (\<lambda>_. queue_good cfg) (\<lambda>_. queue_good cfg) t"
      if "queue_is (rv_at s) (op_at s) t" for t
      using wp_closeReview [OF good_of_is [OF assms that]] that u by (auto simp: queue_is_def review_states)
    from u have q: "queue_is (rv_at s) (op_at s) u" by blast
    show ?thesis
      by (rule wp_quiet, (intro quiet.keeps_calls)[1], rule q, erule good_of_is [OF assms],
          rule wp_quiet, (intro quiet.keeps_calls quiet.keeps_approve)[1], assumption, erule good_of_is [OF assms])
        (simp only: wp_andThen wp_or500 wp_ret close)
  qed
qed

section \<open>Runs\<close>

text \<open>A request served while the stores answer; everything outside these handlers leaves the reviews alone.\<close>

inductive review_step :: "server_config \<Rightarrow> server_state \<Rightarrow> server_state \<Rightarrow> bool" for cfg where
  rvs_request: "ss_faults s = [] \<Longrightarrow> fresh_review_id s rand16 \<Longrightarrow> handleReviewRequest cfg req rand16 now s = (r1, s') \<Longrightarrow> review_step cfg s s'"
| rvs_appeal: "ss_faults s = [] \<Longrightarrow> fresh_review_id s rand16 \<Longrightarrow> handleAppeal cfg areq rand16 now s = (r2, s') \<Longrightarrow> review_step cfg s s'"
| rvs_decide: "ss_faults s = [] \<Longrightarrow> handleAdminDecide cfg auth i dreq rand16 now s = (r3, s') \<Longrightarrow> review_step cfg s s'"
| rvs_other: "rv_at s' = rv_at s \<Longrightarrow> op_at s' = op_at s \<Longrightarrow> review_step cfg s s'"

inductive review_run :: "server_config \<Rightarrow> server_state \<Rightarrow> server_state \<Rightarrow> bool" for cfg where
  rvr_refl: "review_run cfg s s"
| rvr_next: "review_run cfg s t \<Longrightarrow> review_step cfg t u \<Longrightarrow> review_run cfg s u"

lemma review_step_ok:
  assumes "review_step cfg s s'" "queue_ok cfg (rv_at s) (op_at s)"
  shows "queue_ok cfg (rv_at s') (op_at s')"
proof -
  have g: "queue_good cfg s" if "ss_faults s = []" using that assms(2) by (simp add: queue_good_def)
  from assms(1) show ?thesis
  proof cases
    case (rvs_request rand16 req now r1)
    then have "queue_good cfg s'" using wp_state [OF _ wp_handleReviewRequest [OF g]] by blast
    then show ?thesis by (simp add: queue_good_def)
  next
    case (rvs_appeal rand16 areq now r2)
    then have "queue_good cfg s'" using wp_state [OF _ wp_handleAppeal [OF g]] by blast
    then show ?thesis by (simp add: queue_good_def)
  next
    case (rvs_decide auth i dreq rand16 now r3)
    then have "queue_good cfg s'" using wp_state [OF _ wp_handleAdminDecide [OF g]] by blast
    then show ?thesis by (simp add: queue_good_def)
  qed (use assms(2) in simp)
qed

lemma review_run_ok: "review_run cfg s s' \<Longrightarrow> queue_ok cfg (rv_at s) (op_at s) \<Longrightarrow> queue_ok cfg (rv_at s') (op_at s')"
  by (induction rule: review_run.induct) (auto intro: review_step_ok)

lemma queued_reviews_ok:
  assumes "ss_faults s = []" "\<And>i. i \<in> set ids \<Longrightarrow> \<exists>d. rv_at s i = Some (ReviewDoc d) \<and> rw_ID d = i"
  shows "\<exists>ds. queued_reviews ids s = (Inr ds, s) \<and> map rw_ID ds = ids \<and> (\<forall>d \<in> set ds. rw_Commitment d = '''')"
  using assms(2)
proof (induction ids)
  case (Cons i ids)
  obtain d ds where "rv_at s i = Some (ReviewDoc d)" "rw_ID d = i" "queued_reviews ids s = (Inr ds, s)" "map rw_ID ds = ids"
    "\<forall>d \<in> set ds. rw_Commitment d = ''''"
    using Cons by (metis list.set_intros)
  then show ?case
    using assms(1) by (simp add: review_at_def run_comp rv_at_def)
qed (simp add: ret_def)

section \<open>Properties\<close>

text \<open>C24: While the stores answer, no request for review is lost and none crowds out the others: whatever
  reviews and appeals were requested and decided in whatever order, the operator's list holds every open
  review exactly once and nothing else, it hides the matched face, it has at most 5000 entries, and a holder
  has at most one open review of a kind.\<close>

theorem review_queue_complete:
  assumes "review_run cfg s0 s" "rv_at s0 = Map.empty" "ss_faults s = []" "adminAuthorized cfg auth"
  shows "(\<exists>ds. handleAdminReviews cfg auth s = (Inr ds, s) \<and> distinct (map rw_ID ds) \<and> length ds \<le> maxOpenReviews \<and>
       set (map rw_ID ds) = {i. \<exists>d. open_review (rv_at s) i d} \<and> (\<forall>d \<in> set ds. rw_Commitment d = '''')) \<and>
     (\<forall>i j d e. open_review (rv_at s) i d \<longrightarrow> open_review (rv_at s) j e \<longrightarrow> rw_Kind e = rw_Kind d \<longrightarrow>
       rw_HolderDID e = rw_HolderDID d \<longrightarrow> j = i)"
proof -
  have ok: "queue_ok cfg (rv_at s) (op_at s)"
    using review_run_ok [OF assms(1)] assms(2) queue_ok_empty by simp
  let ?ids = "open_ids (rv_at s open_index)"
  have q: "distinct ?ids" "length ?ids \<le> maxOpenReviews" "set ?ids = {i. \<exists>d. open_review (rv_at s) i d}"
    "\<And>i x. i \<noteq> open_index \<Longrightarrow> rv_at s i = Some x \<Longrightarrow> \<exists>d. x = ReviewDoc d \<and> rw_ID d = i"
    "\<And>i d. open_review (rv_at s) i d \<Longrightarrow> op_at s (review_key cfg (rw_Kind d) (rw_HolderDID d)) = Some (PointerDoc i)"
    using ok unfolding queue_ok_def Let_def by blast+
  have "\<exists>d. rv_at s i = Some (ReviewDoc d) \<and> rw_ID d = i" if "i \<in> set ?ids" for i
    using q(3,4) that unfolding open_review_def by blast
  then obtain ds where ds: "queued_reviews ?ids s = (Inr ds, s)" "map rw_ID ds = ?ids" "\<forall>d \<in> set ds. rw_Commitment d = ''''"
    using queued_reviews_ok [OF assms(3)] by blast
  then have "handleAdminReviews cfg auth s = (Inr ds, s)"
    using assms(3,4) by (simp add: handleAdminReviews_def run_comp rv_at_def)
  moreover have "length ds = length ?ids" using ds(2) by (metis length_map)
  moreover have "j = i" if "open_review (rv_at s) i d" "open_review (rv_at s) j e" "rw_Kind e = rw_Kind d" "rw_HolderDID e = rw_HolderDID d" for i j d e
    using q(5) [OF that(1)] q(5) [OF that(2)] that(3,4) by simp
  ultimately show ?thesis
    using ds(2,3) q(1-3) by metis
qed

definition review_session :: session where
  "review_session = \<lparr>se_id = ''s1'', se_holderDID = ''did:key:z1'', se_holderPublicKey = [], se_createdAt = 1, se_expiresAt = 99,
     se_verifiedMethods = [], se_anchorMethodID = None, se_issuedCredentialID = '''', se_identifierKeys = []\<rparr>"

definition review_start :: server_state where
  "review_start = sample_state\<lparr>ss_sessions := \<lparr>ses_ttl = 100, ses_sessions = [''s1'' \<mapsto> review_session]\<rparr>\<rparr>"

definition sample_review_request :: review_request where
  "sample_review_request = \<lparr>vq_SessionID = ''s1'', vq_Kind = ReviewOther, vq_Message = ''help''\<rparr>"

definition review_opened :: server_state where
  "review_opened = snd (handleReviewRequest sample_server (Some sample_review_request) (Some (replicate 16 (byte 1))) 5 review_start)"

lemma arg_neq: "f x \<noteq> f y \<Longrightarrow> x \<noteq> y"
  by blast

lemma run_review: "ss_faults review_opened = []"
  "\<exists>d. open_review (rv_at review_opened) (hex_encode (replicate 16 (byte 1))) d"
proof -
  have ne: "hex_encode (replicate 16 (byte 1)) \<noteq> open_index"
    by (rule arg_neq [where f = length]) (simp add: open_index_def)
  have "ss_faults review_opened = [] \<and> (\<exists>d. open_review (rv_at review_opened) (hex_encode (replicate 16 (byte 1))) d)"
    using ne by (simp add: review_opened_def handleReviewRequest_def decode_body_def sample_review_request_def review_kinds run_comp
        session_or_404_def sessions_Get_def session_Get_def session_lookup_def review_start_def review_session_def session_to_view_def
        has_prefix_def newRecoveryID_def writeReviewOpened_def openReview_def open_of_kind_def sample_state_def zero_review_def
        maxOpenReviews_def rv_at_def open_review_def)
  then show "ss_faults review_opened = []" "\<exists>d. open_review (rv_at review_opened) (hex_encode (replicate 16 (byte 1))) d"
    by simp_all
qed

theorem review_queue_complete_witness:
  "\<exists>ds. handleAdminReviews sample_server ''Bearer secret'' review_opened = (Inr ds, review_opened) \<and>
     hex_encode (replicate 16 (byte 1)) \<in> set (map rw_ID ds)"
proof -
  have e: "rv_at review_start = Map.empty" by (simp add: fun_eq_iff rv_at_def review_start_def sample_state_def)
  obtain r where "handleReviewRequest sample_server (Some sample_review_request) (Some (replicate 16 (byte 1))) 5 review_start = (r, review_opened)"
    by (metis review_opened_def prod.collapse)
  then have "review_step sample_server review_start review_opened"
    by (rule rvs_request [rotated 2]) (simp_all add: fresh_review_id_def e, simp add: review_start_def sample_state_def)
  then have run: "review_run sample_server review_start review_opened" by (rule rvr_next [OF rvr_refl])
  have auth: "adminAuthorized sample_server ''Bearer secret''"
    by (simp add: adminAuthorized_def sample_server_def has_prefix_def trim_prefix_def)
  show ?thesis
    using review_queue_complete [OF run e run_review(1) auth] run_review(2) by blast
qed

text \<open>A review can be lost: when the store fails at the last of the three writes that open one, the
  requester is told to try again, every later request of that kind by the holder is answered that a review
  is already open, and no operator ever sees it in the list.\<close>

theorem half_opened_review_unlisted:
  assumes "ss_faults s = [False, False, False, False, True]" "op_at s (review_key cfg (rw_Kind d) (rw_HolderDID d)) = None"
    and "length (open_ids (rv_at s open_index)) < maxOpenReviews"
    and "rw_ID d \<noteq> ''''" "rw_ID d \<noteq> open_index" "rw_Status d = ReviewOpen" "rw_ID d \<notin> set (open_ids (rv_at s open_index))"
    and "rw_Kind d' = rw_Kind d" "rw_HolderDID d' = rw_HolderDID d"
  shows "\<exists>s1. openReview cfg d s = (Inl StoreErr, s1) \<and> openReview cfg d' s1 = (Inr (Existing (rw_ID d)), s1) \<and>
     open_review (rv_at s1) (rw_ID d) d \<and> rw_ID d \<notin> set (open_ids (rv_at s1 open_index))"
  using assms by (simp add: openReview_def open_of_kind_def review_at_def run_comp op_at_def rv_at_def open_review_def)

theorem half_opened_review_unlisted_witness:
  "\<exists>s1. openReview sample_server (zero_review\<lparr>rw_ID := ''r'', rw_Kind := ReviewAppeal, rw_Status := ReviewOpen\<rparr>)
       (sample_state\<lparr>ss_faults := [False, False, False, False, True]\<rparr>) = (Inl StoreErr, s1) \<and>
     ''r'' \<notin> set (open_ids (rv_at s1 open_index))"
  using half_opened_review_unlisted [of "sample_state\<lparr>ss_faults := [False, False, False, False, True]\<rparr>" sample_server
      "zero_review\<lparr>rw_ID := ''r'', rw_Kind := ReviewAppeal, rw_Status := ReviewOpen\<rparr>"
      "zero_review\<lparr>rw_ID := ''q'', rw_Kind := ReviewAppeal, rw_Status := ReviewOpen\<rparr>"]
  by (auto simp: op_at_def rv_at_def sample_state_def maxOpenReviews_def open_index_def)

end
