(* ===== verification/Reinstatement.thy ===== *)
theory Reinstatement
  imports Review
begin

text \<open>
  Reinstating a holder undoes its revocation: what the two cascades of \<open>holderrevoke.go\<close> and \<open>review.go\<close> do
  to the ban list, exactly, while the stores answer.
\<close>

section \<open>The ban list under both cascades\<close>

text \<open>The same issuances, no failing store, and exactly the bans \<open>B\<close>.\<close>

definition bans_are :: "(string \<Rightarrow> string \<Rightarrow> bool) \<Rightarrow> (string \<rightharpoonup> issuance_record list) \<Rightarrow> server_state \<Rightarrow> bool" where
  "bans_are B H t \<longleftrightarrow> ss_faults t = [] \<and> hl_issuances (ss_holders t) = H \<and>
     (\<forall>k \<in> ledger_kinds. \<forall>v. ledger_Banned (ss_holders t) k v = B k v)"

definition with_ban :: "string \<Rightarrow> string set \<Rightarrow> (string \<Rightarrow> string \<Rightarrow> bool) \<Rightarrow> string \<Rightarrow> string \<Rightarrow> bool" where
  "with_ban k vs B = (\<lambda>k' v'. B k' v' \<or> k' = k \<and> v' \<in> vs)"

definition without_ban :: "string \<Rightarrow> string set \<Rightarrow> (string \<Rightarrow> string \<Rightarrow> bool) \<Rightarrow> string \<Rightarrow> string \<Rightarrow> bool" where
  "without_ban k vs B = (\<lambda>k' v'. B k' v' \<and> \<not> (k' = k \<and> v' \<in> vs))"

lemma ban_changes: "with_ban k {} B = B" "without_ban k {} B = B"
  "with_ban k {v} (with_ban k vs B) = with_ban k (insert v vs) B" "without_ban k {v} (without_ban k vs B) = without_ban k (insert v vs) B"
  by (auto simp: with_ban_def without_ban_def fun_eq_iff)

lemma bans_are_issuances: "bans_are B H t \<Longrightarrow> ledger_Issuances (ss_holders t) h = (case H h of None \<Rightarrow> [] | Some rs \<Rightarrow> rs)"
  by (simp add: bans_are_def ledger_Issuances_def)

lemma issuances_kept [simp]:
  "hl_issuances (snd (ledger_Ban l k v rec)) = hl_issuances l" "hl_issuances (ledger_Unban l k v) = hl_issuances l"
  by (simp_all add: ledger_Ban_def ledger_Unban_def split: option.split)

lemma BanInfo_kept: "ledger_BanInfo l k v = (rec, True) \<Longrightarrow> ledger_BanInfo (snd (ledger_Ban l k' v' rec')) k v = (rec, True)"
  by (auto simp: ledger_BanInfo_def ledger_Ban_def split: option.splits)

lemma BanInfo_new: "\<not> ledger_Banned l k v \<Longrightarrow> ledger_BanInfo (snd (ledger_Ban l k v rec)) k v = (rec, True)"
  by (simp add: ledger_BanInfo_def ledger_Ban_def ledger_Banned_def)

lemma wp_Ban:
  assumes "bans_are B H t" "k \<in> ledger_kinds"
  shows "wp (holders_Ban k v rec) (\<lambda>_ u. bans_are (with_ban k {v} B) H u \<and> ss_revocations u = ss_revocations t \<and>
     ss_holders u = snd (ledger_Ban (ss_holders t) k v rec)) (\<lambda>_ _. False) t"
  using assms by (auto simp: holders_Ban_def wp_attempt_ok bans_are_def with_ban_def case_prod_beta)

lemma wp_Unban:
  assumes "bans_are B H t" "k \<in> ledger_kinds"
  shows "wp (holders_Unban k v) (\<lambda>_ u. bans_are (without_ban k {v} B) H u \<and> ss_revocations u = ss_revocations t) (\<lambda>_ _. False) t"
  using assms by (auto simp: holders_Unban_def wp_attempt_ok bans_are_def without_ban_def)

section \<open>The revocation\<close>

lemma wp_revoke_issued_bans:
  assumes "bans_are B H t"
  shows "wp (revoke_issued c) (\<lambda>_ u. bans_are B H u \<and> ss_holders u = ss_holders t) (\<lambda>_ _. False) t"
  using assms
  by (simp add: revoke_issued_def revocations_Revoke_def wp wp_attempt_ok bans_are_def revocation_Revoke_def case_prod_beta Let_def
      split: option.split)

lemma wp_revokeHolder_bans:
  assumes "ranges_all cfg" "bans_are B H s" "\<not> ledger_Banned (ss_holders s) BanKindHolder holder"
    and cs: "cs = set (touched_nullifiers cfg holder (ledger_Issuances (ss_holders s) holder))"
  shows "wp (revokeHolder cfg holder rec now) (\<lambda>rep t. bans_are (with_ban BanKindNullifier cs (with_ban BanKindHolder {holder} B)) H t \<and>
     ledger_BanInfo (ss_holders t) BanKindHolder holder = (rec, True) \<and> hr_HolderDID rep = holder) (\<lambda>_ _. False) s"
  unfolding revokeHolder_def
proof (rule wp_step [OF wp_Ban [OF assms(2) kinds_in(1), of holder]], assumption)
  let ?B = "with_ban BanKindHolder {holder} B"
  let ?info = "\<lambda>t. ledger_BanInfo (ss_holders t) BanKindHolder holder = (rec, True)"
  fix already and t :: server_state
  assume t: "bans_are ?B H t \<and> ss_revocations t = ss_revocations s \<and> ss_holders t = snd (ledger_Ban (ss_holders s) BanKindHolder holder rec)"
  have calm: "ss_faults t = []" using t by (simp add: bans_are_def)
  have info: "?info t" using t BanInfo_new [OF assms(3)] by simp
  have recs: "ledger_Issuances (ss_holders t) holder = ledger_Issuances (ss_holders s) holder" using t by simp
  show "wp (andThen (holders_Issuances holder) (\<lambda>recs.
     andThen (countEach revoke_issued (map ir_CredentialID recs)) (\<lambda>revoked.
     andThen (countEach (ban_nullifier rec) (cf_range cfg (touched_nullifiers cfg holder recs))) (\<lambda>banned.
     andThen (case cf_inPerson cfg of
         None \<Rightarrow> ret 0
       | Some ip \<Rightarrow> andThen (inPerson_Penalize ip holder now) (\<lambda>pen. ret (length (pr_Vouchers pen)))) (\<lambda>penalized.
     ret \<lparr>hr_HolderDID = holder, hr_AlreadyBanned = already, hr_KnownHolder = (recs \<noteq> []),
          hr_RevokedCredentials = revoked, hr_NullifiersBanned = banned, hr_VouchersPenalized = penalized\<rparr>)))))
     (\<lambda>rep t. bans_are (with_ban BanKindNullifier cs ?B) H t \<and> ?info t \<and> hr_HolderDID rep = holder) (\<lambda>_ _. False) t"
  proof (rule wp_step [where R = "\<lambda>rs u. rs = ledger_Issuances (ss_holders s) holder \<and> bans_are ?B H u \<and> ?info u" and E' = "\<lambda>_ _. False"])
    show "wp (holders_Issuances holder) (\<lambda>rs u. rs = ledger_Issuances (ss_holders s) holder \<and> bans_are ?B H u \<and> ?info u) (\<lambda>_ _. False) t"
      unfolding holders_Issuances_def wp_attempt_ok [OF calm] fst_conv snd_conv using t info recs by blast
  next
    fix rs and u :: server_state
    assume u: "rs = ledger_Issuances (ss_holders s) holder \<and> bans_are ?B H u \<and> ?info u"
    have dist: "distinct (touched_nullifiers cfg holder rs)" by (simp add: touched_nullifiers_def)
    have rng: "set (cf_range cfg (touched_nullifiers cfg holder rs)) = cs"
      using assms(1) dist cs u unfolding ranges_all_def by blast
    show "wp (andThen (countEach revoke_issued (map ir_CredentialID rs)) (\<lambda>revoked.
       andThen (countEach (ban_nullifier rec) (cf_range cfg (touched_nullifiers cfg holder rs))) (\<lambda>banned.
       andThen (case cf_inPerson cfg of
           None \<Rightarrow> ret 0
         | Some ip \<Rightarrow> andThen (inPerson_Penalize ip holder now) (\<lambda>pen. ret (length (pr_Vouchers pen)))) (\<lambda>penalized.
       ret \<lparr>hr_HolderDID = holder, hr_AlreadyBanned = already, hr_KnownHolder = (rs \<noteq> []),
            hr_RevokedCredentials = revoked, hr_NullifiersBanned = banned, hr_VouchersPenalized = penalized\<rparr>))))
       (\<lambda>rep t. bans_are (with_ban BanKindNullifier cs ?B) H t \<and> ?info t \<and> hr_HolderDID rep = holder) (\<lambda>_ _. False) u"
    proof (rule wp_step [where R = "\<lambda>_ w. bans_are ?B H w \<and> ?info w" and E' = "\<lambda>_ _. False"])
      show "wp (countEach revoke_issued (map ir_CredentialID rs)) (\<lambda>_ w. bans_are ?B H w \<and> ?info w) (\<lambda>_ _. False) u"
        by (rule wp_countEach [where I = "\<lambda>_ w. bans_are ?B H w \<and> ?info w"])
          (use u in \<open>auto intro: wp_mono [OF wp_revoke_issued_bans]\<close>)
    next
      fix n and w :: server_state assume w: "bans_are ?B H w \<and> ?info w"
      show "wp (andThen (countEach (ban_nullifier rec) (cf_range cfg (touched_nullifiers cfg holder rs))) (\<lambda>banned.
         andThen (case cf_inPerson cfg of
             None \<Rightarrow> ret 0
           | Some ip \<Rightarrow> andThen (inPerson_Penalize ip holder now) (\<lambda>pen. ret (length (pr_Vouchers pen)))) (\<lambda>penalized.
         ret \<lparr>hr_HolderDID = holder, hr_AlreadyBanned = already, hr_KnownHolder = (rs \<noteq> []),
              hr_RevokedCredentials = n, hr_NullifiersBanned = banned, hr_VouchersPenalized = penalized\<rparr>)))
         (\<lambda>rep t. bans_are (with_ban BanKindNullifier cs ?B) H t \<and> ?info t \<and> hr_HolderDID rep = holder) (\<lambda>_ _. False) w"
      proof (rule wp_step [where R = "\<lambda>_ x. bans_are (with_ban BanKindNullifier cs ?B) H x \<and> ?info x" and E' = "\<lambda>_ _. False"])
        show "wp (countEach (ban_nullifier rec) (cf_range cfg (touched_nullifiers cfg holder rs)))
           (\<lambda>_ x. bans_are (with_ban BanKindNullifier cs ?B) H x \<and> ?info x) (\<lambda>_ _. False) w"
          by (rule wp_countEach [where I = "\<lambda>seen x. bans_are (with_ban BanKindNullifier (set seen) ?B) H x \<and> ?info x"])
            (use w rng in \<open>auto simp: ban_nullifier_def wp ban_changes BanInfo_kept intro!: wp_mono [OF wp_Ban]\<close>)
      qed (auto simp: wp inPerson_Penalize_def wp_attempt_ok case_prod_beta bans_are_def split: option.split)
    qed simp
  qed simp
qed

section \<open>The reinstatement\<close>

lemma wp_unban_nullifier:
  assumes "bans_are B H t"
  shows "wp (unban_nullifier c) (\<lambda>_ u. bans_are (without_ban BanKindNullifier {c} B) H u \<and> ss_revocations u = ss_revocations t) (\<lambda>_ _. False) t"
proof -
  have calm: "ss_faults t = []" and b: "ledger_Banned (ss_holders t) BanKindNullifier c = B BanKindNullifier c"
    using assms by (auto simp: bans_are_def)
  have "without_ban BanKindNullifier {c} B = B" if "\<not> B BanKindNullifier c"
    using that by (auto simp: without_ban_def fun_eq_iff)
  then show ?thesis
    using assms b wp_Unban [OF assms kinds_in(2), of c]
    by (auto simp: unban_nullifier_def holders_Banned_def wp wp_attempt_ok [OF calm] elim!: wp_mono)
qed

lemma wp_reinstate_bans:
  assumes "ranges_all cfg" "bans_are B H s" "ledger_BanInfo (ss_holders s) BanKindHolder holder = (rec, True)"
    and "\<not> has_prefix (br_Reason rec) ''recovered:''" "br_EvidenceDigest rec \<noteq> ''''"
    and cs: "cs = set (touched_nullifiers cfg holder (ledger_Issuances (ss_holders s) holder))"
  shows "wp (reinstate cfg holder now) (\<lambda>r t. (\<exists>rep. r = Inr rep) \<and> ss_revocations t = ss_revocations s \<and>
     bans_are (without_ban BanKindHolder {holder} (without_ban BanKindNullifier cs (with_ban BanKindPardon {br_EvidenceDigest rec} B))) H t)
     (\<lambda>_ _. False) s"
proof -
  let ?B = "with_ban BanKindPardon {br_EvidenceDigest rec} B"
  let ?at = "\<lambda>B t. bans_are B H t \<and> ss_revocations t = ss_revocations s"
  let ?recs = "ledger_Issuances (ss_holders s) holder"
  have calm: "ss_faults s = []" using assms(2) by (simp add: bans_are_def)
  have rng: "set (cf_range cfg (touched_nullifiers cfg holder ?recs)) = cs"
    using assms(1) cs unfolding ranges_all_def by (simp add: touched_nullifiers_def)
  have pardon: "wp (holders_Ban BanKindPardon (br_EvidenceDigest rec) pr) (\<lambda>_ t. ?at ?B t) (\<lambda>_ _. False) s" for pr
    by (rule wp_mono [OF wp_Ban [OF assms(2)]]) auto
  have issuances: "wp (holders_Issuances holder) (\<lambda>rs u. rs = ?recs \<and> ?at ?B u) (\<lambda>_ _. False) t" if "?at ?B t" for t
  proof -
    have "ss_faults t = []" "ledger_Issuances (ss_holders t) holder = ?recs"
      using that assms(2) by (auto simp: bans_are_def ledger_Issuances_def)
    then show ?thesis
      unfolding holders_Issuances_def using that by (simp add: wp_attempt_ok)
  qed
  have unban: "wp (countEach unban_nullifier (cf_range cfg (touched_nullifiers cfg holder ?recs)))
      (\<lambda>_. ?at (without_ban BanKindNullifier cs ?B)) (\<lambda>_ _. False) t" if "?at ?B t" for t
    by (rule wp_countEach [where I = "\<lambda>seen. ?at (without_ban BanKindNullifier (set seen) ?B)"])
      (use that rng in \<open>auto simp: ban_changes intro: wp_mono [OF wp_unban_nullifier]\<close>)
  have lift: "wp (holders_Unban BanKindHolder holder)
      (\<lambda>_. ?at (without_ban BanKindHolder {holder} (without_ban BanKindNullifier cs ?B))) (\<lambda>_ _. False) t"
    if "?at (without_ban BanKindNullifier cs ?B) t" for t
    using that by (auto intro!: wp_mono [OF wp_Unban])
  have vouchers: "wp (case cf_inPerson cfg of None \<Rightarrow> ret 0
       | Some ip \<Rightarrow> andThen (inPerson_Reinstate ip holder) (\<lambda>pr. ret (length (pr_Vouchers pr)))) (\<lambda>_. ?at C) (\<lambda>_ _. False) t"
    if "?at C t" for C t
    using that by (simp add: inPerson_Reinstate_def wp wp_attempt_ok case_prod_beta bans_are_def split: option.split)
  have info: "wp (holders_BanInfo BanKindHolder holder) (\<lambda>r t. r = (rec, True) \<and> t = s) (\<lambda>_ _. False) s"
    using assms(3) by (simp add: holders_BanInfo_def wp_attempt_ok [OF calm])
  show ?thesis
    unfolding reinstate_def
    by (rule wp_step [OF info], assumption, erule conjE,
        simp only: prod.case assms(4,5) simp_thms if_False if_True not_False_eq_True,
        rule wp_step [where R = "\<lambda>_. ?at ?B" and E' = "\<lambda>_ _. False"], simp only: wp_andThen wp_ret, rule pardon, assumption,
        rule wp_step [OF issuances], assumption, assumption, erule conjE, simp only:,
        rule wp_step [OF unban], blast, assumption,
        rule wp_step [OF lift], assumption, assumption,
        rule wp_step [OF vouchers], assumption, assumption, simp add: wp_ret)
qed

lemma equivocationDigest_nonempty:
  assumes "\<And>b. b \<noteq> [] \<Longrightarrow> c_sha256 cr b \<noteq> []"
  shows "equivocationDigest cr pub p \<noteq> ''''"
proof -
  have "\<exists>m. equivocationDigest cr pub p = hex_encode (c_sha256 cr m) \<and> m \<noteq> []"
    unfolding equivocationDigest_def sha256_hex_def Let_def case_prod_beta by (rule exI, rule conjI, rule refl) (simp add: join_def)
  then obtain m where m: "equivocationDigest cr pub p = hex_encode (c_sha256 cr m)" "m \<noteq> []" by blast
  have "length (hex_encode (c_sha256 cr m)) > 0" using assms [OF m(2)] by simp
  then show ?thesis unfolding m(1) by auto
qed

lemma revokeHolder_reports: "revokeHolder cfg h rec now s = (Inr rep, s') \<Longrightarrow> hr_HolderDID rep = h"
  by (auto simp: revokeHolder_def andThen_def ret_def split: prod.splits sum.splits)

section \<open>Properties\<close>

text \<open>C8: Revoking somebody on an equivocation proof and reinstating them after review leaves everybody's bans
  as they were before, keeps the revoked credentials revoked, and the same proof does not revoke them
  again.\<close>

theorem reinstatement_undoes_revocation:
  assumes "ranges_all cfg" "\<And>b. b \<noteq> [] \<Longrightarrow> c_sha256 (cf_crypto cfg) b \<noteq> []" "ss_faults s = []"
    and "handleEquivocation cfg (Some p) now s = (Inr rep, s1)" "holder = hr_HolderDID rep"
    and "\<not> ledger_Banned (ss_holders s) BanKindHolder holder"
    and "\<forall>c \<in> set (touched_nullifiers cfg holder (ledger_Issuances (ss_holders s) holder)). \<not> ledger_Banned (ss_holders s) BanKindNullifier c"
  shows "\<exists>rep2 s2. reinstate cfg holder later s1 = (Inr (Inr rep2), s2) \<and> ss_revocations s2 = ss_revocations s1 \<and>
     (\<forall>k \<in> {BanKindHolder, BanKindNullifier}. \<forall>v. ledger_Banned (ss_holders s2) k v = ledger_Banned (ss_holders s) k v) \<and>
     handleEquivocation cfg (Some p) again s2 = (Inl (Refused (writeError 409 ''evidence_pardoned'')), s2)"
proof -
  obtain pub where v: "equivocation_Verify (cf_crypto cfg) p = Inr pub"
    using assms(4) by (auto simp: handleEquivocation_def decode_body_def run_comp refuse_def split: sum.splits)
  then have len: "length pub = PublicKeySize" by (simp add: equivocation_Verify_Inr)
  obtain h where h: "DIDKeyFromEd25519 pub = Some h" using len by (simp add: DIDKeyFromEd25519_def)
  let ?dig = "equivocationDigest (cf_crypto cfg) pub p"
  let ?rec = "\<lparr>br_Reason = ''equivocation: '' @ eq_Context p, br_EvidenceDigest = ?dig, br_At = now\<rparr>"
  have dig: "?dig \<noteq> ''''" by (rule equivocationDigest_nonempty) (rule assms(2))
  have run: "revokeHolder cfg h ?rec now s = (Inr rep, s1)"
    using assms(3,4) v h
    by (auto simp: handleEquivocation_def decode_body_def run_comp refuse_def Let_def holders_Banned_def split: if_splits sum.splits prod.splits)
  have hold: "holder = h" using revokeHolder_reports [OF run] assms(5) by simp
  let ?B = "\<lambda>k v. ledger_Banned (ss_holders s) k v"
  let ?cs = "set (touched_nullifiers cfg h (ledger_Issuances (ss_holders s) h))"
  let ?H = "hl_issuances (ss_holders s)"
  have start: "bans_are ?B ?H s" using assms(3) by (simp add: bans_are_def)
  have s1: "bans_are (with_ban BanKindNullifier ?cs (with_ban BanKindHolder {h} ?B)) ?H s1"
    "ledger_BanInfo (ss_holders s1) BanKindHolder h = (?rec, True)"
    using wp_result [OF run wp_revokeHolder_bans [OF assms(1) start assms(6) [unfolded hold] refl]] by blast+
  have same: "ledger_Issuances (ss_holders s1) h = ledger_Issuances (ss_holders s) h"
    using s1(1) by (simp add: bans_are_def ledger_Issuances_def)
  have "\<not> has_prefix (br_Reason ?rec) ''recovered:''" by (simp add: has_prefix_def)
  moreover have "br_EvidenceDigest ?rec \<noteq> ''''" using dig by simp
  ultimately obtain rep2 s2 where s2: "reinstate cfg h later s1 = (Inr (Inr rep2), s2)" "ss_revocations s2 = ss_revocations s1"
    "bans_are (without_ban BanKindHolder {h} (without_ban BanKindNullifier ?cs (with_ban BanKindPardon {?dig}
       (with_ban BanKindNullifier ?cs (with_ban BanKindHolder {h} ?B))))) ?H s2"
    using wp_reinstate_bans [OF assms(1) s1(1) s1(2), of ?cs later] same
    by (cases "reinstate cfg h later s1") (auto simp: wp_def split: sum.splits)
  have "\<forall>k \<in> {BanKindHolder, BanKindNullifier}. \<forall>v. ledger_Banned (ss_holders s2) k v = ledger_Banned (ss_holders s) k v"
    using s2(3) assms(6,7) unfolding hold by (auto simp: bans_are_def with_ban_def without_ban_def)
  moreover have "ledger_Banned (ss_holders s2) BanKindPardon ?dig" "ss_faults s2 = []"
    using s2(3) by (simp_all add: bans_are_def with_ban_def without_ban_def)
  then have "handleEquivocation cfg (Some p) again s2 = (Inl (Refused (writeError 409 ''evidence_pardoned'')), s2)"
    using v h by (simp add: handleEquivocation_def decode_body_def run_comp Let_def holders_Banned_def)
  ultimately show ?thesis
    using s2(1,2) unfolding hold by blast
qed

lemma fresh_ledger: "ledger_Banned (ss_holders sample_state) k v \<longleftrightarrow> False"
  by (simp add: ledger_Banned_def sample_state_def NewInMemoryHolderLedger_def)

theorem reinstatement_undoes_revocation_witness:
  "\<exists>p rep (s1 :: server_state) rep2 (s2 :: server_state).
     handleEquivocation sample_server (Some p) 5 sample_state = (Inr rep, s1) \<and>
     reinstate sample_server (hr_HolderDID rep) 9 s1 = (Inr (Inr rep2), s2) \<and>
     handleEquivocation sample_server (Some p) 12 s2 = (Inl (Refused (writeError 409 ''evidence_pardoned'')), s2)"
proof -
  let ?k = "sample_key 1 @ sample_key 2"
  obtain st st' where s: "SignSlotStatement sample_crypto ?k ''openline/1/spend'' ''acct:1'' (sample_key 3) = Inr st"
     "SignSlotStatement sample_crypto ?k ''openline/1/spend'' ''acct:1'' (sample_key 4) = Inr st'"
    using sample_statement by blast
  have k: "public_of ?k = sample_key 2" "length ?k = PrivateKeySize" "sample_key 3 \<noteq> sample_key 4"
    by (simp_all add: public_of_def sample_key_def key_sizes)
  obtain p where v: "equivocation_Verify sample_crypto p = Inr (sample_key 2)"
    using signed_conflict_verifies [OF s k(3,2)] k by auto
  have cr: "cf_crypto sample_server = sample_crypto" by (simp add: sample_server_def)
  have calm: "ss_faults sample_state = []" by (simp add: sample_state_def)
  obtain h where h: "DIDKeyFromEd25519 (sample_key 2) = Some h" by (simp add: DIDKeyFromEd25519_def)
  have ok: "\<exists>rep t. revokeHolder sample_server h rec 5 sample_state = (Inr rep, t)" for h rec
    using revokeHolder_ok [OF calm, of sample_server h rec 5]
    by (cases "revokeHolder sample_server h rec 5 sample_state") (auto simp: wp_def split: sum.splits)
  have "\<exists>rep s1. handleEquivocation sample_server (Some p) 5 sample_state = (Inr rep, s1)"
    using ok [of h "\<lparr>br_Reason = ''equivocation: '' @ eq_Context p, br_EvidenceDigest = equivocationDigest sample_crypto (sample_key 2) p, br_At = 5\<rparr>"] calm v h
    by (auto simp: handleEquivocation_def decode_body_def run_comp Let_def cr holders_Banned_def fresh_ledger)
  then obtain rep and s1 :: server_state where e: "handleEquivocation sample_server (Some p) 5 sample_state = (Inr rep, s1)" by blast
  have sha: "c_sha256 (cf_crypto sample_server) b \<noteq> []" if "b \<noteq> []" for b
    using that by (simp add: cr sample_crypto_def)
  show ?thesis
    using reinstatement_undoes_revocation [OF sample_server_ranges sha calm e refl, of 9 12] e fresh_ledger by blast
qed

end
