(* ===== verification/Method_Begin.thy ===== *)
theory Method_Begin
  imports Issuance
begin

text \<open>
  Beginning a method and the public descriptions of the issuer: the rest of the handlers of
  \<open>src/server/handlers.go\<close>, with \<open>identifierSendKey\<close> of \<open>sendlimit.go\<close>. Beginning a method is what sends
  an email or a text message, so it is guarded by the per-identifier limit.
\<close>

section \<open>Descriptions\<close>

definition handleListMethods :: "server_config \<Rightarrow> method_summary list call" where
  "handleListMethods cfg = ret (methodSummaries cfg)"

definition recoveryDelaySeconds :: "server_config \<Rightarrow> int" where
  "recoveryDelaySeconds cfg =
     (if cf_lockout cfg = None then 0 else quot (lc_RecoveryDelay (cfgLockout cfg)) ns_second)"

record config_response =
  gr_InviteCodeRequired :: bool
  gr_ChallengeSecretsExposed :: bool
  gr_EmailDelivery :: string
  gr_SMSDelivery :: string
  gr_IdentifierDedup :: bool
  gr_HolderPoPRequired :: bool
  gr_HolderRevocation :: bool
  gr_InPersonVouch :: bool
  gr_NoFalseLockout :: bool
  gr_ManualReview :: bool
  gr_RecoveryDelaySeconds :: int

definition handleConfig :: "server_config \<Rightarrow> config_response call" where
  "handleConfig cfg = ret
     \<lparr>gr_InviteCodeRequired = (cf_EnrollmentInviteCode cfg \<noteq> ''''),
      gr_ChallengeSecretsExposed = cf_ExposeChallengeSecrets cfg,
      gr_EmailDelivery = cf_emailDelivery cfg, gr_SMSDelivery = cf_smsDelivery cfg,
      gr_IdentifierDedup = (cf_identifierKeys cfg \<noteq> None), gr_HolderPoPRequired = cf_RequireHolderPoP cfg,
      gr_HolderRevocation = cf_holderRevocation cfg, gr_InPersonVouch = (cf_inPerson cfg \<noteq> None),
      gr_NoFalseLockout = (cf_lockout cfg \<noteq> None), gr_ManualReview = reviewsEnabled cfg,
      gr_RecoveryDelaySeconds = recoveryDelaySeconds cfg\<rparr>"

definition handleDIDDocument :: "server_config \<Rightarrow> issuer_did_document call" where
  "handleDIDDocument cfg =
     (case BuildDIDDocument (cf_issuerDID cfg) ''key-1'' (cf_issuerPublicKey cfg) of
        None \<Rightarrow> refuse 500 ''did_build_failed''
      | Some doc \<Rightarrow> ret doc)"

section \<open>Beginning a method\<close>

definition identifierSendKey :: "server_config \<Rightarrow> string \<Rightarrow> string \<Rightarrow> string" where
  "identifierSendKey cfg kind raw =
     (let normalized = (case normalizeIdentifier kind raw of Inl e \<Rightarrow> to_lower (trim_space raw) | Inr n \<Rightarrow> n) in
      case cf_identifierKeys cfg of
        Some keyer \<Rightarrow> identifier_Key (cf_crypto cfg) keyer kind normalized
      | None \<Rightarrow> sha256_hex (cf_crypto cfg) (kind @ '':'' @ normalized))"

definition challengeSecretKeys :: "string list" where
  "challengeSecretKeys = [''magic_link_url'']"

definition redactChallenge :: "server_config \<Rightarrow> challenge_data \<Rightarrow> challenge_data" where
  "redactChallenge cfg ch =
     (if cf_ExposeChallengeSecrets cfg \<or> length (ch_Payload ch) = 0 then ch
      else ch\<lparr>ch_Payload := fold alist_del challengeSecretKeys (ch_Payload ch)\<rparr>)"

text \<open>\<open>Retry-After\<close>, whole seconds and at least one. A panic in the limiter becomes the 500 of \<open>recoverer\<close>.\<close>

definition retry_seconds :: "duration \<Rightarrow> int" where
  "retry_seconds wait = max 1 \<lceil>dur_seconds wait\<rceil>"

definition allow_send :: "server_config \<Rightarrow> string \<Rightarrow> string \<Rightarrow> time \<Rightarrow> unit call" where
  "allow_send cfg kind raw now s =
     (case ss_identifierSends s of
        None \<Rightarrow> (Inr (), s)
      | Some l \<Rightarrow>
          (case send_allow l (identifierSendKey cfg kind raw) now of
             (answer, l') \<Rightarrow>
               ((case answer of
                   SendAllowed \<Rightarrow> Inr ()
                 | SendRetryAfter wait \<Rightarrow> Inl (Refused (writeErrorNext 429 ''identifier_rate_limited'' []
                     [(''Retry-After'', JNum (retry_seconds wait))]))
                 | SendIndexPanic \<Rightarrow> Inl (Refused (writeError 500 ''panic''))),
                s\<lparr>ss_identifierSends := Some l'\<rparr>)))"

record begin_request =
  bq_SessionID :: string
  bq_UserInput :: string

definition handleBeginMethod ::
  "server_config \<Rightarrow> (string \<Rightarrow> ceremony_context \<Rightarrow> challenge_data call) \<Rightarrow> string \<Rightarrow> begin_request option \<Rightarrow> time
    \<Rightarrow> challenge_data call" where
  "handleBeginMethod cfg begin_ceremony methodID body now =
     (case registry_Get (cf_registry cfg) methodID of
        None \<Rightarrow> refuse 404 ''method_not_found''
      | Some entry \<Rightarrow>
          andThen (decode_body body) (\<lambda>req.
          andThen (session_or_404 (bq_SessionID req) now) (\<lambda>sess.
          let kind = identifierKindForMethod methodID; raw = bq_UserInput req in
          andThen (check (identifierFromUserInput kind \<and> cf_identifierKeys cfg \<noteq> None \<and>
              (case normalizeIdentifier kind raw of Inl e \<Rightarrow> True | Inr n \<Rightarrow> False)) 400 ''invalid_identifier'') (\<lambda>_.
          andThen (if identifierFromUserInput kind then allow_send cfg kind raw now else ret ()) (\<lambda>_.
          andThen (onError (\<lambda>_. Refused (writeError 400 ''begin_failed'')) (begin_ceremony methodID
            \<lparr>cc_SessionID = sv_ID sess, cc_HolderDID = sv_HolderDID sess, cc_UserID = raw, cc_MethodID = methodID,
             cc_IssuerDID = cf_issuerDID cfg, cc_StartedAt = now\<rparr>)) (\<lambda>challenge.
          ret (redactChallenge cfg challenge)))))))"

section \<open>Facts\<close>

lemma redacted_keys: "\<not> cf_ExposeChallengeSecrets cfg \<Longrightarrow> k \<in> set challengeSecretKeys \<Longrightarrow>
    k \<notin> fst ` set (ch_Payload (redactChallenge cfg ch))"
  by (auto simp: redactChallenge_def challengeSecretKeys_def alist_del_def)

lemma begin_withholds_secrets:
  assumes "\<not> cf_ExposeChallengeSecrets cfg" "handleBeginMethod cfg ceremony methodID body now s = (Inr ch, s')"
  shows "''magic_link_url'' \<notin> fst ` set (ch_Payload ch)"
proof -
  have "wp (handleBeginMethod cfg ceremony methodID body now) (\<lambda>ch _. ''magic_link_url'' \<notin> fst ` set (ch_Payload ch)) (\<lambda>_ _. True) s"
    using redacted_keys [OF assms(1)]
    by (auto simp: handleBeginMethod_def wp Let_def challengeSecretKeys_def intro!: wpI split: option.split)
  then show ?thesis using assms(2) by (simp add: wp_def)
qed

text \<open>
  No message to an identifier leaves unless the limiter let it through: when the limiter refuses, the
  ceremony is not begun, and nothing but the limiter's own list and an expired session changes.
\<close>

lemma begin_respects_send_limit:
  assumes "identifierFromUserInput (identifierKindForMethod methodID)" "ss_identifierSends s = Some l"
    and "fst (send_allow l (identifierSendKey cfg (identifierKindForMethod methodID) (bq_UserInput req)) now) \<noteq> SendAllowed"
  shows "wp (handleBeginMethod cfg ceremony methodID (Some req) now) (\<lambda>_ _. False)
     (\<lambda>e t. (\<exists>r. e = Refused r) \<and> ss_kv t = ss_kv s \<and> ss_holders t = ss_holders s) s"
  using assms
  by (auto simp: handleBeginMethod_def wp Let_def decode_body_def session_or_404_def sessions_Get_def allow_send_def wp_def
      case_prod_beta andThen_def onError_def check_def refuseIf_def refuse_def throw_def ret_def
      split: option.split sum.split prod.split send_answer.split)

end
