(* ===== verification/Mrz.thy ===== *)
theory Mrz
  imports Prelude
begin

text \<open>
  The machine readable zone of a travel document, \<open>src/src/methods/document-chip/icao/mrz.go\<close>: check digits, the three
  layouts, the data group that carries it on a chip, and the expiry date. Input is taken to be ASCII, since
  \<open>strings.ToUpper\<close> is modelled on ASCII letters.
\<close>

section \<open>Check digits\<close>

datatype mrz_error =
    MrzCharacter char | MrzCheckDigit string | MrzLongNumber | MrzLength nat | MrzDG1 | MrzNoMRZ | MrzExpiry

definition mrz_value :: "char \<Rightarrow> nat option" where
  "mrz_value c = (let n = byte_of c in
     if 48 \<le> n \<and> n \<le> 57 then Some (n - 48)
     else if 65 \<le> n \<and> n \<le> 90 then Some (n - 65 + 10)
     else if c = CHR ''<'' then Some 0
     else None)"

definition weights :: "nat list" where "weights = [7, 3, 1]"

fun weighted_sum :: "string \<Rightarrow> nat \<Rightarrow> nat \<Rightarrow> mrz_error + nat" where
  "weighted_sum [] i acc = Inr acc"
| "weighted_sum (c # s) i acc =
     (case mrz_value c of
        None \<Rightarrow> Inl (MrzCharacter c)
      | Some v \<Rightarrow> weighted_sum s (i + 1) (acc + v * weights ! (i mod 3)))"

definition CheckDigit :: "string \<Rightarrow> mrz_error + char" where
  "CheckDigit s = (case weighted_sum s 0 0 of Inl e \<Rightarrow> Inl e | Inr n \<Rightarrow> Inr (byte (48 + n mod 10)))"

text \<open>\<open>None\<close> is a field that passes.\<close>

definition checkField :: "string \<Rightarrow> char \<Rightarrow> mrz_error option" where
  "checkField field digit =
     (case CheckDigit field of
        Inl e \<Rightarrow> Some e
      | Inr want \<Rightarrow>
          if (if digit = CHR ''<'' then CHR ''0'' else digit) \<noteq> want then Some (MrzCheckDigit field) else None)"

section \<open>Layouts\<close>

record mrz =
  mz_DocumentCode :: string
  mz_IssuingState :: string
  mz_DocumentNumber :: string
  mz_DateOfBirth :: string
  mz_DateOfExpiry :: string

text \<open>\<open>s[a:b]\<close>, for \<open>a \<le> b \<le> len(s)\<close> as everywhere below.\<close>

definition slice :: "string \<Rightarrow> nat \<Rightarrow> nat \<Rightarrow> string" where
  "slice s a b = take (b - a) (drop a s)"

definition trimFiller :: "string \<Rightarrow> string" where
  "trimFiller s = rev (dropWhile (\<lambda>c. c = CHR ''<'') (rev s))"

text \<open>The first failing check of a list, in order.\<close>

fun firstError :: "mrz_error option list \<Rightarrow> mrz_error option" where
  "firstError [] = None"
| "firstError (Some e # es) = Some e"
| "firstError (None # es) = firstError es"

text \<open>A number that does not fit goes on in the optional data, which then holds its check digit.\<close>

definition longNumber :: "string \<Rightarrow> char \<Rightarrow> bool \<Rightarrow> string \<Rightarrow> mrz_error + string \<times> char" where
  "longNumber num numCD may optional =
     (if numCD = CHR ''<'' \<and> may then
        (let ext = trimFiller optional in
         if length ext < 1 then Inl MrzLongNumber
         else Inr (num @ take (length ext - 1) ext, ext ! (length ext - 1)))
      else Inr (num, numCD))"

definition parseTD23 :: "string \<Rightarrow> nat \<Rightarrow> mrz_error + mrz" where
  "parseTD23 z lineLen =
     (let l1 = take lineLen z; l2 = drop lineLen z;
          dob = slice l2 13 19; doe = slice l2 21 27;
          optional = (if lineLen = 44 then slice l2 28 42 else slice l2 28 (lineLen - 1))
      in case longNumber (slice l2 0 9) (l2 ! 9) (lineLen = 36) optional of
           Inl e \<Rightarrow> Inl e
         | Inr (num, numCD) \<Rightarrow>
             (case firstError
                 ([checkField num numCD, checkField dob (l2 ! 19), checkField doe (l2 ! 27)]
                  @ (if lineLen = 44 then [checkField (slice l2 28 42) (l2 ! 42)] else [])
                  @ [checkField (slice l2 0 10 @ slice l2 13 20 @
                       (if lineLen = 44 then slice l2 21 43 else slice l2 21 35)) (l2 ! (lineLen - 1))]) of
                Some e \<Rightarrow> Inl e
              | None \<Rightarrow> Inr \<lparr>mz_DocumentCode = trimFiller (slice l1 0 2), mz_IssuingState = trimFiller (slice l1 2 5),
                  mz_DocumentNumber = trimFiller num, mz_DateOfBirth = dob, mz_DateOfExpiry = doe\<rparr>))"

definition parseTD1 :: "string \<Rightarrow> mrz_error + mrz" where
  "parseTD1 z =
     (let l1 = slice z 0 30; l2 = slice z 30 60; dob = slice l2 0 6; doe = slice l2 8 14
      in case longNumber (slice l1 5 14) (l1 ! 14) True (slice l1 15 30) of
           Inl e \<Rightarrow> Inl e
         | Inr (num, numCD) \<Rightarrow>
             (case firstError
                 [checkField num numCD, checkField dob (l2 ! 6), checkField doe (l2 ! 14),
                  checkField (slice l1 5 30 @ slice l2 0 7 @ slice l2 8 15 @ slice l2 18 29) (l2 ! 29)] of
                Some e \<Rightarrow> Inl e
              | None \<Rightarrow> Inr \<lparr>mz_DocumentCode = trimFiller (slice l1 0 2), mz_IssuingState = trimFiller (slice l1 2 5),
                  mz_DocumentNumber = trimFiller num, mz_DateOfBirth = dob, mz_DateOfExpiry = doe\<rparr>))"

definition ParseMRZ :: "string \<Rightarrow> mrz_error + mrz" where
  "ParseMRZ s =
     (let z = to_upper (filter (\<lambda>c. c \<notin> {byte 10, byte 13, byte 32}) s) in
      if length z = 90 then parseTD1 z
      else if length z = 72 then parseTD23 z 36
      else if length z = 88 then parseTD23 z 44
      else Inl (MrzLength (length z)))"

section \<open>The data group\<close>

text \<open>
  \<open>asn1.Unmarshal\<close> into a \<open>RawValue\<close>: class, tag and contents of the first element. A tag of 31 or more is in base
  128 without leading zeros; a length is definite, minimal and within the input.
\<close>

fun base128 :: "nat \<Rightarrow> nat \<Rightarrow> bytes \<Rightarrow> (nat \<times> bytes) option" where
  "base128 shifted acc [] = None"
| "base128 shifted acc (b # bs) =
     (if shifted = 5 then None
      else if shifted = 0 \<and> byte_of b = 128 then None
      else
        (let v = acc * 128 + byte_of b mod 128 in
         if byte_of b < 128 then (if v > 2147483647 then None else Some (v, bs))
         else base128 (shifted + 1) v bs))"

fun der_long_length :: "nat \<Rightarrow> nat \<Rightarrow> bytes \<Rightarrow> (nat \<times> bytes) option" where
  "der_long_length 0 acc bs = (if acc < 128 then None else Some (acc, bs))"
| "der_long_length (Suc n) acc [] = None"
| "der_long_length (Suc n) acc (b # bs) =
     (if acc \<ge> 8388608 then None
      else let v = acc * 256 + byte_of b in if v = 0 then None else der_long_length n v bs)"

fun der_length :: "bytes \<Rightarrow> (nat \<times> bytes) option" where
  "der_length [] = None"
| "der_length (b # bs) =
     (if byte_of b < 128 then Some (byte_of b, bs)
      else if byte_of b = 128 then None
      else der_long_length (byte_of b mod 128) 0 bs)"

definition asn1_raw :: "bytes \<Rightarrow> (nat \<times> nat \<times> bytes) option" where
  "asn1_raw bs =
     (case bs of
        [] \<Rightarrow> None
      | b # rest \<Rightarrow>
          (case (if byte_of b mod 32 = 31
                 then (case base128 0 0 rest of Some (t, r) \<Rightarrow> if t < 31 then None else Some (t, r) | None \<Rightarrow> None)
                 else Some (byte_of b mod 32, rest)) of
             None \<Rightarrow> None
           | Some (tag, r) \<Rightarrow>
               (case der_length r of
                  None \<Rightarrow> None
                | Some (n, body) \<Rightarrow> if n > length body then None else Some (byte_of b div 64, tag, take n body))))"

definition ParseDG1 :: "bytes \<Rightarrow> mrz_error + mrz" where
  "ParseDG1 dg1 =
     (case asn1_raw dg1 of
        None \<Rightarrow> Inl MrzDG1
      | Some (cls, tag, body) \<Rightarrow>
          if cls \<noteq> 1 \<or> tag \<noteq> 1 then Inl MrzDG1
          else case asn1_raw body of
            None \<Rightarrow> Inl MrzNoMRZ
          | Some (cls', tag', inner) \<Rightarrow> if cls' \<noteq> 1 \<or> tag' \<noteq> 31 then Inl MrzNoMRZ else ParseMRZ inner)"

section \<open>Expiry\<close>

definition leap :: "int \<Rightarrow> bool" where
  "leap y \<longleftrightarrow> y mod 4 = 0 \<and> (y mod 100 \<noteq> 0 \<or> y mod 400 = 0)"

definition days_in :: "int \<Rightarrow> nat \<Rightarrow> int" where
  "days_in y m = (if m = 2 then (if leap y then 29 else 28) else if m \<in> {4, 6, 9, 11} then 30 else 31)"

text \<open>Midnight of a date, in nanoseconds since 1 January of year 1.\<close>

definition date_time :: "int \<Rightarrow> nat \<Rightarrow> int \<Rightarrow> time" where
  "date_time y m d =
     (let p = y - 1 in
      (365 * p + p div 4 - p div 100 + p div 400 + sum_list (map (days_in y) [1..<m]) + (d - 1)) * ns_day)"

definition two_digits :: "string \<Rightarrow> nat option" where
  "two_digits s = (case s of
     [a, b] \<Rightarrow> if 48 \<le> byte_of a \<and> byte_of a \<le> 57 \<and> 48 \<le> byte_of b \<and> byte_of b \<le> 57
       then Some (10 * (byte_of a - 48) + (byte_of b - 48)) else None
   | _ \<Rightarrow> None)"

text \<open>\<open>time.Parse("060102", ...)\<close>: two-digit years from 69 on are in the 1900s, and the day must exist in that year.\<close>

definition ExpiryDate :: "mrz \<Rightarrow> mrz_error + time" where
  "ExpiryDate m =
     (let s = mz_DateOfExpiry m in
      if length s \<noteq> 6 then Inl MrzExpiry
      else case (two_digits (slice s 0 2), two_digits (slice s 2 4), two_digits (slice s 4 6)) of
        (Some yy, Some mm, Some dd) \<Rightarrow>
          (let y = (if yy \<ge> 69 then 1900 else 2000) + int yy in
           if mm < 1 \<or> mm > 12 \<or> dd < 1 \<or> int dd > days_in y mm then Inl MrzExpiry
           else Inr (date_time (2000 + y mod 100) mm (int dd)))
      | _ \<Rightarrow> Inl MrzExpiry)"

definition Expired :: "mrz \<Rightarrow> time \<Rightarrow> mrz_error + bool" where
  "Expired m now = (case ExpiryDate m of Inl e \<Rightarrow> Inl e | Inr ex \<Rightarrow> Inr (now > ex + 24 * ns_hour))"

section \<open>What a check digit detects\<close>

lemma weighted_sum_acc:
  "weighted_sum s i acc = (case weighted_sum s i 0 of Inl e \<Rightarrow> Inl e | Inr n \<Rightarrow> Inr (acc + n))"
proof (induction s arbitrary: i acc)
  case (Cons c s)
  show ?case
  proof (cases "mrz_value c")
    case (Some v)
    then show ?thesis
      using Cons [of "i + 1" "acc + v * weights ! (i mod 3)"] Cons [of "i + 1" "v * weights ! (i mod 3)"]
      by (simp split: sum.split)
  qed simp
qed simp

lemma weighted_sum_append:
  "weighted_sum (s @ t) i 0 = (case weighted_sum s i 0 of Inl e \<Rightarrow> Inl e | Inr n \<Rightarrow>
     (case weighted_sum t (i + length s) 0 of Inl e \<Rightarrow> Inl e | Inr m \<Rightarrow> Inr (n + m)))"
proof (induction s arbitrary: i)
  case (Cons c s)
  show ?case
  proof (cases "mrz_value c")
    case (Some v)
    then show ?thesis
      using Cons [of "i + 1"] weighted_sum_acc [of "s @ t" "i + 1" "v * weights ! (i mod 3)"]
        weighted_sum_acc [of s "i + 1" "v * weights ! (i mod 3)"]
      by (simp split: sum.split)
  qed simp
qed (simp split: sum.split)

definition mrz_text :: "string \<Rightarrow> bool" where
  "mrz_text s \<longleftrightarrow> list_all (\<lambda>c. mrz_value c \<noteq> None) s"

definition char_value :: "char \<Rightarrow> nat" where
  "char_value c = (case mrz_value c of Some v \<Rightarrow> v | None \<Rightarrow> 0)"

definition weighted :: "string \<Rightarrow> nat \<Rightarrow> nat" where
  "weighted s i = (case weighted_sum s i 0 of Inr n \<Rightarrow> n | Inl _ \<Rightarrow> 0)"

lemma weighted_sum_text: "mrz_text s \<Longrightarrow> weighted_sum s i acc = Inr (acc + weighted s i)"
proof (induction s arbitrary: i acc)
  case (Cons c s)
  then obtain v where v: "mrz_value c = Some v" by (auto simp: mrz_text_def)
  have "mrz_text s" using Cons.prems by (simp add: mrz_text_def)
  then show ?case
    using Cons.IH [of "i + 1" "acc + v * weights ! (i mod 3)"] Cons.IH [of "i + 1" "v * weights ! (i mod 3)"] v
    by (simp add: weighted_def)
qed (simp add: weighted_def)

lemma weighted_Cons: "mrz_text (c # s) \<Longrightarrow> weighted (c # s) i = char_value c * weights ! (i mod 3) + weighted s (Suc i)"
  using weighted_sum_text [of "c # s" i 0] weighted_sum_text [of s "i + 1" "char_value c * weights ! (i mod 3)"]
  by (auto simp: mrz_text_def char_value_def weighted_def split: option.splits)

lemma weighted_append: "mrz_text (s @ t) \<Longrightarrow> weighted (s @ t) i = weighted s i + weighted t (i + length s)"
proof (induction s arbitrary: i)
  case (Cons c s)
  then show ?case by (simp add: weighted_Cons mrz_text_def)
qed (simp add: weighted_def)

lemma CheckDigit_text: "mrz_text s \<Longrightarrow> CheckDigit s = Inr (byte (48 + weighted s 0 mod 10))"
  using weighted_sum_text [of s 0 0] by (simp add: CheckDigit_def)

lemma digit_char_inj: "byte (48 + m mod 10) = byte (48 + n mod 10) \<longleftrightarrow> m mod 10 = n mod (10 :: nat)"
proof
  assume e: "byte (48 + m mod 10) = byte (48 + n mod 10)"
  have "m mod 10 < 10" "n mod 10 < 10" by simp_all
  then show "m mod 10 = n mod 10" using arg_cong [OF e, of "of_char :: char \<Rightarrow> nat"] by simp
qed simp

lemma weights_cases:
  "(weights ! (i mod 3), weights ! (Suc i mod 3)) \<in> {(7, 3), (3, 1), (1, 7)}"
proof -
  have "i mod 3 = 0 \<and> Suc i mod 3 = 1 \<or> i mod 3 = 1 \<and> Suc i mod 3 = 2 \<or> i mod 3 = 2 \<and> Suc i mod 3 = 0" by presburger
  then show ?thesis by (auto simp: weights_def)
qed

lemma mod_eq_dvd_int: "(x :: nat) mod k = y mod k \<longleftrightarrow> int k dvd int x - int y"
  by (metis mod_eq_dvd_iff of_nat_eq_iff zmod_int)

lemma dvd_weights:
  "(10 :: int) dvd d * 7 \<longleftrightarrow> 10 dvd d" "(10 :: int) dvd d * 3 \<longleftrightarrow> 10 dvd d"
  "(10 :: int) dvd d * 4 \<longleftrightarrow> 5 dvd d" "(10 :: int) dvd d * 2 \<longleftrightarrow> 5 dvd d" "(10 :: int) dvd d * 6 \<longleftrightarrow> 5 dvd d"
  by presburger+

lemma substitution_mod:
  assumes "w \<in> {7, 3, 1}"
  shows "(n + (a * w + m)) mod 10 = (n + (b * w + m)) mod 10 \<longleftrightarrow> a mod 10 = b mod (10 :: nat)"
proof -
  define d where "d = int a - int b"
  have e: "int (n + (a * w + m)) - int (n + (b * w + m)) = d * int w" by (simp add: d_def algebra_simps)
  show ?thesis using assms unfolding mod_eq_dvd_int e d_def [symmetric] by (auto simp: dvd_weights)
qed

lemma swap_mod:
  assumes "(w, w') \<in> {(7, 3), (3, 1), (1, 7)}"
  shows "(n + (a * w + (b * w' + m))) mod 10 = (n + (b * w + (a * w' + m))) mod 10 \<longleftrightarrow> a mod 5 = b mod (5 :: nat)"
proof -
  define d where "d = int a - int b"
  have e: "int (n + (a * w + (b * w' + m))) - int (n + (b * w + (a * w' + m))) = d * (int w - int w')"
    by (simp add: d_def algebra_simps)
  show ?thesis using assms unfolding mod_eq_dvd_int e d_def [symmetric] by (auto simp: dvd_weights)
qed

text \<open>A check digit detects every misread character, except between two whose values agree modulo 10 (such as 0 and A,
  or 0 and the filler), and every swap of neighbours whose values differ modulo 5.
\<close>

theorem check_digit_detects:
  assumes "mrz_text (s @ a # b # t)"
  shows "(CheckDigit (s @ a # t) = CheckDigit (s @ b # t) \<longleftrightarrow> char_value a mod 10 = char_value b mod 10) \<and>
    (CheckDigit (s @ a # b # t) = CheckDigit (s @ b # a # t) \<longleftrightarrow> char_value a mod 5 = char_value b mod 5)"
proof -
  have t: "mrz_text (s @ a # t)" "mrz_text (s @ b # t)" "mrz_text (s @ b # a # t)" "mrz_text (a # t)" "mrz_text (b # t)"
    "mrz_text (a # b # t)" "mrz_text (b # a # t)" "mrz_text t"
    using assms by (auto simp: mrz_text_def)
  have w: "weights ! (length s mod 3) \<in> {7, 3, 1}" using weights_cases [of "length s"] by auto
  show ?thesis
    using substitution_mod [OF w] swap_mod [OF weights_cases [of "length s"]] t assms
    by (simp add: CheckDigit_text digit_char_inj weighted_append weighted_Cons)
qed

theorem check_digit_detects_witness:
  "CheckDigit ''12345678'' \<noteq> CheckDigit ''12345687'' \<and> CheckDigit ''1234567'' = CheckDigit ''123456H''"
proof -
  have "mrz_text (''123456'' @ CHR ''7'' # CHR ''8'' # [])" "mrz_text (''123456'' @ CHR ''7'' # CHR ''H'' # [])" by code_simp+
  moreover have "char_value (CHR ''7'') = 7" "char_value (CHR ''8'') = 8" "char_value (CHR ''H'') = 17" by code_simp+
  ultimately show ?thesis
    using check_digit_detects [of "''123456''" "CHR ''7''" "CHR ''8''" "[]"]
      check_digit_detects [of "''123456''" "CHR ''7''" "CHR ''H''" "[]"] by simp
qed

section \<open>A passport's zone parses\<close>

definition check_of :: "string \<Rightarrow> char" where
  "check_of s = byte (48 + weighted s 0 mod 10)"

text \<open>The two lines of a TD3 document as ICAO 9303 lays them out.\<close>

definition print_TD3 ::
  "string \<Rightarrow> string \<Rightarrow> string \<Rightarrow> string \<Rightarrow> string \<Rightarrow> string \<Rightarrow> char \<Rightarrow> string \<Rightarrow> string \<Rightarrow> string" where
  "print_TD3 code state names num nation dob sex doe opt =
     (let number = num @ [check_of num]; birth = dob @ [check_of dob];
          rest = doe @ [check_of doe] @ opt @ [check_of opt]
      in code @ state @ names @ number @ nation @ birth @ [sex] @ rest @ [check_of (number @ birth @ rest)])"

lemma check_of_text: "mrz_value (check_of s) \<noteq> None"
  by (auto simp: check_of_def mrz_value_def Let_def)

lemma check_of_digit: "check_of s \<noteq> CHR ''<''"
proof
  assume "check_of s = CHR ''<''"
  then have "byte_of (check_of s) = 60" by simp
  moreover have "byte_of (check_of s) \<le> 57" by (simp add: check_of_def)
  ultimately show False by simp
qed

lemma checkField_check_of: "mrz_text s \<Longrightarrow> checkField s (check_of s) = None"
  by (simp add: checkField_def CheckDigit_text check_of_digit) (simp add: check_of_def)

lemma mrz_text_upper: "mrz_text s \<Longrightarrow> to_upper (filter (\<lambda>c. c \<notin> {byte 10, byte 13, byte 32}) s) = s"
proof (induction s)
  case (Cons c s)
  then have "mrz_value c \<noteq> None" "mrz_text s" by (simp_all add: mrz_text_def)
  then have "48 \<le> byte_of c" "byte_of c \<le> 90" by (auto simp: mrz_value_def Let_def split: if_splits)
  then have "c \<noteq> byte 10" "c \<noteq> byte 13" "c \<noteq> byte 32" "upper_char c = c" by (auto simp: upper_char_def)
  then show ?case using Cons \<open>mrz_text s\<close> by (simp add: to_upper_def)
qed (simp add: to_upper_def)

lemma slice_skip: "length xs \<le> a \<Longrightarrow> slice (xs @ ys) a b = slice ys (a - length xs) (b - length xs)"
  by (simp add: slice_def)

lemma slice_prefix: "slice (xs @ ys) 0 b = (if b \<le> length xs then take b xs else xs @ slice ys 0 (b - length xs))"
  by (simp add: slice_def)

lemma mrz_text_append [simp]: "mrz_text (s @ t) \<longleftrightarrow> mrz_text s \<and> mrz_text t"
  by (simp add: mrz_text_def)

lemma mrz_text_Cons [simp]: "mrz_text (c # s) \<longleftrightarrow> mrz_value c \<noteq> None \<and> mrz_text s"
  by (simp add: mrz_text_def)

lemma mrz_text_Nil [simp]: "mrz_text []"
  by (simp add: mrz_text_def)

text \<open>C35: The zone of a passport, printed as ICAO 9303 lays it out with its five check digits, parses to its fields, without the
  fillers at their ends, also when it comes with line breaks and blanks in between.
\<close>

theorem passport_zone_parses:
  assumes "length code = 2" "length state = 3" "length names = 39" "length num = 9" "length nation = 3"
    "length dob = 6" "length doe = 6" "length opt = 14"
    and chars: "mrz_text (code @ state @ names @ num @ nation @ dob @ [sex] @ doe @ opt)"
    and printed: "filter (\<lambda>c. c \<notin> {byte 10, byte 13, byte 32}) z = print_TD3 code state names num nation dob sex doe opt"
  shows "ParseMRZ z = Inr \<lparr>mz_DocumentCode = trimFiller code, mz_IssuingState = trimFiller state,
    mz_DocumentNumber = trimFiller num, mz_DateOfBirth = dob, mz_DateOfExpiry = doe\<rparr>"
proof -
  let ?l1 = "code @ state @ names"
  let ?a = "num @ [check_of num]" and ?b = "dob @ [check_of dob]" and ?c = "doe @ [check_of doe] @ opt @ [check_of opt]"
  let ?l2 = "?a @ nation @ ?b @ [sex] @ ?c @ [check_of (?a @ ?b @ ?c)]"
  let ?z = "print_TD3 code state names num nation dob sex doe opt"
  have z: "?z = ?l1 @ ?l2" by (simp add: print_TD3_def Let_def)
  have t: "mrz_text ?z" using chars check_of_text by (simp add: z)
  have len: "length ?l1 = 44" "length ?z = 88" using assms by (simp_all add: z)
  have l: "take 44 ?z = ?l1" "drop 44 ?z = ?l2" using len(1) by (simp_all add: z)
  have up: "to_upper (filter (\<lambda>c. c \<notin> {byte 10, byte 13, byte 32}) z) = ?z"
    using mrz_text_upper [OF t] unfolding printed [symmetric] filter_filter conj_absorb .
  have f: "slice ?l1 0 2 = code" "slice ?l1 2 5 = state" using assms by (simp_all add: slice_def)
  have g: "slice ?l2 0 9 = num" "slice ?l2 13 19 = dob" "slice ?l2 21 27 = doe" "slice ?l2 28 42 = opt"
      "slice ?l2 0 10 = ?a" "slice ?l2 13 20 = ?b" "slice ?l2 21 43 = ?c"
    using assms by (simp_all add: slice_def)
  have d: "?l2 ! 9 = check_of num" "?l2 ! 19 = check_of dob" "?l2 ! 27 = check_of doe" "?l2 ! 42 = check_of opt"
      "?l2 ! 43 = check_of (?a @ ?b @ ?c)"
    using assms by (simp_all add: nth_append)
  have m: "mrz_text num" "mrz_text dob" "mrz_text doe" "mrz_text opt" "mrz_text (?a @ ?b @ ?c)"
    using chars check_of_text by simp_all
  have n: "longNumber num (check_of num) (44 = (36 :: nat)) ext = Inr (num, check_of num)" for ext
    by (simp add: longNumber_def)
  have p: "parseTD23 ?z 44 = Inr \<lparr>mz_DocumentCode = trimFiller code, mz_IssuingState = trimFiller state,
    mz_DocumentNumber = trimFiller num, mz_DateOfBirth = dob, mz_DateOfExpiry = doe\<rparr>"
    unfolding parseTD23_def l Let_def f g d n using m by (simp add: checkField_check_of d(5) g del: append_assoc append.simps, simp)
  show ?thesis unfolding ParseMRZ_def Let_def up using p len(2) by simp
qed

definition specimen :: string where
  "specimen = print_TD3 ''P<'' ''UTO'' ''ERIKSSON<<ANNA<MARIA<<<<<<<<<<<<<<<<<<<'' ''L898902C3'' ''UTO'' ''740812''
     (CHR ''F'') ''120415'' ''ZE184226B<<<<<''"

theorem passport_zone_parses_witness:
  "ParseMRZ specimen = Inr \<lparr>mz_DocumentCode = ''P'', mz_IssuingState = ''UTO'', mz_DocumentNumber = ''L898902C3'',
     mz_DateOfBirth = ''740812'', mz_DateOfExpiry = ''120415''\<rparr> \<and>
   drop 44 specimen = ''L898902C36UTO7408122F1204159ZE184226B<<<<<10''"
proof
  let ?names = "''ERIKSSON<<ANNA<MARIA<<<<<<<<<<<<<<<<<<<''"
  have c: "mrz_text (''P<'' @ ''UTO'' @ ?names @ ''L898902C3'' @ ''UTO'' @ ''740812'' @ [CHR ''F''] @ ''120415'' @ ''ZE184226B<<<<<'')"
    by code_simp
  have f: "filter (\<lambda>c. c \<notin> {byte 10, byte 13, byte 32}) specimen = specimen" by code_simp
  have t: "trimFiller ''P<'' = ''P''" "trimFiller ''UTO'' = ''UTO''" "trimFiller ''L898902C3'' = ''L898902C3''" by code_simp+
  show "ParseMRZ specimen = Inr \<lparr>mz_DocumentCode = ''P'', mz_IssuingState = ''UTO'', mz_DocumentNumber = ''L898902C3'',
     mz_DateOfBirth = ''740812'', mz_DateOfExpiry = ''120415''\<rparr>"
    using passport_zone_parses [OF _ _ _ _ _ _ _ _ c, of specimen] f unfolding t specimen_def by simp
  show "drop 44 specimen = ''L898902C36UTO7408122F1204159ZE184226B<<<<<10''" by code_simp
qed

end
