(* ===== verification/Signed_Qr.thy ===== *)
theory Signed_Qr
  imports Codec
begin

text \<open>
  National ID cards with a signed QR code, \<open>src/src/methods/document-chip/signedqr/signedqr.go\<close>: decoding the digits,
  choosing the format, checking the authority's signature and deriving the key that makes a card unique. RSA, the
  decompressors and \<open>time.Parse\<close> with a format's layout are arguments. Format files come from the operator: their
  indices are taken as naturals (a negative one would panic).
\<close>

section \<open>Formats\<close>

datatype qr_error = QrFormatUnknown | QrInvalid | QrSignatureInvalid

definition maxQRDigits :: nat where "maxQRDigits = 8000"
definition maxInflated :: nat where "maxInflated = 65536"

record slice_spec =
  ss_Field :: string
  ss_From :: int
  ss_To :: int
  ss_PhotoSHA256 :: bool
  ss_Layout :: string

record 'key qr_cert =
  qc_NotBefore :: time
  qc_NotAfter :: time
  qc_Key :: 'key

record 'key qr_format =
  qf_ID :: string
  qf_Country :: string
  qf_Document :: string
  qf_Encoding :: string
  qf_Compression :: string
  qf_Placement :: string
  qf_SigLength :: int
  qf_Algorithm :: string
  qf_Delimiter :: int
  qf_DetectField :: nat
  qf_DetectOneOf :: "string list"
  qf_Fields :: "string \<rightharpoonup> nat"
  qf_PhotoAfterDelimiters :: nat
  qf_IndicatorField :: string
  qf_TrailingBytes :: "string \<rightharpoonup> nat"
  qf_SigningTime :: "slice_spec option"
  qf_Uniqueness :: "slice_spec list"
  qf_certs :: "'key qr_cert list"

text \<open>Whether \<open>validate\<close> accepts a format.\<close>

definition qr_validate :: "'key qr_format \<Rightarrow> bool" where
  "qr_validate f \<longleftrightarrow>
     \<not> (qf_ID f = '''' \<or> qf_Country f = '''' \<or> qf_Document f = '''') \<and>
     qf_Encoding f = ''decimal-bigint'' \<and>
     \<not> (qf_Compression f \<noteq> ''zlib-or-gzip'' \<and> qf_Compression f \<noteq> ''none'') \<and>
     \<not> (qf_Placement f \<noteq> ''trailing'' \<or> qf_SigLength f \<le> 0) \<and>
     qf_Algorithm f = ''rsa-pkcs1v15-sha256'' \<and>
     \<not> (qf_Delimiter f < 0 \<or> qf_Delimiter f > 255) \<and>
     qf_Uniqueness f \<noteq> [] \<and>
     list_all (\<lambda>u. ss_Field u = '''' \<or> qf_Fields f (ss_Field u) \<noteq> None)
       (qf_Uniqueness f @ (case qf_SigningTime f of None \<Rightarrow> [] | Some s \<Rightarrow> [s]))"

definition qr_IDs :: "'key qr_format list \<Rightarrow> string list" where
  "qr_IDs fs = map qf_ID fs"

record qr_result =
  qr_FormatID :: string
  qr_Country :: string
  qr_Document :: string
  qr_UniqueKey :: string
  qr_SignedAt :: time
  qr_Photo :: bytes

record 'key qr_env =
  qe_sha256 :: "bytes \<Rightarrow> bytes"
  qe_rsa :: "'key \<Rightarrow> bytes \<Rightarrow> bytes \<Rightarrow> bool"
  qe_gunzip :: "bytes \<Rightarrow> bytes option"
  qe_zlib :: "bytes \<Rightarrow> bytes option"
  qe_time :: "string \<Rightarrow> string \<Rightarrow> time option"

section \<open>Decoding\<close>

text \<open>\<open>big.Int.Bytes\<close>: big-endian, no leading zero.\<close>

fun nat_bytes :: "nat \<Rightarrow> bytes" where
  "nat_bytes n = (if n = 0 then [] else nat_bytes (n div 256) @ [byte (n mod 256)])"

declare nat_bytes.simps [simp del]

definition digit_char :: "char \<Rightarrow> bool" where
  "digit_char c \<longleftrightarrow> 48 \<le> byte_of c \<and> byte_of c \<le> 57"

definition decodeDecimal :: "string \<Rightarrow> qr_error + bytes" where
  "decodeDecimal text0 =
     (let qr = trim_space text0 in
      if qr = '''' \<or> length qr > maxQRDigits then Inl QrInvalid
      else if \<not> list_all digit_char qr then Inl QrFormatUnknown
      else Inr (nat_bytes (foldl (\<lambda>n c. n * 10 + (byte_of c - 48)) 0 qr)))"

definition qr_decompress :: "'key qr_env \<Rightarrow> 'key qr_format \<Rightarrow> bytes \<Rightarrow> bytes option" where
  "qr_decompress env f b =
     (if qf_Compression f = ''none'' then Some b
      else case (if length b > 2 \<and> b ! 0 = byte 0x1F \<and> b ! 1 = byte 0x8B then qe_gunzip env b else qe_zlib env b) of
        None \<Rightarrow> None
      | Some out \<Rightarrow> if length out > maxInflated then None else Some out)"

text \<open>\<open>bytes.Split\<close> on one byte.\<close>

fun split_bytes :: "char \<Rightarrow> bytes \<Rightarrow> bytes list" where
  "split_bytes d [] = [[]]"
| "split_bytes d (c # cs) =
     (if c = d then [] # split_bytes d cs
      else case split_bytes d cs of [] \<Rightarrow> [[c]] | f # fs \<Rightarrow> (c # f) # fs)"

definition delim :: "'key qr_format \<Rightarrow> char" where
  "delim f = byte (nat (qf_Delimiter f mod 256))"

definition qr_detects :: "'key qr_format \<Rightarrow> bytes list \<Rightarrow> bool" where
  "qr_detects f flds \<longleftrightarrow>
     (if qf_DetectField f \<ge> length flds then False
      else list_ex (\<lambda>want. flds ! qf_DetectField f = want) (qf_DetectOneOf f))"

text \<open>The first \<open>n\<close> fields and the offset after the \<open>n\<close>-th delimiter.\<close>

function splitLoop :: "bytes \<Rightarrow> char \<Rightarrow> nat \<Rightarrow> bytes list \<Rightarrow> nat \<Rightarrow> nat \<Rightarrow> bytes list \<times> nat" where
  "splitLoop b d n flds start i =
     (if i < length b \<and> length flds < n then
        (if b ! i = d then splitLoop b d n (flds @ [take (i - start) (drop start b)]) (i + 1) (i + 1)
         else splitLoop b d n flds start (i + 1))
      else (flds, start))"
  by auto
termination
  by (relation "measure (\<lambda>(b, d, n, flds, start, i). length b - i)") auto

declare splitLoop.simps [simp del]

definition splitFields :: "bytes \<Rightarrow> char \<Rightarrow> nat \<Rightarrow> (bytes list \<times> nat) option" where
  "splitFields b d n =
     (let (flds, start) = splitLoop b d n [] 0 0 in
      if length flds < n then None else Some (flds, start))"

definition qr_cut :: "string \<Rightarrow> int \<Rightarrow> int \<Rightarrow> string option" where
  "qr_cut s from to' =
     (if from < 0 \<or> to' > int (length s) \<or> from \<ge> to' then None
      else Some (take (nat to' - nat from) (drop (nat from) s)))"

section \<open>Verification\<close>

definition qr_field :: "'key qr_format \<Rightarrow> bytes list \<Rightarrow> string \<Rightarrow> string option" where
  "qr_field f flds name =
     (case qf_Fields f name of
        None \<Rightarrow> None
      | Some i \<Rightarrow> if i \<ge> length flds then None else Some (flds ! i))"

definition signing_time :: "'key qr_env \<Rightarrow> 'key qr_format \<Rightarrow> bytes list \<Rightarrow> time option" where
  "signing_time env f flds =
     (case qf_SigningTime f of
        None \<Rightarrow> Some 0
      | Some st \<Rightarrow>
          (case qr_field f flds (ss_Field st) of
             None \<Rightarrow> None
           | Some v \<Rightarrow> (case qr_cut v (ss_From st) (ss_To st) of
               None \<Rightarrow> None | Some v' \<Rightarrow> qe_time env (ss_Layout st) v')))"

definition cert_covers :: "time \<Rightarrow> 'key qr_cert \<Rightarrow> bool" where
  "cert_covers signedAt c \<longleftrightarrow>
     signedAt = 0 \<or> \<not> (signedAt < qc_NotBefore c - 24 * ns_hour \<or> signedAt > qc_NotAfter c + 24 * ns_hour)"

definition signature_ok :: "'key qr_env \<Rightarrow> 'key qr_format \<Rightarrow> time \<Rightarrow> bytes \<Rightarrow> bytes \<Rightarrow> bool" where
  "signature_ok env f signedAt body sig \<longleftrightarrow>
     list_ex (\<lambda>c. cert_covers signedAt c \<and> qe_rsa env (qc_Key c) (qe_sha256 env body) sig) (qf_certs f)"

definition trailing_bytes :: "'key qr_format \<Rightarrow> bytes list \<Rightarrow> nat option" where
  "trailing_bytes f flds =
     (if qf_IndicatorField f = '''' then Some 0
      else case qr_field f flds (qf_IndicatorField f) of
        None \<Rightarrow> None | Some ind \<Rightarrow> qf_TrailingBytes f ind)"

definition unique_part :: "'key qr_env \<Rightarrow> 'key qr_format \<Rightarrow> bytes list \<Rightarrow> bytes \<Rightarrow> slice_spec \<Rightarrow> bytes option" where
  "unique_part env f flds photo u =
     (if ss_PhotoSHA256 u then (if photo = [] then None else Some (qe_sha256 env photo))
      else case qr_field f flds (ss_Field u) of
        None \<Rightarrow> None
      | Some v \<Rightarrow>
          map_option (\<lambda>v'. to_upper (trim_space v'))
            (if ss_To u > 0 then qr_cut v (ss_From u) (ss_To u) else Some v))"

fun unique_text :: "(slice_spec \<Rightarrow> bytes option) \<Rightarrow> slice_spec list \<Rightarrow> bytes option" where
  "unique_text part [] = Some []"
| "unique_text part (u # us) =
     (case part u of
        None \<Rightarrow> None
      | Some p \<Rightarrow> map_option (\<lambda>rest. byte 0 # p @ rest) (unique_text part us))"

definition qr_verify :: "'key qr_env \<Rightarrow> 'key qr_format \<Rightarrow> bytes \<Rightarrow> qr_error + qr_result" where
  "qr_verify env f data =
     (if int (length data) \<le> qf_SigLength f then Inl QrInvalid
      else
        (let n = length data - nat (qf_SigLength f); body = take n data; sig = drop n data in
         case splitFields body (delim f) (qf_PhotoAfterDelimiters f) of
           None \<Rightarrow> Inl QrInvalid
         | Some (flds, photoStart) \<Rightarrow>
             (case signing_time env f flds of
                None \<Rightarrow> Inl QrInvalid
              | Some signedAt \<Rightarrow>
                  if \<not> signature_ok env f signedAt body sig then Inl QrSignatureInvalid
                  else case trailing_bytes f flds of
                    None \<Rightarrow> Inl QrInvalid
                  | Some tail \<Rightarrow>
                      if int photoStart > int (length body) - int tail then Inl QrInvalid
                      else
                        (let photo = take (length body - tail - photoStart) (drop photoStart body) in
                         case unique_text (unique_part env f flds photo) (qf_Uniqueness f) of
                           None \<Rightarrow> Inl QrInvalid
                         | Some txt \<Rightarrow> Inr
                             \<lparr>qr_FormatID = qf_ID f, qr_Country = qf_Country f, qr_Document = qf_Document f,
                              qr_UniqueKey = qf_Country f @ ''-'' @ qf_Document f @ '':'' @
                                hex_encode (qe_sha256 env (''personhood/signedqr-unique/v1'' @ txt)),
                              qr_SignedAt = signedAt, qr_Photo = photo\<rparr>))))"

fun tryFormats :: "'key qr_env \<Rightarrow> 'key qr_format list \<Rightarrow> bytes \<Rightarrow> string \<Rightarrow> qr_error \<Rightarrow> qr_error + qr_result" where
  "tryFormats env [] payload formatID lastErr = Inl lastErr"
| "tryFormats env (f # fs) payload formatID lastErr =
     (if formatID \<noteq> '''' \<and> qf_ID f \<noteq> formatID then tryFormats env fs payload formatID lastErr
      else case qr_decompress env f payload of
        None \<Rightarrow> tryFormats env fs payload formatID lastErr
      | Some data \<Rightarrow>
          if \<not> qr_detects f (split_bytes (delim f) data) then tryFormats env fs payload formatID lastErr
          else case qr_verify env f data of
            Inr res \<Rightarrow> Inr res
          | Inl e \<Rightarrow> tryFormats env fs payload formatID e)"

definition qr_Verify :: "'key qr_env \<Rightarrow> 'key qr_format list \<Rightarrow> string \<Rightarrow> string \<Rightarrow> qr_error + qr_result" where
  "qr_Verify env fs qr formatID =
     (case decodeDecimal qr of Inl e \<Rightarrow> Inl e | Inr payload \<Rightarrow> tryFormats env fs payload formatID QrFormatUnknown)"

section \<open>What an accepted card establishes\<close>

lemma qr_verify_Inr:
  assumes "qr_verify env f data = Inr res"
  obtains body sig where "data = body @ sig" "int (length sig) = qf_SigLength f \<or> qf_SigLength f \<le> 0"
    "signature_ok env f (qr_SignedAt res) body sig"
    "qr_UniqueKey res = qf_Country f @ ''-'' @ qf_Document f @ '':'' @ drop (length (qf_Country f @ ''-'' @ qf_Document f @ '':'')) (qr_UniqueKey res)"
    "qr_FormatID res = qf_ID f"
proof -
  let ?n = "length data - nat (qf_SigLength f)"
  have l: "qf_SigLength f < int (length data)"
    using assms by (auto simp: qr_verify_def Let_def split: if_splits)
  show ?thesis
  proof (rule that [of "take ?n data" "drop ?n data"])
    show "int (length (drop ?n data)) = qf_SigLength f \<or> qf_SigLength f \<le> 0" using l by auto
  qed (use assms l in \<open>auto simp: qr_verify_def Let_def split: if_splits option.splits prod.splits\<close>)
qed

lemma tryFormats_Inr:
  "tryFormats env fs payload formatID e = Inr res \<Longrightarrow>
     \<exists>f \<in> set fs. \<exists>data. (formatID = '''' \<or> qf_ID f = formatID) \<and> qr_decompress env f payload = Some data \<and>
       qr_detects f (split_bytes (delim f) data) \<and> qr_verify env f data = Inr res"
  by (induction env fs payload formatID e rule: tryFormats.induct)
    (auto split: if_splits option.splits sum.splits)

text \<open>Only the signed part of a card enters the result: the signature bytes do not.\<close>

lemma qr_verify_same_body:
  assumes "qr_verify env f (body @ sig) = Inr r" "qr_verify env f (body @ sig') = Inr r'" "length sig = length sig'"
    and "int (length sig) = qf_SigLength f"
  shows "r = r'"
proof -
  have n: "length (body @ s) - nat (qf_SigLength f) = length body" if "length s = length sig" for s
    using that assms(4) by auto
  show ?thesis
    using assms(1,2) n [of sig] n [of sig'] assms(3)
    by (auto simp: qr_verify_def Let_def split: if_splits option.splits prod.splits)
qed

text \<open>C23: A QR text is accepted only for a registered format, the one the client named if it named one, and only when what it
  decompresses to is a signed part followed by a signature of the length of that format that verifies over just that part under
  a key of that format's authority valid at the card's signing time. The answer is the one for that part: the same part with
  any other signature of that length, also in another QR text that decompresses to it, gets the same unique key
  and the same answer or none, so that recompressing a card or finding a second valid signature does not make a second identity of it.
\<close>

theorem signed_card_one_identity:
  assumes "qr_Verify env fs qr formatID = Inr res" "list_all qr_validate fs"
  shows "\<exists>f \<in> set fs. \<exists>payload body sig c. (formatID = '''' \<or> qf_ID f = formatID) \<and> qr_FormatID res = qf_ID f \<and>
    decodeDecimal qr = Inr payload \<and> qr_decompress env f payload = Some (body @ sig) \<and>
    qr_verify env f (body @ sig) = Inr res \<and> int (length sig) = qf_SigLength f \<and> c \<in> set (qf_certs f) \<and> cert_covers (qr_SignedAt res) c \<and>
    qe_rsa env (qc_Key c) (qe_sha256 env body) sig \<and>
    (\<forall>sig' res'. length sig' = length sig \<longrightarrow> qr_verify env f (body @ sig') = Inr res' \<longrightarrow> res' = res)"
proof -
  obtain payload where p: "decodeDecimal qr = Inr payload" "tryFormats env fs payload formatID QrFormatUnknown = Inr res"
    using assms(1) by (auto simp: qr_Verify_def split: sum.splits)
  obtain f data where f: "f \<in> set fs" "formatID = '''' \<or> qf_ID f = formatID" "qr_verify env f data = Inr res"
      "qr_decompress env f payload = Some data"
    using tryFormats_Inr [OF p(2)] by blast
  have pos: "qf_SigLength f > 0" using assms(2) f(1) by (auto simp: list_all_iff qr_validate_def)
  obtain body sig where b: "data = body @ sig" "int (length sig) = qf_SigLength f \<or> qf_SigLength f \<le> 0"
      "signature_ok env f (qr_SignedAt res) body sig" "qr_FormatID res = qf_ID f"
    by (rule qr_verify_Inr [OF f(3)])
  have s: "int (length sig) = qf_SigLength f" using b(2) pos by simp
  then have "\<forall>sig' res'. length sig' = length sig \<longrightarrow> qr_verify env f (body @ sig') = Inr res' \<longrightarrow> res' = res"
    using qr_verify_same_body [OF f(3) [unfolded b(1)]] by metis
  then show ?thesis using p(1) f(1,2) f(3,4) [unfolded b(1)] b(3,4) s unfolding signature_ok_def list_ex_iff by blast
qed

definition sample_format :: "unit qr_format" where
  "sample_format = \<lparr>qf_ID = ''f'', qf_Country = ''IN'', qf_Document = ''card'', qf_Encoding = ''decimal-bigint'',
     qf_Compression = ''none'', qf_Placement = ''trailing'', qf_SigLength = 1, qf_Algorithm = ''rsa-pkcs1v15-sha256'',
     qf_Delimiter = 255, qf_DetectField = 0, qf_DetectOneOf = [''A''], qf_Fields = [''u'' \<mapsto> 0],
     qf_PhotoAfterDelimiters = 1, qf_IndicatorField = '''', qf_TrailingBytes = Map.empty, qf_SigningTime = None,
     qf_Uniqueness = [\<lparr>ss_Field = ''u'', ss_From = 0, ss_To = 0, ss_PhotoSHA256 = False, ss_Layout = ''''\<rparr>],
     qf_certs = [\<lparr>qc_NotBefore = 0, qc_NotAfter = 0, qc_Key = ()\<rparr>]\<rparr>"

definition sample_qr_env :: "unit qr_env" where
  "sample_qr_env = \<lparr>qe_sha256 = (\<lambda>b. b), qe_rsa = (\<lambda>_ _ s. s = ''s''), qe_gunzip = (\<lambda>_. None), qe_zlib = (\<lambda>_. None),
     qe_time = (\<lambda>_ _. None)\<rparr>"

theorem signed_card_one_identity_witness:
  "\<exists>res. qr_Verify sample_qr_env [sample_format] ''4325235'' ''f'' = Inr res \<and> qr_FormatID res = ''f'' \<and>
     (\<exists>body sig. qr_decompress sample_qr_env sample_format [byte 65, byte 255, byte 115] = Some (body @ sig) \<and> length sig = 1 \<and>
        qe_rsa sample_qr_env () (qe_sha256 sample_qr_env body) sig)"
proof -
  have t: "trim_space ''4325235'' = ''4325235''" by code_simp
  have d: "decodeDecimal ''4325235'' = Inr [byte 65, byte 255, byte 115]"
    unfolding decodeDecimal_def t by (simp add: Let_def maxQRDigits_def digit_char_def nat_bytes.simps)
  have "\<not> isl (tryFormats sample_qr_env [sample_format] [byte 65, byte 255, byte 115] ''f'' QrFormatUnknown)" by code_simp
  then have "\<not> isl (qr_Verify sample_qr_env [sample_format] ''4325235'' ''f'')"
    unfolding qr_Verify_def d sum.case .
  then obtain res where r: "qr_Verify sample_qr_env [sample_format] ''4325235'' ''f'' = Inr res"
    by (cases "qr_Verify sample_qr_env [sample_format] ''4325235'' ''f''") auto
  have "list_all qr_validate [sample_format]" by code_simp
  from signed_card_one_identity [OF r this] obtain f payload body sig c where w: "f \<in> set [sample_format]" "qr_FormatID res = qf_ID f"
      "decodeDecimal ''4325235'' = Inr payload" "qr_decompress sample_qr_env f payload = Some (body @ sig)"
      "int (length sig) = qf_SigLength f" "c \<in> set (qf_certs f)" "qe_rsa sample_qr_env (qc_Key c) (qe_sha256 sample_qr_env body) sig"
    by blast
  have f: "f = sample_format" using w(1) by simp
  have "payload = [byte 65, byte 255, byte 115]" using w(3) d by simp
  moreover have "qr_FormatID res = ''f''" "length sig = 1" "qe_rsa sample_qr_env () (qe_sha256 sample_qr_env body) sig"
    using f w(2,5-7) by (simp_all add: sample_format_def)
  ultimately show ?thesis using r f w(4) by blast
qed

end
