(* ===== verification/Document_Chip.thy ===== *)
theory Document_Chip
  imports Mrz Signed_Qr Selfie_Accumulator Vouching Identifier_Model
begin

text \<open>
  The document anchors, \<open>src/src/methods/document-chip/method.go\<close> and \<open>support.go\<close>, with the data-group part of
  \<open>icao/sod.go\<close>: an ePassport chip and a signed QR card. CMS, X.509 and the signature algorithms of the \<open>icao\<close>
  package are the arguments of \<open>chip_env\<close>, as is the issuer's answer whether it knows an identifier. The state is
  the open challenges, the face index (an \<open>accumulator\<close>) and the review queue.
\<close>

section \<open>Data\<close>

record review_case =
  rc_ID :: string
  rc_SessionID :: string
  rc_MethodID :: string
  rc_MatchedFaceID :: string
  rc_DocumentCountry :: string
  rc_CreatedAt :: time

record ('a, 'q) doc_state =
  ds_challenges :: "string \<rightharpoonup> bytes \<times> time"
  ds_faces :: 'a
  ds_queue :: 'q

datatype doc_error =
    DeSession | DeRandom | DeFaceLookup accumulator_error | DeKnown string | DeReview string
  | DeGen fuzzy_error | DeFaceAdd accumulator_error

record doc_config =
  dc_AllowPassiveOnly :: bool
  dc_FaceBindURL :: string
  dc_Faces :: bool
  dc_Reviews :: bool

definition ChipMethodID :: string where "ChipMethodID = ''document-chip''"
definition QRMethodID :: string where "QRMethodID = ''document-signed-qr''"
definition challengeTTL :: duration where "challengeTTL = 10 * ns_minute"
definition maxSOD :: nat where "maxSOD = 65536"
definition maxDG1 :: nat where "maxDG1 = 1024"
definition maxDGxx :: nat where "maxDGxx = 16384"
definition maxQR :: nat where "maxQR = 8192"

text \<open>The in-memory queue.\<close>

definition mem_queue_Add :: "review_case \<Rightarrow> (review_case list, string, unit) comp" where
  "mem_queue_Add c q = (Inr (), q @ [c])"

definition mem_queue_List :: "review_case list \<Rightarrow> review_case list" where
  "mem_queue_List q = [] @ q"

section \<open>Challenges\<close>

definition challenge_put ::
  "string \<Rightarrow> bytes \<Rightarrow> time \<Rightarrow> (string \<rightharpoonup> bytes \<times> time) \<Rightarrow> (string \<rightharpoonup> bytes \<times> time)" where
  "challenge_put sid nonce now m =
     (\<lambda>k. case m k of None \<Rightarrow> None | Some (n, t) \<Rightarrow> if sub_time now t > challengeTTL then None else Some (n, t))
       (sid \<mapsto> (nonce, now))"

definition challenge_take ::
  "string \<Rightarrow> time \<Rightarrow> (string \<rightharpoonup> bytes \<times> time) \<Rightarrow> bytes option \<times> (string \<rightharpoonup> bytes \<times> time)" where
  "challenge_take sid now m =
     ((case m sid of None \<Rightarrow> None | Some (n, t) \<Rightarrow> if sub_time now t > challengeTTL then None else Some n),
      m(sid := None))"

section \<open>The face check\<close>

fun parseFaceBind :: "json_value option \<Rightarrow> (bool \<times> bool) option" where
  "parseFaceBind (Some (JObject raw)) =
     (case (map_of raw ''match'', map_of raw ''liveness'') of
        (Some (JBool m), Some (JBool l)) \<Rightarrow> Some (m, l) | _ \<Rightarrow> None)"
| "parseFaceBind _ = None"

definition text_field :: "json_object \<Rightarrow> string \<Rightarrow> string" where
  "text_field p key = (case map_of p key of Some (JString s) \<Rightarrow> s | _ \<Rightarrow> '''')"

text \<open>\<open>Inr None\<close> is no template.\<close>

definition faceTemplate :: "json_object \<Rightarrow> unit + octet list option" where
  "faceTemplate p =
     (let s = text_field p ''face_template_b64'' in
      if trim_space s = '''' then Inr None
      else case Std_decode (trim_space s) of
        None \<Rightarrow> Inl ()
      | Some b \<Rightarrow> if length b \<noteq> TemplateBytes then Inl () else Inr (Some (bytes_octets b)))"

text \<open>\<open>DecodedLen\<close> of padded base64 is three bytes for every four characters.\<close>

definition b64Field :: "json_object \<Rightarrow> string \<Rightarrow> nat \<Rightarrow> unit + bytes option" where
  "b64Field p key mx =
     (let s = trim_space (text_field p key) in
      if s = '''' then Inr None
      else if length s div 4 * 3 > mx then Inl ()
      else case Std_decode s of None \<Rightarrow> Inl () | Some b \<Rightarrow> Inr (Some b))"

definition on_faces :: "('a, 'e, 'b) comp \<Rightarrow> (('a, 'q) doc_state, 'e, 'b) comp" where
  "on_faces m s = (case m (ds_faces s) of (r, a) \<Rightarrow> (r, s\<lparr>ds_faces := a\<rparr>))"

definition on_queue :: "('q, 'e, 'b) comp \<Rightarrow> (('a, 'q) doc_state, 'e, 'b) comp" where
  "on_queue m s = (case m (ds_queue s) of (r, q) \<Rightarrow> (r, s\<lparr>ds_queue := q\<rparr>))"

text \<open>What the method finds outside: the stores, whether an identifier is known, randomness and the clock.\<close>

record ('a, 'q) doc_env =
  de_crypto :: crypto
  de_find :: "crypto \<Rightarrow> octet list \<Rightarrow> ('a, accumulator_error, enrollment_record option) comp"
  de_add :: "enrollment_record \<Rightarrow> ('a, accumulator_error, unit) comp"
  de_review :: "review_case \<Rightarrow> ('q, string, unit) comp"
  de_known :: "(string \<Rightarrow> string + bool) option"
  de_rand :: "(octet \<times> octet \<times> octet) option"
  de_caseID :: string
  de_now :: time

definition checkFace ::
  "doc_config \<Rightarrow> ('a, 'q) doc_env \<Rightarrow> string \<Rightarrow> string \<Rightarrow> string \<Rightarrow> string \<Rightarrow> json_object \<Rightarrow>
   (('a, 'q) doc_state, doc_error, string) comp" where
  "checkFace cfg env methodID sid identifier country p =
     (case parseFaceBind (map_of p ''face_bind'') of
        None \<Rightarrow> ret ''face_bind_missing''
      | Some (m, l) \<Rightarrow>
          if \<not> m \<or> \<not> l then ret ''face_bind_failed''
          else case faceTemplate p of
            Inl _ \<Rightarrow> ret ''face_template_invalid''
          | Inr None \<Rightarrow> ret ''''
          | Inr (Some tmpl) \<Rightarrow>
              if \<not> dc_Faces cfg then ret ''''
              else andThen (onError DeFaceLookup (on_faces (de_find env (de_crypto env) tmpl))) (\<lambda>found.
                case found of
                  Some rec \<Rightarrow>
                    (case (case de_known env of None \<Rightarrow> Inr False | Some f \<Rightarrow> f identifier) of
                       Inl e \<Rightarrow> throw (DeKnown e)
                     | Inr known \<Rightarrow>
                         if \<not> known \<and> dc_Reviews cfg then
                           andThen (onError DeReview (on_queue (de_review env
                             \<lparr>rc_ID = de_caseID env, rc_SessionID = sid, rc_MethodID = methodID,
                              rc_MatchedFaceID = hex_encode (er_Commitment rec), rc_DocumentCountry = country,
                              rc_CreatedAt = de_now env\<rparr>))) (\<lambda>_. ret '''')
                         else ret '''')
                | None \<Rightarrow>
                    (case Gen (de_crypto env) (de_rand env) tmpl of
                       Inl e \<Rightarrow> throw (DeGen e)
                     | Inr (helper, c) \<Rightarrow>
                         andThen (onError DeFaceAdd (on_faces (de_add env
                           \<lparr>er_Helper = helper, er_Commitment = c, er_EnrolledAt = de_now env\<rparr>))) (\<lambda>_. ret ''''))))"

definition digestOf :: "crypto \<Rightarrow> string list \<Rightarrow> string" where
  "digestOf cr parts = sha256_hex cr (concat (map (\<lambda>p. p @ [byte 0]) parts))"

section \<open>The security object of a chip\<close>

datatype chip_error = ErrUnsupportedAlgorithm | ErrUntrusted | ErrSOD

fun chipReason :: "chip_error \<Rightarrow> string" where
  "chipReason ErrUnsupportedAlgorithm = ''signature_unsupported''"
| "chipReason ErrUntrusted = ''csca_untrusted''"
| "chipReason ErrSOD = ''sod_invalid''"

record certificate =
  ct_Country :: string
  ct_Raw :: bytes

record 'msg sod =
  so_msg :: 'msg
  so_hashAlg :: string
  so_dgHashes :: "int \<rightharpoonup> bytes"

text \<open>
  \<open>ch_signed\<close> is CMS parsing with the content type, the \<open>LDSSecurityObject\<close> and its hash algorithm;
  \<open>ch_signer\<close>, \<open>ch_chain\<close> and \<open>ch_verify\<close> are \<open>SignerCertificate\<close>, \<open>TrustStore.Chain\<close> and \<open>VerifySigner\<close>;
  \<open>ch_active\<close> is \<open>VerifyActiveAuth\<close>, called with the key file, the algorithm file, the challenge and the response.
\<close>

record 'msg chip_env =
  ch_signed :: "bytes \<Rightarrow> chip_error + 'msg \<times> string \<times> (int \<times> bytes) list"
  ch_signer :: "'msg \<Rightarrow> certificate option"
  ch_chain :: "certificate \<Rightarrow> chip_error + certificate"
  ch_verify :: "'msg \<Rightarrow> certificate \<Rightarrow> chip_error option"
  ch_digest :: "string \<Rightarrow> bytes \<Rightarrow> bytes"
  ch_active :: "bytes \<Rightarrow> bytes option \<Rightarrow> bytes \<Rightarrow> bytes \<Rightarrow> bool"

fun collectGroups :: "(int \<times> bytes) list \<Rightarrow> (int \<rightharpoonup> bytes) \<Rightarrow> (int \<rightharpoonup> bytes) option" where
  "collectGroups [] m = Some m"
| "collectGroups ((n, h) # dgs) m = (if n < 1 \<or> n > 16 then None else collectGroups dgs (m(n \<mapsto> h)))"

definition ParseSOD :: "'msg chip_env \<Rightarrow> bytes \<Rightarrow> chip_error + 'msg sod" where
  "ParseSOD ch raw =
     (case asn1_raw raw of
        None \<Rightarrow> Inl ErrSOD
      | Some (cls, tag, body) \<Rightarrow>
          if cls \<noteq> 1 \<or> tag \<noteq> 23 then Inl ErrSOD
          else case ch_signed ch body of
            Inl e \<Rightarrow> Inl e
          | Inr (msg, alg, dgs) \<Rightarrow>
              (case collectGroups dgs Map.empty of
                 None \<Rightarrow> Inl ErrSOD
               | Some m \<Rightarrow> Inr \<lparr>so_msg = msg, so_hashAlg = alg, so_dgHashes = m\<rparr>))"

definition HasDataGroup :: "'msg sod \<Rightarrow> int \<Rightarrow> bool" where
  "HasDataGroup s n \<longleftrightarrow> so_dgHashes s n \<noteq> None"

definition CheckDataGroup :: "'msg chip_env \<Rightarrow> 'msg sod \<Rightarrow> int \<Rightarrow> bytes \<Rightarrow> bool" where
  "CheckDataGroup ch s n file =
     (case so_dgHashes s n of None \<Rightarrow> False | Some want \<Rightarrow> ch_digest ch (so_hashAlg s) file = want)"

text \<open>The country that namespaces the document, and the document signer.\<close>

definition VerifySignature :: "'msg chip_env \<Rightarrow> 'msg sod \<Rightarrow> chip_error + string \<times> certificate" where
  "VerifySignature ch s =
     (case ch_signer ch (so_msg s) of
        None \<Rightarrow> Inl ErrSOD
      | Some dsc \<Rightarrow>
          (case ch_chain ch dsc of
             Inl e \<Rightarrow> Inl e
           | Inr csca \<Rightarrow>
               (case ch_verify ch (so_msg s) dsc of
                  Some e \<Rightarrow> Inl (if e = ErrUnsupportedAlgorithm then e else ErrSOD)
                | None \<Rightarrow>
                    (let country = (if ct_Country csca = '''' then ct_Country dsc else ct_Country csca) in
                     if country = '''' then Inl ErrUntrusted else Inr (country, dsc)))))"

definition ChipIdentifier :: "crypto \<Rightarrow> string \<Rightarrow> string \<Rightarrow> string" where
  "ChipIdentifier cr country documentNumber =
     (let n = to_upper (remove_byte (trim_space documentNumber) (CHR ''<'')) in
      ''chip:'' @ to_upper country @ '':'' @
      sha256_hex cr (''personhood/document-number/v1'' @ [byte 0] @ to_upper country @ [byte 0] @ n))"

section \<open>The chip ceremony\<close>

definition chip_Metadata :: "doc_config \<Rightarrow> method_metadata" where
  "chip_Metadata cfg =
     \<lparr>md_ID = ChipMethodID, md_Type = MethodTypeAnchor, md_Strength = (if dc_AllowPassiveOnly cfg then 70 else 80),
      md_CostUSD = 0, md_UXFriction = ''low'', md_PlatformRequirements = [], md_FreshnessLifetime = 365 * 24 * ns_hour,
      md_Version = ''0.1.0''\<rparr>"

definition doc_IsAvailableForUser :: "string \<Rightarrow> bool" where
  "doc_IsAvailableForUser platform \<longleftrightarrow> to_lower (trim_space platform) \<notin> {''web'', ''kiosk''}"

text \<open>\<open>nonce\<close> is eight random bytes, or the failure of \<open>rand.Read\<close>.\<close>

definition chip_BeginCeremony ::
  "doc_config \<Rightarrow> time \<Rightarrow> bytes option \<Rightarrow> string \<Rightarrow> (('a, 'q) doc_state, doc_error, challenge_data) comp" where
  "chip_BeginCeremony cfg now nonce sid s =
     (if sid = '''' then (Inl DeSession, s)
      else case nonce of
        None \<Rightarrow> (Inl DeRandom, s)
      | Some n \<Rightarrow>
          (Inr \<lparr>ch_Type = ''document-chip-challenge'', ch_Payload =
             [(''aa_challenge_hex'', JString (hex_encode n)), (''face_bind_url'', JString (dc_FaceBindURL cfg)),
              (''require_active_auth'', JBool (\<not> dc_AllowPassiveOnly cfg)),
              (''complete_endpoint'', JString (''/v1/methods/'' @ ChipMethodID @ ''/complete''))]\<rparr>,
           s\<lparr>ds_challenges := challenge_put sid n now (ds_challenges s)\<rparr>))"

text \<open>
  What the completion checks on the files before it looks at the face: the reason it fails for, or the country, the
  identifier, the document signer and the outcome of Active Authentication.
\<close>

definition active_auth ::
  "doc_config \<Rightarrow> 'msg chip_env \<Rightarrow> 'msg sod \<Rightarrow> bytes \<Rightarrow> bytes option \<Rightarrow> bytes option \<Rightarrow> bytes option \<Rightarrow> string + string" where
  "active_auth cfg ch s challenge dg14 dg15 aaSig =
     (if HasDataGroup s 15 then
        (case (dg15, aaSig) of
           (Some key, Some sig) \<Rightarrow>
             if \<not> CheckDataGroup ch s 15 key then Inl ''dg_hash_mismatch''
             else if (case dg14 of None \<Rightarrow> False | Some alg \<Rightarrow> \<not> CheckDataGroup ch s 14 alg) then Inl ''dg_hash_mismatch''
             else if \<not> ch_active ch key dg14 challenge sig then Inl ''active_auth_failed''
             else Inr ''verified''
         | _ \<Rightarrow> Inl ''active_auth_missing'')
      else if \<not> dc_AllowPassiveOnly cfg then Inl ''active_auth_unavailable''
      else Inr ''none'')"

definition chip_files ::
  "doc_config \<Rightarrow> crypto \<Rightarrow> 'msg chip_env \<Rightarrow> time \<Rightarrow> bytes \<Rightarrow> json_object \<Rightarrow>
   string + string \<times> string \<times> certificate \<times> string" where
  "chip_files cfg cr ch now challenge p =
     (case (b64Field p ''sod_b64'' maxSOD, b64Field p ''dg1_b64'' maxDG1, b64Field p ''dg14_b64'' maxDGxx,
            b64Field p ''dg15_b64'' maxDGxx, b64Field p ''aa_signature_b64'' maxDGxx) of
        (Inr (Some sodRaw), Inr (Some dg1), Inr dg14, Inr dg15, Inr aaSig) \<Rightarrow>
          (case ParseSOD ch sodRaw of
             Inl e \<Rightarrow> Inl (chipReason e)
           | Inr s \<Rightarrow>
               (case VerifySignature ch s of
                  Inl e \<Rightarrow> Inl (chipReason e)
                | Inr (country, dsc) \<Rightarrow>
                    if \<not> CheckDataGroup ch s 1 dg1 then Inl ''dg_hash_mismatch''
                    else case ParseDG1 dg1 of
                      Inl _ \<Rightarrow> Inl ''mrz_invalid''
                    | Inr m \<Rightarrow>
                        (case Expired m now of
                           Inl _ \<Rightarrow> Inl ''mrz_invalid''
                         | Inr True \<Rightarrow> Inl ''document_expired''
                         | Inr False \<Rightarrow>
                             (case active_auth cfg ch s challenge dg14 dg15 aaSig of
                                Inl reason \<Rightarrow> Inl reason
                              | Inr aa \<Rightarrow> Inr (country, ChipIdentifier cr country (mz_DocumentNumber m), dsc, aa)))))
      | _ \<Rightarrow> Inl ''sod_invalid'')"

definition doc_result :: "string \<Rightarrow> time \<Rightarrow> string \<Rightarrow> string \<Rightarrow> method_result" where
  "doc_result mid now digest identifier =
     \<lparr>mr_Success = True, mr_MethodID = mid, mr_VerifiedAt = now, mr_AttestationDigest = digest,
      mr_ErrorReason = '''', mr_VerifiedIdentifier = identifier\<rparr>"

definition takes_challenge :: "string \<Rightarrow> time \<Rightarrow> (('a, 'q) doc_state, doc_error, bytes option) comp" where
  "takes_challenge sid now s =
     (case challenge_take sid now (ds_challenges s) of (c, m) \<Rightarrow> (Inr c, s\<lparr>ds_challenges := m\<rparr>))"

definition chip_CompleteCeremony ::
  "doc_config \<Rightarrow> ('a, 'q) doc_env \<Rightarrow> 'msg chip_env \<Rightarrow> string \<Rightarrow> json_object \<Rightarrow>
   (('a, 'q) doc_state, doc_error, method_result) comp" where
  "chip_CompleteCeremony cfg env ch sid p =
     (if sid = '''' then ret (failed_result ChipMethodID ''missing_session_id'')
      else andThen (takes_challenge sid (de_now env)) (\<lambda>c.
        case c of
          None \<Rightarrow> ret (failed_result ChipMethodID ''no_challenge_issued'')
        | Some challenge \<Rightarrow>
            (case chip_files cfg (de_crypto env) ch (de_now env) challenge p of
               Inl reason \<Rightarrow> ret (failed_result ChipMethodID reason)
             | Inr (country, identifier, dsc, aa) \<Rightarrow>
                 andThen (checkFace cfg env ChipMethodID sid identifier country p) (\<lambda>reason.
                   ret (if reason \<noteq> '''' then failed_result ChipMethodID reason
                        else doc_result ChipMethodID (de_now env)
                          (digestOf (de_crypto env) [sid, country, hex_encode (c_sha256 (de_crypto env) (ct_Raw dsc)), aa])
                          identifier)))))"

section \<open>The QR ceremony\<close>

definition QR_Metadata :: method_metadata where
  "QR_Metadata =
     \<lparr>md_ID = QRMethodID, md_Type = MethodTypeAnchor, md_Strength = 60, md_CostUSD = 0, md_UXFriction = ''low'',
      md_PlatformRequirements = [], md_FreshnessLifetime = 365 * 24 * ns_hour, md_Version = ''0.1.0''\<rparr>"

definition QR_BeginCeremony :: "doc_config \<Rightarrow> 'key qr_format list \<Rightarrow> string \<Rightarrow> doc_error + challenge_data" where
  "QR_BeginCeremony cfg formats sid =
     (if sid = '''' then Inl DeSession
      else Inr \<lparr>ch_Type = ''document-signed-qr-challenge'', ch_Payload =
        [(''formats'', JList (map JString (qr_IDs formats))), (''face_bind_url'', JString (dc_FaceBindURL cfg)),
         (''complete_endpoint'', JString (''/v1/methods/'' @ QRMethodID @ ''/complete''))]\<rparr>)"

fun qrReason :: "qr_error \<Rightarrow> string" where
  "qrReason QrSignatureInvalid = ''qr_signature_invalid''"
| "qrReason QrFormatUnknown = ''qr_format_unknown''"
| "qrReason QrInvalid = ''qr_invalid''"

text \<open>\<open>rfc3339\<close> prints the signing time.\<close>

definition QR_CompleteCeremony ::
  "doc_config \<Rightarrow> ('a, 'q) doc_env \<Rightarrow> 'key qr_env \<Rightarrow> 'key qr_format list \<Rightarrow> (time \<Rightarrow> string) \<Rightarrow> string \<Rightarrow> json_object \<Rightarrow>
   (('a, 'q) doc_state, doc_error, method_result) comp" where
  "QR_CompleteCeremony cfg env qe formats rfc3339 sid p =
     (if sid = '''' then ret (failed_result QRMethodID ''missing_session_id'')
      else
        (let qr = text_field p ''qr_text'' in
         if trim_space qr = '''' \<or> length qr > maxQR then ret (failed_result QRMethodID ''qr_invalid'')
         else case qr_Verify qe formats qr (trim_space (text_field p ''format'')) of
           Inl e \<Rightarrow> ret (failed_result QRMethodID (qrReason e))
         | Inr res \<Rightarrow>
             andThen (checkFace cfg env QRMethodID sid (''qr:'' @ qr_UniqueKey res) (qr_Country res) p) (\<lambda>reason.
               ret (if reason \<noteq> '''' then failed_result QRMethodID reason
                    else doc_result QRMethodID (de_now env)
                      (digestOf (de_crypto env) [sid, qr_FormatID res, rfc3339 (qr_SignedAt res)])
                      (''qr:'' @ qr_UniqueKey res)))))"

section \<open>Properties\<close>

lemma takes_challenge_eq:
  "takes_challenge sid now s =
     (Inr (fst (challenge_take sid now (ds_challenges s))), s\<lparr>ds_challenges := (ds_challenges s)(sid := None)\<rparr>)"
  by (simp add: takes_challenge_def challenge_take_def)

lemma on_faces_challenges: "wp (on_faces m) (\<lambda>_ t. ds_challenges t = ds_challenges s) (\<lambda>_ t. ds_challenges t = ds_challenges s) s"
  by (simp add: wp_def on_faces_def split: prod.split sum.split)

lemma on_queue_challenges: "wp (on_queue m) (\<lambda>_ t. ds_challenges t = ds_challenges s) (\<lambda>_ t. ds_challenges t = ds_challenges s) s"
  by (simp add: wp_def on_queue_def split: prod.split sum.split)

lemma checkFace_challenges:
  "wp (checkFace cfg env mid sid ident country p) (\<lambda>_ t. ds_challenges t = ds_challenges s)
     (\<lambda>_ t. ds_challenges t = ds_challenges s) s"
proof -
  have faces: "wp (on_faces m) (\<lambda>_ u. ds_challenges u = M) (\<lambda>_ u. ds_challenges u = M) t" if "ds_challenges t = M" for m M t
    using on_faces_challenges [of m t] that by simp
  have queue: "wp (on_queue m) (\<lambda>_ u. ds_challenges u = M) (\<lambda>_ u. ds_challenges u = M) t" if "ds_challenges t = M" for m M t
    using on_queue_challenges [of m t] that by simp
  show ?thesis
    unfolding checkFace_def
    by (auto simp: wp split: option.split sum.split intro!: wp_mono [OF on_faces_challenges] faces queue)
qed

lemma checkFace_keeps: "checkFace cfg env mid sid ident country p s = (r, s') \<Longrightarrow> ds_challenges s' = ds_challenges s"
  using checkFace_challenges [of cfg env mid sid ident country p s] by (cases r) (simp_all add: wp_def)

text \<open>A completion that gets past its challenge, step by step.\<close>

lemma chip_complete_cases:
  assumes "chip_CompleteCeremony cfg env ch sid p s = (r, s')" "sid \<noteq> ''''"
  obtains (refused) reason where "r = Inr (failed_result ChipMethodID reason)"
      "reason = ''no_challenge_issued'' \<or> fst (challenge_take sid (de_now env) (ds_challenges s)) \<noteq> None"
      "ds_challenges s' = (ds_challenges s)(sid := None)"
  | (faced) challenge country ident dsc aa q where
      "fst (challenge_take sid (de_now env) (ds_challenges s)) = Some challenge"
      "chip_files cfg (de_crypto env) ch (de_now env) challenge p = Inr (country, ident, dsc, aa)"
      "checkFace cfg env ChipMethodID sid ident country p (s\<lparr>ds_challenges := (ds_challenges s)(sid := None)\<rparr>) = (q, s')"
      "\<And>res. r = Inr res \<Longrightarrow> mr_Success res \<Longrightarrow> q = Inr '''' \<and> mr_VerifiedIdentifier res = ident"
proof (cases "fst (challenge_take sid (de_now env) (ds_challenges s))")
  case None
  then show ?thesis using assms refused [of "''no_challenge_issued''"]
    by (auto simp: chip_CompleteCeremony_def andThen_def takes_challenge_eq ret_def)
next
  case (Some challenge)
  show ?thesis
  proof (cases "chip_files cfg (de_crypto env) ch (de_now env) challenge p")
    case (Inl reason)
    then show ?thesis using assms refused [of reason] Some
      by (auto simp: chip_CompleteCeremony_def andThen_def takes_challenge_eq ret_def)
  next
    case (Inr v)
    obtain country ident dsc aa where v: "v = (country, ident, dsc, aa)" by (cases v)
    obtain q t where c: "checkFace cfg env ChipMethodID sid ident country p
        (s\<lparr>ds_challenges := (ds_challenges s)(sid := None)\<rparr>) = (q, t)" by fastforce
    have t: "t = s'" and last: "\<And>res. r = Inr res \<Longrightarrow> mr_Success res \<Longrightarrow> q = Inr [] \<and> mr_VerifiedIdentifier res = ident"
      using assms c Some Inr v
      by (auto simp: chip_CompleteCeremony_def andThen_def takes_challenge_eq ret_def failed_result_def doc_result_def
          split: sum.splits if_splits)
    show ?thesis by (rule faced [OF Some Inr [unfolded v] c [unfolded t] last])
  qed
qed

text \<open>Whatever a completion answers, its session is left without a challenge.\<close>

lemma complete_forgets:
  assumes "sid \<noteq> ''''"
  shows "ds_challenges (snd (chip_CompleteCeremony cfg env ch sid p s)) = (ds_challenges s)(sid := None)"
proof -
  obtain r s' where c: "chip_CompleteCeremony cfg env ch sid p s = (r, s')" by fastforce
  show ?thesis using c by (cases rule: chip_complete_cases [OF c assms]) (auto dest: checkFace_keeps)
qed

section \<open>Runs\<close>

datatype ('a, 'q, 'msg) chip_op =
    ChipBegin string time "bytes option"
  | ChipComplete string json_object "('a, 'q) doc_env" "'msg chip_env"

fun chip_step :: "doc_config \<Rightarrow> ('a, 'q, 'msg) chip_op \<Rightarrow> ('a, 'q) doc_state \<Rightarrow> ('a, 'q) doc_state" where
  "chip_step cfg (ChipBegin sid now nonce) s = snd (chip_BeginCeremony cfg now nonce sid s)"
| "chip_step cfg (ChipComplete sid p env ch) s = snd (chip_CompleteCeremony cfg env ch sid p s)"

fun begins :: "string \<Rightarrow> ('a, 'q, 'msg) chip_op \<Rightarrow> bool" where
  "begins sid (ChipBegin sid' _ _) \<longleftrightarrow> sid' = sid"
| "begins sid _ \<longleftrightarrow> False"

lemma chip_step_no_challenge:
  assumes "\<not> begins sid op" "ds_challenges s sid = None" "sid \<noteq> ''''"
  shows "ds_challenges (chip_step cfg op s) sid = None"
proof (cases op)
  case (ChipBegin sid' now nonce)
  then show ?thesis using assms
    by (auto simp: chip_BeginCeremony_def challenge_put_def split: option.split)
next
  case (ChipComplete sid' p env ch)
  then show ?thesis using assms complete_forgets [of sid' cfg env ch p s]
    by (cases "sid' = ''''") (auto simp: chip_CompleteCeremony_def ret_def)
qed

lemma chip_run_no_challenge:
  "\<not> list_ex (begins sid) ops \<Longrightarrow> ds_challenges s sid = None \<Longrightarrow> sid \<noteq> '''' \<Longrightarrow>
     ds_challenges (fold (chip_step cfg) ops s) sid = None"
  by (induction ops arbitrary: s) (simp_all add: chip_step_no_challenge)

text \<open>A chip's answer cannot be replayed: after any completion of a session, whatever it answered and whichever store failed,
  and any requests that do not begin that session again, another completion is refused for want of a challenge.
\<close>

theorem chip_challenge_single_use:
  assumes "sid \<noteq> ''''" "\<not> list_ex (begins sid) ops"
  shows "fst (chip_CompleteCeremony cfg env ch sid p
      (fold (chip_step cfg) ops (snd (chip_CompleteCeremony cfg env' ch' sid p' s)))) =
    Inr (failed_result ChipMethodID ''no_challenge_issued'')"
proof -
  have "ds_challenges (fold (chip_step cfg) ops (snd (chip_CompleteCeremony cfg env' ch' sid p' s))) sid = None"
    by (rule chip_run_no_challenge [OF assms(2) _ assms(1)]) (simp add: complete_forgets [OF assms(1)])
  then show ?thesis using assms(1)
    by (simp add: chip_CompleteCeremony_def andThen_def takes_challenge_eq challenge_take_def ret_def)
qed

text \<open>What a completion that passes its file checks has established.\<close>

lemma chip_files_Inr:
  assumes "chip_files cfg cr ch now challenge p = Inr (country, ident, dsc, aa)"
  obtains raw sd dg1 m where "b64Field p ''sod_b64'' maxSOD = Inr (Some raw)" "ParseSOD ch raw = Inr sd"
    "VerifySignature ch sd = Inr (country, dsc)" "CheckDataGroup ch sd 1 dg1" "ParseDG1 dg1 = Inr m"
    "Expired m now = Inr False" "ident = ChipIdentifier cr country (mz_DocumentNumber m)"
    "\<exists>dg14 dg15 sig. active_auth cfg ch sd challenge dg14 dg15 sig = Inr aa"
  using assms unfolding chip_files_def
  by (auto split: sum.splits option.splits if_splits prod.splits bool.splits; blast)

lemma active_auth_Inr:
  assumes "active_auth cfg ch sd challenge dg14 dg15 aaSig = Inr aa"
  shows "(HasDataGroup sd 15 \<and> (\<exists>key sig. CheckDataGroup ch sd 15 key \<and> ch_active ch key dg14 challenge sig) \<and>
      (\<forall>alg. dg14 = Some alg \<longrightarrow> CheckDataGroup ch sd 14 alg)) \<or> (\<not> HasDataGroup sd 15 \<and> dc_AllowPassiveOnly cfg)"
  using assms unfolding active_auth_def by (auto split: option.splits if_splits)

lemma checkFace_bound:
  "checkFace cfg env mid sid ident country p s = (Inr '''', s') \<Longrightarrow> parseFaceBind (map_of p ''face_bind'') = Some (True, True)"
  by (auto simp: checkFace_def ret_def split: option.splits if_splits)

text \<open>C13: A chip completion succeeds only on a challenge issued for that session at most ten minutes ago and only if: the
  security object parses and its signer chains to a trusted country authority; the machine readable zone is the one whose hash
  was signed, is well formed and has not expired; the chip has answered this very challenge with the key whose hash was
  signed, or has no such key and the operator allows that; the face matched alive; and the identifier that is handed to the
  issuer is the hash of the signed country and document number, nothing the client chose.
\<close>

theorem chip_success_sound:
  assumes "fst (chip_CompleteCeremony cfg env ch sid p s) = Inr res" "mr_Success res"
  shows "\<exists>nonce issued raw sd dg1 m country dsc. ds_challenges s sid = Some (nonce, issued) \<and>
    sub_time (de_now env) issued \<le> challengeTTL \<and> b64Field p ''sod_b64'' maxSOD = Inr (Some raw) \<and>
    ParseSOD ch raw = Inr sd \<and> VerifySignature ch sd = Inr (country, dsc) \<and>
    CheckDataGroup ch sd 1 dg1 \<and> ParseDG1 dg1 = Inr m \<and> Expired m (de_now env) = Inr False \<and>
    (if HasDataGroup sd 15
     then \<exists>key dg14 sig. CheckDataGroup ch sd 15 key \<and> ch_active ch key dg14 nonce sig \<and>
       (\<forall>alg. dg14 = Some alg \<longrightarrow> CheckDataGroup ch sd 14 alg)
     else dc_AllowPassiveOnly cfg) \<and>
    parseFaceBind (map_of p ''face_bind'') = Some (True, True) \<and>
    mr_VerifiedIdentifier res = ChipIdentifier (de_crypto env) country (mz_DocumentNumber m)"
proof -
  have sid: "sid \<noteq> ''''" using assms by (auto simp: chip_CompleteCeremony_def ret_def failed_result_def)
  obtain s' where c: "chip_CompleteCeremony cfg env ch sid p s = (Inr res, s')" using assms(1) by (metis prod.collapse)
  from c sid show ?thesis
  proof (cases rule: chip_complete_cases)
    case (refused reason)
    then show ?thesis using assms(2) by (simp add: failed_result_def)
  next
    case (faced challenge country ident dsc aa q)
    obtain issued where t: "ds_challenges s sid = Some (challenge, issued)" "sub_time (de_now env) issued \<le> challengeTTL"
      using faced(1) by (auto simp: challenge_take_def split: option.splits if_splits)
    have q: "q = Inr ''''" "mr_VerifiedIdentifier res = ident" using faced(4) assms(2) by auto
    show ?thesis
    proof (rule chip_files_Inr [OF faced(2)])
      fix raw sd dg1 m
      assume f: "b64Field p ''sod_b64'' maxSOD = Inr (Some raw)" "ParseSOD ch raw = Inr sd"
        "VerifySignature ch sd = Inr (country, dsc)" "CheckDataGroup ch sd 1 dg1" "ParseDG1 dg1 = Inr m"
        "Expired m (de_now env) = Inr False" "ident = ChipIdentifier (de_crypto env) country (mz_DocumentNumber m)"
        "\<exists>dg14 dg15 sig. active_auth cfg ch sd challenge dg14 dg15 sig = Inr aa"
      have aa: "if HasDataGroup sd 15
          then \<exists>key dg14 sig. CheckDataGroup ch sd 15 key \<and> ch_active ch key dg14 challenge sig \<and>
            (\<forall>alg. dg14 = Some alg \<longrightarrow> CheckDataGroup ch sd 14 alg)
          else dc_AllowPassiveOnly cfg"
        using f(8) by (auto dest!: active_auth_Inr)
      show ?thesis using t f(1-7) aa q checkFace_bound [OF faced(3) [unfolded q(1)]] by blast
    qed
  qed
qed

section \<open>The issuer accepts the identifiers\<close>

lemma hex_no_colon: "CHR '':'' \<notin> set (hex_encode b)"
  using hex_text_encode [of b] by (auto simp: hex_text_def)

lemma document_identifier_shape:
  assumes "x \<noteq> []" "length b = 32"
  shows "IsDocumentIdentifier (''chip:'' @ x @ CHR '':'' # hex_encode b)" "IsDocumentIdentifier (''qr:'' @ x @ CHR '':'' # hex_encode b)"
  using assms last_index_append [OF hex_no_colon, of x b]
  by (simp_all add: IsDocumentIdentifier_def Let_def has_prefix_def)

lemma chip_identifier_accepted:
  assumes "VerifySignature ch sd = Inr (country, dsc)" "\<And>m. length (c_sha256 cr m) = 32"
  shows "normalizeIdentifier ''document'' (ChipIdentifier cr country n) = Inr (ChipIdentifier cr country n)"
proof -
  have "to_upper country \<noteq> []" using assms(1) by (auto simp: VerifySignature_def to_upper_def Let_def split: option.splits sum.splits if_splits)
  then show ?thesis using document_identifier_shape(1) [of "to_upper country"] assms(2)
    by (simp add: normalizeIdentifier_def ChipIdentifier_def Let_def sha256_hex_def)
qed

lemma qr_identifier_accepted:
  assumes "qr_verify env f data = Inr res" "\<And>m. length (qe_sha256 env m) = 32"
  shows "normalizeIdentifier ''document'' (''qr:'' @ qr_UniqueKey res) = Inr (''qr:'' @ qr_UniqueKey res)"
proof -
  let ?x = "qf_Country f @ ''-'' @ qf_Document f"
  obtain m where m: "qr_UniqueKey res = ?x @ CHR '':'' # hex_encode (qe_sha256 env m)"
    using assms(1) by (auto simp: qr_verify_def Let_def split: if_splits option.splits prod.splits)
  have "?x \<noteq> []" by simp
  from document_identifier_shape(2) [OF this assms(2)] show ?thesis unfolding m normalizeIdentifier_def by simp
qed

section \<open>A concrete chip\<close>

definition sample_doc_config :: doc_config where
  "sample_doc_config = \<lparr>dc_AllowPassiveOnly = False, dc_FaceBindURL = '''', dc_Faces = False, dc_Reviews = False\<rparr>"

definition sample_doc_env :: "(unit, unit) doc_env" where
  "sample_doc_env = \<lparr>de_crypto = \<lparr>c_sha256 = (\<lambda>b. []), c_hmac = (\<lambda>_ _. []), c_sign = (\<lambda>_ _. []), c_verify = (\<lambda>_ _ _. False)\<rparr>,
     de_find = (\<lambda>_ _ s. (Inr None, s)), de_add = (\<lambda>_ s. (Inr (), s)), de_review = (\<lambda>_ s. (Inr (), s)),
     de_known = None, de_rand = None, de_caseID = '''', de_now = 0\<rparr>"

definition sample_chip :: "unit chip_env" where
  "sample_chip = \<lparr>ch_signed = (\<lambda>_. Inr ((), ''SHA-256'', [(1, [byte 1]), (15, [byte 1])])),
     ch_signer = (\<lambda>_. Some \<lparr>ct_Country = ''UT'', ct_Raw = []\<rparr>), ch_chain = (\<lambda>c. Inr c), ch_verify = (\<lambda>_ _. None),
     ch_digest = (\<lambda>_ _. [byte 1]), ch_active = (\<lambda>_ _ challenge sig. sig = [byte 119, byte 0])\<rparr>"

definition sample_dg1 :: bytes where
  "sample_dg1 = [byte 97, byte 91, byte 95, byte 31, byte 88] @ specimen"

definition sample_DG1 :: string where
  "sample_DG1 = Std_encode sample_dg1"

definition sample_chip_payload :: json_object where
  "sample_chip_payload =
     [(''sod_b64'', JString ''dwA=''), (''dg1_b64'', JString sample_DG1), (''dg15_b64'', JString ''dwA=''),
      (''aa_signature_b64'', JString ''dwA=''),
      (''face_bind'', JObject [(''match'', JBool True), (''liveness'', JBool True)])]"

definition sample_doc_state :: "(unit, unit) doc_state" where
  "sample_doc_state = \<lparr>ds_challenges = [''s'' \<mapsto> ([byte 1], 0)], ds_faces = (), ds_queue = ()\<rparr>"

lemma specimen_length: "length specimen = 88" by code_simp

lemma sample_asn1:
  "asn1_raw sample_dg1 = Some (1, 1, [byte 95, byte 31, byte 88] @ specimen)"
  "asn1_raw ([byte 95, byte 31, byte 88] @ specimen) = Some (1, 31, specimen)"
  "asn1_raw [byte 119, byte 0] = Some (1, 23, [])"
  by (simp_all add: asn1_raw_def sample_dg1_def specimen_length Let_def)

lemma sample_ParseDG1:
  "ParseDG1 sample_dg1 = Inr \<lparr>mz_DocumentCode = ''P'', mz_IssuingState = ''UTO'', mz_DocumentNumber = ''L898902C3'',
     mz_DateOfBirth = ''740812'', mz_DateOfExpiry = ''120415''\<rparr>"
proof -
  have "ParseMRZ specimen = Inr \<lparr>mz_DocumentCode = ''P'', mz_IssuingState = ''UTO'', mz_DocumentNumber = ''L898902C3'',
     mz_DateOfBirth = ''740812'', mz_DateOfExpiry = ''120415''\<rparr>" by code_simp
  then show ?thesis unfolding ParseDG1_def sample_asn1 by (simp only: option.case prod.case sample_asn1) simp
qed

lemma sample_not_expired:
  "Expired \<lparr>mz_DocumentCode = ''P'', mz_IssuingState = ''UTO'', mz_DocumentNumber = ''L898902C3'',
     mz_DateOfBirth = ''740812'', mz_DateOfExpiry = ''120415''\<rparr> 0 = Inr False"
  by (simp add: Expired_def ExpiryDate_def two_digits_def slice_def date_time_def days_in_def leap_def upt_conv_Cons
      ns_hour_def ns_day_def Let_def)

lemma length_b64_padded: "length (b64_encode alpha True b) = 4 * ((length b + 2) div 3)"
  by (induction alpha True b rule: b64_encode.induct) (auto, presburger)

lemma sample_fields:
  "b64Field sample_chip_payload ''sod_b64'' maxSOD = Inr (Some [byte 119, byte 0])"
  "b64Field sample_chip_payload ''dg1_b64'' maxDG1 = Inr (Some sample_dg1)"
  "b64Field sample_chip_payload ''dg14_b64'' maxDGxx = Inr None"
  "b64Field sample_chip_payload ''dg15_b64'' maxDGxx = Inr (Some [byte 119, byte 0])"
  "b64Field sample_chip_payload ''aa_signature_b64'' maxDGxx = Inr (Some [byte 119, byte 0])"
proof -
  have t: "trim_space ''dwA='' = ''dwA=''" "trim_space [] = []" by code_simp+
  have t2: "trim_space sample_DG1 = sample_DG1" "length sample_DG1 = 124" "sample_DG1 \<noteq> []"
    by (simp_all add: sample_DG1_def b64_std_printable length_b64_padded) (simp_all add: sample_dg1_def specimen_length)
  have d: "Std_decode ''dwA='' = Some [byte 119, byte 0]" by code_simp
  have d2: "Std_decode sample_DG1 = Some sample_dg1" by (simp add: sample_DG1_def)
  note b64Field_def [simp] sample_chip_payload_def [simp] text_field_def [simp] t [simp] t2 [simp] d [simp] d2 [simp]
    maxSOD_def [simp] maxDG1_def [simp] maxDGxx_def [simp] Let_def [simp]
  show "b64Field sample_chip_payload ''sod_b64'' maxSOD = Inr (Some [byte 119, byte 0])" by simp
  show "b64Field sample_chip_payload ''dg1_b64'' maxDG1 = Inr (Some sample_dg1)" by simp
  show "b64Field sample_chip_payload ''dg14_b64'' maxDGxx = Inr None" by simp
  show "b64Field sample_chip_payload ''dg15_b64'' maxDGxx = Inr (Some [byte 119, byte 0])" by simp
  show "b64Field sample_chip_payload ''aa_signature_b64'' maxDGxx = Inr (Some [byte 119, byte 0])" by simp
qed

lemma sample_SOD:
  "ParseSOD sample_chip [byte 119, byte 0] =
     Inr \<lparr>so_msg = (), so_hashAlg = ''SHA-256'', so_dgHashes = [1 \<mapsto> [byte 1], 15 \<mapsto> [byte 1]]\<rparr>"
  by (simp add: ParseSOD_def sample_asn1 sample_chip_def)

lemma sample_active:
  "active_auth sample_doc_config sample_chip
     \<lparr>so_msg = (), so_hashAlg = ''SHA-256'', so_dgHashes = [1 \<mapsto> [byte 1], 15 \<mapsto> [byte 1]]\<rparr> challenge None
     (Some [byte 119, byte 0]) (Some [byte 119, byte 0]) = Inr ''verified''"
  by (simp add: active_auth_def HasDataGroup_def CheckDataGroup_def sample_chip_def)

lemma sample_signature:
  "VerifySignature sample_chip
     \<lparr>so_msg = (), so_hashAlg = ''SHA-256'', so_dgHashes = [1 \<mapsto> [byte 1], 15 \<mapsto> [byte 1]]\<rparr> =
     Inr (''UT'', \<lparr>ct_Country = ''UT'', ct_Raw = []\<rparr>)"
  by (simp add: VerifySignature_def sample_chip_def Let_def)

lemma sample_hash:
  "CheckDataGroup sample_chip
     \<lparr>so_msg = (), so_hashAlg = ''SHA-256'', so_dgHashes = [1 \<mapsto> [byte 1], 15 \<mapsto> [byte 1]]\<rparr> 1 sample_dg1"
  by (simp add: CheckDataGroup_def sample_chip_def)

lemma sample_files:
  "\<exists>v. chip_files sample_doc_config cr sample_chip 0 challenge sample_chip_payload = Inr v"
  unfolding chip_files_def sample_fields sum.case option.case prod.case sample_SOD sample_signature sample_ParseDG1
    sample_not_expired sample_active bool.case
  using sample_hash by simp

lemma sample_completes:
  "\<exists>r. fst (chip_CompleteCeremony sample_doc_config sample_doc_env sample_chip ''s'' sample_chip_payload sample_doc_state) = Inr r \<and>
     mr_Success r"
proof -
  obtain country ident dsc aa where
    "chip_files sample_doc_config (de_crypto sample_doc_env) sample_chip 0 [byte 1] sample_chip_payload = Inr (country, ident, dsc, aa)"
    using sample_files [of "de_crypto sample_doc_env" "[byte 1]"] by (metis prod_cases4)
  moreover have "faceTemplate sample_chip_payload = Inr None"
    by code_simp
  moreover have "challenge_take ''s'' 0 (ds_challenges sample_doc_state) = (Some [byte 1], (ds_challenges sample_doc_state)(''s'' := None))"
    by (simp add: challenge_take_def sample_doc_state_def challengeTTL_def sub_time_def wrap64_def ns_minute_def ns_second_def min_int64_def max_int64_def)
  moreover have "parseFaceBind (map_of sample_chip_payload ''face_bind'') = Some (True, True)"
    by (simp add: sample_chip_payload_def)
  moreover have "de_now sample_doc_env = 0" by (simp add: sample_doc_env_def)
  ultimately show ?thesis
    by (simp add: chip_CompleteCeremony_def andThen_def takes_challenge_def checkFace_def ret_def doc_result_def)
qed

theorem chip_success_sound_witness:
  "\<exists>res. fst (chip_CompleteCeremony sample_doc_config sample_doc_env sample_chip ''s'' sample_chip_payload sample_doc_state) = Inr res \<and>
     mr_Success res \<and> (\<exists>country n. mr_VerifiedIdentifier res = ChipIdentifier (de_crypto sample_doc_env) country n)"
proof -
  obtain res where r: "fst (chip_CompleteCeremony sample_doc_config sample_doc_env sample_chip ''s'' sample_chip_payload sample_doc_state) = Inr res"
      "mr_Success res"
    using sample_completes by blast
  show ?thesis using chip_success_sound [OF r] r by blast
qed

theorem chip_challenge_single_use_witness:
  "fst (chip_CompleteCeremony sample_doc_config sample_doc_env sample_chip ''s'' sample_chip_payload
     (fold (chip_step sample_doc_config) [ChipBegin ''t'' 0 (Some [byte 2])]
       (snd (chip_CompleteCeremony sample_doc_config sample_doc_env sample_chip ''s'' sample_chip_payload sample_doc_state)))) =
   Inr (failed_result ChipMethodID ''no_challenge_issued'')"
  by (rule chip_challenge_single_use) simp_all

end
