(* ===== verification/Ttl_Store.thy ===== *)
theory Ttl_Store
  imports Server_Monad
begin

text \<open>
  The two document services the durable stores work on, as their clients use them: \<open>Get\<close>, \<open>Set\<close> with a lifetime and
  \<open>Del\<close> of \<open>src/pkg/redisclient/client.go\<close> and \<open>src/pkg/firestoreclient/client.go\<close>. The service behind them keeps a
  document with an optional deadline; each call may fail, before or after it took effect. A document is the struct
  that was marshalled, or \<open>None\<close> for bytes that do not unmarshal, so that the JSON codec, which is inverse on the structs stored, is left out.
\<close>

type_synonym 'v doc = "'v option"

record 'v ttl_store =
  tt_docs :: "string \<rightharpoonup> 'v doc \<times> time option"
  tt_calls :: "call_fate list"

definition tt_fate :: "'v ttl_store \<Rightarrow> call_fate" where
  "tt_fate d = (case tt_calls d of [] \<Rightarrow> Answers | f # _ \<Rightarrow> f)"

definition tt_called :: "'v ttl_store \<Rightarrow> 'v ttl_store" where
  "tt_called d = d\<lparr>tt_calls := tl (tt_calls d)\<rparr>"

text \<open>A call that changes the documents and answers \<open>x\<close>.\<close>

definition tt_call :: "((string \<rightharpoonup> 'v doc \<times> time option) \<Rightarrow> (string \<rightharpoonup> 'v doc \<times> time option)) \<Rightarrow> 'b \<Rightarrow> ('v ttl_store, unit, 'b) comp" where
  "tt_call f x d =
     (let d' = (tt_called d)\<lparr>tt_docs := f (tt_docs d)\<rparr> in
      case tt_fate d of
        Answers \<Rightarrow> (Inr x, d')
      | FailsBefore \<Rightarrow> (Inl (), tt_called d)
      | FailsAfter \<Rightarrow> (Inl (), d'))"

definition tt_lookup :: "string \<Rightarrow> ('v ttl_store, unit, ('v doc \<times> time option) option) comp" where
  "tt_lookup k d = tt_call (\<lambda>m. m) (tt_docs d k) d"

section \<open>The clients\<close>

text \<open>
  Redis drops a key at its deadline by itself. \<open>PX\<close> counts milliseconds: a lifetime that is not positive is none, and one below a
  millisecond is sent as 0, which Redis refuses.
\<close>

definition redis_Set :: "time \<Rightarrow> string \<Rightarrow> 'v doc \<Rightarrow> duration \<Rightarrow> ('v ttl_store, unit, unit) comp" where
  "redis_Set now k v ttl =
     (if 0 < ttl \<and> ttl div 1000000 = 0 then (\<lambda>d. (Inl (), tt_called d))
      else tt_call (\<lambda>m. m(k \<mapsto> (v, if ttl > 0 then Some (now + ttl div 1000000 * 1000000) else None))) ())"

definition redis_Get :: "time \<Rightarrow> string \<Rightarrow> ('v ttl_store, unit, 'v doc option) comp" where
  "redis_Get now k =
     andThen (tt_lookup k) (\<lambda>found.
       case found of
         None \<Rightarrow> ret None
       | Some (v, dl) \<Rightarrow> ret (case dl of None \<Rightarrow> Some v | Some t \<Rightarrow> if now \<ge> t then None else Some v))"

definition redis_Del :: "string \<Rightarrow> ('v ttl_store, unit, unit) comp" where
  "redis_Del k = tt_call (\<lambda>m. m(k := None)) ()"

text \<open>Firestore keeps a document past its deadline; \<open>Get\<close> then deletes it, whether or not that succeeds.\<close>

definition firestore_Set :: "time \<Rightarrow> string \<Rightarrow> 'v doc \<Rightarrow> duration \<Rightarrow> ('v ttl_store, unit, unit) comp" where
  "firestore_Set now k v ttl = tt_call (\<lambda>m. m(k \<mapsto> (v, if ttl > 0 then Some (now + ttl) else None))) ()"

definition firestore_Del :: "string \<Rightarrow> ('v ttl_store, unit, unit) comp" where
  "firestore_Del k = tt_call (\<lambda>m. m(k := None)) ()"

text \<open>A call whose error the code drops.\<close>

definition besteffort :: "('s, 'e, unit) comp \<Rightarrow> ('s, 'f, unit) comp" where
  "besteffort m s = (Inr (), snd (m s))"

definition firestore_Get :: "time \<Rightarrow> string \<Rightarrow> ('v ttl_store, unit, 'v doc option) comp" where
  "firestore_Get now k =
     andThen (tt_lookup k) (\<lambda>found.
       case found of
         None \<Rightarrow> ret None
       | Some (v, dl) \<Rightarrow>
           (case dl of
              None \<Rightarrow> ret (Some v)
            | Some t \<Rightarrow> if now > t then andThen (besteffort (firestore_Del k)) (\<lambda>_. ret None) else ret (Some v)))"

section \<open>What a store relies on\<close>

definition tt_view :: "'v ttl_store \<Rightarrow> string \<Rightarrow> 'v doc option" where
  "tt_view d k = map_option fst (tt_docs d k)"

text \<open>\<open>touches k V V'\<close>: the views differ at most at \<open>k\<close>.\<close>

definition touches :: "string \<Rightarrow> (string \<Rightarrow> 'b) \<Rightarrow> (string \<Rightarrow> 'b) \<Rightarrow> bool" where
  "touches k V V' \<longleftrightarrow> (\<forall>j. j \<noteq> k \<longrightarrow> V' j = V j)"

lemma touches_refl [simp]: "touches k V V"
  by (simp add: touches_def)

lemma touches_trans: "touches k V V' \<Longrightarrow> touches k V' V'' \<Longrightarrow> touches k V V''"
  by (simp add: touches_def)

lemma touches_other: "touches k V V' \<Longrightarrow> j \<noteq> k \<Longrightarrow> V' j = V j"
  by (simp add: touches_def)

lemma wp_besteffort: "wp m (\<lambda>_. P) (\<lambda>_. P) s \<Longrightarrow> wp (besteffort m) (\<lambda>_. P) E s"
  by (simp add: wp_def besteffort_def split: prod.splits sum.splits)

lemma wp_tt_call:
  "wp (tt_call f x) (\<lambda>y d'. y = x \<and> tt_docs d' = f (tt_docs d))
     (\<lambda>_ d'. tt_docs d' = tt_docs d \<or> tt_docs d' = f (tt_docs d)) d"
  by (simp add: wp_def tt_call_def tt_called_def Let_def split: call_fate.split)

lemma wp_tt_lookup:
  "wp (tt_lookup k) (\<lambda>y d'. y = tt_docs d k \<and> tt_docs d' = tt_docs d) (\<lambda>_ d'. tt_docs d' = tt_docs d) d"
  using wp_tt_call [of "\<lambda>m. m" "tt_docs d k" d] by (simp add: wp_def tt_lookup_def)

text \<open>
  A client of either service: a write that answers is there, a read that answers gives what was written or nothing,
  and no call touches another key. A document may be gone at any time after its deadline.
\<close>

locale ttl_client =
  fixes get :: "time \<Rightarrow> string \<Rightarrow> ('v ttl_store, unit, 'v doc option) comp"
    and put :: "time \<Rightarrow> string \<Rightarrow> 'v doc \<Rightarrow> duration \<Rightarrow> ('v ttl_store, unit, unit) comp"
    and del :: "string \<Rightarrow> ('v ttl_store, unit, unit) comp"
  assumes get_law: "wp (get now k)
      (\<lambda>r d'. (r = tt_view d k \<and> tt_view d' = tt_view d) \<or>
         (r = None \<and> tt_view d' k \<in> {None, tt_view d k} \<and> touches k (tt_view d) (tt_view d')))
      (\<lambda>_ d'. tt_view d' = tt_view d) d"
    and put_law: "wp (put now k v ttl) (\<lambda>_ d'. tt_view d' = (tt_view d)(k := Some v))
      (\<lambda>_ d'. tt_view d' \<in> {tt_view d, (tt_view d)(k := Some v)}) d"
    and del_law: "wp (del k) (\<lambda>_ d'. tt_view d' = (tt_view d)(k := None))
      (\<lambda>_ d'. tt_view d' \<in> {tt_view d, (tt_view d)(k := None)}) d"
    and put_blind: "fst (put now k v ttl d) = fst (put now k v' ttl d)"

lemma view_docs: "tt_docs d' = tt_docs d \<Longrightarrow> tt_view d' = tt_view d"
  by (simp add: tt_view_def fun_eq_iff)

lemma view_set: "tt_docs d' = (tt_docs d)(k \<mapsto> (v, dl)) \<Longrightarrow> tt_view d' = (tt_view d)(k := Some v)"
  by (simp add: tt_view_def fun_eq_iff)

lemma view_del: "tt_docs d' = (tt_docs d)(k := None) \<Longrightarrow> tt_view d' = (tt_view d)(k := None)"
  by (simp add: tt_view_def fun_eq_iff)

lemma set_law: "wp (tt_call (\<lambda>m. m(k \<mapsto> (v, dl))) ()) (\<lambda>_ d'. tt_view d' = (tt_view d)(k := Some v))
      (\<lambda>_ d'. tt_view d' \<in> {tt_view d, (tt_view d)(k := Some v)}) d"
  by (rule wp_mono [OF wp_tt_call]) (auto dest: view_docs view_set)

lemma tt_call_blind: "fst (tt_call f x d) = fst (tt_call g x d)"
  by (simp add: tt_call_def Let_def split: call_fate.split)

lemma delete_law: "wp (tt_call (\<lambda>m. m(k := None)) ()) (\<lambda>_ d'. tt_view d' = (tt_view d)(k := None))
      (\<lambda>_ d'. tt_view d' \<in> {tt_view d, (tt_view d)(k := None)}) d"
  by (rule wp_mono [OF wp_tt_call]) (auto dest: view_docs view_del)

interpretation redis_kv: ttl_client redis_Get redis_Set redis_Del
proof unfold_locales
  fix now k and d :: "'v ttl_store"
  show "wp (redis_Get now k)
      (\<lambda>r d'. (r = tt_view d k \<and> tt_view d' = tt_view d) \<or>
         (r = None \<and> tt_view d' k \<in> {None, tt_view d k} \<and> touches k (tt_view d) (tt_view d')))
      (\<lambda>_ d'. tt_view d' = tt_view d) d"
    unfolding redis_Get_def
    by (rule wp_step [OF wp_tt_lookup])
      (auto simp: wp tt_view_def touches_def fun_eq_iff split: option.split prod.split)
next
  fix now k ttl and v :: "'v doc" and d :: "'v ttl_store"
  have "tt_view (tt_called d) = tt_view d" by (simp add: tt_view_def tt_called_def fun_eq_iff)
  then show "wp (redis_Set now k v ttl) (\<lambda>_ d'. tt_view d' = (tt_view d)(k := Some v))
      (\<lambda>_ d'. tt_view d' \<in> {tt_view d, (tt_view d)(k := Some v)}) d"
    by (cases "0 < ttl \<and> ttl div 1000000 = 0") (simp_all only: redis_Set_def if_True if_False set_law, simp add: wp_def)
next
  fix now k ttl and v v' :: "'v doc" and d :: "'v ttl_store"
  show "fst (redis_Set now k v ttl d) = fst (redis_Set now k v' ttl d)"
    unfolding redis_Set_def by (simp only: if_distrib [of "\<lambda>m. m d"]) (auto intro: tt_call_blind)
qed (simp_all only: redis_Del_def delete_law)

interpretation firestore_kv: ttl_client firestore_Get firestore_Set firestore_Del
proof unfold_locales
  fix now k and d :: "'v ttl_store"
  let ?gone = "\<lambda>d'. tt_view d' k \<in> {None, tt_view d k} \<and> touches k (tt_view d) (tt_view d')"
  have gone: "wp (besteffort (firestore_Del k)) (\<lambda>_. ?gone) E t" if t: "tt_docs t = tt_docs d" for t :: "'v ttl_store" and E
    by (rule wp_besteffort, unfold firestore_Del_def, rule wp_mono [OF delete_law])
      (auto simp: view_docs [OF t] touches_def)
  show "wp (firestore_Get now k)
      (\<lambda>r d'. (r = tt_view d k \<and> tt_view d' = tt_view d) \<or> (r = None \<and> ?gone d')) (\<lambda>_ d'. tt_view d' = tt_view d) d"
    unfolding firestore_Get_def
  proof (rule wp_step [OF wp_tt_lookup])
    fix e :: unit and t :: "'v ttl_store" assume "tt_docs t = tt_docs d"
    then show "tt_view t = tt_view d" by (rule view_docs)
  next
    fix a and t :: "'v ttl_store" assume t: "a = tt_docs d k \<and> tt_docs t = tt_docs d"
    have v: "tt_view t = tt_view d" using t view_docs by blast
    show "wp (case a of None \<Rightarrow> ret None | Some (v, dl) \<Rightarrow>
           (case dl of None \<Rightarrow> ret (Some v)
            | Some x \<Rightarrow> if now > x then andThen (besteffort (firestore_Del k)) (\<lambda>_. ret None) else ret (Some v)))
        (\<lambda>r d'. (r = tt_view d k \<and> tt_view d' = tt_view d) \<or> (r = None \<and> ?gone d')) (\<lambda>_ d'. tt_view d' = tt_view d) t"
      using t v
      by (auto simp: wp tt_view_def intro!: wp_mono [OF gone] split: option.split prod.split)
  qed
qed (simp_all only: firestore_Set_def firestore_Del_def set_law delete_law, rule tt_call_blind)

end
