(* ===== verification/Otp_Store.thy ===== *)
theory Otp_Store
  imports Ttl_Store
begin

text \<open>
  One-time codes between the begin and the completion of a phone ceremony: \<open>src/src/methods/sms/store.go\<close> (in memory),
  \<open>store_redis.go\<close> and \<open>store_firestore.go\<close>, and the in-memory store of \<open>src/src/methods/phone-carrier-tier/store.go\<close>.
  What a client relies on is the locale \<open>otp_store\<close>, interpreted by all of them. Comparing in constant time is comparing.
\<close>

section \<open>Entries\<close>

record otp_entry =
  oe_OTP :: string
  oe_ExpiresAt :: time
  oe_Attempts :: int
  oe_Invalid :: bool

definition MaxAttempts :: int where "MaxAttempts = 3"

definition otp_new :: "string \<Rightarrow> time \<Rightarrow> otp_entry" where
  "otp_new otp expiresAt = \<lparr>oe_OTP = otp, oe_ExpiresAt = expiresAt, oe_Attempts = 0, oe_Invalid = False\<rparr>"

text \<open>The comparison with a live entry: the answer and what becomes of the entry.\<close>

definition otp_try :: "string \<Rightarrow> otp_entry \<Rightarrow> (bool \<times> int) \<times> otp_entry" where
  "otp_try attempt e =
     (if oe_OTP e = attempt then ((True, 0), e\<lparr>oe_Invalid := True\<rparr>)
      else
        (let e' = e\<lparr>oe_Attempts := oe_Attempts e + 1\<rparr>; remaining = MaxAttempts - oe_Attempts e' in
         if remaining \<le> 0 then ((False, 0), e'\<lparr>oe_Invalid := True\<rparr>) else ((False, remaining), e')))"

text \<open>The interface \<open>OTPStore\<close>. The clock is an argument: durable writes turn the expiry into a lifetime.\<close>

record 's otp_ops =
  op_Put :: "time \<Rightarrow> string \<Rightarrow> string \<Rightarrow> time \<Rightarrow> ('s, unit, unit) comp"
  op_Verify :: "time \<Rightarrow> string \<Rightarrow> string \<Rightarrow> ('s, unit, bool \<times> int) comp"
  op_Invalidate :: "string \<Rightarrow> ('s, unit, unit) comp"

section \<open>In memory\<close>

type_synonym memory_codes = "string \<rightharpoonup> otp_entry"

definition memory_otp_Put :: "time \<Rightarrow> string \<Rightarrow> string \<Rightarrow> time \<Rightarrow> (memory_codes, unit, unit) comp" where
  "memory_otp_Put now key otp expiresAt m = (Inr (), m(key \<mapsto> otp_new otp expiresAt))"

definition memory_otp_Verify :: "time \<Rightarrow> string \<Rightarrow> string \<Rightarrow> (memory_codes, unit, bool \<times> int) comp" where
  "memory_otp_Verify now key attempt m =
     (case m key of
        None \<Rightarrow> (Inr (False, 0), m)
      | Some e \<Rightarrow>
          if oe_Invalid e then (Inr (False, 0), m)
          else if now > oe_ExpiresAt e then (Inr (False, 0), m(key := None))
          else case otp_try attempt e of (answer, e') \<Rightarrow> (Inr answer, m(key \<mapsto> e')))"

definition memory_otp_Invalidate :: "string \<Rightarrow> (memory_codes, unit, unit) comp" where
  "memory_otp_Invalidate key m = (Inr (), m(key := None))"

definition memory_otp :: "memory_codes otp_ops" where
  "memory_otp = \<lparr>op_Put = memory_otp_Put, op_Verify = memory_otp_Verify, op_Invalidate = memory_otp_Invalidate\<rparr>"

text \<open>The carrier method has the same store written out once more, with two guards in one.\<close>

definition carrier_otp_Verify :: "time \<Rightarrow> string \<Rightarrow> string \<Rightarrow> (memory_codes, unit, bool \<times> int) comp" where
  "carrier_otp_Verify now key attempt m =
     (if (case m key of None \<Rightarrow> True | Some e \<Rightarrow> oe_Invalid e) then (Inr (False, 0), m)
      else let e = the (m key) in
        if now > oe_ExpiresAt e then (Inr (False, 0), m(key := None))
        else if oe_OTP e = attempt then (Inr (True, 0), m(key \<mapsto> e\<lparr>oe_Invalid := True\<rparr>))
        else let e' = e\<lparr>oe_Attempts := oe_Attempts e + 1\<rparr>; remaining = MaxAttempts - oe_Attempts e' in
          if remaining \<le> 0 then (Inr (False, 0), m(key \<mapsto> e'\<lparr>oe_Invalid := True\<rparr>))
          else (Inr (False, remaining), m(key \<mapsto> e')))"

lemma carrier_store_same: "carrier_otp_Verify = memory_otp_Verify"
  by (simp add: fun_eq_iff carrier_otp_Verify_def memory_otp_Verify_def otp_try_def Let_def split: option.split)

section \<open>Durable\<close>

record 'v kv_client =
  kc_Get :: "time \<Rightarrow> string \<Rightarrow> ('v ttl_store, unit, 'v doc option) comp"
  kc_Set :: "time \<Rightarrow> string \<Rightarrow> 'v doc \<Rightarrow> duration \<Rightarrow> ('v ttl_store, unit, unit) comp"
  kc_Del :: "string \<Rightarrow> ('v ttl_store, unit, unit) comp"

definition redis_client :: "'v kv_client" where
  "redis_client = \<lparr>kc_Get = redis_Get, kc_Set = redis_Set, kc_Del = redis_Del\<rparr>"

definition firestore_client :: "'v kv_client" where
  "firestore_client = \<lparr>kc_Get = firestore_Get, kc_Set = firestore_Set, kc_Del = firestore_Del\<rparr>"

type_synonym durable_codes = "otp_entry ttl_store"

definition redisOTPKey :: "string \<Rightarrow> string" where
  "redisOTPKey key = ''personhood:sms-otp:'' @ key"

text \<open>Both durable stores run this on their client, with \<open>name\<close> the name they keep a key under.\<close>

definition otp_write :: "otp_entry kv_client \<Rightarrow> (string \<Rightarrow> string) \<Rightarrow> time \<Rightarrow> string \<Rightarrow> otp_entry \<Rightarrow> (durable_codes, unit, unit) comp" where
  "otp_write cl name now key e = kc_Set cl now (name key) (Some e) (sub_time (oe_ExpiresAt e) now)"

definition durable_otp_Verify ::
  "otp_entry kv_client \<Rightarrow> (string \<Rightarrow> string) \<Rightarrow> time \<Rightarrow> string \<Rightarrow> string \<Rightarrow> (durable_codes, unit, bool \<times> int) comp" where
  "durable_otp_Verify cl name now key attempt =
     andThen (kc_Get cl now (name key)) (\<lambda>found.
       case found of
         None \<Rightarrow> ret (False, 0)
       | Some None \<Rightarrow> throw ()
       | Some (Some e) \<Rightarrow>
           if oe_Invalid e then ret (False, 0)
           else if now > oe_ExpiresAt e then andThen (besteffort (kc_Del cl (name key))) (\<lambda>_. ret (False, 0))
           else (case otp_try attempt e of (answer, e') \<Rightarrow>
             andThen (otp_write cl name now key e') (\<lambda>_. ret answer)))"

definition durable_otp :: "otp_entry kv_client \<Rightarrow> (string \<Rightarrow> string) \<Rightarrow> durable_codes otp_ops" where
  "durable_otp cl name =
     \<lparr>op_Put = (\<lambda>now key otp expiresAt. otp_write cl name now key (otp_new otp expiresAt)),
      op_Verify = durable_otp_Verify cl name,
      op_Invalidate = (\<lambda>key. kc_Del cl (name key))\<rparr>"

definition redis_otp :: "durable_codes otp_ops" where
  "redis_otp = durable_otp redis_client redisOTPKey"

definition firestore_otp :: "durable_codes otp_ops" where
  "firestore_otp = durable_otp firestore_client (\<lambda>key. key)"

section \<open>The contract\<close>

definition otp_live :: "time \<Rightarrow> otp_entry \<Rightarrow> bool" where
  "otp_live now e \<longleftrightarrow> \<not> oe_Invalid e \<and> now \<le> oe_ExpiresAt e"

text \<open>
  A verification either looks, that is compares the attempt with a live entry and records the outcome, or answers without
  looking, and then answers the same whatever was attempted. An error, too, does not depend on the attempt, although
  the comparison may have been recorded.
\<close>

locale otp_store =
  fixes ops :: "'s otp_ops"
    and entry :: "'s \<Rightarrow> string \<Rightarrow> otp_entry option"
  assumes put_law: "wp (op_Put ops now k otp ex) (\<lambda>_ s'. entry s' = (entry s)(k \<mapsto> otp_new otp ex))
      (\<lambda>_ s'. entry s' \<in> {entry s, (entry s)(k \<mapsto> otp_new otp ex)}) s"
    and verify_law: "wp (op_Verify ops now k a)
      (\<lambda>answer s'. touches k (entry s) (entry s') \<and>
         ((entry s' k \<in> {None, entry s k} \<and> answer = (False, 0) \<and> (\<forall>a'. fst (op_Verify ops now k a' s) = Inr (False, 0))) \<or>
          (\<exists>e. entry s k = Some e \<and> otp_live now e \<and> answer = fst (otp_try a e) \<and> entry s' k = Some (snd (otp_try a e)))))
      (\<lambda>_ s'. touches k (entry s) (entry s') \<and> (\<forall>a'. fst (op_Verify ops now k a' s) = Inl ()) \<and>
         (entry s' k = entry s k \<or>
          (\<exists>e. entry s k = Some e \<and> otp_live now e \<and> entry s' k = Some (snd (otp_try a e))))) s"
    and invalidate_law: "wp (op_Invalidate ops k) (\<lambda>_ s'. entry s' = (entry s)(k := None))
      (\<lambda>_ s'. entry s' \<in> {entry s, (entry s)(k := None)}) s"

section \<open>Calls and what they tell\<close>

datatype otp_call = CallPut time string string time | CallVerify time string string | CallInvalidate string

fun otp_exec :: "'s otp_ops \<Rightarrow> otp_call \<Rightarrow> 's \<Rightarrow> 's" where
  "otp_exec ops (CallPut now k otp ex) s = snd (op_Put ops now k otp ex s)"
| "otp_exec ops (CallVerify now k a) s = snd (op_Verify ops now k a s)"
| "otp_exec ops (CallInvalidate k) s = snd (op_Invalidate ops k s)"

fun puts_on :: "string \<Rightarrow> otp_call \<Rightarrow> bool" where
  "puts_on k (CallPut _ k' _ _) \<longleftrightarrow> k' = k"
| "puts_on k _ \<longleftrightarrow> False"

text \<open>A call tells something about the code of \<open>k\<close> if another attempt would have been answered differently.\<close>

fun tells :: "'s otp_ops \<Rightarrow> string \<Rightarrow> 's \<Rightarrow> otp_call \<Rightarrow> bool" where
  "tells ops k s (CallVerify now k' a) \<longleftrightarrow> k' = k \<and> (\<exists>a'. fst (op_Verify ops now k a' s) \<noteq> fst (op_Verify ops now k a s))"
| "tells ops k s _ \<longleftrightarrow> False"

fun telling :: "'s otp_ops \<Rightarrow> string \<Rightarrow> otp_call list \<Rightarrow> 's \<Rightarrow> nat" where
  "telling ops k [] s = 0"
| "telling ops k (c # cs) s = (if tells ops k s c then 1 else 0) + telling ops k cs (otp_exec ops c s)"

text \<open>How many comparisons an entry has left.\<close>

definition budget :: "otp_entry option \<Rightarrow> nat" where
  "budget x = (case x of None \<Rightarrow> 0 | Some e \<Rightarrow> if oe_Invalid e then 0 else nat (MaxAttempts - oe_Attempts e))"

lemma budget_try:
  "\<not> oe_Invalid e \<Longrightarrow> oe_Attempts e < MaxAttempts \<Longrightarrow> budget (Some (snd (otp_try a e))) < budget (Some e)"
  by (auto simp: budget_def otp_try_def Let_def)

lemma budget_try_le: "budget (Some (snd (otp_try a e))) \<le> budget (Some e)"
  by (auto simp: budget_def otp_try_def Let_def)

text \<open>An entry that is not invalid has comparisons left: this is kept by every call.\<close>

definition sound_entry :: "otp_entry option \<Rightarrow> bool" where
  "sound_entry x \<longleftrightarrow> (\<forall>e. x = Some e \<longrightarrow> oe_Invalid e \<or> oe_Attempts e < MaxAttempts)"

lemma sound_try: "sound_entry (Some (snd (otp_try a e)))"
  by (auto simp: sound_entry_def otp_try_def Let_def)

lemma sound_None [simp]: "sound_entry None"
  by (simp add: sound_entry_def)

context otp_store
begin

lemma verify_cases:
  assumes "op_Verify ops now k a s = (r, s')"
  shows "touches k (entry s) (entry s')"
    "entry s' k \<in> {None, entry s k} \<or> (\<exists>e. entry s k = Some e \<and> otp_live now e \<and> entry s' k = Some (snd (otp_try a e)))"
    "(\<exists>e. entry s k = Some e \<and> otp_live now e \<and> entry s' k = Some (snd (otp_try a e)) \<and> r = Inr (fst (otp_try a e))) \<or>
     (\<forall>a'. fst (op_Verify ops now k a' s) = r)"
  using verify_law [of now k a s] assms unfolding wp_def by (cases r; auto)+

lemma exec_other:
  assumes "\<not> puts_on k c"
  shows "entry (otp_exec ops c s) k \<in> {None, entry s k} \<or>
    (\<exists>now a e. c = CallVerify now k a \<and> entry s k = Some e \<and> otp_live now e \<and> entry (otp_exec ops c s) k = Some (snd (otp_try a e)))"
proof (cases c)
  case (CallPut now j otp ex)
  obtain r s' where p: "op_Put ops now j otp ex s = (r, s')" by fastforce
  show ?thesis using put_law [of now j otp ex s] p assms CallPut by (cases r) (auto simp: wp_def)
next
  case (CallVerify now j a)
  obtain r s' where v: "op_Verify ops now j a s = (r, s')" by fastforce
  show ?thesis
  proof (cases "j = k")
    case True
    then show ?thesis using verify_cases(2) [OF v] v CallVerify by auto
  next
    case False
    then show ?thesis using touches_other [OF verify_cases(1) [OF v]] v CallVerify by auto
  qed
next
  case (CallInvalidate j)
  obtain r s' where i: "op_Invalidate ops j s = (r, s')" by fastforce
  show ?thesis using invalidate_law [of j s] i CallInvalidate by (cases r) (auto simp: wp_def)
qed

lemma exec_budget:
  assumes "\<not> puts_on k c" "sound_entry (entry s k)"
  shows "sound_entry (entry (otp_exec ops c s) k)" "budget (entry (otp_exec ops c s) k) \<le> budget (entry s k)"
  using exec_other [OF assms(1), of s] assms(2) by (auto simp: budget_def [of None] sound_try budget_try_le)

lemma telling_costs:
  assumes "tells ops k s c" "sound_entry (entry s k)"
  shows "budget (entry (otp_exec ops c s) k) < budget (entry s k)"
proof -
  obtain now a where c: "c = CallVerify now k a" and t: "\<exists>a'. fst (op_Verify ops now k a' s) \<noteq> fst (op_Verify ops now k a s)"
    using assms(1) by (cases c) auto
  obtain r s' where v: "op_Verify ops now k a s = (r, s')" by fastforce
  have "\<not> (\<forall>a'. fst (op_Verify ops now k a' s) = r)" using t v by auto
  then obtain e where e: "entry s k = Some e" "otp_live now e" "entry s' k = Some (snd (otp_try a e))"
    using verify_cases(3) [OF v] by blast
  then show ?thesis using budget_try [of e a] assms(2) v c by (simp add: otp_live_def sound_entry_def)
qed

lemma telling_budget:
  "\<not> list_ex (puts_on k) cs \<Longrightarrow> sound_entry (entry s k) \<Longrightarrow> telling ops k cs s \<le> budget (entry s k)"
proof (induction cs arbitrary: s)
  case (Cons c cs)
  have p: "\<not> puts_on k c" "\<not> list_ex (puts_on k) cs" using Cons.prems(1) by auto
  have "telling ops k cs (otp_exec ops c s) \<le> budget (entry (otp_exec ops c s) k)"
    by (rule Cons.IH [OF p(2) exec_budget(1) [OF p(1) Cons.prems(2)]])
  then show ?case
    using exec_budget(2) [OF p(1) Cons.prems(2)] telling_costs [OF _ Cons.prems(2), of c] by fastforce
qed simp

lemma guesses_bounded:
  assumes "op_Put ops now k otp ex s = (Inr (), s')" "\<not> list_ex (puts_on k) cs"
  shows "telling ops k cs s' \<le> 3"
proof -
  have "entry s' k = Some (otp_new otp ex)" using put_law [of now k otp ex s] assms(1) by (simp add: wp_def)
  then show ?thesis using telling_budget [OF assms(2), of s']
    by (simp add: sound_entry_def budget_def otp_new_def MaxAttempts_def)
qed

end

section \<open>The stores keep the contract\<close>

interpretation memory_codes: otp_store memory_otp "\<lambda>m. m"
proof unfold_locales
  fix now k a and m :: memory_codes
  let ?v = "op_Verify memory_otp now k"
  show "wp (?v a)
      (\<lambda>answer s'. touches k m s' \<and>
         ((s' k \<in> {None, m k} \<and> answer = (False, 0) \<and> (\<forall>a'. fst (?v a' m) = Inr (False, 0))) \<or>
          (\<exists>e. m k = Some e \<and> otp_live now e \<and> answer = fst (otp_try a e) \<and> s' k = Some (snd (otp_try a e)))))
      (\<lambda>_ s'. touches k m s' \<and> (\<forall>a'. fst (?v a' m) = Inl ()) \<and>
         (s' k = m k \<or> (\<exists>e. m k = Some e \<and> otp_live now e \<and> s' k = Some (snd (otp_try a e))))) m"
    by (auto simp: wp_def memory_otp_def memory_otp_Verify_def touches_def otp_live_def split: option.split prod.split)
qed (auto simp: wp_def memory_otp_def memory_otp_Put_def memory_otp_Invalidate_def)

definition durable_entry :: "(string \<Rightarrow> string) \<Rightarrow> durable_codes \<Rightarrow> string \<Rightarrow> otp_entry option" where
  "durable_entry name d k = (case tt_view d (name k) of Some (Some e) \<Rightarrow> Some e | _ \<Rightarrow> None)"

locale durable_otp_store = ttl_client "kc_Get cl" "kc_Set cl" "kc_Del cl" for cl :: "otp_entry kv_client" +
  fixes name :: "string \<Rightarrow> string"
  assumes inj_name: "inj name"
begin

lemma entry_set:
  "tt_view d' = (tt_view d)(name k := Some (Some e)) \<Longrightarrow> durable_entry name d' = (durable_entry name d)(k \<mapsto> e)"
  using inj_name by (auto simp: durable_entry_def fun_eq_iff inj_def)

lemma entry_del:
  "tt_view d' = (tt_view d)(name k := None) \<Longrightarrow> durable_entry name d' = (durable_entry name d)(k := None)"
  using inj_name by (auto simp: durable_entry_def fun_eq_iff inj_def)

lemma entry_same: "tt_view d' = tt_view d \<Longrightarrow> durable_entry name d' = durable_entry name d"
  by (simp add: durable_entry_def fun_eq_iff)

lemma entry_touch:
  assumes "touches (name k) (tt_view d) (tt_view d')"
  shows "touches k (durable_entry name d) (durable_entry name d')"
proof -
  have "tt_view d' (name j) = tt_view d (name j)" if "j \<noteq> k" for j
    using assms injD [OF inj_name, of j k] that by (auto simp: touches_def)
  then show ?thesis by (simp add: touches_def durable_entry_def)
qed

lemma write_law:
  "wp (otp_write cl name now k e) (\<lambda>_ s'. durable_entry name s' = (durable_entry name s)(k \<mapsto> e))
      (\<lambda>_ s'. durable_entry name s' \<in> {durable_entry name s, (durable_entry name s)(k \<mapsto> e)}) s"
  unfolding otp_write_def by (rule wp_mono [OF put_law]) (auto dest: entry_set entry_same)

lemma del_entry_law:
  "wp (kc_Del cl (name k)) (\<lambda>_ s'. durable_entry name s' = (durable_entry name s)(k := None))
      (\<lambda>_ s'. durable_entry name s' \<in> {durable_entry name s, (durable_entry name s)(k := None)}) s"
  by (rule wp_mono [OF del_law]) (auto dest: entry_del entry_same)

text \<open>Whether a write answers does not depend on the attempt it records.\<close>

lemma write_blind:
  "fst (otp_write cl name now k (snd (otp_try a e)) d) = fst (otp_write cl name now k (snd (otp_try a' e)) d)"
proof -
  have "oe_ExpiresAt (snd (otp_try b e)) = oe_ExpiresAt e" for b by (simp add: otp_try_def Let_def)
  then show ?thesis unfolding otp_write_def using put_blind by metis
qed

text \<open>A verification after its document has been read.\<close>

definition rest_of :: "time \<Rightarrow> string \<Rightarrow> otp_entry doc option \<Rightarrow> string \<Rightarrow> (durable_codes, unit, bool \<times> int) comp" where
  "rest_of now k found a =
     (case found of
        None \<Rightarrow> ret (False, 0)
      | Some None \<Rightarrow> throw ()
      | Some (Some e) \<Rightarrow>
          if oe_Invalid e then ret (False, 0)
          else if now > oe_ExpiresAt e then andThen (besteffort (kc_Del cl (name k))) (\<lambda>_. ret (False, 0))
          else (case otp_try a e of (answer, e') \<Rightarrow> andThen (otp_write cl name now k e') (\<lambda>_. ret answer)))"

lemma verify_read:
  "kc_Get cl now (name k) s = (Inr found, t) \<Longrightarrow> durable_otp_Verify cl name now k a s = rest_of now k found a t"
  by (simp add: durable_otp_Verify_def andThen_def rest_of_def)

lemma rest_live:
  assumes "otp_live now e"
  shows "rest_of now k (Some (Some e)) a t =
    (case otp_write cl name now k (snd (otp_try a e)) t of (Inl x, u) \<Rightarrow> (Inl x, u) | (Inr _, u) \<Rightarrow> (Inr (fst (otp_try a e)), u))"
  using assms by (simp add: rest_of_def otp_live_def andThen_def ret_def case_prod_beta split: sum.split)

lemma rest_dead:
  assumes "\<not> (\<exists>e. found = Some (Some e) \<and> otp_live now e)"
  shows "\<exists>r. (\<forall>a. fst (rest_of now k found a t) = r) \<and> r \<in> {Inr (False, 0), Inl ()} \<and>
    (\<forall>a. durable_entry name (snd (rest_of now k found a t)) \<in> {durable_entry name t, (durable_entry name t)(k := None)}) \<and>
    (r = Inl () \<longrightarrow> found = Some None \<and> (\<forall>a. snd (rest_of now k found a t) = t))"
proof (cases "found = None \<or> found = Some None \<or> (\<exists>e. found = Some (Some e) \<and> oe_Invalid e)")
  case True
  then show ?thesis by (auto simp: rest_of_def ret_def throw_def)
next
  case False
  then obtain e where e: "found = Some (Some e)" "\<not> oe_Invalid e" by (metis not_None_eq)
  then have "now > oe_ExpiresAt e" using assms by (auto simp: otp_live_def)
  moreover have "durable_entry name (snd (kc_Del cl (name k) t)) \<in> {durable_entry name t, (durable_entry name t)(k := None)}"
    using del_entry_law [of k t] by (auto simp: wp_def split: prod.splits sum.splits)
  ultimately show ?thesis using e by (auto simp: rest_of_def ret_def andThen_def besteffort_def)
qed

end

sublocale durable_otp_store \<subseteq> codes: otp_store "durable_otp cl name" "durable_entry name"
proof unfold_locales
  fix now k a and s :: durable_codes
  let ?v = "op_Verify (durable_otp cl name) now k"
  let ?E = "durable_entry name"
  have v: "?v a' = durable_otp_Verify cl name now k a'" for a' by (simp add: durable_otp_def)
  show "wp (?v a)
      (\<lambda>answer s'. touches k (?E s) (?E s') \<and>
         ((?E s' k \<in> {None, ?E s k} \<and> answer = (False, 0) \<and> (\<forall>a'. fst (?v a' s) = Inr (False, 0))) \<or>
          (\<exists>e. ?E s k = Some e \<and> otp_live now e \<and> answer = fst (otp_try a e) \<and> ?E s' k = Some (snd (otp_try a e)))))
      (\<lambda>_ s'. touches k (?E s) (?E s') \<and> (\<forall>a'. fst (?v a' s) = Inl ()) \<and>
         (?E s' k = ?E s k \<or> (\<exists>e. ?E s k = Some e \<and> otp_live now e \<and> ?E s' k = Some (snd (otp_try a e))))) s"
  proof (cases "kc_Get cl now (name k) s")
    case (Pair gr t)
    show ?thesis
    proof (cases gr)
      case (Inl x)
      have "tt_view t = tt_view s" using get_law [of now "name k" s] Pair Inl by (simp add: wp_def)
      then show ?thesis using Pair Inl entry_same [of t s] by (simp add: v wp_def durable_otp_Verify_def andThen_def)
    next
      case (Inr found)
      note read = verify_read [OF Pair [unfolded Inr]]
      have g: "(found = tt_view s (name k) \<and> tt_view t = tt_view s) \<or>
          (found = None \<and> tt_view t (name k) \<in> {None, tt_view s (name k)} \<and> touches (name k) (tt_view s) (tt_view t))"
        using get_law [of now "name k" s] Pair Inr by (simp add: wp_def)
      then have t: "touches k (?E s) (?E t)" "?E t k \<in> {None, ?E s k}"
        using entry_touch entry_same [of t s] by (auto simp: durable_entry_def)
      show ?thesis
      proof (cases "\<exists>e. found = Some (Some e) \<and> otp_live now e")
        case True
        then obtain e where e: "found = Some (Some e)" "otp_live now e" by blast
        have "tt_view s (name k) = Some (Some e)" "tt_view t = tt_view s" using g e(1) by auto
        then have s: "?E t = ?E s" "?E s k = Some e" using entry_same [of t s] by (simp_all add: durable_entry_def)
        have w: "wp (otp_write cl name now k (snd (otp_try a e)))
            (\<lambda>_ u. ?E u = (?E t)(k \<mapsto> snd (otp_try a e))) (\<lambda>_ u. ?E u \<in> {?E t, (?E t)(k \<mapsto> snd (otp_try a e))}) t"
          by (rule write_law)
        obtain x u where ou: "otp_write cl name now k (snd (otp_try a e)) t = (x, u)" by fastforce
        have bl: "fst (otp_write cl name now k (snd (otp_try a' e)) t) = x" for a'
          using write_blind [of now k a' e t a] ou by simp
        have all: "fst (?v a' s) = (case x of Inl y \<Rightarrow> Inl y | Inr _ \<Rightarrow> Inr (fst (otp_try a' e)))" for a'
          using bl [of a'] by (simp add: v read e rest_live case_prod_beta split: sum.split)
        have me: "?v a s = (case x of Inl y \<Rightarrow> (Inl y, u) | Inr _ \<Rightarrow> (Inr (fst (otp_try a e)), u))"
          using ou by (simp add: v read e rest_live split: sum.split)
        show ?thesis using w ou s e(2) all me by (cases x) (auto simp: wp_def touches_def)
      next
        case False
        from rest_dead [OF this, of k t] obtain r where r: "\<forall>a. fst (rest_of now k found a t) = r" "r \<in> {Inr (False, 0), Inl ()}"
            "\<forall>a. ?E (snd (rest_of now k found a t)) \<in> {?E t, (?E t)(k := None)}" "r = Inl () \<longrightarrow> found = Some None \<and> (\<forall>a. snd (rest_of now k found a t) = t)"
          by blast
        have all: "fst (?v a' s) = r" "snd (?v a' s) = snd (rest_of now k found a' t)" for a' using r(1) by (simp_all add: v read)
        have me: "?v a s = (r, snd (rest_of now k found a t))" using all [of a] by (simp add: prod_eq_iff)
        have es: "found = Some None \<Longrightarrow> ?E t k = ?E s k" using g entry_same [of t s] by auto
        define s' where "s' = snd (rest_of now k found a t)"
        have s': "?E s' \<in> {?E t, (?E t)(k := None)}" "r = Inl () \<longrightarrow> ?E s' k = ?E s k"
          using r(3,4) es by (auto simp: s'_def)
        have f: "touches k (?E s) (?E s')" "?E s' k \<in> {None, ?E s k}"
          using s'(1) t by (auto simp: touches_def)
        have "?v a s = (r, s')" "\<forall>a'. fst (?v a' s) = r" using me all by (simp_all add: s'_def)
        then show ?thesis using r(2) s'(2) f by (auto simp: wp_def)
      qed
    qed
  qed
qed (simp_all only: durable_otp_def otp_ops.simps write_law del_entry_law)

interpretation redis_codes: durable_otp_store redis_client redisOTPKey
  by unfold_locales
    (simp_all only: redis_client_def kv_client.simps redis_kv.get_law redis_kv.put_law redis_kv.del_law,
     rule redis_kv.put_blind, simp add: inj_def redisOTPKey_def)

interpretation firestore_codes: durable_otp_store firestore_client "\<lambda>key. key"
  by unfold_locales
    (simp_all only: firestore_client_def kv_client.simps firestore_kv.get_law firestore_kv.put_law firestore_kv.del_law,
     rule firestore_kv.put_blind, simp add: inj_def)

section \<open>What guessing a code tells\<close>

text \<open>C16: Whatever is called between two begins for a phone number in a session, at most three verifications get an
  answer that depends on the code they tried, in memory, on Redis and on Firestore, and whichever calls to a durable store fail:
  a failing one answers the same for every code.
\<close>

theorem otp_guesses_bounded:
  assumes "\<not> list_ex (puts_on k) calls"
  shows "(op_Put memory_otp now k otp ex m = (Inr (), m') \<longrightarrow> telling memory_otp k calls m' \<le> 3) \<and>
    (op_Put redis_otp now k otp ex d = (Inr (), d') \<longrightarrow> telling redis_otp k calls d' \<le> 3) \<and>
    (op_Put firestore_otp now k otp ex d = (Inr (), d') \<longrightarrow> telling firestore_otp k calls d' \<le> 3)"
  unfolding redis_otp_def firestore_otp_def
  by (intro conjI impI; rule memory_codes.guesses_bounded redis_codes.codes.guesses_bounded
      firestore_codes.codes.guesses_bounded; (assumption | rule assms))

theorem otp_guesses_bounded_witness:
  "\<exists>m' d' d''. op_Put memory_otp 0 ''k'' ''123456'' 9000000 Map.empty = (Inr (), m') \<and>
     op_Put redis_otp 0 ''k'' ''123456'' 9000000 \<lparr>tt_docs = Map.empty, tt_calls = [Answers, FailsAfter]\<rparr> = (Inr (), d') \<and>
     op_Put firestore_otp 0 ''k'' ''123456'' 9000000 \<lparr>tt_docs = Map.empty, tt_calls = []\<rparr> = (Inr (), d'') \<and>
     telling memory_otp ''k'' (replicate 9 (CallVerify 1 ''k'' ''000000'')) m' \<le> 3 \<and>
     telling redis_otp ''k'' (replicate 9 (CallVerify 1 ''k'' ''000000'')) d' \<le> 3 \<and>
     telling firestore_otp ''k'' (replicate 9 (CallVerify 1 ''k'' ''000000'')) d'' \<le> 3"
proof -
  let ?calls = "replicate 9 (CallVerify 1 ''k'' ''000000'')"
  let ?d = "\<lparr>tt_docs = Map.empty, tt_calls = [Answers, FailsAfter]\<rparr>" and ?e = "\<lparr>tt_docs = Map.empty, tt_calls = []\<rparr>"
  have n: "\<not> list_ex (puts_on ''k'') ?calls" by (simp add: list_ex_iff)
  obtain m' where m: "op_Put memory_otp 0 ''k'' ''123456'' 9000000 Map.empty = (Inr (), m')"
    by (simp add: memory_otp_def memory_otp_Put_def)
  obtain d' where d: "op_Put redis_otp 0 ''k'' ''123456'' 9000000 ?d = (Inr (), d')"
    by (simp add: redis_otp_def durable_otp_def otp_write_def redis_client_def redis_Set_def tt_call_def tt_fate_def Let_def
        otp_new_def sub_time_def min_int64_def max_int64_def)
  obtain d'' where e: "op_Put firestore_otp 0 ''k'' ''123456'' 9000000 ?e = (Inr (), d'')"
    by (simp add: firestore_otp_def durable_otp_def otp_write_def firestore_client_def firestore_Set_def tt_call_def tt_fate_def Let_def)
  show ?thesis using m d e otp_guesses_bounded [OF n, of 0 "''123456''" 9000000 Map.empty m' ?d d']
      otp_guesses_bounded [OF n, of 0 "''123456''" 9000000 Map.empty m' ?e d''] by blast
qed

end
