(* ===== verification/Phone_Codes.thy ===== *)
theory Phone_Codes
  imports Otp_Store Vouching
begin

text \<open>
  The two phone ceremonies, \<open>src/src/methods/sms/sms.go\<close> with \<open>voip.go\<close> and
  \<open>src/src/methods/phone-carrier-tier/phone_carrier_tier.go\<close> with \<open>carrier.go\<close> and \<open>voip.go\<close>: a code goes out to a number and
  comes back. The clock, the random number, whether the vendor delivered the message and what the carrier lookup
  answered are the environment of a request; the store is any \<open>otp_ops\<close>.
\<close>

section \<open>Numbers\<close>

definition strip_format :: "string \<Rightarrow> string" where
  "strip_format s = filter (\<lambda>c. c \<notin> {byte 9, byte 10, byte 12, byte 13, byte 32} \<union> {CHR ''-'', CHR ''('', CHR '')'', CHR ''.''}) s"

definition ascii_digit :: "char \<Rightarrow> bool" where
  "ascii_digit c \<longleftrightarrow> 48 \<le> byte_of c \<and> byte_of c \<le> 57"

text \<open>The band \<open>+1 NPA 555 XXXX\<close>.\<close>

definition fictional555 :: "string \<Rightarrow> bool" where
  "fictional555 s \<longleftrightarrow> length s = 12 \<and> has_prefix s ''+1'' \<and> list_all ascii_digit (drop 2 s) \<and> take 3 (drop 5 s) = ''555''"

definition knownVOIPPrefixes :: "string list" where
  "knownVOIPPrefixes = [''+1500'', ''+1521'', ''+1533'', ''+1544'', ''+1566'', ''+1577'', ''+1588'', ''+1622'', ''+1700'']"

definition LooksLikeVOIP :: "string \<Rightarrow> bool" where
  "LooksLikeVOIP phoneNumber =
     (let cleaned = strip_format (trim_space phoneNumber) in
      if cleaned = '''' then False
      else if \<not> has_prefix cleaned ''+'' then False
      else if fictional555 cleaned then True
      else list_ex (has_prefix cleaned) knownVOIPPrefixes)"

definition lastFour :: "string \<Rightarrow> string" where
  "lastFour phoneNumber =
     (let digits = filter ascii_digit phoneNumber in
      if length digits \<le> 4 then digits else drop (length digits - 4) digits)"

text \<open>\<open>%06d\<close> of a number below a million.\<close>

definition six_digits :: "nat \<Rightarrow> string" where
  "six_digits n = map (\<lambda>p. byte (48 + n div p mod 10)) [100000, 10000, 1000, 100, 10, 1]"

definition storeKey :: "string \<Rightarrow> string \<Rightarrow> string" where
  "storeKey sid phoneNumber = sid @ ''|'' @ trim_space phoneNumber"

definition phone_digest :: "crypto \<Rightarrow> string \<Rightarrow> string \<Rightarrow> string \<Rightarrow> string" where
  "phone_digest cr sid phoneNumber code = sha256_hex cr (sid @ [byte 0] @ trim_space phoneNumber @ [byte 0] @ code)"

text \<open>\<open>None\<close> is a field that is missing, no string or blank.\<close>

definition trimmed_field :: "json_object \<Rightarrow> string \<Rightarrow> string option" where
  "trimmed_field m key =
     (case map_of m key of
        Some (JString s) \<Rightarrow> if trim_space s = '''' then None else Some (trim_space s)
      | _ \<Rightarrow> None)"

section \<open>The sms method\<close>

definition OTPTTL :: duration where "OTPTTL = 5 * ns_minute"

definition SmsMethodID :: string where "SmsMethodID = ''sms''"

definition sms_Metadata :: method_metadata where
  "sms_Metadata =
     \<lparr>md_ID = SmsMethodID, md_Type = MethodTypeSupplementary, md_Strength = 12, md_CostUSD = 75 / 10000,
      md_UXFriction = ''med'', md_PlatformRequirements = [], md_FreshnessLifetime = 90 * 24 * ns_hour, md_Version = ''0.1.0''\<rparr>"

definition phone_IsAvailableForUser :: "string \<Rightarrow> bool" where
  "phone_IsAvailableForUser platform \<longleftrightarrow> platform \<noteq> ''kiosk''"

datatype line_type = LineMobile | LineLandline | LineVOIP | LineUnknown

record carrier_signal =
  cg_LineType :: line_type
  cg_Carrier :: string
  cg_Ported :: bool
  cg_Provider :: string

record phone_env =
  pv_now :: time
  pv_number :: "nat option"
  pv_sent :: bool
  pv_lookup :: "string \<Rightarrow> carrier_signal option"

datatype phone_error = PhNoNumber | PhVOIP | PhLookup | PhVOIPLine | PhPorted | PhRandom | PhStorePut | PhSend | PhStoreVerify

text \<open>The part both methods have: store the code, then send it, and take it back if it could not be sent.\<close>

definition deliver_code ::
  "'s otp_ops \<Rightarrow> phone_env \<Rightarrow> string \<Rightarrow> string \<Rightarrow> json_object \<Rightarrow> ('s, phone_error, challenge_data) comp" where
  "deliver_code ops env sid phoneNumber payload =
     (case pv_number env of
        None \<Rightarrow> throw PhRandom
      | Some n \<Rightarrow>
          (let key = storeKey sid phoneNumber in
           andThen (onError (\<lambda>_. PhStorePut) (op_Put ops (pv_now env) key (six_digits n) (pv_now env + OTPTTL))) (\<lambda>_.
             if \<not> pv_sent env then andThen (besteffort (op_Invalidate ops key)) (\<lambda>_. throw PhSend)
             else ret \<lparr>ch_Type = ''otp'', ch_Payload = payload\<rparr>)))"

definition otp_payload :: "string \<Rightarrow> json_object" where
  "otp_payload phoneNumber =
     [(''phone_number_last4'', JString (lastFour phoneNumber)), (''expires_in_seconds'', JNum 300), (''max_attempts'', JNum MaxAttempts)]"

definition sms_BeginCeremony :: "'s otp_ops \<Rightarrow> phone_env \<Rightarrow> ceremony_context \<Rightarrow> ('s, phone_error, challenge_data) comp" where
  "sms_BeginCeremony ops env cc =
     (let phoneNumber = trim_space (cc_UserID cc) in
      if phoneNumber = '''' then throw PhNoNumber
      else if LooksLikeVOIP phoneNumber then throw PhVOIP
      else deliver_code ops env (cc_SessionID cc) phoneNumber (otp_payload phoneNumber))"

definition phone_complete ::
  "string \<Rightarrow> crypto \<Rightarrow> 's otp_ops \<Rightarrow> time \<Rightarrow> ceremony_context \<Rightarrow> response_data \<Rightarrow> ('s, phone_error, method_result) comp" where
  "phone_complete mid cr ops now cc resp =
     (if rd_Type resp \<noteq> ''otp'' then ret (failed_result mid ''unexpected response type'')
      else case trimmed_field (rd_Payload resp) ''phone_number'' of
        None \<Rightarrow> ret (failed_result mid ''missing or empty phone_number in response payload'')
      | Some phoneNumber \<Rightarrow>
          (case trimmed_field (rd_Payload resp) ''code'' of
             None \<Rightarrow> ret (failed_result mid ''missing or empty code in response payload'')
           | Some code \<Rightarrow>
               andThen (onError (\<lambda>_. PhStoreVerify) (op_Verify ops now (storeKey (cc_SessionID cc) phoneNumber) code)) (\<lambda>(valid, left).
                 if valid then ret ((passed_result mid now (phone_digest cr (cc_SessionID cc) phoneNumber code))
                   \<lparr>mr_VerifiedIdentifier := phoneNumber\<rparr>)
                 else if left = 0 then ret (failed_result mid ''too_many_attempts'')
                 else ret (failed_result mid (''wrong_code ('' @ int_string left @ '' attempts remaining)'')))))"

definition sms_CompleteCeremony ::
  "crypto \<Rightarrow> 's otp_ops \<Rightarrow> time \<Rightarrow> ceremony_context \<Rightarrow> response_data \<Rightarrow> ('s, phone_error, method_result) comp" where
  "sms_CompleteCeremony = phone_complete SmsMethodID"

section \<open>The carrier method\<close>

definition CarrierMethodID :: string where "CarrierMethodID = ''phone-carrier-tier''"

definition carrier_Metadata :: method_metadata where
  "carrier_Metadata =
     \<lparr>md_ID = CarrierMethodID, md_Type = MethodTypeSupplementary, md_Strength = 28, md_CostUSD = 5 / 100,
      md_UXFriction = ''med'', md_PlatformRequirements = [], md_FreshnessLifetime = 90 * 24 * ns_hour, md_Version = ''0.1.0''\<rparr>"

fun line_type_text :: "line_type \<Rightarrow> string" where
  "line_type_text LineMobile = ''mobile''"
| "line_type_text LineLandline = ''landline''"
| "line_type_text LineVOIP = ''voip''"
| "line_type_text LineUnknown = ''unknown''"

definition neutral_Lookup :: "string \<Rightarrow> carrier_signal option" where
  "neutral_Lookup e164 = Some \<lparr>cg_LineType = LineUnknown, cg_Carrier = '''', cg_Ported = False, cg_Provider = ''neutral''\<rparr>"

definition mapTwilioLineType :: "string \<Rightarrow> line_type" where
  "mapTwilioLineType t =
     (let s = to_lower (trim_space t) in
      if s = ''mobile'' then LineMobile
      else if s = ''landline'' \<or> s = ''fixedline'' then LineLandline
      else if s = ''fixedvoip'' \<or> s = ''nonfixedvoip'' \<or> s = ''voip'' then LineVOIP
      else LineUnknown)"

text \<open>The parsed body of an answer: the type and carrier if it has line-type intelligence, and the swap flag if it has one.\<close>

record twilio_body =
  tl_LineType :: "(string \<times> string) option"
  tl_LastSimSwap :: "bool option"

text \<open>
  What the lookup makes of the answer to its request: the status and the body, \<open>None\<close> if it does not parse. \<open>None\<close>
  for no answer at all.
\<close>

definition twilio_Lookup :: "(int \<times> twilio_body option) option \<Rightarrow> carrier_signal option" where
  "twilio_Lookup answer =
     (let sig = \<lparr>cg_LineType = LineUnknown, cg_Carrier = '''', cg_Ported = False, cg_Provider = ''twilio-lookup''\<rparr> in
      case answer of
        None \<Rightarrow> None
      | Some (status, body) \<Rightarrow>
          if status = 404 then Some sig
          else if status < 200 \<or> status \<ge> 300 then None
          else case body of
            None \<Rightarrow> None
          | Some lr \<Rightarrow>
              (let sig' = (case tl_LineType lr of None \<Rightarrow> sig
                 | Some (t, carrier) \<Rightarrow> sig\<lparr>cg_LineType := mapTwilioLineType t, cg_Carrier := carrier\<rparr>) in
               Some (case tl_LastSimSwap lr of None \<Rightarrow> sig' | Some swapped \<Rightarrow> sig'\<lparr>cg_Ported := swapped\<rparr>)))"

definition carrier_BeginCeremony :: "'s otp_ops \<Rightarrow> phone_env \<Rightarrow> ceremony_context \<Rightarrow> ('s, phone_error, challenge_data) comp" where
  "carrier_BeginCeremony ops env cc =
     (let phoneNumber = trim_space (cc_UserID cc) in
      if phoneNumber = '''' then throw PhNoNumber
      else if LooksLikeVOIP phoneNumber then throw PhVOIP
      else case pv_lookup env phoneNumber of
        None \<Rightarrow> throw PhLookup
      | Some sig \<Rightarrow>
          if cg_LineType sig = LineVOIP then throw PhVOIPLine
          else if cg_Ported sig then throw PhPorted
          else deliver_code ops env (cc_SessionID cc) phoneNumber
            (otp_payload phoneNumber @ [(''line_type'', JString (line_type_text (cg_LineType sig))),
              (''carrier'', JString (cg_Carrier sig)), (''carrier_provider'', JString (cg_Provider sig))]))"

definition carrier_CompleteCeremony ::
  "crypto \<Rightarrow> 's otp_ops \<Rightarrow> time \<Rightarrow> ceremony_context \<Rightarrow> response_data \<Rightarrow> ('s, phone_error, method_result) comp" where
  "carrier_CompleteCeremony = phone_complete CarrierMethodID"

section \<open>Runs\<close>

datatype phone_event = PhoneBegin ceremony_context phone_env | PhoneComplete time ceremony_context response_data

type_synonym 's phone_begin = "phone_env \<Rightarrow> ceremony_context \<Rightarrow> ('s, phone_error, challenge_data) comp"

fun phone_step :: "'s phone_begin \<Rightarrow> (time \<Rightarrow> ceremony_context \<Rightarrow> response_data \<Rightarrow> ('s, phone_error, method_result) comp) \<Rightarrow>
    phone_event \<Rightarrow> 's \<Rightarrow> 's" where
  "phone_step begins completes (PhoneBegin cc env) s = snd (begins env cc s)"
| "phone_step begins completes (PhoneComplete now cc resp) s = snd (completes now cc resp s)"

definition sms_run :: "crypto \<Rightarrow> 's otp_ops \<Rightarrow> phone_event list \<Rightarrow> 's \<Rightarrow> 's" where
  "sms_run cr ops = fold (phone_step (sms_BeginCeremony ops) (sms_CompleteCeremony cr ops))"

definition carrier_run :: "crypto \<Rightarrow> 's otp_ops \<Rightarrow> phone_event list \<Rightarrow> 's \<Rightarrow> 's" where
  "carrier_run cr ops = fold (phone_step (carrier_BeginCeremony ops) (carrier_CompleteCeremony cr ops))"

section \<open>Where the entries come from\<close>

text \<open>Every entry was put for one of the issued codes: its key, the code and when it runs out.\<close>

definition codes_from :: "(string \<times> string \<times> time) set \<Rightarrow> (string \<Rightarrow> otp_entry option) \<Rightarrow> bool" where
  "codes_from I V \<longleftrightarrow> (\<forall>k e. V k = Some e \<longrightarrow> (k, oe_OTP e, oe_ExpiresAt e) \<in> I)"

lemma codes_from_new: "codes_from I V \<Longrightarrow> (k, otp, ex) \<in> I \<Longrightarrow> codes_from I (V(k \<mapsto> otp_new otp ex))"
  by (auto simp: codes_from_def otp_new_def)

lemma codes_from_del: "codes_from I V \<Longrightarrow> codes_from I (V(k := None))"
  by (auto simp: codes_from_def)

lemma otp_try_same: "oe_OTP (snd (otp_try a e)) = oe_OTP e" "oe_ExpiresAt (snd (otp_try a e)) = oe_ExpiresAt e"
  by (simp_all add: otp_try_def Let_def)

lemma otp_try_valid: "fst (fst (otp_try a e)) \<longleftrightarrow> oe_OTP e = a"
  by (simp add: otp_try_def Let_def)

context otp_store
begin

lemma put_codes: "(k, otp, ex) \<in> I \<Longrightarrow> keeps (\<lambda>s. codes_from I (entry s)) (op_Put ops now k otp ex)"
  unfolding keeps_wp by (intro allI impI, rule wp_mono [OF put_law]) (auto simp: codes_from_new)

lemma invalidate_codes: "keeps (\<lambda>s. codes_from I (entry s)) (op_Invalidate ops k)"
  unfolding keeps_wp by (intro allI impI, rule wp_mono [OF invalidate_law]) (auto simp: codes_from_del)

lemma verify_codes: "keeps (\<lambda>s. codes_from I (entry s)) (op_Verify ops now k a)"
  unfolding keeps_def
proof (intro allI impI)
  fix s assume c: "codes_from I (entry s)"
  obtain r s' where v: "op_Verify ops now k a s = (r, s')" by fastforce
  have "(j, oe_OTP e, oe_ExpiresAt e) \<in> I" if "entry s' j = Some e" for j e
    using that verify_cases(1,2) [OF v] c
    by (cases "j = k") (auto simp: codes_from_def touches_def otp_try_same)
  then show "codes_from I (entry (snd (op_Verify ops now k a s)))" using v by (simp add: codes_from_def)
qed

lemma verify_valid:
  assumes "op_Verify ops now k a s = (Inr (True, n), s')" "codes_from I (entry s)"
  shows "\<exists>ex. (k, a, ex) \<in> I \<and> now \<le> ex"
proof -
  have "wp (op_Verify ops now k a) (\<lambda>answer _. fst answer \<longrightarrow> (\<exists>e. entry s k = Some e \<and> otp_live now e \<and> oe_OTP e = a)) (\<lambda>_ _. True) s"
    by (rule wp_mono [OF verify_law]) (auto simp: otp_try_valid)
  then show ?thesis using assms by (auto simp: wp_def codes_from_def otp_live_def)
qed

lemma besteffort_invalidate: "keeps (\<lambda>s. codes_from I (entry s)) (besteffort (op_Invalidate ops k))"
  using invalidate_codes [of I k] by (simp add: keeps_def besteffort_def)

lemma deliver_codes:
  assumes "\<And>n. pv_number env = Some n \<Longrightarrow> (storeKey sid phone, six_digits n, pv_now env + OTPTTL) \<in> I"
  shows "keeps (\<lambda>s. codes_from I (entry s)) (deliver_code ops env sid phone payload)"
  unfolding deliver_code_def by (intro keeps besteffort_invalidate put_codes assms)

lemma complete_codes: "keeps (\<lambda>s. codes_from I (entry s)) (phone_complete mid cr ops now cc resp)"
  unfolding phone_complete_def by (intro keeps verify_codes)

lemma complete_valid:
  assumes "phone_complete mid cr ops now cc resp s = (Inr res, s')" "mr_Success res" "codes_from I (entry s)"
  shows "\<exists>code ex. trimmed_field (rd_Payload resp) ''phone_number'' = Some (mr_VerifiedIdentifier res) \<and>
    trimmed_field (rd_Payload resp) ''code'' = Some code \<and>
    (storeKey (cc_SessionID cc) (mr_VerifiedIdentifier res), code, ex) \<in> I \<and> now \<le> ex"
proof -
  obtain phone code where f: "trimmed_field (rd_Payload resp) ''phone_number'' = Some phone"
      "trimmed_field (rd_Payload resp) ''code'' = Some code" "rd_Type resp = ''otp''"
    using assms(1,2) by (auto simp: phone_complete_def ret_def failed_result_def split: if_splits option.splits)
  obtain v t where v: "op_Verify ops now (storeKey (cc_SessionID cc) phone) code s = (v, t)" by fastforce
  obtain n where n: "v = Inr (True, n)" and p: "mr_VerifiedIdentifier res = phone"
    using assms(1,2) f v
    by (auto simp: phone_complete_def andThen_def onError_def ret_def failed_result_def passed_result_def
        split: sum.splits prod.splits if_splits)
  show ?thesis using verify_valid [OF v [unfolded n] assms(3)] f p by blast
qed

lemma run_codes:
  assumes "\<And>cc env. PhoneBegin cc env \<in> set evs \<Longrightarrow> keeps (\<lambda>s. codes_from I (entry s)) (begins env cc)"
    and "codes_from I (entry s)"
  shows "codes_from I (entry (fold (phone_step begins (phone_complete mid cr ops)) evs s))"
  using assms
proof (induction evs arbitrary: s)
  case (Cons ev evs)
  have "codes_from I (entry (phone_step begins (phone_complete mid cr ops) ev s))"
  proof (cases ev)
    case (PhoneBegin cc env)
    then show ?thesis using Cons.prems by (simp add: keeps_def)
  next
    case (PhoneComplete now cc resp)
    then show ?thesis using complete_codes [of I mid cr now cc resp] Cons.prems(2) by (simp add: keeps_def)
  qed
  then show ?case using Cons.IH Cons.prems(1) by simp
qed simp

end

section \<open>A verified number was sent its code\<close>

text \<open>The codes the begins of a run may have issued; \<open>fine\<close> says which requests get as far as that.\<close>

definition issued :: "(ceremony_context \<Rightarrow> phone_env \<Rightarrow> bool) \<Rightarrow> phone_event list \<Rightarrow> (string \<times> string \<times> time) set" where
  "issued fine evs = {(storeKey (cc_SessionID cc) (cc_UserID cc), six_digits n, pv_now env + OTPTTL) |cc env n.
     PhoneBegin cc env \<in> set evs \<and> fine cc env \<and> pv_number env = Some n}"

definition sms_fine :: "ceremony_context \<Rightarrow> phone_env \<Rightarrow> bool" where
  "sms_fine cc env \<longleftrightarrow> trim_space (cc_UserID cc) \<noteq> '''' \<and> \<not> LooksLikeVOIP (trim_space (cc_UserID cc))"

definition carrier_fine :: "ceremony_context \<Rightarrow> phone_env \<Rightarrow> bool" where
  "carrier_fine cc env \<longleftrightarrow> sms_fine cc env \<and>
     (\<exists>sig. pv_lookup env (trim_space (cc_UserID cc)) = Some sig \<and> cg_LineType sig \<noteq> LineVOIP \<and> \<not> cg_Ported sig)"

lemma storeKey_trim [simp]: "storeKey sid (trim_space u) = storeKey sid u"
  by (simp add: storeKey_def)

lemma issuedI:
  "PhoneBegin cc env \<in> set evs \<Longrightarrow> fine cc env \<Longrightarrow> pv_number env = Some n \<Longrightarrow>
     (storeKey (cc_SessionID cc) (cc_UserID cc), six_digits n, pv_now env + OTPTTL) \<in> issued fine evs"
  unfolding issued_def by blast

context otp_store
begin

lemma sms_begin_codes:
  assumes "PhoneBegin cc env \<in> set evs"
  shows "keeps (\<lambda>s. codes_from (issued sms_fine evs) (entry s)) (sms_BeginCeremony ops env cc)"
  unfolding sms_BeginCeremony_def Let_def
  by (intro keeps deliver_codes) (use assms in \<open>auto intro!: issuedI simp: sms_fine_def\<close>)

lemma carrier_begin_codes:
  assumes "PhoneBegin cc env \<in> set evs"
  shows "keeps (\<lambda>s. codes_from (issued carrier_fine evs) (entry s)) (carrier_BeginCeremony ops env cc)"
  unfolding carrier_BeginCeremony_def Let_def
  by (intro keeps deliver_codes) (use assms in \<open>auto intro!: issuedI simp: sms_fine_def carrier_fine_def\<close>)

end

text \<open>
  \<open>sent_its_code fine evs cc resp now res\<close>: some begin of this very session, for the number now verified, drew the
  code that was answered, at most five minutes ago, and its number passed the checks.
\<close>

definition sent_its_code ::
  "(ceremony_context \<Rightarrow> phone_env \<Rightarrow> bool) \<Rightarrow> phone_event list \<Rightarrow> ceremony_context \<Rightarrow> response_data \<Rightarrow> time \<Rightarrow> method_result \<Rightarrow> bool" where
  "sent_its_code fine evs cc resp now res \<longleftrightarrow>
     (\<exists>cc' env n. PhoneBegin cc' env \<in> set evs \<and> fine cc' env \<and> pv_number env = Some n \<and>
        cc_SessionID cc' = cc_SessionID cc \<and> trim_space (cc_UserID cc') = mr_VerifiedIdentifier res \<and>
        trimmed_field (rd_Payload resp) ''code'' = Some (six_digits n) \<and> now \<le> pv_now env + OTPTTL)"

text \<open>Session ids are hexadecimal: what is needed is that they do not contain the separator of the store keys.\<close>

definition plain_sessions :: "phone_event list \<Rightarrow> ceremony_context \<Rightarrow> bool" where
  "plain_sessions evs cc \<longleftrightarrow> CHR ''|'' \<notin> set (cc_SessionID cc) \<and>
     (\<forall>cc' env. PhoneBegin cc' env \<in> set evs \<longrightarrow> CHR ''|'' \<notin> set (cc_SessionID cc'))"

lemma issued_sent:
  assumes "plain_sessions evs cc" "(storeKey (cc_SessionID cc) (mr_VerifiedIdentifier res), code, ex) \<in> issued fine evs" "now \<le> ex"
    and f: "trimmed_field (rd_Payload resp) ''phone_number'' = Some (mr_VerifiedIdentifier res)"
      "trimmed_field (rd_Payload resp) ''code'' = Some code"
  shows "sent_its_code fine evs cc resp now res"
proof -
  obtain cc' env n where i: "PhoneBegin cc' env \<in> set evs" "fine cc' env" "pv_number env = Some n"
      "storeKey (cc_SessionID cc) (mr_VerifiedIdentifier res) = storeKey (cc_SessionID cc') (cc_UserID cc')"
      "code = six_digits n" "ex = pv_now env + OTPTTL"
    using assms(2) unfolding issued_def by auto
  have "trim_space (mr_VerifiedIdentifier res) = mr_VerifiedIdentifier res"
    using f(1) trim_space_idem by (auto simp: trimmed_field_def split: option.splits json_value.splits if_splits)
      (metis trim_space_idem)+
  moreover have "cc_SessionID cc = cc_SessionID cc'" "trim_space (mr_VerifiedIdentifier res) = trim_space (cc_UserID cc')"
    using i(1,4) assms(1) separator_inj [of "CHR ''|''" "cc_SessionID cc" "cc_SessionID cc'"]
    by (auto simp: storeKey_def plain_sessions_def)
  ultimately show ?thesis unfolding sent_its_code_def using i f assms(3) by (metis (no_types, lifting))
qed

context otp_store
begin

lemma sms_success:
  assumes "fst (sms_CompleteCeremony cr ops now cc resp (sms_run cr ops evs s)) = Inr res" "mr_Success res"
    and "entry s = Map.empty" "plain_sessions evs cc"
  shows "sent_its_code sms_fine evs cc resp now res"
proof -
  have "codes_from (issued sms_fine evs) (entry (sms_run cr ops evs s))"
    unfolding sms_run_def sms_CompleteCeremony_def
    by (rule run_codes [OF sms_begin_codes]) (simp_all add: assms(3) codes_from_def)
  moreover obtain s' where "sms_CompleteCeremony cr ops now cc resp (sms_run cr ops evs s) = (Inr res, s')"
    using assms(1) by (metis prod.collapse)
  ultimately show ?thesis using complete_valid assms(2) unfolding sms_CompleteCeremony_def
    using issued_sent [OF assms(4)] by blast
qed

lemma carrier_success:
  assumes "fst (carrier_CompleteCeremony cr ops now cc resp (carrier_run cr ops evs s)) = Inr res" "mr_Success res"
    and "entry s = Map.empty" "plain_sessions evs cc"
  shows "sent_its_code carrier_fine evs cc resp now res"
proof -
  have "codes_from (issued carrier_fine evs) (entry (carrier_run cr ops evs s))"
    unfolding carrier_run_def carrier_CompleteCeremony_def
    by (rule run_codes [OF carrier_begin_codes]) (simp_all add: assms(3) codes_from_def)
  moreover obtain s' where "carrier_CompleteCeremony cr ops now cc resp (carrier_run cr ops evs s) = (Inr res, s')"
    using assms(1) by (metis prod.collapse)
  ultimately show ?thesis using complete_valid assms(2) unfolding carrier_CompleteCeremony_def
    using issued_sent [OF assms(4)] by blast
qed

end

text \<open>A durable store no call has written yet; which of its calls will fail is open.\<close>

definition unused :: "call_fate list \<Rightarrow> 'v ttl_store" where
  "unused calls = \<lparr>tt_docs = Map.empty, tt_calls = calls\<rparr>"

lemma unused_entry: "durable_entry name (unused calls) = Map.empty"
  by (simp add: durable_entry_def tt_view_def unused_def fun_eq_iff)

text \<open>C17: Whoever completes the sms method answered a code that was drawn for this very number in this very session at most
  five minutes before, the number not being of a fictional or VoIP band; so with each of the three stores, after any sequence of
  begins and completions by anyone, and whichever calls to the store fail. The carrier method adds that its lookup
  called the line neither VoIP nor recently ported.
\<close>

theorem verified_number_was_sent_its_code:
  assumes "plain_sessions evs cc" "mr_Success res"
  shows "(fst (sms_CompleteCeremony cr memory_otp now cc resp (sms_run cr memory_otp evs Map.empty)) = Inr res \<longrightarrow>
      sent_its_code sms_fine evs cc resp now res) \<and>
    (fst (sms_CompleteCeremony cr redis_otp now cc resp (sms_run cr redis_otp evs (unused calls))) = Inr res \<longrightarrow>
      sent_its_code sms_fine evs cc resp now res) \<and>
    (fst (sms_CompleteCeremony cr firestore_otp now cc resp (sms_run cr firestore_otp evs (unused calls))) = Inr res \<longrightarrow>
      sent_its_code sms_fine evs cc resp now res) \<and>
    (fst (carrier_CompleteCeremony cr memory_otp now cc resp (carrier_run cr memory_otp evs Map.empty)) = Inr res \<longrightarrow>
      sent_its_code carrier_fine evs cc resp now res)"
  unfolding redis_otp_def firestore_otp_def
  by (intro conjI impI memory_codes.sms_success redis_codes.codes.sms_success firestore_codes.codes.sms_success
      memory_codes.carrier_success; (assumption | rule assms refl unused_entry))

definition phone_crypto :: crypto where
  "phone_crypto = \<lparr>c_sha256 = (\<lambda>b. b), c_hmac = (\<lambda>_ _. []), c_sign = (\<lambda>_ _. []), c_verify = (\<lambda>_ _ _. False)\<rparr>"

definition phone_context :: ceremony_context where
  "phone_context = \<lparr>cc_SessionID = ''5e'', cc_HolderDID = '''', cc_UserID = '' +49301'', cc_MethodID = '''', cc_IssuerDID = '''',
     cc_StartedAt = 0\<rparr>"

definition phone_events :: "phone_event list" where
  "phone_events = [PhoneBegin phone_context
     \<lparr>pv_now = 0, pv_number = Some 42, pv_sent = True, pv_lookup = (\<lambda>_. None)\<rparr>]"

definition phone_answer :: response_data where
  "phone_answer = \<lparr>rd_Type = ''otp'', rd_Payload = [(''phone_number'', JString ''+49301''), (''code'', JString ''000042'')]\<rparr>"

lemma phone_texts:
  "trim_space '' +49301'' = ''+49301''" "trim_space ''+49301'' = ''+49301''" "trim_space ''000042'' = ''000042''"
  "LooksLikeVOIP ''+49301'' = False"
proof -
  have p: "printable ''+49301''" "printable ''000042''" by (simp_all add: printable_def)
  show t: "trim_space '' +49301'' = ''+49301''" "trim_space ''+49301'' = ''+49301''" "trim_space ''000042'' = ''000042''"
    using p by simp_all
  have f: "strip_format ''+49301'' = ''+49301''" by (simp add: strip_format_def go_string)
  show "LooksLikeVOIP ''+49301'' = False"
    by (simp add: LooksLikeVOIP_def t f has_prefix_def fictional555_def knownVOIPPrefixes_def)
qed

lemma phone_digits: "six_digits 42 = ''000042''"
  by (simp add: six_digits_def go_string)

lemma phone_begun:
  "sms_run phone_crypto memory_otp phone_events Map.empty = [''5e|+49301'' \<mapsto> otp_new ''000042'' OTPTTL]"
  by (simp add: sms_run_def phone_events_def sms_BeginCeremony_def phone_context_def phone_texts deliver_code_def phone_digits
      andThen_def onError_def ret_def memory_otp_def memory_otp_Put_def storeKey_def Let_def)

lemma phone_succeeds:
  "\<exists>res. fst (sms_CompleteCeremony phone_crypto memory_otp 60 phone_context phone_answer
       (sms_run phone_crypto memory_otp phone_events Map.empty)) = Inr res \<and> mr_Success res"
  unfolding phone_begun
  by (simp add: sms_CompleteCeremony_def phone_complete_def phone_answer_def phone_context_def trimmed_field_def phone_texts
      andThen_def onError_def ret_def memory_otp_def memory_otp_Verify_def storeKey_def otp_new_def OTPTTL_def ns_minute_def
      otp_try_def passed_result_def)

theorem verified_number_was_sent_its_code_witness:
  "\<exists>res. fst (sms_CompleteCeremony phone_crypto memory_otp 60 phone_context phone_answer
       (sms_run phone_crypto memory_otp phone_events Map.empty)) = Inr res \<and>
     sent_its_code sms_fine phone_events phone_context phone_answer 60 res"
proof -
  obtain res where r: "fst (sms_CompleteCeremony phone_crypto memory_otp 60 phone_context phone_answer
       (sms_run phone_crypto memory_otp phone_events Map.empty)) = Inr res" "mr_Success res"
    using phone_succeeds by blast
  have "plain_sessions phone_events phone_context" by (simp add: plain_sessions_def phone_events_def phone_context_def)
  from verified_number_was_sent_its_code [OF this r(2), of phone_crypto 60 phone_answer "[]"] r(1) show ?thesis by blast
qed

end
