(* ===== verification/Email_Links.thy ===== *)
theory Email_Links
  imports Otp_Store Vouching
begin

text \<open>
  The two email ceremonies, \<open>src/src/methods/email/email.go\<close> with \<open>disposable.go\<close> and its stores, and
  \<open>src/src/methods/email-tier/email_tier.go\<close> with \<open>enrichment.go\<close>, \<open>disposable.go\<close> and its store: a link with a token goes
  to an address and is opened. The clock, the random token, whether the vendor delivered the mail and what the breach
  lookup answered are the environment of a request, and so is the link that \<open>net/url\<close> builds for a session and a token.
\<close>

section \<open>Token stores\<close>

record 'v token_entry =
  te_Token :: string
  te_Value :: 'v
  te_ExpiresAt :: time

record ('s, 'v) token_ops =
  tk_Put :: "time \<Rightarrow> string \<Rightarrow> string \<Rightarrow> 'v \<Rightarrow> time \<Rightarrow> ('s, unit, unit) comp"
  tk_Lookup :: "time \<Rightarrow> string \<Rightarrow> string \<Rightarrow> ('s, unit, 'v option) comp"
  tk_Delete :: "string \<Rightarrow> ('s, unit, unit) comp"

definition token_new :: "string \<Rightarrow> 'v \<Rightarrow> time \<Rightarrow> 'v token_entry" where
  "token_new token v expiresAt = \<lparr>te_Token = token, te_Value = v, te_ExpiresAt = expiresAt\<rparr>"

type_synonym 'v memory_tokens = "string \<rightharpoonup> 'v token_entry"

definition memory_token_Put :: "time \<Rightarrow> string \<Rightarrow> string \<Rightarrow> 'v \<Rightarrow> time \<Rightarrow> ('v memory_tokens, unit, unit) comp" where
  "memory_token_Put now sid token v expiresAt m = (Inr (), m(sid \<mapsto> token_new token v expiresAt))"

definition memory_token_Lookup :: "time \<Rightarrow> string \<Rightarrow> string \<Rightarrow> ('v memory_tokens, unit, 'v option) comp" where
  "memory_token_Lookup now sid token m =
     (case m sid of
        None \<Rightarrow> (Inr None, m)
      | Some e \<Rightarrow>
          if now > te_ExpiresAt e then (Inr None, m(sid := None))
          else if te_Token e \<noteq> token then (Inr None, m)
          else (Inr (Some (te_Value e)), m))"

definition memory_token_Delete :: "string \<Rightarrow> ('v memory_tokens, unit, unit) comp" where
  "memory_token_Delete sid m = (Inr (), m(sid := None))"

definition memory_tokens :: "('v memory_tokens, 'v) token_ops" where
  "memory_tokens = \<lparr>tk_Put = memory_token_Put, tk_Lookup = memory_token_Lookup, tk_Delete = memory_token_Delete\<rparr>"

definition durable_token_Put ::
  "'v token_entry kv_client \<Rightarrow> (string \<Rightarrow> string) \<Rightarrow> time \<Rightarrow> string \<Rightarrow> string \<Rightarrow> 'v \<Rightarrow> time \<Rightarrow> ('v token_entry ttl_store, unit, unit) comp" where
  "durable_token_Put cl name now sid token v expiresAt =
     kc_Set cl now (name sid) (Some (token_new token v expiresAt)) (sub_time expiresAt now)"

definition durable_token_Lookup ::
  "'v token_entry kv_client \<Rightarrow> (string \<Rightarrow> string) \<Rightarrow> time \<Rightarrow> string \<Rightarrow> string \<Rightarrow> ('v token_entry ttl_store, unit, 'v option) comp" where
  "durable_token_Lookup cl name now sid token =
     andThen (kc_Get cl now (name sid)) (\<lambda>found.
       case found of
         None \<Rightarrow> ret None
       | Some None \<Rightarrow> throw ()
       | Some (Some e) \<Rightarrow>
           if now > te_ExpiresAt e then andThen (besteffort (kc_Del cl (name sid))) (\<lambda>_. ret None)
           else if te_Token e \<noteq> token then ret None
           else ret (Some (te_Value e)))"

definition durable_tokens :: "'v token_entry kv_client \<Rightarrow> (string \<Rightarrow> string) \<Rightarrow> ('v token_entry ttl_store, 'v) token_ops" where
  "durable_tokens cl name =
     \<lparr>tk_Put = durable_token_Put cl name, tk_Lookup = durable_token_Lookup cl name, tk_Delete = (\<lambda>sid. kc_Del cl (name sid))\<rparr>"

definition redisTokenKey :: "string \<Rightarrow> string" where
  "redisTokenKey sid = ''personhood:email-token:'' @ sid"

definition redis_tokens :: "(string token_entry ttl_store, string) token_ops" where
  "redis_tokens = durable_tokens redis_client redisTokenKey"

definition firestore_tokens :: "(string token_entry ttl_store, string) token_ops" where
  "firestore_tokens = durable_tokens firestore_client (\<lambda>sid. sid)"

section \<open>Addresses\<close>

definition disposableDomains :: "string list" where
  "disposableDomains =
     [''10minutemail.com'', ''20minutemail.com'', ''33mail.com'', ''airmail.cc'', ''anonbox.net'', ''burnermail.io'',
      ''deadaddress.com'', ''discard.email'', ''dispostable.com'', ''emailondeck.com'', ''fakeinbox.com'', ''fakemail.net'',
      ''getairmail.com'', ''getnada.com'', ''guerrillamail.com'', ''guerrillamail.net'', ''guerrillamail.org'',
      ''harakirimail.com'', ''inboxbear.com'', ''inboxkitten.com'', ''mailcatch.com'', ''maildrop.cc'', ''mailinator.com'',
      ''mailnesia.com'', ''mintemail.com'', ''mohmal.com'', ''mytemp.email'', ''sharklasers.com'', ''spamgourmet.com'',
      ''tempmail.com'', ''tempmail.io'', ''tempmail.net'', ''tempr.email'', ''throwawaymail.com'', ''trashmail.com'',
      ''trashmail.de'', ''yopmail.com'']"

definition IsDisposable :: "string \<Rightarrow> bool" where
  "IsDisposable raw =
     (let email = to_lower (trim_space raw) in
      case last_index email (CHR ''@'') of
        None \<Rightarrow> False
      | Some i \<Rightarrow> if i = 0 \<or> i = length email - 1 then False else drop (i + 1) email \<in> set disposableDomains)"

definition looksLikeEmail :: "string \<Rightarrow> bool" where
  "looksLikeEmail s \<longleftrightarrow>
     (case last_index s (CHR ''@'') of
        None \<Rightarrow> False
      | Some i \<Rightarrow> i > 0 \<and> i < length s - 1 \<and> \<not> contains_any s [byte 32, byte 9, byte 13, byte 10])"

section \<open>The email method\<close>

definition TokenTTL :: duration where "TokenTTL = 15 * ns_minute"
definition EmailMethodID :: string where "EmailMethodID = ''email''"
definition EmailTierMethodID :: string where "EmailTierMethodID = ''email-tier''"

definition email_Metadata :: method_metadata where
  "email_Metadata =
     \<lparr>md_ID = EmailMethodID, md_Type = MethodTypeSupplementary, md_Strength = 8, md_CostUSD = 0,
      md_UXFriction = ''low'', md_PlatformRequirements = [], md_FreshnessLifetime = 90 * 24 * ns_hour, md_Version = ''0.1.0''\<rparr>"

text \<open>The enrichment of an address, in the tier method.\<close>

record email_signal =
  es_DomainReputation :: int
  es_DomainDisposable :: bool
  es_BreachPresence :: bool
  es_BreachCount :: int
  es_Provider :: string

record email_env =
  ee_now :: time
  ee_bytes :: "bytes option"
  ee_link :: "string \<Rightarrow> string \<Rightarrow> string option"
  ee_sent :: bool
  ee_enrich :: "string \<Rightarrow> email_signal option"

datatype email_error = EmNoAddress | EmInvalid | EmDisposable | EmEnrich | EmRandom | EmStorePut | EmLink | EmSend | EmStoreLookup

definition generateToken :: "bytes option \<Rightarrow> string option" where
  "generateToken buf = map_option RawURL_encode buf"

text \<open>Store the token, build the link, send it; on a failure the token is taken back, if that succeeds.\<close>

definition deliver_link ::
  "('s, 'v) token_ops \<Rightarrow> email_env \<Rightarrow> string \<Rightarrow> 'v \<Rightarrow> (string \<Rightarrow> json_object) \<Rightarrow> ('s, email_error, challenge_data) comp" where
  "deliver_link ops env sid v payload =
     (case generateToken (ee_bytes env) of
        None \<Rightarrow> throw EmRandom
      | Some token \<Rightarrow>
          andThen (onError (\<lambda>_. EmStorePut) (tk_Put ops (ee_now env) sid token v (ee_now env + TokenTTL))) (\<lambda>_.
            case ee_link env sid token of
              None \<Rightarrow> andThen (besteffort (tk_Delete ops sid)) (\<lambda>_. throw EmLink)
            | Some link \<Rightarrow>
                if \<not> ee_sent env then andThen (besteffort (tk_Delete ops sid)) (\<lambda>_. throw EmSend)
                else ret \<lparr>ch_Type = ''magic-link'', ch_Payload = payload link\<rparr>))"

definition link_payload :: "string \<Rightarrow> string \<Rightarrow> json_object" where
  "link_payload emailAddr link =
     [(''magic_link_url'', JString link), (''email_address'', JString emailAddr), (''expires_in_seconds'', JNum 900)]"

definition email_BeginCeremony ::
  "('s, string) token_ops \<Rightarrow> email_env \<Rightarrow> ceremony_context \<Rightarrow> ('s, email_error, challenge_data) comp" where
  "email_BeginCeremony ops env cc =
     (let emailAddr = trim_space (cc_UserID cc) in
      if emailAddr = '''' then throw EmNoAddress
      else if \<not> looksLikeEmail emailAddr then throw EmInvalid
      else if IsDisposable emailAddr then throw EmDisposable
      else deliver_link ops env (cc_SessionID cc) emailAddr (link_payload emailAddr))"

definition email_digest :: "crypto \<Rightarrow> string \<Rightarrow> string \<Rightarrow> string \<Rightarrow> string" where
  "email_digest cr sid token emailAddr = sha256_hex cr (sid @ [byte 0] @ token @ [byte 0] @ to_lower emailAddr)"

text \<open>Both completions, with what a token stands for turned into the address and the digest.\<close>

definition link_complete ::
  "string \<Rightarrow> ('s, 'v) token_ops \<Rightarrow> ('v \<Rightarrow> string) \<Rightarrow> (string \<Rightarrow> 'v \<Rightarrow> string) \<Rightarrow> time \<Rightarrow> ceremony_context \<Rightarrow> response_data \<Rightarrow>
   ('s, email_error, method_result) comp" where
  "link_complete mid ops address digest now cc resp =
     (if rd_Type resp \<noteq> ''magic-link-click'' then ret (failed_result mid ''unexpected response type'')
      else case map_of (rd_Payload resp) ''token'' of
        None \<Rightarrow> ret (failed_result mid ''missing token in response payload'')
      | Some raw \<Rightarrow>
          (case (case raw of JString token \<Rightarrow> token | _ \<Rightarrow> '''') of
             [] \<Rightarrow> ret (failed_result mid ''token must be a non-empty string'')
           | token \<Rightarrow>
               andThen (onError (\<lambda>_. EmStoreLookup) (tk_Lookup ops now (cc_SessionID cc) token)) (\<lambda>found.
                 case found of
                   None \<Rightarrow> ret (failed_result mid ''invalid_or_expired_token'')
                 | Some v \<Rightarrow>
                     andThen (besteffort (tk_Delete ops (cc_SessionID cc))) (\<lambda>_.
                       ret ((passed_result mid now (digest token v))\<lparr>mr_VerifiedIdentifier := address v\<rparr>)))))"

definition email_CompleteCeremony ::
  "crypto \<Rightarrow> ('s, string) token_ops \<Rightarrow> time \<Rightarrow> ceremony_context \<Rightarrow> response_data \<Rightarrow> ('s, email_error, method_result) comp" where
  "email_CompleteCeremony cr ops now cc =
     link_complete EmailMethodID ops (\<lambda>a. a) (email_digest cr (cc_SessionID cc)) now cc"

section \<open>The tier method\<close>

definition majorMailboxProviders :: "(string \<times> int) list" where
  "majorMailboxProviders =
     [(''gmail.com'', 60), (''googlemail.com'', 60), (''outlook.com'', 60), (''hotmail.com'', 58), (''live.com'', 58),
      (''yahoo.com'', 55), (''ymail.com'', 55), (''icloud.com'', 62), (''me.com'', 62), (''proton.me'', 60),
      (''protonmail.com'', 60), (''aol.com'', 50), (''gmx.com'', 52), (''zoho.com'', 55)]"

definition tier_disposableDomains :: "string list" where
  "tier_disposableDomains =
     [''10minutemail.com'', ''20minutemail.com'', ''33mail.com'', ''airmail.cc'', ''anonbox.net'', ''burnermail.io'',
      ''deadaddress.com'', ''discard.email'', ''dispostable.com'', ''emailondeck.com'', ''fakeinbox.com'', ''fakemail.net'',
      ''getairmail.com'', ''getnada.com'', ''guerrillamail.com'', ''guerrillamail.net'', ''guerrillamail.org'',
      ''harakirimail.com'', ''inboxbear.com'', ''inboxkitten.com'', ''mailcatch.com'', ''maildrop.cc'', ''mailinator.com'',
      ''mailnesia.com'', ''mintemail.com'', ''mohmal.com'', ''mytemp.email'', ''sharklasers.com'', ''spamgourmet.com'',
      ''tempmail.com'', ''tempmail.io'', ''tempmail.net'', ''tempr.email'', ''throwawaymail.com'', ''trashmail.com'',
      ''trashmail.de'', ''yopmail.com'']"

definition DomainReputation :: "string \<Rightarrow> int" where
  "DomainReputation raw =
     (let domain = to_lower (trim_space raw) in
      if domain = '''' then 50
      else if domain \<in> set tier_disposableDomains then 0
      else case map_of majorMailboxProviders domain of Some score \<Rightarrow> score | None \<Rightarrow> 55)"

definition domainOf :: "string \<Rightarrow> string" where
  "domainOf raw =
     (let email = to_lower (trim_space raw) in
      case last_index email (CHR ''@'') of
        None \<Rightarrow> ''''
      | Some i \<Rightarrow> if i = 0 \<or> i = length email - 1 then '''' else drop (i + 1) email)"

definition tier_IsDisposable :: "string \<Rightarrow> bool" where
  "tier_IsDisposable raw =
     (let email = to_lower (trim_space raw) in
      case last_index email (CHR ''@'') of
        None \<Rightarrow> False
      | Some i \<Rightarrow> if i = 0 \<or> i = length email - 1 then False else drop (i + 1) email \<in> set tier_disposableDomains)"

lemma lists_in_sync: "tier_IsDisposable = IsDisposable"
proof -
  have same: "tier_disposableDomains = disposableDomains" by (simp only: tier_disposableDomains_def disposableDomains_def)
  show ?thesis unfolding fun_eq_iff tier_IsDisposable_def IsDisposable_def same by simp
qed

definition local_signal :: "string \<Rightarrow> string \<Rightarrow> email_signal" where
  "local_signal provider email =
     \<lparr>es_DomainReputation = DomainReputation (domainOf email), es_DomainDisposable = tier_IsDisposable email,
      es_BreachPresence = False, es_BreachCount = 0, es_Provider = provider\<rparr>"

definition neutral_Enrich :: "string \<Rightarrow> email_signal option" where
  "neutral_Enrich email = Some (local_signal ''neutral'' email)"

text \<open>The status of the answer, and the breaches in its body, \<open>None\<close> if it does not parse; no answer is an error.\<close>

definition hibp_Enrich :: "(int \<times> string list option) option \<Rightarrow> string \<Rightarrow> email_signal option" where
  "hibp_Enrich answer email =
     (let sig = local_signal ''haveibeenpwned'' email in
      case answer of
        None \<Rightarrow> None
      | Some (status, body) \<Rightarrow>
          if status = 404 then Some sig
          else if status = 200 then
            map_option (\<lambda>breaches. sig\<lparr>es_BreachPresence := breaches \<noteq> [], es_BreachCount := int (length breaches)\<rparr>) body
          else None)"

definition tier_Metadata :: method_metadata where
  "tier_Metadata =
     \<lparr>md_ID = EmailTierMethodID, md_Type = MethodTypeSupplementary, md_Strength = 22, md_CostUSD = 5 / 1000,
      md_UXFriction = ''low'', md_PlatformRequirements = [], md_FreshnessLifetime = 90 * 24 * ns_hour, md_Version = ''0.1.0''\<rparr>"

definition bool_text :: "bool \<Rightarrow> string" where
  "bool_text b = (if b then ''true'' else ''false'')"

definition tier_digest :: "crypto \<Rightarrow> string \<Rightarrow> string \<Rightarrow> string \<times> email_signal \<Rightarrow> string" where
  "tier_digest cr sid token v =
     (let (emailAddr, sig) = v in
      sha256_hex cr (sid @ [byte 0] @ token @ [byte 0] @ to_lower (trim_space emailAddr) @ [byte 0] @
        ''rep='' @ int_string (es_DomainReputation sig) @ '';breach='' @ bool_text (es_BreachPresence sig) @
        '';n='' @ int_string (es_BreachCount sig) @ '';p='' @ es_Provider sig))"

definition tier_BeginCeremony ::
  "('s, string \<times> email_signal) token_ops \<Rightarrow> email_env \<Rightarrow> ceremony_context \<Rightarrow> ('s, email_error, challenge_data) comp" where
  "tier_BeginCeremony ops env cc =
     (let emailAddr = trim_space (cc_UserID cc) in
      if emailAddr = '''' then throw EmNoAddress
      else if \<not> looksLikeEmail emailAddr then throw EmInvalid
      else case ee_enrich env emailAddr of
        None \<Rightarrow> throw EmEnrich
      | Some sig \<Rightarrow>
          if es_DomainDisposable sig then throw EmDisposable
          else deliver_link ops env (cc_SessionID cc) (emailAddr, sig) (\<lambda>link. link_payload emailAddr link @
            [(''domain_reputation'', JNum (es_DomainReputation sig)), (''breach_presence'', JBool (es_BreachPresence sig)),
             (''enrichment_provider'', JString (es_Provider sig))]))"

definition tier_CompleteCeremony ::
  "crypto \<Rightarrow> ('s, string \<times> email_signal) token_ops \<Rightarrow> time \<Rightarrow> ceremony_context \<Rightarrow> response_data \<Rightarrow> ('s, email_error, method_result) comp" where
  "tier_CompleteCeremony cr ops now cc =
     link_complete EmailTierMethodID ops fst (tier_digest cr (cc_SessionID cc)) now cc"

section \<open>The contract of a token store\<close>

locale token_store =
  fixes ops :: "('s, 'v) token_ops"
    and entry :: "'s \<Rightarrow> string \<Rightarrow> 'v token_entry option"
  assumes put_law: "wp (tk_Put ops now k token v ex) (\<lambda>_ s'. entry s' = (entry s)(k \<mapsto> token_new token v ex))
      (\<lambda>_ s'. entry s' \<in> {entry s, (entry s)(k \<mapsto> token_new token v ex)}) s"
    and lookup_law: "wp (tk_Lookup ops now k token)
      (\<lambda>found s'. touches k (entry s) (entry s') \<and> entry s' k \<in> {None, entry s k} \<and>
         (\<forall>v. found = Some v \<longrightarrow> (\<exists>e. entry s k = Some e \<and> te_Token e = token \<and> te_Value e = v \<and> now \<le> te_ExpiresAt e)))
      (\<lambda>_ s'. entry s' = entry s) s"
    and delete_law: "wp (tk_Delete ops k) (\<lambda>_ s'. entry s' = (entry s)(k := None))
      (\<lambda>_ s'. entry s' \<in> {entry s, (entry s)(k := None)}) s"

text \<open>Every entry was put for one of the issued links.\<close>

definition tokens_from :: "(string \<times> string \<times> 'v \<times> time) set \<Rightarrow> (string \<Rightarrow> 'v token_entry option) \<Rightarrow> bool" where
  "tokens_from I V \<longleftrightarrow> (\<forall>k e. V k = Some e \<longrightarrow> (k, te_Token e, te_Value e, te_ExpiresAt e) \<in> I)"

datatype email_event = EmailBegin ceremony_context email_env | EmailComplete time ceremony_context response_data

fun email_step ::
  "(email_env \<Rightarrow> ceremony_context \<Rightarrow> ('s, email_error, challenge_data) comp) \<Rightarrow>
   (time \<Rightarrow> ceremony_context \<Rightarrow> response_data \<Rightarrow> ('s, email_error, method_result) comp) \<Rightarrow> email_event \<Rightarrow> 's \<Rightarrow> 's" where
  "email_step begins completes (EmailBegin cc env) s = snd (begins env cc s)"
| "email_step begins completes (EmailComplete now cc resp) s = snd (completes now cc resp s)"

definition email_run :: "crypto \<Rightarrow> ('s, string) token_ops \<Rightarrow> email_event list \<Rightarrow> 's \<Rightarrow> 's" where
  "email_run cr ops = fold (email_step (email_BeginCeremony ops) (email_CompleteCeremony cr ops))"

definition tier_run :: "crypto \<Rightarrow> ('s, string \<times> email_signal) token_ops \<Rightarrow> email_event list \<Rightarrow> 's \<Rightarrow> 's" where
  "tier_run cr ops = fold (email_step (tier_BeginCeremony ops) (tier_CompleteCeremony cr ops))"

context token_store
begin

lemma put_tokens: "(k, token, v, ex) \<in> I \<Longrightarrow> keeps (\<lambda>s. tokens_from I (entry s)) (tk_Put ops now k token v ex)"
  unfolding keeps_wp by (intro allI impI, rule wp_mono [OF put_law]) (auto simp: tokens_from_def token_new_def split: if_splits)

lemma delete_tokens: "keeps (\<lambda>s. tokens_from I (entry s)) (besteffort (tk_Delete ops k))"
  unfolding keeps_wp by (intro allI impI wp_besteffort, rule wp_mono [OF delete_law]) (auto simp: tokens_from_def split: if_splits)

lemma lookup_tokens: "keeps (\<lambda>s. tokens_from I (entry s)) (tk_Lookup ops now k token)"
proof -
  have "tokens_from I (entry s')" if "tokens_from I (entry s)" "touches k (entry s) (entry s')" "entry s' k \<in> {None, entry s k}" for s s'
    using that unfolding tokens_from_def touches_def by (metis insertE option.distinct(1) singletonD)
  then show ?thesis unfolding keeps_wp by (intro allI impI, rule wp_mono [OF lookup_law]) auto
qed

lemma deliver_tokens:
  assumes "\<And>b. ee_bytes env = Some b \<Longrightarrow> (sid, RawURL_encode b, v, ee_now env + TokenTTL) \<in> I"
  shows "keeps (\<lambda>s. tokens_from I (entry s)) (deliver_link ops env sid v payload)"
  unfolding deliver_link_def
  by (intro keeps delete_tokens put_tokens) (use assms in \<open>auto simp: generateToken_def\<close>)

lemma complete_tokens: "keeps (\<lambda>s. tokens_from I (entry s)) (link_complete mid ops address digest now cc resp)"
proof -
  have "keeps (\<lambda>s. tokens_from I (entry s)) (case t of [] \<Rightarrow> m | c # cs \<Rightarrow> f (c # cs))"
    if "keeps (\<lambda>s. tokens_from I (entry s)) m" "\<And>t. keeps (\<lambda>s. tokens_from I (entry s)) (f t)"
    for t and m :: "('s, email_error, method_result) comp" and f
    using that by (cases t) auto
  then show ?thesis unfolding link_complete_def
    by (auto intro!: keeps delete_tokens lookup_tokens split: list.split)
qed

lemma complete_opened:
  assumes "link_complete mid ops address digest now cc resp s = (Inr res, s')" "mr_Success res" "tokens_from I (entry s)"
  shows "\<exists>token v ex. map_of (rd_Payload resp) ''token'' = Some (JString token) \<and> address v = mr_VerifiedIdentifier res \<and>
    (cc_SessionID cc, token, v, ex) \<in> I \<and> now \<le> ex"
proof -
  obtain token where t: "map_of (rd_Payload resp) ''token'' = Some (JString token)" "token \<noteq> ''''" "rd_Type resp = ''magic-link-click''"
    using assms(1,2)
    by (auto simp: link_complete_def ret_def failed_result_def split: if_splits option.splits json_value.splits list.splits)
  obtain r t' where l: "tk_Lookup ops now (cc_SessionID cc) token s = (r, t')" by fastforce
  have red: "link_complete mid ops address digest now cc resp s =
      andThen (onError (\<lambda>_. EmStoreLookup) (tk_Lookup ops now (cc_SessionID cc) token)) (\<lambda>found.
        case found of
          None \<Rightarrow> ret (failed_result mid ''invalid_or_expired_token'')
        | Some v \<Rightarrow> andThen (besteffort (tk_Delete ops (cc_SessionID cc))) (\<lambda>_.
            ret ((passed_result mid now (digest token v))\<lparr>mr_VerifiedIdentifier := address v\<rparr>))) s"
    using t by (cases token) (simp_all add: link_complete_def)
  obtain v where v: "r = Inr (Some v)" "address v = mr_VerifiedIdentifier res"
    using assms(1,2) l unfolding red
    by (auto simp: andThen_def onError_def ret_def failed_result_def passed_result_def besteffort_def
        split: sum.splits prod.splits option.splits)
  have "\<exists>e. entry s (cc_SessionID cc) = Some e \<and> te_Token e = token \<and> te_Value e = v \<and> now \<le> te_ExpiresAt e"
    using lookup_law [of now "cc_SessionID cc" token s] l v by (simp add: wp_def)
  then show ?thesis using t v(2) assms(3) by (auto simp: tokens_from_def)
qed

lemma run_tokens:
  assumes "\<And>cc env. EmailBegin cc env \<in> set evs \<Longrightarrow> keeps (\<lambda>s. tokens_from I (entry s)) (begins env cc)"
    and "\<And>now cc resp. keeps (\<lambda>s. tokens_from I (entry s)) (completes now cc resp)"
    and "tokens_from I (entry s)"
  shows "tokens_from I (entry (fold (email_step begins completes) evs s))"
  using assms(1,3)
proof (induction evs arbitrary: s)
  case (Cons ev evs)
  have "tokens_from I (entry (email_step begins completes ev s))"
    using Cons.prems assms(2) by (cases ev) (simp_all add: keeps_def)
  then show ?case using Cons.IH Cons.prems(1) by simp
qed simp

end

section \<open>The stores keep it\<close>

interpretation memory_links: token_store memory_tokens "\<lambda>m. m"
  by unfold_locales
    (auto simp: wp_def memory_tokens_def memory_token_Put_def memory_token_Lookup_def memory_token_Delete_def touches_def
      split: option.split)

definition token_entry_at :: "(string \<Rightarrow> string) \<Rightarrow> 'v token_entry ttl_store \<Rightarrow> string \<Rightarrow> 'v token_entry option" where
  "token_entry_at name d k = (case tt_view d (name k) of Some (Some e) \<Rightarrow> Some e | _ \<Rightarrow> None)"

locale durable_token_store = ttl_client "kc_Get cl" "kc_Set cl" "kc_Del cl" for cl :: "'v token_entry kv_client" +
  fixes name :: "string \<Rightarrow> string"
  assumes inj_name: "inj name"
begin

lemma link_set:
  "tt_view d' = (tt_view d)(name k := Some (Some e)) \<Longrightarrow> token_entry_at name d' = (token_entry_at name d)(k \<mapsto> e)"
  using inj_name by (auto simp: token_entry_at_def fun_eq_iff inj_def)

lemma link_del:
  "tt_view d' = (tt_view d)(name k := None) \<Longrightarrow> token_entry_at name d' = (token_entry_at name d)(k := None)"
  using inj_name by (auto simp: token_entry_at_def fun_eq_iff inj_def)

lemma link_same: "tt_view d' = tt_view d \<Longrightarrow> token_entry_at name d' = token_entry_at name d"
  by (simp add: token_entry_at_def fun_eq_iff)

lemma link_gone:
  assumes "touches (name k) (tt_view d) (tt_view d')" "tt_view d' (name k) \<in> {None, tt_view d (name k)}"
  shows "token_entry_at name d' \<in> {token_entry_at name d, (token_entry_at name d)(k := None)}"
proof -
  have "tt_view d' = tt_view d \<or> tt_view d' = (tt_view d)(name k := None)"
  proof (cases "tt_view d' (name k) = tt_view d (name k)")
    case True
    have "tt_view d' j = tt_view d j" for j using assms(1) True by (cases "j = name k") (auto simp: touches_def)
    then show ?thesis by blast
  next
    case False
    then have "tt_view d' j = ((tt_view d)(name k := None)) j" for j using assms by (cases "j = name k") (auto simp: touches_def)
    then show ?thesis by blast
  qed
  then show ?thesis using link_same link_del by blast
qed

lemma delete_link_law:
  "wp (kc_Del cl (name k)) (\<lambda>_ s'. token_entry_at name s' = (token_entry_at name s)(k := None))
      (\<lambda>_ s'. token_entry_at name s' \<in> {token_entry_at name s, (token_entry_at name s)(k := None)}) s"
  by (rule wp_mono [OF del_law]) (auto dest: link_del link_same)

end

sublocale durable_token_store \<subseteq> links: token_store "durable_tokens cl name" "token_entry_at name"
proof unfold_locales
  fix now k token v ex and s :: "'v token_entry ttl_store"
  show "wp (tk_Put (durable_tokens cl name) now k token v ex)
      (\<lambda>_ s'. token_entry_at name s' = (token_entry_at name s)(k \<mapsto> token_new token v ex))
      (\<lambda>_ s'. token_entry_at name s' \<in> {token_entry_at name s, (token_entry_at name s)(k \<mapsto> token_new token v ex)}) s"
    unfolding durable_tokens_def token_ops.simps durable_token_Put_def
    by (rule wp_mono [OF put_law]) (auto dest: link_set link_same)
next
  fix now k token and s :: "'v token_entry ttl_store"
  let ?E = "token_entry_at name"
  let ?Q = "\<lambda>found s'. touches k (?E s) (?E s') \<and> ?E s' k \<in> {None, ?E s k} \<and>
         (\<forall>v. found = Some v \<longrightarrow> (\<exists>e. ?E s k = Some e \<and> te_Token e = token \<and> te_Value e = v \<and> now \<le> te_ExpiresAt e))"
  have gone: "?Q None s'" if "?E s' \<in> {?E s, (?E s)(k := None)}" for s' using that by (auto simp: touches_def)
  have del: "wp (besteffort (kc_Del cl (name k))) (\<lambda>_. ?Q None) E t" if "?E t = ?E s"
    for t and E :: "unit \<Rightarrow> 'v token_entry ttl_store \<Rightarrow> bool"
    by (rule wp_besteffort, rule wp_mono [OF delete_link_law]; rule gone; simp add: that)
  show "wp (tk_Lookup (durable_tokens cl name) now k token) ?Q (\<lambda>_ s'. ?E s' = ?E s) s"
    unfolding durable_tokens_def token_ops.simps durable_token_Lookup_def
  proof (rule wp_step [OF get_law])
    fix e :: unit and t assume "tt_view t = tt_view s"
    then show "?E t = ?E s" by (rule link_same)
  next
    fix found t
    assume g: "(found = tt_view s (name k) \<and> tt_view t = tt_view s) \<or>
         (found = None \<and> tt_view t (name k) \<in> {None, tt_view s (name k)} \<and> touches (name k) (tt_view s) (tt_view t))"
    show "wp (case found of
         None \<Rightarrow> ret None
       | Some None \<Rightarrow> throw ()
       | Some (Some e) \<Rightarrow>
           if now > te_ExpiresAt e then andThen (besteffort (kc_Del cl (name k))) (\<lambda>_. ret None)
           else if te_Token e \<noteq> token then ret None
           else ret (Some (te_Value e))) ?Q (\<lambda>_ s'. ?E s' = ?E s) t"
    proof (cases found)
      case None
      have "?E t \<in> {?E s, (?E s)(k := None)}" using g link_gone [of k s t] link_same [of t s] by auto
      then show ?thesis using gone None by (simp add: wp)
    next
      case (Some doc)
      then have v: "tt_view s (name k) = Some doc" "?E t = ?E s" using g link_same [of t s] by auto
      show ?thesis
      proof (cases doc)
        case None
        then show ?thesis using Some v by (simp add: wp)
      next
        case e: (Some e)
        have es: "?E s k = Some e" using v(1) e by (simp add: token_entry_at_def)
        have q: "?Q None t" using gone [of t] v(2) by simp
        show ?thesis using del [OF v(2)] q es v(2) Some e by (simp add: wp)
      qed
    qed
  qed
next
  fix k and s :: "'v token_entry ttl_store"
  show "wp (tk_Delete (durable_tokens cl name) k) (\<lambda>_ s'. token_entry_at name s' = (token_entry_at name s)(k := None))
      (\<lambda>_ s'. token_entry_at name s' \<in> {token_entry_at name s, (token_entry_at name s)(k := None)}) s"
    unfolding durable_tokens_def token_ops.simps by (rule delete_link_law)
qed

interpretation redis_links: durable_token_store redis_client redisTokenKey
  by unfold_locales
    (simp_all only: redis_client_def kv_client.simps redis_kv.get_law redis_kv.put_law redis_kv.del_law,
     rule redis_kv.put_blind, simp add: inj_def redisTokenKey_def)

interpretation firestore_links: durable_token_store firestore_client "\<lambda>sid. sid"
  by unfold_locales
    (simp_all only: firestore_client_def kv_client.simps firestore_kv.get_law firestore_kv.put_law firestore_kv.del_law,
     rule firestore_kv.put_blind, simp add: inj_def)

section \<open>A verified address opened its link\<close>

definition email_fine :: "ceremony_context \<Rightarrow> email_env \<Rightarrow> bool" where
  "email_fine cc env \<longleftrightarrow> looksLikeEmail (trim_space (cc_UserID cc)) \<and> \<not> IsDisposable (trim_space (cc_UserID cc))"

definition tier_fine :: "ceremony_context \<Rightarrow> email_env \<Rightarrow> bool" where
  "tier_fine cc env \<longleftrightarrow> looksLikeEmail (trim_space (cc_UserID cc)) \<and>
     (\<exists>sig. ee_enrich env (trim_space (cc_UserID cc)) = Some sig \<and> \<not> es_DomainDisposable sig)"

text \<open>What the begins of a run may have put, with \<open>vals cc env\<close> what a token may stand for.\<close>

definition issued_links ::
  "(ceremony_context \<Rightarrow> email_env \<Rightarrow> 'v set) \<Rightarrow> email_event list \<Rightarrow> (string \<times> string \<times> 'v \<times> time) set" where
  "issued_links vals evs = {(cc_SessionID cc, RawURL_encode b, v, ee_now env + TokenTTL) |cc env b v.
     EmailBegin cc env \<in> set evs \<and> ee_bytes env = Some b \<and> v \<in> vals cc env}"

definition email_values :: "ceremony_context \<Rightarrow> email_env \<Rightarrow> string set" where
  "email_values cc env = {a. a = trim_space (cc_UserID cc) \<and> email_fine cc env}"

definition tier_values :: "ceremony_context \<Rightarrow> email_env \<Rightarrow> (string \<times> email_signal) set" where
  "tier_values cc env = {v. fst v = trim_space (cc_UserID cc) \<and> tier_fine cc env}"

text \<open>
  \<open>opened_its_link fine evs cc resp now res\<close>: some begin of this very session, for the address now verified, drew the
  token that came back, at most fifteen minutes ago, and the address passed the checks.
\<close>

definition opened_its_link ::
  "(ceremony_context \<Rightarrow> email_env \<Rightarrow> bool) \<Rightarrow> email_event list \<Rightarrow> ceremony_context \<Rightarrow> response_data \<Rightarrow> time \<Rightarrow> method_result \<Rightarrow> bool" where
  "opened_its_link fine evs cc resp now res \<longleftrightarrow>
     (\<exists>cc' env b. EmailBegin cc' env \<in> set evs \<and> fine cc' env \<and> ee_bytes env = Some b \<and>
        cc_SessionID cc' = cc_SessionID cc \<and> trim_space (cc_UserID cc') = mr_VerifiedIdentifier res \<and>
        map_of (rd_Payload resp) ''token'' = Some (JString (RawURL_encode b)) \<and> now \<le> ee_now env + TokenTTL)"

context token_store
begin

lemma link_success:
  assumes run: "tokens_from (issued_links vals evs) (entry t)"
    and c: "fst (link_complete mid ops address digest now cc resp t) = Inr res" "mr_Success res"
    and vals: "\<And>cc env v. v \<in> vals cc env \<Longrightarrow> address v = trim_space (cc_UserID cc) \<and> fine cc env"
  shows "opened_its_link fine evs cc resp now res"
proof -
  obtain s' where "link_complete mid ops address digest now cc resp t = (Inr res, s')" using c(1) by (metis prod.collapse)
  from complete_opened [OF this c(2) run] show ?thesis
    using vals unfolding issued_links_def opened_its_link_def by fastforce
qed

end

text \<open>The two methods store different things with a token.\<close>

locale email_store = token_store ops entry
  for ops :: "('s, string) token_ops" and entry :: "'s \<Rightarrow> string \<Rightarrow> string token_entry option"
begin

lemma email_begins:
  assumes "EmailBegin cc env \<in> set evs"
  shows "keeps (\<lambda>s. tokens_from (issued_links email_values evs) (entry s)) (email_BeginCeremony ops env cc)"
  unfolding email_BeginCeremony_def Let_def
  by (intro keeps deliver_tokens) (use assms in \<open>auto simp: issued_links_def email_values_def email_fine_def\<close>)

lemma email_success:
  assumes "fst (email_CompleteCeremony cr ops now cc resp (email_run cr ops evs s)) = Inr res" "mr_Success res"
    and "entry s = Map.empty"
  shows "opened_its_link email_fine evs cc resp now res"
proof -
  have "tokens_from (issued_links email_values evs) (entry (email_run cr ops evs s))"
    unfolding email_run_def email_CompleteCeremony_def
    by (rule run_tokens [OF email_begins complete_tokens]) (simp_all add: assms(3) tokens_from_def)
  from link_success [OF this assms(1) [unfolded email_CompleteCeremony_def] assms(2)] show ?thesis
    by (auto simp: email_values_def)
qed

end

locale tier_store = token_store ops entry
  for ops :: "('s, string \<times> email_signal) token_ops" and entry :: "'s \<Rightarrow> string \<Rightarrow> (string \<times> email_signal) token_entry option"
begin

lemma tier_begins:
  assumes "EmailBegin cc env \<in> set evs"
  shows "keeps (\<lambda>s. tokens_from (issued_links tier_values evs) (entry s)) (tier_BeginCeremony ops env cc)"
  unfolding tier_BeginCeremony_def Let_def
  by (intro keeps deliver_tokens) (use assms in \<open>auto simp: issued_links_def tier_values_def tier_fine_def\<close>)

lemma tier_success:
  assumes "fst (tier_CompleteCeremony cr ops now cc resp (tier_run cr ops evs s)) = Inr res" "mr_Success res"
    and "entry s = Map.empty"
  shows "opened_its_link tier_fine evs cc resp now res"
proof -
  have "tokens_from (issued_links tier_values evs) (entry (tier_run cr ops evs s))"
    unfolding tier_run_def tier_CompleteCeremony_def
    by (rule run_tokens [OF tier_begins complete_tokens]) (simp_all add: assms(3) tokens_from_def)
  from link_success [OF this assms(1) [unfolded tier_CompleteCeremony_def] assms(2)] show ?thesis
    by (auto simp: tier_values_def)
qed

end

interpretation memory_email: email_store memory_tokens "\<lambda>m. m"
  by unfold_locales

interpretation redis_email: email_store redis_tokens "token_entry_at redisTokenKey"
  unfolding redis_tokens_def by unfold_locales

interpretation firestore_email: email_store firestore_tokens "token_entry_at (\<lambda>sid. sid)"
  unfolding firestore_tokens_def by unfold_locales

interpretation memory_tier: tier_store memory_tokens "\<lambda>m. m"
  by unfold_locales

text \<open>A durable store no call has written yet; which of its calls will fail is open.\<close>

definition unwritten :: "call_fate list \<Rightarrow> 'v ttl_store" where
  "unwritten calls = \<lparr>tt_docs = Map.empty, tt_calls = calls\<rparr>"

lemma unwritten_entry: "token_entry_at name (unwritten calls) = Map.empty"
  by (simp add: token_entry_at_def tt_view_def unwritten_def fun_eq_iff)

text \<open>C18: Whoever completes the email method presented the token that was drawn for this very address in this very session at most
  fifteen minutes before, the address being well formed and not disposable; so with each of the three stores, after any sequence of
  begins and completions by anyone, and whichever calls to the store fail. For the tier method the address is one whose
  enrichment did not call its domain disposable.
\<close>

theorem verified_address_opened_its_link:
  assumes "mr_Success res"
  shows "(fst (email_CompleteCeremony cr memory_tokens now cc resp (email_run cr memory_tokens evs Map.empty)) = Inr res \<longrightarrow>
      opened_its_link email_fine evs cc resp now res) \<and>
    (fst (email_CompleteCeremony cr redis_tokens now cc resp (email_run cr redis_tokens evs (unwritten calls))) = Inr res \<longrightarrow>
      opened_its_link email_fine evs cc resp now res) \<and>
    (fst (email_CompleteCeremony cr firestore_tokens now cc resp (email_run cr firestore_tokens evs (unwritten calls))) = Inr res \<longrightarrow>
      opened_its_link email_fine evs cc resp now res) \<and>
    (fst (tier_CompleteCeremony cr memory_tokens now cc resp (tier_run cr memory_tokens evs Map.empty)) = Inr res \<longrightarrow>
      opened_its_link tier_fine evs cc resp now res)"
  by (intro conjI impI memory_email.email_success redis_email.email_success firestore_email.email_success
      memory_tier.tier_success; (assumption | rule assms refl unwritten_entry))

definition email_crypto :: crypto where
  "email_crypto = \<lparr>c_sha256 = (\<lambda>b. b), c_hmac = (\<lambda>_ _. []), c_sign = (\<lambda>_ _. []), c_verify = (\<lambda>_ _ _. False)\<rparr>"

definition email_context :: ceremony_context where
  "email_context = \<lparr>cc_SessionID = ''5e'', cc_HolderDID = '''', cc_UserID = '' a@b.c'', cc_MethodID = '''', cc_IssuerDID = '''',
     cc_StartedAt = 0\<rparr>"

definition email_events :: "email_event list" where
  "email_events = [EmailBegin email_context
     \<lparr>ee_now = 0, ee_bytes = Some ''abc'', ee_link = (\<lambda>_ _. Some ''l''), ee_sent = True, ee_enrich = (\<lambda>_. None)\<rparr>]"

definition email_answer :: response_data where
  "email_answer = \<lparr>rd_Type = ''magic-link-click'', rd_Payload = [(''token'', JString ''YWJj'')]\<rparr>"

lemma email_texts:
  "trim_space '' a@b.c'' = ''a@b.c''" "looksLikeEmail ''a@b.c''" "\<not> IsDisposable ''a@b.c''" "RawURL_encode ''abc'' = ''YWJj''"
proof -
  have p: "printable ''a@b.c''" by (simp add: printable_def)
  show "trim_space '' a@b.c'' = ''a@b.c''" using p by simp
  have t: "trim_space ''a@b.c'' = ''a@b.c''" using p by simp
  show "looksLikeEmail ''a@b.c''" by code_simp
  show "\<not> IsDisposable ''a@b.c''"
    by (simp add: IsDisposable_def t to_lower_def lower_char_def last_index_def Let_def disposableDomains_def)
  show "RawURL_encode ''abc'' = ''YWJj''" by code_simp
qed

lemma email_token: "generateToken (Some ''abc'') = Some ''YWJj''"
  using email_texts(4) by (simp del: b64_encode.simps add: generateToken_def)

lemma email_store_after:
  "email_run email_crypto memory_tokens email_events Map.empty = [''5e'' \<mapsto> token_new ''YWJj'' ''a@b.c'' TokenTTL]"
  unfolding email_run_def email_events_def email_BeginCeremony_def email_context_def
  by (simp add: email_texts(1-3) email_token deliver_link_def andThen_def onError_def ret_def memory_tokens_def memory_token_Put_def Let_def)

lemma email_succeeds:
  "\<exists>res. fst (email_CompleteCeremony email_crypto memory_tokens 60 email_context email_answer
       (email_run email_crypto memory_tokens email_events Map.empty)) = Inr res \<and> mr_Success res"
  unfolding email_store_after
  by (simp add: email_CompleteCeremony_def link_complete_def email_answer_def email_context_def memory_tokens_def andThen_def ret_def
      onError_def Let_def memory_token_Lookup_def token_new_def TokenTTL_def ns_minute_def besteffort_def passed_result_def)

theorem verified_address_opened_its_link_witness:
  "\<exists>res. fst (email_CompleteCeremony email_crypto memory_tokens 60 email_context email_answer
       (email_run email_crypto memory_tokens email_events Map.empty)) = Inr res \<and>
     opened_its_link email_fine email_events email_context email_answer 60 res"
proof -
  obtain res where r: "fst (email_CompleteCeremony email_crypto memory_tokens 60 email_context email_answer
       (email_run email_crypto memory_tokens email_events Map.empty)) = Inr res" "mr_Success res"
    using email_succeeds by blast
  from verified_address_opened_its_link [OF r(2), of email_crypto 60 email_context email_answer email_events "[]"] r(1)
  show ?thesis by blast
qed

end
