(* ===== verification/Webhook_Signature.thy ===== *)
theory Webhook_Signature
  imports Codec
begin

text \<open>
  The signature a vendor puts on a webhook, as \<open>VerifyWebhookSignature\<close> of \<open>src/src/methods/government-id-liveness/webhook.go\<close>
  checks it; \<open>plaid-bank-link/webhook.go\<close> and \<open>paid-billing-card/webhook.go\<close> hold the same function. The header is
  \<open>t=<unix seconds>,v1=<hex hmac>\<close>, with one \<open>v1\<close> for each secret in use.
\<close>

section \<open>The check\<close>

definition WebhookMaxBodyBytes :: nat where "WebhookMaxBodyBytes = 2 ^ 20"

definition WebhookReplayWindow :: duration where "WebhookReplayWindow = 5 * ns_minute"

datatype signature_error = SigNoSecret | SigNoHeader | SigPart string | SigTimestamp string | SigMissing | SigReplay | SigMismatch

text \<open>The loop over the parts: the last \<open>t\<close> counts, every \<open>v1\<close> is collected and other keys are skipped.\<close>

fun scan_parts :: "int \<Rightarrow> string list \<Rightarrow> string list \<Rightarrow> signature_error + int \<times> string list" where
  "scan_parts timestamp sigs [] = Inr (timestamp, sigs)"
| "scan_parts timestamp sigs (raw # parts) =
     (let part = trim_space raw in
      case cut_at (CHR ''='') part of
        None \<Rightarrow> Inl (SigPart part)
      | Some (k, v) \<Rightarrow>
          (let key = to_lower (trim_space k) in
           if key = ''t'' then
             (case ParseInt (trim_space v) of
                None \<Rightarrow> Inl (SigTimestamp v)
              | Some ts \<Rightarrow> scan_parts ts sigs parts)
           else if key = ''v1'' then scan_parts timestamp (sigs @ [trim_space v]) parts
           else scan_parts timestamp sigs parts))"

definition signed_payload :: "int \<Rightarrow> bytes \<Rightarrow> bytes" where
  "signed_payload timestamp body = int_string timestamp @ ''.'' @ body"

definition unix_time :: "int \<Rightarrow> time" where
  "unix_time s = unix_epoch + s * 1000000000"

definition VerifyWebhookSignature :: "crypto \<Rightarrow> string \<Rightarrow> string \<Rightarrow> bytes \<Rightarrow> time \<Rightarrow> signature_error + unit" where
  "VerifyWebhookSignature cr secret header body now =
     (if secret = '''' then Inl SigNoSecret
      else if header = '''' then Inl SigNoHeader
      else case scan_parts 0 [] (split_at (CHR '','') header) of
        Inl e \<Rightarrow> Inl e
      | Inr (timestamp, sigs) \<Rightarrow>
          if timestamp = 0 \<or> sigs = [] then Inl SigMissing
          else let age = sub_time now (unix_time timestamp) in
            if age < - WebhookReplayWindow \<or> age > WebhookReplayWindow then Inl SigReplay
            else if list_ex (\<lambda>sig. hex_decode sig = Some (c_hmac cr secret (signed_payload timestamp body))) sigs then Inr ()
            else Inl SigMismatch)"

definition SignWebhookForTesting :: "crypto \<Rightarrow> string \<Rightarrow> bytes \<Rightarrow> time \<Rightarrow> string" where
  "SignWebhookForTesting cr secret body t =
     ''t='' @ int_string (unix_seconds t) @ '',v1='' @ hex_encode (c_hmac cr secret (signed_payload (unix_seconds t) body))"

text \<open>\<open>signed_by cr secret body now\<close>: the vendor's secret made a signature over this body, with a time at most five minutes off.\<close>

definition signed_by :: "crypto \<Rightarrow> string \<Rightarrow> string \<Rightarrow> bytes \<Rightarrow> time \<Rightarrow> bool" where
  "signed_by cr secret header body now \<longleftrightarrow> secret \<noteq> '''' \<and>
     (\<exists>ts sigs sig. scan_parts 0 [] (split_at (CHR '','') header) = Inr (ts, sigs) \<and> sig \<in> set sigs \<and> ts \<noteq> 0 \<and>
        \<bar>now - unix_time ts\<bar> \<le> WebhookReplayWindow \<and> hex_decode sig = Some (c_hmac cr secret (signed_payload ts body)))"

lemma sub_time_window:
  "- WebhookReplayWindow \<le> sub_time now t \<and> sub_time now t \<le> WebhookReplayWindow \<longleftrightarrow> \<bar>now - t\<bar> \<le> WebhookReplayWindow"
  by (auto simp: sub_time_def Let_def WebhookReplayWindow_def ns_minute_def min_int64_def max_int64_def)

lemma verify_signed: "VerifyWebhookSignature cr secret header body now = Inr () \<Longrightarrow> signed_by cr secret header body now"
  using sub_time_window [of now]
  by (fastforce simp: VerifyWebhookSignature_def signed_by_def Let_def list_ex_iff split: if_splits sum.splits prod.splits)

section \<open>What the vendor signed is accepted\<close>

lemma hex_printable: "printable (hex_encode b)"
  by (simp add: hex_text_printable)

lemma hex_no_comma: "CHR '','' \<notin> set (hex_encode b)"
  using hex_text_encode [of b] by (auto simp: hex_text_def)

lemma int_string_no_comma: "CHR '','' \<notin> set (int_string i)"
  by (auto dest: int_string_chars)

lemma scan_signed:
  assumes "min_int64 \<le> ts" "ts \<le> max_int64"
  shows "scan_parts 0 [] (split_at (CHR '','') (''t='' @ int_string ts @ '',v1='' @ hex_encode h)) = Inr (ts, [hex_encode h])"
proof -
  have parts: "split_at (CHR '','') (''t='' @ int_string ts @ '',v1='' @ hex_encode h) = [''t='' @ int_string ts, ''v1='' @ hex_encode h]"
    using split_at_first [of "CHR '',''" "''t='' @ int_string ts" "''v1='' @ hex_encode h"]
      split_at_none [of "CHR '',''" "''v1='' @ hex_encode h"] int_string_no_comma hex_no_comma by simp
  have cuts: "cut_at (CHR ''='') (''t='' @ int_string ts) = Some (''t'', int_string ts)"
      "cut_at (CHR ''='') (''v1='' @ hex_encode h) = Some (''v1'', hex_encode h)"
    using cut_at_first [of "CHR ''=''" "''t''" "int_string ts"] cut_at_first [of "CHR ''=''" "''v1''" "hex_encode h"] by simp_all
  have "printable (''t='' @ int_string ts)" "printable (''v1='' @ hex_encode h)" "printable ''t''" "printable ''v1''"
    using int_string_printable hex_printable by (simp_all add: printable_def)
  moreover have "to_lower ''t'' = ''t''" "to_lower ''v1'' = ''v1''" by (simp_all add: to_lower_def lower_char_def)
  ultimately show ?thesis
    unfolding parts using cuts assms by (simp add: Let_def int_string_printable hex_printable ParseInt_int_string)
qed

text \<open>C22: A webhook signed as the vendor signs it is accepted exactly within five minutes of the signed time, and for another body the
  same header is accepted only if the two have the same HMAC.
\<close>

theorem signed_webhook_accepted:
  assumes "secret \<noteq> ''''" "unix_seconds t \<noteq> 0" "min_int64 \<le> unix_seconds t" "unix_seconds t \<le> max_int64"
  shows "VerifyWebhookSignature cr secret (SignWebhookForTesting cr secret body t) body' now = Inr () \<longleftrightarrow>
    \<bar>now - unix_time (unix_seconds t)\<bar> \<le> WebhookReplayWindow \<and>
    c_hmac cr secret (signed_payload (unix_seconds t) body') = c_hmac cr secret (signed_payload (unix_seconds t) body)"
proof -
  let ?header = "SignWebhookForTesting cr secret body t"
  have scan: "scan_parts 0 [] (split_at (CHR '','') ?header) =
      Inr (unix_seconds t, [hex_encode (c_hmac cr secret (signed_payload (unix_seconds t) body))])"
    unfolding SignWebhookForTesting_def using scan_signed [OF assms(3,4)] by simp
  have header: "?header \<noteq> ''''" by (simp add: SignWebhookForTesting_def)
  show ?thesis
    unfolding VerifyWebhookSignature_def scan using assms(1,2) header sub_time_window [of now "unix_time (unix_seconds t)"]
    by (auto simp: Let_def)
qed

theorem signed_webhook_accepted_witness:
  "VerifyWebhookSignature \<lparr>c_sha256 = (\<lambda>b. b), c_hmac = (\<lambda>k m. k @ m), c_sign = (\<lambda>_ _. []), c_verify = (\<lambda>_ _ _. False)\<rparr> ''k''
     (SignWebhookForTesting \<lparr>c_sha256 = (\<lambda>b. b), c_hmac = (\<lambda>k m. k @ m), c_sign = (\<lambda>_ _. []), c_verify = (\<lambda>_ _ _. False)\<rparr> ''k'' ''b'' 0)
     ''b'' 0 = Inr ()"
proof -
  let ?cr = "\<lparr>c_sha256 = (\<lambda>b. b), c_hmac = (\<lambda>k m. k @ m), c_sign = (\<lambda>_ _. []), c_verify = (\<lambda>_ _ _. False)\<rparr>"
  have u: "unix_seconds 0 = - 62135596800" by (simp add: unix_seconds_def unix_epoch_def)
  show ?thesis
    using signed_webhook_accepted [of "''k''" 0 ?cr "''b''" "''b''" 0]
    by (simp add: u min_int64_def max_int64_def unix_time_def unix_epoch_def WebhookReplayWindow_def ns_minute_def)
qed

end
