(* ===== verification/Hosted_Methods.thy ===== *)
theory Hosted_Methods
  imports Webhook_Signature Otp_Store Vouching
begin

text \<open>
  The methods whose verification happens at a vendor: \<open>src/src/methods/government-id-liveness\<close> (Persona),
  \<open>plaid-bank-link\<close> (Plaid) and \<open>paid-billing-card\<close> (Stripe). A begin creates something at the vendor and binds its id to the session;
  the vendor posts a signed webhook, whose handler stores a result under a session; a completion reads that result. The webhook's body is
  an argument together with the struct that \<open>json.Unmarshal\<close> makes of it; so are the vendor's answers and the clock.
\<close>

section \<open>Results and where they are kept\<close>

text \<open>
  The \<open>Result\<close> of the three packages; \<open>hr_ID\<close> is the inquiry, the link session or the setup intent. A \<open>Status\<close> is a string in
  the code, too.
\<close>

record hook_result =
  hr_ID :: string
  hr_CardFingerprint :: string
  hr_Status :: string
  hr_RawStatus :: string
  hr_CompletedAt :: time
  hr_EventName :: string

definition StatusApproved :: string where "StatusApproved = ''approved''"
definition StatusDeclined :: string where "StatusDeclined = ''declined''"
definition StatusNeedsReview :: string where "StatusNeedsReview = ''needs_review''"
definition StatusExpired :: string where "StatusExpired = ''expired''"
definition StatusCanceled :: string where "StatusCanceled = ''canceled''"

lemmas hook_statuses = StatusApproved_def StatusDeclined_def StatusNeedsReview_def StatusExpired_def StatusCanceled_def

text \<open>The interface \<open>ResultStore\<close>: bind an id to a session, look the session up, store a result, read it.\<close>

record 's result_ops =
  ro_Bind :: "time \<Rightarrow> string \<Rightarrow> string \<Rightarrow> ('s, unit, unit) comp"
  ro_Session :: "time \<Rightarrow> string \<Rightarrow> ('s, unit, string) comp"
  ro_PutResult :: "time \<Rightarrow> string \<Rightarrow> hook_result \<Rightarrow> ('s, unit, unit) comp"
  ro_GetResult :: "time \<Rightarrow> string \<Rightarrow> ('s, unit, hook_result option) comp"

record memory_results =
  mq_bySession :: "string \<rightharpoonup> hook_result"
  mq_byRef :: "string \<rightharpoonup> string"

definition memory_Bind :: "time \<Rightarrow> string \<Rightarrow> string \<Rightarrow> (memory_results, unit, unit) comp" where
  "memory_Bind now sid ref s =
     (if sid = '''' \<or> ref = '''' then (Inl (), s) else (Inr (), s\<lparr>mq_byRef := (mq_byRef s)(ref \<mapsto> sid)\<rparr>))"

definition memory_Session :: "time \<Rightarrow> string \<Rightarrow> (memory_results, unit, string) comp" where
  "memory_Session now ref s = (Inr (case mq_byRef s ref of None \<Rightarrow> '''' | Some sid \<Rightarrow> sid), s)"

definition memory_PutResult :: "time \<Rightarrow> string \<Rightarrow> hook_result \<Rightarrow> (memory_results, unit, unit) comp" where
  "memory_PutResult now sid r s =
     (if sid = '''' then (Inl (), s) else (Inr (), s\<lparr>mq_bySession := (mq_bySession s)(sid \<mapsto> r)\<rparr>))"

definition memory_GetResult :: "time \<Rightarrow> string \<Rightarrow> (memory_results, unit, hook_result option) comp" where
  "memory_GetResult now sid s = (Inr (mq_bySession s sid), s)"

definition memory_results_ops :: "memory_results result_ops" where
  "memory_results_ops = \<lparr>ro_Bind = memory_Bind, ro_Session = memory_Session, ro_PutResult = memory_PutResult,
     ro_GetResult = memory_GetResult\<rparr>"

text \<open>
  The durable stores of the government-id method. A binding is the session's id as it is, a result is JSON; the keys (on
  Firestore the collections) keep the two apart. Neither has a lifetime.
\<close>

datatype result_doc = Binding string | Report hook_result

datatype result_key = ByInquiry string | BySession string

definition durable_Bind ::
  "result_doc kv_client \<Rightarrow> (result_key \<Rightarrow> string) \<Rightarrow> time \<Rightarrow> string \<Rightarrow> string \<Rightarrow> (result_doc ttl_store, unit, unit) comp" where
  "durable_Bind cl key now sid ref =
     (if sid = '''' \<or> ref = '''' then throw () else kc_Set cl now (key (ByInquiry ref)) (Some (Binding sid)) 0)"

definition durable_Session ::
  "result_doc kv_client \<Rightarrow> (result_key \<Rightarrow> string) \<Rightarrow> time \<Rightarrow> string \<Rightarrow> (result_doc ttl_store, unit, string) comp" where
  "durable_Session cl key now ref =
     andThen (kc_Get cl now (key (ByInquiry ref))) (\<lambda>found.
       case found of
         None \<Rightarrow> ret ''''
       | Some doc \<Rightarrow> (case doc of Some (Binding sid) \<Rightarrow> ret sid | _ \<Rightarrow> throw ()))"

definition durable_PutResult ::
  "result_doc kv_client \<Rightarrow> (result_key \<Rightarrow> string) \<Rightarrow> time \<Rightarrow> string \<Rightarrow> hook_result \<Rightarrow> (result_doc ttl_store, unit, unit) comp" where
  "durable_PutResult cl key now sid r =
     (if sid = '''' then throw () else kc_Set cl now (key (BySession sid)) (Some (Report r)) 0)"

definition durable_GetResult ::
  "result_doc kv_client \<Rightarrow> (result_key \<Rightarrow> string) \<Rightarrow> time \<Rightarrow> string \<Rightarrow> (result_doc ttl_store, unit, hook_result option) comp" where
  "durable_GetResult cl key now sid =
     andThen (kc_Get cl now (key (BySession sid))) (\<lambda>found.
       case found of
         None \<Rightarrow> ret None
       | Some doc \<Rightarrow> (case doc of Some (Report r) \<Rightarrow> ret (Some r) | _ \<Rightarrow> throw ()))"

definition durable_results :: "result_doc kv_client \<Rightarrow> (result_key \<Rightarrow> string) \<Rightarrow> result_doc ttl_store result_ops" where
  "durable_results cl key = \<lparr>ro_Bind = durable_Bind cl key, ro_Session = durable_Session cl key,
     ro_PutResult = durable_PutResult cl key, ro_GetResult = durable_GetResult cl key\<rparr>"

fun redisResultKey :: "result_key \<Rightarrow> string" where
  "redisResultKey (BySession sid) = ''personhood:govid:by-session:'' @ sid"
| "redisResultKey (ByInquiry ref) = ''personhood:govid:by-inquiry:'' @ ref"

text \<open>A Firestore document is a collection and an id; \<open>/\<close> cannot occur in the names of the two collections.\<close>

fun firestoreResultKey :: "result_key \<Rightarrow> string" where
  "firestoreResultKey (BySession sid) = ''personhood-govid-by-session/'' @ sid"
| "firestoreResultKey (ByInquiry ref) = ''personhood-govid-by-inquiry/'' @ ref"

definition redis_results :: "result_doc ttl_store result_ops" where
  "redis_results = durable_results redis_client redisResultKey"

definition firestore_results :: "result_doc ttl_store result_ops" where
  "firestore_results = durable_results firestore_client firestoreResultKey"

section \<open>What a webhook says\<close>

text \<open>The structs that the bodies are unmarshalled into; a missing field is empty.\<close>

record persona_event =
  pe_Name :: string
  pe_ID :: string
  pe_Status :: string
  pe_ReferenceID :: string

record plaid_event =
  le_WebhookCode :: string
  le_LinkToken :: string
  le_LinkSessionID :: string
  le_Status :: string

text \<open>
  The \<open>payment_method\<close> of a setup intent is kept as it came: absent, or with the fingerprint that it has when it unmarshals as an
  expanded object and the string that it is when it unmarshals as one.
\<close>

record payment_method =
  pm_Expanded :: "string option"
  pm_ID :: "string option"

record stripe_event =
  se_Type :: string
  se_ID :: string
  se_PaymentMethod :: "payment_method option"
  se_SessionID :: string

definition persona_mapStatus :: "string \<Rightarrow> string \<Rightarrow> string" where
  "persona_mapStatus eventName raw =
     (if eventName = ''inquiry.expired'' then StatusExpired
      else if raw \<in> {''approved'', ''completed''} then StatusApproved
      else if raw \<in> {''declined'', ''failed''} then StatusDeclined
      else if raw \<in> {''needs_review'', ''needs-review'', ''pending''} then StatusNeedsReview
      else raw)"

text \<open>\<open>strings.EqualFold\<close> with an ASCII text, of text without the letters that fold to \<open>k\<close> and \<open>s\<close> from outside ASCII.\<close>

definition equal_fold :: "string \<Rightarrow> string \<Rightarrow> bool" where
  "equal_fold s t \<longleftrightarrow> to_lower s = to_lower t"

definition plaid_mapStatus :: "string \<Rightarrow> string \<Rightarrow> string" where
  "plaid_mapStatus webhookCode rawUpper =
     (if equal_fold webhookCode ''SESSION_EXPIRED'' then StatusExpired
      else if rawUpper \<in> {''SUCCESS'', ''COMPLETED''} then StatusApproved
      else if rawUpper \<in> {''EXITED'', ''FAILED'', ''ABANDONED''} then StatusDeclined
      else if rawUpper \<in> {''REQUIRES_REVIEW'', ''PENDING''} then StatusNeedsReview
      else if rawUpper = ''EXPIRED'' then StatusExpired
      else to_lower rawUpper)"

definition mapEventType :: "string \<Rightarrow> string" where
  "mapEventType eventType =
     (if eventType = ''setup_intent.succeeded'' then StatusApproved
      else if eventType = ''setup_intent.setup_failed'' then StatusDeclined
      else if eventType = ''setup_intent.canceled'' then StatusCanceled
      else '''')"

definition fingerprintFrom :: "payment_method option \<Rightarrow> string" where
  "fingerprintFrom raw =
     (case raw of
        None \<Rightarrow> ''''
      | Some pm \<Rightarrow>
          (case pm_Expanded pm of
             Some f \<Rightarrow> if f \<noteq> '''' then f else (case pm_ID pm of Some i \<Rightarrow> i | None \<Rightarrow> '''')
           | None \<Rightarrow> (case pm_ID pm of Some i \<Rightarrow> i | None \<Rightarrow> '''')))"

text \<open>What a handler takes from a body: the id its binding is looked up by, the session it names itself, and the result to store.\<close>

record parsed_webhook =
  pw_Ref :: string
  pw_Session :: string
  pw_Result :: "time \<Rightarrow> hook_result"

definition persona_Parse :: "persona_event option \<Rightarrow> parsed_webhook option" where
  "persona_Parse ev =
     (case ev of
        None \<Rightarrow> None
      | Some e \<Rightarrow>
          if pe_ID e = '''' then None
          else let raw = to_lower (trim_space (pe_Status e)) in
            Some \<lparr>pw_Ref = pe_ID e, pw_Session = pe_ReferenceID e,
              pw_Result = (\<lambda>now. \<lparr>hr_ID = pe_ID e, hr_CardFingerprint = '''', hr_Status = persona_mapStatus (pe_Name e) raw,
                hr_RawStatus = raw, hr_CompletedAt = now, hr_EventName = pe_Name e\<rparr>)\<rparr>)"

definition plaid_Parse :: "plaid_event option \<Rightarrow> parsed_webhook option" where
  "plaid_Parse ev =
     (case ev of
        None \<Rightarrow> None
      | Some e \<Rightarrow>
          if le_LinkToken e = '''' \<and> le_LinkSessionID e = '''' then None
          else let raw = to_upper (trim_space (le_Status e)) in
            Some \<lparr>pw_Ref = le_LinkToken e, pw_Session = '''',
              pw_Result = (\<lambda>now. \<lparr>hr_ID = le_LinkSessionID e, hr_CardFingerprint = '''', hr_Status = plaid_mapStatus (le_WebhookCode e) raw,
                hr_RawStatus = raw, hr_CompletedAt = now, hr_EventName = le_WebhookCode e\<rparr>)\<rparr>)"

definition stripe_Parse :: "stripe_event option \<Rightarrow> parsed_webhook option" where
  "stripe_Parse ev =
     (case ev of
        None \<Rightarrow> None
      | Some e \<Rightarrow>
          if se_ID e = '''' then None
          else Some \<lparr>pw_Ref = se_ID e, pw_Session = se_SessionID e,
            pw_Result = (\<lambda>now. \<lparr>hr_ID = se_ID e, hr_CardFingerprint = fingerprintFrom (se_PaymentMethod e),
              hr_Status = mapEventType (se_Type e), hr_RawStatus = se_Type e, hr_CompletedAt = now, hr_EventName = ''''\<rparr>)\<rparr>)"
section \<open>The webhook handlers\<close>

text \<open>
  A request: the signature header, the body (\<open>None\<close> if it could not be read), and the clock when the signature is checked and when the
  result is stamped.
\<close>

record hook_request =
  hq_Signature :: string
  hq_Body :: "bytes option"
  hq_checked :: time
  hq_stamped :: time

datatype hook_answer = HookReceived | HookIgnored

datatype hook_error = HookBody | HookSignature signature_error | HookParse | HookNoSession | HookStore

definition receive_hook ::
  "crypto \<Rightarrow> string \<Rightarrow> (bytes \<Rightarrow> parsed_webhook option) \<Rightarrow> hook_request \<Rightarrow> hook_error + parsed_webhook" where
  "receive_hook cr secret parse req =
     (case hq_Body req of
        None \<Rightarrow> Inl HookBody
      | Some body \<Rightarrow>
          if length body > WebhookMaxBodyBytes then Inl HookBody
          else case VerifyWebhookSignature cr secret (hq_Signature req) body (hq_checked req) of
            Inl e \<Rightarrow> Inl (HookSignature e)
          | Inr _ \<Rightarrow> (case parse body of None \<Rightarrow> Inl HookParse | Some p \<Rightarrow> Inr p))"

text \<open>The handlers drop the error of the lookup; its answer is then empty.\<close>

definition lookup_session :: "'s result_ops \<Rightarrow> time \<Rightarrow> string \<Rightarrow> ('s, 'e, string) comp" where
  "lookup_session ops now ref s =
     (case ro_Session ops now ref s of (Inl _, s') \<Rightarrow> (Inr '''', s') | (Inr sid, s') \<Rightarrow> (Inr sid, s'))"

definition store_report :: "'s result_ops \<Rightarrow> hook_request \<Rightarrow> parsed_webhook \<Rightarrow> string \<Rightarrow> ('s, hook_error, hook_answer) comp" where
  "store_report ops req p sid =
     (if sid = '''' then throw HookNoSession
      else andThen (onError (\<lambda>_. HookStore) (ro_PutResult ops (hq_stamped req) sid (pw_Result p (hq_stamped req)))) (\<lambda>_. ret HookReceived))"

definition persona_Webhook ::
  "crypto \<Rightarrow> string \<Rightarrow> (bytes \<Rightarrow> persona_event option) \<Rightarrow> 's result_ops \<Rightarrow> hook_request \<Rightarrow> ('s, hook_error, hook_answer) comp" where
  "persona_Webhook cr secret unmarshal ops req =
     (case receive_hook cr secret (\<lambda>body. persona_Parse (unmarshal body)) req of
        Inl e \<Rightarrow> throw e
      | Inr p \<Rightarrow>
          andThen (if pw_Session p = '''' then lookup_session ops (hq_checked req) (pw_Ref p) else ret (pw_Session p))
            (store_report ops req p))"

definition plaid_Webhook ::
  "crypto \<Rightarrow> string \<Rightarrow> (bytes \<Rightarrow> plaid_event option) \<Rightarrow> 's result_ops \<Rightarrow> hook_request \<Rightarrow> ('s, hook_error, hook_answer) comp" where
  "plaid_Webhook cr secret unmarshal ops req =
     (case receive_hook cr secret (\<lambda>body. plaid_Parse (unmarshal body)) req of
        Inl e \<Rightarrow> throw e
      | Inr p \<Rightarrow>
          if hr_Status (pw_Result p (hq_stamped req)) = '''' then ret HookIgnored
          else andThen (lookup_session ops (hq_checked req) (pw_Ref p)) (store_report ops req p))"

definition stripe_Webhook ::
  "crypto \<Rightarrow> string \<Rightarrow> (bytes \<Rightarrow> stripe_event option) \<Rightarrow> 's result_ops \<Rightarrow> hook_request \<Rightarrow> ('s, hook_error, hook_answer) comp" where
  "stripe_Webhook cr secret unmarshal ops req =
     (case receive_hook cr secret (\<lambda>body. stripe_Parse (unmarshal body)) req of
        Inl e \<Rightarrow> throw e
      | Inr p \<Rightarrow>
          if hr_Status (pw_Result p (hq_stamped req)) = '''' then ret HookIgnored
          else andThen (lookup_session ops (hq_checked req) (pw_Ref p)) (\<lambda>found.
            store_report ops req p (if found = '''' then pw_Session p else found)))"

section \<open>The ceremonies\<close>

definition PersonaMethodID :: string where "PersonaMethodID = ''government-id-liveness''"
definition PlaidMethodID :: string where "PlaidMethodID = ''plaid-bank-link''"
definition StripeMethodID :: string where "StripeMethodID = ''paid-billing-card''"

definition persona_Metadata :: method_metadata where
  "persona_Metadata =
     \<lparr>md_ID = PersonaMethodID, md_Type = MethodTypeAnchor, md_Strength = 90, md_CostUSD = 2,
      md_UXFriction = ''high'', md_PlatformRequirements = [], md_FreshnessLifetime = 180 * 24 * ns_hour, md_Version = ''0.1.0''\<rparr>"

definition plaid_Metadata :: method_metadata where
  "plaid_Metadata =
     \<lparr>md_ID = PlaidMethodID, md_Type = MethodTypeAnchor, md_Strength = 88, md_CostUSD = 3 / 2,
      md_UXFriction = ''med'', md_PlatformRequirements = [], md_FreshnessLifetime = 180 * 24 * ns_hour, md_Version = ''0.1.0''\<rparr>"

definition stripe_Metadata :: method_metadata where
  "stripe_Metadata =
     \<lparr>md_ID = StripeMethodID, md_Type = MethodTypeSupplementary, md_Strength = 35, md_CostUSD = 3 / 10,
      md_UXFriction = ''med'', md_PlatformRequirements = [], md_FreshnessLifetime = 180 * 24 * ns_hour, md_Version = ''0.1.0''\<rparr>"

definition persona_IsAvailableForUser :: "string \<Rightarrow> bool" where
  "persona_IsAvailableForUser platform \<longleftrightarrow> \<not> equal_fold platform ''kiosk''"

definition plaid_IsAvailableForUser :: "string \<Rightarrow> bool" where
  "plaid_IsAvailableForUser countryCode \<longleftrightarrow> \<not> (countryCode \<noteq> '''' \<and> countryCode \<noteq> ''US'')"

text \<open>
  What the vendor answered to the create request, a status and the three fields read from its body, \<open>None\<close> if it does not unmarshal:
  id, status and session token (Persona), link token, hosted URL and expiration (Plaid), id, client secret and status (Stripe).
\<close>

type_synonym vendor_answer = "(int \<times> (string \<times> string \<times> string) option) option"

definition created :: "vendor_answer \<Rightarrow> (string \<times> string \<times> string) option" where
  "created answer =
     (case answer of
        None \<Rightarrow> None
      | Some (status, body) \<Rightarrow> if status < 200 \<or> status \<ge> 300 then None else body)"

definition CreateInquiry :: "vendor_answer \<Rightarrow> (string \<times> string \<times> string) option" where
  "CreateInquiry answer = (case created answer of None \<Rightarrow> None | Some (i, status, token) \<Rightarrow> if i = '''' then None else Some (i, status, token))"

definition CreateLinkSession :: "vendor_answer \<Rightarrow> (string \<times> string \<times> string) option" where
  "CreateLinkSession answer =
     (case created answer of None \<Rightarrow> None | Some (t, u, x) \<Rightarrow> if t = '''' then None else if u = '''' then None else Some (t, u, x))"

definition CreateSetupIntent :: "vendor_answer \<Rightarrow> (string \<times> string \<times> string) option" where
  "CreateSetupIntent answer =
     (case created answer of None \<Rightarrow> None | Some (i, s, status) \<Rightarrow> if i = '''' \<or> s = '''' then None else Some (i, s, status))"

text \<open>\<open>url.QueryEscape\<close>.\<close>

definition query_byte :: "char \<Rightarrow> string" where
  "query_byte c =
     (if (48 \<le> byte_of c \<and> byte_of c \<le> 57) \<or> (65 \<le> byte_of c \<and> byte_of c \<le> 90) \<or> (97 \<le> byte_of c \<and> byte_of c \<le> 122) \<or>
         c \<in> set ''-_.~'' then [c]
      else if c = CHR '' '' then ''+''
      else CHR ''%'' # to_upper (hex_encode [c]))"

definition HostedFlowURL :: "string \<Rightarrow> string \<Rightarrow> string" where
  "HostedFlowURL inquiryID returnURL =
     ''https://inquiry.withpersona.com/verify?inquiry-id='' @ concat (map query_byte inquiryID) @
     (if returnURL = '''' then '''' else ''&redirect-uri='' @ concat (map query_byte returnURL))"

datatype hosted_error = HostedNoSession | HostedCreate | HostedBind | HostedStore

record hosted_env =
  hv_now :: time
  hv_answer :: vendor_answer

text \<open>The part the three begins share: create at the vendor, bind the id to the session.\<close>

definition hosted_begin ::
  "'s result_ops \<Rightarrow> (vendor_answer \<Rightarrow> (string \<times> string \<times> string) option) \<Rightarrow> string \<Rightarrow> (string \<Rightarrow> string \<Rightarrow> string \<Rightarrow> json_object) \<Rightarrow>
   hosted_env \<Rightarrow> ceremony_context \<Rightarrow> ('s, hosted_error, challenge_data) comp" where
  "hosted_begin ops create ctype payload env cc =
     (if cc_SessionID cc = '''' then throw HostedNoSession
      else case create (hv_answer env) of
        None \<Rightarrow> throw HostedCreate
      | Some (ref, x, y) \<Rightarrow>
          andThen (onError (\<lambda>_. HostedBind) (ro_Bind ops (hv_now env) (cc_SessionID cc) ref)) (\<lambda>_.
            ret \<lparr>ch_Type = ctype, ch_Payload = payload ref x y\<rparr>))"

definition persona_BeginCeremony ::
  "string \<Rightarrow> 's result_ops \<Rightarrow> hosted_env \<Rightarrow> ceremony_context \<Rightarrow> ('s, hosted_error, challenge_data) comp" where
  "persona_BeginCeremony returnURL ops = hosted_begin ops CreateInquiry ''persona-hosted-flow'' (\<lambda>i _ _.
     [(''inquiry_id'', JString i), (''hosted_flow_url'', JString (HostedFlowURL i returnURL)), (''return_url'', JString returnURL),
      (''poll_endpoint'', JString (''/v1/methods/'' @ PersonaMethodID @ ''/complete''))])"

definition plaid_BeginCeremony :: "'s result_ops \<Rightarrow> hosted_env \<Rightarrow> ceremony_context \<Rightarrow> ('s, hosted_error, challenge_data) comp" where
  "plaid_BeginCeremony ops = hosted_begin ops CreateLinkSession ''plaid-hosted-link'' (\<lambda>t u x.
     [(''link_token'', JString t), (''hosted_link_url'', JString u), (''expiration'', JString x),
      (''poll_endpoint'', JString (''/v1/methods/'' @ PlaidMethodID @ ''/complete''))])"

definition stripe_BeginCeremony ::
  "string \<Rightarrow> 's result_ops \<Rightarrow> hosted_env \<Rightarrow> ceremony_context \<Rightarrow> ('s, hosted_error, challenge_data) comp" where
  "stripe_BeginCeremony publishableKey ops = hosted_begin ops CreateSetupIntent ''stripe-setup-intent'' (\<lambda>i secret status.
     [(''setup_intent_id'', JString i), (''client_secret'', JString secret), (''publishable_key'', JString publishableKey),
      (''status'', JString status), (''poll_endpoint'', JString (''/v1/methods/'' @ StripeMethodID @ ''/complete''))])"

definition hosted_digest :: "crypto \<Rightarrow> string \<Rightarrow> string \<Rightarrow> string \<Rightarrow> string" where
  "hosted_digest cr sid ref x = sha256_hex cr (sid @ [byte 0] @ ref @ [byte 0] @ x)"

text \<open>And what the three completions share; \<open>judge\<close> is the switch over the status.\<close>

definition hosted_complete ::
  "string \<Rightarrow> string \<Rightarrow> (string \<Rightarrow> hook_result \<Rightarrow> method_result) \<Rightarrow> 's result_ops \<Rightarrow> time \<Rightarrow> ceremony_context \<Rightarrow>
   ('s, hosted_error, method_result) comp" where
  "hosted_complete mid pending judge ops now cc =
     (if cc_SessionID cc = '''' then ret (failed_result mid ''missing_session_id'')
      else andThen (onError (\<lambda>_. HostedStore) (ro_GetResult ops now (cc_SessionID cc))) (\<lambda>found.
        case found of
          None \<Rightarrow> ret (failed_result mid pending)
        | Some r \<Rightarrow> ret (judge (cc_SessionID cc) r)))"

definition persona_judge :: "crypto \<Rightarrow> string \<Rightarrow> hook_result \<Rightarrow> method_result" where
  "persona_judge cr sid r =
     (if hr_Status r = StatusApproved then passed_result PersonaMethodID (hr_CompletedAt r) (hosted_digest cr sid (hr_ID r) (hr_RawStatus r))
      else failed_result PersonaMethodID
        (if hr_Status r = StatusDeclined then ''persona_declined''
         else if hr_Status r = StatusNeedsReview then ''persona_needs_review''
         else if hr_Status r = StatusExpired then ''persona_inquiry_expired''
         else ''persona_unknown_status:'' @ hr_RawStatus r))"

definition plaid_judge :: "crypto \<Rightarrow> string \<Rightarrow> hook_result \<Rightarrow> method_result" where
  "plaid_judge cr sid r =
     (if hr_Status r = StatusApproved then passed_result PlaidMethodID (hr_CompletedAt r) (hosted_digest cr sid (hr_ID r) (hr_RawStatus r))
      else failed_result PlaidMethodID
        (if hr_Status r = StatusDeclined then ''plaid_declined''
         else if hr_Status r = StatusNeedsReview then ''plaid_needs_review''
         else if hr_Status r = StatusExpired then ''plaid_session_expired''
         else ''plaid_unknown_status:'' @ hr_RawStatus r))"

definition stripe_judge :: "crypto \<Rightarrow> string \<Rightarrow> hook_result \<Rightarrow> method_result" where
  "stripe_judge cr sid r =
     (if hr_Status r = StatusApproved then passed_result StripeMethodID (hr_CompletedAt r) (hosted_digest cr sid (hr_ID r) (hr_CardFingerprint r))
      else failed_result StripeMethodID
        (if hr_Status r = StatusDeclined then ''card_declined''
         else if hr_Status r = StatusCanceled then ''setup_canceled''
         else ''stripe_unknown_status:'' @ hr_RawStatus r))"

definition persona_CompleteCeremony :: "crypto \<Rightarrow> 's result_ops \<Rightarrow> time \<Rightarrow> ceremony_context \<Rightarrow> ('s, hosted_error, method_result) comp" where
  "persona_CompleteCeremony cr = hosted_complete PersonaMethodID ''pending_persona_webhook'' (persona_judge cr)"

definition plaid_CompleteCeremony :: "crypto \<Rightarrow> 's result_ops \<Rightarrow> time \<Rightarrow> ceremony_context \<Rightarrow> ('s, hosted_error, method_result) comp" where
  "plaid_CompleteCeremony cr = hosted_complete PlaidMethodID ''pending_plaid_webhook'' (plaid_judge cr)"

definition stripe_CompleteCeremony :: "crypto \<Rightarrow> 's result_ops \<Rightarrow> time \<Rightarrow> ceremony_context \<Rightarrow> ('s, hosted_error, method_result) comp" where
  "stripe_CompleteCeremony cr = hosted_complete StripeMethodID ''pending_stripe_webhook'' (stripe_judge cr)"

end
