(* ===== verification/Hosted_Safety.thy ===== *)
theory Hosted_Safety
  imports Hosted_Methods
begin

text \<open>
  What the webhook methods of \<open>Hosted_Methods\<close> establish, over any store with the laws of \<open>result_store\<close>: a session is verified only
  by a webhook that the vendor signed, that reports success, and that belongs to this session.
\<close>

section \<open>Where the reports come from\<close>

text \<open>Every binding is one of \<open>B\<close>, every report one of \<open>R\<close>.\<close>

definition traced ::
  "(string \<times> string) set \<Rightarrow> (string \<times> hook_result) set \<Rightarrow> (string \<Rightarrow> string option) \<Rightarrow> (string \<Rightarrow> hook_result option) \<Rightarrow> bool" where
  "traced B R V W \<longleftrightarrow> (\<forall>ref sid. V ref = Some sid \<longrightarrow> (ref, sid) \<in> B) \<and> (\<forall>sid r. W sid = Some r \<longrightarrow> (sid, r) \<in> R)"

lemma traced_le: "traced B R V W \<Longrightarrow> V' \<subseteq>\<^sub>m V \<Longrightarrow> W' \<subseteq>\<^sub>m W \<Longrightarrow> traced B R V' W'"
  unfolding traced_def by (metis domI map_le_def)

lemma traced_bind: "traced B R V W \<Longrightarrow> (ref, sid) \<in> B \<Longrightarrow> traced B R (V(ref \<mapsto> sid)) W"
  by (auto simp: traced_def)

lemma traced_report: "traced B R V W \<Longrightarrow> (sid, r) \<in> R \<Longrightarrow> traced B R V (W(sid \<mapsto> r))"
  by (auto simp: traced_def)

text \<open>
  What the ceremonies rely on: a write that answers is there and one that fails is there or not, a read gives what is there or nothing,
  and entries may vanish but never change by themselves.
\<close>

locale result_store =
  fixes ops :: "'s result_ops" and bound :: "'s \<Rightarrow> string \<Rightarrow> string option" and reported :: "'s \<Rightarrow> string \<Rightarrow> hook_result option"
  assumes bind_law: "wp (ro_Bind ops now sid ref) (\<lambda>_ s'. bound s' = (bound s)(ref \<mapsto> sid) \<and> reported s' = reported s)
      (\<lambda>_ s'. bound s' \<in> {bound s, (bound s)(ref \<mapsto> sid)} \<and> reported s' = reported s) s"
    and session_law: "wp (ro_Session ops now ref)
      (\<lambda>sid s'. (sid \<noteq> '''' \<longrightarrow> bound s ref = Some sid) \<and> bound s' \<subseteq>\<^sub>m bound s \<and> reported s' \<subseteq>\<^sub>m reported s)
      (\<lambda>_ s'. bound s' \<subseteq>\<^sub>m bound s \<and> reported s' \<subseteq>\<^sub>m reported s) s"
    and report_law: "wp (ro_PutResult ops now sid r) (\<lambda>_ s'. reported s' = (reported s)(sid \<mapsto> r) \<and> bound s' = bound s)
      (\<lambda>_ s'. reported s' \<in> {reported s, (reported s)(sid \<mapsto> r)} \<and> bound s' = bound s) s"
    and read_law: "wp (ro_GetResult ops now sid)
      (\<lambda>found s'. (\<forall>r. found = Some r \<longrightarrow> reported s sid = Some r) \<and> bound s' \<subseteq>\<^sub>m bound s \<and> reported s' \<subseteq>\<^sub>m reported s)
      (\<lambda>_ s'. bound s' \<subseteq>\<^sub>m bound s \<and> reported s' \<subseteq>\<^sub>m reported s) s"
begin

lemma bind_keeps: "(ref, sid) \<in> B \<Longrightarrow> keeps (\<lambda>s. traced B R (bound s) (reported s)) (ro_Bind ops now sid ref)"
  unfolding keeps_wp by (intro allI impI, rule wp_mono [OF bind_law]) (auto simp: traced_bind)

lemma report_keeps: "(sid, r) \<in> R \<Longrightarrow> keeps (\<lambda>s. traced B R (bound s) (reported s)) (ro_PutResult ops now sid r)"
  unfolding keeps_wp by (intro allI impI, rule wp_mono [OF report_law]) (auto simp: traced_report)

lemma read_keeps: "keeps (\<lambda>s. traced B R (bound s) (reported s)) (ro_GetResult ops now sid)"
  unfolding keeps_wp by (intro allI impI, rule wp_mono [OF read_law]) (auto intro: traced_le)

lemma lookup_traced:
  assumes "traced B R (bound s) (reported s)"
  shows "wp (lookup_session ops now ref) (\<lambda>sid s'. traced B R (bound s') (reported s') \<and> (sid \<noteq> '''' \<longrightarrow> (ref, sid) \<in> B)) E s"
proof -
  have "wp (ro_Session ops now ref) (\<lambda>sid s'. traced B R (bound s') (reported s') \<and> (sid \<noteq> '''' \<longrightarrow> (ref, sid) \<in> B))
      (\<lambda>_ s'. traced B R (bound s') (reported s')) s"
    by (rule wp_mono [OF session_law]) (use assms in \<open>auto simp: traced_def [of B R "bound s"] intro: traced_le [OF assms]\<close>)
  then show ?thesis by (auto simp: wp_def lookup_session_def split: prod.splits sum.splits)
qed

lemma store_keeps:
  assumes "sid \<noteq> '''' \<Longrightarrow> (sid, pw_Result p (hq_stamped req)) \<in> R"
  shows "keeps (\<lambda>s. traced B R (bound s) (reported s)) (store_report ops req p sid)"
proof (cases "sid = ''''")
  case False
  then show ?thesis unfolding store_report_def using assms by (simp add: keeps report_keeps)
qed (simp add: store_report_def keeps)

lemma stored_after_lookup:
  assumes "\<And>sid. (pw_Ref p, sid) \<in> B \<or> sid = pw_Session p \<Longrightarrow> (sid, pw_Result p (hq_stamped req)) \<in> R"
    and "\<And>found. found = '''' \<or> (pw_Ref p, found) \<in> B \<Longrightarrow> pick found = '''' \<or> (pw_Ref p, pick found) \<in> B \<or> pick found = pw_Session p"
  shows "keeps (\<lambda>s. traced B R (bound s) (reported s))
    (andThen (lookup_session ops now (pw_Ref p)) (\<lambda>found. store_report ops req p (pick found)))"
  unfolding keeps_wp
proof (intro allI impI, rule wp_seq [OF lookup_traced])
  fix found t assume t: "traced B R (bound t) (reported t) \<and> (found \<noteq> '''' \<longrightarrow> (pw_Ref p, found) \<in> B)"
  have "keeps (\<lambda>s. traced B R (bound s) (reported s)) (store_report ops req p (pick found))"
    by (rule store_keeps) (use t assms(2) [of found] assms(1) [of "pick found"] in blast)
  then show "wp (store_report ops req p (pick found)) (\<lambda>_ s. traced B R (bound s) (reported s)) (\<lambda>_ s. traced B R (bound s) (reported s)) t"
    using t unfolding keeps_wp by blast
qed

end

section \<open>Runs\<close>

datatype hosted_event = HostedBegin ceremony_context hosted_env | HostedHook hook_request | HostedComplete time ceremony_context

fun hosted_step ::
  "(hosted_env \<Rightarrow> ceremony_context \<Rightarrow> ('s, hosted_error, challenge_data) comp) \<Rightarrow> (hook_request \<Rightarrow> ('s, hook_error, hook_answer) comp) \<Rightarrow>
   (time \<Rightarrow> ceremony_context \<Rightarrow> ('s, hosted_error, method_result) comp) \<Rightarrow> hosted_event \<Rightarrow> 's \<Rightarrow> 's" where
  "hosted_step begins hook completes (HostedBegin cc env) s = snd (begins env cc s)"
| "hosted_step begins hook completes (HostedHook req) s = snd (hook req s)"
| "hosted_step begins hook completes (HostedComplete now cc) s = snd (completes now cc s)"

definition persona_run ::
  "crypto \<Rightarrow> string \<Rightarrow> (bytes \<Rightarrow> persona_event option) \<Rightarrow> string \<Rightarrow> 's result_ops \<Rightarrow> hosted_event list \<Rightarrow> 's \<Rightarrow> 's" where
  "persona_run cr secret unmarshal returnURL ops =
     fold (hosted_step (persona_BeginCeremony returnURL ops) (persona_Webhook cr secret unmarshal ops) (persona_CompleteCeremony cr ops))"

definition plaid_run ::
  "crypto \<Rightarrow> string \<Rightarrow> (bytes \<Rightarrow> plaid_event option) \<Rightarrow> 's result_ops \<Rightarrow> hosted_event list \<Rightarrow> 's \<Rightarrow> 's" where
  "plaid_run cr secret unmarshal ops =
     fold (hosted_step (plaid_BeginCeremony ops) (plaid_Webhook cr secret unmarshal ops) (plaid_CompleteCeremony cr ops))"

definition stripe_run ::
  "crypto \<Rightarrow> string \<Rightarrow> (bytes \<Rightarrow> stripe_event option) \<Rightarrow> string \<Rightarrow> 's result_ops \<Rightarrow> hosted_event list \<Rightarrow> 's \<Rightarrow> 's" where
  "stripe_run cr secret unmarshal key ops =
     fold (hosted_step (stripe_BeginCeremony key ops) (stripe_Webhook cr secret unmarshal ops) (stripe_CompleteCeremony cr ops))"

text \<open>The bindings that the begins of a run may have made, and the reports that its webhooks may have stored.\<close>

definition hook_begun :: "(vendor_answer \<Rightarrow> (string \<times> string \<times> string) option) \<Rightarrow> hosted_event list \<Rightarrow> (string \<times> string) set" where
  "hook_begun create evs = {(ref, cc_SessionID cc) |ref cc env x y. HostedBegin cc env \<in> set evs \<and> create (hv_answer env) = Some (ref, x, y)}"

definition delivered ::
  "crypto \<Rightarrow> string \<Rightarrow> (bytes \<Rightarrow> parsed_webhook option) \<Rightarrow> (string \<times> string) set \<Rightarrow> hosted_event list \<Rightarrow> (string \<times> hook_result) set" where
  "delivered cr secret parse B evs = {(sid, pw_Result p (hq_stamped req)) |sid p req.
     HostedHook req \<in> set evs \<and> receive_hook cr secret parse req = Inr p \<and> ((pw_Ref p, sid) \<in> B \<or> sid = pw_Session p)}"

text \<open>
  \<open>confirmed create cr secret parse evs cc res\<close>: some webhook that came in was signed with the secret, at most five minutes off, reports
  an approval, and names this session or an id that a begin of this session created; it is the time of its arrival that the result carries.
\<close>

definition confirmed ::
  "(vendor_answer \<Rightarrow> (string \<times> string \<times> string) option) \<Rightarrow> crypto \<Rightarrow> string \<Rightarrow> (bytes \<Rightarrow> parsed_webhook option) \<Rightarrow>
   hosted_event list \<Rightarrow> ceremony_context \<Rightarrow> method_result \<Rightarrow> bool" where
  "confirmed create cr secret parse evs cc res \<longleftrightarrow>
     (\<exists>req body p. HostedHook req \<in> set evs \<and> hq_Body req = Some body \<and>
        signed_by cr secret (hq_Signature req) body (hq_checked req) \<and> parse body = Some p \<and>
        hr_Status (pw_Result p (hq_stamped req)) = StatusApproved \<and> mr_VerifiedAt res = hq_stamped req \<and>
        ((pw_Ref p, cc_SessionID cc) \<in> hook_begun create evs \<or> cc_SessionID cc = pw_Session p))"

lemma ret_first: "andThen (ret a) f = f a"
  by (simp add: fun_eq_iff andThen_def ret_def)

lemma received:
  "receive_hook cr secret parse req = Inr p \<Longrightarrow>
     \<exists>body. hq_Body req = Some body \<and> signed_by cr secret (hq_Signature req) body (hq_checked req) \<and> parse body = Some p"
  by (fastforce simp: receive_hook_def split: option.splits if_splits sum.splits intro: verify_signed)

lemma stamped:
  "persona_Parse pe = Some p \<Longrightarrow> hr_CompletedAt (pw_Result p t) = t"
  "plaid_Parse le = Some p \<Longrightarrow> hr_CompletedAt (pw_Result p t) = t"
  "stripe_Parse se = Some p \<Longrightarrow> hr_CompletedAt (pw_Result p t) = t"
  by (auto simp: persona_Parse_def plaid_Parse_def stripe_Parse_def Let_def split: option.splits if_splits)

lemma judged:
  "mr_Success (persona_judge cr sid r) \<Longrightarrow> hr_Status r = StatusApproved \<and> mr_VerifiedAt (persona_judge cr sid r) = hr_CompletedAt r"
  "mr_Success (plaid_judge cr sid r) \<Longrightarrow> hr_Status r = StatusApproved \<and> mr_VerifiedAt (plaid_judge cr sid r) = hr_CompletedAt r"
  "mr_Success (stripe_judge cr sid r) \<Longrightarrow> hr_Status r = StatusApproved \<and> mr_VerifiedAt (stripe_judge cr sid r) = hr_CompletedAt r"
  by (auto simp: persona_judge_def plaid_judge_def stripe_judge_def failed_result_def passed_result_def split: if_splits)

context result_store
begin

lemma begin_keeps:
  assumes "\<And>ref x y. create (hv_answer env) = Some (ref, x, y) \<Longrightarrow> (ref, cc_SessionID cc) \<in> B"
  shows "keeps (\<lambda>s. traced B R (bound s) (reported s)) (hosted_begin ops create ctype payload env cc)"
  unfolding hosted_begin_def by (intro keeps bind_keeps) (simp add: assms)

lemma complete_keeps: "keeps (\<lambda>s. traced B R (bound s) (reported s)) (hosted_complete mid pending judge ops now cc)"
  unfolding hosted_complete_def by (intro keeps read_keeps)

lemma hooks_keep:
  assumes "HostedHook req \<in> set evs"
  shows
    "R = delivered cr secret (\<lambda>b. persona_Parse (up b)) B evs \<Longrightarrow>
       keeps (\<lambda>s. traced B R (bound s) (reported s)) (persona_Webhook cr secret up ops req)"
    "R = delivered cr secret (\<lambda>b. plaid_Parse (ul b)) B evs \<Longrightarrow>
       keeps (\<lambda>s. traced B R (bound s) (reported s)) (plaid_Webhook cr secret ul ops req)"
    "R = delivered cr secret (\<lambda>b. stripe_Parse (us b)) B evs \<Longrightarrow>
       keeps (\<lambda>s. traced B R (bound s) (reported s)) (stripe_Webhook cr secret us ops req)"
proof -
  have lookup: "keeps (\<lambda>s. traced B R (bound s) (reported s))
      (andThen (lookup_session ops now (pw_Ref p)) (\<lambda>found. store_report ops req p (pick found)))"
    if "receive_hook cr secret parse req = Inr p" "R = delivered cr secret parse B evs" "\<And>f. pick f = f \<or> pick f = pw_Session p"
    for parse p now pick
    by (rule stored_after_lookup) (use that assms in \<open>unfold delivered_def, blast\<close>, metis that(3))
  have direct: "keeps (\<lambda>s. traced B R (bound s) (reported s)) (store_report ops req p (pw_Session p))"
    if "receive_hook cr secret parse req = Inr p" "R = delivered cr secret parse B evs" for parse p
    by (rule store_keeps) (use that assms in \<open>unfold delivered_def, blast\<close>)
  show "keeps (\<lambda>s. traced B R (bound s) (reported s)) (persona_Webhook cr secret up ops req)"
    if "R = delivered cr secret (\<lambda>b. persona_Parse (up b)) B evs"
    unfolding persona_Webhook_def using lookup [OF _ that, of _ "\<lambda>f. f"] direct [OF _ that]
    by (auto simp: keeps ret_first split: sum.split)
  show "keeps (\<lambda>s. traced B R (bound s) (reported s)) (plaid_Webhook cr secret ul ops req)"
    if "R = delivered cr secret (\<lambda>b. plaid_Parse (ul b)) B evs"
    unfolding plaid_Webhook_def using lookup [OF _ that, of _ "\<lambda>f. f"] by (auto simp: keeps split: sum.split)
  show "keeps (\<lambda>s. traced B R (bound s) (reported s)) (stripe_Webhook cr secret us ops req)"
    if "R = delivered cr secret (\<lambda>b. stripe_Parse (us b)) B evs"
    unfolding stripe_Webhook_def by (auto simp: keeps split: sum.split intro!: lookup [OF _ that])
qed

lemma run_keeps:
  assumes "\<And>cc env. HostedBegin cc env \<in> set evs \<Longrightarrow> keeps (\<lambda>s. traced B R (bound s) (reported s)) (begins env cc)"
    and "\<And>req. HostedHook req \<in> set evs \<Longrightarrow> keeps (\<lambda>s. traced B R (bound s) (reported s)) (hook req)"
    and "\<And>now cc. keeps (\<lambda>s. traced B R (bound s) (reported s)) (completes now cc)"
    and "traced B R (bound s) (reported s)"
  shows "traced B R (bound (fold (hosted_step begins hook completes) evs s)) (reported (fold (hosted_step begins hook completes) evs s))"
  using assms(1,2,4)
proof (induction evs arbitrary: s)
  case (Cons ev evs)
  have "traced B R (bound (hosted_step begins hook completes ev s)) (reported (hosted_step begins hook completes ev s))"
    using Cons.prems assms(3) by (cases ev) (simp_all add: keeps_def)
  then show ?case using Cons.IH Cons.prems(1,2) by simp
qed simp

lemma complete_reported:
  assumes "fst (hosted_complete mid pending judge ops now cc s) = Inr res" "mr_Success res" "traced B R (bound s) (reported s)"
  shows "\<exists>r. (cc_SessionID cc, r) \<in> R \<and> res = judge (cc_SessionID cc) r"
proof -
  have ne: "cc_SessionID cc \<noteq> ''''" using assms(1,2) by (auto simp: hosted_complete_def ret_def failed_result_def)
  obtain x t where g: "ro_GetResult ops now (cc_SessionID cc) s = (x, t)" by fastforce
  obtain r where "x = Inr (Some r)" "res = judge (cc_SessionID cc) r"
    using assms(1,2) ne g
    by (auto simp: hosted_complete_def andThen_def onError_def ret_def failed_result_def split: sum.splits option.splits)
  then have "reported s (cc_SessionID cc) = Some r" using read_law [of now "cc_SessionID cc" s] g by (simp add: wp_def)
  then show ?thesis using assms(3) \<open>res = judge (cc_SessionID cc) r\<close> unfolding traced_def by blast
qed

lemma confirmed_success:
  assumes "fst (hosted_complete mid pending judge ops now cc s) = Inr res" "mr_Success res"
    and "traced (hook_begun create evs) (delivered cr secret parse (hook_begun create evs) evs) (bound s) (reported s)"
    and "\<And>r. mr_Success (judge (cc_SessionID cc) r) \<Longrightarrow> hr_Status r = StatusApproved \<and> mr_VerifiedAt (judge (cc_SessionID cc) r) = hr_CompletedAt r"
    and "\<And>b p t. parse b = Some p \<Longrightarrow> hr_CompletedAt (pw_Result p t) = t"
  shows "confirmed create cr secret parse evs cc res"
proof -
  obtain r where r: "(cc_SessionID cc, r) \<in> delivered cr secret parse (hook_begun create evs) evs" "res = judge (cc_SessionID cc) r"
    using complete_reported [OF assms(1-3)] by blast
  then obtain p req where p: "HostedHook req \<in> set evs" "receive_hook cr secret parse req = Inr p" "r = pw_Result p (hq_stamped req)"
      "(pw_Ref p, cc_SessionID cc) \<in> hook_begun create evs \<or> cc_SessionID cc = pw_Session p"
    by (auto simp: delivered_def)
  then show ?thesis using received [OF p(2)] assms(4) [of r] assms(2,5) r(2) unfolding confirmed_def by metis
qed

end

section \<open>The stores keep it\<close>

interpretation memory_results: result_store memory_results_ops mq_byRef mq_bySession
  by unfold_locales
    (auto simp: wp_def memory_results_ops_def memory_Bind_def memory_Session_def memory_PutResult_def memory_GetResult_def
      split: option.split)

definition bound_at :: "(result_key \<Rightarrow> string) \<Rightarrow> result_doc ttl_store \<Rightarrow> string \<Rightarrow> string option" where
  "bound_at key d ref = (case tt_view d (key (ByInquiry ref)) of Some (Some (Binding sid)) \<Rightarrow> Some sid | _ \<Rightarrow> None)"

definition reported_at :: "(result_key \<Rightarrow> string) \<Rightarrow> result_doc ttl_store \<Rightarrow> string \<Rightarrow> hook_result option" where
  "reported_at key d sid = (case tt_view d (key (BySession sid)) of Some (Some (Report r)) \<Rightarrow> Some r | _ \<Rightarrow> None)"

lemma map_le_fewer: "(\<And>j. V' j \<in> {None, V j}) \<Longrightarrow> V' \<subseteq>\<^sub>m V"
  by (auto simp: map_le_def) (metis option.distinct(1))

lemma read_binding:
  assumes "found = None \<Longrightarrow> Q '''' d" "\<And>sid. found = Some (Some (Binding sid)) \<Longrightarrow> Q sid d" "E () d"
  shows "wp (case found of None \<Rightarrow> ret '''' | Some doc \<Rightarrow> (case doc of Some (Binding sid) \<Rightarrow> ret sid | _ \<Rightarrow> throw ())) Q E d"
  using assms by (auto simp: wp split: option.split result_doc.split)

lemma read_report:
  assumes "found = None \<Longrightarrow> Q None d" "\<And>r. found = Some (Some (Report r)) \<Longrightarrow> Q (Some r) d" "E () d"
  shows "wp (case found of None \<Rightarrow> ret None | Some doc \<Rightarrow> (case doc of Some (Report r) \<Rightarrow> ret (Some r) | _ \<Rightarrow> throw ())) Q E d"
  using assms by (auto simp: wp split: option.split result_doc.split)

locale durable_result_store = ttl_client "kc_Get cl" "kc_Set cl" "kc_Del cl" for cl :: "result_doc kv_client" +
  fixes key :: "result_key \<Rightarrow> string"
  assumes inj_key: "inj key"
begin

lemma key_eq [simp]: "key a = key b \<longleftrightarrow> a = b"
  using inj_key by (simp add: inj_def) blast

lemma set_binding:
  "tt_view d' = (tt_view d)(key (ByInquiry ref) := Some (Some (Binding sid))) \<Longrightarrow>
     bound_at key d' = (bound_at key d)(ref \<mapsto> sid) \<and> reported_at key d' = reported_at key d"
  by (auto simp: bound_at_def reported_at_def fun_eq_iff)

lemma set_report:
  "tt_view d' = (tt_view d)(key (BySession sid) := Some (Some (Report r))) \<Longrightarrow>
     reported_at key d' = (reported_at key d)(sid \<mapsto> r) \<and> bound_at key d' = bound_at key d"
  by (auto simp: bound_at_def reported_at_def fun_eq_iff)

lemma same_results: "tt_view d' = tt_view d \<Longrightarrow> bound_at key d' = bound_at key d \<and> reported_at key d' = reported_at key d"
  by (simp add: bound_at_def reported_at_def fun_eq_iff)

lemma fewer_results:
  assumes "tt_view d' k \<in> {None, tt_view d k}" "touches k (tt_view d) (tt_view d')"
  shows "bound_at key d' \<subseteq>\<^sub>m bound_at key d \<and> reported_at key d' \<subseteq>\<^sub>m reported_at key d"
proof -
  have v: "tt_view d' j \<in> {None, tt_view d j}" for j using assms by (cases "j = k") (auto simp: touches_def)
  have "bound_at key d' ref \<in> {None, bound_at key d ref}" for ref
    using v [of "key (ByInquiry ref)"] by (elim insertE) (simp_all add: bound_at_def)
  moreover have "reported_at key d' sid \<in> {None, reported_at key d sid}" for sid
    using v [of "key (BySession sid)"] by (elim insertE) (simp_all add: reported_at_def)
  ultimately show ?thesis by (intro conjI map_le_fewer)
qed

lemma get_results:
  "wp (kc_Get cl now k)
     (\<lambda>found d'. (found = None \<or> tt_view d k = found) \<and> bound_at key d' \<subseteq>\<^sub>m bound_at key d \<and> reported_at key d' \<subseteq>\<^sub>m reported_at key d)
     (\<lambda>_ d'. bound_at key d' \<subseteq>\<^sub>m bound_at key d \<and> reported_at key d' \<subseteq>\<^sub>m reported_at key d) d"
proof (rule wp_mono [OF get_law])
  fix found d'
  assume "(found = tt_view d k \<and> tt_view d' = tt_view d) \<or>
    (found = None \<and> tt_view d' k \<in> {None, tt_view d k} \<and> touches k (tt_view d) (tt_view d'))"
  then show "(found = None \<or> tt_view d k = found) \<and> bound_at key d' \<subseteq>\<^sub>m bound_at key d \<and> reported_at key d' \<subseteq>\<^sub>m reported_at key d"
  proof
    assume "found = tt_view d k \<and> tt_view d' = tt_view d"
    then show ?thesis using same_results [of d' d] by simp
  next
    assume "found = None \<and> tt_view d' k \<in> {None, tt_view d k} \<and> touches k (tt_view d) (tt_view d')"
    then show ?thesis using fewer_results by blast
  qed
next
  fix e d' assume "tt_view d' = tt_view d"
  then show "bound_at key d' \<subseteq>\<^sub>m bound_at key d \<and> reported_at key d' \<subseteq>\<^sub>m reported_at key d"
    using same_results [of d' d] by simp
qed

end

sublocale durable_result_store \<subseteq> results: result_store "durable_results cl key" "bound_at key" "reported_at key"
proof unfold_locales
  fix now sid ref and s :: "result_doc ttl_store"
  show "wp (ro_Bind (durable_results cl key) now sid ref)
      (\<lambda>_ s'. bound_at key s' = (bound_at key s)(ref \<mapsto> sid) \<and> reported_at key s' = reported_at key s)
      (\<lambda>_ s'. bound_at key s' \<in> {bound_at key s, (bound_at key s)(ref \<mapsto> sid)} \<and> reported_at key s' = reported_at key s) s"
    unfolding durable_results_def result_ops.simps durable_Bind_def
    by (auto simp: wp intro!: wp_mono [OF put_law] dest: set_binding same_results)
next
  fix now ref and s :: "result_doc ttl_store"
  show "wp (ro_Session (durable_results cl key) now ref)
      (\<lambda>sid s'. (sid \<noteq> '''' \<longrightarrow> bound_at key s ref = Some sid) \<and> bound_at key s' \<subseteq>\<^sub>m bound_at key s \<and> reported_at key s' \<subseteq>\<^sub>m reported_at key s)
      (\<lambda>_ s'. bound_at key s' \<subseteq>\<^sub>m bound_at key s \<and> reported_at key s' \<subseteq>\<^sub>m reported_at key s) s"
    unfolding durable_results_def result_ops.simps durable_Session_def
    by (rule wp_step [OF get_results], simp, rule read_binding) (auto simp: bound_at_def [of _ s])
next
  fix now sid r and s :: "result_doc ttl_store"
  show "wp (ro_PutResult (durable_results cl key) now sid r)
      (\<lambda>_ s'. reported_at key s' = (reported_at key s)(sid \<mapsto> r) \<and> bound_at key s' = bound_at key s)
      (\<lambda>_ s'. reported_at key s' \<in> {reported_at key s, (reported_at key s)(sid \<mapsto> r)} \<and> bound_at key s' = bound_at key s) s"
    unfolding durable_results_def result_ops.simps durable_PutResult_def
    by (auto simp: wp intro!: wp_mono [OF put_law] dest: set_report same_results)
next
  fix now sid and s :: "result_doc ttl_store"
  show "wp (ro_GetResult (durable_results cl key) now sid)
      (\<lambda>found s'. (\<forall>r. found = Some r \<longrightarrow> reported_at key s sid = Some r) \<and> bound_at key s' \<subseteq>\<^sub>m bound_at key s \<and> reported_at key s' \<subseteq>\<^sub>m reported_at key s)
      (\<lambda>_ s'. bound_at key s' \<subseteq>\<^sub>m bound_at key s \<and> reported_at key s' \<subseteq>\<^sub>m reported_at key s) s"
    unfolding durable_results_def result_ops.simps durable_GetResult_def
    by (rule wp_step [OF get_results], simp, rule read_report) (auto simp: reported_at_def [of _ s])
qed

lemma result_keys_inj: "inj redisResultKey" "inj firestoreResultKey"
proof -
  have "redisResultKey a = redisResultKey b \<Longrightarrow> a = b" for a b by (cases a; cases b) auto
  then show "inj redisResultKey" by (rule injI)
  have "firestoreResultKey a = firestoreResultKey b \<Longrightarrow> a = b" for a b by (cases a; cases b) auto
  then show "inj firestoreResultKey" by (rule injI)
qed

interpretation redis_reports: durable_result_store redis_client redisResultKey
  by unfold_locales
    (simp_all only: redis_client_def kv_client.simps redis_kv.get_law redis_kv.put_law redis_kv.del_law result_keys_inj,
     rule redis_kv.put_blind)

interpretation firestore_reports: durable_result_store firestore_client firestoreResultKey
  by unfold_locales
    (simp_all only: firestore_client_def kv_client.simps firestore_kv.get_law firestore_kv.put_law firestore_kv.del_law result_keys_inj,
     rule firestore_kv.put_blind)

section \<open>A verified session was confirmed by its vendor\<close>

lemma begun_mem: "HostedBegin cc env \<in> set evs \<Longrightarrow> create (hv_answer env) = Some (ref, x, y) \<Longrightarrow> (ref, cc_SessionID cc) \<in> hook_begun create evs"
  by (auto simp: hook_begun_def)

context result_store
begin

lemma run_confirmed:
  assumes "fst (hosted_complete mid pending judge ops now cc (fold (hosted_step begins hook (hosted_complete mid pending judge ops)) evs s)) = Inr res"
    and "mr_Success res" "bound s = Map.empty" "reported s = Map.empty"
    and "begins = hosted_begin ops create ctype payload"
    and "\<And>req. HostedHook req \<in> set evs \<Longrightarrow>
      keeps (\<lambda>s. traced (hook_begun create evs) (delivered cr secret parse (hook_begun create evs) evs) (bound s) (reported s)) (hook req)"
    and "\<And>sid r. mr_Success (judge sid r) \<Longrightarrow> hr_Status r = StatusApproved \<and> mr_VerifiedAt (judge sid r) = hr_CompletedAt r"
    and "\<And>b p t. parse b = Some p \<Longrightarrow> hr_CompletedAt (pw_Result p t) = t"
  shows "confirmed create cr secret parse evs cc res"
proof (rule confirmed_success [OF assms(1,2) _ assms(7,8)])
  show "traced (hook_begun create evs) (delivered cr secret parse (hook_begun create evs) evs)
      (bound (fold (hosted_step begins hook (hosted_complete mid pending judge ops)) evs s))
      (reported (fold (hosted_step begins hook (hosted_complete mid pending judge ops)) evs s))"
  proof (rule run_keeps [OF _ assms(6) complete_keeps])
    show "keeps (\<lambda>s. traced (hook_begun create evs) (delivered cr secret parse (hook_begun create evs) evs) (bound s) (reported s)) (begins env cc)"
      if "HostedBegin cc env \<in> set evs" for cc env
      unfolding assms(5) by (rule begin_keeps) (rule begun_mem [OF that])
  qed (simp_all add: assms(3,4) traced_def)
qed

lemma persona_success:
  assumes "fst (persona_CompleteCeremony cr ops now cc (persona_run cr secret up url ops evs s)) = Inr res" "mr_Success res"
    and "bound s = Map.empty" "reported s = Map.empty"
  shows "confirmed CreateInquiry cr secret (\<lambda>b. persona_Parse (up b)) evs cc res"
  using assms(1) unfolding persona_CompleteCeremony_def persona_run_def persona_BeginCeremony_def
  by (rule run_confirmed [OF _ assms(2-4) refl hooks_keep(1) [OF _ refl] judged(1) stamped(1)])

lemma plaid_success:
  assumes "fst (plaid_CompleteCeremony cr ops now cc (plaid_run cr secret ul ops evs s)) = Inr res" "mr_Success res"
    and "bound s = Map.empty" "reported s = Map.empty"
  shows "confirmed CreateLinkSession cr secret (\<lambda>b. plaid_Parse (ul b)) evs cc res"
  using assms(1) unfolding plaid_CompleteCeremony_def plaid_run_def plaid_BeginCeremony_def
  by (rule run_confirmed [OF _ assms(2-4) refl hooks_keep(2) [OF _ refl] judged(2) stamped(2)])

lemma stripe_success:
  assumes "fst (stripe_CompleteCeremony cr ops now cc (stripe_run cr secret us pk ops evs s)) = Inr res" "mr_Success res"
    and "bound s = Map.empty" "reported s = Map.empty"
  shows "confirmed CreateSetupIntent cr secret (\<lambda>b. stripe_Parse (us b)) evs cc res"
  using assms(1) unfolding stripe_CompleteCeremony_def stripe_run_def stripe_BeginCeremony_def
  by (rule run_confirmed [OF _ assms(2-4) refl hooks_keep(3) [OF _ refl] judged(3) stamped(3)])

end

definition no_results :: memory_results where
  "no_results = \<lparr>mq_bySession = Map.empty, mq_byRef = Map.empty\<rparr>"

definition no_documents :: "call_fate list \<Rightarrow> result_doc ttl_store" where
  "no_documents calls = \<lparr>tt_docs = Map.empty, tt_calls = calls\<rparr>"

lemma no_results: "mq_byRef no_results = Map.empty" "mq_bySession no_results = Map.empty"
    "bound_at key (no_documents calls) = Map.empty" "reported_at key (no_documents calls) = Map.empty"
  by (simp_all add: no_results_def no_documents_def bound_at_def reported_at_def tt_view_def fun_eq_iff)

text \<open>C19: Nobody passes a government-id, bank-link or billing-card check by himself: a completion succeeds only if a webhook came in
  that carries a signature with the vendor's secret over its body, made at most five minutes off, reports an approval, and belongs to this session, by its name
  or by an id that a begin of this session obtained from the vendor. So after any begins, webhooks and completions by anyone, with each of
  the stores, and whichever calls to the durable stores of the government-id method fail.
\<close>

theorem verified_session_was_confirmed:
  assumes "mr_Success res"
  shows
    "(fst (persona_CompleteCeremony cr memory_results_ops now cc (persona_run cr secret up url memory_results_ops evs no_results)) = Inr res \<longrightarrow>
       confirmed CreateInquiry cr secret (\<lambda>b. persona_Parse (up b)) evs cc res) \<and>
     (fst (persona_CompleteCeremony cr redis_results now cc (persona_run cr secret up url redis_results evs (no_documents calls))) = Inr res \<longrightarrow>
       confirmed CreateInquiry cr secret (\<lambda>b. persona_Parse (up b)) evs cc res) \<and>
     (fst (persona_CompleteCeremony cr firestore_results now cc (persona_run cr secret up url firestore_results evs (no_documents calls))) = Inr res \<longrightarrow>
       confirmed CreateInquiry cr secret (\<lambda>b. persona_Parse (up b)) evs cc res) \<and>
     (fst (plaid_CompleteCeremony cr memory_results_ops now cc (plaid_run cr secret ul memory_results_ops evs no_results)) = Inr res \<longrightarrow>
       confirmed CreateLinkSession cr secret (\<lambda>b. plaid_Parse (ul b)) evs cc res) \<and>
     (fst (stripe_CompleteCeremony cr memory_results_ops now cc (stripe_run cr secret us pk memory_results_ops evs no_results)) = Inr res \<longrightarrow>
       confirmed CreateSetupIntent cr secret (\<lambda>b. stripe_Parse (us b)) evs cc res)"
  unfolding redis_results_def firestore_results_def
  by (intro conjI impI memory_results.persona_success redis_reports.results.persona_success firestore_reports.results.persona_success
      memory_results.plaid_success memory_results.stripe_success; (assumption | rule assms no_results))

text \<open>
  The latest accepted webhook decides, whatever was reported before: the handler stores every status, so an event that is delivered late
  replaces an approval, and within its five minutes an approval delivered again replaces what came after it.
\<close>

lemma last_report_decides:
  assumes "receive_hook cr secret (\<lambda>b. persona_Parse (up b)) req = Inr p" "cc_SessionID cc = sid" "sid \<noteq> ''''"
    and "pw_Session p = sid \<or> pw_Session p = '''' \<and> mq_byRef s (pw_Ref p) = Some sid"
  shows "fst (persona_CompleteCeremony cr memory_results_ops now cc (snd (persona_Webhook cr secret up memory_results_ops req s))) =
    Inr (persona_judge cr sid (pw_Result p (hq_stamped req)))"
  using assms
  by (elim disjE conjE) (simp_all add: persona_Webhook_def lookup_session_def store_report_def andThen_def onError_def ret_def memory_results_ops_def
      memory_Session_def memory_PutResult_def persona_CompleteCeremony_def hosted_complete_def memory_GetResult_def)

lemma vendor_signs:
  assumes "secret \<noteq> ''''" "ts \<noteq> 0" "min_int64 \<le> ts" "ts \<le> max_int64" "\<bar>now - unix_time ts\<bar> \<le> WebhookReplayWindow"
  shows "VerifyWebhookSignature cr secret
    (''t='' @ int_string ts @ '',v1='' @ hex_encode (c_hmac cr secret (signed_payload ts body))) body now = Inr ()"
  unfolding VerifyWebhookSignature_def scan_signed [OF assms(3,4)]
  using assms(1,2,5) sub_time_window [of now "unix_time ts"] by (auto simp: Let_def)

text \<open>A run: the session's begin, then the vendor's approval of the inquiry it created.\<close>

definition sample_hook_crypto :: crypto where
  "sample_hook_crypto = \<lparr>c_sha256 = (\<lambda>b. b), c_hmac = (\<lambda>k m. k @ m), c_sign = (\<lambda>_ _. []), c_verify = (\<lambda>_ _ _. False)\<rparr>"

definition sample_unmarshal :: "bytes \<Rightarrow> persona_event option" where
  "sample_unmarshal b = Some \<lparr>pe_Name = ''inquiry.approved'', pe_ID = b, pe_Status = ''approved'', pe_ReferenceID = ''''\<rparr>"

definition sample_hosted_context :: ceremony_context where
  "sample_hosted_context = \<lparr>cc_SessionID = ''5e'', cc_HolderDID = '''', cc_UserID = '''', cc_MethodID = '''', cc_IssuerDID = '''', cc_StartedAt = 0\<rparr>"

definition sample_hook :: hook_request where
  "sample_hook = \<lparr>hq_Signature = ''t='' @ int_string 7 @ '',v1='' @ hex_encode (c_hmac sample_hook_crypto ''k'' (signed_payload 7 ''inq'')),
     hq_Body = Some ''inq'', hq_checked = unix_time 8, hq_stamped = unix_time 9\<rparr>"

definition sample_hosted_events :: "hosted_event list" where
  "sample_hosted_events = [HostedBegin sample_hosted_context \<lparr>hv_now = 0, hv_answer = Some (201, Some (''inq'', ''created'', ''''))\<rparr>, HostedHook sample_hook]"

lemma sample_received:
  "receive_hook sample_hook_crypto ''k'' (\<lambda>b. persona_Parse (sample_unmarshal b)) sample_hook = Inr
     \<lparr>pw_Ref = ''inq'', pw_Session = '''', pw_Result = (\<lambda>now. \<lparr>hr_ID = ''inq'', hr_CardFingerprint = '''', hr_Status = ''approved'',
        hr_RawStatus = ''approved'', hr_CompletedAt = now, hr_EventName = ''inquiry.approved''\<rparr>)\<rparr>"
proof -
  have v: "VerifyWebhookSignature sample_hook_crypto ''k'' (hq_Signature sample_hook) ''inq'' (unix_time 8) = Inr ()"
    using vendor_signs [of "''k''" 7 "unix_time 8" sample_hook_crypto "''inq''"]
    by (simp add: sample_hook_def min_int64_def max_int64_def unix_time_def WebhookReplayWindow_def ns_minute_def)
  have f: "hq_Body sample_hook = Some ''inq''" "hq_checked sample_hook = unix_time 8" by (simp_all add: sample_hook_def)
  have t: "trim_space ''approved'' = ''approved''" "to_lower ''approved'' = ''approved''"
    by (simp_all add: printable_def to_lower_def lower_char_def)
  show ?thesis
    by (simp add: receive_hook_def f v WebhookMaxBodyBytes_def persona_Parse_def sample_unmarshal_def t persona_mapStatus_def StatusApproved_def Let_def)
qed

lemma sample_confirmed:
  "\<exists>res. fst (persona_CompleteCeremony sample_hook_crypto memory_results_ops 0 sample_hosted_context
       (persona_run sample_hook_crypto ''k'' sample_unmarshal '''' memory_results_ops sample_hosted_events no_results)) = Inr res \<and> mr_Success res"
proof -
  have b: "snd (persona_BeginCeremony '''' memory_results_ops \<lparr>hv_now = 0, hv_answer = Some (201, Some (''inq'', ''created'', ''''))\<rparr> sample_hosted_context no_results) =
      no_results\<lparr>mq_byRef := [''inq'' \<mapsto> ''5e'']\<rparr>"
    by (simp add: persona_BeginCeremony_def hosted_begin_def sample_hosted_context_def CreateInquiry_def created_def andThen_def onError_def
        ret_def memory_results_ops_def memory_Bind_def no_results_def)
  have h: "mq_bySession (snd (persona_Webhook sample_hook_crypto ''k'' sample_unmarshal memory_results_ops sample_hook
      (no_results\<lparr>mq_byRef := [''inq'' \<mapsto> ''5e'']\<rparr>))) ''5e'' =
      Some \<lparr>hr_ID = ''inq'', hr_CardFingerprint = '''', hr_Status = ''approved'', hr_RawStatus = ''approved'', hr_CompletedAt = hq_stamped sample_hook,
        hr_EventName = ''inquiry.approved''\<rparr>"
    by (simp add: persona_Webhook_def sample_received lookup_session_def store_report_def andThen_def onError_def ret_def memory_results_ops_def
        memory_Session_def memory_PutResult_def)
  have "mq_bySession (persona_run sample_hook_crypto ''k'' sample_unmarshal '''' memory_results_ops sample_hosted_events no_results) ''5e'' =
      Some \<lparr>hr_ID = ''inq'', hr_CardFingerprint = '''', hr_Status = ''approved'', hr_RawStatus = ''approved'', hr_CompletedAt = hq_stamped sample_hook,
        hr_EventName = ''inquiry.approved''\<rparr>"
    using h by (simp add: persona_run_def sample_hosted_events_def b)
  then show ?thesis
    by (simp add: persona_CompleteCeremony_def hosted_complete_def andThen_def onError_def
        memory_GetResult_def memory_results_ops_def ret_def sample_hosted_context_def persona_judge_def StatusApproved_def passed_result_def)
qed

theorem verified_session_was_confirmed_witness:
  "\<exists>res. fst (persona_CompleteCeremony sample_hook_crypto memory_results_ops 0 sample_hosted_context
       (persona_run sample_hook_crypto ''k'' sample_unmarshal '''' memory_results_ops sample_hosted_events no_results)) = Inr res \<and>
     confirmed CreateInquiry sample_hook_crypto ''k'' (\<lambda>b. persona_Parse (sample_unmarshal b)) sample_hosted_events sample_hosted_context res"
proof -
  obtain res where r: "fst (persona_CompleteCeremony sample_hook_crypto memory_results_ops 0 sample_hosted_context
       (persona_run sample_hook_crypto ''k'' sample_unmarshal '''' memory_results_ops sample_hosted_events no_results)) = Inr res" "mr_Success res"
    using sample_confirmed by blast
  from verified_session_was_confirmed [OF r(2), of sample_hook_crypto 0 sample_hosted_context "''k''" sample_unmarshal "''''"
      sample_hosted_events] r(1)
  show ?thesis by blast
qed

end
