(* ===== verification/Device_Attestation.thy ===== *)
theory Device_Attestation
  imports Server_Monad Codec Vouching
begin

text \<open>
  The device method, \<open>src/src/methods/app-attest-device\<close>: a phone attests a key for the nonce of its session. \<open>method.go\<close> holds the
  ceremony, \<open>store.go\<close> the nonces, \<open>androidkey.go\<close> the check of an Android certificate chain, \<open>revocation.go\<close> the cached
  list of revoked serials, \<open>hintlimit.go\<close> the limit of sessions per phone, and \<open>src/src/server/appattest.go\<close> the wiring. X.509 and
  ASN.1 are arguments: a certificate is the record of the fields the code reads, and \<open>ParseKeyDescription\<close> a function.
\<close>

section \<open>Certificates\<close>

record android_cert =
  ac_Issuer :: bytes
  ac_Subject :: bytes
  ac_SPKI :: bytes
  ac_NotBefore :: time
  ac_NotAfter :: time
  ac_Serial :: string
  ac_IssuerOrganization :: "string list"
  ac_IssuerCommonName :: string
  ac_KeyExtensions :: "bytes list"

text \<open>
  \<open>ac_Serial\<close> is \<open>SerialNumber.Text(16)\<close>, which is lower case, and \<open>ac_KeyExtensions\<close> the values of the extensions with the OID
  of key attestation, in their order.
\<close>

datatype security_level = LevelSoftware | LevelTEE | LevelStrongBox | LevelUnknown int

datatype boot_state = BootVerified | BootSelfSigned | BootUnverified | BootFailed | BootOther int

record root_of_trust =
  rt_DeviceLocked :: bool
  rt_VerifiedBootState :: boot_state

record application_id =
  ai_PackageNames :: "string list"
  ai_SignatureDigests :: "bytes list"

record key_description =
  kd_AttestationSecurityLevel :: security_level
  kd_KeyMintSecurityLevel :: security_level
  kd_Challenge :: bytes
  kd_RootOfTrust :: "root_of_trust option"
  kd_Origin :: int
  kd_ApplicationID :: "application_id option"

record device_evidence =
  ev_SecurityLevel :: string
  ev_DeviceHint :: string

text \<open>What is outside the repository: parsing a certificate and its extension, and \<open>CheckSignature\<close> of a parent.\<close>

record x509 =
  xo_parse :: "bytes \<Rightarrow> android_cert option"
  xo_description :: "bytes \<Rightarrow> key_description option"
  xo_signed :: "android_cert \<Rightarrow> android_cert \<Rightarrow> bool"

text \<open>A rejection carries its reason; any other error becomes \<open>attestation_invalid\<close>.\<close>

datatype attest_error = Rejected string | ServerFault

section \<open>The status list\<close>

datatype revocation_mode = RevocationOff | RevocationFailOpen | RevocationFailClosed

definition ParseRevocationMode :: "string \<Rightarrow> revocation_mode option" where
  "ParseRevocationMode s =
     (let m = to_lower (trim_space s) in
      if m = '''' then Some RevocationFailOpen
      else if m = ''off'' then Some RevocationOff
      else if m = ''fail-open'' then Some RevocationFailOpen
      else if m = ''fail-closed'' then Some RevocationFailClosed
      else None)"

record status_list =
  sl_revoked :: "(string \<rightharpoonup> string) option"
  sl_fetchedAt :: time
  sl_lastAttempt :: time

definition no_status_list :: status_list where
  "no_status_list = \<lparr>sl_revoked = None, sl_fetchedAt = 0, sl_lastAttempt = 0\<rparr>"

definition MaxAge :: duration where "MaxAge = ns_hour"
definition RetryAfter :: duration where "RetryAfter = ns_minute"
definition maxStatusListBytes :: nat where "maxStatusListBytes = 2 ^ 24"

text \<open>
  \<open>fetch\<close>, of the answer: a status, the length of the body (\<open>None\<close> if it could not be read) and its entries, serial, status and reason
  (\<open>None\<close> if it does not unmarshal, \<open>Some None\<close> if it has no entries object).
\<close>

type_synonym status_answer = "(int \<times> nat option \<times> (string \<times> string \<times> string) list option option) option"

definition trim_zeros :: "string \<Rightarrow> string" where
  "trim_zeros = dropWhile (\<lambda>c. c = CHR ''0'')"

definition status_fetch :: "status_answer \<Rightarrow> (string \<rightharpoonup> string) option" where
  "status_fetch answer =
     (case answer of
        Some (status, Some n, Some (Some listed)) \<Rightarrow>
          if status \<noteq> 200 \<or> n > maxStatusListBytes then None
          else Some (map_of (map (\<lambda>(serial, st, reason). (trim_zeros (to_lower (trim_space serial)), trim_space (st @ '' '' @ reason))) listed))
      | _ \<Rightarrow> None)"

definition status_current :: "time \<Rightarrow> status_answer \<Rightarrow> status_list \<Rightarrow> (string \<rightharpoonup> string) option \<times> status_list" where
  "status_current now answer s =
     (let fresh = sl_revoked s \<noteq> None \<and> sub_time now (sl_fetchedAt s) < MaxAge in
      if fresh \<or> sub_time now (sl_lastAttempt s) < RetryAfter then (sl_revoked s, s)
      else let s = s\<lparr>sl_lastAttempt := now\<rparr> in
        case status_fetch answer of
          None \<Rightarrow> (sl_revoked s, s)
        | Some m \<Rightarrow> (Some m, s\<lparr>sl_revoked := Some m, sl_fetchedAt := now\<rparr>))"

definition status_Check ::
  "revocation_mode \<Rightarrow> time \<Rightarrow> status_answer \<Rightarrow> android_cert list \<Rightarrow> (status_list, attest_error, unit) comp" where
  "status_Check mode now answer chain s =
     (case status_current now answer s of
        (None, s') \<Rightarrow> (if mode = RevocationFailClosed then Inl (Rejected ''attestation_revocation_unavailable'') else Inr (), s')
      | (Some revoked, s') \<Rightarrow>
          (if list_ex (\<lambda>c. revoked (to_lower (ac_Serial c)) \<noteq> None) chain then Inl (Rejected ''attestation_revoked'') else Inr (), s'))"

section \<open>An Android chain\<close>

record android_verifier =
  av_PackageName :: string
  av_Signers :: "bytes list"
  av_Roots :: "android_cert list"
  av_Revocation :: revocation_mode

text \<open>\<open>None\<close> where a digest is not 32 bytes of hex.\<close>

fun ParseSignerDigests_parts :: "string list \<Rightarrow> bytes list option" where
  "ParseSignerDigests_parts [] = Some []"
| "ParseSignerDigests_parts (part # parts) =
     (let h = filter (\<lambda>c. c \<noteq> CHR '':'' \<and> c \<noteq> CHR '' '') (trim_space part) in
      if h = '''' then ParseSignerDigests_parts parts
      else case hex_decode h of
        None \<Rightarrow> None
      | Some b \<Rightarrow> if length b \<noteq> 32 then None else map_option ((#) b) (ParseSignerDigests_parts parts))"

definition ParseSignerDigests :: "string \<Rightarrow> bytes list option" where
  "ParseSignerDigests s = ParseSignerDigests_parts (split_at (CHR '','') s)"

definition device_decodeB64 :: "string \<Rightarrow> bytes option" where
  "device_decodeB64 s =
     (let s = rev (dropWhile (\<lambda>c. c = CHR ''='') (rev s)) in
      if contains_any s ''-_'' then RawURL_decode s else RawStd_decode s)"

fun decode_parts :: "x509 \<Rightarrow> string list \<Rightarrow> android_cert list option" where
  "decode_parts x [] = Some []"
| "decode_parts x (part # parts) =
     (case device_decodeB64 (trim_space part) of
        None \<Rightarrow> None
      | Some der \<Rightarrow>
          (case xo_parse x der of
             None \<Rightarrow> None
           | Some c \<Rightarrow> map_option ((#) c) (decode_parts x parts)))"

definition DecodeCertificateChain :: "x509 \<Rightarrow> string \<Rightarrow> android_cert list option" where
  "DecodeCertificateChain x token = decode_parts x (split_at (CHR '','') token)"

definition hardware_level :: "security_level \<Rightarrow> bool" where
  "hardware_level l \<longleftrightarrow> l = LevelTEE \<or> l = LevelStrongBox"

fun level_text :: "security_level \<Rightarrow> string" where
  "level_text LevelSoftware = ''software''"
| "level_text LevelTEE = ''tee''"
| "level_text LevelStrongBox = ''strongbox''"
| "level_text (LevelUnknown n) = ''unknown('' @ int_string n @ '')''"

definition pinned :: "android_verifier \<Rightarrow> android_cert \<Rightarrow> bool" where
  "pinned v c \<longleftrightarrow> list_ex (\<lambda>r. ac_SPKI c = ac_SPKI r) (av_Roots v)"

definition in_validity :: "time \<Rightarrow> android_cert \<Rightarrow> bool" where
  "in_validity now c \<longleftrightarrow> \<not> (now < ac_NotBefore c \<or> now > ac_NotAfter c)"

text \<open>The loop over the chain; the dates of a pinned last certificate do not count.\<close>

fun links_ok :: "x509 \<Rightarrow> time \<Rightarrow> bool \<Rightarrow> android_cert list \<Rightarrow> bool" where
  "links_ok x now topPinned [] = True"
| "links_ok x now topPinned [c] = (topPinned \<or> in_validity now c)"
| "links_ok x now topPinned (c # parent # rest) =
     (in_validity now c \<and> ac_Issuer c = ac_Subject parent \<and> xo_signed x parent c \<and> links_ok x now topPinned (parent # rest))"

definition verifyChainSignatures :: "x509 \<Rightarrow> android_verifier \<Rightarrow> time \<Rightarrow> android_cert list \<Rightarrow> attest_error + unit" where
  "verifyChainSignatures x v now chain =
     (let top = last chain; topPinned = pinned v top in
      if \<not> links_ok x now topPinned chain then Inl (Rejected ''attestation_chain_invalid'')
      else if topPinned then Inr ()
      else if list_ex (\<lambda>r. ac_Issuer top = ac_Subject r \<and> xo_signed x r top) (av_Roots v) then Inr ()
      else Inl (Rejected ''attestation_untrusted_root''))"

text \<open>The extension must be in the leaf, once, and nowhere else.\<close>

definition leaf_extension :: "android_cert list \<Rightarrow> attest_error + bytes" where
  "leaf_extension chain =
     (let own = ac_KeyExtensions (hd chain) in
      if length own > 1 then Inl (Rejected ''attestation_malformed'')
      else if list_ex (\<lambda>c. ac_KeyExtensions c \<noteq> []) (tl chain) then Inl (Rejected ''attestation_chain_invalid'')
      else if own = [] then Inl (Rejected ''attestation_malformed'')
      else Inr (hd own))"

definition checkApp :: "android_verifier \<Rightarrow> application_id option \<Rightarrow> bool" where
  "checkApp v aid =
     (case aid of
        None \<Rightarrow> False
      | Some a \<Rightarrow>
          if av_PackageName v \<notin> set (ai_PackageNames a) then False
          else if av_Signers v = [] then True
          else if ai_SignatureDigests a = [] then False
          else list_all (\<lambda>d. d \<in> set (av_Signers v)) (ai_SignatureDigests a))"

definition rkpDeviceHint :: "crypto \<Rightarrow> android_cert list \<Rightarrow> string" where
  "rkpDeviceHint cr chain =
     (if length chain < 3 then ''''
      else let attestKey = chain ! 1 in
        if ''Google LLC'' \<notin> set (ac_IssuerOrganization attestKey) \<or> \<not> has_prefix (ac_IssuerCommonName attestKey) ''Droid CA'' then ''''
        else sha256_hex cr (ac_SPKI attestKey))"

text \<open>The checks of a description, in the order of the code; \<open>None\<close> where all pass.\<close>

definition description_error :: "android_verifier \<Rightarrow> bytes \<Rightarrow> key_description \<Rightarrow> string option" where
  "description_error v challenge kd =
     (if kd_Challenge kd \<noteq> challenge then Some ''attestation_challenge_mismatch''
      else if \<not> hardware_level (kd_AttestationSecurityLevel kd) \<or> \<not> hardware_level (kd_KeyMintSecurityLevel kd)
      then Some ''attestation_not_hardware''
      else case kd_RootOfTrust kd of
        None \<Rightarrow> Some ''attestation_not_hardware''
      | Some r \<Rightarrow>
          if rt_VerifiedBootState r \<noteq> BootVerified then Some ''attestation_boot_not_verified''
          else if \<not> rt_DeviceLocked r then Some ''attestation_device_unlocked''
          else if kd_Origin kd \<noteq> 0 then Some ''attestation_key_not_generated''
          else if \<not> checkApp v (kd_ApplicationID kd) then Some ''attestation_wrong_app''
          else None)"

definition VerifyChain ::
  "x509 \<Rightarrow> crypto \<Rightarrow> android_verifier \<Rightarrow> time \<Rightarrow> time \<Rightarrow> status_answer \<Rightarrow> android_cert list \<Rightarrow> bytes \<Rightarrow> (status_list, attest_error, device_evidence) comp" where
  "VerifyChain x cr v now listNow answer chain challenge =
     (if length chain < 2 \<or> length chain > 10 then throw (Rejected ''attestation_malformed'')
      else case verifyChainSignatures x v now chain of
        Inl e \<Rightarrow> throw e
      | Inr _ \<Rightarrow>
      case leaf_extension chain of
        Inl e \<Rightarrow> throw e
      | Inr ext \<Rightarrow>
      case xo_description x ext of
        None \<Rightarrow> throw (Rejected ''attestation_malformed'')
      | Some kd \<Rightarrow>
      case description_error v challenge kd of
        Some reason \<Rightarrow> throw (Rejected reason)
      | None \<Rightarrow>
          andThen (if av_Revocation v = RevocationOff then ret () else status_Check (av_Revocation v) listNow answer chain) (\<lambda>_.
            ret \<lparr>ev_SecurityLevel = level_text (kd_AttestationSecurityLevel kd), ev_DeviceHint = rkpDeviceHint cr chain\<rparr>))"

section \<open>The hint limiter\<close>

text \<open>Per hint, the sessions and when they were first seen; a map of the code, so the keys of the list are distinct.\<close>

type_synonym hint_table = "string \<rightharpoonup> (string \<times> time) list"

definition default_hint_window :: "duration \<Rightarrow> duration" where
  "default_hint_window window = (if window \<le> 0 then 30 * 24 * ns_hour else window)"

definition hint_Allow :: "int \<Rightarrow> duration \<Rightarrow> time \<Rightarrow> string \<Rightarrow> string \<Rightarrow> hint_table \<Rightarrow> bool \<times> hint_table" where
  "hint_Allow limit window now hint sid byHint =
     (let sessions = (case byHint hint of None \<Rightarrow> [] | Some l \<Rightarrow> l);
          live = filter (\<lambda>(i, t). \<not> sub_time now t > window) sessions in
      if sid \<in> fst ` set live then (True, byHint(hint \<mapsto> live))
      else if int (length live) \<ge> limit then (False, byHint(hint \<mapsto> live))
      else (True, byHint(hint \<mapsto> alist_put sid now live)))"

section \<open>The ceremony\<close>

text \<open>A verifier is a router with an entry per platform, or the HMAC stand-in for every platform.\<close>

datatype device_verifier = AndroidKey android_verifier | HmacDev string

datatype device_router = Single device_verifier | Router "string \<rightharpoonup> device_verifier"

record device_config =
  dg_Verifier :: device_router
  dg_HintLimit :: "(int \<times> duration) option"

record device_state =
  dt_challenges :: "string \<rightharpoonup> string"
  dt_list :: status_list
  dt_hints :: hint_table

text \<open>
  The environment of a request: the clocks that the chain check, the status list, the hint limiter and the result read, the answer of the
  status list's server, and the random bytes of a nonce.
\<close>

record device_env =
  dn_chain :: time
  dn_list :: time
  dn_hint :: time
  dn_done :: time
  dn_answer :: status_answer
  dn_bytes :: "bytes option"

datatype device_error = DvNoSession | DvNonce | DvStore

definition device_MethodID :: string where "device_MethodID = ''app-attest-device''"

definition device_Metadata :: method_metadata where
  "device_Metadata =
     \<lparr>md_ID = device_MethodID, md_Type = MethodTypeSupplementary, md_Strength = 18, md_CostUSD = 0,
      md_UXFriction = ''low'', md_PlatformRequirements = [], md_FreshnessLifetime = 30 * 24 * ns_hour, md_Version = ''0.2.0''\<rparr>"

definition device_IsAvailableForUser :: "string \<Rightarrow> bool" where
  "device_IsAvailableForUser platform \<longleftrightarrow> to_lower (trim_space platform) \<notin> {''web'', ''kiosk''}"

definition defaultNonce :: "bytes option \<Rightarrow> string option" where
  "defaultNonce b = map_option hex_encode b"

definition device_PutChallenge :: "string \<Rightarrow> string \<Rightarrow> (device_state, unit, unit) comp" where
  "device_PutChallenge sid nonce s =
     (if sid = '''' \<or> nonce = '''' then (Inl (), s) else (Inr (), s\<lparr>dt_challenges := (dt_challenges s)(sid \<mapsto> nonce)\<rparr>))"

definition device_BeginCeremony :: "device_env \<Rightarrow> ceremony_context \<Rightarrow> (device_state, device_error, challenge_data) comp" where
  "device_BeginCeremony env cc =
     (if cc_SessionID cc = '''' then throw DvNoSession
      else case defaultNonce (dn_bytes env) of
        None \<Rightarrow> throw DvNonce
      | Some nonce \<Rightarrow>
          andThen (onError (\<lambda>_. DvStore) (device_PutChallenge (cc_SessionID cc) nonce)) (\<lambda>_.
            ret \<lparr>ch_Type = ''app-attest-challenge'',
              ch_Payload = [(''nonce'', JString nonce), (''nonce_encoding'', JString ''hex''),
                (''complete_endpoint'', JString (''/v1/methods/'' @ device_MethodID @ ''/complete''))]\<rparr>))"

text \<open>\<open>stringField\<close>, of which only the text is used, and \<open>chainField\<close>.\<close>

definition device_field :: "json_object \<Rightarrow> string \<Rightarrow> string" where
  "device_field m key = (case map_of m key of Some (JString s) \<Rightarrow> trim_space s | _ \<Rightarrow> '''')"

fun chain_parts :: "json_value list \<Rightarrow> string list option" where
  "chain_parts [] = Some []"
| "chain_parts (JString s # vs) = (if trim_space s = '''' then None else map_option ((#) (trim_space s)) (chain_parts vs))"
| "chain_parts (_ # vs) = None"

definition chainField :: "json_object \<Rightarrow> string \<Rightarrow> string" where
  "chainField m key =
     (case map_of m key of
        Some (JList arr) \<Rightarrow>
          if arr = [] then '''' else (case chain_parts arr of None \<Rightarrow> '''' | Some parts \<Rightarrow> join '','' parts)
      | _ \<Rightarrow> '''')"

definition device_token :: "json_object \<Rightarrow> string" where
  "device_token m = (let token = device_field m ''token'' in if token = '''' then chainField m ''certificate_chain'' else token)"

definition hmacDeviceToken :: "crypto \<Rightarrow> string \<Rightarrow> string \<Rightarrow> string \<Rightarrow> string \<Rightarrow> string" where
  "hmacDeviceToken cr secret platform nonce keyID =
     hex_encode (c_hmac cr secret (platform @ ''.'' @ nonce @ ''.'' @ keyID))"

definition android_Verify ::
  "x509 \<Rightarrow> crypto \<Rightarrow> android_verifier \<Rightarrow> device_env \<Rightarrow> string \<Rightarrow> string \<Rightarrow> (status_list, attest_error, device_evidence) comp" where
  "android_Verify x cr v env nonce token =
     (case hex_decode nonce of
        None \<Rightarrow> throw ServerFault
      | Some challenge \<Rightarrow>
          if challenge = [] then throw ServerFault
          else case DecodeCertificateChain x token of
            None \<Rightarrow> throw (Rejected ''attestation_malformed'')
          | Some chain \<Rightarrow>
              VerifyChain x cr v (dn_chain env) (dn_list env) (dn_answer env) chain challenge)"

definition hmac_Verify :: "crypto \<Rightarrow> string \<Rightarrow> string \<Rightarrow> string \<Rightarrow> string \<Rightarrow> string \<Rightarrow> (status_list, attest_error, device_evidence) comp" where
  "hmac_Verify cr secret platform nonce token keyID =
     (if hmacDeviceToken cr secret platform nonce keyID \<noteq> token then throw ServerFault
      else ret \<lparr>ev_SecurityLevel = '''', ev_DeviceHint = ''''\<rparr>)"

definition device_Verify ::
  "x509 \<Rightarrow> crypto \<Rightarrow> device_router \<Rightarrow> device_env \<Rightarrow> string \<Rightarrow> string \<Rightarrow> string \<Rightarrow> string \<Rightarrow> (status_list, attest_error, device_evidence) comp" where
  "device_Verify x cr router env platform nonce token keyID =
     (case (case router of Single v \<Rightarrow> Some v | Router r \<Rightarrow> r platform) of
        None \<Rightarrow> throw (Rejected ''platform_unsupported'')
      | Some (AndroidKey v) \<Rightarrow> android_Verify x cr v env nonce token
      | Some (HmacDev secret) \<Rightarrow> hmac_Verify cr secret platform nonce token keyID)"

definition device_digest :: "crypto \<Rightarrow> string \<Rightarrow> string \<Rightarrow> string \<Rightarrow> string \<Rightarrow> string" where
  "device_digest cr sid platform keyID nonce =
     sha256_hex cr (sid @ [byte 0] @ platform @ [byte 0] @ keyID @ [byte 0] @ nonce)"

definition device_CompleteCeremony ::
  "x509 \<Rightarrow> crypto \<Rightarrow> device_config \<Rightarrow> device_env \<Rightarrow> ceremony_context \<Rightarrow> response_data \<Rightarrow> device_state \<Rightarrow> method_result \<times> device_state" where
  "device_CompleteCeremony x cr cfg env cc resp s =
     (let platform = device_field (rd_Payload resp) ''platform'';
          token = device_token (rd_Payload resp);
          keyID = device_field (rd_Payload resp) ''key_id'' in
      if cc_SessionID cc = '''' then (failed_result device_MethodID ''missing_session_id'', s)
      else case dt_challenges s (cc_SessionID cc) of
        None \<Rightarrow> (failed_result device_MethodID ''no_challenge_issued'', s)
      | Some nonce \<Rightarrow>
          if token = '''' then (failed_result device_MethodID ''missing_attestation_token'', s)
          else case device_Verify x cr (dg_Verifier cfg) env platform nonce token keyID (dt_list s) of
            (Inl e, l) \<Rightarrow>
              (failed_result device_MethodID (case e of Rejected reason \<Rightarrow> reason | ServerFault \<Rightarrow> ''attestation_invalid''), s\<lparr>dt_list := l\<rparr>)
          | (Inr ev, l) \<Rightarrow>
              (let s = s\<lparr>dt_list := l\<rparr>;
                   passed = passed_result device_MethodID (dn_done env) (device_digest cr (cc_SessionID cc) platform keyID nonce) in
               case dg_HintLimit cfg of
                 None \<Rightarrow> (passed, s)
               | Some (limit, window) \<Rightarrow>
                   if ev_DeviceHint ev = '''' then (passed, s)
                   else case hint_Allow limit window (dn_hint env) (ev_DeviceHint ev) (cc_SessionID cc) (dt_hints s) of
                     (ok, h) \<Rightarrow>
                       (if ok then passed else failed_result device_MethodID ''device_enrollment_limit'', s\<lparr>dt_hints := h\<rparr>)))"

section \<open>The wiring\<close>

text \<open>The variables of the environment are a function; an unset one is empty. \<open>Inl\<close> is an error at start-up, \<open>Inr None\<close> no method.\<close>

definition androidKeyVerifierFromEnv :: "(string \<Rightarrow> string) \<Rightarrow> android_cert list \<Rightarrow> unit + android_verifier option" where
  "androidKeyVerifierFromEnv getenv roots =
     (let pkg = trim_space (getenv ''ANDROID_KEY_ATTESTATION_PACKAGE'') in
      if pkg = '''' then Inr None
      else case ParseSignerDigests (getenv ''ANDROID_KEY_ATTESTATION_SIGNER_SHA256'') of
        None \<Rightarrow> Inl ()
      | Some signers \<Rightarrow>
          (case ParseRevocationMode (getenv ''ANDROID_KEY_ATTESTATION_REVOCATION'') of
             None \<Rightarrow> Inl ()
           | Some mode \<Rightarrow> Inr (Some \<lparr>av_PackageName = pkg, av_Signers = signers, av_Roots = roots, av_Revocation = mode\<rparr>)))"

definition appAttestFromEnv :: "(string \<Rightarrow> string) \<Rightarrow> android_cert list \<Rightarrow> unit + device_config option" where
  "appAttestFromEnv getenv roots =
     (let pkg = trim_space (getenv ''ANDROID_KEY_ATTESTATION_PACKAGE''); secret = getenv ''APP_ATTEST_SECRET'' in
      if pkg = '''' \<and> secret = '''' then Inr None
      else if pkg = '''' then Inr (Some \<lparr>dg_Verifier = Single (HmacDev secret), dg_HintLimit = None\<rparr>)
      else case androidKeyVerifierFromEnv getenv roots of
        Inl e \<Rightarrow> Inl e
      | Inr None \<Rightarrow> Inr None
      | Inr (Some akv) \<Rightarrow>
          (let router = Router (if secret \<noteq> '''' then [''android'' \<mapsto> AndroidKey akv, ''ios'' \<mapsto> HmacDev secret] else [''android'' \<mapsto> AndroidKey akv]);
               v = trim_space (getenv ''ANDROID_KEY_ATTESTATION_MAX_PER_DEVICE'') in
           if v = '''' then Inr (Some \<lparr>dg_Verifier = router, dg_HintLimit = None\<rparr>)
           else case ParseInt v of
             None \<Rightarrow> Inl ()
           | Some n \<Rightarrow>
               if n < 0 then Inl ()
               else Inr (Some \<lparr>dg_Verifier = router, dg_HintLimit = (if n > 0 then Some (n, default_hint_window 0) else None)\<rparr>)))"

end
