(* ===== verification/Device_Safety.thy ===== *)
theory Device_Safety
  imports Device_Attestation
begin

text \<open>
  What the device method establishes: the hint limiter counts at most its limit of sessions per phone in any window, and a session
  passes only with a locked, verified phone that attested a key for the nonce of this very session.
\<close>

section \<open>Sessions per phone\<close>

text \<open>
  A run of the limiter collects what it let pass: the hint, the session, the time of the call and the time the session was first seen,
  as the table has it after the call.
\<close>

type_synonym hint_passes = "(string \<times> string \<times> time \<times> time) set"

definition hint_step :: "int \<Rightarrow> duration \<Rightarrow> time \<times> string \<times> string \<Rightarrow> hint_table \<times> hint_passes \<Rightarrow> hint_table \<times> hint_passes" where
  "hint_step limit window = (\<lambda>(now, hint, sid) (tbl, P).
     case hint_Allow limit window now hint sid tbl of
       (ok, tbl') \<Rightarrow> (tbl', if ok then insert (hint, sid, now, the (map_of (the (tbl' hint)) sid)) P else P))"

definition hint_run :: "int \<Rightarrow> duration \<Rightarrow> (time \<times> string \<times> string) list \<Rightarrow> hint_table \<times> hint_passes" where
  "hint_run limit window calls = fold (hint_step limit window) calls (Map.empty, {})"

text \<open>The sessions first seen in the window that ends at \<open>T\<close>.\<close>

definition first_seen :: "hint_passes \<Rightarrow> string \<Rightarrow> duration \<Rightarrow> time \<Rightarrow> string set" where
  "first_seen P hint window T = {sid. \<exists>t. (hint, sid, t, t) \<in> P \<and> T - window \<le> t \<and> t \<le> T}"

definition row :: "hint_table \<Rightarrow> string \<Rightarrow> (string \<times> time) list" where
  "row tbl hint = (case tbl hint of None \<Rightarrow> [] | Some l \<Rightarrow> l)"

lemma row_upd: "row (tbl(hint \<mapsto> l)) j = (if j = hint then l else row tbl j)"
  by (simp add: row_def)

definition live_row :: "hint_table \<Rightarrow> string \<Rightarrow> duration \<Rightarrow> time \<Rightarrow> (string \<times> time) list" where
  "live_row tbl hint window now = filter (\<lambda>(i, t). now - t \<le> window) (row tbl hint)"

lemma hint_Allow_row:
  assumes "min_int64 \<le> window" "window < max_int64"
  shows "hint_Allow limit window now hint sid tbl =
    (let live = live_row tbl hint window now in
     if sid \<in> fst ` set live then (True, tbl(hint \<mapsto> live))
     else if int (length live) \<ge> limit then (False, tbl(hint \<mapsto> live))
     else (True, tbl(hint \<mapsto> live @ [(sid, now)])))"
  using sub_time_gt [OF assms(2,1)]
  by (simp add: hint_Allow_def live_row_def row_def Let_def alist_put_def not_less)

lemma map_of_live: "distinct (map fst l) \<Longrightarrow> map_of (filter (\<lambda>(i, t). Q t) l) sid = (case map_of l sid of None \<Rightarrow> None | Some t \<Rightarrow> if Q t then Some t else None)"
proof (induction l)
  case (Cons p l)
  obtain i t where p: "p = (i, t)" by fastforce
  have "map_of l i = None" using Cons.prems by (simp add: p map_of_eq_None_iff)
  then show ?case using Cons p by (auto split: option.split)
qed simp

definition hint_inv :: "int \<Rightarrow> duration \<Rightarrow> time \<Rightarrow> hint_table \<times> hint_passes \<Rightarrow> bool" where
  "hint_inv limit window now = (\<lambda>(tbl, P).
     (\<forall>h. distinct (map fst (row tbl h)) \<and> int (length (row tbl h)) \<le> limit) \<and>
     (\<forall>h sid t. map_of (row tbl h) sid = Some t \<longrightarrow> t \<le> now \<and> (h, sid, t, t) \<in> P) \<and>
     (\<forall>h sid t u. (h, sid, t, u) \<in> P \<longrightarrow> u \<le> t \<and> t \<le> now \<and> t - u \<le> window \<and> (h, sid, u, u) \<in> P) \<and>
     (\<forall>h sid t. (h, sid, t, t) \<in> P \<and> now - t \<le> window \<longrightarrow> map_of (row tbl h) sid = Some t))"

lemma hint_inv_later: "hint_inv limit window now tp \<Longrightarrow> now \<le> now' \<Longrightarrow> hint_inv limit window now' tp"
  by (cases tp) (fastforce simp: hint_inv_def)

text \<open>The three ways a call can go, as what it does to the row of its hint.\<close>

lemma hint_step_cases:
  assumes "min_int64 \<le> window" "window < max_int64" "hint_inv limit window now (tbl, P)"
  obtains t where "hint_step limit window (now, hint, sid) (tbl, P) = (tbl(hint \<mapsto> live_row tbl hint window now), insert (hint, sid, now, t) P)"
      "map_of (row tbl hint) sid = Some t" "now - t \<le> window"
  | "hint_step limit window (now, hint, sid) (tbl, P) = (tbl(hint \<mapsto> live_row tbl hint window now), P)"
  | "hint_step limit window (now, hint, sid) (tbl, P) =
        (tbl(hint \<mapsto> live_row tbl hint window now @ [(sid, now)]), insert (hint, sid, now, now) P)"
      "sid \<notin> fst ` set (live_row tbl hint window now)" "int (length (live_row tbl hint window now)) < limit"
proof -
  let ?live = "live_row tbl hint window now"
  have d: "distinct (map fst (row tbl hint))" using assms(3) by (simp add: hint_inv_def)
  show thesis
  proof (cases "sid \<in> fst ` set ?live")
    case True
    then obtain t where t: "map_of ?live sid = Some t" by (metis map_of_eq_None_iff not_None_eq)
    moreover have "map_of (row tbl hint) sid = Some t" "now - t \<le> window"
      using t unfolding live_row_def map_of_live [OF d] by (auto split: option.splits if_splits)
    ultimately show thesis
      using that(1) True by (simp add: hint_step_def hint_Allow_row [OF assms(1,2)])
  next
    case False
    have m: "map_of (?live @ [(sid, now)]) sid = Some now" using map_of_append_single [OF False] by simp
    show thesis
    proof (cases "int (length ?live) \<ge> limit")
      case True
      then show thesis using that(2) False by (simp add: hint_step_def hint_Allow_row [OF assms(1,2)])
    next
      case less: False
      then show thesis using that(3) False m by (simp add: hint_step_def hint_Allow_row [OF assms(1,2)] del: map_of_append)
    qed
  qed
qed

lemma live_distinct: "distinct (map fst l) \<Longrightarrow> distinct (map fst (filter Q l))"
  by (induction l) auto

lemma hint_inv_row:
  assumes i: "hint_inv limit window now (tbl, P)" and Q: "P \<subseteq> Q"
    and l: "distinct (map fst l)" "int (length l) \<le> limit"
    and entries: "\<And>sid t. map_of l sid = Some t \<Longrightarrow> t \<le> now \<and> (hint, sid, t, t) \<in> Q"
    and passes: "\<And>h sid t u. (h, sid, t, u) \<in> Q \<Longrightarrow> (h, sid, t, u) \<notin> P \<Longrightarrow> u \<le> t \<and> t \<le> now \<and> t - u \<le> window \<and> (h, sid, u, u) \<in> Q"
    and kept: "\<And>sid t. (hint, sid, t, t) \<in> Q \<Longrightarrow> now - t \<le> window \<Longrightarrow> map_of l sid = Some t"
    and only: "\<And>h sid t u. (h, sid, t, u) \<in> Q \<Longrightarrow> h \<noteq> hint \<Longrightarrow> (h, sid, t, u) \<in> P"
  shows "hint_inv limit window now (tbl(hint \<mapsto> l), Q)"
  unfolding hint_inv_def prod.case row_upd
proof (intro conjI allI impI)
  fix h sid t u
  show "distinct (map fst (if h = hint then l else row tbl h))" "int (length (if h = hint then l else row tbl h)) \<le> limit"
    using i l by (auto simp: hint_inv_def)
  assume q: "(h, sid, t, u) \<in> Q"
  have "u \<le> t \<and> t \<le> now \<and> t - u \<le> window \<and> (h, sid, u, u) \<in> P" if "(h, sid, t, u) \<in> P"
    using i that unfolding hint_inv_def prod.case by blast
  then have "u \<le> t \<and> t \<le> now \<and> t - u \<le> window \<and> (h, sid, u, u) \<in> Q" using passes [OF q] Q by blast
  then show "u \<le> t" "t \<le> now" "t - u \<le> window" "(h, sid, u, u) \<in> Q" by simp_all
next
  fix h sid t assume "map_of (if h = hint then l else row tbl h) sid = Some t"
  then show "t \<le> now" "(h, sid, t, t) \<in> Q" using entries [of sid t] i Q by (auto simp: hint_inv_def split: if_splits)
next
  fix h sid t assume "(h, sid, t, t) \<in> Q \<and> now - t \<le> window"
  then show "map_of (if h = hint then l else row tbl h) sid = Some t"
    using kept [of sid t] only [of h sid t t] i by (auto simp: hint_inv_def)
qed

lemma live_facts:
  assumes "hint_inv limit window now (tbl, P)"
  shows "distinct (map fst (live_row tbl hint window now))" "int (length (live_row tbl hint window now)) \<le> limit"
    "map_of (live_row tbl hint window now) sid = Some t \<Longrightarrow> t \<le> now \<and> (hint, sid, t, t) \<in> P"
    "(hint, sid, t, t) \<in> P \<Longrightarrow> now - t \<le> window \<Longrightarrow> map_of (live_row tbl hint window now) sid = Some t"
proof -
  have d: "distinct (map fst (row tbl hint))" "int (length (row tbl hint)) \<le> limit" using assms by (simp_all add: hint_inv_def)
  show "distinct (map fst (live_row tbl hint window now))" unfolding live_row_def by (rule live_distinct [OF d(1)])
  show "int (length (live_row tbl hint window now)) \<le> limit"
    using d(2) length_filter_le [of _ "row tbl hint"] unfolding live_row_def by (meson of_nat_mono order_trans)
  show "t \<le> now \<and> (hint, sid, t, t) \<in> P" if "map_of (live_row tbl hint window now) sid = Some t"
    using that assms unfolding live_row_def map_of_live [OF d(1)] by (auto simp: hint_inv_def split: option.splits if_splits)
  show "map_of (live_row tbl hint window now) sid = Some t" if "(hint, sid, t, t) \<in> P" "now - t \<le> window"
    using that assms unfolding live_row_def map_of_live [OF d(1)] by (simp add: hint_inv_def)
qed

lemma hint_step_inv:
  assumes "min_int64 \<le> window" "window < max_int64" "0 \<le> window" "hint_inv limit window now (tbl, P)"
  shows "hint_inv limit window now (hint_step limit window (now, hint, sid) (tbl, P))"
proof (rule hint_step_cases [OF assms(1,2,4), of hint sid])
  note live = live_facts [OF assms(4), of hint]
  fix t assume t: "hint_step limit window (now, hint, sid) (tbl, P) = (tbl(hint \<mapsto> live_row tbl hint window now), insert (hint, sid, now, t) P)"
      "map_of (row tbl hint) sid = Some t" "now - t \<le> window"
  have p: "(hint, sid, t, t) \<in> P" "t \<le> now" using t(2) assms(4) by (auto simp: hint_inv_def)
  show ?thesis unfolding t(1)
    by (rule hint_inv_row [OF assms(4) subset_insertI live(1,2)]) (use live(3) in blast, use p t(3) in blast, use live(4) p in blast, blast)
next
  note live = live_facts [OF assms(4), of hint]
  assume t: "hint_step limit window (now, hint, sid) (tbl, P) = (tbl(hint \<mapsto> live_row tbl hint window now), P)"
  show ?thesis unfolding t
    by (rule hint_inv_row [OF assms(4) order.refl live(1,2)]) (use live(3) in blast, blast, use live(4) in blast, blast)
next
  note live = live_facts [OF assms(4), of hint]
  assume t: "hint_step limit window (now, hint, sid) (tbl, P) =
        (tbl(hint \<mapsto> live_row tbl hint window now @ [(sid, now)]), insert (hint, sid, now, now) P)"
      "sid \<notin> fst ` set (live_row tbl hint window now)" "int (length (live_row tbl hint window now)) < limit"
  have m: "map_of (live_row tbl hint window now @ [(sid, now)]) = (map_of (live_row tbl hint window now))(sid \<mapsto> now)"
    by (rule map_of_append_single [OF t(2)])
  have n: "map_of (live_row tbl hint window now) sid = None" using t(2) by (simp add: map_of_eq_None_iff)
  show ?thesis unfolding t(1)
  proof (rule hint_inv_row [OF assms(4) subset_insertI], unfold m)
    show "distinct (map fst (live_row tbl hint window now @ [(sid, now)]))" using live(1) t(2) by auto
    show "int (length (live_row tbl hint window now @ [(sid, now)])) \<le> limit" using t(3) by simp
  next
    fix i u assume "((map_of (live_row tbl hint window now))(sid \<mapsto> now)) i = Some u"
    then show "u \<le> now \<and> (hint, i, u, u) \<in> insert (hint, sid, now, now) P" using live(3) [of i u] by (auto split: if_splits)
  next
    fix i u assume q: "(hint, i, u, u) \<in> insert (hint, sid, now, now) P" "now - u \<le> window"
    show "((map_of (live_row tbl hint window now))(sid \<mapsto> now)) i = Some u"
    proof (cases "(hint, i, u, u) \<in> P")
      case True
      then have "map_of (live_row tbl hint window now) i = Some u" using live(4) q(2) by blast
      then show ?thesis using n by (cases "i = sid") simp_all
    qed (use q(1) in simp)
  qed (use assms(3) in auto)
qed

definition hint_bounded :: "int \<Rightarrow> duration \<Rightarrow> hint_passes \<Rightarrow> bool" where
  "hint_bounded limit window P \<longleftrightarrow> (\<forall>h T. finite (first_seen P h window T) \<and> int (card (first_seen P h window T)) \<le> limit)"

lemma hint_step_passes: "\<exists>t. snd (hint_step limit window (now, hint, sid) (tbl, P)) \<subseteq> insert (hint, sid, now, t) P"
  by (auto simp: hint_step_def split: prod.split)

text \<open>A window that ends before the call is unaffected; one that ends later sees only sessions of the row.\<close>

lemma hint_step_bounded:
  assumes "hint_inv limit window now (hint_step limit window (now, hint, sid) (tbl, P))" "hint_bounded limit window P"
  shows "hint_bounded limit window (snd (hint_step limit window (now, hint, sid) (tbl, P)))"
  unfolding hint_bounded_def
proof (intro allI)
  fix h T
  obtain tbl' Q where step: "hint_step limit window (now, hint, sid) (tbl, P) = (tbl', Q)" by fastforce
  obtain t where Q: "Q \<subseteq> insert (hint, sid, now, t) P" using hint_step_passes [of limit window now hint sid tbl P] step by auto
  have "finite (first_seen Q h window T) \<and> int (card (first_seen Q h window T)) \<le> limit"
  proof (cases "T < now")
    case True
    then have "first_seen Q h window T \<subseteq> first_seen P h window T" using Q unfolding first_seen_def by auto
    moreover have "finite (first_seen P h window T)" "int (card (first_seen P h window T)) \<le> limit"
      using assms(2) by (simp_all add: hint_bounded_def)
    ultimately show ?thesis by (meson card_mono finite_subset of_nat_mono order_trans)
  next
    case False
    have sub: "first_seen Q h window T \<subseteq> set (map fst (row tbl' h))"
    proof
      fix i assume "i \<in> first_seen Q h window T"
      then obtain u where "(h, i, u, u) \<in> Q" "now - u \<le> window" using False by (auto simp: first_seen_def)
      then have "map_of (row tbl' h) i = Some u" using assms(1) unfolding step hint_inv_def prod.case by blast
      then show "i \<in> set (map fst (row tbl' h))" by (metis domI dom_map_of_conv_image_fst set_map)
    qed
    have "int (length (row tbl' h)) \<le> limit" using assms(1) unfolding step hint_inv_def by simp
    then show ?thesis
      using card_mono [OF _ sub] finite_subset [OF sub] card_length [of "map fst (row tbl' h)"] by simp
  qed
  then show "finite (first_seen (snd (hint_step limit window (now, hint, sid) (tbl, P))) h window T) \<and>
      int (card (first_seen (snd (hint_step limit window (now, hint, sid) (tbl, P))) h window T)) \<le> limit"
    by (simp add: step)
qed

lemma hint_run_inv:
  assumes "0 \<le> limit" "0 \<le> window" "window < max_int64" "sorted (map fst calls)" "\<forall>c \<in> set calls. fst c \<le> now"
  shows "hint_inv limit window now (hint_run limit window calls) \<and> hint_bounded limit window (snd (hint_run limit window calls))"
  using assms(4,5)
proof (induction calls arbitrary: now rule: rev_induct)
  case Nil
  then show ?case using assms(1) by (simp add: hint_run_def hint_inv_def hint_bounded_def first_seen_def row_def)
next
  case (snoc c calls)
  obtain t hint sid where c: "c = (t, hint, sid)" by (cases c)
  obtain tbl P where r: "hint_run limit window calls = (tbl, P)" by fastforce
  have step: "hint_run limit window (calls @ [c]) = hint_step limit window (t, hint, sid) (tbl, P)"
    using r by (simp add: hint_run_def c)
  have w: "min_int64 \<le> window" using assms(2) by (simp add: min_int64_def)
  have "hint_inv limit window t (tbl, P)" "hint_bounded limit window P"
    using snoc.IH [of t] snoc.prems r by (auto simp: c sorted_append)
  from hint_step_inv [OF w assms(3,2) this(1)] hint_step_bounded [OF _ this(2)]
  show ?case unfolding step using hint_inv_later [of limit window t] snoc.prems(2) by (simp add: c)
qed

text \<open>C21: One phone enrolls at most \<open>limit\<close> people in a window. As long as the clock does not run backwards, the sessions first seen with a
  hint within any stretch of the window's length are at most \<open>limit\<close>, and whatever session passes was first seen, and counted, at most a window before.
\<close>

theorem device_sessions_bounded:
  assumes "1 \<le> limit" "0 \<le> window" "window < max_int64" "sorted (map fst calls)"
  shows "int (card (first_seen (snd (hint_run limit window calls)) hint window T)) \<le> limit \<and>
    ((hint, sid, now, t) \<in> snd (hint_run limit window calls) \<longrightarrow>
       t \<le> now \<and> now - t \<le> window \<and> sid \<in> first_seen (snd (hint_run limit window calls)) hint window t)"
proof -
  obtain end_time where e: "\<forall>c \<in> set calls. fst c \<le> end_time"
    using finite_set [of "map fst calls"] by (metis Max_ge finite_set image_eqI set_map)
  have r: "hint_inv limit window end_time (hint_run limit window calls)" "hint_bounded limit window (snd (hint_run limit window calls))"
    using hint_run_inv [OF _ assms(2-4) e] assms(1) by simp_all
  have "t \<le> now \<and> now - t \<le> window \<and> (hint, sid, t, t) \<in> snd (hint_run limit window calls)"
    if "(hint, sid, now, t) \<in> snd (hint_run limit window calls)"
    using r(1) that unfolding hint_inv_def case_prod_beta by blast
  then show ?thesis using r(2) assms(2) unfolding hint_bounded_def by (auto simp: first_seen_def)
qed

theorem device_sessions_bounded_witness:
  "int (card (first_seen (snd (hint_run 1 (30 * 24 * ns_hour) [(0, ''h'', ''a''), (0, ''h'', ''b'')])) ''h'' (30 * 24 * ns_hour) 0)) \<le> 1 \<and>
   (''h'', ''a'', 0, 0) \<in> snd (hint_run 1 (30 * 24 * ns_hour) [(0, ''h'', ''a''), (0, ''h'', ''b'')]) \<and>
   ''a'' \<in> first_seen (snd (hint_run 1 (30 * 24 * ns_hour) [(0, ''h'', ''a''), (0, ''h'', ''b'')])) ''h'' (30 * 24 * ns_hour) 0"
proof -
  let ?w = "30 * 24 * ns_hour" and ?calls = "[(0, ''h'', ''a''), (0, ''h'', ''b'')]"
  have w: "0 \<le> ?w" "?w < max_int64" "sorted (map fst ?calls)" by (simp_all add: ns_hour_def max_int64_def)
  have p: "(''h'', ''a'', 0, 0) \<in> snd (hint_run 1 ?w ?calls)"
    by (simp add: hint_run_def hint_step_def hint_Allow_def Let_def alist_put_def sub_time_def ns_hour_def min_int64_def max_int64_def)
  show ?thesis using device_sessions_bounded [OF _ w, of 1 "''h''" 0 "''a''" 0 0] p by simp
qed

section \<open>A session passes with its own phone\<close>

text \<open>
  \<open>genuine x v now chain challenge\<close>: every certificate is valid and signed by the next, the last is one of the pinned keys or signed by one,
  and the leaf alone carries a description: of a key generated in the secure hardware of a locked phone that booted its maker's image, for
  this challenge and the accepted app.
\<close>

definition trusted_chain :: "x509 \<Rightarrow> android_verifier \<Rightarrow> time \<Rightarrow> android_cert list \<Rightarrow> bool" where
  "trusted_chain x v now chain \<longleftrightarrow> 2 \<le> length chain \<and> length chain \<le> 10 \<and>
     (\<forall>i. Suc i < length chain \<longrightarrow> in_validity now (chain ! i) \<and> ac_Issuer (chain ! i) = ac_Subject (chain ! Suc i) \<and>
        xo_signed x (chain ! Suc i) (chain ! i)) \<and>
     (\<exists>r \<in> set (av_Roots v). ac_SPKI (last chain) = ac_SPKI r \<or>
        (in_validity now (last chain) \<and> ac_Issuer (last chain) = ac_Subject r \<and> xo_signed x r (last chain)))"

definition good_key :: "android_verifier \<Rightarrow> bytes \<Rightarrow> key_description \<Rightarrow> bool" where
  "good_key v challenge kd \<longleftrightarrow> kd_Challenge kd = challenge \<and>
     hardware_level (kd_AttestationSecurityLevel kd) \<and> hardware_level (kd_KeyMintSecurityLevel kd) \<and>
     (\<exists>r. kd_RootOfTrust kd = Some r \<and> rt_VerifiedBootState r = BootVerified \<and> rt_DeviceLocked r) \<and> kd_Origin kd = 0 \<and>
     (\<exists>a. kd_ApplicationID kd = Some a \<and> av_PackageName v \<in> set (ai_PackageNames a) \<and>
        (av_Signers v \<noteq> [] \<longrightarrow> ai_SignatureDigests a \<noteq> [] \<and> set (ai_SignatureDigests a) \<subseteq> set (av_Signers v)))"

definition genuine :: "x509 \<Rightarrow> android_verifier \<Rightarrow> time \<Rightarrow> android_cert list \<Rightarrow> bytes \<Rightarrow> bool" where
  "genuine x v now chain challenge \<longleftrightarrow> trusted_chain x v now chain \<and>
     (\<exists>ext kd. ac_KeyExtensions (hd chain) = [ext] \<and> (\<forall>c \<in> set (tl chain). ac_KeyExtensions c = []) \<and>
        xo_description x ext = Some kd \<and> good_key v challenge kd)"

text \<open>No serial of the chain is on the list in force; without any list, only fail-open accepts.\<close>

definition unrevoked :: "revocation_mode \<Rightarrow> status_list \<Rightarrow> android_cert list \<Rightarrow> bool" where
  "unrevoked mode l chain \<longleftrightarrow> mode = RevocationOff \<or>
     (case sl_revoked l of None \<Rightarrow> mode \<noteq> RevocationFailClosed | Some m \<Rightarrow> \<forall>c \<in> set chain. m (to_lower (ac_Serial c)) = None)"

lemma links_nth:
  "links_ok x now topPinned chain \<Longrightarrow> Suc i < length chain \<Longrightarrow>
     in_validity now (chain ! i) \<and> ac_Issuer (chain ! i) = ac_Subject (chain ! Suc i) \<and> xo_signed x (chain ! Suc i) (chain ! i)"
proof (induction x now topPinned chain arbitrary: i rule: links_ok.induct)
  case (3 x now topPinned c parent rest)
  then show ?case by (cases i) auto
qed simp_all

lemma links_last: "links_ok x now False chain \<Longrightarrow> chain \<noteq> [] \<Longrightarrow> in_validity now (last chain)"
  by (induction x now False chain rule: links_ok.induct) auto

lemma verified_chain_trusted:
  assumes "verifyChainSignatures x v now chain = Inr ()" "2 \<le> length chain" "length chain \<le> 10"
  shows "trusted_chain x v now chain"
proof -
  have l: "links_ok x now (pinned v (last chain)) chain" using assms(1) by (simp add: verifyChainSignatures_def Let_def split: if_splits)
  have "\<exists>r \<in> set (av_Roots v). ac_SPKI (last chain) = ac_SPKI r \<or>
      (in_validity now (last chain) \<and> ac_Issuer (last chain) = ac_Subject r \<and> xo_signed x r (last chain))"
  proof (cases "pinned v (last chain)")
    case True
    then show ?thesis by (auto simp: pinned_def list_ex_iff)
  next
    case False
    moreover have "chain \<noteq> []" using assms(2) by auto
    ultimately have "in_validity now (last chain)" using links_last [of x now chain] l by simp
    then show ?thesis using assms(1) False by (auto simp: verifyChainSignatures_def Let_def list_ex_iff split: if_splits)
  qed
  then show ?thesis using links_nth [OF l] assms(2,3) by (simp add: trusted_chain_def)
qed

lemma description_good: "description_error v challenge kd = None \<Longrightarrow> good_key v challenge kd"
  by (auto simp: description_error_def good_key_def checkApp_def list_all_iff split: if_splits option.splits)

lemma leaf_only:
  "leaf_extension chain = Inr ext \<Longrightarrow> ac_KeyExtensions (hd chain) = [ext] \<and> (\<forall>c \<in> set (tl chain). ac_KeyExtensions c = [])"
  by (cases "ac_KeyExtensions (hd chain)") (auto simp: leaf_extension_def Let_def list_ex_iff split: if_splits)

lemma status_current_list: "fst (status_current now answer s) = sl_revoked (snd (status_current now answer s))"
  by (simp add: status_current_def Let_def split: option.split)

lemma status_checked: "status_Check mode now answer chain s = (Inr (), s') \<Longrightarrow> unrevoked mode s' chain"
  using status_current_list [of now answer s]
  by (auto simp: status_Check_def unrevoked_def list_ex_iff split: prod.splits option.splits if_splits)

lemma chain_verified:
  assumes "VerifyChain x cr v now listNow answer chain challenge s = (Inr ev, s')"
  shows "genuine x v now chain challenge \<and> unrevoked (av_Revocation v) s' chain"
proof -
  have n: "2 \<le> length chain" "length chain \<le> 10" using assms by (auto simp: VerifyChain_def throw_def split: if_splits)
  then obtain ext kd where k: "verifyChainSignatures x v now chain = Inr ()" "leaf_extension chain = Inr ext"
      "xo_description x ext = Some kd" "description_error v challenge kd = None"
    using assms by (auto simp: VerifyChain_def throw_def split: sum.splits option.splits)
  have "unrevoked (av_Revocation v) s' chain"
  proof (cases "av_Revocation v = RevocationOff")
    case False
    then have "status_Check (av_Revocation v) listNow answer chain s = (Inr (), s')"
      using assms n k by (auto simp: VerifyChain_def andThen_def ret_def split: if_splits prod.splits sum.splits)
    then show ?thesis by (rule status_checked)
  qed (simp add: unrevoked_def)
  moreover have "genuine x v now chain challenge"
    unfolding genuine_def using verified_chain_trusted [OF k(1) n] leaf_only [OF k(2)] k(3) description_good [OF k(4)] by blast
  ultimately show ?thesis by blast
qed

datatype device_event = DeviceBegin device_env ceremony_context | DeviceComplete device_env ceremony_context response_data

fun device_step :: "x509 \<Rightarrow> crypto \<Rightarrow> device_config \<Rightarrow> device_event \<Rightarrow> device_state \<Rightarrow> device_state" where
  "device_step x cr cfg (DeviceBegin env cc) s = snd (device_BeginCeremony env cc s)"
| "device_step x cr cfg (DeviceComplete env cc resp) s = snd (device_CompleteCeremony x cr cfg env cc resp s)"

definition no_devices :: device_state where
  "no_devices = \<lparr>dt_challenges = Map.empty, dt_list = no_status_list, dt_hints = Map.empty\<rparr>"

definition device_run :: "x509 \<Rightarrow> crypto \<Rightarrow> device_config \<Rightarrow> device_event list \<Rightarrow> device_state" where
  "device_run x cr cfg evs = fold (device_step x cr cfg) evs no_devices"

definition drawn :: "device_event list \<Rightarrow> string \<Rightarrow> bytes \<Rightarrow> bool" where
  "drawn evs sid b \<longleftrightarrow> (\<exists>env cc. DeviceBegin env cc \<in> set evs \<and> cc_SessionID cc = sid \<and> dn_bytes env = Some b)"

lemma complete_keeps_challenges: "dt_challenges (snd (device_CompleteCeremony x cr cfg env cc resp s)) = dt_challenges s"
  by (simp add: device_CompleteCeremony_def Let_def split: option.split prod.split sum.split)

lemma begin_challenges:
  "dt_challenges (snd (device_BeginCeremony env cc s)) sid = Some nonce \<Longrightarrow>
     dt_challenges s sid = Some nonce \<or> (cc_SessionID cc = sid \<and> (\<exists>b. dn_bytes env = Some b \<and> nonce = hex_encode b))"
  by (auto simp: device_BeginCeremony_def device_PutChallenge_def defaultNonce_def andThen_def onError_def ret_def throw_def split: if_splits option.splits)

lemma run_challenges:
  "dt_challenges (device_run x cr cfg evs) sid = Some nonce \<Longrightarrow> \<exists>b. drawn evs sid b \<and> nonce = hex_encode b"
proof (induction evs arbitrary: nonce rule: rev_induct)
  case Nil
  then show ?case by (simp add: device_run_def no_devices_def)
next
  case (snoc ev evs)
  have run: "device_run x cr cfg (evs @ [ev]) = device_step x cr cfg ev (device_run x cr cfg evs)" by (simp add: device_run_def)
  have old: "\<exists>b. drawn (evs @ [ev]) sid b \<and> nonce = hex_encode b" if "dt_challenges (device_run x cr cfg evs) sid = Some nonce"
    using snoc.IH [OF that] by (auto simp: drawn_def)
  show ?case
  proof (cases ev)
    case (DeviceBegin env cc)
    then show ?thesis using begin_challenges [of env cc "device_run x cr cfg evs" sid nonce] snoc.prems old unfolding run
      by (fastforce simp: drawn_def)
  next
    case (DeviceComplete env cc resp)
    then show ?thesis using snoc.prems old unfolding run by (simp add: complete_keeps_challenges)
  qed
qed

lemma completed_verified:
  assumes "mr_Success (fst (device_CompleteCeremony x cr cfg env cc resp s))"
    and "dg_Verifier cfg = Router r" "r (device_field (rd_Payload resp) ''platform'') = Some (AndroidKey v)"
  shows "\<exists>nonce ev. dt_challenges s (cc_SessionID cc) = Some nonce \<and>
    android_Verify x cr v env nonce (device_token (rd_Payload resp)) (dt_list s) =
      (Inr ev, dt_list (snd (device_CompleteCeremony x cr cfg env cc resp s)))"
  using assms
  by (auto simp: device_CompleteCeremony_def Let_def failed_result_def device_Verify_def
      split: if_splits option.splits prod.splits sum.splits attest_error.splits)

text \<open>C20: A session that passes with Android key attestation is backed by a phone of its own: the certificate chain that came in is trusted
  up to a pinned key, its leaf alone describes a key generated in the secure hardware of a locked phone running its maker's image, for the
  accepted app and for a nonce that was drawn for this very session, and no certificate of it is on the revocation list in force.
\<close>

theorem attested_device_is_genuine:
  assumes "mr_Success (fst (device_CompleteCeremony x cr cfg env cc resp (device_run x cr cfg evs)))"
    and "dg_Verifier cfg = Router r" "r (device_field (rd_Payload resp) ''platform'') = Some (AndroidKey v)"
  shows "\<exists>b chain. drawn evs (cc_SessionID cc) b \<and> DecodeCertificateChain x (device_token (rd_Payload resp)) = Some chain \<and>
    genuine x v (dn_chain env) chain b \<and>
    unrevoked (av_Revocation v) (dt_list (snd (device_CompleteCeremony x cr cfg env cc resp (device_run x cr cfg evs)))) chain"
proof -
  let ?s = "device_run x cr cfg evs" and ?token = "device_token (rd_Payload resp)"
  let ?l = "dt_list (snd (device_CompleteCeremony x cr cfg env cc resp ?s))"
  obtain nonce ev where n: "dt_challenges ?s (cc_SessionID cc) = Some nonce"
      "android_Verify x cr v env nonce ?token (dt_list ?s) = (Inr ev, ?l)"
    using completed_verified [OF assms] by blast
  obtain b where b: "drawn evs (cc_SessionID cc) b" "nonce = hex_encode b" using run_challenges [OF n(1)] by blast
  obtain chain where "DecodeCertificateChain x ?token = Some chain"
      "VerifyChain x cr v (dn_chain env) (dn_list env) (dn_answer env) chain b (dt_list ?s) = (Inr ev, ?l)"
    using n(2) b(2) by (auto simp: android_Verify_def throw_def split: if_splits option.splits)
  then show ?thesis using chain_verified b(1) by blast
qed

section \<open>A concrete phone\<close>

definition sample_root_cert :: android_cert where
  "sample_root_cert = \<lparr>ac_Issuer = ''R'', ac_Subject = ''R'', ac_SPKI = ''K'', ac_NotBefore = 0, ac_NotAfter = 0, ac_Serial = ''1'',
     ac_IssuerOrganization = [], ac_IssuerCommonName = '''', ac_KeyExtensions = []\<rparr>"

definition sample_leaf_cert :: android_cert where
  "sample_leaf_cert = \<lparr>ac_Issuer = ''R'', ac_Subject = ''L'', ac_SPKI = ''P'', ac_NotBefore = 0, ac_NotAfter = 9, ac_Serial = ''2'',
     ac_IssuerOrganization = [], ac_IssuerCommonName = '''', ac_KeyExtensions = [''e'']\<rparr>"

definition sample_x509 :: x509 where
  "sample_x509 = \<lparr>xo_parse = (\<lambda>b. Some (if length b = 3 then sample_leaf_cert else sample_root_cert)),
     xo_description = (\<lambda>e. Some \<lparr>kd_AttestationSecurityLevel = LevelTEE, kd_KeyMintSecurityLevel = LevelTEE, kd_Challenge = ''n'',
       kd_RootOfTrust = Some \<lparr>rt_DeviceLocked = True, rt_VerifiedBootState = BootVerified\<rparr>, kd_Origin = 0,
       kd_ApplicationID = Some \<lparr>ai_PackageNames = [''app''], ai_SignatureDigests = []\<rparr>\<rparr>),
     xo_signed = (\<lambda>p c. True)\<rparr>"

definition sample_android :: android_verifier where
  "sample_android = \<lparr>av_PackageName = ''app'', av_Signers = [], av_Roots = [sample_root_cert], av_Revocation = RevocationFailOpen\<rparr>"

definition sample_device_config :: device_config where
  "sample_device_config = \<lparr>dg_Verifier = Router [''android'' \<mapsto> AndroidKey sample_android], dg_HintLimit = None\<rparr>"

definition sample_device_env :: device_env where
  "sample_device_env = \<lparr>dn_chain = 5, dn_list = 5, dn_hint = 5, dn_done = 5, dn_answer = None, dn_bytes = Some ''n''\<rparr>"

definition sample_device_crypto :: crypto where
  "sample_device_crypto = \<lparr>c_sha256 = (\<lambda>b. b), c_hmac = (\<lambda>_ _. []), c_sign = (\<lambda>_ _. []), c_verify = (\<lambda>_ _ _. False)\<rparr>"

definition sample_device_context :: ceremony_context where
  "sample_device_context = \<lparr>cc_SessionID = ''5e'', cc_HolderDID = '''', cc_UserID = '''', cc_MethodID = '''', cc_IssuerDID = '''', cc_StartedAt = 0\<rparr>"

definition sample_device_answer :: response_data where
  "sample_device_answer = \<lparr>rd_Type = '''', rd_Payload = [(''platform'', JString ''android''), (''token'', JString ''AAAA,AAAAAAAA'')]\<rparr>"

lemma sample_chain_token:
  "device_field (rd_Payload sample_device_answer) ''platform'' = ''android''"
  "device_token (rd_Payload sample_device_answer) = ''AAAA,AAAAAAAA''"
  "DecodeCertificateChain sample_x509 ''AAAA,AAAAAAAA'' = Some [sample_leaf_cert, sample_root_cert]"
proof -
  have p: "printable ''android''" "printable ''AAAA,AAAAAAAA''" "printable ''AAAA''" "printable ''AAAAAAAA''" by (simp_all add: printable_def)
  show "device_field (rd_Payload sample_device_answer) ''platform'' = ''android''"
    "device_token (rd_Payload sample_device_answer) = ''AAAA,AAAAAAAA''"
    using p by (simp_all add: device_field_def device_token_def sample_device_answer_def Let_def)
  have d: "device_decodeB64 ''AAAA'' = Some [byte 0, byte 0, byte 0]" "device_decodeB64 ''AAAAAAAA'' = Some [byte 0, byte 0, byte 0, byte 0, byte 0, byte 0]"
    by code_simp+
  show "DecodeCertificateChain sample_x509 ''AAAA,AAAAAAAA'' = Some [sample_leaf_cert, sample_root_cert]"
    using p d by (simp add: DecodeCertificateChain_def sample_x509_def)
qed

lemma sample_chain_verified:
  "fst (VerifyChain sample_x509 sample_device_crypto sample_android 5 5 None [sample_leaf_cert, sample_root_cert] ''n'' no_status_list) =
     Inr \<lparr>ev_SecurityLevel = ''tee'', ev_DeviceHint = ''''\<rparr>"
proof -
  have "status_Check RevocationFailOpen 5 None [sample_leaf_cert, sample_root_cert] no_status_list = (Inr (), no_status_list)"
    by (simp add: status_Check_def status_current_def no_status_list_def sub_time_def RetryAfter_def ns_minute_def min_int64_def max_int64_def)
  then show ?thesis
    by (simp add: VerifyChain_def verifyChainSignatures_def leaf_extension_def description_error_def checkApp_def rkpDeviceHint_def andThen_def
        ret_def pinned_def in_validity_def hardware_level_def sample_x509_def sample_android_def sample_leaf_cert_def sample_root_cert_def)
qed

lemma sample_device_passes:
  "mr_Success (fst (device_CompleteCeremony sample_x509 sample_device_crypto sample_device_config sample_device_env sample_device_context
     sample_device_answer (device_run sample_x509 sample_device_crypto sample_device_config [DeviceBegin sample_device_env sample_device_context])))"
proof -
  have run: "device_run sample_x509 sample_device_crypto sample_device_config [DeviceBegin sample_device_env sample_device_context] =
      no_devices\<lparr>dt_challenges := [''5e'' \<mapsto> hex_encode ''n'']\<rparr>"
    by (simp add: device_run_def device_BeginCeremony_def device_PutChallenge_def defaultNonce_def sample_device_env_def sample_device_context_def
        andThen_def onError_def ret_def no_devices_def)
  show ?thesis
    unfolding run using sample_chain_verified
    by (auto simp: device_CompleteCeremony_def Let_def sample_chain_token device_Verify_def android_Verify_def sample_device_config_def
        sample_device_env_def sample_device_context_def no_devices_def passed_result_def split: prod.splits sum.splits)
qed

theorem attested_device_is_genuine_witness:
  "\<exists>b chain. drawn [DeviceBegin sample_device_env sample_device_context] ''5e'' b \<and>
     DecodeCertificateChain sample_x509 ''AAAA,AAAAAAAA'' = Some chain \<and> genuine sample_x509 sample_android 5 chain b"
  using attested_device_is_genuine [OF sample_device_passes, of "[''android'' \<mapsto> AndroidKey sample_android]" sample_android]
  by (auto simp: sample_chain_token sample_device_config_def sample_device_env_def sample_device_context_def)

end
