(* ===== verification/Light_Methods.thy ===== *)
theory Light_Methods
  imports Server_Monad Vouching
begin

text \<open>
  The two checks without a state of their own: \<open>src/src/methods/captcha-turnstile\<close>, whose verdict is Cloudflare's, and
  \<open>src/src/methods/ip-asn-reputation\<close>, which looks up the address the server resolved. What the vendor answered is an argument.
\<close>

section \<open>The captcha\<close>

definition CaptchaMethodID :: string where "CaptchaMethodID = ''captcha-turnstile''"

definition captcha_Metadata :: method_metadata where
  "captcha_Metadata =
     \<lparr>md_ID = CaptchaMethodID, md_Type = MethodTypeSupplementary, md_Strength = 4, md_CostUSD = 0,
      md_UXFriction = ''low'', md_PlatformRequirements = [], md_FreshnessLifetime = 24 * ns_hour, md_Version = ''0.1.0''\<rparr>"

text \<open>\<open>None\<close> is the error of a context without a session.\<close>

definition captcha_BeginCeremony :: "string \<Rightarrow> ceremony_context \<Rightarrow> challenge_data option" where
  "captcha_BeginCeremony siteKey cc =
     (if cc_SessionID cc = '''' then None
      else Some \<lparr>ch_Type = ''turnstile'', ch_Payload = [(''site_key'', JString siteKey), (''verify_action'', JString ''enroll'')]\<rparr>)"

record site_verify =
  sv_Success :: bool
  sv_ErrorCodes :: "string list"
  sv_Hostname :: string

text \<open>The answer to the request, a status and the unmarshalled body, or \<open>None\<close> for none.\<close>

definition SiteVerify :: "(int \<times> site_verify option) option \<Rightarrow> site_verify option" where
  "SiteVerify answer =
     (case answer of
        None \<Rightarrow> None
      | Some (status, body) \<Rightarrow> if status < 200 \<or> status \<ge> 300 then None else body)"

definition text_field_of :: "json_object \<Rightarrow> string \<Rightarrow> string" where
  "text_field_of m key = (case map_of m key of Some (JString s) \<Rightarrow> s | _ \<Rightarrow> '''')"

definition captcha_digest :: "crypto \<Rightarrow> string \<Rightarrow> string \<Rightarrow> string \<Rightarrow> string" where
  "captcha_digest cr sid token hostname = sha256_hex cr (sid @ [byte 0] @ token @ [byte 0] @ hostname)"

text \<open>\<open>ask token ip\<close> is what the vendor answers; the error is that of the call.\<close>

definition captcha_CompleteCeremony ::
  "crypto \<Rightarrow> (string \<Rightarrow> string \<Rightarrow> (int \<times> site_verify option) option) \<Rightarrow> time \<Rightarrow> ceremony_context \<Rightarrow> response_data \<Rightarrow> unit + method_result" where
  "captcha_CompleteCeremony cr ask now cc resp =
     (let token = text_field_of (rd_Payload resp) ''token'' in
      if token = '''' then Inr (failed_result CaptchaMethodID ''missing_turnstile_token'')
      else case SiteVerify (ask token (text_field_of (rd_Payload resp) ''ip'')) of
        None \<Rightarrow> Inl ()
      | Some v \<Rightarrow>
          if \<not> sv_Success v then Inr (failed_result CaptchaMethodID (''turnstile_failed:'' @ join '','' (sv_ErrorCodes v)))
          else Inr (passed_result CaptchaMethodID now (captcha_digest cr (cc_SessionID cc) token (sv_Hostname v))))"

lemma captcha_passes_iff:
  "(\<exists>res. captcha_CompleteCeremony cr ask now cc resp = Inr res \<and> mr_Success res) \<longleftrightarrow>
     (\<exists>status v. text_field_of (rd_Payload resp) ''token'' \<noteq> '''' \<and>
        ask (text_field_of (rd_Payload resp) ''token'') (text_field_of (rd_Payload resp) ''ip'') = Some (status, Some v) \<and>
        200 \<le> status \<and> status < 300 \<and> sv_Success v)"
  by (auto simp: captcha_CompleteCeremony_def SiteVerify_def Let_def failed_result_def passed_result_def split: option.split prod.splits)

section \<open>The address\<close>

definition IpMethodID :: string where "IpMethodID = ''ip-asn-reputation''"

definition ip_Metadata :: method_metadata where
  "ip_Metadata =
     \<lparr>md_ID = IpMethodID, md_Type = MethodTypeSupplementary, md_Strength = 10, md_CostUSD = 1 / 1000,
      md_UXFriction = ''low'', md_PlatformRequirements = [], md_FreshnessLifetime = 7 * 24 * ns_hour, md_Version = ''0.1.0''\<rparr>"

record reputation =
  rp_ASN :: int
  rp_IsDatacenter :: bool
  rp_IsVPN :: bool
  rp_IsProxy :: bool
  rp_IsTor :: bool

record ip_config =
  ip_RejectDatacenter :: bool
  ip_RejectVPN :: bool
  ip_RejectProxy :: bool
  ip_RejectTor :: bool

definition ip_DefaultConfig :: ip_config where
  "ip_DefaultConfig = \<lparr>ip_RejectDatacenter = True, ip_RejectVPN = False, ip_RejectProxy = True, ip_RejectTor = True\<rparr>"

definition static_Lookup :: "(string \<rightharpoonup> reputation) \<Rightarrow> reputation \<Rightarrow> string \<Rightarrow> reputation option" where
  "static_Lookup table fallback ip = Some (case table ip of Some r \<Rightarrow> r | None \<Rightarrow> fallback)"

definition ip_BeginCeremony :: "ceremony_context \<Rightarrow> challenge_data option" where
  "ip_BeginCeremony cc =
     (if cc_SessionID cc = '''' then None
      else Some \<lparr>ch_Type = ''ip-asn'', ch_Payload = [(''note'', JString ''server-evaluated; client action not required'')]\<rparr>)"

definition ip_digest :: "crypto \<Rightarrow> string \<Rightarrow> string \<Rightarrow> int \<Rightarrow> string" where
  "ip_digest cr sid ip asn = sha256_hex cr (sid @ [byte 0] @ ip @ [byte 0] @ int_string asn)"

text \<open>The lookup answers \<open>None\<close> for an error.\<close>

definition ip_CompleteCeremony ::
  "crypto \<Rightarrow> ip_config \<Rightarrow> (string \<Rightarrow> reputation option) \<Rightarrow> time \<Rightarrow> ceremony_context \<Rightarrow> response_data \<Rightarrow> unit + method_result" where
  "ip_CompleteCeremony cr cfg lookup now cc resp =
     (let ip = text_field_of (rd_Payload resp) ''ip'' in
      if ip = '''' then Inr (failed_result IpMethodID ''missing_ip'')
      else case lookup ip of
        None \<Rightarrow> Inl ()
      | Some rep \<Rightarrow>
          if ip_RejectDatacenter cfg \<and> rp_IsDatacenter rep then Inr (failed_result IpMethodID ''ip_datacenter'')
          else if ip_RejectProxy cfg \<and> rp_IsProxy rep then Inr (failed_result IpMethodID ''ip_proxy'')
          else if ip_RejectTor cfg \<and> rp_IsTor rep then Inr (failed_result IpMethodID ''ip_tor'')
          else if ip_RejectVPN cfg \<and> rp_IsVPN rep then Inr (failed_result IpMethodID ''ip_vpn'')
          else Inr (passed_result IpMethodID now (ip_digest cr (cc_SessionID cc) ip (rp_ASN rep))))"

lemma ip_passes_iff:
  "(\<exists>res. ip_CompleteCeremony cr cfg lookup now cc resp = Inr res \<and> mr_Success res) \<longleftrightarrow>
     (\<exists>rep. text_field_of (rd_Payload resp) ''ip'' \<noteq> '''' \<and> lookup (text_field_of (rd_Payload resp) ''ip'') = Some rep \<and>
        \<not> (ip_RejectDatacenter cfg \<and> rp_IsDatacenter rep) \<and> \<not> (ip_RejectProxy cfg \<and> rp_IsProxy rep) \<and>
        \<not> (ip_RejectTor cfg \<and> rp_IsTor rep) \<and> \<not> (ip_RejectVPN cfg \<and> rp_IsVPN rep))"
  by (auto simp: ip_CompleteCeremony_def Let_def failed_result_def passed_result_def split: option.split)

end
