(* ===== verification/Durable_Sessions.thy ===== *)
theory Durable_Sessions
  imports Otp_Store Session_Store
begin

text \<open>
  Enrollment sessions on Redis and on Firestore, \<open>src/server/session_redis.go\<close> and \<open>session_firestore.go\<close>. A session is one
  document, read, changed and written back; issuing also creates a claim that exists once per session. Both stores
  run the same operations on a \<open>session_backend\<close> and are interpretations of \<open>session_contract\<close>, whichever calls fail. A
  \<open>sessionRecord\<close> has the fields of a \<open>session\<close>; JSON is inverse on it. An operation reads the clock once.
\<close>

section \<open>The two backends\<close>

datatype session_doc = SessionRecord session | IssueClaim string

type_synonym session_docs = "session_doc ttl_store"

record session_backend =
  sb_client :: "session_doc kv_client"
  sb_Claim :: "time \<Rightarrow> time \<Rightarrow> string \<Rightarrow> string \<Rightarrow> (session_docs, unit, bool) comp"
  sb_Key :: "string \<Rightarrow> string"

text \<open>\<open>SET key value NX PX ttl\<close>: writes unless a live key is there, and answers whether it wrote.\<close>

definition redis_taken :: "time \<Rightarrow> ('v doc \<times> time option) option \<Rightarrow> bool" where
  "redis_taken now x = (case x of None \<Rightarrow> False | Some (_, None) \<Rightarrow> True | Some (_, Some t) \<Rightarrow> now < t)"

definition redis_SetNX :: "time \<Rightarrow> string \<Rightarrow> 'v doc \<Rightarrow> duration \<Rightarrow> ('v ttl_store, unit, bool) comp" where
  "redis_SetNX now k v ttl d =
     (if ttl div 1000000 = 0 then (Inl (), tt_called d)
      else (let taken = redis_taken now (tt_docs d k) in
        tt_call (\<lambda>m. if taken then m else m(k \<mapsto> (v, Some (now + ttl div 1000000 * 1000000)))) (\<not> taken) d))"

definition firestore_CreateDoc :: "string \<Rightarrow> 'v doc \<Rightarrow> ('v ttl_store, unit, bool) comp" where
  "firestore_CreateDoc k v d =
     (let taken = tt_docs d k \<noteq> None in tt_call (\<lambda>m. if taken then m else m(k \<mapsto> (v, None))) (\<not> taken) d)"

definition sessionRedisKey :: "string \<Rightarrow> string" where
  "sessionRedisKey sid = ''personhood:session:'' @ sid"

definition redisIssuedKey :: "string \<Rightarrow> string" where
  "redisIssuedKey sid = ''personhood:session-issued:'' @ sid"

definition redis_Claim :: "time \<Rightarrow> time \<Rightarrow> string \<Rightarrow> string \<Rightarrow> (session_docs, unit, bool) comp" where
  "redis_Claim now expiresAt sid credID =
     (let ttl = sub_time expiresAt now;
          ttl = if ttl \<le> 0 then ns_minute else ttl
      in redis_SetNX now (redisIssuedKey sid) (Some (IssueClaim credID)) ttl)"

text \<open>A Firestore document is a collection and an id.\<close>

definition firestoreSessionKey :: "string \<Rightarrow> string" where
  "firestoreSessionKey sid = ''personhood-sessions/'' @ sid"

definition firestoreIssuedKey :: "string \<Rightarrow> string" where
  "firestoreIssuedKey sid = ''personhood-session-issued/'' @ sid"

definition firestore_Claim :: "time \<Rightarrow> time \<Rightarrow> string \<Rightarrow> string \<Rightarrow> (session_docs, unit, bool) comp" where
  "firestore_Claim now expiresAt sid credID = firestore_CreateDoc (firestoreIssuedKey sid) (Some (IssueClaim credID))"

definition redis_sessions :: session_backend where
  "redis_sessions = \<lparr>sb_client = redis_client, sb_Claim = redis_Claim, sb_Key = sessionRedisKey\<rparr>"

definition firestore_sessions :: session_backend where
  "firestore_sessions = \<lparr>sb_client = firestore_client, sb_Claim = firestore_Claim, sb_Key = firestoreSessionKey\<rparr>"

section \<open>Operations\<close>

datatype durable_error = Refused session_error | StoreFailed

definition durable_read :: "session_backend \<Rightarrow> time \<Rightarrow> string \<Rightarrow> (session_docs, durable_error, session) comp" where
  "durable_read sb now sid =
     (if \<not> validSessionID sid then throw (Refused ErrSessionNotFound)
      else andThen (onError (\<lambda>_. StoreFailed) (kc_Get (sb_client sb) now (sb_Key sb sid))) (\<lambda>found.
        case found of
          None \<Rightarrow> throw (Refused ErrSessionNotFound)
        | Some doc \<Rightarrow>
            (case doc of
               Some (SessionRecord rec) \<Rightarrow>
                 if now > se_expiresAt rec
                 then andThen (besteffort (kc_Del (sb_client sb) (sb_Key sb sid))) (\<lambda>_. throw (Refused ErrSessionNotFound))
                 else ret rec
             | _ \<Rightarrow> throw StoreFailed)))"

definition durable_write :: "session_backend \<Rightarrow> time \<Rightarrow> session \<Rightarrow> (session_docs, durable_error, unit) comp" where
  "durable_write sb now rec =
     onError (\<lambda>_. StoreFailed)
       (kc_Set (sb_client sb) now (sb_Key sb (se_id rec)) (Some (SessionRecord rec)) (sub_time (se_expiresAt rec) now))"

definition new_session :: "crypto \<Rightarrow> duration \<Rightarrow> string \<Rightarrow> bytes \<Rightarrow> time \<Rightarrow> session" where
  "new_session cr ttl sid holderPublicKey now =
     \<lparr>se_id = sid, se_holderDID = HolderDIDForSession cr sid holderPublicKey,
      se_holderPublicKey = (if length holderPublicKey = PublicKeySize then holderPublicKey else []),
      se_createdAt = now, se_expiresAt = now + ttl, se_verifiedMethods = [],
      se_anchorMethodID = None, se_issuedCredentialID = '''', se_identifierKeys = []\<rparr>"

definition durable_Create ::
  "session_backend \<Rightarrow> crypto \<Rightarrow> duration \<Rightarrow> bytes option \<Rightarrow> bytes \<Rightarrow> time \<Rightarrow> (session_docs, durable_error, session_view) comp" where
  "durable_Create sb cr ttl rand32 holderPublicKey now =
     (case randomSessionID rand32 of
        None \<Rightarrow> throw (Refused ErrSessionRandom)
      | Some sid \<Rightarrow>
          (let rec = new_session cr ttl sid holderPublicKey now
           in andThen (durable_write sb now rec) (\<lambda>_. ret (session_to_view rec))))"

definition durable_Get :: "session_backend \<Rightarrow> string \<Rightarrow> time \<Rightarrow> (session_docs, durable_error, session_view) comp" where
  "durable_Get sb sid now = andThen (durable_read sb now sid) (\<lambda>rec. ret (session_to_view rec))"

definition recorded :: "method_result \<Rightarrow> method_metadata \<Rightarrow> session \<Rightarrow> session" where
  "recorded res md rec =
     (let vm = \<lparr>vm_MethodID = mr_MethodID res, vm_Strength = md_Strength md, vm_VerifiedAt = mr_VerifiedAt res,
            vm_FreshnessLifetime = md_FreshnessLifetime md, vm_AttestationDigest = mr_AttestationDigest res\<rparr>
      in rec\<lparr>se_verifiedMethods := put_method vm (se_verifiedMethods rec),
           se_anchorMethodID := (if md_Type md = MethodTypeAnchor then Some (mr_MethodID res) else se_anchorMethodID rec)\<rparr>)"

definition durable_RecordMethodResult ::
  "session_backend \<Rightarrow> string \<Rightarrow> method_result \<Rightarrow> method_metadata \<Rightarrow> time \<Rightarrow> (session_docs, durable_error, unit) comp" where
  "durable_RecordMethodResult sb sid res md now =
     (if \<not> mr_Success res then throw (Refused ErrFailedResult)
      else andThen (durable_read sb now sid) (\<lambda>rec.
        if se_issuedCredentialID rec \<noteq> '''' then throw (Refused ErrSessionAlreadyIssued)
        else durable_write sb now (recorded res md rec)))"

definition durable_MarkIssued ::
  "session_backend \<Rightarrow> string \<Rightarrow> string \<Rightarrow> time \<Rightarrow> (session_docs, durable_error, unit) comp" where
  "durable_MarkIssued sb sid credID now =
     andThen (durable_read sb now sid) (\<lambda>rec.
       if se_issuedCredentialID rec \<noteq> '''' then throw (Refused ErrSessionAlreadyIssued)
       else andThen (onError (\<lambda>_. StoreFailed) (sb_Claim sb now (se_expiresAt rec) sid credID)) (\<lambda>created.
         if \<not> created then throw (Refused ErrSessionAlreadyIssued)
         else durable_write sb now (rec\<lparr>se_issuedCredentialID := credID\<rparr>)))"

definition setIdentifierKey :: "string \<Rightarrow> string \<Rightarrow> session \<Rightarrow> session_error + session" where
  "setIdentifierKey kind key rec =
     (if se_issuedCredentialID rec \<noteq> '''' then Inl ErrSessionAlreadyIssued
      else Inr (rec\<lparr>se_identifierKeys := alist_put kind key (se_identifierKeys rec)\<rparr>))"

definition durable_SetIdentifierKey ::
  "session_backend \<Rightarrow> string \<Rightarrow> string \<Rightarrow> string \<Rightarrow> time \<Rightarrow> (session_docs, durable_error, unit) comp" where
  "durable_SetIdentifierKey sb sid kind key now =
     andThen (durable_read sb now sid) (\<lambda>rec.
       case setIdentifierKey kind key rec of
         Inl e \<Rightarrow> throw (Refused e)
       | Inr rec' \<Rightarrow> durable_write sb now rec')"

text \<open>\<open>ttl <= 0\<close> stands for an hour in both constructors.\<close>

definition durable_ttl :: "duration \<Rightarrow> duration" where
  "durable_ttl ttl = (if ttl \<le> 0 then ns_hour else ttl)"

text \<open>The outcome of a call, \<open>None\<close> for a nil error.\<close>

definition call_outcome :: "('s, 'e, 'a) comp \<Rightarrow> 's \<Rightarrow> 'e option \<times> 's" where
  "call_outcome m s = (case m s of (Inl e, s') \<Rightarrow> (Some e, s') | (Inr _, s') \<Rightarrow> (None, s'))"

fun durable_call :: "session_backend \<Rightarrow> crypto \<Rightarrow> duration \<Rightarrow> session_call \<Rightarrow> time \<Rightarrow> session_docs \<Rightarrow> durable_error option \<times> session_docs" where
  "durable_call sb cr ttl (CallCreate rnd pub) now = call_outcome (durable_Create sb cr (durable_ttl ttl) rnd pub now)"
| "durable_call sb cr ttl (CallGet sid) now = call_outcome (durable_Get sb sid now)"
| "durable_call sb cr ttl (CallRecord sid res md) now = call_outcome (durable_RecordMethodResult sb sid res md now)"
| "durable_call sb cr ttl (CallMarkIssued sid cid) now = call_outcome (durable_MarkIssued sb sid cid now)"
| "durable_call sb cr ttl (CallSetKey sid kind key) now = call_outcome (durable_SetIdentifierKey sb sid kind key now)"

definition durable_exec :: "session_backend \<Rightarrow> crypto \<Rightarrow> duration \<Rightarrow> session_docs \<Rightarrow> session_call \<Rightarrow> time \<Rightarrow> session_docs" where
  "durable_exec sb cr ttl d c now = snd (durable_call sb cr ttl c now d)"

text \<open>What a \<open>Get\<close> that is not refused by the service answers.\<close>

definition durable_view :: "session_backend \<Rightarrow> session_docs \<Rightarrow> string \<Rightarrow> time \<Rightarrow> session_view option" where
  "durable_view sb d sid now =
     (case fst (durable_Get sb sid now (d\<lparr>tt_calls := []\<rparr>)) of Inr v \<Rightarrow> Some v | Inl _ \<Rightarrow> None)"

section \<open>What the stores rely on\<close>

definition shown :: "(time \<Rightarrow> bool) \<Rightarrow> ('v doc \<times> time option) option \<Rightarrow> 'v doc option" where
  "shown alive x = (case x of None \<Rightarrow> None | Some (v, None) \<Rightarrow> Some v | Some (v, Some t) \<Rightarrow> if alive t then Some v else None)"

text \<open>
  \<open>alive now t\<close>: a document with deadline \<open>t\<close> is still answered at \<open>now\<close>. Reading may delete a document that is not;
  claiming writes the claim of the session or nothing.
\<close>

locale session_documents =
  fixes sb :: session_backend and alive :: "time \<Rightarrow> time \<Rightarrow> bool" and claim_key :: "string \<Rightarrow> string"
  assumes get_docs: "wp (kc_Get (sb_client sb) now k)
      (\<lambda>r d'. r = shown (alive now) (tt_docs d k) \<and> (tt_docs d' = tt_docs d \<or> r = None \<and> tt_docs d' = (tt_docs d)(k := None)))
      (\<lambda>_ d'. tt_docs d' = tt_docs d) d"
    and get_answers: "tt_calls d = [] \<Longrightarrow> fst (kc_Get (sb_client sb) now k d) = Inr (shown (alive now) (tt_docs d k))"
    and set_docs: "wp (kc_Set (sb_client sb) now k v ttl) (\<lambda>_ d'. \<exists>x. tt_docs d' = (tt_docs d)(k \<mapsto> (v, x)))
      (\<lambda>_ d'. tt_docs d' = tt_docs d \<or> (\<exists>x. tt_docs d' = (tt_docs d)(k \<mapsto> (v, x)))) d"
    and del_docs: "wp (kc_Del (sb_client sb) k) (\<lambda>_ d'. tt_docs d' = (tt_docs d)(k := None))
      (\<lambda>_ d'. tt_docs d' = tt_docs d \<or> tt_docs d' = (tt_docs d)(k := None)) d"
    and claim_docs: "wp (sb_Claim sb now e sid cid) (\<lambda>_ d'. \<forall>k. k \<noteq> claim_key sid \<longrightarrow> tt_docs d' k = tt_docs d k)
      (\<lambda>_ d'. \<forall>k. k \<noteq> claim_key sid \<longrightarrow> tt_docs d' k = tt_docs d k) d"
    and alive_before: "alive t x \<Longrightarrow> now \<le> t \<Longrightarrow> alive now x"
    and key_inj: "sb_Key sb sid = sb_Key sb i \<longleftrightarrow> sid = i"
    and key_not_claim: "sb_Key sb sid \<noteq> claim_key i"
begin

text \<open>The record of a session that a read at \<open>now\<close> returns.\<close>

definition live :: "time \<Rightarrow> string \<Rightarrow> session_docs \<Rightarrow> session option" where
  "live now sid d =
     (if validSessionID sid then
        (case shown (alive now) (tt_docs d (sb_Key sb sid)) of
           Some (Some (SessionRecord rec)) \<Rightarrow> if now \<le> se_expiresAt rec then Some rec else None
         | _ \<Rightarrow> None)
      else None)"

definition own_ids :: "session_docs \<Rightarrow> bool" where
  "own_ids d \<longleftrightarrow> (\<forall>sid rec x. tt_docs d (sb_Key sb sid) = Some (Some (SessionRecord rec), x) \<longrightarrow> se_id rec = sid)"

lemma live_doc:
  "live now sid d = Some rec \<Longrightarrow> validSessionID sid \<and> now \<le> se_expiresAt rec \<and>
     (\<exists>x. tt_docs d (sb_Key sb sid) = Some (Some (SessionRecord rec), x) \<and> (\<forall>t. x = Some t \<longrightarrow> alive now t))"
  by (auto simp: live_def shown_def split: if_splits option.splits session_doc.splits)

lemma live_later: "now \<le> t \<Longrightarrow> live t sid d \<in> {None, live now sid d}"
  by (auto simp: live_def shown_def dest: alive_before split: option.split session_doc.split)

lemma wp_drop:
  "tt_docs s = m \<Longrightarrow> wp (besteffort (kc_Del (sb_client sb) k)) (\<lambda>_ d'. tt_docs d' = m \<or> tt_docs d' = m(k := None)) E s"
  by (rule wp_besteffort, rule wp_mono [OF del_docs]) auto

lemma wp_read:
  "wp (durable_read sb now sid)
     (\<lambda>rec d'. live now sid d = Some rec \<and> tt_docs d' = tt_docs d)
     (\<lambda>_ d'. tt_docs d' = tt_docs d \<or> live now sid d = None \<and> tt_docs d' = (tt_docs d)(sb_Key sb sid := None)) d"
proof (cases "validSessionID sid")
  case True
  then show ?thesis
    unfolding durable_read_def wp_if wp_andThen wp_onError
    by (auto simp: wp live_def intro!: wp_mono [OF get_docs] wp_drop split: option.split session_doc.split)
qed (simp add: durable_read_def wp)

lemma durable_view_live: "durable_view sb d sid now = map_option session_to_view (live now sid d)"
proof -
  let ?d = "d\<lparr>tt_calls := []\<rparr>"
  obtain s where g: "kc_Get (sb_client sb) now (sb_Key sb sid) ?d = (Inr (shown (alive now) (tt_docs d (sb_Key sb sid))), s)"
    using get_answers [of ?d now "sb_Key sb sid"] by (cases "kc_Get (sb_client sb) now (sb_Key sb sid) ?d") auto
  show ?thesis
    by (auto simp: durable_view_def durable_Get_def durable_read_def live_def andThen_def onError_def g ret_def throw_def
        besteffort_def split: option.split session_doc.split)
qed

text \<open>What a call on session \<open>i\<close> does to the documents, given that it did not create it.\<close>

definition changes :: "time \<Rightarrow> string \<Rightarrow> session_docs \<Rightarrow> session_docs \<Rightarrow> bool" where
  "changes now i d d' \<longleftrightarrow>
     (\<forall>k. k \<noteq> sb_Key sb i \<longrightarrow> k \<noteq> claim_key i \<longrightarrow> tt_docs d' k = tt_docs d k) \<and>
     (tt_docs d' (sb_Key sb i) \<in> {tt_docs d (sb_Key sb i), None} \<or>
      (\<exists>rec rec' x. live now i d = Some rec \<and> se_issuedCredentialID rec = '''' \<and>
         tt_docs d' (sb_Key sb i) = Some (Some (SessionRecord rec'), x) \<and>
         se_expiresAt rec' = se_expiresAt rec \<and> se_id rec' = se_id rec))"

lemma wp_write:
  assumes "own_ids d" "live now i d = Some rec" "se_issuedCredentialID rec = ''''"
    "se_expiresAt rec' = se_expiresAt rec" "se_id rec' = se_id rec"
    "\<forall>k. k \<noteq> claim_key i \<longrightarrow> tt_docs s k = tt_docs d k"
  shows "wp (durable_write sb now rec') (\<lambda>_. changes now i d) (\<lambda>_. changes now i d) s"
proof -
  have "se_id rec = i" using assms(1) live_doc [OF assms(2)] by (auto simp: own_ids_def)
  then show ?thesis
    unfolding durable_write_def wp_onError
    using assms key_not_claim by (intro wp_mono [OF set_docs]) (auto simp: changes_def)
qed

lemma wp_update:
  assumes "own_ids d" "\<And>rec rec'. f rec = Inr rec' \<Longrightarrow>
    se_issuedCredentialID rec = '''' \<and> se_expiresAt rec' = se_expiresAt rec \<and> se_id rec' = se_id rec"
  shows "wp (andThen (durable_read sb now i) (\<lambda>rec. case f rec of Inl e \<Rightarrow> throw e | Inr rec' \<Rightarrow> durable_write sb now rec'))
    (\<lambda>_. changes now i d) (\<lambda>_. changes now i d) d"
  by (rule wp_step [OF wp_read]) (auto simp: changes_def wp assms(2) intro!: wp_write [OF assms(1)] split: sum.split)

lemma wp_MarkIssued:
  assumes "own_ids d"
  shows "wp (durable_MarkIssued sb i cid now) (\<lambda>_. changes now i d) (\<lambda>_. changes now i d) d"
  unfolding durable_MarkIssued_def
proof (rule wp_step [OF wp_read], goal_cases)
  case (2 rec s)
  then have c: "wp (sb_Claim sb now e i cid) (\<lambda>_ s'. \<forall>k. k \<noteq> claim_key i \<longrightarrow> tt_docs s' k = tt_docs d k)
      (\<lambda>_ s'. \<forall>k. k \<noteq> claim_key i \<longrightarrow> tt_docs s' k = tt_docs d k) s" for e
    by (auto intro!: wp_mono [OF claim_docs])
  show ?case
    using 2 key_not_claim
    by (auto simp: wp changes_def intro!: wp_mono [OF c] wp_write [OF assms])
qed (auto simp: changes_def)

lemma changes_own_ids:
  assumes "own_ids d" "changes now i d d'"
  shows "own_ids d'"
  unfolding own_ids_def
proof (intro allI impI)
  fix sid rec x assume r: "tt_docs d' (sb_Key sb sid) = Some (Some (SessionRecord rec), x)"
  show "se_id rec = sid"
  proof (cases "tt_docs d' (sb_Key sb sid) = tt_docs d (sb_Key sb sid)")
    case False
    then have "sb_Key sb sid = sb_Key sb i" using assms(2) key_not_claim [of sid i] unfolding changes_def by blast
    then have "sid = i" by (simp add: key_inj)
    then obtain rec' where "live now i d = Some rec'" "se_id rec = se_id rec'"
      using False r assms(2) by (auto simp: changes_def)
    then show ?thesis using assms(1) live_doc \<open>sid = i\<close> unfolding own_ids_def by metis
  next
    case True
    then show ?thesis using assms(1) r unfolding own_ids_def by metis
  qed
qed

lemma exec_created:
  assumes "randomSessionID rnd = Some sid"
  shows "\<forall>k. k \<noteq> sb_Key sb sid \<longrightarrow> tt_docs (durable_exec sb cr ttl d (CallCreate rnd pub) now) k = tt_docs d k"
    and "own_ids d \<Longrightarrow> own_ids (durable_exec sb cr ttl d (CallCreate rnd pub) now)"
proof -
  let ?rec = "new_session cr (durable_ttl ttl) sid pub now" and ?d = "durable_exec sb cr ttl d (CallCreate rnd pub) now"
  let ?P = "\<lambda>d'. tt_docs d' = tt_docs d \<or> (\<exists>x. tt_docs d' = (tt_docs d)(sb_Key sb (se_id ?rec) \<mapsto> (Some (SessionRecord ?rec), x)))"
  have "wp (durable_Create sb cr (durable_ttl ttl) rnd pub now) (\<lambda>_. ?P) (\<lambda>_. ?P) d"
    unfolding durable_Create_def durable_write_def assms option.case Let_def wp_andThen wp_onError
    by (rule wp_mono [OF set_docs]) (simp_all add: wp_ret)
  then have "?P ?d" by (simp add: durable_exec_def call_outcome_def wp_def split: prod.splits sum.splits)
  moreover have "se_id ?rec = sid" by (simp add: new_session_def)
  ultimately show "\<forall>k. k \<noteq> sb_Key sb sid \<longrightarrow> tt_docs ?d k = tt_docs d k" "own_ids d \<Longrightarrow> own_ids ?d"
    by (auto simp: own_ids_def key_inj split: if_splits)
qed

lemma call_outcome_state: "wp m (\<lambda>_. P) (\<lambda>_. P) s \<Longrightarrow> P (snd (call_outcome m s))"
  by (simp add: call_outcome_def wp_def split: prod.splits sum.splits)

lemma exec_changes:
  assumes "own_ids d" "creates c = None"
  shows "\<exists>i. changes now i d (durable_exec sb cr ttl d c now)"
proof (cases c)
  case (CallCreate rnd pub)
  then have "randomSessionID rnd = None" using assms by simp
  then show ?thesis using CallCreate
    by (auto simp: durable_exec_def durable_Create_def call_outcome_def throw_def changes_def)
next
  case (CallGet i)
  have "wp (durable_Get sb i now) (\<lambda>_. changes now i d) (\<lambda>_. changes now i d) d"
    unfolding durable_Get_def by (rule wp_step [OF wp_read]) (auto simp: changes_def wp)
  then show ?thesis using CallGet by (auto simp: durable_exec_def intro: call_outcome_state)
next
  case (CallRecord i res md)
  let ?f = "\<lambda>rec. if se_issuedCredentialID rec \<noteq> '''' then Inl (Refused ErrSessionAlreadyIssued) else Inr (recorded res md rec)"
  have "wp (andThen (durable_read sb now i) (\<lambda>rec. case ?f rec of Inl e \<Rightarrow> throw e | Inr rec' \<Rightarrow> durable_write sb now rec'))
      (\<lambda>_. changes now i d) (\<lambda>_. changes now i d) d"
    by (rule wp_update [OF assms(1)]) (auto simp: recorded_def Let_def split: if_splits)
  moreover have "(\<lambda>rec. case ?f rec of Inl e \<Rightarrow> throw e | Inr rec' \<Rightarrow> durable_write sb now rec') =
      (\<lambda>rec. if se_issuedCredentialID rec \<noteq> '''' then throw (Refused ErrSessionAlreadyIssued)
        else durable_write sb now (recorded res md rec))"
    by (simp add: fun_eq_iff)
  ultimately have "wp (durable_RecordMethodResult sb i res md now) (\<lambda>_. changes now i d) (\<lambda>_. changes now i d) d"
    unfolding durable_RecordMethodResult_def by (auto simp: wp_if wp_throw changes_def)
  then show ?thesis using CallRecord by (auto simp: durable_exec_def intro: call_outcome_state)
next
  case (CallMarkIssued i cid)
  then show ?thesis using call_outcome_state [OF wp_MarkIssued [OF assms(1)]] by (auto simp: durable_exec_def)
next
  case (CallSetKey i kind key)
  let ?f = "\<lambda>rec. map_sum Refused (\<lambda>r. r) (setIdentifierKey kind key rec)"
  have "wp (andThen (durable_read sb now i) (\<lambda>rec. case ?f rec of Inl e \<Rightarrow> throw e | Inr rec' \<Rightarrow> durable_write sb now rec'))
      (\<lambda>_. changes now i d) (\<lambda>_. changes now i d) d"
    by (rule wp_update [OF assms(1)]) (auto simp: setIdentifierKey_def split: if_splits)
  moreover have "(\<lambda>rec. case ?f rec of Inl e \<Rightarrow> throw e | Inr rec' \<Rightarrow> durable_write sb now rec') =
      (\<lambda>rec. case setIdentifierKey kind key rec of Inl e \<Rightarrow> throw (Refused e) | Inr rec' \<Rightarrow> durable_write sb now rec')"
    by (simp add: fun_eq_iff split: sum.split)
  ultimately have "wp (durable_SetIdentifierKey sb i kind key now) (\<lambda>_. changes now i d) (\<lambda>_. changes now i d) d"
    unfolding durable_SetIdentifierKey_def by simp
  then show ?thesis using CallSetKey by (auto simp: durable_exec_def intro: call_outcome_state)
qed

text \<open>The document of a session that the call did not create stays, goes, or is a change of a session not yet issued.\<close>

lemma exec_entry:
  assumes "own_ids d" "creates c \<noteq> Some sid"
  shows "tt_docs (durable_exec sb cr ttl d c now) (sb_Key sb sid) \<in> {tt_docs d (sb_Key sb sid), None} \<or>
    (\<exists>rec rec' x. live now sid d = Some rec \<and> se_issuedCredentialID rec = '''' \<and>
       tt_docs (durable_exec sb cr ttl d c now) (sb_Key sb sid) = Some (Some (SessionRecord rec'), x) \<and>
       se_expiresAt rec' = se_expiresAt rec)"
proof (cases "creates c")
  case None
  then obtain i where i: "changes now i d (durable_exec sb cr ttl d c now)" using exec_changes assms(1) by blast
  show ?thesis
  proof (cases "i = sid")
    case False
    then have "tt_docs (durable_exec sb cr ttl d c now) (sb_Key sb sid) = tt_docs d (sb_Key sb sid)"
      using i key_inj key_not_claim by (auto simp: changes_def)
    then show ?thesis by simp
  next
    case True
    then show ?thesis using i unfolding changes_def by blast
  qed
next
  case (Some i)
  then obtain rnd pub where c: "c = CallCreate rnd pub" "randomSessionID rnd = Some i" by (cases c) auto
  then show ?thesis using exec_created(1) [OF c(2)] assms(2) key_inj by auto
qed

lemma exec_own_ids: "own_ids d \<Longrightarrow> own_ids (durable_exec sb cr ttl d c now)"
proof (cases "creates c")
  case None
  then show "own_ids d \<Longrightarrow> own_ids (durable_exec sb cr ttl d c now)" using exec_changes changes_own_ids by blast
next
  case (Some i)
  then obtain rnd pub where c: "c = CallCreate rnd pub" "randomSessionID rnd = Some i" by (cases c) auto
  show "own_ids d \<Longrightarrow> own_ids (durable_exec sb cr ttl d c now)" using exec_created(2) [OF c(2)] c(1) by blast
qed

lemma live_gone: "live now sid d = None \<Longrightarrow> now \<le> t \<Longrightarrow> live t sid d = None"
  using live_later by fastforce

lemma live_kept:
  "tt_docs d' (sb_Key sb sid) \<in> {tt_docs d (sb_Key sb sid), None} \<Longrightarrow> live t sid d' \<in> {live t sid d, None}"
  by (auto simp: live_def shown_def)

end

sublocale session_documents \<subseteq> contract: session_contract "durable_exec sb cr ttl" "durable_view sb" own_ids for cr ttl
proof
  fix s sid now v c t u
  assume a: "own_ids s" "durable_view sb s sid now = Some v" "sv_IssuedCredentialID v \<noteq> ''''"
    "creates c \<noteq> Some sid" "now \<le> t" "t \<le> (u :: time)"
  then obtain rec where r: "live now sid s = Some rec" "v = session_to_view rec" "se_issuedCredentialID rec \<noteq> ''''"
    by (auto simp: durable_view_live session_to_view_def)
  let ?s = "durable_exec sb cr ttl s c t"
  have l: "live t sid s \<in> {None, Some rec}" "live u sid s \<in> {None, Some rec}"
    using live_later [of now t sid s] live_later [of now u sid s] a(5,6) r(1) by auto
  then have "tt_docs ?s (sb_Key sb sid) \<in> {tt_docs s (sb_Key sb sid), None}"
    using exec_entry [OF a(1,4), of cr ttl t] r(3) by auto
  then have "live u sid ?s \<in> {live u sid s, None}" by (rule live_kept)
  then have "live u sid ?s \<in> {None, Some rec}" using l(2) by auto
  then show "durable_view sb (durable_exec sb cr ttl s c t) sid u \<in> {None, Some v}"
    using r(2) by (auto simp: durable_view_live)
next
  fix s sid now c t u
  assume a: "own_ids s" "durable_view sb s sid now = None" "creates c \<noteq> Some sid" "now \<le> t" "t \<le> (u::time)"
  then have "live now sid s = None" by (simp add: durable_view_live)
  then have n: "live t sid s = None" "live u sid s = None" using live_gone a(4,5) by (auto intro: live_gone)
  have "tt_docs (durable_exec sb cr ttl s c t) (sb_Key sb sid) \<in> {tt_docs s (sb_Key sb sid), None}"
    using exec_entry [OF a(1,3), of cr ttl t] n by auto
  then have "live u sid (durable_exec sb cr ttl s c t) \<in> {live u sid s, None}" by (rule live_kept)
  then show "durable_view sb (durable_exec sb cr ttl s c t) sid u = None" using n by (simp add: durable_view_live)
next
  fix now t :: time and s sid
  assume "now \<le> t"
  then show "durable_view sb s sid t \<in> {None, durable_view sb s sid now}"
    using live_later [of now t sid s] by (auto simp: durable_view_live)
next
  fix s sid t v assume "durable_view sb s sid t = Some v"
  then show "t \<le> sv_ExpiresAt v" by (auto simp: durable_view_live session_to_view_def dest: live_doc)
qed (rule exec_own_ids)

section \<open>The backends keep it\<close>

lemma redis_get_docs:
  "wp (redis_Get now k) (\<lambda>r d'. r = shown (\<lambda>t. now < t) (tt_docs d k) \<and> tt_docs d' = tt_docs d) (\<lambda>_ d'. tt_docs d' = tt_docs d) d"
  unfolding redis_Get_def by (rule wp_step [OF wp_tt_lookup]) (auto simp: wp shown_def split: option.split prod.split)

lemma redis_set_docs:
  "wp (redis_Set now k v ttl) (\<lambda>_ d'. \<exists>x. tt_docs d' = (tt_docs d)(k \<mapsto> (v, x)))
     (\<lambda>_ d'. tt_docs d' = tt_docs d \<or> (\<exists>x. tt_docs d' = (tt_docs d)(k \<mapsto> (v, x)))) d"
proof (cases "0 < ttl \<and> ttl div 1000000 = 0")
  case False
  show ?thesis unfolding redis_Set_def if_not_P [OF False] by (rule wp_mono [OF wp_tt_call]) auto
qed (simp add: redis_Set_def wp_def tt_called_def)

lemma del_docs_law:
  "wp (tt_call (\<lambda>m. m(k := None)) ()) (\<lambda>_ d'. tt_docs d' = (tt_docs d)(k := None))
     (\<lambda>_ d'. tt_docs d' = tt_docs d \<or> tt_docs d' = (tt_docs d)(k := None)) d"
  by (rule wp_mono [OF wp_tt_call]) auto

text \<open>A claim that answers true found no live claim and left one; otherwise the documents stay, or the claim is there.\<close>

lemma redis_claim_docs:
  "wp (redis_Claim now e sid cid)
     (\<lambda>created d'. (if created then \<not> redis_taken now (tt_docs d (redisIssuedKey sid)) \<and> (\<exists>x. tt_docs d' =
         (tt_docs d)(redisIssuedKey sid \<mapsto> (Some (IssueClaim cid), Some x)) \<and>
         x = now + (if sub_time e now \<le> 0 then ns_minute else sub_time e now) div 1000000 * 1000000)
       else tt_docs d' = tt_docs d))
     (\<lambda>_ d'. tt_docs d' = tt_docs d \<or> \<not> redis_taken now (tt_docs d (redisIssuedKey sid)) \<and>
        (\<exists>x. tt_docs d' = (tt_docs d)(redisIssuedKey sid \<mapsto> (Some (IssueClaim cid), x)))) d"
  by (auto simp: redis_Claim_def redis_SetNX_def Let_def wp_def tt_call_def tt_called_def split: call_fate.split)

lemma firestore_claim_docs:
  "wp (firestore_Claim now e sid cid)
     (\<lambda>created d'. if created then tt_docs d (firestoreIssuedKey sid) = None \<and>
         tt_docs d' = (tt_docs d)(firestoreIssuedKey sid \<mapsto> (Some (IssueClaim cid), None))
       else tt_docs d' = tt_docs d)
     (\<lambda>_ d'. tt_docs d' = tt_docs d \<or> tt_docs d (firestoreIssuedKey sid) = None \<and>
        tt_docs d' = (tt_docs d)(firestoreIssuedKey sid \<mapsto> (Some (IssueClaim cid), None))) d"
  by (cases "tt_docs d (firestoreIssuedKey sid)")
    (auto simp: firestore_Claim_def firestore_CreateDoc_def Let_def wp_def tt_call_def tt_called_def split: call_fate.split)

interpretation redis_sess: session_documents redis_sessions "\<lambda>now t. now < t" redisIssuedKey
proof unfold_locales
  fix now k and d :: session_docs
  show "wp (kc_Get (sb_client redis_sessions) now k)
      (\<lambda>r d'. r = shown (\<lambda>t. now < t) (tt_docs d k) \<and> (tt_docs d' = tt_docs d \<or> r = None \<and> tt_docs d' = (tt_docs d)(k := None)))
      (\<lambda>_ d'. tt_docs d' = tt_docs d) d"
    by (simp add: redis_sessions_def redis_client_def wp_mono [OF redis_get_docs])
  show "fst (kc_Get (sb_client redis_sessions) now k d) = Inr (shown (\<lambda>t. now < t) (tt_docs d k))" if "tt_calls d = []"
    using that by (auto simp: redis_sessions_def redis_client_def redis_Get_def tt_lookup_def tt_call_def tt_fate_def andThen_def
        ret_def Let_def shown_def split: option.split)
  show "wp (sb_Claim redis_sessions now e sid cid) (\<lambda>_ d'. \<forall>k. k \<noteq> redisIssuedKey sid \<longrightarrow> tt_docs d' k = tt_docs d k)
      (\<lambda>_ d'. \<forall>k. k \<noteq> redisIssuedKey sid \<longrightarrow> tt_docs d' k = tt_docs d k) d" for e sid cid
    unfolding redis_sessions_def session_backend.simps by (rule wp_mono [OF redis_claim_docs]) (auto split: if_splits)
qed (simp_all add: redis_sessions_def redis_client_def redis_Del_def redis_set_docs del_docs_law sessionRedisKey_def redisIssuedKey_def)

interpretation firestore_sess: session_documents firestore_sessions "\<lambda>now t. now \<le> t" firestoreIssuedKey
proof unfold_locales
  fix now k and d :: session_docs
  show "wp (kc_Get (sb_client firestore_sessions) now k)
      (\<lambda>r d'. r = shown (\<lambda>t. now \<le> t) (tt_docs d k) \<and> (tt_docs d' = tt_docs d \<or> r = None \<and> tt_docs d' = (tt_docs d)(k := None)))
      (\<lambda>_ d'. tt_docs d' = tt_docs d) d"
    unfolding firestore_sessions_def firestore_client_def firestore_Get_def session_backend.simps kv_client.simps
    by (rule wp_step [OF wp_tt_lookup])
      (auto simp: wp shown_def firestore_Del_def intro!: wp_besteffort wp_mono [OF del_docs_law] split: option.split prod.split)
  show "fst (kc_Get (sb_client firestore_sessions) now k d) = Inr (shown (\<lambda>t. now \<le> t) (tt_docs d k))" if "tt_calls d = []"
    using that by (auto simp: firestore_sessions_def firestore_client_def firestore_Get_def tt_lookup_def tt_call_def tt_fate_def
        andThen_def ret_def besteffort_def Let_def shown_def split: option.split)
  show "wp (kc_Set (sb_client firestore_sessions) now k v ttl) (\<lambda>_ d'. \<exists>x. tt_docs d' = (tt_docs d)(k \<mapsto> (v, x)))
      (\<lambda>_ d'. tt_docs d' = tt_docs d \<or> (\<exists>x. tt_docs d' = (tt_docs d)(k \<mapsto> (v, x)))) d" for v ttl
    unfolding firestore_sessions_def firestore_client_def firestore_Set_def session_backend.simps kv_client.simps
    by (rule wp_mono [OF wp_tt_call]) auto
  show "wp (sb_Claim firestore_sessions now e sid cid) (\<lambda>_ d'. \<forall>k. k \<noteq> firestoreIssuedKey sid \<longrightarrow> tt_docs d' k = tt_docs d k)
      (\<lambda>_ d'. \<forall>k. k \<noteq> firestoreIssuedKey sid \<longrightarrow> tt_docs d' k = tt_docs d k) d" for e sid cid
    unfolding firestore_sessions_def session_backend.simps by (rule wp_mono [OF firestore_claim_docs]) (auto split: if_splits)
qed (simp_all add: firestore_sessions_def firestore_client_def firestore_Del_def del_docs_law firestoreSessionKey_def firestoreIssuedKey_def)

section \<open>Nothing changes after issuing\<close>

fun run_durable :: "session_backend \<Rightarrow> crypto \<Rightarrow> duration \<Rightarrow> session_docs \<Rightarrow> (session_call \<times> time) list \<Rightarrow> session_docs" where
  "run_durable sb cr ttl d [] = d"
| "run_durable sb cr ttl d ((c, t) # cs) = run_durable sb cr ttl (durable_exec sb cr ttl d c t) cs"

lemma run_durable_redis: "run_durable redis_sessions cr ttl d cs = redis_sess.contract.run cr ttl d cs"
  by (induction redis_sessions cr ttl d cs rule: run_durable.induct) simp_all

lemma run_durable_firestore: "run_durable firestore_sessions cr ttl d cs = firestore_sess.contract.run cr ttl d cs"
  by (induction firestore_sessions cr ttl d cs rule: run_durable.induct) simp_all

lemma run_own_ids:
  "redis_sess.own_ids d \<Longrightarrow> redis_sess.own_ids (run_durable redis_sessions cr ttl d cs)"
  "firestore_sess.own_ids d' \<Longrightarrow> firestore_sess.own_ids (run_durable firestore_sessions cr ttl d' cs)"
  by (induction cs arbitrary: d d') (auto simp: redis_sess.exec_own_ids firestore_sess.exec_own_ids)

lemma empty_own_ids: "tt_docs d = Map.empty \<Longrightarrow> redis_sess.own_ids d \<and> firestore_sess.own_ids d"
  by (simp add: redis_sess.own_ids_def firestore_sess.own_ids_def)

text \<open>C14: A session issues once, in memory, on Redis and on Firestore and whichever calls to a durable store fail: at any moment
  \<open>w\<close> after a credential was issued from it and whatever was called in between, the session is exactly as it was and not yet
  past its expiry, or it is gone; in memory it is there until it expires. A session that is gone at \<open>w\<close>, for one
  because it expired, is not there at any later \<open>u\<close> either, whatever is called after \<open>w\<close>.\<close>

theorem issued_session_stays:
  assumes "\<forall>c \<in> fst ` set (cs @ cs'). creates c \<noteq> Some sid" "sorted (now # map snd cs @ w # map snd cs' @ [u])"
    "sv_IssuedCredentialID v \<noteq> ''''" and "tt_docs d0 = Map.empty"
  shows "(session_view_of m sid now = Some v \<longrightarrow>
        session_view_of (run_sessions cr m cs) sid w = (if w \<le> sv_ExpiresAt v then Some v else None)) \<and>
    (session_view_of (run_sessions cr m cs) sid w = None \<longrightarrow> session_view_of (run_sessions cr m (cs @ cs')) sid u = None) \<and>
    (\<forall>sb \<in> {redis_sessions, firestore_sessions}.
       (durable_view sb (run_durable sb cr ttl d0 before) sid now = Some v \<longrightarrow>
          durable_view sb (run_durable sb cr ttl (run_durable sb cr ttl d0 before) cs) sid w = None \<or>
          durable_view sb (run_durable sb cr ttl (run_durable sb cr ttl d0 before) cs) sid w = Some v \<and> w \<le> sv_ExpiresAt v) \<and>
       (durable_view sb (run_durable sb cr ttl (run_durable sb cr ttl d0 before) cs) sid w = None \<longrightarrow>
          durable_view sb (run_durable sb cr ttl (run_durable sb cr ttl d0 before) (cs @ cs')) sid u = None))"
proof (intro conjI)
  have "session_view_of (run_sessions cr m cs) sid w = Some v"
    if now: "session_view_of m sid now = Some v" and "w \<le> sv_ExpiresAt v"
  proof -
    obtain sess where s: "ses_sessions m sid = Some sess" "v = session_to_view sess"
      using now by (auto simp: session_view_of_alt split: option.splits if_splits)
    have "\<forall>t \<in> snd ` set cs. t \<le> se_expiresAt sess"
      using assms(2) that(2) s(2) by (auto simp: session_to_view_def sorted_append)
    then show ?thesis
      using issued_kept_run [OF s(1), of cs cr] assms(1,3) s that(2)
      by (auto simp: run_sessions_run session_view_of_alt session_to_view_def)
  qed
  then show "session_view_of m sid now = Some v \<longrightarrow>
      session_view_of (run_sessions cr m cs) sid w = (if w \<le> sv_ExpiresAt v then Some v else None)"
    using in_memory.issued_stays_or_ends [OF TrueI assms(3,1,2), of m cr] by (auto simp: run_sessions_run)
qed (use in_memory.issued_stays_or_ends [OF TrueI assms(3,1,2), of m cr]
    redis_sess.contract.issued_stays_or_ends [OF run_own_ids(1) [OF conjunct1 [OF empty_own_ids [OF assms(4)]]] assms(3,1,2)]
    firestore_sess.contract.issued_stays_or_ends [OF run_own_ids(2) [OF conjunct2 [OF empty_own_ids [OF assms(4)]]] assms(3,1,2)]
  in \<open>simp_all add: run_sessions_run run_durable_redis run_durable_firestore\<close>)

section \<open>A session on both services\<close>

definition sample_random :: bytes where
  "sample_random = ''aaaaaaaaaaaaaaaaaaaaaaaaaaaaaaaa''"

definition sample_sid :: string where
  "sample_sid = ''YWFhYWFhYWFhYWFhYWFhYWFhYWFhYWFhYWFhYWFhYWE''"

lemma sample_sid_random: "randomSessionID (Some sample_random) = Some sample_sid"
  by (simp add: randomSessionID_def sample_random_def sample_sid_def b64_url_def)

lemma sample_sid_valid: "validSessionID sample_sid"
  by (simp add: validSessionID_def sample_sid_def Let_def)

definition sample_durable_calls :: "(session_call \<times> time) list" where
  "sample_durable_calls = [(CallCreate (Some sample_random) [], 5), (CallMarkIssued sample_sid ''urn:1'', 9)]"

lemmas client_run = call_outcome_def andThen_def onError_def ret_def throw_def besteffort_def redis_sessions_def firestore_sessions_def
  redis_client_def firestore_client_def redis_Set_def firestore_Set_def redis_Get_def firestore_Get_def tt_lookup_def
  redis_Claim_def firestore_Claim_def redis_SetNX_def firestore_CreateDoc_def tt_call_def tt_fate_def tt_called_def

definition sample_record :: "crypto \<Rightarrow> session" where
  "sample_record cr = new_session cr ns_hour sample_sid [] 5"

lemma sample_record_simps [simp]:
  "se_id (sample_record cr) = sample_sid" "se_expiresAt (sample_record cr) = 3600000000005"
  "se_issuedCredentialID (sample_record cr) = ''''"
  by (simp_all add: sample_record_def new_session_def ns_hour_def)

lemma sample_sub: "sub_time 3600000000005 5 = 3600000000000" "sub_time 3600000000005 9 = 3599999999996"
  by (simp_all add: sub_time_def max_int64_def min_int64_def)

lemma sample_created:
  "run_durable redis_sessions cr 0 \<lparr>tt_docs = Map.empty, tt_calls = []\<rparr> [(CallCreate (Some sample_random) [], 5)] =
     \<lparr>tt_docs = [sessionRedisKey sample_sid \<mapsto> (Some (SessionRecord (sample_record cr)), Some 3600000000005)], tt_calls = []\<rparr>"
  "run_durable firestore_sessions cr 0 \<lparr>tt_docs = Map.empty, tt_calls = []\<rparr> [(CallCreate (Some sample_random) [], 5)] =
     \<lparr>tt_docs = [firestoreSessionKey sample_sid \<mapsto> (Some (SessionRecord (sample_record cr)), Some 3600000000005)], tt_calls = []\<rparr>"
proof -
  have r: "new_session cr (durable_ttl 0) sample_sid [] 5 = sample_record cr" by (simp add: sample_record_def durable_ttl_def)
  show "run_durable redis_sessions cr 0 \<lparr>tt_docs = Map.empty, tt_calls = []\<rparr> [(CallCreate (Some sample_random) [], 5)] =
     \<lparr>tt_docs = [sessionRedisKey sample_sid \<mapsto> (Some (SessionRecord (sample_record cr)), Some 3600000000005)], tt_calls = []\<rparr>"
    by (simp add: durable_exec_def durable_Create_def sample_sid_random durable_write_def r client_run Let_def sample_sub)
  show "run_durable firestore_sessions cr 0 \<lparr>tt_docs = Map.empty, tt_calls = []\<rparr> [(CallCreate (Some sample_random) [], 5)] =
     \<lparr>tt_docs = [firestoreSessionKey sample_sid \<mapsto> (Some (SessionRecord (sample_record cr)), Some 3600000000005)], tt_calls = []\<rparr>"
    by (simp add: durable_exec_def durable_Create_def sample_sid_random durable_write_def r client_run Let_def sample_sub)
qed

lemma sample_keys:
  "sessionRedisKey sid \<noteq> redisIssuedKey i" "firestoreSessionKey sid \<noteq> firestoreIssuedKey i"
  "redisIssuedKey i \<noteq> sessionRedisKey sid" "firestoreIssuedKey i \<noteq> firestoreSessionKey sid"
  "sb_Key redis_sessions = sessionRedisKey" "sb_Key firestore_sessions = firestoreSessionKey"
  by (simp_all add: sessionRedisKey_def redisIssuedKey_def firestoreSessionKey_def firestoreIssuedKey_def
      redis_sessions_def firestore_sessions_def)

lemma sample_issued:
  "durable_exec redis_sessions cr 0
     \<lparr>tt_docs = [sessionRedisKey sample_sid \<mapsto> (Some (SessionRecord (sample_record cr)), Some 3600000000005)], tt_calls = []\<rparr>
     (CallMarkIssued sample_sid cid) 9 =
   \<lparr>tt_docs = [sessionRedisKey sample_sid \<mapsto> (Some (SessionRecord ((sample_record cr)\<lparr>se_issuedCredentialID := cid\<rparr>)), Some 3599999000009),
      redisIssuedKey sample_sid \<mapsto> (Some (IssueClaim cid), Some 3599999000009)], tt_calls = []\<rparr>"
  "durable_exec firestore_sessions cr 0
     \<lparr>tt_docs = [firestoreSessionKey sample_sid \<mapsto> (Some (SessionRecord (sample_record cr)), Some 3600000000005)], tt_calls = []\<rparr>
     (CallMarkIssued sample_sid cid) 9 =
   \<lparr>tt_docs = [firestoreSessionKey sample_sid \<mapsto> (Some (SessionRecord ((sample_record cr)\<lparr>se_issuedCredentialID := cid\<rparr>)), Some 3600000000005),
      firestoreIssuedKey sample_sid \<mapsto> (Some (IssueClaim cid), None)], tt_calls = []\<rparr>"
  by (simp_all add: sample_keys sample_sid_valid durable_exec_def durable_MarkIssued_def durable_read_def durable_write_def client_run
      Let_def sample_sub redis_taken_def fun_upd_twist fun_eq_iff)

lemma sample_durable:
  assumes "sb \<in> {redis_sessions, firestore_sessions}"
  shows "durable_view sb (run_durable sb cr 0 \<lparr>tt_docs = Map.empty, tt_calls = []\<rparr> sample_durable_calls) sample_sid 9 =
    Some (session_to_view ((sample_record cr)\<lparr>se_issuedCredentialID := ''urn:1''\<rparr>))"
proof -
  have run: "run_durable sb cr 0 d sample_durable_calls =
      durable_exec sb cr 0 (run_durable sb cr 0 d [(CallCreate (Some sample_random) [], 5)]) (CallMarkIssued sample_sid ''urn:1'') 9" for d
    by (simp add: sample_durable_calls_def)
  consider "sb = redis_sessions" | "sb = firestore_sessions" using assms by blast
  then show ?thesis
  proof cases
    case 1
    show ?thesis unfolding run unfolding 1 sample_created sample_issued redis_sess.durable_view_live
      by (simp add: redis_sess.live_def shown_def sample_sid_valid sample_keys)
  next
    case 2
    show ?thesis unfolding run unfolding 2 sample_created sample_issued firestore_sess.durable_view_live
      by (simp add: firestore_sess.live_def shown_def sample_sid_valid sample_keys)
  qed
qed

theorem issued_session_stays_witness:
  "let d = run_durable redis_sessions sample_crypto 0 \<lparr>tt_docs = Map.empty, tt_calls = []\<rparr> sample_durable_calls;
       d' = run_durable firestore_sessions sample_crypto 0 \<lparr>tt_docs = Map.empty, tt_calls = []\<rparr> sample_durable_calls;
       v = session_to_view ((sample_record sample_crypto)\<lparr>se_issuedCredentialID := ''urn:1''\<rparr>)
   in durable_view redis_sessions d sample_sid 9 = Some v \<and> durable_view firestore_sessions d' sample_sid 9 = Some v \<and>
     durable_view redis_sessions (run_durable redis_sessions sample_crypto 0 d [(CallMarkIssued sample_sid ''urn:2'', 10)]) sample_sid 11 \<in> {None, Some v} \<and>
     durable_view firestore_sessions (run_durable firestore_sessions sample_crypto 0 d' [(CallMarkIssued sample_sid ''urn:2'', 10)]) sample_sid 11 \<in> {None, Some v} \<and>
     durable_view firestore_sessions (run_durable firestore_sessions sample_crypto 0 d' [(CallMarkIssued sample_sid ''urn:2'', 10)]) sample_sid 3600000000006 = None"
proof -
  note t = issued_session_stays [of "[(CallMarkIssued sample_sid ''urn:2'', 10)]" "[]" sample_sid 9 _ _
      "session_to_view ((sample_record sample_crypto)\<lparr>se_issuedCredentialID := ''urn:1''\<rparr>)"
      "\<lparr>tt_docs = Map.empty, tt_calls = []\<rparr>" "NewInMemorySessionStore 0" sample_crypto 0 sample_durable_calls]
  show ?thesis
    using t [of 11 11] t [of 3600000000006 3600000000006]
      sample_durable [of redis_sessions sample_crypto] sample_durable [of firestore_sessions sample_crypto]
    by (simp add: Let_def session_to_view_def)
qed

end
