(* ===== verification/Session_Races.thy ===== *)
theory Session_Races
  imports Durable_Sessions
begin

text \<open>
  Calls on the durable session stores (\<open>src/server/session_redis.go\<close>, \<open>session_firestore.go\<close>) that race: each call is the
  sequence of its requests to the service, and requests of different calls come in any order and at any later time. A
  read that deletes what has expired is one request.
\<close>

section \<open>Calls as sequences of requests\<close>

datatype progress = Fresh session_call | Claiming session string string | Storing session | Finished "durable_error option"

definition go_on :: "('s, durable_error, 'a) comp \<Rightarrow> ('a \<Rightarrow> progress) \<Rightarrow> 's \<Rightarrow> progress \<times> 's" where
  "go_on m f d = (case m d of (Inl e, d') \<Rightarrow> (Finished (Some e), d') | (Inr a, d') \<Rightarrow> (f a, d'))"

abbreviation already_issued :: progress where
  "already_issued \<equiv> Finished (Some (Refused ErrSessionAlreadyIssued))"

fun advance :: "session_backend \<Rightarrow> crypto \<Rightarrow> duration \<Rightarrow> time \<Rightarrow> progress \<Rightarrow> session_docs \<Rightarrow> progress \<times> session_docs" where
  "advance sb cr ttl now (Fresh (CallCreate rnd pub)) d =
     (case randomSessionID rnd of
        None \<Rightarrow> (Finished (Some (Refused ErrSessionRandom)), d)
      | Some sid \<Rightarrow> (Storing (new_session cr (durable_ttl ttl) sid pub now), d))"
| "advance sb cr ttl now (Fresh (CallGet sid)) d = go_on (durable_read sb now sid) (\<lambda>_. Finished None) d"
| "advance sb cr ttl now (Fresh (CallRecord sid res md)) d =
     (if \<not> mr_Success res then (Finished (Some (Refused ErrFailedResult)), d)
      else go_on (durable_read sb now sid) (\<lambda>rec.
        if se_issuedCredentialID rec \<noteq> '''' then already_issued else Storing (recorded res md rec)) d)"
| "advance sb cr ttl now (Fresh (CallMarkIssued sid cid)) d =
     go_on (durable_read sb now sid) (\<lambda>rec.
       if se_issuedCredentialID rec \<noteq> '''' then already_issued else Claiming rec sid cid) d"
| "advance sb cr ttl now (Fresh (CallSetKey sid kind key)) d =
     go_on (durable_read sb now sid) (\<lambda>rec.
       case setIdentifierKey kind key rec of Inl e \<Rightarrow> Finished (Some (Refused e)) | Inr rec' \<Rightarrow> Storing rec') d"
| "advance sb cr ttl now (Claiming rec sid cid) d =
     go_on (onError (\<lambda>_. StoreFailed) (sb_Claim sb now (se_expiresAt rec) sid cid)) (\<lambda>created.
       if \<not> created then already_issued else Storing (rec\<lparr>se_issuedCredentialID := cid\<rparr>)) d"
| "advance sb cr ttl now (Storing rec) d = go_on (durable_write sb now rec) (\<lambda>_. Finished None) d"
| "advance sb cr ttl now (Finished r) d = (Finished r, d)"

text \<open>Left alone, three requests are the call.\<close>

lemma advance_alone:
  "(case advance sb cr ttl now (Fresh c) d of (p1, d1) \<Rightarrow>
     case advance sb cr ttl now p1 d1 of (p2, d2) \<Rightarrow> advance sb cr ttl now p2 d2) =
   (case durable_call sb cr ttl c now d of (r, d') \<Rightarrow> (Finished r, d'))"
  by (cases c)
    (auto simp: go_on_def call_outcome_def durable_Create_def durable_Get_def durable_RecordMethodResult_def durable_MarkIssued_def
      durable_SetIdentifierKey_def andThen_def ret_def throw_def Let_def split: option.split sum.split prod.split)

inductive race :: "session_backend \<Rightarrow> crypto \<Rightarrow> duration \<Rightarrow> time \<times> (nat \<Rightarrow> progress) \<times> session_docs \<Rightarrow>
    time \<times> (nat \<Rightarrow> progress) \<times> session_docs \<Rightarrow> bool" for sb cr ttl where
  race_start: "race sb cr ttl s s"
| race_request: "race sb cr ttl s (t, p, d) \<Longrightarrow> t \<le> t' \<Longrightarrow> advance sb cr ttl t' (p i) d = (q, d') \<Longrightarrow>
    race sb cr ttl s (t', p(i := q), d')"

section \<open>One winner\<close>

text \<open>
  A session \<open>sid\<close> whose records are all due at a time in \<open>due\<close>, and requests at \<open>times\<close>: \<open>held\<close> says that its claim is
  taken in a way no other claim passes.
\<close>

locale race_once = session_documents +
  fixes sid :: string and due times :: "time set" and held :: "session_docs \<Rightarrow> bool"
  assumes claim_once: "t \<in> times \<Longrightarrow> e \<in> due \<Longrightarrow>
      wp (sb_Claim sb t e sid cid) (\<lambda>created d'. (created \<longrightarrow> \<not> held d \<and> held d') \<and> (held d \<longrightarrow> held d')) (\<lambda>_ d'. held d \<longrightarrow> held d') d"
    and held_kept: "tt_docs d' (claim_key sid) = tt_docs d (claim_key sid) \<Longrightarrow> held d' = held d"
    and claim_key_inj: "claim_key i = claim_key j \<longleftrightarrow> i = j"
begin

definition due_docs :: "session_docs \<Rightarrow> bool" where
  "due_docs d \<longleftrightarrow> (\<forall>i rec x. tt_docs d (sb_Key sb i) = Some (Some (SessionRecord rec), x) \<longrightarrow>
     i = sid \<or> se_id rec = sid \<longrightarrow> se_expiresAt rec \<in> due)"

fun due_progress :: "session_call \<Rightarrow> progress \<Rightarrow> bool" where
  "due_progress c (Fresh c') \<longleftrightarrow> c' = c"
| "due_progress c (Claiming rec i cid) \<longleftrightarrow> c = CallMarkIssued i cid \<and> (i = sid \<or> se_id rec = sid \<longrightarrow> se_expiresAt rec \<in> due)"
| "due_progress c (Storing rec) \<longleftrightarrow> (se_id rec = sid \<longrightarrow> se_expiresAt rec \<in> due)"
| "due_progress c (Finished r) \<longleftrightarrow> True"

fun marks :: "session_call \<Rightarrow> bool" where
  "marks (CallMarkIssued i cid) \<longleftrightarrow> i = sid"
| "marks _ \<longleftrightarrow> False"

fun passed :: "progress \<Rightarrow> bool" where
  "passed (Storing rec) \<longleftrightarrow> True"
| "passed (Finished r) \<longleftrightarrow> r = None"
| "passed _ \<longleftrightarrow> False"

definition one_winner :: "(nat \<Rightarrow> session_call) \<Rightarrow> (nat \<Rightarrow> progress) \<Rightarrow> session_docs \<Rightarrow> bool" where
  "one_winner calls p d \<longleftrightarrow>
     (\<forall>i j. marks (calls i) \<longrightarrow> marks (calls j) \<longrightarrow> passed (p i) \<longrightarrow> passed (p j) \<longrightarrow> i = j) \<and>
     (\<forall>i. marks (calls i) \<longrightarrow> passed (p i) \<longrightarrow> held d)"

lemma due_live: "due_docs d \<Longrightarrow> live t i d = Some rec \<Longrightarrow> i = sid \<or> se_id rec = sid \<Longrightarrow> se_expiresAt rec \<in> due"
  using live_doc unfolding due_docs_def by blast

lemma go_read:
  assumes "go_on (durable_read sb t i) f d = (q, d')" "due_docs d"
  shows "due_docs d'" "held d' = held d"
    "(\<exists>e. q = Finished (Some e)) \<or> (\<exists>rec. q = f rec \<and> (i = sid \<or> se_id rec = sid \<longrightarrow> se_expiresAt rec \<in> due))"
proof -
  note r = wp_read [of t i d]
  have d': "tt_docs d' = tt_docs d \<or> tt_docs d' = (tt_docs d)(sb_Key sb i := None)"
    using r assms(1) by (auto simp: go_on_def wp_def split: prod.splits sum.splits)
  then show "due_docs d'" using assms(2) unfolding due_docs_def by (metis fun_upd_apply option.distinct(1))
  show "held d' = held d" by (rule held_kept) (use d' key_not_claim in \<open>auto simp: key_not_claim [symmetric]\<close>)
  show "(\<exists>e. q = Finished (Some e)) \<or> (\<exists>rec. q = f rec \<and> (i = sid \<or> se_id rec = sid \<longrightarrow> se_expiresAt rec \<in> due))"
    using r assms(1) due_live [OF assms(2)] by (auto simp: go_on_def wp_def split: prod.splits sum.splits)
qed

lemma go_write:
  assumes "go_on (durable_write sb t rec) (\<lambda>_. Finished None) d = (q, d')" "due_docs d" "se_id rec = sid \<longrightarrow> se_expiresAt rec \<in> due"
  shows "due_docs d'" "held d' = held d" "\<exists>r. q = Finished r"
proof -
  have "wp (durable_write sb t rec)
      (\<lambda>_ d'. tt_docs d' = tt_docs d \<or> (\<exists>x. tt_docs d' = (tt_docs d)(sb_Key sb (se_id rec) \<mapsto> (Some (SessionRecord rec), x))))
      (\<lambda>_ d'. tt_docs d' = tt_docs d \<or> (\<exists>x. tt_docs d' = (tt_docs d)(sb_Key sb (se_id rec) \<mapsto> (Some (SessionRecord rec), x)))) d"
    unfolding durable_write_def wp_onError by (rule wp_mono [OF set_docs]) auto
  then have d': "tt_docs d' = tt_docs d \<or> (\<exists>x. tt_docs d' = (tt_docs d)(sb_Key sb (se_id rec) \<mapsto> (Some (SessionRecord rec), x)))"
    using assms(1) by (auto simp: go_on_def wp_def split: prod.splits sum.splits)
  have old: "tt_docs d (sb_Key sb i) = Some (Some (SessionRecord r), x) \<Longrightarrow> i = sid \<or> se_id r = sid \<Longrightarrow> se_expiresAt r \<in> due" for i r x
    using assms(2) unfolding due_docs_def by blast
  show "due_docs d'" unfolding due_docs_def
  proof (intro allI impI)
    fix i r x assume r: "tt_docs d' (sb_Key sb i) = Some (Some (SessionRecord r), x)" "i = sid \<or> se_id r = sid"
    then have "i = se_id rec \<and> r = rec \<or> tt_docs d (sb_Key sb i) = Some (Some (SessionRecord r), x)"
      using d' key_inj [of i "se_id rec"] by (auto split: if_splits)
    then show "se_expiresAt r \<in> due" using old r(2) assms(3) by blast
  qed
  show "held d' = held d" by (rule held_kept) (use d' key_not_claim in \<open>auto simp: key_not_claim [symmetric]\<close>)
  show "\<exists>r. q = Finished r" using assms(1) by (auto simp: go_on_def split: prod.splits sum.splits)
qed

lemma go_claim:
  assumes "go_on (onError (\<lambda>_. StoreFailed) (sb_Claim sb t e i cid)) (\<lambda>created. if \<not> created then already_issued else f) d = (q, d')"
    "due_docs d" "t \<in> times" "i = sid \<longrightarrow> e \<in> due"
  shows "due_docs d'" "held d \<longrightarrow> held d'" "(\<exists>x. q = Finished (Some x)) \<or> q = f \<and> (i = sid \<longrightarrow> \<not> held d \<and> held d')"
proof -
  have w: "wp (onError (\<lambda>_. StoreFailed) (sb_Claim sb t e i cid)) Q E d"
    if "wp (sb_Claim sb t e i cid) Q (\<lambda>_. E StoreFailed) d" for Q E using that by (simp add: wp_onError)
  have k: "\<forall>k. k \<noteq> claim_key i \<longrightarrow> tt_docs d' k = tt_docs d k"
    using w [OF claim_docs [of t e i cid d]] assms(1) by (auto simp: go_on_def wp_def split: prod.splits sum.splits)
  then show "due_docs d'" using assms(2) key_not_claim by (simp add: due_docs_def)
  have "(held d \<longrightarrow> held d') \<and> ((\<exists>x. q = Finished (Some x)) \<or> q = f \<and> \<not> held d \<and> held d')" if "i = sid"
  proof -
    have "wp (sb_Claim sb t e i cid) (\<lambda>created d'. (created \<longrightarrow> \<not> held d \<and> held d') \<and> (held d \<longrightarrow> held d')) (\<lambda>_ d'. held d \<longrightarrow> held d') d"
      using claim_once [OF assms(3)] assms(4) that by simp
    from w [OF this] show ?thesis using assms(1) by (auto simp: go_on_def wp_def split: prod.splits sum.splits if_splits)
  qed
  moreover have "held d' = held d" if "i \<noteq> sid"
    by (rule held_kept) (use k that claim_key_inj in auto)
  moreover have "(\<exists>x. q = Finished (Some x)) \<or> q = f"
    using assms(1) by (auto simp: go_on_def split: prod.splits sum.splits if_splits)
  ultimately show "held d \<longrightarrow> held d'" "(\<exists>x. q = Finished (Some x)) \<or> q = f \<and> (i = sid \<longrightarrow> \<not> held d \<and> held d')"
    by blast+
qed

text \<open>One request: \<open>c\<close> is the call that makes it.\<close>

lemma advance_keeps:
  assumes "advance sb cr ttl t p d = (q, d')" "due_progress c p" "due_docs d" "t \<in> times"
    and "due = UNIV \<or> creates c \<noteq> Some sid"
  shows "due_progress c q \<and> due_docs d' \<and> (held d \<longrightarrow> held d') \<and>
    (marks c \<longrightarrow> passed q \<longrightarrow> passed p \<or> \<not> held d \<and> held d')"
proof (cases p)
  case (Fresh c')
  then have c: "c' = c" using assms(2) by simp
  show ?thesis
  proof (cases c)
    case (CallCreate rnd pub)
    have "x \<in> due" if "randomSessionID rnd = Some sid" for x using assms(5) that CallCreate by auto
    then show ?thesis using assms(1-4) Fresh c CallCreate
      by (auto simp: new_session_def split: option.splits)
  next
    case (CallGet i)
    then show ?thesis using assms(1) go_read [OF _ assms(3)] Fresh c by fastforce
  next
    case (CallRecord i res md)
    show ?thesis
    proof (cases "mr_Success res")
      case True
      then show ?thesis using assms(1) go_read [OF _ assms(3)] Fresh c CallRecord
        by (fastforce simp: recorded_def Let_def split: if_splits)
    qed (use assms Fresh c CallRecord in auto)
  next
    case (CallMarkIssued i cid)
    then show ?thesis using assms(1) go_read [OF _ assms(3)] Fresh c by (fastforce split: if_splits)
  next
    case (CallSetKey i kind key)
    then show ?thesis using assms(1) go_read [OF _ assms(3)] Fresh c
      by (fastforce simp: setIdentifierKey_def split: if_splits)
  qed
next
  case (Claiming rec i cid)
  then have c: "c = CallMarkIssued i cid" "i = sid \<or> se_id rec = sid \<longrightarrow> se_expiresAt rec \<in> due" using assms(2) by auto
  then show ?thesis using go_claim [OF assms(1) [unfolded Claiming advance.simps] assms(3,4)] by auto
next
  case (Storing rec)
  then show ?thesis using go_write [OF assms(1) [unfolded Storing advance.simps] assms(3)] assms(2) by auto
qed (use assms in auto)

lemma race_keeps:
  assumes "race sb cr ttl s s'" "s = (t0, \<lambda>i. Fresh (calls i), d0)" "s' = (t, p, d)" "due_docs d0" "{t0..t} \<subseteq> times"
    and "due = UNIV \<or> (\<forall>i. creates (calls i) \<noteq> Some sid)"
  shows "t0 \<le> t \<and> due_docs d \<and> (\<forall>i. due_progress (calls i) (p i)) \<and> one_winner calls p d"
  using assms(1-3,5)
proof (induction arbitrary: t p d rule: race.induct)
  case (race_start s)
  then show ?case using assms(4) by (auto simp: one_winner_def)
next
  case (race_request s t1 p1 d1 t' i q d')
  then have t: "t = t'" "p = p1(i := q)" "d = d'" by auto
  have ih: "t0 \<le> t1 \<and> due_docs d1 \<and> (\<forall>i. due_progress (calls i) (p1 i)) \<and> one_winner calls p1 d1"
    using race_request t by fastforce
  then have "t' \<in> times" using race_request.hyps(2) race_request.prems(3) t by auto
  then have k: "due_progress (calls i) q \<and> due_docs d' \<and> (held d1 \<longrightarrow> held d') \<and>
      (marks (calls i) \<longrightarrow> passed q \<longrightarrow> passed (p1 i) \<or> \<not> held d1 \<and> held d')"
    using advance_keeps [OF race_request.hyps(3), of "calls i"] ih assms(6) by blast
  then have "one_winner calls p d" using ih unfolding one_winner_def t by (auto split: if_splits)
  then show ?case using k ih race_request.hyps(2) t by (auto simp del: fun_upd_apply simp: fun_upd_def)
qed

lemma one_success:
  assumes "race sb cr ttl (t0, \<lambda>i. Fresh (calls i), d0) (t, p, d)" "due_docs d0" "{t0..t} \<subseteq> times"
    and "due = UNIV \<or> (\<forall>i. creates (calls i) \<noteq> Some sid)"
    and "calls i = CallMarkIssued sid a" "calls j = CallMarkIssued sid b" "p i = Finished None" "p j = Finished None"
  shows "i = j"
  using race_keeps [OF assms(1) refl refl assms(2-4)] assms(5-8) unfolding one_winner_def by fastforce

end

text \<open>On Firestore a claim is for ever; on Redis it lasts until a millisecond before the session is due, if time does.\<close>

definition redis_held :: "string \<Rightarrow> time \<Rightarrow> session_docs \<Rightarrow> bool" where
  "redis_held sid e d \<longleftrightarrow> (case tt_docs d (redisIssuedKey sid) of Some (_, Some x) \<Rightarrow> e - 1000000 < x | Some (_, None) \<Rightarrow> True | None \<Rightarrow> False)"

interpretation firestore_race: race_once firestore_sessions "\<lambda>now t. now \<le> t" firestoreIssuedKey sid UNIV UNIV
    "\<lambda>d. tt_docs d (firestoreIssuedKey sid) \<noteq> None" for sid
proof unfold_locales
  fix t e cid and d :: session_docs
  show "wp (sb_Claim firestore_sessions t e sid cid)
      (\<lambda>created d'. (created \<longrightarrow> \<not> tt_docs d (firestoreIssuedKey sid) \<noteq> None \<and> tt_docs d' (firestoreIssuedKey sid) \<noteq> None) \<and>
         (tt_docs d (firestoreIssuedKey sid) \<noteq> None \<longrightarrow> tt_docs d' (firestoreIssuedKey sid) \<noteq> None))
      (\<lambda>_ d'. tt_docs d (firestoreIssuedKey sid) \<noteq> None \<longrightarrow> tt_docs d' (firestoreIssuedKey sid) \<noteq> None) d"
    unfolding firestore_sessions_def session_backend.simps
    by (rule wp_mono [OF firestore_claim_docs]) (auto split: if_splits)
qed (simp_all add: firestoreIssuedKey_def)

lemma redis_lasts:
  assumes "t \<le> e - 1000000" "e - t \<le> max_int64"
  shows "sub_time e t > 0" "e - 1000000 < t + sub_time e t div 1000000 * 1000000"
proof -
  have s: "sub_time e t = e - t" using assms by (simp add: sub_time_def Let_def min_int64_def)
  show "sub_time e t > 0" using s assms(1) by simp
  have "(e - t) mod 1000000 < 1000000" "(e - t) div 1000000 * 1000000 + (e - t) mod 1000000 = e - t" by simp_all
  then show "e - 1000000 < t + sub_time e t div 1000000 * 1000000" using s by linarith
qed

interpretation redis_race: race_once redis_sessions "\<lambda>now t. now < t" redisIssuedKey sid "{e}" "{e - max_int64..e - 1000000}"
    "redis_held sid e" for sid e
proof unfold_locales
  fix t e' cid and d :: session_docs
  assume t: "t \<in> {e - max_int64..e - 1000000}" and "e' \<in> {e}"
  then have e: "e' = e" "t \<le> e - 1000000" "e - t \<le> max_int64" by auto
  have free: "\<not> redis_held sid e d" if "\<not> redis_taken t (tt_docs d (redisIssuedKey sid))"
    using that e by (auto simp: redis_held_def redis_taken_def split: option.splits)
  have new: "redis_held sid e d'" if "tt_docs d' = (tt_docs d)(redisIssuedKey sid \<mapsto> (v, Some x))"
    "x = t + (if sub_time e t \<le> 0 then ns_minute else sub_time e t) div 1000000 * 1000000" for d' v x
    using that redis_lasts [OF e(2,3)] by (simp add: redis_held_def)
  have same: "redis_held sid e d' = redis_held sid e d" if "tt_docs d' = tt_docs d" for d' using that by (simp add: redis_held_def)
  show "wp (sb_Claim redis_sessions t e' sid cid)
      (\<lambda>created d'. (created \<longrightarrow> \<not> redis_held sid e d \<and> redis_held sid e d') \<and> (redis_held sid e d \<longrightarrow> redis_held sid e d'))
      (\<lambda>_ d'. redis_held sid e d \<longrightarrow> redis_held sid e d') d"
    unfolding redis_sessions_def session_backend.simps e(1)
    by (rule wp_mono [OF redis_claim_docs]) (auto dest: same free new split: if_splits)
qed (simp_all add: redisIssuedKey_def redis_held_def)

text \<open>C15: However the requests of calls on a session interleave and whichever fail, at most one call marks it as issued,
  so that one credential goes out: on Firestore always, on Redis up to a millisecond before the session is due. A record
  written back by a call that read the session before it was issued does not change that.\<close>

theorem one_issue_per_session:
  assumes "calls i = CallMarkIssued sid a" "calls j = CallMarkIssued sid b" "p i = Finished None" "p j = Finished None"
  shows "(race firestore_sessions cr ttl (t0, \<lambda>i. Fresh (calls i), d0) (t, p, d) \<longrightarrow> i = j) \<and>
    (race redis_sessions cr ttl (t0, \<lambda>i. Fresh (calls i), d0) (t, p, d) \<longrightarrow>
     (\<forall>k rec x. tt_docs d0 k = Some (Some (SessionRecord rec), x) \<longrightarrow> k = sessionRedisKey sid \<or> se_id rec = sid \<longrightarrow> se_expiresAt rec = e) \<longrightarrow>
     (\<forall>i. creates (calls i) \<noteq> Some sid) \<longrightarrow> e - max_int64 \<le> t0 \<longrightarrow> t \<le> e - 1000000 \<longrightarrow> i = j)"
proof (intro conjI impI)
  assume "race firestore_sessions cr ttl (t0, \<lambda>i. Fresh (calls i), d0) (t, p, d)"
  then show "i = j"
    by (rule firestore_race.one_success [OF _ _ subset_UNIV disjI1 [OF refl] assms]) (simp add: firestore_race.due_docs_def)
next
  assume r: "race redis_sessions cr ttl (t0, \<lambda>i. Fresh (calls i), d0) (t, p, d)"
    and e: "\<forall>k rec x. tt_docs d0 k = Some (Some (SessionRecord rec), x) \<longrightarrow> k = sessionRedisKey sid \<or> se_id rec = sid \<longrightarrow> se_expiresAt rec = e"
    and c: "\<forall>i. creates (calls i) \<noteq> Some sid" and t: "e - max_int64 \<le> t0" "t \<le> e - 1000000"
  show "i = j"
  proof (rule redis_race.one_success [OF r _ _ disjI2 [OF c] assms])
    show "redis_race.due_docs sid e d0" using e by (auto simp: redis_race.due_docs_def sample_keys)
    show "{t0..t} \<subseteq> {e - max_int64..e - 1000000}" using t by auto
  qed
qed

section \<open>Two calls on one session\<close>

definition sample_marks :: "nat \<Rightarrow> session_call" where
  "sample_marks i = CallMarkIssued sample_sid (if i = 0 then ''urn:1'' else ''urn:2'')"

definition sample_docs :: "session_backend \<Rightarrow> session_docs" where
  "sample_docs sb = \<lparr>tt_docs = [sb_Key sb sample_sid \<mapsto> (Some (SessionRecord (sample_record sample_crypto)), Some 3600000000005)], tt_calls = []\<rparr>"

lemma race_go:
  "race sb cr ttl s (t, p, d) \<Longrightarrow> t \<le> t' \<Longrightarrow> advance sb cr ttl t' (p i) d = (q, d') \<Longrightarrow> p' = p(i := q) \<Longrightarrow> race sb cr ttl s (t', p', d')"
  using race_request by blast

lemmas race_run = go_on_def durable_read_def durable_write_def client_run Let_def sample_keys sample_sid_valid sample_sub

lemma sample_read:
  "sb \<in> {redis_sessions, firestore_sessions} \<Longrightarrow>
   advance sb cr 0 9 (Fresh (CallMarkIssued sample_sid cid)) (sample_docs sb) = (Claiming (sample_record sample_crypto) sample_sid cid, sample_docs sb)"
  by (auto simp: race_run sample_docs_def)

lemma sample_firestore_wins:
  "\<exists>p d. race firestore_sessions sample_crypto 0 (9, \<lambda>i. Fresh (sample_marks i), sample_docs firestore_sessions) (9, p, d) \<and> p 0 = Finished None"
proof -
  let ?s = "(9, \<lambda>i. Fresh (sample_marks i), sample_docs firestore_sessions)" and ?p = "\<lambda>i. Fresh (sample_marks i)"
  let ?r = "sample_record sample_crypto"
  let ?d = "(sample_docs firestore_sessions)\<lparr>tt_docs := (tt_docs (sample_docs firestore_sessions))(firestoreIssuedKey sample_sid \<mapsto> (Some (IssueClaim ''urn:1''), None))\<rparr>"
  have 1: "race firestore_sessions sample_crypto 0 ?s (9, ?p(0 := Claiming ?r sample_sid ''urn:1''), sample_docs firestore_sessions)"
    by (rule race_go [OF race_start order.refl, where i = 0]) (simp_all add: sample_marks_def sample_read del: advance.simps)
  have 2: "race firestore_sessions sample_crypto 0 ?s (9, ?p(0 := Storing (?r\<lparr>se_issuedCredentialID := ''urn:1''\<rparr>)), ?d)"
    by (rule race_go [OF 1 order.refl, where i = 0]) (simp_all add: race_run sample_docs_def fun_eq_iff)
  have 3: "\<exists>d'. advance firestore_sessions sample_crypto 0 9 (Storing (?r\<lparr>se_issuedCredentialID := ''urn:1''\<rparr>)) ?d = (Finished None, d')"
    by (simp add: race_run sample_docs_def)
  then obtain d' where 3: "advance firestore_sessions sample_crypto 0 9 (Storing (?r\<lparr>se_issuedCredentialID := ''urn:1''\<rparr>)) ?d = (Finished None, d')" by blast
  have "race firestore_sessions sample_crypto 0 ?s (9, ?p(0 := Finished None), d')"
    by (rule race_go [OF 2 order.refl, where i = 0]) (simp_all only: fun_upd_same 3 fun_upd_upd)
  then show ?thesis by (intro exI conjI) (assumption, simp_all)
qed

theorem one_issue_per_session_witness:
  "\<exists>p d. race firestore_sessions sample_crypto 0 (9, \<lambda>i. Fresh (sample_marks i), sample_docs firestore_sessions) (9, p, d) \<and>
     p 0 = Finished None \<and> p 1 \<noteq> Finished None"
proof -
  obtain p d where r: "race firestore_sessions sample_crypto 0 (9, \<lambda>i. Fresh (sample_marks i), sample_docs firestore_sessions) (9, p, d)"
    "p 0 = Finished None" using sample_firestore_wins by blast
  have "p 1 \<noteq> Finished None"
    using one_issue_per_session [of sample_marks 0 sample_sid "''urn:1''" 1 "''urn:2''" p sample_crypto 0 9 "sample_docs firestore_sessions" 9 d] r
    by (auto simp: sample_marks_def)
  then show ?thesis using r by blast
qed

text \<open>
  On Redis the claim goes with the session: a call that read the session and claims once it is over passes, and two credentials
  were issued from one session.
\<close>

lemma redis_issues_twice:
  "\<exists>t p d. race redis_sessions sample_crypto 0 (9, \<lambda>i. Fresh (sample_marks i), sample_docs redis_sessions) (t, p, d) \<and>
     p 0 = Finished None \<and> p 1 = Finished None"
proof -
  let ?s = "(9, \<lambda>i. Fresh (sample_marks i), sample_docs redis_sessions)" and ?p = "\<lambda>i. Fresh (sample_marks i)"
  let ?r = "sample_record sample_crypto" and ?sb = "redis_sessions" and ?t = "3600000000006 :: time"
  let ?c0 = "Claiming ?r sample_sid ''urn:1''"
  have 1: "race ?sb sample_crypto 0 ?s (9, ?p(0 := ?c0), sample_docs ?sb)"
    by (rule race_go [OF race_start order.refl, where i = 0]) (simp_all add: sample_marks_def sample_read del: advance.simps)
  have 2: "race ?sb sample_crypto 0 ?s (9, ?p(0 := ?c0, 1 := Claiming ?r sample_sid ''urn:2''), sample_docs ?sb)"
    by (rule race_go [OF 1 order.refl, where i = 1]) (simp_all add: sample_marks_def sample_read del: advance.simps)
  obtain d3 where d3: "advance ?sb sample_crypto 0 9 (Claiming ?r sample_sid ''urn:2'') (sample_docs ?sb) =
      (Storing (?r\<lparr>se_issuedCredentialID := ''urn:2''\<rparr>), d3)" "tt_docs d3 (redisIssuedKey sample_sid) = Some (Some (IssueClaim ''urn:2''), Some 3599999000009)" "tt_calls d3 = []"
    by (simp add: race_run sample_docs_def redis_taken_def)
  have 3: "race ?sb sample_crypto 0 ?s (9, ?p(0 := ?c0, 1 := Storing (?r\<lparr>se_issuedCredentialID := ''urn:2''\<rparr>)), d3)"
    by (rule race_go [OF 2 order.refl, where i = 1]) (simp_all only: fun_upd_same d3 fun_upd_upd)
  obtain d4 where d4: "advance ?sb sample_crypto 0 9 (Storing (?r\<lparr>se_issuedCredentialID := ''urn:2''\<rparr>)) d3 = (Finished None, d4)"
    "tt_docs d4 (redisIssuedKey sample_sid) = Some (Some (IssueClaim ''urn:2''), Some 3599999000009)" "tt_calls d4 = []"
    using d3(2,3) by (simp add: race_run)
  have 4: "race ?sb sample_crypto 0 ?s (9, ?p(0 := ?c0, 1 := Finished None), d4)"
    by (rule race_go [OF 3 order.refl, where i = 1]) (simp_all only: fun_upd_same d4 fun_upd_upd)
  obtain d5 where d5: "advance ?sb sample_crypto 0 ?t ?c0 d4 = (Storing (?r\<lparr>se_issuedCredentialID := ''urn:1''\<rparr>), d5)" "tt_calls d5 = []"
    using d4(2,3) by (simp add: race_run redis_taken_def sub_time_def ns_minute_def max_int64_def min_int64_def)
  have 5: "race ?sb sample_crypto 0 ?s (?t, ?p(0 := Storing (?r\<lparr>se_issuedCredentialID := ''urn:1''\<rparr>), 1 := Finished None), d5)"
    by (rule race_go [OF 4, where i = 0]) (simp_all add: d5 fun_eq_iff del: advance.simps)
  obtain d6 where d6: "advance ?sb sample_crypto 0 ?t (Storing (?r\<lparr>se_issuedCredentialID := ''urn:1''\<rparr>)) d5 = (Finished None, d6)"
    using d5(2) by (simp add: race_run sub_time_def max_int64_def min_int64_def)
  have "race ?sb sample_crypto 0 ?s (?t, ?p(0 := Finished None, 1 := Finished None), d6)"
    by (rule race_go [OF 5 order.refl, where i = 0]) (simp_all add: d6 fun_eq_iff del: advance.simps)
  then show ?thesis by (intro exI conjI) (assumption, simp_all)
qed

end
