(* ===== verification/Spec2Isabelle.thy ===== *)
theory Spec2Isabelle
  imports Policy_Model Registry_Model Equivocation Rate_Limits Session_Store Revocation_Store Identifier_Model Vouching
    Issuance_Example Selfie_Example Review_Queue Reinstatement Method_Begin Document_Chip Phone_Codes Email_Links
    Hosted_Safety Device_Safety Light_Methods Session_Races
begin

text \<open>
  A model of Personhood, a proof-of-personhood issuer in Go: people complete verification methods in an
  enrollment session, the issuer signs a credential for their holder key, verifiers evaluate it against a
  policy, and the issuer can revoke, recover and reinstate people.

  \<^bold>\<open>Parts and their theories\<close>

  \<^item> \<open>Prelude\<close>: Go's strings, times (\<open>int\<close> nanoseconds since the zero time), durations and int64 arithmetic
    (\<open>wrap64\<close>), association lists for maps whose order matters, hex.
  \<^item> \<open>Types_Model\<close> (\<open>pkg/types\<close>): every struct of the wire format as a record and every \<open>Validate\<close> method.
  \<^item> \<open>Policy_Model\<close> (\<open>src/policy\<close>): \<open>Evaluate\<close> in the order of the code, \<open>DeriveNullifier\<close>, parsing. A
    declarative acceptance predicate is refined by \<open>Evaluate\<close>; what \<open>docs/04-policy-dsl.md\<close> says instead is
    \<open>policy_documented\<close>, which accepts strictly more.
  \<^item> \<open>Registry_Model\<close> (\<open>src/registry\<close>).
  \<^item> \<open>Codec\<close>, \<open>Base58_Did\<close> (\<open>base58.go\<close>, \<open>did.go\<close>): base64, base58 by its array loops, DIDs and nullifier
    bindings.
  \<^item> \<open>Credential_Model\<close>, \<open>Status_List\<close>, \<open>Equivocation\<close> (\<open>src/credential\<close>): issuing, verifying, the bit string of
    the status list, proofs that a key signed two statements for one slot.
  \<^item> \<open>Rate_Limits\<close> (\<open>sendlimit.go\<close>, \<open>ratelimit.go\<close>), \<open>Session_Store\<close> (\<open>session.go\<close>), \<open>Revocation_Store\<close>
    (\<open>revocation.go\<close>), \<open>Identifier_Model\<close> (\<open>identifier.go\<close>), \<open>Holder_Ledger\<close> (the stores of
    \<open>holderrevoke.go\<close>, in memory and over a key-value store): the stores of the issuer.
  \<^item> \<open>Vouch_Store\<close>, \<open>Vouch_Codes\<close>, \<open>Vouching\<close> (\<open>src/methods/social-vouching\<close>): the trust graph, the in-person
    ceremony with its four handlers, penalties and the anchor.
  \<^item> \<open>Fuzzy_Extractor\<close> (\<open>src/methods/fuzzy-extractor-selfie/extractor.go\<close>): \<open>Gen\<close> and \<open>Rep\<close> on 8-bit words, and
    the abstract view by bit positions. \<open>Selfie_Accumulator\<close> (\<open>accumulator.go\<close>, \<open>accumulator_store.go\<close>): the
    locale \<open>accumulator\<close> and its in-memory, Firestore and Redis stores. \<open>Selfie_Liveness\<close> (\<open>liveness.go\<close>): the
    challenge token and the check of the evidence. \<open>Selfie_Method\<close> (\<open>method.go\<close>, \<open>native.go\<close>): both ceremonies
    and the enrollment they share. \<open>Selfie_Safety\<close>: what any run of them guarantees, with runs in \<open>Selfie_Example\<close>.
  \<^item> \<open>Mrz\<close>, \<open>Signed_Qr\<close>, \<open>Document_Chip\<close> (\<open>src/methods/document-chip\<close>: \<open>icao/mrz.go\<close>, \<open>signedqr/signedqr.go\<close>,
    \<open>method.go\<close>, \<open>support.go\<close> and the data groups of \<open>icao/sod.go\<close>): passports by their chip and ID cards by their QR.
  \<^item> \<open>Ttl_Store\<close> (\<open>pkg/redisclient\<close>, \<open>pkg/firestoreclient\<close>): documents with a lifetime, as the clients of the two
    services use them. \<open>Otp_Store\<close>, \<open>Phone_Codes\<close> (\<open>src/methods/sms\<close>, \<open>phone-carrier-tier\<close>): stores of one-time
    codes, in memory and durable, and the two phone ceremonies. \<open>Email_Links\<close> (\<open>src/methods/email\<close>, \<open>email-tier\<close>): the
    two e-mail ceremonies, their token stores and tiers.
  \<^item> \<open>Webhook_Signature\<close>, \<open>Hosted_Methods\<close>, \<open>Hosted_Safety\<close> (\<open>src/methods/government-id-liveness\<close>,
    \<open>plaid-bank-link\<close>, \<open>paid-billing-card\<close>): the signature of a vendor's webhook, the three handlers, the result
    stores, the three ceremonies, and any run of reports and ceremonies together.
  \<^item> \<open>Device_Attestation\<close>, \<open>Device_Safety\<close> (\<open>src/methods/app-attest-device\<close>, \<open>src/server/appattest.go\<close>): the
    Android key attestation chain, the vendor's status list, the limit of sessions per device, the ceremony and
    the choice of verifiers at start-up.
  \<^item> \<open>Durable_Sessions\<close>, \<open>Session_Races\<close> (\<open>session_redis.go\<close>, \<open>session_firestore.go\<close>): the session stores over the two
    services, as calls and as the requests of calls that race.
  \<^item> \<open>Light_Methods\<close> (\<open>src/methods/captcha-turnstile\<close>, \<open>ip-asn-reputation\<close>).
  \<^item> \<open>Server_Monad\<close>: how a handler runs, as a state and error monad with weakest preconditions (\<open>wp\<close>) and
    invariants (\<open>keeps\<close>).
  \<^item> \<open>Server_State\<close> (\<open>server.go\<close>, \<open>nolockout.go\<close>): the server's configuration, its state (one field per store)
    and the calls through which the handlers reach the stores.
  \<^item> \<open>Holder_Revocation\<close> (\<open>holderrevoke.go\<close>), \<open>Lockout\<close> (\<open>nolockout.go\<close>, \<open>selfienative.go\<close>), \<open>Recovery\<close>
    (\<open>recovery.go\<close>), \<open>Issuance\<close> and \<open>Method_Begin\<close> (\<open>handlers.go\<close>, \<open>holderpop.go\<close>, \<open>inperson.go\<close>), \<open>Review\<close>
    (\<open>review.go\<close>): one definition per handler and per helper, with every guard in the order of the code.
  \<^item> \<open>Recovery_Machine\<close>, \<open>Recovery_Limits\<close>, \<open>Issuance_Safety\<close>, \<open>Review_Queue\<close>, \<open>Reinstatement\<close>: what these handlers
    guarantee together. \<open>Recovery_Example\<close> and \<open>Issuance_Example\<close> hold concrete runs.

  \<^bold>\<open>How the parts interact\<close>

  A handler reads a session, calls stores in order and answers a value or a refusal. Completing a method
  records its result in the session; issuing checks the ban list and the lockout rules, allocates and binds a
  status slot, writes the ledger and the identity index, and closes the session. Revoking a holder bans it,
  revokes its credentials by the ledger's records, bans the nullifiers they touched and penalizes its
  vouchers; a recovery retires the old key the same way; reinstating undoes a revocation.

  \<^bold>\<open>Failures\<close>

  Each call to a durable store may fail: \<open>ss_faults\<close> lists, for the calls to come, which do. Every
  \<open>if err != nil\<close> is therefore a branch of the model, and statements without a hypothesis on \<open>ss_faults\<close> hold
  whatever fails. A failing call leaves its store as it was. A property that needs the stores to answer says
  so by \<open>ss_faults s = []\<close>.

  \<^bold>\<open>Locales\<close>

  Interfaces are locales interpreted on the code's own definitions: the revocation store, the identifier
  seeds, the session store (three implementations; the durable ones by \<open>session_documents\<close>), the claim that decides
  races (\<open>race_once\<close>), the key-value store and the ledger over it, the accumulator of
  enrolled faces (three stores), \<open>ttl_client\<close> (two clients), the code stores \<open>otp_store\<close> and \<open>durable_otp_store\<close>,
  the token stores \<open>token_store\<close>, \<open>durable_token_store\<close>, \<open>email_store\<close> and \<open>tier_store\<close>, the webhook results
  \<open>result_store\<close> and \<open>durable_result_store\<close>, and the frames \<open>recovery_frame\<close>,
  \<open>ban_frame\<close>, \<open>ban_growth\<close>, \<open>review_frame\<close>, which say once for all handlers which calls leave a part of the
  state alone.

  \<^bold>\<open>Groups of lemmas\<close>

  Credentials: an issued credential verifies and a changed one does not; policies accept exactly what their
  specification accepts, and never more later. Stores: the shape of sessions, one credential
  per session under races, slots that are revoked exactly
  when asked, limits per hour, quotas of vouchers, equal answers of the two ledgers. Handlers: what is issued is
  on record and on nobody banned; a revoked holder stays out over any run; the cascade resumes after any
  failure; recoveries follow a machine with a delay, one at a time, with a cooldown; the review queue loses no
  review; reinstating is the inverse of revoking. Selfies: the extractor tolerates exactly seven flips a block and
  63 in all, no run enrolls two faces within that tolerance, and the 17-bit seed bounds what digests can tell apart.
  Documents: a printed zone parses, a card or a chip is accepted only for what its authority signed, a chip answers
  each challenge once. Codes and links: a code is guessed at most as often as the store allows, a link works once,
  and a completed session named the number or address that was proved. Vendors: a signed webhook is
  accepted within the replay window, and a session completes only on an approved report the vendor signed for it.
  Devices: a pinned root signed the attested device over the session's challenge, and one device opens
  boundedly many sessions.

  \<^bold>\<open>Conventions and bounds\<close>

  Bytes and strings are \<open>string\<close>s. SHA-256, HMAC and Ed25519 are the fields of \<open>crypto\<close>; what is needed of them is
  a hypothesis (a signature made verifies under its public half, no collision on the inputs at hand).
  JSON and YAML codecs are parameters. One request reads the clock once and runs alone, as the mutexes of the
  stores and a single issuer process have it. Random values are arguments; ids drawn are assumed fresh where
  a run needs it. A \<open>float64\<close> is a real. The order in which \<open>range\<close> visits a map is a parameter. Loops of the code
  are recursions with a measure; the only fuel is the code's own bound on slot allocation.

  \<^bold>\<open>Not modelled\<close>

  HTTP plumbing, routing, CORS and request logs; environment parsing and dependency wiring other than the attestation
  verifiers; the Firestore and Redis network clients (third-party services), the SMS and mail senders, the vendors' HTTP APIs
  beyond the reading of their answers, and the codecs of JSON documents (\<open>json.Unmarshal\<close> is an argument); X.509,
  ASN.1 (\<open>ParseKeyDescription\<close> included), CMS and the elliptic curves of the \<open>icao\<close> package, which are parameters of the
  chip and device ceremonies; \<open>net/url\<close> in the links of e-mails; two calls racing on one durable store other than the
  session stores; the web
  application, the SDKs and the tools; the float64 motion analysis of the native selfie, whose verdict is a
  parameter. English texts of answers are left out, their status and code are kept.
\<close>

end
